(* ===== verification/Prelude.thy ===== *)
theory Prelude
  imports Main "HOL-Library.Signed_Division"
begin

text \<open>
  Shared vocabulary of the development: the theorem collections the component
  theories add to, the error values that stand for thrown JavaScript errors and
  rejected promises, the result type \<open>err + 'a\<close> with its sequencing operator, and
  the lemmas on results, options, lists and maps that every component uses.
\<close>

unbundle bit_operations_syntax

section \<open>Theorem collections\<close>

named_theorems js_simps \<open>evaluation rules of the JavaScript library functions\<close>
named_theorems store_simps \<open>read-after-write rules of the database tables\<close>
named_theorems decode_simps \<open>evaluation rules of the XDR decoders\<close>
named_theorems frame \<open>what an operation leaves unchanged\<close>

section \<open>Errors and results\<close>

text \<open>
  A thrown error. \<open>Thrown msg\<close> is \<open>new Error(msg)\<close> in the source, the other
  constructors are the errors the language and Prisma raise; \<open>External msg\<close> is an
  error of a service outside the repository (database connection, RPC node).
\<close>

datatype err =
    Thrown string
  | TypeError
  | SyntaxError
  | RangeError
  | ReferenceError string
  | PrismaError string
  | External string

type_synonym 'a result = "err + 'a"

definition bindE :: "'e + 'a \<Rightarrow> ('a \<Rightarrow> 'e + 'b) \<Rightarrow> 'e + 'b" where
  "bindE m k = (case m of Inl e \<Rightarrow> Inl e | Inr x \<Rightarrow> k x)"

definition guardE :: "bool \<Rightarrow> 'e \<Rightarrow> 'e + unit" where
  "guardE ok e = (if ok then Inr () else Inl e)"

definition of_opt :: "'e \<Rightarrow> 'a option \<Rightarrow> 'e + 'a" where
  "of_opt e x = (case x of None \<Rightarrow> Inl e | Some y \<Rightarrow> Inr y)"

abbreviation isOk :: "'e + 'a \<Rightarrow> bool" where
  "isOk r \<equiv> (\<exists>x. r = Inr x)"

lemma bindE_Inl [simp]: "bindE (Inl e) k = Inl e"
  by (simp add: bindE_def)

lemma bindE_Inr [simp]: "bindE (Inr x) k = k x"
  by (simp add: bindE_def)

lemma bindE_assoc: "bindE (bindE m k) h = bindE m (\<lambda>x. bindE (k x) h)"
  by (simp add: bindE_def split: sum.split)

lemma bindE_eq_Inr: "bindE m k = Inr y \<longleftrightarrow> (\<exists>x. m = Inr x \<and> k x = Inr y)"
  by (auto simp: bindE_def split: sum.splits)

lemma bindE_eq_Inl: "bindE m k = Inl e \<longleftrightarrow> m = Inl e \<or> (\<exists>x. m = Inr x \<and> k x = Inl e)"
  by (auto simp: bindE_def split: sum.splits)

lemma bindE_cong [fundef_cong]:
  "m = m' \<Longrightarrow> (\<And>x. m' = Inr x \<Longrightarrow> k x = k' x) \<Longrightarrow> bindE m k = bindE m' k'"
  by (auto simp: bindE_def split: sum.splits)

lemma guardE_simps [simp]: "guardE True e = Inr ()" "guardE False e = Inl e"
  by (simp_all add: guardE_def)

lemma guardE_eq_Inr [simp]: "guardE ok e = Inr u \<longleftrightarrow> ok"
  by (simp add: guardE_def)

lemma of_opt_simps [simp]: "of_opt e None = Inl e" "of_opt e (Some x) = Inr x"
  by (simp_all add: of_opt_def)

lemma of_opt_eq_Inr [simp]: "of_opt e x = Inr y \<longleftrightarrow> x = Some y"
  by (cases x) auto

lemma Inr_not_Inl_ex: "(\<forall>e. r \<noteq> Inl e) \<longleftrightarrow> isOk r"
  by (cases r) auto

section \<open>Truncating division\<close>

text \<open>
  BigInt division and remainder round towards zero; the library's \<open>sdiv\<close> and
  \<open>smod\<close> do. On the non-negative amounts of the program they are \<open>div\<close> and \<open>mod\<close>.
\<close>

lemma sdiv_nonneg: "(0::int) \<le> a \<Longrightarrow> 0 \<le> b \<Longrightarrow> a sdiv b = a div b"
  by (cases "a = 0"; cases "b = 0") (simp_all add: signed_divide_int_def)

lemma smod_nonneg: "(0::int) \<le> a \<Longrightarrow> 0 \<le> b \<Longrightarrow> a smod b = a mod b"
  by (cases "a = 0") (simp_all add: signed_modulo_int_def)

section \<open>Maps and lists\<close>

lemma map_upd_dom_card:
  "finite (dom m) \<Longrightarrow> card (dom (m(k \<mapsto> v))) = (if k \<in> dom m then card (dom m) else Suc (card (dom m)))"
  by (simp add: insert_absorb)

lemma sum_list_filter_split:
  "sum_list (map f (filter P xs)) + sum_list (map f (filter (\<lambda>x. \<not> P x) xs)) = (sum_list (map f xs) :: int)"
  by (induction xs) auto

lemma filter_length_split:
  "length (filter P xs) + length (filter (\<lambda>x. \<not> P x) xs) = length xs"
  by (rule sum_length_filter_compl)

end
