(* ===== verification/Js_Values.thy ===== *)
theory Js_Values
  imports Prelude
begin

text \<open>
  The part of the JavaScript language and library the sources use on values: decimal
  printing and \<open>BigInt\<close> parsing, \<open>Number(bigint)\<close> rounding, \<open>BigInt.asIntN\<close>, trimming,
  splitting, padding, \<open>parseInt\<close>, and JSON values with \<open>JSON.stringify\<close>. Strings are
  lists of code units below 256; a bigint is an \<open>int\<close>; a number that holds an integer is
  an \<open>int\<close>, with the rounding to 53 significant bits written out in \<open>toNumber\<close>.
\<close>

section \<open>Characters\<close>

definition code :: "char \<Rightarrow> nat" where
  "code c = (of_char c :: nat)"

definition is_ws :: "char \<Rightarrow> bool" where
  "is_ws c = (let n = code c in n = 32 \<or> (9 \<le> n \<and> n \<le> 13) \<or> n = 160)"

definition is_digit :: "char \<Rightarrow> bool" where
  "is_digit c = (48 \<le> code c \<and> code c \<le> 57)"

definition digit_char :: "nat \<Rightarrow> char" where
  "digit_char n = char_of (48 + n)"

definition upper_char :: "char \<Rightarrow> char" where
  "upper_char c = (if 97 \<le> code c \<and> code c \<le> 122 then char_of (code c - 32) else c)"

definition radix_val :: "nat \<Rightarrow> char \<Rightarrow> nat option" where
  "radix_val b c =
     (let n = code c;
          d = (if 48 \<le> n \<and> n \<le> 57 then n - 48
               else if 97 \<le> n \<and> n \<le> 122 then n - 87
               else if 65 \<le> n \<and> n \<le> 90 then n - 55
               else b)
      in if d < b then Some d else None)"

lemma code_digit_char: "n < 10 \<Longrightarrow> code (digit_char n) = 48 + n"
  by (simp add: code_def digit_char_def take_bit_nat_def)

lemma is_digit_digit_char [js_simps]: "n < 10 \<Longrightarrow> is_digit (digit_char n)"
  by (simp add: is_digit_def code_digit_char)

lemma not_ws_digit: "is_digit c \<Longrightarrow> \<not> is_ws c"
  by (auto simp: is_digit_def is_ws_def Let_def)

lemma radix_val_digit: "is_digit c \<Longrightarrow> radix_val 10 c = Some (code c - 48)"
  by (auto simp: is_digit_def radix_val_def Let_def)

lemma radix_val_digit_char: "n < 10 \<Longrightarrow> radix_val 10 (digit_char n) = Some n"
  by (simp add: radix_val_digit is_digit_digit_char code_digit_char)

lemma digit_not_sign:
  "is_digit c \<Longrightarrow> c \<noteq> CHR ''-'' \<and> c \<noteq> CHR ''+'' \<and> c \<noteq> CHR ''.'' \<and> c \<noteq> CHR ''x'' \<and> c \<noteq> CHR ''X''
     \<and> c \<noteq> CHR ''o'' \<and> c \<noteq> CHR ''O'' \<and> c \<noteq> CHR ''b'' \<and> c \<noteq> CHR ''B''"
  by (auto simp: is_digit_def code_def)

section \<open>Decimal printing\<close>

fun nat_toString :: "nat \<Rightarrow> string" where
  "nat_toString n =
     (if n < 10 then [digit_char n] else nat_toString (n div 10) @ [digit_char (n mod 10)])"

declare nat_toString.simps [simp del]

definition toString :: "int \<Rightarrow> string" where
  "toString i = (if i < 0 then CHR ''-'' # nat_toString (nat (- i)) else nat_toString (nat i))"

lemma nat_toString_digits: "list_all is_digit (nat_toString n)"
proof (induction n rule: nat_toString.induct)
  case (1 n)
  then show ?case
    by (subst nat_toString.simps) (auto simp: is_digit_digit_char)
qed

lemma nat_toString_nonempty [simp]: "nat_toString n \<noteq> []"
  by (subst nat_toString.simps) simp

lemma digit_char_eval [simp]:
  "digit_char 0 = CHR ''0''" "digit_char 1 = CHR ''1''" "digit_char (Suc 0) = CHR ''1''"
  "digit_char 2 = CHR ''2''" "digit_char 3 = CHR ''3''" "digit_char 4 = CHR ''4''"
  "digit_char 5 = CHR ''5''" "digit_char 6 = CHR ''6''" "digit_char 7 = CHR ''7''"
  "digit_char 8 = CHR ''8''" "digit_char 9 = CHR ''9''"
  by (simp_all add: digit_char_def char_of_def bit_0)

lemma nat_toString_eval [simp]:
  "nat_toString 0 = ''0''" "nat_toString (Suc 0) = ''1''"
  "nat_toString (numeral w) =
     (if (numeral w :: nat) < 10 then [digit_char (numeral w)]
      else nat_toString (numeral w div 10) @ [digit_char (numeral w mod 10)])"
  by (simp_all add: nat_toString.simps [of 0] nat_toString.simps [of "Suc 0"] nat_toString.simps [of "numeral w"])

lemma toString_eval [simp]:
  "toString 0 = ''0''" "toString 1 = ''1''" "toString (numeral w) = nat_toString (numeral w)"
  "toString (- numeral w) = CHR ''-'' # nat_toString (numeral w)"
  by (simp_all add: toString_def)

section \<open>Parsing\<close>

fun parse_radix_acc :: "nat \<Rightarrow> nat \<Rightarrow> string \<Rightarrow> nat option" where
  "parse_radix_acc b acc [] = Some acc"
| "parse_radix_acc b acc (c # cs) =
     (case radix_val b c of None \<Rightarrow> None | Some d \<Rightarrow> parse_radix_acc b (acc * b + d) cs)"

definition parse_radix :: "nat \<Rightarrow> string \<Rightarrow> nat option" where
  "parse_radix b s = (if s = [] then None else parse_radix_acc b 0 s)"

definition trim :: "string \<Rightarrow> string" where
  "trim s = rev (dropWhile is_ws (rev (dropWhile is_ws s)))"

text \<open>
  \<open>BigInt(s)\<close>: \<open>None\<close> is the thrown SyntaxError. White space is stripped, the empty
  string is 0, the prefixes 0x, 0o and 0b select a radix and admit no sign.
\<close>

definition radix_of :: "char \<Rightarrow> nat option" where
  "radix_of c =
     (if c = CHR ''x'' \<or> c = CHR ''X'' then Some 16
      else if c = CHR ''o'' \<or> c = CHR ''O'' then Some 8
      else if c = CHR ''b'' \<or> c = CHR ''B'' then Some 2
      else None)"

definition radix_prefix :: "string \<Rightarrow> nat option" where
  "radix_prefix t =
     (case t of c # d # _ \<Rightarrow> if c = CHR ''0'' then radix_of d else None | _ \<Rightarrow> None)"

definition signed_decimal :: "string \<Rightarrow> int option" where
  "signed_decimal t =
     (if t \<noteq> [] \<and> hd t = CHR ''-'' then map_option (\<lambda>n. - int n) (parse_radix 10 (tl t))
      else if t \<noteq> [] \<and> hd t = CHR ''+'' then map_option int (parse_radix 10 (tl t))
      else map_option int (parse_radix 10 t))"

definition BigInt :: "string \<Rightarrow> int option" where
  "BigInt s =
     (let t = trim s in
      if t = [] then Some 0
      else case radix_prefix t of
             Some b \<Rightarrow> map_option int (parse_radix b (drop 2 t))
           | None \<Rightarrow> signed_decimal t)"

text \<open>\<open>Number.parseInt(s, 10)\<close>: the longest digit prefix after an optional sign; \<open>None\<close> is NaN.\<close>

definition parseInt10 :: "string \<Rightarrow> int option" where
  "parseInt10 s =
     (let t = dropWhile is_ws s;
          neg = (t \<noteq> [] \<and> hd t = CHR ''-'');
          u = (if t \<noteq> [] \<and> (hd t = CHR ''-'' \<or> hd t = CHR ''+'') then tl t else t)
      in map_option (\<lambda>n. if neg then - int n else int n) (parse_radix 10 (takeWhile is_digit u)))"

text \<open>\<open>/^\d+$/.test(s)\<close>.\<close>

definition all_digits :: "string \<Rightarrow> bool" where
  "all_digits s = (s \<noteq> [] \<and> list_all is_digit s)"

lemma parse_radix_acc_append:
  "parse_radix_acc b acc (xs @ ys) =
     (case parse_radix_acc b acc xs of None \<Rightarrow> None | Some m \<Rightarrow> parse_radix_acc b m ys)"
  by (induction b acc xs rule: parse_radix_acc.induct) (auto split: option.splits)

lemma parse_nat_toString: "parse_radix_acc 10 0 (nat_toString n) = Some n"
proof (induction n rule: nat_toString.induct)
  case (1 n)
  show ?case
  proof (cases "n < 10")
    case True
    then show ?thesis by (simp add: nat_toString.simps [of n] radix_val_digit_char)
  next
    case False
    with 1 show ?thesis
      by (simp add: nat_toString.simps [of n] parse_radix_acc_append radix_val_digit_char)
  qed
qed

lemma parse_digits_total: "list_all is_digit s \<Longrightarrow> \<exists>n. parse_radix_acc 10 acc s = Some n"
  by (induction s arbitrary: acc) (auto simp: radix_val_digit)

lemma trim_digits:
  assumes "list_all is_digit s"
  shows "trim s = s" "trim (c # s) = (if is_ws c then s else if s = [] then [c] else c # s)"
proof -
  have dw: "dropWhile is_ws u = u" if "list_all is_digit u" for u
    using that by (cases u) (auto dest: not_ws_digit)
  have rv: "list_all is_digit (rev s)" using assms by (simp add: list_all_iff)
  show "trim s = s" by (simp add: trim_def dw [OF assms] dw [OF rv])
  show "trim (c # s) = (if is_ws c then s else if s = [] then [c] else c # s)"
  proof (cases "s = []")
    case False
    then have "dropWhile is_ws (rev s @ [c]) = rev s @ [c]"
      using rv by (cases "rev s") (auto dest: not_ws_digit)
    then show ?thesis using False by (simp add: trim_def dw [OF assms] dw [OF rv])
  qed (simp add: trim_def)
qed

lemma radix_of_digit: "is_digit c \<Longrightarrow> radix_of c = None"
  using digit_not_sign [of c] by (simp add: radix_of_def)

lemma radix_prefix_digits: "list_all is_digit s \<Longrightarrow> radix_prefix s = None"
  by (auto simp: radix_prefix_def radix_of_digit split: list.split)

lemma radix_prefix_minus: "radix_prefix (CHR ''-'' # s) = None"
  by (simp add: radix_prefix_def split: list.split)

lemma signed_decimal_digits:
  "list_all is_digit s \<Longrightarrow> s \<noteq> [] \<Longrightarrow> signed_decimal s = map_option int (parse_radix_acc 10 0 s)"
  by (cases s) (auto simp: signed_decimal_def parse_radix_def dest: digit_not_sign)

lemma signed_decimal_minus:
  "s \<noteq> [] \<Longrightarrow> signed_decimal (CHR ''-'' # s) = map_option (\<lambda>n. - int n) (parse_radix_acc 10 0 s)"
  by (simp add: signed_decimal_def parse_radix_def)

lemma BigInt_digits:
  "list_all is_digit s \<Longrightarrow> s \<noteq> [] \<Longrightarrow> BigInt s = map_option int (parse_radix_acc 10 0 s)"
  by (simp add: BigInt_def trim_digits radix_prefix_digits signed_decimal_digits)

lemma not_ws_minus [simp]: "\<not> is_ws CHR ''-''"
  by (simp add: is_ws_def code_def Let_def)

lemma BigInt_toString [simp]: "BigInt (toString i) = Some i"
proof (cases "i < 0")
  case True
  have t: "trim (CHR ''-'' # nat_toString (nat (- i))) = CHR ''-'' # nat_toString (nat (- i))"
    by (simp add: trim_digits [OF nat_toString_digits])
  with True show ?thesis
    by (simp add: toString_def BigInt_def radix_prefix_minus signed_decimal_minus parse_nat_toString)
next
  case False
  then show ?thesis
    by (simp add: toString_def BigInt_digits [OF nat_toString_digits] parse_nat_toString)
qed

lemma toString_inject [simp]: "toString a = toString b \<longleftrightarrow> a = b"
  by (metis BigInt_toString option.inject)

lemma all_digits_BigInt: "all_digits s \<Longrightarrow> \<exists>n. BigInt s = Some (int n)"
  using parse_digits_total [of s 0] by (auto simp: all_digits_def BigInt_digits)

section \<open>Numbers\<close>

fun bitlen :: "nat \<Rightarrow> nat" where
  "bitlen n = (if n = 0 then 0 else Suc (bitlen (n div 2)))"

declare bitlen.simps [simp del]

text \<open>
  \<open>Number(n)\<close> for a bigint \<open>n\<close>: the nearest integer with a 53-bit significand, ties to even.
\<close>

definition round53 :: "nat \<Rightarrow> nat" where
  "round53 m =
     (let k = bitlen m - 53 in
      if k = 0 then m
      else let q = m div 2 ^ k; r = m mod 2 ^ k; h = 2 ^ (k - 1) in
           (if r > h \<or> (r = h \<and> odd q) then q + 1 else q) * 2 ^ k)"

definition toNumber :: "int \<Rightarrow> int" where
  "toNumber i = (if i < 0 then - int (round53 (nat (- i))) else int (round53 (nat i)))"

definition MAX_SAFE_INTEGER :: int where
  "MAX_SAFE_INTEGER = 2 ^ 53 - 1"

definition isSafeInteger :: "int \<Rightarrow> bool" where
  "isSafeInteger i = (\<bar>i\<bar> \<le> MAX_SAFE_INTEGER)"

lemma bitlen_le: "m < 2 ^ k \<Longrightarrow> bitlen m \<le> k"
proof (induction k arbitrary: m)
  case 0
  then show ?case by (simp add: bitlen.simps)
next
  case (Suc k)
  then have "m div 2 < 2 ^ k" by simp
  then have "bitlen (m div 2) \<le> k" by (rule Suc.IH)
  then show ?case by (subst bitlen.simps) simp
qed

lemma round53_small: "m < 2 ^ 53 \<Longrightarrow> round53 m = m"
  using bitlen_le [of m 53] by (simp add: round53_def Let_def)

lemma toNumber_safe [js_simps]: "isSafeInteger i \<Longrightarrow> toNumber i = i"
proof -
  assume "isSafeInteger i"
  then have "nat \<bar>i\<bar> < 2 ^ 53"
    by (simp add: isSafeInteger_def MAX_SAFE_INTEGER_def nat_less_iff)
  then show ?thesis
    by (auto simp: toNumber_def round53_small)
qed

definition asIntN :: "nat \<Rightarrow> int \<Rightarrow> int" where
  "asIntN n x = signed_take_bit (n - 1) x"

definition asUintN :: "nat \<Rightarrow> int \<Rightarrow> int" where
  "asUintN n x = take_bit n x"

section \<open>Strings\<close>

fun js_split :: "char \<Rightarrow> string \<Rightarrow> string list" where
  "js_split sep [] = [[]]"
| "js_split sep (c # cs) =
     (if c = sep then [] # js_split sep cs
      else (case js_split sep cs of [] \<Rightarrow> [[c]] | w # ws \<Rightarrow> (c # w) # ws))"

definition padStart :: "string \<Rightarrow> nat \<Rightarrow> char \<Rightarrow> string" where
  "padStart s n c = replicate (n - length s) c @ s"

definition padEnd :: "string \<Rightarrow> nat \<Rightarrow> char \<Rightarrow> string" where
  "padEnd s n c = s @ replicate (n - length s) c"

fun join :: "string \<Rightarrow> string list \<Rightarrow> string" where
  "join sep [] = []"
| "join sep [w] = w"
| "join sep (w # v # ws) = w @ sep @ join sep (v # ws)"

definition startsWith :: "string \<Rightarrow> string \<Rightarrow> bool" where
  "startsWith s p = (take (length p) s = p)"

lemma js_split_nonempty [simp]: "js_split sep s \<noteq> []"
  by (induction s) (auto split: list.splits)

lemma js_split_no_sep: "sep \<notin> set s \<Longrightarrow> js_split sep s = [s]"
  by (induction s) auto

lemma js_split_append:
  "sep \<notin> set s \<Longrightarrow> js_split sep (s @ sep # t) = s # js_split sep t"
  by (induction s) auto

section \<open>JSON\<close>

datatype json =
    JNull
  | JBool bool
  | JNum int
  | JStr string
  | JArr "json list"
  | JObj "(string \<times> json) list"

definition hex_digit :: "nat \<Rightarrow> char" where
  "hex_digit n = (if n < 10 then char_of (48 + n) else char_of (87 + n))"

definition json_escape :: "char \<Rightarrow> string" where
  "json_escape c =
     (let n = code c in
      if n = 34 then [char_of (92::nat), char_of (34::nat)]
      else if n = 92 then [char_of (92::nat), char_of (92::nat)]
      else if n = 8 then char_of (92::nat) # ''b''
      else if n = 9 then char_of (92::nat) # ''t''
      else if n = 10 then char_of (92::nat) # ''n''
      else if n = 12 then char_of (92::nat) # ''f''
      else if n = 13 then char_of (92::nat) # ''r''
      else if n < 32 then char_of (92::nat) # ''u00'' @ [hex_digit (n div 16), hex_digit (n mod 16)]
      else [c])"

definition json_quote :: "string \<Rightarrow> string" where
  "json_quote s = [char_of (34::nat)] @ concat (map json_escape s) @ [char_of (34::nat)]"

fun JSON_stringify :: "json \<Rightarrow> string" where
  "JSON_stringify JNull = ''null''"
| "JSON_stringify (JBool b) = (if b then ''true'' else ''false'')"
| "JSON_stringify (JNum n) = toString n"
| "JSON_stringify (JStr s) = json_quote s"
| "JSON_stringify (JArr xs) = ''['' @ join '','' (map JSON_stringify xs) @ '']''"
| "JSON_stringify (JObj fs) =
     ''{'' @ join '','' (map (\<lambda>(k, v). json_quote k @ '':'' @ JSON_stringify v) fs) @ ''}''"

text \<open>An optional property: JSON.stringify leaves out a property whose value is undefined.\<close>

definition jopt :: "string \<Rightarrow> json option \<Rightarrow> (string \<times> json) list" where
  "jopt k v = (case v of None \<Rightarrow> [] | Some j \<Rightarrow> [(k, j)])"

end
