(* ===== verification/Prisma_Store.thy ===== *)
theory Prisma_Store
  imports Js_Values
begin

text \<open>
  The tables of \<open>backend/prisma/schema.prisma\<close> that the indexer and the stream API share,
  and the Prisma calls the sources make on them. A table is a map from the key that the
  schema declares unique (\<open>streamId\<close>, the pair \<open>transactionHash\<close>/\<open>eventType\<close>, the
  singleton id) to its row; the foreign keys of the schema are checked where a row is
  created. A call that Prisma documents as throwing (P2025 record not found, P2003
  foreign key, a missing argument of a unique filter) returns the error. The surrogate
  uuid columns are left out where no modelled code reads them.
\<close>

section \<open>Rows\<close>

record stream_row =
  streamId :: int
  sender :: string
  recipient :: string
  tokenAddress :: string
  ratePerSecond :: string
  depositedAmount :: string
  withdrawnAmount :: string
  startTime :: int
  lastUpdateTime :: int
  endTime :: "int option"
  isActive :: bool
  isPaused :: bool
  pausedAt :: "int option"
  totalPausedDuration :: int
  updatedAt :: int

record event_row =
  ev_streamId :: int
  ev_eventType :: string
  ev_amount :: "string option"
  ev_transactionHash :: string
  ev_ledgerSequence :: int
  ev_timestamp :: int
  ev_metadata :: "string option"

record indexer_row =
  lastLedger :: int
  lastCursor :: "string option"
  ix_updatedAt :: int

text \<open>
  The envelope \<open>DeadLetterPayload\<close> of \<open>backend/src/services/indexerService.ts\<close>; the column
  \<open>payload\<close> holds its JSON text. \<open>None\<close> is a text that \<open>JSON.parse\<close> rejects.
\<close>

record DeadLetterPayload =
  pl_id :: string
  pl_type :: string
  pl_ledger :: int
  pl_ledgerClosedAt :: string
  pl_transactionIndex :: int
  pl_operationIndex :: int
  pl_inSuccessfulContractCall :: bool
  pl_contractId :: "string option"
  pl_topic :: "string list"
  pl_value :: string

record dead_letter_row =
  dl_id :: string
  dl_eventId :: string
  dl_eventType :: string
  dl_txHash :: string
  dl_ledgerSequence :: int
  dl_cursor :: "string option"
  dl_payload :: "DeadLetterPayload option"
  dl_errorMessage :: string
  dl_attempts :: int
  dl_lastAttemptAt :: int
  dl_createdAt :: int

record db =
  users :: "string set"
  streams :: "int \<rightharpoonup> stream_row"
  events :: "(string \<times> string) \<rightharpoonup> event_row"
  indexer :: "indexer_row option"
  deadLetters :: "dead_letter_row list"

definition emptyDb :: db where
  "emptyDb = \<lparr>users = {}, streams = Map.empty, events = Map.empty, indexer = None, deadLetters = []\<rparr>"

section \<open>Calls\<close>

definition user_upsert :: "string \<Rightarrow> db \<Rightarrow> db" where
  "user_upsert pk d = d\<lparr>users := insert pk (users d)\<rparr>"

definition stream_findUniqueOrThrow :: "int \<Rightarrow> db \<Rightarrow> stream_row result" where
  "stream_findUniqueOrThrow sid d = of_opt (PrismaError ''P2025'') (streams d sid)"

text \<open>\<open>now\<close> is the value Prisma gives the \<open>@updatedAt\<close> column.\<close>

definition stream_update :: "int \<Rightarrow> int \<Rightarrow> (stream_row \<Rightarrow> stream_row) \<Rightarrow> db \<Rightarrow> db result" where
  "stream_update now sid f d =
     bindE (stream_findUniqueOrThrow sid d)
       (\<lambda>r. Inr (d\<lparr>streams := (streams d)(sid \<mapsto> (f r)\<lparr>updatedAt := now\<rparr>)\<rparr>))"

definition stream_upsert ::
  "int \<Rightarrow> stream_row \<Rightarrow> (stream_row \<Rightarrow> stream_row) \<Rightarrow> db \<Rightarrow> db result" where
  "stream_upsert now c f d =
     (case streams d (streamId c) of
        Some r \<Rightarrow> stream_update now (streamId c) f d
      | None \<Rightarrow>
          if sender c \<in> users d \<and> recipient c \<in> users d
          then Inr (d\<lparr>streams := (streams d)(streamId c \<mapsto> c\<lparr>updatedAt := now\<rparr>)\<rparr>)
          else Inl (PrismaError ''P2003''))"

definition event_findUnique :: "string option \<Rightarrow> string \<Rightarrow> db \<Rightarrow> event_row option result" where
  "event_findUnique tx ty d =
     bindE (of_opt (PrismaError ''Validation'') tx) (\<lambda>h. Inr (events d (h, ty)))"

definition event_upsert ::
  "string option \<Rightarrow> string \<Rightarrow> (string \<Rightarrow> event_row) \<Rightarrow> (event_row \<Rightarrow> event_row) \<Rightarrow> db \<Rightarrow> db result" where
  "event_upsert tx ty c f d =
     bindE (of_opt (PrismaError ''Validation'') tx)
       (\<lambda>h. case events d (h, ty) of
          Some r \<Rightarrow> Inr (d\<lparr>events := (events d)((h, ty) \<mapsto> f r)\<rparr>)
        | None \<Rightarrow>
            if streams d (ev_streamId (c h)) = None then Inl (PrismaError ''P2003'')
            else Inr (d\<lparr>events := (events d)((h, ty) \<mapsto> c h)\<rparr>))"

definition indexerState_upsert :: "int \<Rightarrow> int \<Rightarrow> string option \<Rightarrow> db \<Rightarrow> db" where
  "indexerState_upsert now l c d =
     d\<lparr>indexer := Some \<lparr>lastLedger = l, lastCursor = c, ix_updatedAt = now\<rparr>\<rparr>"

section \<open>Well-formedness\<close>

text \<open>A decimal amount column holds the canonical print of an integer.\<close>

definition is_amount :: "string \<Rightarrow> bool" where
  "is_amount s = (case BigInt s of None \<Rightarrow> False | Some i \<Rightarrow> s = toString i)"

definition amount :: "string \<Rightarrow> int" where
  "amount s = (case BigInt s of None \<Rightarrow> 0 | Some i \<Rightarrow> i)"

definition wf_stream :: "string set \<Rightarrow> stream_row \<Rightarrow> bool" where
  "wf_stream us r =
     (is_amount (ratePerSecond r) \<and> is_amount (depositedAmount r) \<and> is_amount (withdrawnAmount r)
      \<and> sender r \<in> us \<and> recipient r \<in> us)"

definition wf_event :: "(string \<times> string) \<Rightarrow> event_row \<Rightarrow> bool" where
  "wf_event k r =
     (k = (ev_transactionHash r, ev_eventType r)
      \<and> (case ev_amount r of None \<Rightarrow> True | Some a \<Rightarrow> is_amount a))"

text \<open>
  The database invariant: amounts parse, the keys of a row are the keys it is stored
  under, and the three foreign keys of the schema hold.
\<close>

definition wf_db :: "db \<Rightarrow> bool" where
  "wf_db d =
     ((\<forall>sid r. streams d sid = Some r \<longrightarrow> streamId r = sid \<and> wf_stream (users d) r)
      \<and> (\<forall>k r. events d k = Some r \<longrightarrow> wf_event k r \<and> streams d (ev_streamId r) \<noteq> None)
      \<and> finite (dom (events d)))"

lemma is_amount_toString [simp]: "is_amount (toString i)"
  by (simp add: is_amount_def)

lemma amount_toString [simp]: "amount (toString i) = i"
  by (simp add: amount_def)

lemma is_amount_BigInt: "is_amount s \<Longrightarrow> BigInt s = Some (amount s) \<and> s = toString (amount s)"
  by (auto simp: is_amount_def amount_def split: option.splits)

lemma wf_db_empty [simp]: "wf_db emptyDb"
  by (simp add: wf_db_def emptyDb_def)

lemma wf_dbD:
  "wf_db d \<Longrightarrow> streams d sid = Some r \<Longrightarrow> streamId r = sid \<and> wf_stream (users d) r"
  "wf_db d \<Longrightarrow> events d k = Some v \<Longrightarrow> wf_event k v \<and> (\<exists>r. streams d (ev_streamId v) = Some r)"
  "wf_db d \<Longrightarrow> finite (dom (events d))"
  by (auto simp: wf_db_def simp del: split_paired_All)

section \<open>Read after write and invariant preservation\<close>

lemma user_upsert_simps [store_simps, simp]:
  "users (user_upsert pk d) = insert pk (users d)"
  "streams (user_upsert pk d) = streams d"
  "events (user_upsert pk d) = events d"
  "indexer (user_upsert pk d) = indexer d"
  "deadLetters (user_upsert pk d) = deadLetters d"
  by (simp_all add: user_upsert_def)

lemma stream_update_Inr [store_simps]:
  "stream_update now sid f d = Inr d' \<longleftrightarrow>
     (\<exists>r. streams d sid = Some r
        \<and> d' = d\<lparr>streams := (streams d)(sid \<mapsto> (f r)\<lparr>updatedAt := now\<rparr>)\<rparr>)"
  by (auto simp: stream_update_def stream_findUniqueOrThrow_def bindE_eq_Inr)

lemma stream_upsert_Inr [store_simps]:
  "stream_upsert now c f d = Inr d' \<longleftrightarrow>
     (case streams d (streamId c) of
        Some r \<Rightarrow> d' = d\<lparr>streams := (streams d)(streamId c \<mapsto> (f r)\<lparr>updatedAt := now\<rparr>)\<rparr>
      | None \<Rightarrow> sender c \<in> users d \<and> recipient c \<in> users d
          \<and> d' = d\<lparr>streams := (streams d)(streamId c \<mapsto> c\<lparr>updatedAt := now\<rparr>)\<rparr>)"
  by (auto simp: stream_upsert_def stream_update_Inr split: option.split)

lemma event_upsert_Inr [store_simps]:
  "event_upsert tx ty c f d = Inr d' \<longleftrightarrow>
     (\<exists>h. tx = Some h \<and>
       (case events d (h, ty) of
          Some r \<Rightarrow> d' = d\<lparr>events := (events d)((h, ty) \<mapsto> f r)\<rparr>
        | None \<Rightarrow> streams d (ev_streamId (c h)) \<noteq> None
            \<and> d' = d\<lparr>events := (events d)((h, ty) \<mapsto> c h)\<rparr>))"
  by (cases tx; cases "events d (the tx, ty)") (auto simp: event_upsert_def)

lemma event_findUnique_Inr [store_simps]:
  "event_findUnique tx ty d = Inr x \<longleftrightarrow> (\<exists>h. tx = Some h \<and> x = events d (h, ty))"
  by (auto simp: event_findUnique_def bindE_eq_Inr)

lemma wf_user_upsert: "wf_db d \<Longrightarrow> wf_db (user_upsert pk d)"
  by (auto simp: wf_db_def wf_stream_def)

lemma wf_stream_put:
  assumes "wf_db d" and "streamId r = sid" and "wf_stream (users d) r"
  shows "wf_db (d\<lparr>streams := (streams d)(sid \<mapsto> r)\<rparr>)"
  using assms by (auto simp: wf_db_def)

lemma wf_event_put:
  assumes "wf_db d" and "wf_event k v" and "streams d (ev_streamId v) \<noteq> None"
  shows "wf_db (d\<lparr>events := (events d)(k \<mapsto> v)\<rparr>)"
  using assms by (auto simp: wf_db_def)

lemma wf_stream_upd [simp]: "wf_stream us (r\<lparr>updatedAt := n\<rparr>) = wf_stream us r"
  by (simp add: wf_stream_def)

lemma wf_stream_update:
  assumes "wf_db d" and "stream_update now sid f d = Inr d'"
    and "\<And>r. streams d sid = Some r \<Longrightarrow> wf_stream (users d) r \<Longrightarrow>
           wf_stream (users d) (f r) \<and> streamId (f r) = streamId r"
  shows "wf_db d'"
proof -
  from assms(2) obtain r where r: "streams d sid = Some r"
    and d': "d' = d\<lparr>streams := (streams d)(sid \<mapsto> (f r)\<lparr>updatedAt := now\<rparr>)\<rparr>"
    by (auto simp: stream_update_Inr)
  show ?thesis
    unfolding d' using wf_dbD(1) [OF assms(1) r] assms(3) [OF r]
    by (intro wf_stream_put assms(1)) auto
qed

lemma wf_stream_upsert:
  assumes "wf_db d" and "stream_upsert now c f d = Inr d'"
    and "is_amount (ratePerSecond c)" "is_amount (depositedAmount c)" "is_amount (withdrawnAmount c)"
    and "\<And>r. streams d (streamId c) = Some r \<Longrightarrow> wf_stream (users d) r \<Longrightarrow>
           wf_stream (users d) (f r) \<and> streamId (f r) = streamId r"
  shows "wf_db d'"
proof (cases "streams d (streamId c)")
  case None
  with assms(2) have h: "sender c \<in> users d" "recipient c \<in> users d"
    and d': "d' = d\<lparr>streams := (streams d)(streamId c \<mapsto> c\<lparr>updatedAt := now\<rparr>)\<rparr>"
    by (auto simp: stream_upsert_Inr)
  show ?thesis
    unfolding d' using assms(3-5) h
    by (intro wf_stream_put assms(1)) (auto simp: wf_stream_def)
next
  case (Some r)
  with assms(2) have "stream_update now (streamId c) f d = Inr d'"
    by (simp add: stream_upsert_def)
  then show ?thesis
    using assms(1,6) by (auto intro: wf_stream_update)
qed

lemma wf_event_upsert:
  assumes "wf_db d" and "event_upsert tx ty c f d = Inr d'"
    and "\<And>h. wf_event (h, ty) (c h)"
    and "\<And>r. wf_event (ev_transactionHash r, ev_eventType r) r \<Longrightarrow>
          ev_transactionHash (f r) = ev_transactionHash r \<and> ev_eventType (f r) = ev_eventType r
          \<and> ev_amount (f r) = ev_amount r \<and> ev_streamId (f r) = ev_streamId r"
  shows "wf_db d'"
proof -
  from assms(2) obtain h where tx: "tx = Some h" by (auto simp: event_upsert_Inr)
  show ?thesis
  proof (cases "events d (h, ty)")
    case None
    with assms(2) tx have "d' = d\<lparr>events := (events d)((h, ty) \<mapsto> c h)\<rparr>"
      "streams d (ev_streamId (c h)) \<noteq> None"
      by (auto simp: event_upsert_Inr)
    then show ?thesis using assms(1,3) by (auto intro!: wf_event_put)
  next
    case (Some r)
    have w: "wf_event (h, ty) r" "streams d (ev_streamId r) \<noteq> None"
      using wf_dbD(2) [OF assms(1) Some] by auto
    with assms(4) [of r] have "wf_event (h, ty) (f r)" "streams d (ev_streamId (f r)) \<noteq> None"
      by (auto simp: wf_event_def)
    moreover from assms(2) tx Some have "d' = d\<lparr>events := (events d)((h, ty) \<mapsto> f r)\<rparr>"
      by (auto simp: event_upsert_Inr)
    ultimately show ?thesis using assms(1) by (auto intro!: wf_event_put)
  qed
qed

end
