(* ===== verification/Xdr_Decode.thy ===== *)
theory Xdr_Decode
  imports Js_Values "HOL-Library.Word"
begin

text \<open>
  The XDR values a contract event carries and the decoding helpers at the top of
  \<open>backend/src/workers/soroban-event-worker.ts\<close>. The value types belong to the Stellar
  SDK; only the variants the helpers read are told apart. Reading the payload of another
  variant is reading a property of \<open>undefined\<close>, a TypeError. The strkey encoders are
  functions of the SDK and so parameters, the record \<open>strkey\<close>.
\<close>

type_synonym byte = "8 word"

datatype sc_address =
    ScAddressAccount "byte list"
  | ScAddressContract "byte list"
  | ScAddressOther

datatype scval =
    ScvSymbol string
  | ScvU64 int
  | ScvU32 int
  | ScvI64 int
  | ScvU128 int int
  | ScvI128 int int
  | ScvAddress sc_address
  | ScvMap "(scval \<times> scval) list option"
  | ScvBool bool
  | ScvOther string

record strkey =
  encodeEd25519PublicKey :: "byte list \<Rightarrow> string"
  encodeContract :: "byte list \<Rightarrow> string"

definition decodeSymbol :: "scval \<Rightarrow> string result" where
  "decodeSymbol v = (case v of ScvSymbol s \<Rightarrow> Inr s | _ \<Rightarrow> Inl TypeError)"

definition decodeU64 :: "scval \<Rightarrow> int result" where
  "decodeU64 v = (case v of ScvU64 n \<Rightarrow> of_opt SyntaxError (BigInt (toString n)) | _ \<Rightarrow> Inl TypeError)"

text \<open>\<open>None\<close> is \<open>undefined\<close>: the cast of another variant reads a missing property.\<close>

definition decodeU32 :: "scval \<Rightarrow> int option" where
  "decodeU32 v = (case v of ScvU32 n \<Rightarrow> Some n | _ \<Rightarrow> None)"

definition decodeI128 :: "scval \<Rightarrow> string result" where
  "decodeI128 v =
     (case v of
        ScvI128 phi plo \<Rightarrow>
          bindE (of_opt SyntaxError (BigInt (toString phi))) (\<lambda>h.
          bindE (of_opt SyntaxError (BigInt (toString plo))) (\<lambda>l.
            let hi = asIntN 64 h; lo = asUintN 64 l
            in Inr (toString (push_bit 64 hi OR lo))))
      | _ \<Rightarrow> Inl TypeError)"

definition decodeAddress :: "strkey \<Rightarrow> scval \<Rightarrow> string result" where
  "decodeAddress sk v =
     (case v of
        ScvAddress (ScAddressAccount b) \<Rightarrow> Inr (encodeEd25519PublicKey sk b)
      | ScvAddress (ScAddressContract b) \<Rightarrow> Inr (encodeContract sk b)
      | _ \<Rightarrow> Inl TypeError)"

fun decodeEntries :: "(scval \<times> scval) list \<Rightarrow> (string \<rightharpoonup> scval) \<Rightarrow> (string \<rightharpoonup> scval) result" where
  "decodeEntries [] acc = Inr acc"
| "decodeEntries ((k, v) # es) acc =
     bindE (decodeSymbol k) (\<lambda>name. decodeEntries es (acc(name \<mapsto> v)))"

definition decodeMap :: "scval \<Rightarrow> (string \<rightharpoonup> scval) result" where
  "decodeMap v = (case v of ScvMap (Some es) \<Rightarrow> decodeEntries es Map.empty | _ \<Rightarrow> Inr Map.empty)"

section \<open>Evaluation\<close>

lemma decodeSymbol_simps [decode_simps, simp]: "decodeSymbol (ScvSymbol s) = Inr s"
  by (simp add: decodeSymbol_def)

lemma decodeSymbol_Inr: "decodeSymbol v = Inr s \<longleftrightarrow> v = ScvSymbol s"
  by (cases v) (auto simp: decodeSymbol_def)

lemma decodeU64_simps [decode_simps, simp]: "decodeU64 (ScvU64 n) = Inr n"
  by (simp add: decodeU64_def)

lemma decodeU64_Inr: "decodeU64 v = Inr n \<longleftrightarrow> v = ScvU64 n"
  by (cases v) (auto simp: decodeU64_def)

lemma decodeAddress_simps [decode_simps, simp]:
  "decodeAddress sk (ScvAddress (ScAddressAccount b)) = Inr (encodeEd25519PublicKey sk b)"
  "decodeAddress sk (ScvAddress (ScAddressContract b)) = Inr (encodeContract sk b)"
  by (simp_all add: decodeAddress_def)

section \<open>128-bit amounts\<close>

lemma or_split:
  fixes hi lo :: int
  assumes "0 \<le> lo" and "lo < 2 ^ n"
  shows "push_bit n hi OR lo = hi * 2 ^ n + lo"
proof -
  have "push_bit n hi AND lo = 0"
  proof (rule bit_eqI)
    fix k
    have "take_bit n lo = lo" using assms by (simp add: take_bit_int_eq_self)
    then have "bit lo k \<Longrightarrow> k < n" by (metis bit_take_bit_iff)
    then show "bit (push_bit n hi AND lo) k = bit (0::int) k"
      by (auto simp: bit_simps)
  qed
  then have "push_bit n hi OR lo = push_bit n hi + lo"
    by (simp add: disjunctive_add_eq_or)
  then show ?thesis by (simp add: push_bit_eq_mult)
qed

lemma asIntN_self: "- (2 ^ 63) \<le> x \<Longrightarrow> x < 2 ^ 63 \<Longrightarrow> asIntN 64 x = x"
  by (simp add: asIntN_def signed_take_bit_int_eq_self)

lemma asUintN_self: "0 \<le> x \<Longrightarrow> x < 2 ^ 64 \<Longrightarrow> asUintN 64 x = x"
  by (simp add: asUintN_def take_bit_int_eq_self)

lemma asUintN_range: "0 \<le> asUintN n x" "asUintN n x < 2 ^ n"
  by (simp_all add: asUintN_def)

lemma asIntN_range: "- (2 ^ 63) \<le> asIntN 64 x" "asIntN 64 x < 2 ^ 63"
  using signed_take_bit_int_greater_eq_minus_exp [of 63 x] signed_take_bit_int_less_exp [of 63 x]
  by (simp_all add: asIntN_def)

lemma decodeI128_eq:
  "decodeI128 (ScvI128 h l) = Inr (toString (asIntN 64 h * 2 ^ 64 + asUintN 64 l))"
  using or_split [OF asUintN_range, of 64 "asIntN 64 h" l] by (simp add: decodeI128_def Let_def)

lemma decodeI128_Inr:
  "decodeI128 v = Inr s \<longleftrightarrow>
     (\<exists>h l. v = ScvI128 h l \<and> s = toString (asIntN 64 h * 2 ^ 64 + asUintN 64 l))"
  by (cases v) (auto simp: decodeI128_eq, auto simp: decodeI128_def)

text \<open>The two words of an i128 as the XDR encoder splits it.\<close>

definition encodeI128 :: "int \<Rightarrow> scval" where
  "encodeI128 v = ScvI128 (v div 2 ^ 64) (v mod 2 ^ 64)"

lemma decode_encodeI128 [decode_simps]:
  assumes "- (2 ^ 127) \<le> v" and "v < 2 ^ 127"
  shows "decodeI128 (encodeI128 v) = Inr (toString v)"
proof -
  have "- (2 ^ 63) \<le> v div 2 ^ 64" "v div 2 ^ 64 < 2 ^ 63"
    using assms by simp_all
  then show ?thesis
    by (simp add: encodeI128_def decodeI128_eq asIntN_self asUintN_self)
qed

end
