(* ===== verification/Event_Handlers.thy ===== *)
theory Event_Handlers
  imports Prisma_Store Xdr_Decode
begin

text \<open>
  The event handlers of \<open>SorobanEventWorker\<close> (\<open>backend/src/workers/soroban-event-worker.ts\<close>)
  and their dispatch, \<open>processEvent\<close>. A handler takes the database and returns the new one
  with the SSE broadcasts it issued, or the error it threw; \<open>prisma.$transaction\<close> discards the
  changes of a body that throws, so an error leaves the caller's database untouched. The
  environment gives what lies outside the repository: the strkey encoders, the clock as
  the handler of an event reads it, and whether the database fails the transaction. An
  environment is that of one poll cycle or replay; an event that is handled again is handled in
  another environment, with another clock.
\<close>

section \<open>Events, environment, broadcasts\<close>

record evt =
  evId :: string
  evLedger :: int
  evTxHash :: "string option"
  evTopic :: "scval list"
  evValue :: scval
  inSuccessfulContractCall :: bool
  evType :: string
  ledgerClosedAt :: string
  transactionIndex :: int
  operationIndex :: int
  evContractId :: "string option"

record env =
  sk :: strkey
  handledAt :: "evt \<Rightarrow> int"
  txFault :: "evt \<Rightarrow> err option"

datatype bcast =
    BroadcastToStream string string json
  | BroadcastToAdmin string json

type_synonym handled = "(db \<times> bcast list) result"

definition now_s :: "env \<Rightarrow> evt \<Rightarrow> int" where
  "now_s E e = handledAt E e div 1000"

definition transaction :: "env \<Rightarrow> evt \<Rightarrow> (db \<Rightarrow> db result) \<Rightarrow> db \<Rightarrow> db result" where
  "transaction E e body d = (case txFault E e of Some x \<Rightarrow> Inl x | None \<Rightarrow> body d)"

text \<open>JSON form of an on-chain stream id (\<open>streamIdToJson\<close> in \<open>backend/src/lib/stream-id.ts\<close>).\<close>

definition streamIdToJson :: "int \<Rightarrow> json" where
  "streamIdToJson sid =
     (let asNumber = toNumber sid in if isSafeInteger asNumber then JNum asNumber else JStr (toString sid))"

definition jtx :: "evt \<Rightarrow> (string \<times> json) list" where
  "jtx e = jopt ''transactionHash'' (map_option JStr (evTxHash e))"

section \<open>Reading event bodies\<close>

type_synonym body = "string \<rightharpoonup> scval"

definition has :: "body \<Rightarrow> string list \<Rightarrow> bool" where
  "has b ks = list_all (\<lambda>k. b k \<noteq> None) ks"

definition addressField :: "env \<Rightarrow> body \<Rightarrow> string \<Rightarrow> string result" where
  "addressField E b k = bindE (of_opt TypeError (b k)) (decodeAddress (sk E))"

definition i128Field :: "body \<Rightarrow> string \<Rightarrow> string result" where
  "i128Field b k = bindE (of_opt TypeError (b k)) decodeI128"

definition u64Field :: "body \<Rightarrow> string \<Rightarrow> int result" where
  "u64Field b k = bindE (of_opt TypeError (b k)) decodeU64"

definition u32Field :: "body \<Rightarrow> string \<Rightarrow> int option result" where
  "u32Field b k = bindE (of_opt TypeError (b k)) (\<lambda>v. Inr (decodeU32 v))"

definition parseBig :: "string \<Rightarrow> int result" where
  "parseBig s = of_opt SyntaxError (BigInt s)"

text \<open>
  The fragment seven handlers share: look the pair transaction hash/event type up, and
  write the event only when it is not there yet.
\<close>

definition recordOnce ::
  "evt \<Rightarrow> string \<Rightarrow> (string \<Rightarrow> event_row) \<Rightarrow> (event_row \<Rightarrow> event_row) \<Rightarrow> db \<Rightarrow> db result" where
  "recordOnce e ty c f d =
     bindE (event_findUnique (evTxHash e) ty d) (\<lambda>existing.
       if existing \<noteq> None then Inr d else event_upsert (evTxHash e) ty c f d)"

definition touch :: "int \<Rightarrow> int \<Rightarrow> event_row \<Rightarrow> event_row" where
  "touch ledger ts r = r\<lparr>ev_ledgerSequence := ledger, ev_timestamp := ts\<rparr>"

section \<open>Protocol-level events\<close>

definition systemUser :: string where
  "systemUser = ''GAAAAAAAAAAAAAAAAAAAAAAAAAAAAAAAAAAAAAAAAAAAAAAAAAAAAWHF''"

definition ensureSystemStream :: "int \<Rightarrow> db \<Rightarrow> db result" where
  "ensureSystemStream now d =
     stream_upsert now
       \<lparr>streamId = 0, sender = systemUser, recipient = systemUser,
        tokenAddress = ''CDAAAAAAAAAAAAAAAAAAAAAAAAAAAAAAAAAAAAAAAAAAAAAAAAAAAAHF'',
        ratePerSecond = ''0'', depositedAmount = ''0'', withdrawnAmount = ''0'',
        startTime = 0, lastUpdateTime = 0, endTime = Some 0, isActive = False,
        isPaused = False, pausedAt = None, totalPausedDuration = 0, updatedAt = now\<rparr>
       id (user_upsert systemUser d)"

definition handleFeeConfigUpdated :: "env \<Rightarrow> evt \<Rightarrow> db \<Rightarrow> handled" where
  "handleFeeConfigUpdated E e d =
     bindE (decodeMap (evValue e)) (\<lambda>b.
     bindE (guardE (has b [''admin'', ''old_treasury'', ''new_treasury'', ''old_fee_rate_bps'', ''new_fee_rate_bps''])
              (Thrown ''FeeConfigUpdated: missing body fields'')) (\<lambda>_.
     bindE (addressField E b ''admin'') (\<lambda>admin.
     bindE (addressField E b ''old_treasury'') (\<lambda>oldTreasury.
     bindE (addressField E b ''new_treasury'') (\<lambda>newTreasury.
     bindE (u32Field b ''old_fee_rate_bps'') (\<lambda>oldFeeRateBps.
     bindE (u32Field b ''new_fee_rate_bps'') (\<lambda>newFeeRateBps.
     let timestamp = now_s E e in
     bindE (transaction E e (\<lambda>d0.
       bindE (ensureSystemStream (handledAt E e) d0) (\<lambda>d1.
         event_upsert (evTxHash e) ''FEE_CONFIG_UPDATED''
           (\<lambda>h. \<lparr>ev_streamId = 0, ev_eventType = ''FEE_CONFIG_UPDATED'', ev_amount = None,
                 ev_transactionHash = h, ev_ledgerSequence = evLedger e, ev_timestamp = timestamp,
                 ev_metadata = Some (JSON_stringify (JObj
                   ([(''admin'', JStr admin), (''old_treasury'', JStr oldTreasury), (''new_treasury'', JStr newTreasury)]
                    @ jopt ''old_fee_rate_bps'' (map_option JNum oldFeeRateBps)
                    @ jopt ''new_fee_rate_bps'' (map_option JNum newFeeRateBps))))\<rparr>)
           (touch (evLedger e) timestamp) d1)) d) (\<lambda>d'.
     Inr (d', [BroadcastToAdmin ''stream.fee_config_updated'' (JObj
       ([(''admin'', JStr admin), (''oldTreasury'', JStr oldTreasury), (''newTreasury'', JStr newTreasury)]
        @ jopt ''oldFeeRateBps'' (map_option JNum oldFeeRateBps)
        @ jopt ''newFeeRateBps'' (map_option JNum newFeeRateBps)
        @ jtx e @ [(''ledger'', JNum (evLedger e)), (''timestamp'', JNum timestamp)]))])))))))))"

definition handleAdminTransferred :: "env \<Rightarrow> evt \<Rightarrow> db \<Rightarrow> handled" where
  "handleAdminTransferred E e d =
     bindE (decodeMap (evValue e)) (\<lambda>b.
     bindE (guardE (has b [''previous_admin'', ''new_admin''])
              (Thrown ''AdminTransferred: missing body fields'')) (\<lambda>_.
     bindE (addressField E b ''previous_admin'') (\<lambda>previousAdmin.
     bindE (addressField E b ''new_admin'') (\<lambda>newAdmin.
     let timestamp = now_s E e in
     bindE (transaction E e (\<lambda>d0.
       bindE (ensureSystemStream (handledAt E e) d0) (\<lambda>d1.
         event_upsert (evTxHash e) ''ADMIN_TRANSFERRED''
           (\<lambda>h. \<lparr>ev_streamId = 0, ev_eventType = ''ADMIN_TRANSFERRED'', ev_amount = None,
                 ev_transactionHash = h, ev_ledgerSequence = evLedger e, ev_timestamp = timestamp,
                 ev_metadata = Some (JSON_stringify (JObj
                   ([(''previous_admin'', JStr previousAdmin), (''new_admin'', JStr newAdmin)] @ jtx e)))\<rparr>)
           (touch (evLedger e) timestamp) d1)) d) (\<lambda>d'.
     Inr (d', [BroadcastToAdmin ''stream.admin_transferred'' (JObj
       ([(''previousAdmin'', JStr previousAdmin), (''newAdmin'', JStr newAdmin)]
        @ jtx e @ [(''ledger'', JNum (evLedger e)), (''timestamp'', JNum timestamp)]))]))))))"

section \<open>Stream events\<close>

definition missing :: "string \<Rightarrow> int \<Rightarrow> err" where
  "missing name sid = Thrown (name @ '' #'' @ toString sid @ '': missing body fields'')"

definition handleStreamCreated :: "env \<Rightarrow> evt \<Rightarrow> scval \<Rightarrow> db \<Rightarrow> handled" where
  "handleStreamCreated E e streamIdTopic d =
     bindE (decodeU64 streamIdTopic) (\<lambda>sid.
     bindE (decodeMap (evValue e)) (\<lambda>b.
     bindE (guardE (has b [''sender'', ''recipient'', ''token_address'', ''rate_per_second'',
                           ''deposited_amount'', ''start_time'']) (missing ''StreamCreated'' sid)) (\<lambda>_.
     bindE (addressField E b ''sender'') (\<lambda>sndr.
     bindE (addressField E b ''recipient'') (\<lambda>rcpt.
     bindE (addressField E b ''token_address'') (\<lambda>tok.
     bindE (i128Field b ''rate_per_second'') (\<lambda>rate.
     bindE (i128Field b ''deposited_amount'') (\<lambda>dep.
     bindE (u64Field b ''start_time'') (\<lambda>start.
     bindE (parseBig rate) (\<lambda>rateBig.
     bindE (parseBig dep) (\<lambda>depBig.
     let endT = (if rateBig = 0 then None else Some (start + depBig sdiv rateBig)); now = handledAt E e in
     bindE (transaction E e (\<lambda>d0.
       bindE (stream_upsert now
           \<lparr>streamId = sid, sender = sndr, recipient = rcpt, tokenAddress = tok,
            ratePerSecond = rate, depositedAmount = dep, withdrawnAmount = ''0'',
            startTime = start, lastUpdateTime = start, endTime = endT, isActive = True,
            isPaused = False, pausedAt = None, totalPausedDuration = 0, updatedAt = now\<rparr>
           (\<lambda>r. r\<lparr>tokenAddress := tok, ratePerSecond := rate, depositedAmount := dep,
                  startTime := start, endTime := endT, lastUpdateTime := start, isActive := True\<rparr>)
           (user_upsert rcpt (user_upsert sndr d0))) (\<lambda>d1.
       recordOnce e ''CREATED''
         (\<lambda>h. \<lparr>ev_streamId = sid, ev_eventType = ''CREATED'', ev_amount = Some dep,
               ev_transactionHash = h, ev_ledgerSequence = evLedger e, ev_timestamp = start,
               ev_metadata = Some (JSON_stringify (JObj
                 [(''tokenAddress'', JStr tok), (''ratePerSecond'', JStr rate)]))\<rparr>)
         (touch (evLedger e) start) d1)) d) (\<lambda>d'.
     Inr (d', [BroadcastToStream (toString sid) ''stream.created'' (JObj
       ([(''streamId'', streamIdToJson sid), (''sender'', JStr sndr), (''recipient'', JStr rcpt),
         (''tokenAddress'', JStr tok), (''ratePerSecond'', JStr rate), (''depositedAmount'', JStr dep),
         (''startTime'', streamIdToJson start)] @ jtx e @ [(''ledger'', JNum (evLedger e))]))])))))))))))))"

definition handleStreamToppedUp :: "env \<Rightarrow> evt \<Rightarrow> scval \<Rightarrow> db \<Rightarrow> handled" where
  "handleStreamToppedUp E e streamIdTopic d =
     bindE (decodeU64 streamIdTopic) (\<lambda>sid.
     bindE (decodeMap (evValue e)) (\<lambda>b.
     bindE (guardE (has b [''amount'', ''new_deposited_amount'']) (missing ''StreamToppedUp'' sid)) (\<lambda>_.
     bindE (i128Field b ''amount'') (\<lambda>amt.
     bindE (i128Field b ''new_deposited_amount'') (\<lambda>newDep.
     let timestamp = now_s E e in
     bindE (transaction E e (\<lambda>d0.
       bindE (event_findUnique (evTxHash e) ''TOPPED_UP'' d0) (\<lambda>existing.
       if existing \<noteq> None then Inr d0 else
       bindE (stream_findUniqueOrThrow sid d0) (\<lambda>r.
       bindE (parseBig (ratePerSecond r)) (\<lambda>rateBig.
       bindE (parseBig newDep) (\<lambda>newDepBig.
       let newEnd = (if rateBig = 0 then None
                     else Some (startTime r + newDepBig sdiv rateBig + totalPausedDuration r)) in
       bindE (stream_update (handledAt E e) sid
           (\<lambda>r. r\<lparr>depositedAmount := newDep, endTime := newEnd, lastUpdateTime := timestamp\<rparr>) d0) (\<lambda>d1.
       event_upsert (evTxHash e) ''TOPPED_UP''
         (\<lambda>h. \<lparr>ev_streamId = sid, ev_eventType = ''TOPPED_UP'', ev_amount = Some amt,
               ev_transactionHash = h, ev_ledgerSequence = evLedger e, ev_timestamp = timestamp,
               ev_metadata = Some (JSON_stringify (JObj [(''newDepositedAmount'', JStr newDep)]))\<rparr>)
         (touch (evLedger e) timestamp) d1)))))) d) (\<lambda>d'.
     Inr (d', [BroadcastToStream (toString sid) ''stream.topped_up'' (JObj
       ([(''streamId'', streamIdToJson sid), (''amount'', JStr amt), (''newDepositedAmount'', JStr newDep)]
        @ jtx e @ [(''ledger'', JNum (evLedger e)), (''timestamp'', JNum timestamp)]))])))))))"

definition handleTokensWithdrawn :: "env \<Rightarrow> evt \<Rightarrow> scval \<Rightarrow> db \<Rightarrow> handled" where
  "handleTokensWithdrawn E e streamIdTopic d =
     bindE (decodeU64 streamIdTopic) (\<lambda>sid.
     bindE (decodeMap (evValue e)) (\<lambda>b.
     bindE (guardE (has b [''recipient'', ''amount'', ''timestamp'']) (missing ''TokensWithdrawn'' sid)) (\<lambda>_.
     bindE (addressField E b ''recipient'') (\<lambda>rcpt.
     bindE (i128Field b ''amount'') (\<lambda>amt.
     bindE (u64Field b ''timestamp'') (\<lambda>ts64.
     let timestamp = toNumber ts64 in
     bindE (transaction E e (\<lambda>d0.
       bindE (event_findUnique (evTxHash e) ''WITHDRAWN'' d0) (\<lambda>existing.
       if existing \<noteq> None then Inr d0 else
       bindE (stream_findUniqueOrThrow sid d0) (\<lambda>r.
       bindE (parseBig (withdrawnAmount r)) (\<lambda>old.
       bindE (parseBig amt) (\<lambda>amtBig.
       bindE (stream_update (handledAt E e) sid
           (\<lambda>r. r\<lparr>withdrawnAmount := toString (old + amtBig), lastUpdateTime := timestamp\<rparr>) d0) (\<lambda>d1.
       event_upsert (evTxHash e) ''WITHDRAWN''
         (\<lambda>h. \<lparr>ev_streamId = sid, ev_eventType = ''WITHDRAWN'', ev_amount = Some amt,
               ev_transactionHash = h, ev_ledgerSequence = evLedger e, ev_timestamp = timestamp,
               ev_metadata = Some (JSON_stringify (JObj [(''recipient'', JStr rcpt)]))\<rparr>)
         (touch (evLedger e) timestamp) d1)))))) d) (\<lambda>d'.
     Inr (d', [BroadcastToStream (toString sid) ''stream.withdrawn'' (JObj
       ([(''streamId'', streamIdToJson sid), (''recipient'', JStr rcpt), (''amount'', JStr amt)]
        @ jtx e @ [(''ledger'', JNum (evLedger e)), (''timestamp'', JNum timestamp)]))]))))))))"

definition handleStreamCancelled :: "env \<Rightarrow> evt \<Rightarrow> scval \<Rightarrow> db \<Rightarrow> handled" where
  "handleStreamCancelled E e streamIdTopic d =
     bindE (decodeU64 streamIdTopic) (\<lambda>sid.
     bindE (decodeMap (evValue e)) (\<lambda>b.
     bindE (guardE (has b [''amount_withdrawn'', ''refunded_amount'']) (missing ''StreamCancelled'' sid)) (\<lambda>_.
     bindE (i128Field b ''amount_withdrawn'') (\<lambda>amountWithdrawn.
     bindE (i128Field b ''refunded_amount'') (\<lambda>refunded.
     let timestamp = now_s E e in
     bindE (transaction E e (\<lambda>d0.
       bindE (stream_update (handledAt E e) sid
           (\<lambda>r. r\<lparr>isActive := False, withdrawnAmount := amountWithdrawn, lastUpdateTime := timestamp\<rparr>) d0) (\<lambda>d1.
       recordOnce e ''CANCELLED''
         (\<lambda>h. \<lparr>ev_streamId = sid, ev_eventType = ''CANCELLED'', ev_amount = Some refunded,
               ev_transactionHash = h, ev_ledgerSequence = evLedger e, ev_timestamp = timestamp,
               ev_metadata = Some (JSON_stringify (JObj
                 [(''amountWithdrawn'', JStr amountWithdrawn), (''refundedAmount'', JStr refunded)]))\<rparr>)
         (touch (evLedger e) timestamp) d1)) d) (\<lambda>d'.
     Inr (d', [BroadcastToStream (toString sid) ''stream.cancelled'' (JObj
       ([(''streamId'', streamIdToJson sid), (''refundedAmount'', JStr refunded),
         (''amountWithdrawn'', JStr amountWithdrawn)]
        @ jtx e @ [(''ledger'', JNum (evLedger e)), (''timestamp'', JNum timestamp)]))])))))))"

definition handleStreamCompleted :: "env \<Rightarrow> evt \<Rightarrow> scval \<Rightarrow> db \<Rightarrow> handled" where
  "handleStreamCompleted E e streamIdTopic d =
     bindE (decodeU64 streamIdTopic) (\<lambda>sid.
     bindE (decodeMap (evValue e)) (\<lambda>b.
     bindE (guardE (has b [''recipient'', ''total_withdrawn'']) (missing ''StreamCompleted'' sid)) (\<lambda>_.
     bindE (addressField E b ''recipient'') (\<lambda>rcpt.
     bindE (i128Field b ''total_withdrawn'') (\<lambda>totalWithdrawn.
     let timestamp = now_s E e in
     bindE (transaction E e (\<lambda>d0.
       bindE (stream_update (handledAt E e) sid
           (\<lambda>r. r\<lparr>isActive := False, withdrawnAmount := totalWithdrawn, lastUpdateTime := timestamp\<rparr>) d0) (\<lambda>d1.
       recordOnce e ''COMPLETED''
         (\<lambda>h. \<lparr>ev_streamId = sid, ev_eventType = ''COMPLETED'', ev_amount = Some totalWithdrawn,
               ev_transactionHash = h, ev_ledgerSequence = evLedger e, ev_timestamp = timestamp,
               ev_metadata = Some (JSON_stringify (JObj [(''recipient'', JStr rcpt)]))\<rparr>)
         (touch (evLedger e) timestamp) d1)) d) (\<lambda>d'.
     Inr (d', [BroadcastToStream (toString sid) ''stream.completed'' (JObj
       ([(''streamId'', streamIdToJson sid), (''recipient'', JStr rcpt), (''totalWithdrawn'', JStr totalWithdrawn)]
        @ jtx e @ [(''ledger'', JNum (evLedger e)), (''timestamp'', JNum timestamp)]))])))))))"

definition handleFeeCollected :: "env \<Rightarrow> evt \<Rightarrow> scval \<Rightarrow> db \<Rightarrow> handled" where
  "handleFeeCollected E e streamIdTopic d =
     bindE (decodeU64 streamIdTopic) (\<lambda>sid.
     bindE (decodeMap (evValue e)) (\<lambda>b.
     bindE (guardE (has b [''treasury'', ''fee_amount'', ''token'']) (missing ''FeeCollected'' sid)) (\<lambda>_.
     bindE (addressField E b ''treasury'') (\<lambda>treasury.
     bindE (i128Field b ''fee_amount'') (\<lambda>feeAmount.
     bindE (addressField E b ''token'') (\<lambda>token.
     let timestamp = now_s E e in
     bindE (transaction E e (\<lambda>d0.
       recordOnce e ''FEE_COLLECTED''
         (\<lambda>h. \<lparr>ev_streamId = sid, ev_eventType = ''FEE_COLLECTED'', ev_amount = Some feeAmount,
               ev_transactionHash = h, ev_ledgerSequence = evLedger e, ev_timestamp = timestamp,
               ev_metadata = Some (JSON_stringify (JObj [(''treasury'', JStr treasury), (''token'', JStr token)]))\<rparr>)
         id d0) d) (\<lambda>d'.
     Inr (d', [BroadcastToAdmin ''stream.fee_collected'' (JObj
       ([(''streamId'', streamIdToJson sid), (''treasury'', JStr treasury), (''feeAmount'', JStr feeAmount),
         (''token'', JStr token)]
        @ jtx e @ [(''ledger'', JNum (evLedger e)), (''timestamp'', JNum timestamp)]))]))))))))"

definition handleStreamPaused :: "env \<Rightarrow> evt \<Rightarrow> scval \<Rightarrow> db \<Rightarrow> handled" where
  "handleStreamPaused E e streamIdTopic d =
     bindE (decodeU64 streamIdTopic) (\<lambda>sid.
     bindE (decodeMap (evValue e)) (\<lambda>b.
     bindE (guardE (has b [''sender'', ''paused_at'']) (missing ''StreamPaused'' sid)) (\<lambda>_.
     bindE (addressField E b ''sender'') (\<lambda>sndr.
     bindE (u64Field b ''paused_at'') (\<lambda>paused64.
     let paused = toNumber paused64; timestamp = now_s E e in
     bindE (transaction E e (\<lambda>d0.
       bindE (stream_update (handledAt E e) sid
           (\<lambda>r. r\<lparr>isPaused := True, pausedAt := Some paused, lastUpdateTime := timestamp\<rparr>) d0) (\<lambda>d1.
       recordOnce e ''PAUSED''
         (\<lambda>h. \<lparr>ev_streamId = sid, ev_eventType = ''PAUSED'', ev_amount = None,
               ev_transactionHash = h, ev_ledgerSequence = evLedger e, ev_timestamp = timestamp,
               ev_metadata = Some (JSON_stringify (JObj [(''sender'', JStr sndr), (''pausedAt'', JNum paused)]))\<rparr>)
         (touch (evLedger e) timestamp) d1)) d) (\<lambda>d'.
     Inr (d', [BroadcastToStream (toString sid) ''stream.paused'' (JObj
       ([(''streamId'', streamIdToJson sid), (''sender'', JStr sndr), (''pausedAt'', JNum paused)]
        @ jtx e @ [(''ledger'', JNum (evLedger e)), (''timestamp'', JNum timestamp)]))])))))))"

text \<open>\<open>currentStream.pausedAt ? \<dots> : 0\<close> is false for null and for 0.\<close>

definition pausedFor :: "int \<Rightarrow> stream_row \<Rightarrow> int" where
  "pausedFor timestamp r =
     (case pausedAt r of None \<Rightarrow> 0 | Some p \<Rightarrow> if p = 0 then 0 else timestamp - toNumber p)"

definition handleStreamResumed :: "env \<Rightarrow> evt \<Rightarrow> scval \<Rightarrow> db \<Rightarrow> handled" where
  "handleStreamResumed E e streamIdTopic d =
     bindE (decodeU64 streamIdTopic) (\<lambda>sid.
     bindE (decodeMap (evValue e)) (\<lambda>b.
     bindE (guardE (has b [''sender'', ''new_end_time'']) (missing ''StreamResumed'' sid)) (\<lambda>_.
     bindE (addressField E b ''sender'') (\<lambda>sndr.
     bindE (u64Field b ''new_end_time'') (\<lambda>newEnd.
     let timestamp = now_s E e in
     bindE (transaction E e (\<lambda>d0.
       bindE (stream_findUniqueOrThrow sid d0) (\<lambda>cur.
       let extra = pausedFor timestamp cur; total = totalPausedDuration cur + extra in
       bindE (stream_update (handledAt E e) sid
           (\<lambda>r. r\<lparr>isPaused := False, pausedAt := None, endTime := Some newEnd,
                  totalPausedDuration := total, lastUpdateTime := timestamp\<rparr>) d0) (\<lambda>d1.
       recordOnce e ''RESUMED''
         (\<lambda>h. \<lparr>ev_streamId = sid, ev_eventType = ''RESUMED'', ev_amount = None,
               ev_transactionHash = h, ev_ledgerSequence = evLedger e, ev_timestamp = timestamp,
               ev_metadata = Some (JSON_stringify (JObj
                 [(''sender'', JStr sndr), (''newEndTime'', JStr (toString newEnd)),
                  (''pausedDuration'', JNum extra), (''totalPausedDuration'', JNum total)]))\<rparr>)
         (touch (evLedger e) timestamp) d1))) d) (\<lambda>d'.
     Inr (d', [BroadcastToStream (toString sid) ''stream.resumed'' (JObj
       ([(''streamId'', streamIdToJson sid), (''sender'', JStr sndr), (''newEndTime'', JStr (toString newEnd))]
        @ jtx e @ [(''ledger'', JNum (evLedger e)), (''timestamp'', JNum timestamp)]))])))))))"

section \<open>Dispatch\<close>

text \<open>The switch over the event name, for events that carry a stream id topic.\<close>

definition dispatchStreamEvent :: "env \<Rightarrow> evt \<Rightarrow> string \<Rightarrow> scval \<Rightarrow> db \<Rightarrow> handled" where
  "dispatchStreamEvent E e eventName topic1 d =
     (if eventName = ''stream_created'' then handleStreamCreated E e topic1 d
      else if eventName = ''stream_topped_up'' then handleStreamToppedUp E e topic1 d
      else if eventName = ''tokens_withdrawn'' then handleTokensWithdrawn E e topic1 d
      else if eventName = ''stream_paused'' then handleStreamPaused E e topic1 d
      else if eventName = ''stream_resumed'' then handleStreamResumed E e topic1 d
      else if eventName = ''stream_cancelled'' then handleStreamCancelled E e topic1 d
      else if eventName = ''stream_completed'' then handleStreamCompleted E e topic1 d
      else if eventName = ''fee_collected'' then handleFeeCollected E e topic1 d
      else Inr (d, []))"

definition processEvent :: "env \<Rightarrow> evt \<Rightarrow> db \<Rightarrow> handled" where
  "processEvent E e d =
     (case evTopic e of
        [] \<Rightarrow> Inr (d, [])
      | topic0 # rest \<Rightarrow>
          bindE (decodeSymbol topic0) (\<lambda>eventName.
            if eventName = ''fee_config_updated'' then handleFeeConfigUpdated E e d
            else if eventName = ''admin_transferred'' then handleAdminTransferred E e d
            else case rest of
              [] \<Rightarrow> Inr (d, [])
            | topic1 # _ \<Rightarrow> dispatchStreamEvent E e eventName topic1 d))"

section \<open>What a handler may do\<close>

text \<open>
  The contract the ten handlers share, as a relation between the database before and
  after: one entry of the event log, filed under the transaction hash and the event type,
  is written or refreshed; no other entry changes and none is lost; no stream but the
  addressed one changes; the indexer row and the dead letters are not touched; the
  database invariant is kept.
\<close>

definition same_entry :: "event_row \<Rightarrow> event_row \<Rightarrow> bool" where
  "same_entry v v' =
     (ev_streamId v' = ev_streamId v \<and> ev_eventType v' = ev_eventType v \<and> ev_amount v' = ev_amount v
      \<and> ev_transactionHash v' = ev_transactionHash v \<and> ev_metadata v' = ev_metadata v)"

definition log_step :: "(string \<times> string) \<Rightarrow> int \<Rightarrow> db \<Rightarrow> db \<Rightarrow> bool" where
  "log_step k sid d d' =
     ((\<forall>k'. k' \<noteq> k \<longrightarrow> events d' k' = events d k')
      \<and> (case events d k of
           None \<Rightarrow> \<exists>v. events d' k = Some v \<and> ev_streamId v = sid
         | Some v \<Rightarrow> \<exists>v'. events d' k = Some v' \<and> same_entry v v'))"

definition handler_step :: "string \<Rightarrow> int \<Rightarrow> evt \<Rightarrow> db \<Rightarrow> db \<Rightarrow> bool" where
  "handler_step ty sid e d d' =
     ((\<exists>h. evTxHash e = Some h \<and> log_step (h, ty) sid d d')
      \<and> users d \<subseteq> users d'
      \<and> (\<forall>s. s \<noteq> sid \<longrightarrow> streams d' s = streams d s)
      \<and> indexer d' = indexer d \<and> deadLetters d' = deadLetters d
      \<and> (wf_db d \<longrightarrow> wf_db d'))"

lemma same_entry_refl [simp]: "same_entry v v"
  by (simp add: same_entry_def)

lemma same_entry_touch [simp]: "same_entry v (touch l ts v)"
  by (simp add: same_entry_def touch_def)

lemma transaction_Inr: "transaction E e f d = Inr d' \<longleftrightarrow> txFault E e = None \<and> f d = Inr d'"
  by (simp add: transaction_def split: option.split)

lemma recordOnce_Inr [store_simps]:
  "recordOnce e ty c f d = Inr d' \<longleftrightarrow>
     (\<exists>h. evTxHash e = Some h \<and>
        (case events d (h, ty) of
           Some v \<Rightarrow> d' = d
         | None \<Rightarrow> streams d (ev_streamId (c h)) \<noteq> None \<and> d' = d\<lparr>events := (events d)((h, ty) \<mapsto> c h)\<rparr>))"
  by (cases "evTxHash e"; cases "events d (the (evTxHash e), ty)")
    (auto simp: recordOnce_def event_findUnique_def event_upsert_def)

lemma log_step_put:
  "events d k = None \<Longrightarrow> ev_streamId v = sid \<Longrightarrow> log_step k sid d (d\<lparr>events := (events d)(k \<mapsto> v)\<rparr>)"
  "events d k = Some v0 \<Longrightarrow> same_entry v0 v \<Longrightarrow> log_step k sid d (d\<lparr>events := (events d)(k \<mapsto> v)\<rparr>)"
  "events d k = Some v0 \<Longrightarrow> log_step k sid d d"
  by (auto simp: log_step_def)

text \<open>The three ways a handler's transaction body is put together.\<close>

lemma log_step_cong: "events d1 = events d \<Longrightarrow> log_step k sid d1 d' = log_step k sid d d'"
  by (simp add: log_step_def)

lemma wf_recordOnce:
  assumes "recordOnce e ty c f d = Inr d'" and "wf_db d" and "\<And>h. wf_event (h, ty) (c h)"
  shows "wf_db d'"
  using assms by (auto simp: recordOnce_Inr split: option.splits intro: wf_event_put)

lemma recordOnce_step:
  assumes "recordOnce e ty c f d1 = Inr d'"
    and "users d \<subseteq> users d1" "events d1 = events d" "indexer d1 = indexer d" "deadLetters d1 = deadLetters d"
    and "\<And>s. s \<noteq> sid \<Longrightarrow> streams d1 s = streams d s" and "wf_db d \<Longrightarrow> wf_db d1"
    and "\<And>h. wf_event (h, ty) (c h)" and "\<And>h. ev_streamId (c h) = sid"
  shows "handler_step ty sid e d d'"
proof -
  from assms(1) obtain h where h: "evTxHash e = Some h" by (auto simp: recordOnce_Inr)
  have "log_step (h, ty) sid d1 d'"
    using assms(1,9) h by (auto simp: recordOnce_Inr split: option.splits intro: log_step_put)
  then have "log_step (h, ty) sid d d'"
    by (simp only: log_step_cong [OF assms(3)])
  moreover have "users d' = users d1" "streams d' = streams d1" "indexer d' = indexer d1" "deadLetters d' = deadLetters d1"
    using assms(1) by (auto simp: recordOnce_Inr split: option.splits)
  ultimately show ?thesis
    using assms(2-7) wf_recordOnce [OF assms(1) _ assms(8)] h
    by (auto simp: handler_step_def)
qed

lemma update_recordOnce_step:
  assumes "stream_update now sid f d = Inr d1" and "recordOnce e ty c g d1 = Inr d'"
    and "\<And>us r. wf_stream us r \<Longrightarrow> wf_stream us (f r)" and "\<And>r. streamId (f r) = streamId r"
    and "\<And>h. wf_event (h, ty) (c h)" and "\<And>h. ev_streamId (c h) = sid"
  shows "handler_step ty sid e d d'"
proof (rule recordOnce_step [OF assms(2)])
  show "wf_db d1" if "wf_db d"
    using that assms(1,3,4) by (auto intro: wf_stream_update)
qed (use assms in \<open>auto simp: stream_update_Inr\<close>)

lemma update_upsert_step:
  assumes "evTxHash e = Some h" and "events d (h, ty) = None"
    and "stream_update now sid f d = Inr d1" and "event_upsert (Some h) ty c g d1 = Inr d'"
    and "wf_db d \<Longrightarrow> \<forall>us r. streams d sid = Some r \<longrightarrow> wf_stream us r \<longrightarrow> wf_stream us (f r)"
    and "\<And>r. streamId (f r) = streamId r"
    and "\<And>h. wf_event (h, ty) (c h)" and "\<And>h. ev_streamId (c h) = sid"
  shows "handler_step ty sid e d d'"
proof -
  from assms(3) have eqs: "events d1 = events d" "users d1 = users d" "indexer d1 = indexer d"
    "deadLetters d1 = deadLetters d" and fr: "\<And>s. s \<noteq> sid \<Longrightarrow> streams d1 s = streams d s"
    by (auto simp: stream_update_Inr)
  have "recordOnce e ty c g d1 = Inr d'"
    using assms(1,2,4) eqs(1) by (simp add: recordOnce_def event_findUnique_def)
  then show ?thesis
  proof (rule recordOnce_step)
    show "wf_db d1" if "wf_db d"
      using that assms(3,5,6) by (auto intro: wf_stream_update)
  qed (use eqs fr assms(7,8) in auto)
qed

lemma duplicate_step: "evTxHash e = Some h \<Longrightarrow> events d (h, ty) \<noteq> None \<Longrightarrow> handler_step ty sid e d d"
  by (auto simp: handler_step_def intro: log_step_put)

end
