(* ===== verification/Handler_Contract.thy ===== *)
theory Handler_Contract
  imports Event_Handlers
begin

text \<open>
  The handlers refine their contract. The locale \<open>event_handler\<close> states the interface the
  dispatcher and the poll loop rely on; it is interpreted by each of the ten handlers, and
  the client facts (nothing is lost from the event log, a handled event is on record, an
  event without a transaction hash never succeeds) are proved once inside it.
\<close>

locale event_handler =
  fixes handler :: "env \<Rightarrow> evt \<Rightarrow> scval \<Rightarrow> db \<Rightarrow> handled"
    and eventType :: string
    and addressed :: "scval \<Rightarrow> int result"
  assumes refines:
    "handler E e t d = Inr (d', bs) \<Longrightarrow> \<exists>sid. addressed t = Inr sid \<and> handler_step eventType sid e d d'"
    and faults: "txFault E e = Some x \<Longrightarrow> \<exists>y. handler E e t d = Inl y"
begin

lemma keeps_wf: "handler E e t d = Inr (d', bs) \<Longrightarrow> wf_db d \<Longrightarrow> wf_db d'"
  by (auto dest: refines simp: handler_step_def)

lemma on_record:
  "handler E e t d = Inr (d', bs) \<Longrightarrow> \<exists>h v. evTxHash e = Some h \<and> events d' (h, eventType) = Some v"
  by (drule refines) (auto simp: handler_step_def log_step_def split: option.splits)

lemma append_only:
  assumes "handler E e t d = Inr (d', bs)" and "events d k = Some v"
  shows "\<exists>v'. events d' k = Some v' \<and> same_entry v v'"
proof -
  obtain h sid where s: "log_step (h, eventType) sid d d'"
    using refines [OF assms(1)] by (auto simp: handler_step_def)
  show ?thesis
    using s assms(2) by (cases "k = (h, eventType)") (auto simp: log_step_def simp del: split_paired_All)
qed

lemma other_streams:
  "handler E e t d = Inr (d', bs) \<Longrightarrow> addressed t = Inr sid \<Longrightarrow> s \<noteq> sid \<Longrightarrow> streams d' s = streams d s"
  by (auto dest: refines simp: handler_step_def)

lemma bookkeeping:
  "handler E e t d = Inr (d', bs) \<Longrightarrow> indexer d' = indexer d \<and> deadLetters d' = deadLetters d"
  by (auto dest: refines simp: handler_step_def)

lemma needs_txHash: "evTxHash e = None \<Longrightarrow> \<exists>x. handler E e t d = Inl x"
  using on_record [of E e t d] by (cases "handler E e t d") (auto split: prod.splits)

end

section \<open>Inversion of the field readers\<close>

lemma i128Field_amount: "i128Field b k = Inr s \<Longrightarrow> is_amount s"
  by (auto simp: i128Field_def bindE_eq_Inr decodeI128_Inr)

lemma parseBig_Inr [simp]: "parseBig s = Inr i \<longleftrightarrow> BigInt s = Some i"
  by (simp add: parseBig_def)

lemma is_amount_0 [simp]: "is_amount ''0''"
  using is_amount_toString [of 0] by simp

lemmas handler_inv = bindE_eq_Inr transaction_Inr Let_def decodeU64_Inr

lemma ensureSystemStream_Inr:
  assumes "ensureSystemStream now d = Inr d1"
  shows "users d \<subseteq> users d1" "events d1 = events d" "indexer d1 = indexer d" "deadLetters d1 = deadLetters d"
    "\<And>s. s \<noteq> 0 \<Longrightarrow> streams d1 s = streams d s" "streams d1 0 \<noteq> None" "wf_db d \<Longrightarrow> wf_db d1"
proof -
  show "wf_db d1" if "wf_db d"
    using assms [unfolded ensureSystemStream_def] wf_user_upsert [OF that]
    by (auto elim!: wf_stream_upsert [rotated])
qed (use assms in \<open>auto simp: ensureSystemStream_def stream_upsert_Inr split: option.splits\<close>)

section \<open>The handlers refine the contract\<close>

lemma handleStreamCancelled_refines:
  assumes "handleStreamCancelled E e t d = Inr (d', bs)"
  shows "\<exists>sid. decodeU64 t = Inr sid \<and> handler_step ''CANCELLED'' sid e d d'"
proof -
  from assms obtain sid b aw rf where "t = ScvU64 sid" "i128Field b ''amount_withdrawn'' = Inr aw"
    and "i128Field b ''refunded_amount'' = Inr rf"
    by (auto simp: handleStreamCancelled_def handler_inv)
  with assms show ?thesis
    by (auto simp: handleStreamCancelled_def handler_inv wf_stream_def wf_event_def i128Field_amount
        intro!: update_recordOnce_step)
qed


lemma handleStreamCompleted_refines:
  assumes "handleStreamCompleted E e t d = Inr (d', bs)"
  shows "\<exists>sid. decodeU64 t = Inr sid \<and> handler_step ''COMPLETED'' sid e d d'"
  using assms
  by (auto simp: handleStreamCompleted_def handler_inv wf_stream_def wf_event_def i128Field_amount
      intro!: update_recordOnce_step)

lemma handleStreamPaused_refines:
  assumes "handleStreamPaused E e t d = Inr (d', bs)"
  shows "\<exists>sid. decodeU64 t = Inr sid \<and> handler_step ''PAUSED'' sid e d d'"
  using assms
  by (auto simp: handleStreamPaused_def handler_inv wf_stream_def wf_event_def
      intro!: update_recordOnce_step)

lemma handleStreamResumed_refines:
  assumes "handleStreamResumed E e t d = Inr (d', bs)"
  shows "\<exists>sid. decodeU64 t = Inr sid \<and> handler_step ''RESUMED'' sid e d d'"
  using assms
  by (auto simp: handleStreamResumed_def handler_inv wf_stream_def wf_event_def
      intro!: update_recordOnce_step)

lemma handleFeeCollected_refines:
  assumes "handleFeeCollected E e t d = Inr (d', bs)"
  shows "\<exists>sid. decodeU64 t = Inr sid \<and> handler_step ''FEE_COLLECTED'' sid e d d'"
  using assms
  by (auto simp: handleFeeCollected_def handler_inv wf_event_def i128Field_amount
      intro!: recordOnce_step)

lemma handleTokensWithdrawn_refines:
  assumes "handleTokensWithdrawn E e t d = Inr (d', bs)"
  shows "\<exists>sid. decodeU64 t = Inr sid \<and> handler_step ''WITHDRAWN'' sid e d d'"
proof -
  from assms obtain h where h: "evTxHash e = Some h"
    by (auto simp: handleTokensWithdrawn_def handler_inv event_findUnique_Inr)
  show ?thesis
  proof (cases "events d (h, ''WITHDRAWN'')")
    case None
    with h assms show ?thesis
      by (auto simp: handleTokensWithdrawn_def handler_inv event_findUnique_Inr wf_stream_def wf_event_def
          i128Field_amount intro!: update_upsert_step)
  next
    case (Some v)
    with h assms show ?thesis
      by (auto simp: handleTokensWithdrawn_def handler_inv event_findUnique_Inr intro!: duplicate_step)
  qed
qed

lemma handleStreamToppedUp_refines:
  assumes "handleStreamToppedUp E e t d = Inr (d', bs)"
  shows "\<exists>sid. decodeU64 t = Inr sid \<and> handler_step ''TOPPED_UP'' sid e d d'"
proof -
  from assms obtain h where h: "evTxHash e = Some h"
    by (auto simp: handleStreamToppedUp_def handler_inv event_findUnique_Inr)
  show ?thesis
  proof (cases "events d (h, ''TOPPED_UP'')")
    case None
    with h assms show ?thesis
      by (auto simp: handleStreamToppedUp_def handler_inv event_findUnique_Inr wf_stream_def wf_event_def
          i128Field_amount intro!: update_upsert_step)
  next
    case (Some v)
    with h assms show ?thesis
      by (auto simp: handleStreamToppedUp_def handler_inv event_findUnique_Inr intro!: duplicate_step)
  qed
qed

lemma handleStreamCreated_refines:
  assumes "handleStreamCreated E e t d = Inr (d', bs)"
  shows "\<exists>sid. decodeU64 t = Inr sid \<and> handler_step ''CREATED'' sid e d d'"
proof -
  let ?d0 = "\<lambda>sndr rcpt. user_upsert rcpt (user_upsert sndr d)"
  from assms obtain sid b sndr rcpt tok rate dep start endT d1 c f where t: "t = ScvU64 sid"
    and am: "i128Field b ''rate_per_second'' = Inr rate" "i128Field b ''deposited_amount'' = Inr dep"
    and up: "stream_upsert (handledAt E e)
           \<lparr>streamId = sid, sender = sndr, recipient = rcpt, tokenAddress = tok,
            ratePerSecond = rate, depositedAmount = dep, withdrawnAmount = ''0'',
            startTime = start, lastUpdateTime = start, endTime = endT, isActive = True,
            isPaused = False, pausedAt = None, totalPausedDuration = 0, updatedAt = handledAt E e\<rparr>
           (\<lambda>r. r\<lparr>tokenAddress := tok, ratePerSecond := rate, depositedAmount := dep,
                  startTime := start, endTime := endT, lastUpdateTime := start, isActive := True\<rparr>)
           (?d0 sndr rcpt) = Inr d1"
    and rc: "recordOnce e ''CREATED'' c f d1 = Inr d'"
    and ev: "\<And>h. ev_streamId (c h) = sid" "\<And>h. wf_event (h, ''CREATED'') (c h)"
    by (auto simp: handleStreamCreated_def handler_inv wf_event_def i128Field_amount)
  have wf1: "wf_db d1" if "wf_db d"
    using up wf_user_upsert [OF wf_user_upsert [OF that]] am
    by (auto elim!: wf_stream_upsert [rotated] simp: i128Field_amount) (auto simp: wf_stream_def i128Field_amount)
  have "handler_step ''CREATED'' sid e d d'"
    by (rule recordOnce_step [OF rc])
      (use up ev wf1 in \<open>auto simp: stream_upsert_Inr split: option.splits\<close>)
  with t show ?thesis by simp
qed

lemma system_event_step:
  assumes "ensureSystemStream now d = Inr d1" and "event_upsert (evTxHash e) ty c g d1 = Inr d'"
    and "\<And>h. wf_event (h, ty) (c h)" and "\<And>h. ev_streamId (c h) = 0" and "\<And>v. same_entry v (g v)"
  shows "handler_step ty 0 e d d'"
proof -
  note sys = ensureSystemStream_Inr [OF assms(1)]
  from assms(2) obtain h where h: "evTxHash e = Some h" by (auto simp: event_upsert_Inr)
  have "log_step (h, ty) 0 d1 d'"
    using assms(2,4,5) h by (auto simp: event_upsert_Inr split: option.splits intro: log_step_put)
  then have "log_step (h, ty) 0 d d'"
    by (simp only: log_step_cong [OF sys(2)])
  moreover have "users d' = users d1" "streams d' = streams d1" "indexer d' = indexer d1" "deadLetters d' = deadLetters d1"
    using assms(2) by (auto simp: event_upsert_Inr split: option.splits)
  moreover have "wf_db d'" if "wf_db d"
    using wf_event_upsert [OF sys(7) [OF that] assms(2,3)] assms(5) by (auto simp: same_entry_def)
  ultimately show ?thesis
    using sys h by (auto simp: handler_step_def)
qed

lemma handleFeeConfigUpdated_refines:
  assumes "handleFeeConfigUpdated E e d = Inr (d', bs)"
  shows "handler_step ''FEE_CONFIG_UPDATED'' 0 e d d'"
  using assms by (auto simp: handleFeeConfigUpdated_def handler_inv wf_event_def intro!: system_event_step)

lemma handleAdminTransferred_refines:
  assumes "handleAdminTransferred E e d = Inr (d', bs)"
  shows "handler_step ''ADMIN_TRANSFERRED'' 0 e d d'"
  using assms by (auto simp: handleAdminTransferred_def handler_inv wf_event_def intro!: system_event_step)

section \<open>Interpretations\<close>

lemma bindE_faults: "(\<And>x. \<exists>y. k x = Inl y) \<Longrightarrow> \<exists>y. bindE m k = Inl y"
  by (cases m) auto

lemma Let_faults: "(\<And>x. \<exists>y. k x = Inl y) \<Longrightarrow> \<exists>y. (let x = m in k x) = Inl y"
  by (simp add: Let_def)

lemma transaction_faults: "txFault E e = Some x \<Longrightarrow> \<exists>y. bindE (transaction E e f d) k = Inl y"
  by (simp add: transaction_def)

lemma handler_faults:
  assumes "txFault E e = Some x"
  shows "\<exists>y. handleStreamCreated E e t d = Inl y"
    "\<exists>y. handleStreamToppedUp E e t d = Inl y"
    "\<exists>y. handleTokensWithdrawn E e t d = Inl y"
    "\<exists>y. handleStreamCancelled E e t d = Inl y"
    "\<exists>y. handleStreamCompleted E e t d = Inl y"
    "\<exists>y. handleFeeCollected E e t d = Inl y"
    "\<exists>y. handleStreamPaused E e t d = Inl y"
    "\<exists>y. handleStreamResumed E e t d = Inl y"
    "\<exists>y. handleFeeConfigUpdated E e d = Inl y"
    "\<exists>y. handleAdminTransferred E e d = Inl y"
  unfolding handleStreamCreated_def handleStreamToppedUp_def handleTokensWithdrawn_def handleStreamCancelled_def handleStreamCompleted_def handleFeeCollected_def handleStreamPaused_def handleStreamResumed_def handleFeeConfigUpdated_def handleAdminTransferred_def
  by (rule transaction_faults [OF assms] Let_faults bindE_faults)+

interpretation created: event_handler handleStreamCreated "''CREATED''" decodeU64
  by unfold_locales (fact handleStreamCreated_refines, fact handler_faults)

interpretation toppedUp: event_handler handleStreamToppedUp "''TOPPED_UP''" decodeU64
  by unfold_locales (fact handleStreamToppedUp_refines, fact handler_faults)

interpretation withdrawn: event_handler handleTokensWithdrawn "''WITHDRAWN''" decodeU64
  by unfold_locales (fact handleTokensWithdrawn_refines, fact handler_faults)

interpretation cancelled: event_handler handleStreamCancelled "''CANCELLED''" decodeU64
  by unfold_locales (fact handleStreamCancelled_refines, fact handler_faults)

interpretation completed: event_handler handleStreamCompleted "''COMPLETED''" decodeU64
  by unfold_locales (fact handleStreamCompleted_refines, fact handler_faults)

interpretation feeCollected: event_handler handleFeeCollected "''FEE_COLLECTED''" decodeU64
  by unfold_locales (fact handleFeeCollected_refines, fact handler_faults)

interpretation paused: event_handler handleStreamPaused "''PAUSED''" decodeU64
  by unfold_locales (fact handleStreamPaused_refines, fact handler_faults)

interpretation resumed: event_handler handleStreamResumed "''RESUMED''" decodeU64
  by unfold_locales (fact handleStreamResumed_refines, fact handler_faults)

interpretation feeConfig: event_handler "\<lambda>E e t d. handleFeeConfigUpdated E e d" "''FEE_CONFIG_UPDATED''" "\<lambda>_. Inr 0"
  by unfold_locales (auto dest: handleFeeConfigUpdated_refines intro: handler_faults)

interpretation adminTransfer: event_handler "\<lambda>E e t d. handleAdminTransferred E e d" "''ADMIN_TRANSFERRED''" "\<lambda>_. Inr 0"
  by unfold_locales (auto dest: handleAdminTransferred_refines intro: handler_faults)

section \<open>Dispatch\<close>

text \<open>
  An event that \<open>processEvent\<close> accepts is either ignored or one step of the contract.
\<close>

lemma dispatchStreamEvent_step:
  assumes "dispatchStreamEvent E e name t d = Inr (d', bs)"
  shows "(d' = d \<and> bs = []) \<or> (\<exists>ty sid. handler_step ty sid e d d')"
  using assms
  by (auto simp: dispatchStreamEvent_def split: if_splits
      dest: created.refines toppedUp.refines withdrawn.refines paused.refines resumed.refines
        cancelled.refines completed.refines feeCollected.refines)

lemma processEvent_cases:
  assumes "processEvent E e d = Inr (d', bs)"
  obtains (ignored) "d' = d" "bs = []"
  | (feeConfig) "handleFeeConfigUpdated E e d = Inr (d', bs)"
  | (admin) "handleAdminTransferred E e d = Inr (d', bs)"
  | (stream) name t ts where "evTopic e = ScvSymbol name # t # ts"
      "dispatchStreamEvent E e name t d = Inr (d', bs)"
proof (cases "evTopic e")
  case Nil
  with assms ignored show ?thesis by (simp add: processEvent_def)
next
  case (Cons topic0 rest)
  with assms obtain name where n: "topic0 = ScvSymbol name"
    by (auto simp: processEvent_def bindE_eq_Inr decodeSymbol_Inr)
  with Cons assms that show ?thesis
    by (cases rest) (auto simp: processEvent_def split: if_splits)
qed

lemma processEvent_step:
  assumes "processEvent E e d = Inr (d', bs)"
  shows "(d' = d \<and> bs = []) \<or> (\<exists>ty sid. handler_step ty sid e d d')"
  using assms
proof (cases rule: processEvent_cases)
  case feeConfig
  then show ?thesis by (blast dest: handleFeeConfigUpdated_refines)
next
  case admin
  then show ?thesis by (blast dest: handleAdminTransferred_refines)
next
  case (stream name t ts)
  then show ?thesis by (blast dest: dispatchStreamEvent_step)
qed simp

lemma processEvent_wf: "processEvent E e d = Inr (d', bs) \<Longrightarrow> wf_db d \<Longrightarrow> wf_db d'"
  by (auto dest!: processEvent_step simp: handler_step_def)

lemma processEvent_bookkeeping [frame]:
  "processEvent E e d = Inr (d', bs) \<Longrightarrow> indexer d' = indexer d \<and> deadLetters d' = deadLetters d"
  by (auto dest!: processEvent_step simp: handler_step_def)

lemma processEvent_append_only:
  assumes "processEvent E e d = Inr (d', bs)" and "events d k = Some v"
  shows "\<exists>v'. events d' k = Some v' \<and> same_entry v v'"
proof -
  from processEvent_step [OF assms(1)] consider "d' = d"
    | h ty sid where "log_step (h, ty) sid d d'" by (auto simp: handler_step_def)
  then show ?thesis
  proof cases
    case 1
    with assms(2) show ?thesis by simp
  next
    case (2 h ty sid)
    with assms(2) show ?thesis
      by (cases "k = (h, ty)") (auto simp: log_step_def simp del: split_paired_All)
  qed
qed

end
