(* ===== verification/Examples.thy ===== *)
theory Examples
  imports Handler_Contract
begin

text \<open>
  Concrete events, an environment and a database, used to show that the hypotheses of the
  properties can hold.
\<close>

definition exampleEnv :: env where
  "exampleEnv =
     \<lparr>sk = \<lparr>encodeEd25519PublicKey = (\<lambda>b. CHR ''G'' # toString (int (length b))),
            encodeContract = (\<lambda>b. CHR ''C'' # toString (int (length b)))\<rparr>,
      handledAt = (\<lambda>_. 1800000), txFault = (\<lambda>_. None)\<rparr>"

definition contractEvent :: "string \<Rightarrow> int \<Rightarrow> string \<Rightarrow> string \<Rightarrow> int \<Rightarrow> (string \<times> scval) list \<Rightarrow> evt" where
  "contractEvent i ledger tx name sid body =
     \<lparr>evId = i, evLedger = ledger, evTxHash = Some tx, evTopic = [ScvSymbol name, ScvU64 sid],
      evValue = ScvMap (Some (map (\<lambda>(k, v). (ScvSymbol k, v)) body)),
      inSuccessfulContractCall = True, evType = ''contract'', ledgerClosedAt = [], transactionIndex = 0,
      operationIndex = 0, evContractId = None\<rparr>"

definition createdEvent :: evt where
  "createdEvent = contractEvent ''0100-1'' 100 ''tx1'' ''stream_created'' 7
     [(''sender'', ScvAddress (ScAddressAccount [1])), (''recipient'', ScvAddress (ScAddressAccount [1, 2])),
      (''token_address'', ScvAddress (ScAddressContract [3])), (''rate_per_second'', ScvI128 0 10),
      (''deposited_amount'', ScvI128 0 1000), (''start_time'', ScvU64 1700)]"

definition withdrawEvent :: evt where
  "withdrawEvent = contractEvent ''0101-1'' 101 ''tx2'' ''tokens_withdrawn'' 7
     [(''recipient'', ScvAddress (ScAddressAccount [1, 2])), (''amount'', ScvI128 0 50), (''timestamp'', ScvU64 1710)]"

definition toppedUpEvent :: evt where
  "toppedUpEvent = contractEvent ''0102-1'' 102 ''tx3'' ''stream_topped_up'' 7
     [(''amount'', ScvI128 0 500), (''new_deposited_amount'', ScvI128 0 1500)]"

definition pausedEvent :: evt where
  "pausedEvent = contractEvent ''0103-1'' 103 ''tx4'' ''stream_paused'' 7
     [(''sender'', ScvAddress (ScAddressAccount [1])), (''paused_at'', ScvU64 1720)]"

definition resumedEvent :: evt where
  "resumedEvent = contractEvent ''0104-1'' 104 ''tx5'' ''stream_resumed'' 7
     [(''sender'', ScvAddress (ScAddressAccount [1])), (''new_end_time'', ScvU64 1880)]"

definition cancelledEvent :: evt where
  "cancelledEvent = contractEvent ''0105-1'' 105 ''tx6'' ''stream_cancelled'' 7
     [(''amount_withdrawn'', ScvI128 0 50), (''refunded_amount'', ScvI128 0 950)]"

definition after :: "evt \<Rightarrow> db \<Rightarrow> db" where
  "after e d = (case processEvent exampleEnv e d of Inl _ \<Rightarrow> d | Inr (d', _) \<Rightarrow> d')"

definition exampleDb :: db where
  "exampleDb = after createdEvent emptyDb"

lemma decodeI128_small: "0 \<le> l \<Longrightarrow> l < 2 ^ 64 \<Longrightarrow> decodeI128 (ScvI128 0 l) = Inr (toString l)"
  by (simp add: decodeI128_eq asIntN_self asUintN_self)

lemmas run_simps =
  processEvent_def dispatchStreamEvent_def decodeMap_def has_def addressField_def i128Field_def
  u64Field_def decodeI128_small parseBig_def transaction_def Let_def recordOnce_def event_findUnique_def
  event_upsert_def stream_upsert_def stream_update_def stream_findUniqueOrThrow_def

lemmas example_defs =
  exampleEnv_def contractEvent_def createdEvent_def withdrawEvent_def toppedUpEvent_def pausedEvent_def
  resumedEvent_def cancelledEvent_def

definition exampleStream :: stream_row where
  "exampleStream =
     \<lparr>streamId = 7, sender = ''G1'', recipient = ''G2'', tokenAddress = ''C1'', ratePerSecond = toString 10,
      depositedAmount = toString 1000, withdrawnAmount = ''0'', startTime = 1700, lastUpdateTime = 1700,
      endTime = Some 1800, isActive = True, isPaused = False, pausedAt = None, totalPausedDuration = 0,
      updatedAt = 1800000\<rparr>"

lemma G_names: "CHR ''G'' # toString 1 = ''G1''" "CHR ''G'' # toString 2 = ''G2''" "CHR ''C'' # toString 1 = ''C1''"
  by simp_all

lemma createdEvent_runs:
  obtains bs v where "processEvent exampleEnv createdEvent emptyDb = Inr (exampleDb, bs)"
    "streams exampleDb = [7 \<mapsto> exampleStream]" "events exampleDb = [(''tx1'', ''CREATED'') \<mapsto> v]"
    "ev_streamId v = 7"
proof -
  have "\<exists>bs v. processEvent exampleEnv createdEvent emptyDb =
      Inr (\<lparr>users = {''G1'', ''G2''}, streams = [7 \<mapsto> exampleStream],
            events = [(''tx1'', ''CREATED'') \<mapsto> v], indexer = None, deadLetters = []\<rparr>, bs) \<and> ev_streamId v = 7"
    by (simp add: run_simps emptyDb_def example_defs handleStreamCreated_def G_names exampleStream_def
        sdiv_nonneg insert_commute user_upsert_def del: toString_eval JSON_stringify.simps)
      (rule exI, rule conjI, rule refl, simp)
  then show ?thesis using that by (auto simp: exampleDb_def after_def)
qed

lemma exampleDb_wf: "wf_db exampleDb"
  using createdEvent_runs processEvent_wf [OF _ wf_db_empty] by metis

lemma exampleDb_stream: "streams exampleDb 7 = Some exampleStream"
  by (rule createdEvent_runs) simp

lemma exampleDb_event: "events exampleDb (h, ty) = None \<longleftrightarrow> (h, ty) \<noteq> (''tx1'', ''CREATED'')"
  by (rule createdEvent_runs) auto

end
