(* ===== verification/Withdrawal_Ledger.thy ===== *)
theory Withdrawal_Ledger
  imports Handler_Contract
begin

text \<open>
  The accounting argument behind the \<open>WITHDRAWN\<close> events: the running total kept in
  \<open>Stream.withdrawnAmount\<close> and the amounts of the recorded withdrawals move together. The
  difference of the two is an invariant of the indexer, so however often an event is
  delivered, each recorded withdrawal is in the total exactly once.
\<close>

definition withdrawnOf :: "db \<Rightarrow> int \<Rightarrow> int" where
  "withdrawnOf d sid = (case streams d sid of None \<Rightarrow> 0 | Some r \<Rightarrow> amount (withdrawnAmount r))"

definition contribution :: "int \<Rightarrow> (string \<times> string) \<Rightarrow> event_row option \<Rightarrow> int" where
  "contribution sid k vo =
     (case vo of None \<Rightarrow> 0
      | Some v \<Rightarrow> if snd k = ''WITHDRAWN'' \<and> ev_streamId v = sid
                 then (case ev_amount v of None \<Rightarrow> 0 | Some a \<Rightarrow> amount a) else 0)"

definition recordedWithdrawals :: "db \<Rightarrow> int \<Rightarrow> int" where
  "recordedWithdrawals d sid = (\<Sum>k\<in>dom (events d). contribution sid k (events d k))"

definition unrecorded :: "db \<Rightarrow> int \<Rightarrow> int" where
  "unrecorded d sid = withdrawnOf d sid - recordedWithdrawals d sid"

lemma contribution_same: "same_entry v v' \<Longrightarrow> contribution sid k (Some v') = contribution sid k (Some v)"
  by (simp add: contribution_def same_entry_def)

lemma contribution_None [simp]: "contribution sid k None = 0"
  by (simp add: contribution_def)

lemma recorded_log_step:
  assumes "log_step k s d d'" and "finite (dom (events d))"
  shows "recordedWithdrawals d' sid =
           recordedWithdrawals d sid + (if events d k = None then contribution sid k (events d' k) else 0)"
proof -
  have other: "events d' k' = events d k'" if "k' \<noteq> k" for k'
    using assms(1) that by (simp add: log_step_def del: split_paired_All)
  obtain v' where v': "events d' k = Some v'"
    using assms(1) by (auto simp: log_step_def split: option.splits)
  have dom': "dom (events d') = insert k (dom (events d))"
    using v' other by (auto simp: dom_def simp del: split_paired_All split_paired_Ex) (metis option.inject other)+
  have rest: "(\<Sum>x\<in>dom (events d) - {k}. contribution sid x (events d' x))
            = (\<Sum>x\<in>dom (events d) - {k}. contribution sid x (events d x))"
    by (rule sum.cong) (auto simp: other)
  show ?thesis
  proof (cases "events d k")
    case None
    then have "dom (events d) - {k} = dom (events d)" by auto
    with None rest show ?thesis
      by (simp add: recordedWithdrawals_def dom' assms(2) domIff)
  next
    case (Some v)
    then have "contribution sid k (events d' k) = contribution sid k (events d k)"
      using assms(1) by (auto simp: log_step_def contribution_same)
    moreover have "k \<in> dom (events d)" using Some by auto
    ultimately show ?thesis
      using Some rest assms(2)
      by (simp add: recordedWithdrawals_def dom' insert_absorb sum.remove [of _ k])
  qed
qed

lemma recorded_other_type:
  "log_step (h, ty) s d d' \<Longrightarrow> finite (dom (events d)) \<Longrightarrow> ty \<noteq> ''WITHDRAWN'' \<Longrightarrow>
     recordedWithdrawals d' sid = recordedWithdrawals d sid"
  by (simp add: recorded_log_step) (simp add: contribution_def split: option.split)

lemma unrecorded_other_type:
  assumes "handler_step ty s e d d'" and "ty \<noteq> ''WITHDRAWN''" and "wf_db d"
    and "withdrawnOf d' sid = withdrawnOf d sid"
  shows "unrecorded d' sid = unrecorded d sid"
  using assms wf_dbD(3) [OF assms(3)]
  by (auto simp: unrecorded_def handler_step_def recorded_other_type)

section \<open>Effect of the handlers on the running total\<close>

lemma withdrawnOf_record:
  "recordOnce e ty c f d = Inr d' \<Longrightarrow> withdrawnOf d' = withdrawnOf d"
  by (auto simp: recordOnce_Inr withdrawnOf_def fun_eq_iff split: option.splits)

lemma withdrawnOf_event_upsert:
  "event_upsert tx ty c f d = Inr d' \<Longrightarrow> withdrawnOf d' = withdrawnOf d"
  by (auto simp: event_upsert_Inr withdrawnOf_def fun_eq_iff split: option.splits)

lemma withdrawnOf_update:
  "stream_update now s f d = Inr d' \<Longrightarrow> (\<And>r. withdrawnAmount (f r) = withdrawnAmount r) \<Longrightarrow>
     withdrawnOf d' = withdrawnOf d"
  by (auto simp: stream_update_Inr withdrawnOf_def fun_eq_iff)

lemma amount_0 [simp]: "amount ''0'' = 0"
  using amount_toString [of 0] by simp

lemma withdrawnOf_upsert:
  "stream_upsert now c f d = Inr d' \<Longrightarrow> withdrawnAmount c = ''0'' \<Longrightarrow>
     (\<And>r. withdrawnAmount (f r) = withdrawnAmount r) \<Longrightarrow> withdrawnOf d' = withdrawnOf d"
  by (auto simp: stream_upsert_Inr withdrawnOf_def fun_eq_iff split: option.splits)

lemma withdrawnOf_user [simp]: "withdrawnOf (user_upsert pk d) = withdrawnOf d"
  by (simp add: withdrawnOf_def fun_eq_iff)

lemma withdrawnOf_system: "ensureSystemStream now d = Inr d' \<Longrightarrow> withdrawnOf d' = withdrawnOf d"
  unfolding ensureSystemStream_def by (drule withdrawnOf_upsert) auto

lemmas withdrawnOf_effects =
  withdrawnOf_record withdrawnOf_event_upsert withdrawnOf_system

lemma withdrawnOf_created: "handleStreamCreated E e t d = Inr (d', bs) \<Longrightarrow> withdrawnOf d' = withdrawnOf d"
  by (auto simp: handleStreamCreated_def handler_inv dest!: withdrawnOf_record withdrawnOf_upsert)

lemma withdrawnOf_toppedUp: "handleStreamToppedUp E e t d = Inr (d', bs) \<Longrightarrow> withdrawnOf d' = withdrawnOf d"
  by (auto simp: handleStreamToppedUp_def handler_inv split: if_splits dest!: withdrawnOf_event_upsert withdrawnOf_update)

lemma withdrawnOf_paused: "handleStreamPaused E e t d = Inr (d', bs) \<Longrightarrow> withdrawnOf d' = withdrawnOf d"
  by (auto simp: handleStreamPaused_def handler_inv dest!: withdrawnOf_record withdrawnOf_update)

lemma withdrawnOf_resumed: "handleStreamResumed E e t d = Inr (d', bs) \<Longrightarrow> withdrawnOf d' = withdrawnOf d"
  by (auto simp: handleStreamResumed_def handler_inv dest!: withdrawnOf_record withdrawnOf_update)

lemma withdrawnOf_fee: "handleFeeCollected E e t d = Inr (d', bs) \<Longrightarrow> withdrawnOf d' = withdrawnOf d"
  by (auto simp: handleFeeCollected_def handler_inv dest!: withdrawnOf_record)

lemma withdrawnOf_feeConfig: "handleFeeConfigUpdated E e d = Inr (d', bs) \<Longrightarrow> withdrawnOf d' = withdrawnOf d"
  by (auto simp: handleFeeConfigUpdated_def handler_inv dest!: withdrawnOf_event_upsert withdrawnOf_system)

lemma withdrawnOf_admin: "handleAdminTransferred E e d = Inr (d', bs) \<Longrightarrow> withdrawnOf d' = withdrawnOf d"
  by (auto simp: handleAdminTransferred_def handler_inv dest!: withdrawnOf_event_upsert withdrawnOf_system)

text \<open>A withdrawal on record is skipped; a new one adds its amount to total and log alike.\<close>

lemma handleTokensWithdrawn_duplicate:
  assumes "handleTokensWithdrawn E e t d = Inr (d', bs)" and "evTxHash e = Some h"
    and "events d (h, ''WITHDRAWN'') \<noteq> None"
  shows "d' = d"
  using assms by (auto simp: handleTokensWithdrawn_def handler_inv event_findUnique_Inr)

lemma handleTokensWithdrawn_new:
  assumes "handleTokensWithdrawn E e t d = Inr (d', bs)" and "evTxHash e = Some h"
    and "events d (h, ''WITHDRAWN'') = None"
  obtains sid a v where "t = ScvU64 sid" "streams d sid \<noteq> None"
    "withdrawnOf d' = (withdrawnOf d)(sid := withdrawnOf d sid + amount a)"
    "events d' (h, ''WITHDRAWN'') = Some v" "ev_streamId v = sid" "ev_amount v = Some a"
proof -
  from assms obtain sid b a rcpt ts r old ab d1 where t: "t = ScvU64 sid"
    and "i128Field b ''amount'' = Inr a" and r: "streams d sid = Some r"
    and old: "BigInt (withdrawnAmount r) = Some old" and ab: "BigInt a = Some ab"
    and up: "stream_update (handledAt E e) sid
           (\<lambda>r. r\<lparr>withdrawnAmount := toString (old + ab), lastUpdateTime := ts\<rparr>) d = Inr d1"
    and ev: "event_upsert (Some h) ''WITHDRAWN''
         (\<lambda>h. \<lparr>ev_streamId = sid, ev_eventType = ''WITHDRAWN'', ev_amount = Some a,
               ev_transactionHash = h, ev_ledgerSequence = evLedger e, ev_timestamp = ts,
               ev_metadata = Some (JSON_stringify (JObj [(''recipient'', JStr rcpt)]))\<rparr>)
         (touch (evLedger e) ts) d1 = Inr d'"
    by (auto simp: handleTokensWithdrawn_def handler_inv event_findUnique_Inr stream_findUniqueOrThrow_def
        simp del: JSON_stringify.simps)
  have d1: "events d1 = events d" "withdrawnOf d1 = (withdrawnOf d)(sid := old + ab)"
    using up by (auto simp: stream_update_Inr withdrawnOf_def fun_eq_iff)
  have "withdrawnOf d sid = old" "amount a = ab"
    using r old ab by (simp_all add: withdrawnOf_def amount_def)
  with t r ev d1 assms(3) withdrawnOf_event_upsert [OF ev] show ?thesis
    by (intro that [of sid a]) (auto simp: event_upsert_Inr split: option.splits)
qed

lemma unrecorded_withdrawn:
  assumes "handleTokensWithdrawn E e t d = Inr (d', bs)" and "wf_db d"
  shows "unrecorded d' s = unrecorded d s"
proof -
  obtain h sid where h: "evTxHash e = Some h" and ls: "log_step (h, ''WITHDRAWN'') sid d d'"
    using handleTokensWithdrawn_refines [OF assms(1)] by (auto simp: handler_step_def)
  note rec = recorded_log_step [OF ls wf_dbD(3) [OF assms(2)]]
  show ?thesis
  proof (cases "events d (h, ''WITHDRAWN'')")
    case None
    obtain n a v where "withdrawnOf d' = (withdrawnOf d)(n := withdrawnOf d n + amount a)"
      and "events d' (h, ''WITHDRAWN'') = Some v" "ev_streamId v = n" "ev_amount v = Some a"
      using handleTokensWithdrawn_new [OF assms(1) h None] by metis
    then show ?thesis
      using None by (simp add: unrecorded_def rec contribution_def)
  next
    case (Some v)
    then show ?thesis using handleTokensWithdrawn_duplicate [OF assms(1) h] by simp
  qed
qed

section \<open>The invariant\<close>

definition settles :: "string \<Rightarrow> bool" where
  "settles name = (name = ''stream_cancelled'' \<or> name = ''stream_completed'')"

definition eventName :: "evt \<Rightarrow> string" where
  "eventName e = (case evTopic e of ScvSymbol s # _ \<Rightarrow> s | _ \<Rightarrow> [])"

context event_handler
begin

lemma unrecorded_kept:
  assumes "handler E e t d = Inr (d', bs)" and "eventType \<noteq> ''WITHDRAWN''" and "wf_db d"
    and "withdrawnOf d' = withdrawnOf d"
  shows "unrecorded d' s = unrecorded d s"
  using refines [OF assms(1)] assms(2-4) by (auto intro: unrecorded_other_type)

end

lemmas unrecorded_kept =
  created.unrecorded_kept [OF _ _ _ withdrawnOf_created]
  toppedUp.unrecorded_kept [OF _ _ _ withdrawnOf_toppedUp]
  paused.unrecorded_kept [OF _ _ _ withdrawnOf_paused]
  resumed.unrecorded_kept [OF _ _ _ withdrawnOf_resumed]
  feeCollected.unrecorded_kept [OF _ _ _ withdrawnOf_fee]
  feeConfig.unrecorded_kept [OF _ _ _ withdrawnOf_feeConfig]
  adminTransfer.unrecorded_kept [OF _ _ _ withdrawnOf_admin]
  unrecorded_withdrawn

lemma unrecorded_dispatch:
  assumes "dispatchStreamEvent E e name t d = Inr (d', bs)" and "wf_db d" and "\<not> settles name"
  shows "unrecorded d' s = unrecorded d s"
  using assms by (auto simp: dispatchStreamEvent_def settles_def split: if_splits intro: unrecorded_kept)

lemma processEvent_unrecorded:
  assumes "processEvent E e d = Inr (d', bs)" and "wf_db d" and "\<not> settles (eventName e)"
  shows "unrecorded d' s = unrecorded d s"
  using assms(1)
proof (cases rule: processEvent_cases)
  case (stream name t ts)
  with assms(2,3) show ?thesis by (auto simp: eventName_def intro: unrecorded_dispatch)
qed (use assms(2) in \<open>auto intro: unrecorded_kept\<close>)

end
