(* ===== verification/Handler_Effects.thy ===== *)
theory Handler_Effects
  imports Examples Withdrawal_Ledger
begin

text \<open>
  What the handlers do to the addressed stream, redelivery of an event, and isolation of
  the other streams.
\<close>

section \<open>Redelivery\<close>

text \<open>
  Rows, databases and messages without the times a handler reads off the clock: \<open>lastUpdateTime\<close> and
  \<open>updatedAt\<close> of a stream, the time of a log entry, and the field \<open>timestamp\<close> of a message.
\<close>

definition untimedRow :: "stream_row \<Rightarrow> stream_row" where
  "untimedRow r = r\<lparr>lastUpdateTime := 0, updatedAt := 0\<rparr>"

definition untimedEntry :: "event_row \<Rightarrow> event_row" where
  "untimedEntry v = v\<lparr>ev_timestamp := 0\<rparr>"

definition untimedDb :: "db \<Rightarrow> db" where
  "untimedDb d = d\<lparr>streams := (\<lambda>s. map_option untimedRow (streams d s)), events := (\<lambda>k. map_option untimedEntry (events d k))\<rparr>"

fun untimedCast :: "bcast \<Rightarrow> bcast" where
  "untimedCast (BroadcastToStream s n (JObj fs)) = BroadcastToStream s n (JObj (filter (\<lambda>f. fst f \<noteq> ''timestamp'') fs))"
| "untimedCast (BroadcastToAdmin n (JObj fs)) = BroadcastToAdmin n (JObj (filter (\<lambda>f. fst f \<noteq> ''timestamp'') fs))"
| "untimedCast b = b"

text \<open>The environment of a redelivery: another clock, and a transaction the database does not fail.\<close>

definition redelivers :: "env \<Rightarrow> env \<Rightarrow> evt \<Rightarrow> bool" where
  "redelivers E E' e = (sk E' = sk E \<and> txFault E' e = None)"

definition sameAgain :: "handled \<Rightarrow> db \<Rightarrow> bcast list \<Rightarrow> bool" where
  "sameAgain r d bs = (\<exists>d' bs'. r = Inr (d', bs') \<and> untimedDb d' = untimedDb d \<and> map untimedCast bs' = map untimedCast bs)"

lemma redelivers_field: "redelivers E E' e \<Longrightarrow> addressField E' b k = addressField E b k"
  by (simp add: redelivers_def addressField_def)

lemma redelivers_fault: "redelivers E E' e \<Longrightarrow> txFault E' e = None"
  by (simp add: redelivers_def)

lemma map_option_upd_same: "m k = Some v \<Longrightarrow> h v' = h v \<Longrightarrow> map_option h ((m(k \<mapsto> v')) x) = map_option h (m x)"
  by simp

lemma untimed_row_update:
  assumes "streams d s = Some r" "untimedRow r' = untimedRow r"
  shows "untimedDb (d\<lparr>streams := (streams d)(s \<mapsto> r')\<rparr>) = untimedDb d"
  using map_option_upd_same [where m = "streams d" and h = untimedRow, OF assms] by (simp add: untimedDb_def del: fun_upd_apply)

lemma untimed_entry_update:
  assumes "events d k = Some v" "untimedEntry v' = untimedEntry v"
  shows "untimedDb (d\<lparr>events := (events d)(k \<mapsto> v')\<rparr>) = untimedDb d"
  using map_option_upd_same [where m = "events d" and h = untimedEntry, OF assms] by (simp add: untimedDb_def del: fun_upd_apply)

lemma recordOnce_skips: "evTxHash e = Some h \<Longrightarrow> events d (h, ty) \<noteq> None \<Longrightarrow> recordOnce e ty c f d = Inr d"
  by (simp add: recordOnce_def event_findUnique_def)

lemma recordOnce_entry:
  assumes "recordOnce e ty c f d = Inr d1"
  obtains h where "evTxHash e = Some h" "events d1 (h, ty) \<noteq> None"
  using assms by (auto simp: recordOnce_Inr split: option.splits)

lemma recordOnce_again: "recordOnce e ty c f d = Inr d1 \<Longrightarrow> events x = events d1 \<Longrightarrow> recordOnce e ty c' f' x = Inr x"
  by (erule recordOnce_entry) (simp add: recordOnce_skips)

lemma recordOnce_rows: "recordOnce e ty c f d = Inr d' \<Longrightarrow> streams d' = streams d \<and> users d' = users d"
  by (auto simp: recordOnce_Inr split: option.splits)

lemma update_again:
  assumes "stream_update now s f d = Inr d1" "recordOnce e ty c g d1 = Inr d'"
    and "\<And>r. untimedRow (f' ((f r)\<lparr>updatedAt := now\<rparr>)) = untimedRow (f r)"
  shows "\<exists>y. (\<exists>x. stream_update now' s f' d' = Inr x \<and> recordOnce e ty c' g' x = Inr y) \<and> untimedDb y = untimedDb d'"
proof -
  from assms(1) obtain r where "streams d1 s = Some ((f r)\<lparr>updatedAt := now\<rparr>)" by (auto simp: stream_update_Inr)
  with recordOnce_rows [OF assms(2)] have r: "streams d' s = Some ((f r)\<lparr>updatedAt := now\<rparr>)" by simp
  let ?x = "d'\<lparr>streams := (streams d')(s \<mapsto> (f' ((f r)\<lparr>updatedAt := now\<rparr>))\<lparr>updatedAt := now'\<rparr>)\<rparr>"
  have "stream_update now' s f' d' = Inr ?x" using r by (simp add: stream_update_Inr)
  moreover have "recordOnce e ty c' g' ?x = Inr ?x" by (rule recordOnce_again [OF assms(2)]) simp
  moreover have "untimedDb ?x = untimedDb d'"
    using assms(3) [of r] by (intro untimed_row_update [OF r]) (simp add: untimedRow_def)
  ultimately show ?thesis by blast
qed

lemma jtx_untimed: "filter (\<lambda>f. fst f \<noteq> ''timestamp'') (jtx e) = jtx e"
  by (cases "evTxHash e") (simp_all add: jtx_def jopt_def)

lemmas again_simps = sameAgain_def handler_inv redelivers_field redelivers_fault jtx_untimed

lemma handleStreamCancelled_again:
  assumes "handleStreamCancelled E e t d = Inr (d', bs)" "redelivers E E' e"
  shows "sameAgain (handleStreamCancelled E' e t d') d' bs"
  using assms
  by (auto simp: handleStreamCancelled_def again_simps intro!: update_again simp: untimedRow_def)

lemma handleStreamCompleted_again:
  assumes "handleStreamCompleted E e t d = Inr (d', bs)" "redelivers E E' e"
  shows "sameAgain (handleStreamCompleted E' e t d') d' bs"
  using assms
  by (auto simp: handleStreamCompleted_def again_simps untimedRow_def intro!: update_again)

lemma handleStreamPaused_again:
  assumes "handleStreamPaused E e t d = Inr (d', bs)" "redelivers E E' e"
  shows "sameAgain (handleStreamPaused E' e t d') d' bs"
  using assms
  by (auto simp: handleStreamPaused_def again_simps untimedRow_def intro!: update_again)

lemma handleFeeCollected_again:
  assumes "handleFeeCollected E e t d = Inr (d', bs)" "redelivers E E' e"
  shows "sameAgain (handleFeeCollected E' e t d') d' bs"
  using assms
  by (auto simp: handleFeeCollected_def again_simps recordOnce_again)

text \<open>A withdrawal on record is skipped, whatever database the record is in.\<close>

lemma handleTokensWithdrawn_skips:
  assumes "handleTokensWithdrawn E e t d = Inr (d', bs)" and "evTxHash e = Some h"
    and "events d2 (h, ''WITHDRAWN'') \<noteq> None"
  shows "handleTokensWithdrawn E e t d2 = Inr (d2, bs)"
  using assms by (auto simp: handleTokensWithdrawn_def handler_inv event_findUnique_Inr)

lemma handleTokensWithdrawn_again:
  assumes "handleTokensWithdrawn E e t d = Inr (d', bs)" "redelivers E E' e"
  shows "sameAgain (handleTokensWithdrawn E' e t d') d' bs"
proof -
  obtain h where "evTxHash e = Some h" "events d' (h, ''WITHDRAWN'') \<noteq> None"
    using withdrawn.on_record [OF assms(1)] by blast
  with assms show ?thesis
    by (auto simp: handleTokensWithdrawn_def again_simps event_findUnique_Inr)
qed

lemma handleStreamToppedUp_again:
  assumes "handleStreamToppedUp E e t d = Inr (d', bs)" "redelivers E E' e"
  shows "sameAgain (handleStreamToppedUp E' e t d') d' bs"
proof -
  obtain h where "evTxHash e = Some h" "events d' (h, ''TOPPED_UP'') \<noteq> None"
    using toppedUp.on_record [OF assms(1)] by blast
  with assms show ?thesis
    by (auto simp: handleStreamToppedUp_def again_simps event_findUnique_Inr)
qed

lemma handleStreamResumed_again:
  assumes "handleStreamResumed E e t d = Inr (d', bs)" "redelivers E E' e"
  shows "sameAgain (handleStreamResumed E' e t d') d' bs"
proof -
  let ?ts = "now_s E e" and ?now = "handledAt E e"
  from assms(1) obtain sid b sndr newEnd cur d1 c g where t: "t = ScvU64 sid"
    and f: "decodeMap (evValue e) = Inr b" "has b [''sender'', ''new_end_time'']"
      "addressField E b ''sender'' = Inr sndr" "u64Field b ''new_end_time'' = Inr newEnd"
    and cur: "streams d sid = Some cur"
    and up: "stream_update ?now sid
           (\<lambda>r. r\<lparr>isPaused := False, pausedAt := None, endTime := Some newEnd,
                  totalPausedDuration := totalPausedDuration cur + pausedFor ?ts cur, lastUpdateTime := ?ts\<rparr>) d = Inr d1"
    and rc: "recordOnce e ''RESUMED'' c g d1 = Inr d'"
    by (auto simp: handleStreamResumed_def handler_inv stream_findUniqueOrThrow_def)
  define r where "r = cur\<lparr>isPaused := False, pausedAt := None, endTime := Some newEnd,
    totalPausedDuration := totalPausedDuration cur + pausedFor ?ts cur, lastUpdateTime := ?ts, updatedAt := ?now\<rparr>"
  have row: "streams d' sid = Some r"
    using up cur recordOnce_rows [OF rc] by (auto simp: stream_update_Inr r_def)
  have total: "totalPausedDuration r + pausedFor ts r = totalPausedDuration cur + pausedFor ?ts cur" for ts
    by (simp add: r_def pausedFor_def)
  from t f row assms show ?thesis
    by (auto simp: handleStreamResumed_def again_simps untimedRow_def stream_findUniqueOrThrow_def total
        intro!: update_again [OF up rc])
qed

lemma upsert_again:
  assumes "stream_upsert now c f d = Inr d1" "recordOnce e ty ev g d1 = Inr d'"
    and "\<And>r. untimedRow (f' ((f r)\<lparr>updatedAt := now\<rparr>)) = untimedRow (f r)"
    and "untimedRow (f' (c\<lparr>updatedAt := now\<rparr>)) = untimedRow c" and "streamId c' = streamId c"
  shows "\<exists>y. (\<exists>x. stream_upsert now' c' f' d' = Inr x \<and> recordOnce e ty ev' g' x = Inr y) \<and> untimedDb y = untimedDb d'"
proof -
  from assms(1,3,4) obtain r where "streams d1 (streamId c) = Some r" and u: "untimedRow (f' r) = untimedRow r"
    by (cases "streams d (streamId c)") (auto simp: stream_upsert_Inr untimedRow_def)
  with recordOnce_rows [OF assms(2)] have r: "streams d' (streamId c) = Some r" by simp
  let ?x = "d'\<lparr>streams := (streams d')(streamId c \<mapsto> (f' r)\<lparr>updatedAt := now'\<rparr>)\<rparr>"
  have "stream_upsert now' c' f' d' = Inr ?x" using r assms(5) by (simp add: stream_upsert_Inr)
  moreover have "recordOnce e ty ev' g' ?x = Inr ?x" by (rule recordOnce_again [OF assms(2)]) simp
  moreover have "untimedDb ?x = untimedDb d'"
    using u by (intro untimed_row_update [OF r]) (simp add: untimedRow_def)
  ultimately show ?thesis by blast
qed

lemma handleStreamCreated_again:
  assumes "handleStreamCreated E e t d = Inr (d', bs)" "redelivers E E' e"
  shows "sameAgain (handleStreamCreated E' e t d') d' bs"
proof -
  let ?now = "handledAt E e" and ?stop = "\<lambda>start dep rate. if rate = 0 then None else Some (start + dep sdiv rate)"
  from assms(1) obtain sid b sndr rcpt tok rate dep start rateBig depBig d1 c f where t: "t = ScvU64 sid"
    and f: "decodeMap (evValue e) = Inr b"
      "has b [''sender'', ''recipient'', ''token_address'', ''rate_per_second'', ''deposited_amount'', ''start_time'']"
      "addressField E b ''sender'' = Inr sndr" "addressField E b ''recipient'' = Inr rcpt"
      "addressField E b ''token_address'' = Inr tok" "i128Field b ''rate_per_second'' = Inr rate"
      "i128Field b ''deposited_amount'' = Inr dep" "u64Field b ''start_time'' = Inr start"
      "parseBig rate = Inr rateBig" "parseBig dep = Inr depBig"
    and up: "stream_upsert ?now
           \<lparr>streamId = sid, sender = sndr, recipient = rcpt, tokenAddress = tok,
            ratePerSecond = rate, depositedAmount = dep, withdrawnAmount = ''0'',
            startTime = start, lastUpdateTime = start, endTime = ?stop start depBig rateBig, isActive = True,
            isPaused = False, pausedAt = None, totalPausedDuration = 0, updatedAt = ?now\<rparr>
           (\<lambda>r. r\<lparr>tokenAddress := tok, ratePerSecond := rate, depositedAmount := dep, startTime := start,
                  endTime := ?stop start depBig rateBig, lastUpdateTime := start, isActive := True\<rparr>)
           (user_upsert rcpt (user_upsert sndr d)) = Inr d1"
    and rc: "recordOnce e ''CREATED'' c f d1 = Inr d'"
    by (auto simp: handleStreamCreated_def handler_inv)
  have "sndr \<in> users d'" "rcpt \<in> users d'"
    using up recordOnce_rows [OF rc] by (auto simp: stream_upsert_Inr split: option.splits)
  then have idem: "user_upsert rcpt (user_upsert sndr d') = d'"
    by (simp add: user_upsert_def insert_absorb)
  from t f idem assms show ?thesis
    by (auto simp: handleStreamCreated_def again_simps untimedRow_def intro!: upsert_again [OF up rc])
qed

text \<open>The protocol-level events refresh the time of their log entry.\<close>

lemma system_again:
  assumes "ensureSystemStream now d = Inr d1" "event_upsert tx ty c (touch l ts) d1 = Inr d'"
    and "\<And>h. ev_ledgerSequence (c h) = l"
  shows "\<exists>y. (\<exists>x. ensureSystemStream now' d' = Inr x \<and> event_upsert tx ty c' (touch l ts') x = Inr y)
    \<and> untimedDb y = untimedDb d'"
proof -
  have sys: "systemUser \<in> users d1" "streams d1 0 \<noteq> None"
    using assms(1) by (auto simp: ensureSystemStream_def stream_upsert_Inr split: option.splits)
  moreover have "streams d' = streams d1" "users d' = users d1"
    using assms(2) by (auto simp: event_upsert_Inr split: option.splits)
  ultimately obtain r where u: "systemUser \<in> users d'" and r: "streams d' 0 = Some r" by auto
  obtain h v where tx: "tx = Some h" and v: "events d' (h, ty) = Some v" "ev_ledgerSequence v = l"
    using assms(2,3) by (auto simp: event_upsert_Inr touch_def split: option.splits)
  let ?x = "d'\<lparr>streams := (streams d')(0 \<mapsto> r\<lparr>updatedAt := now'\<rparr>)\<rparr>"
  let ?y = "?x\<lparr>events := (events ?x)((h, ty) \<mapsto> touch l ts' v)\<rparr>"
  have "ensureSystemStream now' d' = Inr ?x"
    using r u by (simp add: ensureSystemStream_def stream_upsert_Inr user_upsert_def insert_absorb)
  moreover have "event_upsert tx ty c' (touch l ts') ?x = Inr ?y"
    using tx v by (simp add: event_upsert_Inr)
  moreover have "untimedDb ?y = untimedDb ?x"
    using v by (intro untimed_entry_update [where v = v]) (simp_all add: untimedEntry_def touch_def)
  moreover have "untimedDb ?x = untimedDb d'"
    by (intro untimed_row_update [OF r]) (simp add: untimedRow_def)
  ultimately show ?thesis by metis
qed

lemma handleFeeConfigUpdated_again:
  assumes "handleFeeConfigUpdated E e d = Inr (d', bs)" "redelivers E E' e"
  shows "sameAgain (handleFeeConfigUpdated E' e d') d' bs"
  using assms
  by (auto simp: handleFeeConfigUpdated_def again_simps intro!: system_again)

lemma handleAdminTransferred_again:
  assumes "handleAdminTransferred E e d = Inr (d', bs)" "redelivers E E' e"
  shows "sameAgain (handleAdminTransferred E' e d') d' bs"
  using assms
  by (auto simp: handleAdminTransferred_def again_simps intro!: system_again)

lemmas handlers_again =
  handleStreamCreated_again handleStreamToppedUp_again handleTokensWithdrawn_again handleStreamPaused_again
  handleStreamResumed_again handleStreamCancelled_again handleStreamCompleted_again handleFeeCollected_again

lemma sameAgain_refl: "sameAgain (Inr (d, bs)) d bs"
  by (simp add: sameAgain_def)

lemma dispatch_again:
  "dispatchStreamEvent E e name t d = Inr (d', bs) \<Longrightarrow> redelivers E E' e
    \<Longrightarrow> sameAgain (dispatchStreamEvent E' e name t d') d' bs"
  unfolding dispatchStreamEvent_def by (auto split: if_splits intro: handlers_again sameAgain_refl)

text \<open>C2. Redelivering an event at once is a no-op but for the times read off the clock: for every kind
  of event, an event that the worker has just processed is processed again successfully when it is
  redelivered, whatever the clock shows then (and provided the database does not fail the second
  transaction). The database is the same up to \<open>lastUpdateTime\<close> and \<open>updatedAt\<close> of the streams
  and the time of the log entries, and the broadcasts are the same up to their \<open>timestamp\<close>: no
  amount, state, paused time, log entry or user changes and nothing is counted twice.\<close>

theorem processEvent_idempotent:
  assumes "processEvent E e d = Inr (d', bs)" and "redelivers E E' e"
  shows "\<exists>d'' bs'. processEvent E' e d' = Inr (d'', bs')
    \<and> untimedDb d'' = untimedDb d' \<and> map untimedCast bs' = map untimedCast bs"
proof -
  have "sameAgain (processEvent E' e d') d' bs"
  proof (cases "evTopic e")
    case Nil
    with assms(1) show ?thesis by (simp add: processEvent_def sameAgain_refl)
  next
    case (Cons topic0 rest)
    with assms(1) obtain name where "topic0 = ScvSymbol name"
      by (auto simp: processEvent_def bindE_eq_Inr decodeSymbol_Inr)
    with Cons assms show ?thesis
      by (cases rest)
        (auto simp: processEvent_def split: if_splits
          intro: dispatch_again handleFeeConfigUpdated_again handleAdminTransferred_again sameAgain_refl)
  qed
  then show ?thesis by (simp add: sameAgain_def)
qed

definition laterEnv :: env where
  "laterEnv = exampleEnv\<lparr>handledAt := \<lambda>_. 5000000\<rparr>"

theorem processEvent_idempotent_witness:
  "\<exists>d'' bs'. processEvent laterEnv createdEvent exampleDb = Inr (d'', bs') \<and> untimedDb d'' = untimedDb exampleDb
    \<and> handledAt laterEnv createdEvent \<noteq> handledAt exampleEnv createdEvent"
proof -
  obtain bs where "processEvent exampleEnv createdEvent emptyDb = Inr (exampleDb, bs)"
    using createdEvent_runs by metis
  moreover have "redelivers exampleEnv laterEnv createdEvent" "handledAt laterEnv createdEvent \<noteq> handledAt exampleEnv createdEvent"
    by (simp_all add: redelivers_def laterEnv_def exampleEnv_def)
  ultimately show ?thesis using processEvent_idempotent by blast
qed

section \<open>Withdrawals\<close>

text \<open>Two withdrawals of one transaction: once the first is on record, every further
  \<open>tokens_withdrawn\<close> event with the same transaction hash is accepted without effect, whatever
  stream and amount it carries. The contract's \<open>batch_withdraw\<close> emits one such event per
  stream in a single transaction, so all but the first are lost.\<close>

theorem batch_withdrawal_drops_rest:
  assumes "handleTokensWithdrawn E e1 t1 d = Inr (d1, bs1)" and "evTxHash e2 = evTxHash e1"
    and "handleTokensWithdrawn E' e2 t2 d0 = Inr (d0', bs2)"
  shows "handleTokensWithdrawn E' e2 t2 d1 = Inr (d1, bs2)"
proof -
  obtain h v where "evTxHash e1 = Some h" "events d1 (h, ''WITHDRAWN'') = Some v"
    using withdrawn.on_record [OF assms(1)] by blast
  with assms(2) show ?thesis
    by (intro handleTokensWithdrawn_skips [OF assms(3)]) auto
qed

definition exampleStream8 :: stream_row where
  "exampleStream8 = exampleStream\<lparr>streamId := 8\<rparr>"

definition secondWithdrawal :: evt where
  "secondWithdrawal = contractEvent ''0101-2'' 101 ''tx2'' ''tokens_withdrawn'' 8
     [(''recipient'', ScvAddress (ScAddressAccount [1, 2])), (''amount'', ScvI128 0 70), (''timestamp'', ScvU64 1710)]"

definition twoStreamsDb :: db where
  "twoStreamsDb = exampleDb\<lparr>streams := (streams exampleDb)(8 \<mapsto> exampleStream8)\<rparr>"

lemma withdrawal_runs:
  assumes "streams d sid = Some r" and "BigInt (withdrawnAmount r) = Some old" and "events d (tx, ''WITHDRAWN'') = None"
    and "0 \<le> a" "a < 2 ^ 64"
  shows "\<exists>d' bs. handleTokensWithdrawn exampleEnv (contractEvent i l tx ''tokens_withdrawn'' sid
      [(''recipient'', ScvAddress (ScAddressAccount [1, 2])), (''amount'', ScvI128 0 a), (''timestamp'', ScvU64 ts)])
      (ScvU64 sid) d = Inr (d', bs) \<and> withdrawnOf d' = (withdrawnOf d)(sid := old + a)"
  using assms
  by (auto simp: handleTokensWithdrawn_def run_simps exampleEnv_def contractEvent_def withdrawnOf_def fun_eq_iff
      simp del: toString_eval JSON_stringify.simps)

lemma BigInt_0: "BigInt ''0'' = Some 0"
  using BigInt_toString [of 0] by simp

theorem batch_withdrawal_drops_rest_witness:
  "\<exists>d1 bs1 bs2.
     handleTokensWithdrawn exampleEnv withdrawEvent (ScvU64 7) twoStreamsDb = Inr (d1, bs1)
     \<and> withdrawnOf d1 7 = 50 \<and> withdrawnOf d1 8 = 0
     \<and> handleTokensWithdrawn exampleEnv secondWithdrawal (ScvU64 8) d1 = Inr (d1, bs2)"
proof -
  have two: "streams twoStreamsDb 7 = Some exampleStream" "streams twoStreamsDb 8 = Some exampleStream8"
    "events twoStreamsDb = events exampleDb"
    by (simp_all add: twoStreamsDb_def exampleDb_stream)
  have z: "BigInt (withdrawnAmount exampleStream) = Some 0" "BigInt (withdrawnAmount exampleStream8) = Some 0"
    by (simp_all add: exampleStream_def exampleStream8_def BigInt_0)
  obtain d1 bs1 where 1: "handleTokensWithdrawn exampleEnv withdrawEvent (ScvU64 7) twoStreamsDb = Inr (d1, bs1)"
    and "withdrawnOf d1 = (withdrawnOf twoStreamsDb)(7 := 0 + 50)"
    using withdrawal_runs [OF two(1) z(1), of "''tx2''" 50 "''0101-1''" 101 1710] two(3)
    by (auto simp: withdrawEvent_def exampleDb_event)
  moreover obtain d2 bs2 where 2: "handleTokensWithdrawn exampleEnv secondWithdrawal (ScvU64 8) twoStreamsDb = Inr (d2, bs2)"
    using withdrawal_runs [OF two(2) z(2), of "''tx2''" 70 "''0101-2''" 101 1710] two(3)
    by (auto simp: secondWithdrawal_def exampleDb_event)
  moreover have "withdrawnOf twoStreamsDb 8 = 0"
    using two(2) by (simp add: withdrawnOf_def exampleStream8_def exampleStream_def)
  ultimately show ?thesis
    using batch_withdrawal_drops_rest [OF 1 _ 2] by (auto simp: withdrawEvent_def secondWithdrawal_def contractEvent_def)
qed

section \<open>Creation\<close>

lemma handleStreamCreated_row:
  assumes "handleStreamCreated E e (ScvU64 sid) d = Inr (d', bs)"
  obtains r b rate dep where "streams d' sid = Some r" "isActive r"
    "i128Field b ''rate_per_second'' = Inr (toString rate)" "i128Field b ''deposited_amount'' = Inr (toString dep)"
    "ratePerSecond r = toString rate" "depositedAmount r = toString dep"
    "endTime r = (if rate = 0 then None else Some (startTime r + dep sdiv rate))"
    "case streams d sid of
       None \<Rightarrow> withdrawnAmount r = ''0'' \<and> \<not> isPaused r \<and> totalPausedDuration r = 0
     | Some r0 \<Rightarrow> withdrawnAmount r = withdrawnAmount r0 \<and> isPaused r = isPaused r0
           \<and> totalPausedDuration r = totalPausedDuration r0 \<and> sender r = sender r0 \<and> recipient r = recipient r0"
proof -
  from assms obtain b sndr rcpt tok rate dep start rateBig depBig d1 c f where
    am: "i128Field b ''rate_per_second'' = Inr rate" "i128Field b ''deposited_amount'' = Inr dep"
      "BigInt rate = Some rateBig" "BigInt dep = Some depBig"
    and up: "stream_upsert (handledAt E e)
           \<lparr>streamId = sid, sender = sndr, recipient = rcpt, tokenAddress = tok,
            ratePerSecond = rate, depositedAmount = dep, withdrawnAmount = ''0'',
            startTime = start, lastUpdateTime = start,
            endTime = (if rateBig = 0 then None else Some (start + depBig sdiv rateBig)), isActive = True,
            isPaused = False, pausedAt = None, totalPausedDuration = 0, updatedAt = handledAt E e\<rparr>
           (\<lambda>r. r\<lparr>tokenAddress := tok, ratePerSecond := rate, depositedAmount := dep, startTime := start,
                  endTime := (if rateBig = 0 then None else Some (start + depBig sdiv rateBig)),
                  lastUpdateTime := start, isActive := True\<rparr>)
           (user_upsert rcpt (user_upsert sndr d)) = Inr d1"
    and rc: "recordOnce e ''CREATED'' c f d1 = Inr d'"
    by (auto simp: handleStreamCreated_def handler_inv)
  have canon: "rate = toString rateBig" "dep = toString depBig"
    using am is_amount_BigInt [OF i128Field_amount [OF am(1)]] is_amount_BigInt [OF i128Field_amount [OF am(2)]] by auto
  have "streams d' = streams d1"
    using rc by (auto simp: recordOnce_Inr split: option.splits)
  with up am canon show ?thesis
    by (cases "streams d sid") (auto simp: stream_upsert_Inr intro!: that)
qed

lemma div_bounds: "0 < (r::int) \<Longrightarrow> n div r * r \<le> n \<and> n < (n div r + 1) * r"
proof -
  assume "0 < r"
  then have "0 \<le> n mod r" "n mod r < r" by simp_all
  moreover have "(n div r + 1) * r = n div r * r + r" by (simp add: distrib_right)
  ultimately show ?thesis using div_mult_mod_eq [of n r] by linarith
qed

text \<open>The end time of a created stream: for a positive rate and a non-negative deposit it is the
  last second at which the deposit still covers the stream, \<open>(end - start) * rate \<le> deposit\<close> and
  one second more would exceed it; a stream has no end time exactly when its rate is 0.\<close>

theorem created_end_time:
  assumes "handleStreamCreated E e (ScvU64 sid) d = Inr (d', bs)"
  shows "\<exists>r. streams d' sid = Some r
    \<and> (amount (ratePerSecond r) = 0 \<longleftrightarrow> endTime r = None)
    \<and> (0 < amount (ratePerSecond r) \<and> 0 \<le> amount (depositedAmount r) \<longrightarrow>
       (\<exists>t. endTime r = Some t \<and> startTime r \<le> t
         \<and> (t - startTime r) * amount (ratePerSecond r) \<le> amount (depositedAmount r)
         \<and> amount (depositedAmount r) < (t + 1 - startTime r) * amount (ratePerSecond r)))"
proof -
  from assms obtain r rate dep where r: "streams d' sid = Some r" "ratePerSecond r = toString rate"
    "depositedAmount r = toString dep" "endTime r = (if rate = 0 then None else Some (startTime r + dep sdiv rate))"
    by (rule handleStreamCreated_row)
  have "startTime r \<le> t \<and> (t - startTime r) * rate \<le> dep \<and> dep < (t + 1 - startTime r) * rate"
    if "0 < rate" "0 \<le> dep" "t = startTime r + dep sdiv rate" for t
    using div_bounds [of rate dep] that
    by (simp add: sdiv_nonneg pos_imp_zdiv_nonneg_iff algebra_simps)
  with r show ?thesis by auto
qed

lemma createdEvent_handled:
  "\<exists>bs. handleStreamCreated exampleEnv createdEvent (ScvU64 7) emptyDb = Inr (exampleDb, bs)"
proof -
  have "processEvent exampleEnv createdEvent emptyDb = handleStreamCreated exampleEnv createdEvent (ScvU64 7) emptyDb"
    by (simp add: processEvent_def dispatchStreamEvent_def createdEvent_def contractEvent_def)
  then show ?thesis using createdEvent_runs by metis
qed

theorem created_end_time_witness:
  "\<exists>t. endTime exampleStream = Some t \<and> (t - 1700) * 10 \<le> 1000 \<and> 1000 < (t + 1 - 1700) * 10"
proof -
  obtain bs where "handleStreamCreated exampleEnv createdEvent (ScvU64 7) emptyDb = Inr (exampleDb, bs)"
    using createdEvent_handled by blast
  from created_end_time [OF this] show ?thesis
    by (auto simp: exampleDb_stream exampleStream_def amount_toString simp del: toString_eval)
qed

text \<open>Redelivering \<open>stream_created\<close> reactivates a stream: whatever happened to the stream since
  (cancelled, completed), a successful run of the handler leaves it active, with the total
  withdrawn, the pause state and the parties it had; the duplicate check that follows
  covers the event log only.\<close>

theorem created_redelivery_reactivates:
  assumes "handleStreamCreated E e (ScvU64 sid) d = Inr (d', bs)" and "streams d sid = Some r"
  shows "\<exists>r'. streams d' sid = Some r' \<and> isActive r' \<and> withdrawnAmount r' = withdrawnAmount r
    \<and> isPaused r' = isPaused r \<and> sender r' = sender r \<and> recipient r' = recipient r"
  using assms(1) by (rule handleStreamCreated_row) (use assms(2) in auto)

definition cancelledDb :: db where
  "cancelledDb = exampleDb\<lparr>streams := [7 \<mapsto> exampleStream\<lparr>isActive := False, withdrawnAmount := toString 50\<rparr>]\<rparr>"

lemma createdEvent_on:
  assumes "streams d 7 = Some r"
  shows "\<exists>d' bs. handleStreamCreated exampleEnv createdEvent (ScvU64 7) d = Inr (d', bs)"
  using assms
  by (cases "events d (''tx1'', ''CREATED'')")
    (simp_all add: handleStreamCreated_def run_simps example_defs del: toString_eval JSON_stringify.simps)

theorem created_redelivery_reactivates_witness:
  "\<exists>d' bs r'. handleStreamCreated exampleEnv createdEvent (ScvU64 7) cancelledDb = Inr (d', bs)
     \<and> (\<exists>r. streams cancelledDb 7 = Some r \<and> \<not> isActive r) \<and> streams d' 7 = Some r' \<and> isActive r'"
proof -
  have c: "streams cancelledDb 7 = Some (exampleStream\<lparr>isActive := False, withdrawnAmount := toString 50\<rparr>)"
    by (simp add: cancelledDb_def)
  then obtain d' bs where run: "handleStreamCreated exampleEnv createdEvent (ScvU64 7) cancelledDb = Inr (d', bs)"
    using createdEvent_on by blast
  from created_redelivery_reactivates [OF run c] run c show ?thesis by auto
qed

section \<open>Pauses\<close>

lemma recordOnce_streams: "recordOnce e ty c f d = Inr d' \<Longrightarrow> streams d' = streams d"
  by (auto simp: recordOnce_Inr split: option.splits)

lemma handleStreamPaused_row:
  assumes "handleStreamPaused E e (ScvU64 sid) d = Inr (d', bs)"
  shows "\<exists>r b p. decodeMap (evValue e) = Inr b \<and> u64Field b ''paused_at'' = Inr p \<and> streams d sid = Some r
    \<and> streams d' sid = Some (r\<lparr>isPaused := True, pausedAt := Some (toNumber p), lastUpdateTime := now_s E e,
                              updatedAt := handledAt E e\<rparr>)"
  using assms by (auto simp: handleStreamPaused_def handler_inv stream_update_Inr dest!: recordOnce_streams)

lemma handleStreamResumed_row:
  assumes "handleStreamResumed E e (ScvU64 sid) d = Inr (d', bs)"
  shows "\<exists>r b newEnd. decodeMap (evValue e) = Inr b \<and> u64Field b ''new_end_time'' = Inr newEnd \<and> streams d sid = Some r
    \<and> streams d' sid = Some (r\<lparr>isPaused := False, pausedAt := None, endTime := Some newEnd,
         totalPausedDuration := totalPausedDuration r + pausedFor (now_s E e) r, lastUpdateTime := now_s E e,
         updatedAt := handledAt E e\<rparr>)"
  using assms
  by (auto simp: handleStreamResumed_def handler_inv stream_update_Inr stream_findUniqueOrThrow_def
      dest!: recordOnce_streams)

text \<open>Pause accounting: a \<open>stream_paused\<close> event followed by its \<open>stream_resumed\<close> leaves the stream
  not paused, without a pause start, ending at the contract's new end time, and adds to the
  total paused time exactly the seconds from the chain's \<open>paused_at\<close> to the wall clock of the
  worker that handles the resume.\<close>

theorem pause_resume_accounting:
  assumes "handleStreamPaused E1 e1 (ScvU64 sid) d = Inr (d1, bs1)"
    and "handleStreamResumed E2 e2 (ScvU64 sid) d1 = Inr (d2, bs2)"
    and "streams d sid = Some r"
    and "decodeMap (evValue e1) = Inr b1" "u64Field b1 ''paused_at'' = Inr p" "0 < p" "isSafeInteger p"
    and "decodeMap (evValue e2) = Inr b2" "u64Field b2 ''new_end_time'' = Inr newEnd"
  shows "\<exists>r2. streams d2 sid = Some r2 \<and> \<not> isPaused r2 \<and> pausedAt r2 = None \<and> endTime r2 = Some newEnd
    \<and> totalPausedDuration r2 = totalPausedDuration r + (now_s E2 e2 - p)
    \<and> withdrawnAmount r2 = withdrawnAmount r \<and> depositedAmount r2 = depositedAmount r \<and> isActive r2 = isActive r"
proof -
  have p: "toNumber p = p" using assms(6,7) by (simp add: toNumber_safe)
  have "\<exists>r1. streams d1 sid = Some r1 \<and> pausedAt r1 = Some p \<and> totalPausedDuration r1 = totalPausedDuration r
    \<and> withdrawnAmount r1 = withdrawnAmount r \<and> depositedAmount r1 = depositedAmount r \<and> isActive r1 = isActive r"
    using handleStreamPaused_row [OF assms(1)] assms(3,4,5) p by fastforce
  then show ?thesis
    using handleStreamResumed_row [OF assms(2)] assms(6,8,9) p by (fastforce simp: pausedFor_def)
qed

lemma pausedEvent_on:
  "streams d 7 = Some r \<Longrightarrow> \<exists>d' bs. handleStreamPaused exampleEnv pausedEvent (ScvU64 7) d = Inr (d', bs)
     \<and> (\<exists>r'. streams d' 7 = Some r')"
  by (cases "events d (''tx4'', ''PAUSED'')")
    (simp_all add: handleStreamPaused_def run_simps example_defs del: toString_eval JSON_stringify.simps)

lemma resumedEvent_on:
  "streams d 7 = Some r \<Longrightarrow> \<exists>d' bs. handleStreamResumed exampleEnv resumedEvent (ScvU64 7) d = Inr (d', bs)"
  by (cases "events d (''tx5'', ''RESUMED'')")
    (simp_all add: handleStreamResumed_def run_simps example_defs del: toString_eval JSON_stringify.simps)

theorem pause_resume_accounting_witness:
  "\<exists>d1 d2 bs1 bs2 r2. handleStreamPaused exampleEnv pausedEvent (ScvU64 7) exampleDb = Inr (d1, bs1)
     \<and> handleStreamResumed exampleEnv resumedEvent (ScvU64 7) d1 = Inr (d2, bs2)
     \<and> streams d2 7 = Some r2 \<and> totalPausedDuration r2 = 80 \<and> endTime r2 = Some 1880"
proof -
  obtain d1 bs1 r1 where p: "handleStreamPaused exampleEnv pausedEvent (ScvU64 7) exampleDb = Inr (d1, bs1)"
    and "streams d1 7 = Some r1"
    using pausedEvent_on [OF exampleDb_stream] by blast
  then obtain d2 bs2 where r: "handleStreamResumed exampleEnv resumedEvent (ScvU64 7) d1 = Inr (d2, bs2)"
    using resumedEvent_on by blast
  define b1 where "b1 = [''sender'' \<mapsto> ScvAddress (ScAddressAccount [1]), ''paused_at'' \<mapsto> ScvU64 1720]"
  define b2 where "b2 = [''sender'' \<mapsto> ScvAddress (ScAddressAccount [1]), ''new_end_time'' \<mapsto> ScvU64 1880]"
  have b: "decodeMap (evValue pausedEvent) = Inr b1" "u64Field b1 ''paused_at'' = Inr 1720"
    "decodeMap (evValue resumedEvent) = Inr b2" "u64Field b2 ''new_end_time'' = Inr 1880"
    by (simp_all add: b1_def b2_def decodeMap_def u64Field_def example_defs)
  have "isSafeInteger 1720" "now_s exampleEnv resumedEvent = 1800"
    by (simp_all add: isSafeInteger_def MAX_SAFE_INTEGER_def now_s_def exampleEnv_def)
  with pause_resume_accounting [OF p r exampleDb_stream b(1,2) _ _ b(3,4)] p r show ?thesis
    by (auto simp: exampleStream_def simp del: toString_eval)
qed

section \<open>Isolation and record keeping\<close>

text \<open>An event about one stream never changes another: whatever event with a stream-id topic the
  worker processes, every row but the addressed one is as it was.\<close>

theorem processEvent_isolation:
  assumes "processEvent E e d = Inr (d', bs)" and "evTopic e = ScvSymbol name # ScvU64 sid # ts"
    and "name \<noteq> ''fee_config_updated''" "name \<noteq> ''admin_transferred''" and "s \<noteq> sid"
  shows "streams d' s = streams d s"
proof -
  have "dispatchStreamEvent E e name (ScvU64 sid) d = Inr (d', bs)"
    using assms(1-4) by (simp add: processEvent_def)
  then show ?thesis
    using assms(5) unfolding dispatchStreamEvent_def
    by (auto split: if_splits dest: created.other_streams toppedUp.other_streams withdrawn.other_streams
        paused.other_streams resumed.other_streams cancelled.other_streams completed.other_streams
        feeCollected.other_streams)
qed

theorem processEvent_isolation_witness:
  "\<exists>d' bs. processEvent exampleEnv withdrawEvent twoStreamsDb = Inr (d', bs) \<and> streams d' 8 = Some exampleStream8"
proof -
  have ev: "evTopic withdrawEvent = ScvSymbol ''tokens_withdrawn'' # ScvU64 7 # []"
    by (simp add: withdrawEvent_def contractEvent_def)
  have "streams twoStreamsDb 7 = Some exampleStream" "events twoStreamsDb (''tx2'', ''WITHDRAWN'') = None"
    "BigInt (withdrawnAmount exampleStream) = Some 0"
    by (simp_all add: twoStreamsDb_def exampleDb_stream exampleDb_event exampleStream_def BigInt_0)
  from withdrawal_runs [OF this(1,3,2), of 50 "''0101-1''" 101 1710]
  obtain d' bs where "handleTokensWithdrawn exampleEnv withdrawEvent (ScvU64 7) twoStreamsDb = Inr (d', bs)"
    by (auto simp: withdrawEvent_def)
  then have run: "processEvent exampleEnv withdrawEvent twoStreamsDb = Inr (d', bs)"
    by (simp add: processEvent_def dispatchStreamEvent_def ev)
  from processEvent_isolation [OF run ev, of 8] run show ?thesis
    by (auto simp: twoStreamsDb_def)
qed

text \<open>The log type each event name is filed under.\<close>

definition logType :: "string \<Rightarrow> string option" where
  "logType = map_of
     [(''stream_created'', ''CREATED''), (''stream_topped_up'', ''TOPPED_UP''), (''tokens_withdrawn'', ''WITHDRAWN''),
      (''stream_paused'', ''PAUSED''), (''stream_resumed'', ''RESUMED''), (''stream_cancelled'', ''CANCELLED''),
      (''stream_completed'', ''COMPLETED''), (''fee_collected'', ''FEE_COLLECTED'')]"

text \<open>Every stream event the worker accepts is on record: after a successful run the event log holds
  an entry under the event's transaction hash and its type. In particular an event without
  a transaction hash is never accepted.\<close>

theorem processEvent_on_record:
  assumes "processEvent E e d = Inr (d', bs)" and "evTopic e = ScvSymbol name # t # ts" and "logType name = Some ty"
  shows "\<exists>h v. evTxHash e = Some h \<and> events d' (h, ty) = Some v"
proof -
  have "dispatchStreamEvent E e name t d = Inr (d', bs)"
    using assms by (auto simp: processEvent_def logType_def split: if_splits)
  then show ?thesis
    using assms(3) unfolding dispatchStreamEvent_def logType_def
    by (auto split: if_splits dest: created.on_record toppedUp.on_record withdrawn.on_record paused.on_record
        resumed.on_record cancelled.on_record completed.on_record feeCollected.on_record)
qed

theorem processEvent_on_record_witness: "\<exists>h v. evTxHash createdEvent = Some h \<and> events exampleDb (h, ''CREATED'') = Some v"
proof -
  obtain bs where "processEvent exampleEnv createdEvent emptyDb = Inr (exampleDb, bs)"
    using createdEvent_runs by metis
  from processEvent_on_record [OF this] show ?thesis
    by (simp add: createdEvent_def contractEvent_def logType_def)
qed

end
