(* ===== verification/Dead_Letter.thy ===== *)
theory Dead_Letter
  imports Handler_Effects "HOL-Library.Product_Lexorder" "HOL-Library.Multiset"
begin

text \<open>
  The dead-letter quarantine of \<open>backend/src/services/indexerService.ts\<close>: recording an event
  whose handler threw, listing, replaying and discarding the records. The XDR codec of the
  SDK, the uuid generator and the rendering of an error are parameters (\<open>quarantine_env\<close>);
  \<open>recordFault\<close> says when the quarantine write itself fails.
\<close>

record quarantine_env =
  toXDR :: "scval \<Rightarrow> string"
  fromXDR :: "string \<Rightarrow> scval option"
  symMethod :: "scval \<Rightarrow> string option"
  validContract :: "string \<Rightarrow> bool"
  errMessage :: "err \<Rightarrow> string"
  freshId :: "evt \<Rightarrow> string"
  recordFault :: "evt \<Rightarrow> bool"

section \<open>Payloads\<close>

definition serializeDeadLetterPayload :: "quarantine_env \<Rightarrow> evt \<Rightarrow> DeadLetterPayload" where
  "serializeDeadLetterPayload Q e =
     \<lparr>pl_id = evId e, pl_type = evType e, pl_ledger = evLedger e, pl_ledgerClosedAt = ledgerClosedAt e,
      pl_transactionIndex = transactionIndex e, pl_operationIndex = operationIndex e,
      pl_inSuccessfulContractCall = inSuccessfulContractCall e,
      pl_contractId = (if evContractId e = Some [] then None else evContractId e),
      pl_topic = map (toXDR Q) (evTopic e), pl_value = toXDR Q (evValue e)\<rparr>"

fun decodeTopics :: "quarantine_env \<Rightarrow> string list \<Rightarrow> scval list result" where
  "decodeTopics Q [] = Inr []"
| "decodeTopics Q (x # xs) =
     bindE (of_opt (External ''XDR'') (fromXDR Q x)) (\<lambda>v.
     bindE (decodeTopics Q xs) (\<lambda>vs. Inr (v # vs)))"

text \<open>The rebuilt event has no \<open>txHash\<close>: the envelope does not carry one.\<close>

definition deserializeDeadLetterPayload :: "quarantine_env \<Rightarrow> DeadLetterPayload option \<Rightarrow> evt result" where
  "deserializeDeadLetterPayload Q text =
     bindE (of_opt SyntaxError text) (\<lambda>p.
     bindE (decodeTopics Q (pl_topic p)) (\<lambda>topic.
     bindE (of_opt (External ''XDR'') (fromXDR Q (pl_value p))) (\<lambda>v.
     Inr \<lparr>evId = pl_id p, evLedger = pl_ledger p, evTxHash = None, evTopic = topic, evValue = v,
          inSuccessfulContractCall = pl_inSuccessfulContractCall p, evType = pl_type p,
          ledgerClosedAt = pl_ledgerClosedAt p, transactionIndex = pl_transactionIndex p,
          operationIndex = pl_operationIndex p,
          evContractId = (case pl_contractId p of None \<Rightarrow> None
             | Some c \<Rightarrow> if c \<noteq> [] \<and> validContract Q c then Some c else None)\<rparr>)))"

section \<open>Quarantine\<close>

definition eventTypeOf :: "quarantine_env \<Rightarrow> evt \<Rightarrow> string" where
  "eventTypeOf Q e =
     (case evTopic e of
        [] \<Rightarrow> ''unknown''
      | topic0 # _ \<Rightarrow> (case symMethod Q topic0 of None \<Rightarrow> ''unknown'' | Some s \<Rightarrow> s))"

definition sameDeadLetter :: "string \<Rightarrow> string \<Rightarrow> dead_letter_row \<Rightarrow> bool" where
  "sameDeadLetter i ty r = (dl_eventId r = i \<and> dl_eventType r = ty)"

definition bumpAttempt :: "string \<Rightarrow> int \<Rightarrow> dead_letter_row \<Rightarrow> dead_letter_row" where
  "bumpAttempt msg now r = r\<lparr>dl_errorMessage := msg, dl_attempts := dl_attempts r + 1, dl_lastAttemptAt := now\<rparr>"

definition quarantineEvent :: "quarantine_env \<Rightarrow> int \<Rightarrow> evt \<Rightarrow> err \<Rightarrow> string option \<Rightarrow> db \<Rightarrow> db" where
  "quarantineEvent Q now e x cursor d =
     (let ty = eventTypeOf Q e; msg = errMessage Q x in
      case evTxHash e of
        None \<Rightarrow> d
      | Some h \<Rightarrow>
          if recordFault Q e then d
          else if list_ex (sameDeadLetter (evId e) ty) (deadLetters d)
          then d\<lparr>deadLetters := map (\<lambda>r. if sameDeadLetter (evId e) ty r then bumpAttempt msg now r else r)
                                  (deadLetters d)\<rparr>
          else d\<lparr>deadLetters := deadLetters d @
                 [\<lparr>dl_id = freshId Q e, dl_eventId = evId e, dl_eventType = ty, dl_txHash = h,
                   dl_ledgerSequence = evLedger e, dl_cursor = cursor,
                   dl_payload = Some (serializeDeadLetterPayload Q e), dl_errorMessage = msg,
                   dl_attempts = 1, dl_lastAttemptAt = now, dl_createdAt = now\<rparr>]\<rparr>)"

section \<open>Listing\<close>

record DeadLetterQuery =
  q_page :: int
  q_limit :: int
  q_ledgerSequence :: "int option"
  q_startDate :: "int option"
  q_endDate :: "int option"
  q_eventType :: "string option"

record DeadLetterListResult =
  lr_items :: "dead_letter_row list"
  lr_total :: nat
  lr_page :: int
  lr_limit :: int
  lr_hasMore :: bool

definition DEFAULT_DEAD_LETTER_PAGE_SIZE :: int where
  "DEFAULT_DEAD_LETTER_PAGE_SIZE = 25"

definition MAX_DEAD_LETTER_PAGE_SIZE :: int where
  "MAX_DEAD_LETTER_PAGE_SIZE = 100"

definition deadLetterMatches :: "DeadLetterQuery \<Rightarrow> dead_letter_row \<Rightarrow> bool" where
  "deadLetterMatches q r =
     ((case q_ledgerSequence q of None \<Rightarrow> True | Some l \<Rightarrow> dl_ledgerSequence r = l)
      \<and> (case q_eventType q of None \<Rightarrow> True | Some ty \<Rightarrow> ty = [] \<or> dl_eventType r = ty)
      \<and> (case q_startDate q of None \<Rightarrow> True | Some s \<Rightarrow> s \<le> dl_createdAt r)
      \<and> (case q_endDate q of None \<Rightarrow> True | Some t \<Rightarrow> dl_createdAt r \<le> t))"

definition newestFirst :: "dead_letter_row list \<Rightarrow> dead_letter_row list" where
  "newestFirst rs = sort_key (\<lambda>r. (- dl_createdAt r, - dl_ledgerSequence r)) rs"

definition pageLimit :: "DeadLetterQuery \<Rightarrow> int" where
  "pageLimit q =
     min (max 1 (if q_limit q = 0 then DEFAULT_DEAD_LETTER_PAGE_SIZE else q_limit q)) MAX_DEAD_LETTER_PAGE_SIZE"

definition pageNumber :: "DeadLetterQuery \<Rightarrow> int" where
  "pageNumber q = max 1 (if q_page q = 0 then 1 else q_page q)"

definition listDeadLetterEvents :: "DeadLetterQuery \<Rightarrow> db \<Rightarrow> DeadLetterListResult" where
  "listDeadLetterEvents q d =
     (let limit = pageLimit q; page = pageNumber q;
          rows = filter (deadLetterMatches q) (deadLetters d)
      in \<lparr>lr_items = take (nat limit) (drop (nat ((page - 1) * limit)) (newestFirst rows)),
          lr_total = length rows, lr_page = page, lr_limit = limit,
          lr_hasMore = (page * limit < int (length rows))\<rparr>)"

section \<open>Replay and discard\<close>

datatype ReplayOutcome = Replayed | Failed | NotFound | Undecodable

record ReplayResult =
  rr_id :: string
  rr_outcome :: ReplayOutcome
  rr_attempts :: int
  rr_errorMessage :: "string option"

definition findDeadLetter :: "string \<Rightarrow> db \<Rightarrow> dead_letter_row option" where
  "findDeadLetter i d = find (\<lambda>r. dl_id r = i) (deadLetters d)"

definition updateDeadLetter :: "string \<Rightarrow> (dead_letter_row \<Rightarrow> dead_letter_row) \<Rightarrow> db \<Rightarrow> db" where
  "updateDeadLetter i f d = d\<lparr>deadLetters := map (\<lambda>r. if dl_id r = i then f r else r) (deadLetters d)\<rparr>"

definition deleteDeadLetter :: "string \<Rightarrow> db \<Rightarrow> db" where
  "deleteDeadLetter i d = d\<lparr>deadLetters := filter (\<lambda>r. dl_id r \<noteq> i) (deadLetters d)\<rparr>"

definition replayDeadLetterEvent ::
  "env \<Rightarrow> quarantine_env \<Rightarrow> int \<Rightarrow> string \<Rightarrow> db \<Rightarrow> ReplayResult \<times> db \<times> bcast list" where
  "replayDeadLetterEvent E Q now i d =
     (case findDeadLetter i d of
        None \<Rightarrow> (\<lparr>rr_id = i, rr_outcome = NotFound, rr_attempts = 0, rr_errorMessage = None\<rparr>, d, [])
      | Some record \<Rightarrow>
          (case deserializeDeadLetterPayload Q (dl_payload record) of
             Inl x \<Rightarrow>
               (let msg = ''Undecodable dead-letter payload: '' @ errMessage Q x in
                (\<lparr>rr_id = i, rr_outcome = Undecodable, rr_attempts = dl_attempts record + 1, rr_errorMessage = Some msg\<rparr>,
                 updateDeadLetter i (bumpAttempt msg now) d, []))
           | Inr e \<Rightarrow>
               (case processEvent E e d of
                  Inr (d', bs) \<Rightarrow>
                    (\<lparr>rr_id = i, rr_outcome = Replayed, rr_attempts = dl_attempts record, rr_errorMessage = None\<rparr>,
                     deleteDeadLetter i d', bs)
                | Inl x \<Rightarrow>
                    (let msg = errMessage Q x in
                     (\<lparr>rr_id = i, rr_outcome = Failed, rr_attempts = dl_attempts record + 1, rr_errorMessage = Some msg\<rparr>,
                      updateDeadLetter i (bumpAttempt msg now) d, [])))))"

fun replayEach ::
  "env \<Rightarrow> quarantine_env \<Rightarrow> int \<Rightarrow> string list \<Rightarrow> db \<Rightarrow> ReplayResult list \<times> db \<times> bcast list" where
  "replayEach E Q now [] d = ([], d, [])"
| "replayEach E Q now (i # ids) d =
     (let (r, d1, bs) = replayDeadLetterEvent E Q now i d; (rs, d2, bs') = replayEach E Q now ids d1
      in (r # rs, d2, bs @ bs'))"

record ReplayAllResult =
  ra_attempted :: nat
  ra_replayed :: nat
  ra_failed :: nat
  ra_undecodable :: nat
  ra_notFound :: nat
  ra_results :: "ReplayResult list"

definition withOutcome :: "ReplayOutcome \<Rightarrow> ReplayResult list \<Rightarrow> nat" where
  "withOutcome k rs = length (filter (\<lambda>r. rr_outcome r = k) rs)"

definition replayAllDeadLetterEvents ::
  "env \<Rightarrow> quarantine_env \<Rightarrow> int \<Rightarrow> db \<Rightarrow> ReplayAllResult \<times> db \<times> bcast list" where
  "replayAllDeadLetterEvents E Q now d =
     (let pending = map dl_id (sort_key (\<lambda>r. (dl_ledgerSequence r, dl_createdAt r)) (deadLetters d));
          (results, d', bs) = replayEach E Q now pending d
      in (\<lparr>ra_attempted = length results, ra_replayed = withOutcome Replayed results,
           ra_failed = withOutcome Failed results, ra_undecodable = withOutcome Undecodable results,
           ra_notFound = withOutcome NotFound results, ra_results = results\<rparr>, d', bs))"

definition discardDeadLetterEvent :: "string \<Rightarrow> db \<Rightarrow> (dead_letter_row \<times> db) result" where
  "discardDeadLetterEvent i d =
     bindE (of_opt (Thrown (''Dead-letter event '' @ i @ '' not found'')) (findDeadLetter i d))
       (\<lambda>r. Inr (r, deleteDeadLetter i d))"

section \<open>One row per event\<close>

definition deadLetterKeys :: "db \<Rightarrow> (string \<times> string) list" where
  "deadLetterKeys d = map (\<lambda>r. (dl_eventId r, dl_eventType r)) (deadLetters d)"

lemma sameDeadLetter_key: "list_ex (sameDeadLetter i ty) (deadLetters d) \<longleftrightarrow> (i, ty) \<in> set (deadLetterKeys d)"
  by (auto simp: deadLetterKeys_def sameDeadLetter_def list_ex_iff)

lemma quarantineEvent_keys:
  "deadLetterKeys (quarantineEvent Q now e x c d) =
     (if evTxHash e = None \<or> recordFault Q e \<or> (evId e, eventTypeOf Q e) \<in> set (deadLetterKeys d)
      then deadLetterKeys d else deadLetterKeys d @ [(evId e, eventTypeOf Q e)])"
proof -
  have "deadLetterKeys (d\<lparr>deadLetters := map (\<lambda>r. if P r then bumpAttempt msg now r else r) (deadLetters d)\<rparr>) = deadLetterKeys d"
    for P msg by (simp add: deadLetterKeys_def bumpAttempt_def)
  moreover have "deadLetterKeys (d\<lparr>deadLetters := deadLetters d @ [r]\<rparr>) = deadLetterKeys d @ [(dl_eventId r, dl_eventType r)]"
    for r by (simp add: deadLetterKeys_def)
  ultimately show ?thesis
    by (simp add: quarantineEvent_def Let_def sameDeadLetter_key split: option.split)
qed

text \<open>Re-quarantining keeps one row per event: when the event (id and type) is already quarantined, no
  row is added or removed; its row gets the new error and time and one more attempt, and
  keeps its payload, transaction and creation time. A first quarantine adds exactly one row,
  with one attempt.\<close>

theorem quarantine_one_row:
  assumes "evTxHash e = Some h" and "\<not> recordFault Q e"
  shows "if (evId e, eventTypeOf Q e) \<in> set (deadLetterKeys d)
     then deadLetterKeys (quarantineEvent Q now e x c d) = deadLetterKeys d
       \<and> (\<forall>i < length (deadLetters d).
            deadLetters (quarantineEvent Q now e x c d) ! i =
              (if sameDeadLetter (evId e) (eventTypeOf Q e) (deadLetters d ! i)
               then (deadLetters d ! i)\<lparr>dl_errorMessage := errMessage Q x, dl_attempts := dl_attempts (deadLetters d ! i) + 1,
                      dl_lastAttemptAt := now\<rparr>
               else deadLetters d ! i))
     else (\<exists>r. deadLetters (quarantineEvent Q now e x c d) = deadLetters d @ [r] \<and> dl_attempts r = 1
            \<and> dl_eventId r = evId e \<and> dl_eventType r = eventTypeOf Q e \<and> dl_txHash r = h
            \<and> dl_payload r = Some (serializeDeadLetterPayload Q e))"
proof (cases "(evId e, eventTypeOf Q e) \<in> set (deadLetterKeys d)")
  case True
  then have "deadLetters (quarantineEvent Q now e x c d) =
     map (\<lambda>r. if sameDeadLetter (evId e) (eventTypeOf Q e) r then bumpAttempt (errMessage Q x) now r else r) (deadLetters d)"
    using assms by (simp add: quarantineEvent_def Let_def sameDeadLetter_key)
  with True show ?thesis by (simp add: quarantineEvent_keys bumpAttempt_def)
next
  case False
  with assms show ?thesis by (simp add: quarantineEvent_def Let_def sameDeadLetter_key)
qed

section \<open>Pages\<close>

lemma concat_chunks: "concat (map (\<lambda>p. take k (drop (p * k) xs)) [0..<n]) = take (n * k) xs"
proof (induction n)
  case (Suc n)
  then show ?case by (simp add: take_add [symmetric] add.commute)
qed simp

lemma pageLimit_range: "1 \<le> pageLimit q \<and> pageLimit q \<le> 100"
  by (simp add: pageLimit_def MAX_DEAD_LETTER_PAGE_SIZE_def)

lemma query_page [simp]:
  "pageLimit (q\<lparr>q_page := n\<rparr>) = pageLimit q" "deadLetterMatches (q\<lparr>q_page := n\<rparr>) = deadLetterMatches q"
  by (simp_all add: pageLimit_def deadLetterMatches_def fun_eq_iff)

lemma list_page:
  "lr_items (listDeadLetterEvents (q\<lparr>q_page := int (Suc p)\<rparr>) d) =
     take (nat (pageLimit q)) (drop (p * nat (pageLimit q)) (newestFirst (filter (deadLetterMatches q) (deadLetters d))))"
proof -
  have "nat (int p * pageLimit q) = p * nat (pageLimit q)"
    using pageLimit_range [of q] by (simp add: nat_mult_distrib)
  then show ?thesis by (simp add: listDeadLetterEvents_def Let_def pageNumber_def)
qed

text \<open>Paging through the dead letters shows every matching row exactly once, newest first: the pages
  \<open>1\<close> to \<open>n + 1\<close> laid end to end are the first \<open>(n + 1) * limit\<close> rows of the filtered, sorted table,
  \<open>hasMore\<close> says whether any remain, \<open>total\<close> is their number, and the limit is between 1 and
  100 whatever the request asks for.\<close>

theorem dead_letter_pages:
  "let k = nat (pageLimit q); rows = filter (deadLetterMatches q) (deadLetters d);
       page = (\<lambda>p. listDeadLetterEvents (q\<lparr>q_page := int (Suc p)\<rparr>) d)
   in concat (map (\<lambda>p. lr_items (page p)) [0..<Suc n]) = take (Suc n * k) (newestFirst rows)
      \<and> (lr_hasMore (page n) \<longleftrightarrow> Suc n * k < length rows)
      \<and> lr_total (page n) = length rows
      \<and> mset (newestFirst rows) = mset rows
      \<and> sorted (map (\<lambda>r. (- dl_createdAt r, - dl_ledgerSequence r)) (newestFirst rows))
      \<and> 1 \<le> k \<and> k \<le> 100"
proof -
  let ?k = "nat (pageLimit q)" and ?rows = "filter (deadLetterMatches q) (deadLetters d)"
  have "concat (map (\<lambda>p. lr_items (listDeadLetterEvents (q\<lparr>q_page := int (Suc p)\<rparr>) d)) [0..<Suc n])
      = take (Suc n * ?k) (newestFirst ?rows)"
    by (simp only: list_page concat_chunks)
  moreover have "(int (Suc n) * pageLimit q < int (length ?rows)) \<longleftrightarrow> Suc n * ?k < length ?rows"
    using pageLimit_range [of q] by (metis int_nat_eq of_nat_less_iff of_nat_mult order_trans zero_le_one)
  ultimately show ?thesis
    using pageLimit_range [of q]
    by (auto simp: Let_def listDeadLetterEvents_def pageNumber_def newestFirst_def)
qed

section \<open>Round trip of the envelope\<close>

lemma decodeTopics_map:
  "(\<And>v. v \<in> set vs \<Longrightarrow> fromXDR Q (toXDR Q v) = Some v) \<Longrightarrow> decodeTopics Q (map (toXDR Q) vs) = Inr vs"
  by (induction vs) auto

lemma deserialize_no_txHash: "deserializeDeadLetterPayload Q text = Inr e \<Longrightarrow> evTxHash e = None"
  by (auto simp: deserializeDeadLetterPayload_def bindE_eq_Inr)

text \<open>Rebuilding an event from its dead-letter envelope gives back every field but the
  transaction hash, for any event whose XDR values the codec round-trips: the hash is
  always lost.\<close>

theorem deserialize_serialize:
  assumes "\<forall>v \<in> insert (evValue e) (set (evTopic e)). fromXDR Q (toXDR Q v) = Some v"
    and "\<forall>c. evContractId e = Some c \<longrightarrow> c \<noteq> [] \<and> validContract Q c"
  shows "deserializeDeadLetterPayload Q (Some (serializeDeadLetterPayload Q e)) = Inr (e\<lparr>evTxHash := None\<rparr>)"
  using assms
  by (cases "evContractId e")
    (auto simp: deserializeDeadLetterPayload_def serializeDeadLetterPayload_def decodeTopics_map)

definition exampleEvent :: evt where
  "exampleEvent =
     \<lparr>evId = ''0001-1'', evLedger = 100, evTxHash = Some ''abc'', evTopic = [ScvSymbol ''tokens_withdrawn'', ScvU64 7],
      evValue = ScvMap (Some [(ScvSymbol ''recipient'', ScvAddress (ScAddressAccount [])),
                              (ScvSymbol ''amount'', ScvI128 0 50), (ScvSymbol ''timestamp'', ScvU64 1700)]),
      inSuccessfulContractCall = True, evType = ''contract'', ledgerClosedAt = [], transactionIndex = 0,
      operationIndex = 0, evContractId = None\<rparr>"

definition exampleCodec :: quarantine_env where
  "exampleCodec =
     \<lparr>toXDR = (\<lambda>v. case v of ScvSymbol s \<Rightarrow> CHR ''s'' # s | ScvU64 n \<Rightarrow> CHR ''u'' # toString n | _ \<Rightarrow> ''m''),
      fromXDR = (\<lambda>x. if x = ''m'' then Some (evValue exampleEvent)
                     else if hd x = CHR ''s'' then Some (ScvSymbol (tl x))
                     else map_option ScvU64 (BigInt (tl x))),
      symMethod = (\<lambda>v. case v of ScvSymbol s \<Rightarrow> Some s | _ \<Rightarrow> None),
      validContract = (\<lambda>_. True), errMessage = (\<lambda>_. ''error''), freshId = evId, recordFault = (\<lambda>_. False)\<rparr>"

lemma exampleCodec_roundtrip:
  "\<forall>v \<in> insert (evValue exampleEvent) (set (evTopic exampleEvent)).
     fromXDR exampleCodec (toXDR exampleCodec v) = Some v"
  using BigInt_toString [of 7] by (simp add: exampleCodec_def exampleEvent_def)

theorem deserialize_serialize_witness:
  "deserializeDeadLetterPayload exampleCodec (Some (serializeDeadLetterPayload exampleCodec exampleEvent))
     = Inr (exampleEvent\<lparr>evTxHash := None\<rparr>)"
  by (rule deserialize_serialize [OF exampleCodec_roundtrip]) (simp add: exampleEvent_def)

section \<open>Replay\<close>

lemma processEvent_no_txHash:
  assumes "evTxHash e = None" and "processEvent E e d = Inr (d', bs)"
  shows "d' = d \<and> bs = []"
  using processEvent_step [OF assms(2)] assms(1) by (auto simp: handler_step_def)

definition recognised :: "string \<Rightarrow> bool" where
  "recognised name = (name \<in> {''stream_created'', ''stream_topped_up'', ''tokens_withdrawn'', ''stream_paused'',
     ''stream_resumed'', ''stream_cancelled'', ''stream_completed'', ''fee_collected''})"

lemma dispatch_no_txHash:
  assumes "evTxHash e = None" and "recognised name"
  shows "\<exists>x. dispatchStreamEvent E e name t d = Inl x"
  using assms created.needs_txHash toppedUp.needs_txHash withdrawn.needs_txHash paused.needs_txHash
    resumed.needs_txHash cancelled.needs_txHash completed.needs_txHash feeCollected.needs_txHash
  by (auto simp: dispatchStreamEvent_def recognised_def)

lemma processEvent_recognised_no_txHash:
  assumes "evTxHash e = None" and "evTopic e = ScvSymbol name # t # ts" and "recognised name"
  shows "\<exists>x. processEvent E e d = Inl x"
  using dispatch_no_txHash [OF assms(1,3)] assms(2,3)
  by (auto simp: processEvent_def recognised_def)

lemma updateDeadLetter_frame [frame, simp]:
  "streams (updateDeadLetter i f d) = streams d" "events (updateDeadLetter i f d) = events d"
  "users (updateDeadLetter i f d) = users d" "indexer (updateDeadLetter i f d) = indexer d"
  by (simp_all add: updateDeadLetter_def)

lemma deleteDeadLetter_frame [frame, simp]:
  "streams (deleteDeadLetter i d) = streams d" "events (deleteDeadLetter i d) = events d"
  "users (deleteDeadLetter i d) = users d" "indexer (deleteDeadLetter i d) = indexer d"
  by (simp_all add: deleteDeadLetter_def)

definition sameIndex :: "db \<Rightarrow> db \<Rightarrow> bool" where
  "sameIndex d d' = (streams d' = streams d \<and> events d' = events d \<and> users d' = users d \<and> indexer d' = indexer d)"

lemma sameIndex_trans: "sameIndex a b \<Longrightarrow> sameIndex b c \<Longrightarrow> sameIndex a c"
  by (simp add: sameIndex_def)

lemma replay_one_indexes_nothing:
  assumes "replayDeadLetterEvent E Q now i d = (r, d', bs)"
  shows "sameIndex d d' \<and> bs = []"
proof (cases "findDeadLetter i d")
  case None
  with assms show ?thesis by (auto simp: replayDeadLetterEvent_def sameIndex_def)
next
  case (Some row)
  show ?thesis
  proof (cases "deserializeDeadLetterPayload Q (dl_payload row)")
    case (Inl x)
    with Some assms show ?thesis by (auto simp: replayDeadLetterEvent_def sameIndex_def Let_def)
  next
    case (Inr e)
    have "processEvent E e d = Inr (d1, bs1) \<Longrightarrow> d1 = d \<and> bs1 = []" for d1 bs1
      using processEvent_no_txHash [OF deserialize_no_txHash [OF Inr]] by blast
    with Some Inr assms show ?thesis
      by (auto simp: replayDeadLetterEvent_def sameIndex_def Let_def split: sum.splits)
  qed
qed

lemma replayEach_indexes_nothing:
  "replayEach E Q now ids d = (rs, d', bs) \<Longrightarrow> sameIndex d d' \<and> bs = [] \<and> map rr_id rs = ids"
proof (induction ids arbitrary: d rs d' bs)
  case Nil
  then show ?case by (auto simp: sameIndex_def)
next
  case (Cons i ids)
  obtain r d1 b1 where one: "replayDeadLetterEvent E Q now i d = (r, d1, b1)" by (cases "replayDeadLetterEvent E Q now i d") auto
  obtain rs2 d2 b2 where rest: "replayEach E Q now ids d1 = (rs2, d2, b2)" by (cases "replayEach E Q now ids d1") auto
  have "rr_id r = i"
    using one by (auto simp: replayDeadLetterEvent_def Let_def split: option.splits sum.splits)
  with Cons.prems one rest Cons.IH [OF rest] replay_one_indexes_nothing [OF one] show ?case
    by (auto intro: sameIndex_trans)
qed

text \<open>Replaying dead letters never indexes anything: whatever rows are quarantined and
  whatever the handlers would do with the original events, replay-all leaves streams, event
  log, users and indexer position as they were and broadcasts nothing, because the envelope
  carries no transaction hash. It reports one result per pending row.\<close>

theorem replayAll_indexes_nothing:
  "(case replayAllDeadLetterEvents E Q now d of (s, d', bs) \<Rightarrow>
      sameIndex d d' \<and> bs = [] \<and> ra_attempted s = length (deadLetters d))"
proof -
  let ?ids = "map dl_id (sort_key (\<lambda>r. (dl_ledgerSequence r, dl_createdAt r)) (deadLetters d))"
  obtain rs d' bs where each: "replayEach E Q now ?ids d = (rs, d', bs)" by (cases "replayEach E Q now ?ids d") auto
  from replayEach_indexes_nothing [OF each] have "sameIndex d d'" "bs = []" "length rs = length (deadLetters d)"
    by (auto dest: arg_cong [where f = length])
  with each show ?thesis by (simp add: replayAllDeadLetterEvents_def)
qed

lemma find_map_id:
  "(\<And>r. P (f r) = P r) \<Longrightarrow> find P (map f xs) = map_option f (find P xs)"
  by (induction xs) auto

text \<open>Replaying the dead letter of an indexable event fails every time: the row stays,
  with its attempt counter one higher and the new error, and the outcome is 'failed'.\<close>

theorem replay_of_indexable_event_fails:
  assumes "findDeadLetter i d = Some r" and "dl_payload r = Some (serializeDeadLetterPayload Q e)"
    and "\<forall>v \<in> insert (evValue e) (set (evTopic e)). fromXDR Q (toXDR Q v) = Some v"
    and "\<forall>c. evContractId e = Some c \<longrightarrow> c \<noteq> [] \<and> validContract Q c"
    and "evTopic e = ScvSymbol name # t # ts" and "recognised name"
  shows "\<exists>msg. replayDeadLetterEvent E Q now i d =
           (\<lparr>rr_id = i, rr_outcome = Failed, rr_attempts = dl_attempts r + 1, rr_errorMessage = Some msg\<rparr>,
            updateDeadLetter i (bumpAttempt msg now) d, [])
         \<and> findDeadLetter i (updateDeadLetter i (bumpAttempt msg now) d) = Some (bumpAttempt msg now r)"
proof -
  have dec: "deserializeDeadLetterPayload Q (Some (serializeDeadLetterPayload Q e)) = Inr (e\<lparr>evTxHash := None\<rparr>)"
    using assms(3,4) by (cases "evContractId e")
      (auto simp: deserializeDeadLetterPayload_def serializeDeadLetterPayload_def decodeTopics_map)
  obtain x where x: "processEvent E (e\<lparr>evTxHash := None\<rparr>) d = Inl x"
    using processEvent_recognised_no_txHash [of "e\<lparr>evTxHash := None\<rparr>" name t ts] assms(5,6) by auto
  have "findDeadLetter i (updateDeadLetter i (bumpAttempt m now) d) = Some (bumpAttempt m now r)" for m
  proof -
    have "dl_id r = i" using assms(1) by (auto simp: findDeadLetter_def find_Some_iff)
    then show ?thesis
      using assms(1) by (simp add: findDeadLetter_def updateDeadLetter_def find_map_id bumpAttempt_def)
  qed
  then show ?thesis
    using assms(1,2) dec x by (simp add: replayDeadLetterEvent_def Let_def)
qed

definition exampleDeadLetters :: db where
  "exampleDeadLetters = quarantineEvent exampleCodec 1000 exampleEvent TypeError None emptyDb"

theorem replay_of_indexable_event_fails_witness:
  "\<exists>msg. replayDeadLetterEvent exampleEnv exampleCodec 2000 ''0001-1'' exampleDeadLetters =
      (\<lparr>rr_id = ''0001-1'', rr_outcome = Failed, rr_attempts = 2, rr_errorMessage = Some msg\<rparr>,
       updateDeadLetter ''0001-1'' (bumpAttempt msg 2000) exampleDeadLetters, [])"
proof -
  define r where "r = hd (deadLetters exampleDeadLetters)"
  have r: "findDeadLetter ''0001-1'' exampleDeadLetters = Some r"
    "dl_payload r = Some (serializeDeadLetterPayload exampleCodec exampleEvent)" "dl_attempts r = 1"
    by (simp_all add: r_def findDeadLetter_def exampleDeadLetters_def quarantineEvent_def exampleEvent_def
        exampleCodec_def emptyDb_def eventTypeOf_def)
  have "evTopic exampleEvent = ScvSymbol ''tokens_withdrawn'' # ScvU64 7 # []" "recognised ''tokens_withdrawn''"
    "\<forall>c. evContractId exampleEvent = Some c \<longrightarrow> c \<noteq> [] \<and> validContract exampleCodec c"
    by (simp_all add: exampleEvent_def recognised_def)
  from replay_of_indexable_event_fails [OF r(1,2) exampleCodec_roundtrip this(3,1,2), of exampleEnv 2000]
  show ?thesis using r(3) by auto
qed

theorem quarantine_one_row_witness:
  "deadLetterKeys (quarantineEvent exampleCodec 2000 exampleEvent TypeError None exampleDeadLetters)
     = [(''0001-1'', ''tokens_withdrawn'')]"
proof -
  have "evTxHash exampleEvent = Some ''abc''" "\<not> recordFault exampleCodec exampleEvent"
    by (simp_all add: exampleEvent_def exampleCodec_def)
  moreover from this have "deadLetterKeys exampleDeadLetters = [(evId exampleEvent, eventTypeOf exampleCodec exampleEvent)]"
    by (simp add: exampleDeadLetters_def quarantineEvent_keys) (simp add: deadLetterKeys_def emptyDb_def)
  ultimately show ?thesis
    using quarantine_one_row [of exampleEvent "''abc''" exampleCodec exampleDeadLetters 2000 TypeError None]
    by (simp add: exampleEvent_def exampleCodec_def eventTypeOf_def)
qed

end
