(* ===== verification/Metrics.thy ===== *)
theory Metrics
  imports Prelude
begin

text \<open>
  The Prometheus registry of \<open>backend/src/lib/metrics.ts\<close>, as far as the indexer and the SSE
  service drive it: the three ledger gauges, the labelled counters, and the per-topic
  connection gauges. A labelled metric is a function of its label; histograms of
  wall-clock durations are left out.
\<close>

record metrics =
  indexerCurrentLedger :: int
  indexerNetworkLedger :: int
  indexerLagLedgers :: int
  indexerPollsTotal :: "string \<Rightarrow> nat"
  indexerEventsProcessedTotal :: "string \<times> string \<Rightarrow> nat"
  rpcRequestsTotal :: "string \<times> string \<Rightarrow> nat"
  sseActiveConnections :: "string \<rightharpoonup> nat"

definition initMetrics :: metrics where
  "initMetrics =
     \<lparr>indexerCurrentLedger = 0, indexerNetworkLedger = 0, indexerLagLedgers = 0,
      indexerPollsTotal = (\<lambda>_. 0), indexerEventsProcessedTotal = (\<lambda>_. 0), rpcRequestsTotal = (\<lambda>_. 0),
      sseActiveConnections = Map.empty\<rparr>"

definition incLabel :: "'a \<Rightarrow> ('a \<Rightarrow> nat) \<Rightarrow> ('a \<Rightarrow> nat)" where
  "incLabel k c = c(k := Suc (c k))"

definition setIndexerLedgers :: "int \<Rightarrow> int \<Rightarrow> metrics \<Rightarrow> metrics" where
  "setIndexerLedgers currentLedger networkLedger m =
     m\<lparr>indexerCurrentLedger := currentLedger, indexerNetworkLedger := networkLedger,
       indexerLagLedgers := (if 0 < networkLedger then max 0 (networkLedger - currentLedger) else 0)\<rparr>"

definition publishIndexerLag :: "int \<Rightarrow> int \<Rightarrow> metrics \<Rightarrow> metrics" where
  "publishIndexerLag currentLedger networkLedger m = setIndexerLedgers currentLedger networkLedger m"

definition recordRpcRequest :: "string \<Rightarrow> string \<Rightarrow> metrics \<Rightarrow> metrics" where
  "recordRpcRequest rpcMethod outcome m = m\<lparr>rpcRequestsTotal := incLabel (rpcMethod, outcome) (rpcRequestsTotal m)\<rparr>"

definition countPoll :: "string \<Rightarrow> metrics \<Rightarrow> metrics" where
  "countPoll outcome m = m\<lparr>indexerPollsTotal := incLabel outcome (indexerPollsTotal m)\<rparr>"

definition countEvent :: "string \<Rightarrow> string \<Rightarrow> metrics \<Rightarrow> metrics" where
  "countEvent eventType res m =
     m\<lparr>indexerEventsProcessedTotal := incLabel (eventType, res) (indexerEventsProcessedTotal m)\<rparr>"

definition TOTAL_SSE_TOPIC :: string where
  "TOTAL_SSE_TOPIC = ''total''"

definition setSseConnectionCounts :: "(string \<times> nat) list \<Rightarrow> nat \<Rightarrow> metrics \<Rightarrow> metrics" where
  "setSseConnectionCounts countsByTopic totalCount m =
     m\<lparr>sseActiveConnections :=
         (foldl (\<lambda>g (topic, n). g(topic \<mapsto> n)) Map.empty countsByTopic)(TOTAL_SSE_TOPIC \<mapsto> totalCount)\<rparr>"

lemma lag_nonneg: "0 \<le> indexerLagLedgers (setIndexerLedgers c n m)"
  by (simp add: setIndexerLedgers_def)

lemma lag_zero_iff: "indexerLagLedgers (setIndexerLedgers c n m) = 0 \<longleftrightarrow> n \<le> 0 \<or> n \<le> c"
  by (auto simp: setIndexerLedgers_def)

end
