(* ===== verification/Event_Worker.thy ===== *)
theory Event_Worker
  imports Dead_Letter Metrics
begin

text \<open>
  The poll loop of \<open>SorobanEventWorker\<close> (\<open>backend/src/workers/soroban-event-worker.ts\<close>), the
  indexer-state row it advances (\<open>backend/src/lib/indexer-state.ts\<close>) and the operations of
  \<open>backend/src/services/indexerService.ts\<close> that move it. One run of \<open>runPollCycle\<close> takes the
  world (worker fields, metrics, database, broadcasts so far) and returns the world with
  \<open>Inr ()\<close>, or with the error that rejected it: what the cycle did before the error
  stays done. \<open>cycle\<close> is what lies outside: the RPC node's answer, the clocks, the faults
  of the database, and a concurrent instance racing for the first insert.
\<close>

section \<open>State\<close>

record outcome =
  oc_ok :: bool
  oc_at :: int

record worker =
  contractId :: string
  pollIntervalMs :: "int option"
  startLedger :: "int option"
  isRunning :: bool
  pollTimer :: bool
  eventsProcessed :: nat
  eventsFailed :: nat
  lastErrorAt :: "int option"
  recentOutcomes :: "outcome list"

text \<open>The constructor; an unset variable is \<open>None\<close>, \<open>NaN\<close> is \<open>None\<close> in the numeric fields.\<close>

definition newWorker :: "(string \<Rightarrow> string option) \<Rightarrow> worker" where
  "newWorker processEnv =
     (let get = (\<lambda>k dflt. case processEnv k of None \<Rightarrow> dflt | Some v \<Rightarrow> v) in
      \<lparr>contractId = get ''STREAM_CONTRACT_ID'' [],
       pollIntervalMs = parseInt10 (get ''INDEXER_POLL_INTERVAL_MS'' ''5000''),
       startLedger = parseInt10 (get ''INDEXER_START_LEDGER'' ''0''),
       isRunning = False, pollTimer = False, eventsProcessed = 0, eventsFailed = 0,
       lastErrorAt = None, recentOutcomes = []\<rparr>)"

record world =
  wk :: worker
  mt :: metrics
  store :: db
  sent :: "bcast list"

text \<open>The two forms of the \<open>getEvents\<close> request; the filter is the contract, the limit always 100.\<close>

datatype event_request =
    ByCursor string string
  | ByLedger string "int option"

record event_response =
  rs_events :: "evt list"
  rs_latestLedger :: "int option"
  rs_latestCursor :: "string option"

record cycle =
  cyEnv :: env
  cyQuar :: quarantine_env
  getEvents :: "event_request \<Rightarrow> event_response result"
  readFault :: "err option"
  racing :: "indexer_row option option"
  createFault :: "err option"
  upsertFault :: "err option"
  stateAt :: int
  outcomeAt :: "evt \<Rightarrow> int"

section \<open>Counters\<close>

definition FAILURE_WINDOW_MS :: int where
  "FAILURE_WINDOW_MS = 5 * 60 * 1000"

definition MIN_SAMPLES_FOR_DEGRADED :: nat where
  "MIN_SAMPLES_FOR_DEGRADED = 3"

definition recordOutcome :: "bool \<Rightarrow> int \<Rightarrow> worker \<Rightarrow> worker" where
  "recordOutcome ok now w =
     (let cutoff = now - FAILURE_WINDOW_MS in
      w\<lparr>recentOutcomes := filter (\<lambda>o'. cutoff \<le> oc_at o') (recentOutcomes w @ [\<lparr>oc_ok = ok, oc_at = now\<rparr>])\<rparr>)"

text \<open>\<open>failed / recent.length >= 0.5\<close>: the quotient of two small integers compared with one half.\<close>

definition isFailureSpike :: "int \<Rightarrow> worker \<Rightarrow> bool" where
  "isFailureSpike now w =
     (let recent = filter (\<lambda>o'. now - FAILURE_WINDOW_MS \<le> oc_at o') (recentOutcomes w);
          failed = length (filter (\<lambda>o'. \<not> oc_ok o') recent)
      in if length recent < MIN_SAMPLES_FOR_DEGRADED then False else length recent \<le> 2 * failed)"

record IndexerEventCounters =
  ct_eventsProcessed :: nat
  ct_eventsFailed :: nat
  ct_lastErrorAt :: "int option"
  ct_degraded :: bool

definition getEventCounters :: "int \<Rightarrow> worker \<Rightarrow> IndexerEventCounters" where
  "getEventCounters now w =
     \<lparr>ct_eventsProcessed = eventsProcessed w, ct_eventsFailed = eventsFailed w,
      ct_lastErrorAt = lastErrorAt w, ct_degraded = isFailureSpike now w\<rparr>"

definition resetEventCounters :: "worker \<Rightarrow> worker" where
  "resetEventCounters w = w\<lparr>eventsProcessed := 0, eventsFailed := 0, lastErrorAt := None, recentOutcomes := []\<rparr>"

section \<open>The indexer-state row\<close>

definition ensureIndexerState :: "cycle \<Rightarrow> int option \<Rightarrow> db \<Rightarrow> db \<times> indexer_row result" where
  "ensureIndexerState C start d =
     (case readFault C of
        Some x \<Rightarrow> (d, Inl x)
      | None \<Rightarrow>
     (case indexer d of
        Some existing \<Rightarrow> (d, Inr existing)
      | None \<Rightarrow>
     (case start of
        None \<Rightarrow> (d, Inl (PrismaError ''Validation''))
      | Some l \<Rightarrow>
     (case createFault C of
        Some x \<Rightarrow> (d, Inl x)
      | None \<Rightarrow>
     (case racing C of
        None \<Rightarrow>
          (let created = \<lparr>lastLedger = l, lastCursor = None, ix_updatedAt = stateAt C\<rparr>
           in (d\<lparr>indexer := Some created\<rparr>, Inr created))
      | Some None \<Rightarrow>
          (d, Inl (Thrown ''[IndexerState] Unique-constraint violation but row not found after race.''))
      | Some (Some existingAfterRace) \<Rightarrow>
          (d\<lparr>indexer := Some existingAfterRace\<rparr>, Inr existingAfterRace))))))"

definition truthy :: "string option \<Rightarrow> bool" where
  "truthy x = (case x of None \<Rightarrow> False | Some s \<Rightarrow> s \<noteq> [])"

definition requestFor :: "worker \<Rightarrow> indexer_row \<Rightarrow> event_request" where
  "requestFor w state =
     (case lastCursor state of
        Some c \<Rightarrow> if c \<noteq> [] then ByCursor (contractId w) c
                  else ByLedger (contractId w) (if lastLedger state \<noteq> 0 then Some (lastLedger state) else startLedger w)
      | None \<Rightarrow> ByLedger (contractId w) (if lastLedger state \<noteq> 0 then Some (lastLedger state) else startLedger w))"

section \<open>One batch\<close>

definition topicName :: "string \<Rightarrow> evt \<Rightarrow> string result" where
  "topicName dflt e = (case evTopic e of [] \<Rightarrow> Inr dflt | topic0 # _ \<Rightarrow> decodeSymbol topic0)"

definition isCreated :: "evt \<Rightarrow> bool" where
  "isCreated e = (topicName [] e = Inr ''stream_created'')"

text \<open>
  The comparator is called on every element of an array of at least two, and throws on a
  first topic that is no symbol. When it does not throw it is a consistent two-valued
  key, and \<open>Array.prototype.sort\<close> is stable.
\<close>

definition sortEvents :: "evt list \<Rightarrow> evt list result" where
  "sortEvents es =
     (if 2 \<le> length es \<and> list_ex (\<lambda>e. \<not> (case topicName [] e of Inl _ \<Rightarrow> False | Inr _ \<Rightarrow> True)) es
      then Inl TypeError
      else Inr (sort_key (\<lambda>e. if isCreated e then 0 else 1 :: nat) es))"

record progress =
  pr_world :: world
  pr_cursor :: "string option"
  pr_ledger :: int
  pr_success :: bool

definition eventDone :: "cycle \<Rightarrow> evt \<Rightarrow> string \<Rightarrow> db \<Rightarrow> bcast list \<Rightarrow> world \<Rightarrow> world" where
  "eventDone C e ty d' bs w =
     w\<lparr>store := d', sent := sent w @ bs,
       wk := recordOutcome True (outcomeAt C e) ((wk w)\<lparr>eventsProcessed := eventsProcessed (wk w) + 1\<rparr>),
       mt := countEvent ty ''processed'' (mt w)\<rparr>"

definition eventQuarantined :: "cycle \<Rightarrow> evt \<Rightarrow> string \<Rightarrow> err \<Rightarrow> world \<Rightarrow> world" where
  "eventQuarantined C e ty x w =
     w\<lparr>store := quarantineEvent (cyQuar C) (outcomeAt C e) e x None (store w),
       mt := countEvent ty ''quarantined'' (mt w)\<rparr>"

fun processEvents :: "cycle \<Rightarrow> evt list \<Rightarrow> progress \<Rightarrow> progress \<times> unit result" where
  "processEvents C [] p = (p, Inr ())"
| "processEvents C (e # es) p =
     (if \<not> inSuccessfulContractCall e then processEvents C es p
      else case topicName ''unknown'' e of
        Inl x \<Rightarrow> (p, Inl x)
      | Inr ty \<Rightarrow>
          (case processEvent (cyEnv C) e (store (pr_world p)) of
             Inr (d', bs) \<Rightarrow>
               processEvents C es
                 \<lparr>pr_world = eventDone C e ty d' bs (pr_world p), pr_cursor = Some (evId e),
                  pr_ledger = evLedger e, pr_success = True\<rparr>
           | Inl x \<Rightarrow>
               processEvents C es (p\<lparr>pr_world := eventQuarantined C e ty x (pr_world p)\<rparr>)))"

definition finalCursor :: "event_response \<Rightarrow> progress \<Rightarrow> string option" where
  "finalCursor res p =
     (if pr_success p \<and> truthy (rs_latestCursor res) then rs_latestCursor res else pr_cursor p)"

definition orZero :: "int option \<Rightarrow> int" where
  "orZero x = (case x of None \<Rightarrow> 0 | Some n \<Rightarrow> n)"

definition finishCycle :: "cycle \<Rightarrow> event_response \<Rightarrow> progress \<Rightarrow> world \<times> unit result" where
  "finishCycle C res p =
     (let w = pr_world p in
      case upsertFault C of
        Some x \<Rightarrow> (w, Inl x)
      | None \<Rightarrow>
          (w\<lparr>store := indexerState_upsert (stateAt C) (pr_ledger p) (finalCursor res p) (store w),
             mt := publishIndexerLag (pr_ledger p) (orZero (rs_latestLedger res)) (countPoll ''processed'' (mt w))\<rparr>,
           Inr ()))"

definition runBatch :: "cycle \<Rightarrow> indexer_row \<Rightarrow> event_response \<Rightarrow> world \<Rightarrow> world \<times> unit result" where
  "runBatch C state res w =
     (case sortEvents (rs_events res) of
        Inl x \<Rightarrow> (w, Inl x)
      | Inr sortedEvents \<Rightarrow>
          (let start = \<lparr>pr_world = w, pr_cursor = lastCursor state, pr_ledger = lastLedger state, pr_success = False\<rparr>
           in case processEvents C sortedEvents start of
                (p, Inl x) \<Rightarrow> (pr_world p, Inl x)
              | (p, Inr _) \<Rightarrow> finishCycle C res p))"

definition runPollCycle :: "cycle \<Rightarrow> world \<Rightarrow> world \<times> unit result" where
  "runPollCycle C w0 =
     (case ensureIndexerState C (startLedger (wk w0)) (store w0) of
        (d1, Inl x) \<Rightarrow> (w0\<lparr>store := d1\<rparr>, Inl x)
      | (d1, Inr state) \<Rightarrow>
          (let w1 = w0\<lparr>store := d1\<rparr> in
           case getEvents C (requestFor (wk w1) state) of
             Inl x \<Rightarrow> (w1\<lparr>mt := countPoll ''rpc_error'' (recordRpcRequest ''getEvents'' ''error'' (mt w1))\<rparr>, Inl x)
           | Inr res \<Rightarrow>
               (let w2 = w1\<lparr>mt := recordRpcRequest ''getEvents'' ''success'' (mt w1)\<rparr> in
                if rs_events res = []
                then (w2\<lparr>mt := publishIndexerLag (lastLedger state) (orZero (rs_latestLedger res))
                               (countPoll ''empty'' (mt w2))\<rparr>, Inr ())
                else runBatch C state res w2)))"

section \<open>Scheduling, start and stop\<close>

text \<open>
  The methods below read the identifier \<open>requestContext\<close>, which the module neither imports
  nor declares: evaluating it is a ReferenceError. Their bodies are translated with the
  binding as a parameter (\<open>True\<close>: bound to the context of \<open>backend/src/logger.ts\<close>, with the
  request id in force) and instantiated with the module's own scope.
\<close>

definition requestContextBound :: bool where
  "requestContextBound = False"

definition unboundContext :: err where
  "unboundContext = ReferenceError ''requestContext''"

definition scheduleNext :: "worker \<Rightarrow> worker" where
  "scheduleNext w = (if isRunning w then w\<lparr>pollTimer := True\<rparr> else w)"

definition pollIn :: "bool \<Rightarrow> cycle \<Rightarrow> world \<Rightarrow> world \<times> unit result" where
  "pollIn bound C w =
     (if bound then (let (w', _) = runPollCycle C w in (w'\<lparr>wk := scheduleNext (wk w')\<rparr>, Inr ()))
      else (w\<lparr>wk := scheduleNext (wk w)\<rparr>, Inl unboundContext))"

definition poll :: "cycle \<Rightarrow> world \<Rightarrow> world \<times> unit result" where
  "poll = pollIn requestContextBound"

definition startWorker :: "cycle \<Rightarrow> world \<Rightarrow> world \<times> unit result" where
  "startWorker C w =
     (if contractId (wk w) = [] then (w, Inr ())
      else poll C (w\<lparr>wk := (wk w)\<lparr>isRunning := True\<rparr>\<rparr>))"

definition stopWorker :: "world \<Rightarrow> world" where
  "stopWorker w = w\<lparr>wk := (wk w)\<lparr>isRunning := False, pollTimer := False\<rparr>\<rparr>"

definition requestIdIn :: "bool \<Rightarrow> string option \<Rightarrow> string \<Rightarrow> string option \<Rightarrow> string result" where
  "requestIdIn bound current uuid custom =
     (if truthy custom then Inr (the custom)
      else if \<not> bound then Inl unboundContext
      else if truthy current then Inr (the current) else Inr uuid)"

definition triggerPollIn ::
  "bool \<Rightarrow> string option \<Rightarrow> string \<Rightarrow> cycle \<Rightarrow> string option \<Rightarrow> world \<Rightarrow> world \<times> string result" where
  "triggerPollIn bound current uuid C custom w =
     (case requestIdIn bound current uuid custom of
        Inl x \<Rightarrow> (w, Inl x)
      | Inr rid \<Rightarrow>
          if isRunning (wk w) \<and> bound then (fst (runPollCycle C w), Inr rid) else (w, Inr rid))"

definition triggerPoll :: "string option \<Rightarrow> string \<Rightarrow> cycle \<Rightarrow> string option \<Rightarrow> world \<Rightarrow> world \<times> string result" where
  "triggerPoll = triggerPollIn requestContextBound"

section \<open>Status, reset, replay\<close>

record IndexerStatus =
  is_lastLedger :: int
  is_lastCursor :: "string option"
  is_updatedAt :: int
  is_lagSeconds :: int

definition getIndexerStatus :: "int \<Rightarrow> db \<Rightarrow> IndexerStatus" where
  "getIndexerStatus now d =
     (case indexer d of
        None \<Rightarrow> \<lparr>is_lastLedger = 0, is_lastCursor = None, is_updatedAt = 0, is_lagSeconds = -1\<rparr>
      | Some s \<Rightarrow> \<lparr>is_lastLedger = lastLedger s, is_lastCursor = lastCursor s, is_updatedAt = ix_updatedAt s,
                  is_lagSeconds = (now - ix_updatedAt s) div 1000\<rparr>)"

definition resetIndexer :: "int \<Rightarrow> int \<Rightarrow> world \<Rightarrow> world" where
  "resetIndexer now toLedger w =
     w\<lparr>store := indexerState_upsert now toLedger None (store w), mt := setIndexerLedgers toLedger 0 (mt w)\<rparr>"

definition replayFromLedger :: "string option \<Rightarrow> string \<Rightarrow> cycle \<Rightarrow> int \<Rightarrow> world \<Rightarrow> world \<times> unit result" where
  "replayFromLedger current uuid C fromLedger w =
     (case triggerPoll current uuid C None (resetIndexer (stateAt C) fromLedger w) of
        (w', Inl x) \<Rightarrow> (w', Inl x)
      | (w', Inr _) \<Rightarrow> (w', Inr ()))"

end
