(* ===== verification/Poll_Cycle.thy ===== *)
theory Poll_Cycle
  imports Event_Worker
begin

text \<open>
  What the poll loop keeps. The locale \<open>cycle_invariant\<close> is the interface between a
  component that has an invariant on the world and the loop: the component shows that a
  handled event, a quarantined event and a move of the indexer row keep it; the locale
  gives that whole cycles, and any reachable interleaving of cycles with the operator's
  actions, keep it. It is interpreted for the database invariant, the event log, the
  withdrawal ledger and the failure counters.
\<close>

locale cycle_invariant =
  fixes I :: "world \<Rightarrow> bool" and admits :: "evt \<Rightarrow> bool"
  assumes on_metrics: "I w \<Longrightarrow> I (w\<lparr>mt := m\<rparr>)"
    and on_position: "I w \<Longrightarrow> I (w\<lparr>store := (store w)\<lparr>indexer := i\<rparr>\<rparr>)"
    and on_schedule: "I w \<Longrightarrow> I (w\<lparr>wk := (wk w)\<lparr>isRunning := b, pollTimer := t\<rparr>\<rparr>)"
    and on_handled: "I w \<Longrightarrow> admits e \<Longrightarrow> processEvent E e (store w) = Inr (d', bs) \<Longrightarrow>
           I (w\<lparr>store := d', sent := sent w @ bs,
                wk := recordOutcome True now ((wk w)\<lparr>eventsProcessed := n\<rparr>)\<rparr>)"
    and on_dead_letters: "I w \<Longrightarrow> I (w\<lparr>store := (store w)\<lparr>deadLetters := ds\<rparr>\<rparr>)"
begin

lemma on_done:
  assumes "I w" and "admits e" and "processEvent (cyEnv C) e (store w) = Inr (d', bs)"
  shows "I (eventDone C e ty d' bs w)"
  using on_metrics [OF on_handled [OF assms]] by (simp add: eventDone_def)

lemma on_quarantine: "I w \<Longrightarrow> I (eventQuarantined C e ty x w)"
  using on_dead_letters [of w "deadLetters (store w)"]
  by (auto simp: eventQuarantined_def quarantineEvent_def Let_def split: option.split
      intro!: on_metrics on_metrics [of "w\<lparr>store := _\<rparr>", simplified] on_dead_letters)

lemma on_timer: "I w \<Longrightarrow> I (w\<lparr>wk := (wk w)\<lparr>pollTimer := t\<rparr>\<rparr>)"
  using on_schedule [where w = w and b = "isRunning (wk w)" and t = t] by simp

lemma on_events:
  "I (pr_world p) \<Longrightarrow> list_all admits es \<Longrightarrow> I (pr_world (fst (processEvents C es p)))"
  by (induction C es p rule: processEvents.induct)
    (auto simp: on_done on_quarantine split: sum.split)

lemma sortEvents_set: "sortEvents es = Inr ss \<Longrightarrow> set ss = set es"
  by (auto simp: sortEvents_def split: if_splits)

lemma on_finish: "I (pr_world p) \<Longrightarrow> I (fst (finishCycle C res p))"
  by (auto simp: finishCycle_def Let_def indexerState_upsert_def split: option.split
      intro!: on_metrics [of "(pr_world p)\<lparr>store := _\<rparr>", simplified] on_position)

lemma on_batch:
  assumes "I w" and "list_all admits (rs_events res)"
  shows "I (fst (runBatch C state res w))"
proof (cases "sortEvents (rs_events res)")
  case (Inr ss)
  define p where "p = \<lparr>pr_world = w, pr_cursor = lastCursor state, pr_ledger = lastLedger state, pr_success = False\<rparr>"
  have "I (pr_world (fst (processEvents C ss p)))"
    using assms sortEvents_set [OF Inr] by (intro on_events) (auto simp: p_def list_all_iff)
  with Inr show ?thesis
    by (auto simp: runBatch_def Let_def p_def split: prod.split sum.split intro: on_finish)
qed (simp add: runBatch_def assms(1))

lemma on_ensure: "I w \<Longrightarrow> ensureIndexerState C st (store w) = (d1, r) \<Longrightarrow> I (w\<lparr>store := d1\<rparr>)"
  using on_position [of w "indexer (store w)"]
  by (auto simp: ensureIndexerState_def Let_def split: option.splits intro: on_position)

lemma on_cycle:
  assumes "I w" and "\<And>req res. getEvents C req = Inr res \<Longrightarrow> list_all admits (rs_events res)"
  shows "I (fst (runPollCycle C w))"
proof (cases "ensureIndexerState C (startLedger (wk w)) (store w)")
  case (Pair d1 r)
  note w1 = on_ensure [OF assms(1) Pair]
  show ?thesis
    using Pair on_metrics [OF w1] w1 assms(2)
    by (auto simp: runPollCycle_def Let_def split: sum.split intro!: on_batch)
qed

end

section \<open>Reachable worlds\<close>

text \<open>
  One step of the indexer process: a poll cycle against any answer of the RPC node, a
  start, stop or scheduling, the operator's reset, replays and discards, or the counters'
  reset. \<open>admits\<close> restricts the events the node delivers.
\<close>

inductive indexer_step :: "(evt \<Rightarrow> bool) \<Rightarrow> world \<Rightarrow> world \<Rightarrow> bool" for admits where
  cycle: "(\<And>req res. getEvents C req = Inr res \<Longrightarrow> list_all admits (rs_events res)) \<Longrightarrow>
     indexer_step admits w (fst (runPollCycle C w))"
| start: "indexer_step admits w (fst (startWorker C w))"
| poll: "indexer_step admits w (fst (poll C w))"
| stop: "indexer_step admits w (stopWorker w)"
| reset: "indexer_step admits w (resetIndexer now l w)"
| replay: "replayDeadLetterEvent E Q now i (store w) = (r, d', bs) \<Longrightarrow>
     indexer_step admits w (w\<lparr>store := d', sent := sent w @ bs\<rparr>)"
| discard: "discardDeadLetterEvent i (store w) = Inr (r, d') \<Longrightarrow> indexer_step admits w (w\<lparr>store := d'\<rparr>)"

abbreviation indexer_reaches :: "(evt \<Rightarrow> bool) \<Rightarrow> world \<Rightarrow> world \<Rightarrow> bool" where
  "indexer_reaches admits \<equiv> (indexer_step admits)\<^sup>*\<^sup>*"

lemma indexer_step_mono: "indexer_step admits w w' \<Longrightarrow> indexer_step (\<lambda>_. True) w w'"
  by (induction rule: indexer_step.induct) (auto intro: indexer_step.intros simp: list_all_iff)

lemma indexer_reaches_mono: "indexer_reaches admits w w' \<Longrightarrow> indexer_reaches (\<lambda>_. True) w w'"
  by (induction rule: rtranclp_induct) (auto intro: rtranclp.rtrancl_into_rtrancl indexer_step_mono)

lemma poll_fst: "fst (poll C w) = w\<lparr>wk := (wk w)\<lparr>isRunning := isRunning (wk w), pollTimer := pollTimer (wk w) \<or> isRunning (wk w)\<rparr>\<rparr>"
  by (simp add: poll_def pollIn_def requestContextBound_def scheduleNext_def)

lemma startWorker_fst:
  "fst (startWorker C w) =
     (if contractId (wk w) = [] then w else w\<lparr>wk := (wk w)\<lparr>isRunning := True, pollTimer := True\<rparr>\<rparr>)"
  by (simp add: startWorker_def poll_fst)

lemma same_index_shape:
  "sameIndex d d' \<Longrightarrow> d' = d\<lparr>deadLetters := deadLetters d'\<rparr>"
  by (cases d; cases d') (simp add: sameIndex_def)

context cycle_invariant
begin

lemma sent_free: "I w \<Longrightarrow> sameIndex (store w) d' \<Longrightarrow> I (w\<lparr>store := d', sent := sent w @ []\<rparr>)"
  using on_dead_letters [of w "deadLetters d'"] by (subst same_index_shape) auto

lemma step_keeps:
  assumes "indexer_step admits w w'" and "I w"
  shows "I w'"
  using assms
proof (cases rule: indexer_step.cases)
  case (replay E Q now i r d' bs)
  then have "sameIndex (store w) d'" "bs = []" using replay_one_indexes_nothing by blast+
  with replay assms(2) show ?thesis using sent_free by auto
next
  case (discard i r d')
  then have "d' = (store w)\<lparr>deadLetters := deadLetters d'\<rparr>"
    by (auto simp: discardDeadLetterEvent_def bindE_eq_Inr deleteDeadLetter_def)
  with discard assms(2) show ?thesis using on_dead_letters by metis
qed (auto simp: on_cycle startWorker_fst poll_fst stopWorker_def resetIndexer_def indexerState_upsert_def
      on_schedule on_timer on_metrics [of "w\<lparr>store := _\<rparr>", simplified] on_position)

lemma reaches_keeps: "indexer_reaches admits w w' \<Longrightarrow> I w \<Longrightarrow> I w'"
  by (induction rule: rtranclp_induct) (auto intro: step_keeps)

end

section \<open>Interpretations\<close>

definition noFailures :: "world \<Rightarrow> bool" where
  "noFailures w =
     (eventsFailed (wk w) = 0 \<and> lastErrorAt (wk w) = None \<and> list_all oc_ok (recentOutcomes (wk w)))"

lemma wf_db_frame [frame]:
  "wf_db (d\<lparr>indexer := i\<rparr>) = wf_db d" "wf_db (d\<lparr>deadLetters := ds\<rparr>) = wf_db d"
  by (simp_all add: wf_db_def)

lemma unrecorded_frame [frame]:
  "unrecorded (d\<lparr>indexer := i\<rparr>) s = unrecorded d s" "unrecorded (d\<lparr>deadLetters := ds\<rparr>) s = unrecorded d s"
  by (simp_all add: unrecorded_def withdrawnOf_def recordedWithdrawals_def)

interpretation wfStore: cycle_invariant "\<lambda>w. wf_db (store w)" "\<lambda>_. True"
  by unfold_locales (auto simp: frame intro: processEvent_wf)

interpretation logged: cycle_invariant "\<lambda>w. \<exists>v'. events (store w) k = Some v' \<and> same_entry v v'" "\<lambda>_. True" for k v
proof unfold_locales
  fix w e E d' bs now n
  assume "\<exists>v'. events (store w) k = Some v' \<and> same_entry v v'" and run: "processEvent E e (store w) = Inr (d', bs)"
  then obtain v1 where "events (store w) k = Some v1" and 1: "same_entry v v1" by blast
  then obtain v2 where "events d' k = Some v2" and "same_entry v1 v2"
    using processEvent_append_only [OF run] by blast
  with 1 show "\<exists>v'. events (store (w\<lparr>store := d', sent := sent w @ bs,
       wk := recordOutcome True now ((wk w)\<lparr>eventsProcessed := n\<rparr>)\<rparr>)) k = Some v' \<and> same_entry v v'"
    by (simp add: same_entry_def)
qed auto

interpretation ledger: cycle_invariant "\<lambda>w. wf_db (store w) \<and> unrecorded (store w) s = g"
    "\<lambda>e. \<not> settles (eventName e)" for s g
proof unfold_locales
  fix w e E d' bs now n
  assume "wf_db (store w) \<and> unrecorded (store w) s = g" and "\<not> settles (eventName e)"
    and "processEvent E e (store w) = Inr (d', bs)"
  then have "wf_db d' \<and> unrecorded d' s = g"
    using processEvent_wf processEvent_unrecorded by metis
  then show "wf_db (store (w\<lparr>store := d', sent := sent w @ bs,
        wk := recordOutcome True now ((wk w)\<lparr>eventsProcessed := n\<rparr>)\<rparr>)) \<and>
      unrecorded (store (w\<lparr>store := d', sent := sent w @ bs,
        wk := recordOutcome True now ((wk w)\<lparr>eventsProcessed := n\<rparr>)\<rparr>)) s = g"
    by simp
qed (simp_all add: frame)

interpretation unfailed: cycle_invariant noFailures "\<lambda>_. True"
  by unfold_locales (auto simp: noFailures_def recordOutcome_def Let_def list_all_iff)

section \<open>Properties of every run\<close>

definition initialWorld :: "(string \<Rightarrow> string option) \<Rightarrow> world" where
  "initialWorld processEnv = \<lparr>wk = newWorker processEnv, mt = initMetrics, store = emptyDb, sent = []\<rparr>"

text \<open>C3. The database invariant holds at all times: from a well-formed database, every world the
  indexer can reach through poll cycles, restarts, resets, replays and discards has a
  well-formed database (amounts are canonical integers, rows are filed under their own keys,
  foreign keys hold), whatever the RPC node delivers and whichever database call fails.\<close>

theorem indexer_keeps_wf:
  assumes "indexer_reaches admits w w'" and "wf_db (store w)"
  shows "wf_db (store w')"
  using indexer_reaches_mono [OF assms(1)] assms(2) by (rule wfStore.reaches_keeps)

definition exampleCycle :: "evt list \<Rightarrow> cycle" where
  "exampleCycle es =
     \<lparr>cyEnv = exampleEnv, cyQuar = exampleCodec,
      getEvents = (\<lambda>_. Inr \<lparr>rs_events = es, rs_latestLedger = Some 120, rs_latestCursor = None\<rparr>),
      readFault = None, racing = None, createFault = None, upsertFault = None, stateAt = 1800000,
      outcomeAt = (\<lambda>_. 1800000)\<rparr>"

definition exampleWorld :: world where
  "exampleWorld = initialWorld (\<lambda>k. if k = ''STREAM_CONTRACT_ID'' then Some ''CABC'' else None)"

definition exampleRun :: "evt list \<Rightarrow> world" where
  "exampleRun es = fst (runPollCycle (exampleCycle es) exampleWorld)"

lemma exampleWorld_store [simp]: "store exampleWorld = emptyDb"
  by (simp add: exampleWorld_def initialWorld_def)

lemma example_reaches: "list_all admits es \<Longrightarrow> indexer_reaches admits exampleWorld (exampleRun es)"
  unfolding exampleRun_def by (rule r_into_rtranclp, rule indexer_step.cycle) (auto simp: exampleCycle_def)

theorem indexer_keeps_wf_witness: "wf_db (store (exampleRun [createdEvent, withdrawEvent, cancelledEvent]))"
  by (rule indexer_keeps_wf [OF example_reaches [of "\<lambda>_. True"]]) simp_all

text \<open>C4. The event log only grows: an entry once written stays in every later world, with its stream,
  type, amount, transaction and metadata unchanged (a redelivery may refresh its ledger and time only).\<close>

theorem event_log_append_only:
  assumes "indexer_reaches admits w w'" and "events (store w) k = Some v"
  shows "\<exists>v'. events (store w') k = Some v' \<and> same_entry v v'"
proof -
  have "\<exists>v'. events (store w) k = Some v' \<and> same_entry v v'" using assms(2) by simp
  with indexer_reaches_mono [OF assms(1)] show ?thesis by (rule logged.reaches_keeps)
qed

theorem event_log_append_only_witness:
  "\<exists>v v'. events exampleDb (''tx1'', ''CREATED'') = Some v \<and> same_entry v v'
     \<and> events (store (fst (runPollCycle (exampleCycle [createdEvent]) (exampleWorld\<lparr>store := exampleDb\<rparr>))))
             (''tx1'', ''CREATED'') = Some v'"
proof -
  obtain v where v: "events exampleDb (''tx1'', ''CREATED'') = Some v"
    using exampleDb_event [of "''tx1''" "''CREATED''"] by auto
  have "indexer_reaches (\<lambda>_. True) (exampleWorld\<lparr>store := exampleDb\<rparr>)
      (fst (runPollCycle (exampleCycle [createdEvent]) (exampleWorld\<lparr>store := exampleDb\<rparr>)))"
    by (rule r_into_rtranclp, rule indexer_step.cycle) (simp add: exampleCycle_def)
  from event_log_append_only [OF this, of "(''tx1'', ''CREATED'')" v] v show ?thesis by auto
qed

lemma unrecorded_empty [simp]: "unrecorded emptyDb s = 0"
  by (simp add: unrecorded_def withdrawnOf_def recordedWithdrawals_def emptyDb_def)

text \<open>C1. Each withdrawal is counted exactly once: starting from an empty database, through any sequence
  of poll cycles, redeliveries, resets, restarts and replays without a cancellation or
  completion (which overwrite the total with the contract's own), the total withdrawn of
  every stream is the sum of the amounts of its withdrawals on record.\<close>

theorem withdrawals_counted_once:
  assumes "indexer_reaches (\<lambda>e. \<not> settles (eventName e)) (initialWorld processEnv) w"
  shows "withdrawnOf (store w) s = recordedWithdrawals (store w) s"
proof -
  have "wf_db (store (initialWorld processEnv)) \<and> unrecorded (store (initialWorld processEnv)) s = 0"
    by (simp add: initialWorld_def)
  with assms have "wf_db (store w) \<and> unrecorded (store w) s = 0"
    by (rule ledger.reaches_keeps)
  then show ?thesis by (simp add: unrecorded_def)
qed

theorem withdrawals_counted_once_witness:
  "withdrawnOf (store (exampleRun [createdEvent, withdrawEvent, withdrawEvent])) 7
     = recordedWithdrawals (store (exampleRun [createdEvent, withdrawEvent, withdrawEvent])) 7"
proof -
  have "list_all (\<lambda>e. \<not> settles (eventName e)) [createdEvent, withdrawEvent, withdrawEvent]"
    by (simp add: example_defs eventName_def settles_def)
  from withdrawals_counted_once [OF example_reaches [OF this, unfolded exampleWorld_def]] show ?thesis .
qed

text \<open>The health signal never fires: however many events fail, the failure counter stays 0, no error
  time is ever set, and the worker never reports itself degraded, at any time and in any
  reachable world (the poll loop records successes only).\<close>

theorem never_degraded:
  assumes "indexer_reaches admits (initialWorld processEnv) w"
  shows "ct_eventsFailed (getEventCounters now (wk w)) = 0 \<and> ct_lastErrorAt (getEventCounters now (wk w)) = None
    \<and> \<not> ct_degraded (getEventCounters now (wk w))"
proof -
  have "noFailures (initialWorld processEnv)"
    by (simp add: noFailures_def initialWorld_def newWorker_def Let_def)
  with indexer_reaches_mono [OF assms] have n: "noFailures w" by (rule unfailed.reaches_keeps)
  then have "filter (\<lambda>o'. \<not> oc_ok o') (filter P (recentOutcomes (wk w))) = []" for P
    by (auto simp: noFailures_def list_all_iff filter_empty_conv)
  with n show ?thesis
    by (auto simp: noFailures_def getEventCounters_def isFailureSpike_def Let_def MIN_SAMPLES_FOR_DEGRADED_def
        filter_filter)
qed

theorem never_degraded_witness:
  "\<not> ct_degraded (getEventCounters 1800000 (wk (exampleRun [withdrawEvent, withdrawEvent, withdrawEvent])))"
  using never_degraded [OF example_reaches [of "\<lambda>_. True" "[withdrawEvent, withdrawEvent, withdrawEvent]",
      unfolded exampleWorld_def], of 1800000] by simp

end
