(* ===== verification/Poll_Position.thy ===== *)
theory Poll_Position
  imports Poll_Cycle
begin

text \<open>
  Where a poll cycle leaves the indexer position, what happens to an event that cannot be
  processed, and what the scheduling methods do with the module's scope as it is.
\<close>

section \<open>Batches\<close>

lemma insort_first: "P x \<Longrightarrow> insort_key (\<lambda>x. if P x then 0 else 1 :: nat) x ys = x # ys"
  by (cases ys) simp_all

lemma insort_rest:
  "\<not> P x \<Longrightarrow> list_all (\<lambda>z. \<not> P z) zs \<Longrightarrow>
     insort_key (\<lambda>x. if P x then 0 else 1 :: nat) x (filter P ys @ zs) = filter P ys @ x # zs"
proof (induction ys)
  case Nil
  then show ?case by (cases zs) simp_all
qed simp

lemma sort_two_keys:
  "sort_key (\<lambda>x. if P x then 0 else 1 :: nat) xs = filter P xs @ filter (\<lambda>x. \<not> P x) xs"
proof (induction xs)
  case (Cons x xs)
  have "list_all (\<lambda>z. \<not> P z) (filter (\<lambda>x. \<not> P x) xs)" by (simp add: list_all_iff)
  with Cons insort_rest [of P x] insort_first [of P x] show ?case by (cases "P x") simp_all
qed simp

definition symbolTopic :: "evt \<Rightarrow> bool" where
  "symbolTopic e = (case evTopic e of [] \<Rightarrow> True | t # _ \<Rightarrow> (case t of ScvSymbol _ \<Rightarrow> True | _ \<Rightarrow> False))"

lemma symbolTopic_named: "symbolTopic e \<Longrightarrow> (case topicName n e of Inl _ \<Rightarrow> False | Inr _ \<Rightarrow> True)"
  by (cases "evTopic e"; cases "hd (evTopic e)") (auto simp: symbolTopic_def topicName_def)

text \<open>Order of a batch: when every first topic is a symbol, the batch is processed as all
  \<open>stream_created\<close> events followed by all others, each group in the order the RPC node gave.\<close>

theorem batch_order:
  assumes "list_all symbolTopic es"
  shows "sortEvents es = Inr (filter isCreated es @ filter (\<lambda>e. \<not> isCreated e) es)"
proof -
  have "\<not> list_ex (\<lambda>e. \<not> (case topicName [] e of Inl _ \<Rightarrow> False | Inr _ \<Rightarrow> True)) es"
    using assms by (auto simp: list_all_iff list_ex_iff intro: symbolTopic_named)
  then show ?thesis by (simp add: sortEvents_def sort_two_keys)
qed

theorem batch_order_witness: "sortEvents [withdrawEvent, createdEvent] = Inr [createdEvent, withdrawEvent]"
  using batch_order [of "[withdrawEvent, createdEvent]"]
  by (simp add: isCreated_def topicName_def symbolTopic_def example_defs)

section \<open>Position\<close>

lemma processEvents_position:
  assumes "processEvents C es p = (p', r)"
  shows "(pr_cursor p' = pr_cursor p \<and> pr_ledger p' = pr_ledger p \<and> pr_success p' = pr_success p)
    \<or> (\<exists>e \<in> set es. pr_success p' \<and> pr_cursor p' = Some (evId e) \<and> pr_ledger p' = evLedger e
         \<and> (\<exists>d d' bs. processEvent (cyEnv C) e d = Inr (d', bs)))"
  using assms
proof (induction C es p rule: processEvents.induct)
  case (2 C e es p)
  then show ?case
    by (fastforce split: if_splits sum.splits prod.splits)
qed simp

lemma runPollCycle_done:
  assumes "runPollCycle C w = (w', Inr ())" and "indexer (store w) = Some st"
    and "getEvents C (requestFor (wk w) st) = Inr res" and "rs_events res \<noteq> []"
  obtains ss p where "sortEvents (rs_events res) = Inr ss"
    "processEvents C ss \<lparr>pr_world = w\<lparr>mt := recordRpcRequest ''getEvents'' ''success'' (mt w)\<rparr>,
        pr_cursor = lastCursor st, pr_ledger = lastLedger st, pr_success = False\<rparr> = (p, Inr ())"
    "w' = (pr_world p)\<lparr>store := indexerState_upsert (stateAt C) (pr_ledger p) (finalCursor res p) (store (pr_world p)),
        mt := publishIndexerLag (pr_ledger p) (orZero (rs_latestLedger res)) (countPoll ''processed'' (mt (pr_world p)))\<rparr>"
proof -
  have "ensureIndexerState C (startLedger (wk w)) (store w) = (store w, Inr st)"
    using assms(1,2) by (auto simp: runPollCycle_def ensureIndexerState_def split: option.splits)
  then have "runBatch C st res (w\<lparr>mt := recordRpcRequest ''getEvents'' ''success'' (mt w)\<rparr>) = (w', Inr ())"
    using assms by (simp add: runPollCycle_def Let_def)
  then show ?thesis
    by (auto simp: runBatch_def finishCycle_def Let_def split: sum.splits prod.splits option.splits intro: that)
qed

text \<open>Where a completed cycle leaves the position: either no event of the batch was processed and
  ledger and cursor are what they were, or the ledger is that of an event of the batch that was
  processed successfully, and the cursor is that event's id or the cursor the node reported.\<close>

theorem position_after_cycle:
  assumes "runPollCycle C w = (w', Inr ())" and "indexer (store w) = Some st"
    and "getEvents C (requestFor (wk w) st) = Inr res" and "rs_events res \<noteq> []"
  shows "\<exists>st'. indexer (store w') = Some st' \<and>
    ((lastLedger st' = lastLedger st \<and> lastCursor st' = lastCursor st)
     \<or> (\<exists>e \<in> set (rs_events res). lastLedger st' = evLedger e
          \<and> (lastCursor st' = Some (evId e) \<or> (truthy (rs_latestCursor res) \<and> lastCursor st' = rs_latestCursor res))
          \<and> (\<exists>d d' bs. processEvent (cyEnv C) e d = Inr (d', bs))))"
proof -
  from assms obtain ss p where ss: "sortEvents (rs_events res) = Inr ss"
    and p: "processEvents C ss \<lparr>pr_world = w\<lparr>mt := recordRpcRequest ''getEvents'' ''success'' (mt w)\<rparr>,
        pr_cursor = lastCursor st, pr_ledger = lastLedger st, pr_success = False\<rparr> = (p, Inr ())"
    and w': "w' = (pr_world p)\<lparr>store := indexerState_upsert (stateAt C) (pr_ledger p) (finalCursor res p) (store (pr_world p)),
        mt := publishIndexerLag (pr_ledger p) (orZero (rs_latestLedger res)) (countPoll ''processed'' (mt (pr_world p)))\<rparr>"
    by (rule runPollCycle_done)
  show ?thesis
    using processEvents_position [OF p] w' wfStore.sortEvents_set [OF ss]
    by (fastforce simp: indexerState_upsert_def finalCursor_def)
qed

text \<open>A batch none of whose events can be processed.\<close>

definition poison :: "cycle \<Rightarrow> evt \<Rightarrow> bool" where
  "poison C e \<longleftrightarrow> \<not> inSuccessfulContractCall e \<or> (\<forall>d. \<exists>x. processEvent (cyEnv C) e d = Inl x)"

lemma processEvents_poison:
  assumes "processEvents C es p = (p', r)" and "list_all (poison C) es"
  shows "pr_cursor p' = pr_cursor p \<and> pr_ledger p' = pr_ledger p \<and> pr_success p' = pr_success p
    \<and> wk (pr_world p') = wk (pr_world p)"
  using assms
proof (induction C es p rule: processEvents.induct)
  case (2 C e es p)
  show ?case
  proof (cases "inSuccessfulContractCall e")
    case False
    with 2 show ?thesis by simp
  next
    case ok: True
    with "2.prems"(2) obtain x where x: "processEvent (cyEnv C) e (store (pr_world p)) = Inl x"
      by (auto simp: poison_def)
    show ?thesis
    proof (cases "topicName ''unknown'' e")
      case (Inl y)
      with "2.prems"(1) ok show ?thesis by simp
    next
      case (Inr ty)
      with "2.IH"(2) [OF _ Inr x] "2.prems" ok x show ?thesis by (simp add: eventQuarantined_def)
    qed
  qed
qed simp

lemma quarantineEvent_frame [frame, simp]:
  "indexer (quarantineEvent Q now e x c d) = indexer d" "streams (quarantineEvent Q now e x c d) = streams d"
  "events (quarantineEvent Q now e x c d) = events d" "users (quarantineEvent Q now e x c d) = users d"
  by (simp_all add: quarantineEvent_def Let_def split: option.split)

lemma processEvents_indexer:
  "indexer (store (pr_world (fst (processEvents C es p)))) = indexer (store (pr_world p))"
  by (induction C es p rule: processEvents.induct)
    (auto simp: eventDone_def eventQuarantined_def split: sum.split dest: processEvent_bookkeeping)

lemma processEvents_poison_untouched:
  assumes "list_all (poison C) es"
  shows "streams (store (pr_world (fst (processEvents C es p)))) = streams (store (pr_world p))
    \<and> events (store (pr_world (fst (processEvents C es p)))) = events (store (pr_world p))
    \<and> users (store (pr_world (fst (processEvents C es p)))) = users (store (pr_world p))
    \<and> sent (pr_world (fst (processEvents C es p))) = sent (pr_world p)"
  using assms
proof (induction C es p rule: processEvents.induct)
  case (2 C e es p)
  show ?case
  proof (cases "inSuccessfulContractCall e")
    case False
    with 2 show ?thesis by simp
  next
    case ok: True
    with "2.prems" obtain x where x: "processEvent (cyEnv C) e (store (pr_world p)) = Inl x"
      by (auto simp: poison_def)
    show ?thesis
      using "2.IH"(2) [OF _ _ x] "2.prems" ok x by (simp add: eventQuarantined_def split: sum.split)
  qed
qed simp

text \<open>An answer that gives the cycle nothing to advance on: an error, no events, or poison only.\<close>

definition stuckAnswer :: "cycle \<Rightarrow> event_request \<Rightarrow> bool" where
  "stuckAnswer C r = (case getEvents C r of Inl x \<Rightarrow> True | Inr res \<Rightarrow> list_all (poison C) (rs_events res))"

definition pinned :: "world \<Rightarrow> indexer_row \<Rightarrow> world \<Rightarrow> bool" where
  "pinned w st w' \<longleftrightarrow> (\<exists>st'. indexer (store w') = Some st' \<and> lastLedger st' = lastLedger st
    \<and> lastCursor st' = lastCursor st \<and> requestFor (wk w') st' = requestFor (wk w) st)
    \<and> streams (store w') = streams (store w) \<and> events (store w') = events (store w)
    \<and> users (store w') = users (store w) \<and> sent w' = sent w"

lemma poison_batch_pinned:
  assumes "indexer (store w) = Some st" and "list_all (poison C) (rs_events res)"
  shows "pinned w st (fst (runBatch C st res (w\<lparr>mt := m\<rparr>)))"
proof (cases "sortEvents (rs_events res)")
  case (Inl x)
  with assms(1) show ?thesis by (simp add: runBatch_def pinned_def)
next
  case (Inr ss)
  let ?p = "\<lparr>pr_world = w\<lparr>mt := m\<rparr>, pr_cursor = lastCursor st, pr_ledger = lastLedger st, pr_success = False\<rparr>"
  obtain p r where p: "processEvents C ss ?p = (p, r)" by fastforce
  have "list_all (poison C) ss"
    using assms(2) wfStore.sortEvents_set [OF Inr] by (simp add: list_all_iff)
  from processEvents_poison [OF p this] have k: "pr_cursor p = lastCursor st" "pr_ledger p = lastLedger st"
    "\<not> pr_success p" "wk (pr_world p) = wk w" by auto
  moreover have "indexer (store (pr_world p)) = Some st"
    using processEvents_indexer [of C ss ?p] p assms(1) by simp
  moreover note processEvents_poison_untouched [OF \<open>list_all (poison C) ss\<close>, of ?p]
  ultimately show ?thesis using Inr p
    by (cases r; cases "upsertFault C")
      (auto simp: runBatch_def pinned_def finishCycle_def Let_def indexerState_upsert_def finalCursor_def requestFor_def
        split: option.split)
qed

lemma one_stuck_cycle:
  assumes "indexer (store w) = Some st" and "stuckAnswer C (requestFor (wk w) st)"
  shows "pinned w st (fst (runPollCycle C w))"
proof (cases "readFault C")
  case (Some x)
  with assms(1) show ?thesis by (simp add: runPollCycle_def ensureIndexerState_def pinned_def)
next
  case None
  show ?thesis
  proof (cases "getEvents C (requestFor (wk w) st)")
    case (Inl x)
    with assms(1) None show ?thesis by (simp add: runPollCycle_def ensureIndexerState_def pinned_def Let_def)
  next
    case (Inr res)
    with assms(2) have "list_all (poison C) (rs_events res)" by (simp add: stuckAnswer_def)
    with assms(1) None Inr poison_batch_pinned [OF assms(1) this] show ?thesis
      by (simp add: runPollCycle_def ensureIndexerState_def Let_def) (simp add: pinned_def)
  qed
qed

lemma pinned_trans:
  "pinned w st w1 \<Longrightarrow> (\<And>st1. indexer (store w1) = Some st1 \<Longrightarrow> requestFor (wk w1) st1 = requestFor (wk w) st \<Longrightarrow> pinned w1 st1 w2)
    \<Longrightarrow> pinned w st w2"
  unfolding pinned_def by metis

definition runCycles :: "cycle list \<Rightarrow> world \<Rightarrow> world" where
  "runCycles = fold (\<lambda>C w. fst (runPollCycle C w))"

lemma stuck_cycles_pinned:
  "indexer (store w) = Some st \<Longrightarrow> \<forall>C\<in>set Cs. stuckAnswer C (requestFor (wk w) st) \<Longrightarrow> pinned w st (runCycles Cs w)"
proof (induction Cs arbitrary: w st)
  case (Cons C Cs)
  from Cons.prems have "pinned w st (fst (runPollCycle C w))" by (intro one_stuck_cycle) auto
  then have "pinned w st (runCycles Cs (fst (runPollCycle C w)))"
    by (rule pinned_trans) (rule Cons.IH, use Cons.prems in auto)
  then show ?case by (simp add: runCycles_def)
qed (simp add: runCycles_def pinned_def)

text \<open>C23. The cursor moves over successes only: through any number of poll cycles, each with its own
  clock, faults and answer of the node, as long as every answer to the request of the position is
  an error, empty, or made of events that are from failed calls or that the handlers reject in
  that cycle whatever the database holds, ledger and cursor stay where they are, every cycle sends the same request
  again, and streams and event log do not change. Poison events are never stepped over on their own: only a later event that succeeds in
  the same answer moves the position past them.\<close>

theorem poison_batch_freezes_cursor:
  assumes "indexer (store w) = Some st" and "\<forall>C\<in>set Cs. stuckAnswer C (requestFor (wk w) st)"
  shows "\<exists>st'. indexer (store (runCycles Cs w)) = Some st'
    \<and> lastLedger st' = lastLedger st \<and> lastCursor st' = lastCursor st
    \<and> requestFor (wk (runCycles Cs w)) st' = requestFor (wk w) st
    \<and> streams (store (runCycles Cs w)) = streams (store w) \<and> events (store (runCycles Cs w)) = events (store w)"
  using stuck_cycles_pinned [OF assms] by (simp add: pinned_def)

text \<open>
  What the node answers to a request for the events \<open>es\<close> after a position: the first hundred of
  them (the request's \<open>limit\<close>), or an error.
\<close>

definition nodeAnswers :: "cycle \<Rightarrow> event_request \<Rightarrow> evt list \<Rightarrow> bool" where
  "nodeAnswers C r es = (case getEvents C r of Inl x \<Rightarrow> True | Inr res \<Rightarrow> rs_events res = take 100 es)"

definition poisonEvent :: evt where
  "poisonEvent = contractEvent ''0101-9'' 101 ''tx9'' ''tokens_withdrawn'' 7 []"

definition positionedWorld :: world where
  "positionedWorld = exampleWorld\<lparr>store := exampleDb\<lparr>indexer :=
     Some \<lparr>lastLedger = 90, lastCursor = Some ''0090-1'', ix_updatedAt = 1700000\<rparr>\<rparr>\<rparr>"

lemma poisonEvent_rejected: "\<exists>x. processEvent E poisonEvent d = Inl x"
  by (simp add: poisonEvent_def contractEvent_def processEvent_def dispatchStreamEvent_def handleTokensWithdrawn_def
      decodeMap_def has_def)

definition badCycles :: "cycle list" where
  "badCycles = replicate 1000 (exampleCycle [poisonEvent]) @ [exampleCycle []]
     @ [(exampleCycle [])\<lparr>getEvents := \<lambda>_. Inl (Thrown ''timeout''), stateAt := 1900000\<rparr>]"

theorem poison_batch_freezes_cursor_witness:
  "\<exists>st'. indexer (store (runCycles badCycles positionedWorld)) = Some st'
     \<and> lastLedger st' = 90 \<and> lastCursor st' = Some ''0090-1''"
proof -
  define st where "st = \<lparr>lastLedger = 90, lastCursor = Some ''0090-1'', ix_updatedAt = 1700000\<rparr>"
  have "indexer (store positionedWorld) = Some st"
    and "\<forall>C\<in>set badCycles. stuckAnswer C (requestFor (wk positionedWorld) st)"
    by (auto simp: positionedWorld_def st_def poison_def poisonEvent_rejected exampleCycle_def badCycles_def stuckAnswer_def)
  from poison_batch_freezes_cursor [OF this] show ?thesis by (simp only: st_def indexer_row.simps) blast
qed

text \<open>A full page of poison stops the indexer for good: once the hundred events that follow the
  position are all poison, no event the chain adds after them is ever processed, however many
  cycles run: the node answers every request with the same hundred events, and ledger, cursor,
  streams, event log, users and broadcasts stay as they are.\<close>

theorem full_poison_page_wedges:
  assumes "indexer (store w) = Some st" and "100 \<le> length pending"
    and "\<forall>C\<in>set Cs. list_all (poison C) (take 100 pending)
      \<and> (\<exists>later. nodeAnswers C (requestFor (wk w) st) (pending @ later))"
  shows "\<exists>st'. indexer (store (runCycles Cs w)) = Some st'
    \<and> lastLedger st' = lastLedger st \<and> lastCursor st' = lastCursor st
    \<and> streams (store (runCycles Cs w)) = streams (store w) \<and> events (store (runCycles Cs w)) = events (store w)
    \<and> users (store (runCycles Cs w)) = users (store w) \<and> sent (runCycles Cs w) = sent w"
proof -
  have "\<forall>C\<in>set Cs. stuckAnswer C (requestFor (wk w) st)"
    using assms(2,3) by (fastforce simp: stuckAnswer_def nodeAnswers_def split: sum.splits)
  from stuck_cycles_pinned [OF assms(1) this] show ?thesis by (auto simp: pinned_def)
qed

definition growingNode :: "nat \<Rightarrow> cycle" where
  "growingNode n = exampleCycle (take 100 (replicate 100 poisonEvent @ replicate n createdEvent))"

theorem full_poison_page_wedges_witness:
  "\<exists>st'. indexer (store (runCycles (map growingNode [0..<500]) positionedWorld)) = Some st' \<and> lastLedger st' = 90
    \<and> streams (store (runCycles (map growingNode [0..<500]) positionedWorld)) = streams exampleDb"
proof -
  define st where "st = \<lparr>lastLedger = 90, lastCursor = Some ''0090-1'', ix_updatedAt = 1700000\<rparr>"
  have "list_all (poison (growingNode n)) (take 100 (replicate 100 poisonEvent))" for n
    by (simp add: poison_def poisonEvent_rejected list_all_iff)
  moreover have "nodeAnswers (growingNode n) r (replicate 100 poisonEvent @ replicate n createdEvent)" for n r
    by (simp add: growingNode_def nodeAnswers_def exampleCycle_def)
  ultimately have *: "\<forall>C\<in>set (map growingNode [0..<500]). list_all (poison C) (take 100 (replicate 100 poisonEvent))
      \<and> (\<exists>later. nodeAnswers C (requestFor (wk positionedWorld) st) (replicate 100 poisonEvent @ later))"
    by (simp only: set_map ball_simps) blast
  have "indexer (store positionedWorld) = Some st" "100 \<le> length (replicate 100 poisonEvent)"
    "streams (store positionedWorld) = streams exampleDb"
    by (simp_all add: positionedWorld_def st_def)
  with full_poison_page_wedges [OF this(1,2) *] show ?thesis by (auto simp: st_def)
qed

section \<open>Quarantine\<close>

definition hasDeadLetter :: "string \<Rightarrow> string \<Rightarrow> db \<Rightarrow> bool" where
  "hasDeadLetter i ty d = ((i, ty) \<in> set (deadLetterKeys d))"

lemma hasDeadLetter_quarantine: "hasDeadLetter i ty d \<Longrightarrow> hasDeadLetter i ty (quarantineEvent Q now e x c d)"
  by (simp add: hasDeadLetter_def quarantineEvent_keys)

lemma quarantineEvent_has:
  "evTxHash e \<noteq> None \<Longrightarrow> \<not> recordFault Q e \<Longrightarrow>
     hasDeadLetter (evId e) (eventTypeOf Q e) (quarantineEvent Q now e x c d)"
  by (auto simp: hasDeadLetter_def quarantineEvent_keys)

lemma processEvents_keeps_dead_letter:
  "hasDeadLetter i ty (store (pr_world p)) \<Longrightarrow> hasDeadLetter i ty (store (pr_world (fst (processEvents C es p))))"
proof (induction C es p rule: processEvents.induct)
  case (2 C e es p)
  have "hasDeadLetter i ty d'" if "processEvent (cyEnv C) e (store (pr_world p)) = Inr (d', bs)" for d' bs
    using "2.prems" processEvent_bookkeeping [OF that] by (simp add: hasDeadLetter_def deadLetterKeys_def)
  with 2 show ?case
    by (auto simp: eventDone_def eventQuarantined_def hasDeadLetter_quarantine split: sum.split)
qed simp

lemma processEvents_quarantines:
  assumes "processEvents C es p = (p', Inr ())" and "e \<in> set es" and "inSuccessfulContractCall e"
    and "\<forall>d. \<exists>x. processEvent (cyEnv C) e d = Inl x" and "evTxHash e \<noteq> None" and "\<not> recordFault (cyQuar C) e"
  shows "hasDeadLetter (evId e) (eventTypeOf (cyQuar C) e) (store (pr_world p'))"
  using assms(1,2)
proof (induction es arbitrary: p)
  case (Cons e1 es)
  show ?case
  proof (cases "e \<in> set es")
    case True
    with Cons show ?thesis by (auto split: if_splits sum.splits prod.splits)
  next
    case False
    with Cons.prems have e1: "e1 = e" by simp
    obtain x where x: "processEvent (cyEnv C) e (store (pr_world p)) = Inl x" using assms(4) by blast
    obtain ty where "topicName ''unknown'' e = Inr ty"
      and rest: "processEvents C es (p\<lparr>pr_world := eventQuarantined C e ty x (pr_world p)\<rparr>) = (p', Inr ())"
      using Cons.prems(1) e1 x assms(3) by (auto split: sum.splits)
    have "hasDeadLetter (evId e) (eventTypeOf (cyQuar C) e) (store (eventQuarantined C e ty x (pr_world p)))"
      using quarantineEvent_has [OF assms(5,6)] by (simp add: eventQuarantined_def)
    then show ?thesis
      using processEvents_keeps_dead_letter
        [of "evId e" "eventTypeOf (cyQuar C) e" "p\<lparr>pr_world := eventQuarantined C e ty x (pr_world p)\<rparr>" C es] rest
      by simp
  qed
qed simp

text \<open>No poison event is lost by a completed cycle: an event of the batch that its handler always
  rejects has a dead-letter row under its id and type afterwards, if it carries a transaction
  hash and the quarantine write did not fail.\<close>

theorem poison_event_quarantined:
  assumes "runPollCycle C w = (w', Inr ())" and "indexer (store w) = Some st"
    and "getEvents C (requestFor (wk w) st) = Inr res" and "e \<in> set (rs_events res)"
    and "inSuccessfulContractCall e" and "\<forall>d. \<exists>x. processEvent (cyEnv C) e d = Inl x"
    and "evTxHash e \<noteq> None" and "\<not> recordFault (cyQuar C) e"
  shows "hasDeadLetter (evId e) (eventTypeOf (cyQuar C) e) (store w')"
proof -
  from assms(4) have "rs_events res \<noteq> []" by auto
  with assms(1-3) obtain ss p q where ss: "sortEvents (rs_events res) = Inr ss" and p: "processEvents C ss q = (p, Inr ())"
    and w': "w' = (pr_world p)\<lparr>store := indexerState_upsert (stateAt C) (pr_ledger p) (finalCursor res p) (store (pr_world p)),
        mt := publishIndexerLag (pr_ledger p) (orZero (rs_latestLedger res)) (countPoll ''processed'' (mt (pr_world p)))\<rparr>"
    by (rule runPollCycle_done) blast
  have "e \<in> set ss" using assms(4) wfStore.sortEvents_set [OF ss] by simp
  from processEvents_quarantines [OF p this assms(5-8)] w' show ?thesis
    by (simp add: hasDeadLetter_def deadLetterKeys_def indexerState_upsert_def)
qed

definition mixedCycle :: cycle where
  "mixedCycle = exampleCycle [poisonEvent, createdEvent]"

lemma mixedCycle_runs:
  obtains w' where "runPollCycle mixedCycle positionedWorld = (w', Inr ())"
    "indexer (store w') = Some \<lparr>lastLedger = 100, lastCursor = Some ''0100-1'', ix_updatedAt = 1800000\<rparr>"
proof -
  let ?d = "exampleDb\<lparr>indexer := Some \<lparr>lastLedger = 90, lastCursor = Some ''0090-1'', ix_updatedAt = 1700000\<rparr>\<rparr>"
  have order: "sortEvents [poisonEvent, createdEvent] = Inr [createdEvent, poisonEvent]"
    by (simp add: sortEvents_def topicName_def isCreated_def poisonEvent_def example_defs)
  have "streams ?d 7 = Some exampleStream" by (simp add: exampleDb_stream)
  then obtain d' bs where c: "processEvent exampleEnv createdEvent ?d = Inr (d', bs)"
    using createdEvent_on [of ?d]
    by (fastforce simp: processEvent_def dispatchStreamEvent_def createdEvent_def contractEvent_def)
  obtain x where x: "processEvent exampleEnv poisonEvent d' = Inl x" using poisonEvent_rejected by blast
  have "topicName n createdEvent = Inr ''stream_created''" "topicName n poisonEvent = Inr ''tokens_withdrawn''"
    "inSuccessfulContractCall createdEvent" "inSuccessfulContractCall poisonEvent"
    "evId createdEvent = ''0100-1''" "evLedger createdEvent = 100" for n
    by (simp_all add: topicName_def poisonEvent_def example_defs)
  with order c x that show ?thesis
    by (auto simp: mixedCycle_def positionedWorld_def runPollCycle_def ensureIndexerState_def exampleCycle_def Let_def
        runBatch_def finishCycle_def eventDone_def eventQuarantined_def finalCursor_def truthy_def indexerState_upsert_def)
qed

lemma mixedCycle_facts:
  "indexer (store positionedWorld) = Some \<lparr>lastLedger = 90, lastCursor = Some ''0090-1'', ix_updatedAt = 1700000\<rparr>"
  "getEvents mixedCycle req = Inr \<lparr>rs_events = [poisonEvent, createdEvent], rs_latestLedger = Some 120, rs_latestCursor = None\<rparr>"
  by (simp_all add: positionedWorld_def mixedCycle_def exampleCycle_def)

theorem poison_event_quarantined_witness:
  "\<exists>w'. runPollCycle mixedCycle positionedWorld = (w', Inr ())
     \<and> hasDeadLetter ''0101-9'' ''tokens_withdrawn'' (store w')"
proof -
  obtain w' where run: "runPollCycle mixedCycle positionedWorld = (w', Inr ())" by (rule mixedCycle_runs)
  have "poisonEvent \<in> set [poisonEvent, createdEvent]" "inSuccessfulContractCall poisonEvent"
    "\<forall>d. \<exists>x. processEvent (cyEnv mixedCycle) poisonEvent d = Inl x" "evTxHash poisonEvent \<noteq> None"
    "\<not> recordFault (cyQuar mixedCycle) poisonEvent" "evId poisonEvent = ''0101-9''"
    "eventTypeOf (cyQuar mixedCycle) poisonEvent = ''tokens_withdrawn''"
    using poisonEvent_rejected
    by (simp_all add: poisonEvent_def contractEvent_def mixedCycle_def exampleCycle_def exampleCodec_def eventTypeOf_def)
  with poison_event_quarantined [OF run mixedCycle_facts(1,2), of poisonEvent] run show ?thesis by auto
qed

theorem position_after_cycle_witness:
  "\<exists>w' st'. runPollCycle mixedCycle positionedWorld = (w', Inr ()) \<and> indexer (store w') = Some st' \<and> lastLedger st' = 100"
proof -
  obtain w' where run: "runPollCycle mixedCycle positionedWorld = (w', Inr ())"
    and st: "indexer (store w') = Some \<lparr>lastLedger = 100, lastCursor = Some ''0100-1'', ix_updatedAt = 1800000\<rparr>"
    by (rule mixedCycle_runs)
  from position_after_cycle [OF run mixedCycle_facts] st run show ?thesis by auto
qed

section \<open>Scheduling in the module's scope\<close>

definition untouched :: "world \<Rightarrow> world \<Rightarrow> bool" where
  "untouched w w' \<longleftrightarrow>
     streams (store w') = streams (store w) \<and> events (store w') = events (store w) \<and> users (store w') = users (store w)
     \<and> deadLetters (store w') = deadLetters (store w) \<and> sent w' = sent w"

text \<open>The worker as shipped never indexes anything: \<open>requestContext\<close> is not bound in the module, so a
  scheduled poll, a start with a configured contract and a replay always reject with a
  ReferenceError, and none of them, nor a manual trigger, changes streams, events, users or
  dead letters or broadcasts; a replay still resets the position first.\<close>

theorem shipped_worker_indexes_nothing:
  "snd (poll C w) = Inl unboundContext
   \<and> snd (startWorker C w) = (if contractId (wk w) = [] then Inr () else Inl unboundContext)
   \<and> snd (replayFromLedger current uuid C l w) = Inl unboundContext
   \<and> untouched w (fst (poll C w)) \<and> untouched w (fst (startWorker C w))
   \<and> untouched w (fst (triggerPoll current uuid C custom w)) \<and> untouched w (fst (replayFromLedger current uuid C l w))
   \<and> indexer (store (fst (replayFromLedger current uuid C l w)))
       = Some \<lparr>lastLedger = l, lastCursor = None, ix_updatedAt = stateAt C\<rparr>"
  by (simp add: untouched_def poll_def pollIn_def requestContextBound_def startWorker_def replayFromLedger_def
      triggerPoll_def triggerPollIn_def requestIdIn_def truthy_def resetIndexer_def indexerState_upsert_def
      split: option.split)

end
