(* ===== verification/Batch_Mutex.thy ===== *)
theory Batch_Mutex
  imports Prelude
begin

text \<open>
  The promise chain of \<open>SorobanEventWorker.runExclusive\<close>
  (\<open>backend/src/workers/soroban-event-worker.ts\<close>): every batch is chained on the gate of the
  one registered before it, \<open>activeBatch\<close> holds the newest gate until it resolves, and
  \<open>waitForDrain\<close> waits for that gate. Batches are numbered in the order of their calls; a
  call, a batch's start and its settling (resolved or rejected alike) are the steps.
\<close>

datatype status = Unborn | Waiting | Running | Settled

record mutex =
  calls :: nat
  status :: "nat \<Rightarrow> status"
  chainedOn :: "nat \<Rightarrow> nat option"
  batchMutex :: "nat option"
  activeBatch :: "nat option"

definition initMutex :: mutex where
  "initMutex = \<lparr>calls = 0, status = (\<lambda>_. Unborn), chainedOn = (\<lambda>_. None), batchMutex = None, activeBatch = None\<rparr>"

definition runExclusive :: "mutex \<Rightarrow> mutex" where
  "runExclusive m =
     (let gate = calls m in
      m\<lparr>calls := Suc gate, status := (status m)(gate := Waiting), chainedOn := (chainedOn m)(gate := batchMutex m),
        batchMutex := Some gate, activeBatch := Some gate\<rparr>)"

definition mayBegin :: "mutex \<Rightarrow> nat \<Rightarrow> bool" where
  "mayBegin m j = (status m j = Waiting \<and> (case chainedOn m j of None \<Rightarrow> True | Some i \<Rightarrow> status m i = Settled))"

definition beginBatch :: "nat \<Rightarrow> mutex \<Rightarrow> mutex" where
  "beginBatch j m = m\<lparr>status := (status m)(j := Running)\<rparr>"

definition settleBatch :: "nat \<Rightarrow> mutex \<Rightarrow> mutex" where
  "settleBatch j m =
     m\<lparr>status := (status m)(j := Settled),
       activeBatch := (if activeBatch m = Some j then None else activeBatch m)\<rparr>"

inductive mutex_step :: "mutex \<Rightarrow> mutex \<Rightarrow> bool" where
  call: "mutex_step m (runExclusive m)"
| begin_batch: "mayBegin m j \<Longrightarrow> mutex_step m (beginBatch j m)"
| settle: "status m j = Running \<Longrightarrow> mutex_step m (settleBatch j m)"

inductive_cases mutex_stepE: "mutex_step m m'"

abbreviation mutex_reaches :: "mutex \<Rightarrow> mutex \<Rightarrow> bool" where
  "mutex_reaches \<equiv> mutex_step\<^sup>*\<^sup>*"

text \<open>The chain invariant: a settled prefix, at most one running batch, the rest waiting.\<close>

definition mutex_inv :: "mutex \<Rightarrow> bool" where
  "mutex_inv m \<longleftrightarrow>
     (\<exists>k \<le> calls m.
        (\<forall>i < k. status m i = Settled)
        \<and> (k < calls m \<longrightarrow> status m k \<in> {Waiting, Running})
        \<and> (\<forall>i. k < i \<and> i < calls m \<longrightarrow> status m i = Waiting)
        \<and> activeBatch m = (if k = calls m then None else Some (calls m - 1)))
     \<and> (\<forall>i \<ge> calls m. status m i = Unborn)
     \<and> (\<forall>i < calls m. chainedOn m i = (if i = 0 then None else Some (i - 1)))
     \<and> batchMutex m = (if calls m = 0 then None else Some (calls m - 1))"

lemma mutex_invI:
  assumes "k \<le> calls m" "\<And>i. i < k \<Longrightarrow> status m i = Settled" "k < calls m \<Longrightarrow> status m k \<in> {Waiting, Running}"
    "\<And>i. k < i \<Longrightarrow> i < calls m \<Longrightarrow> status m i = Waiting"
    "activeBatch m = (if k = calls m then None else Some (calls m - 1))"
    "\<And>i. calls m \<le> i \<Longrightarrow> status m i = Unborn"
    "\<And>i. i < calls m \<Longrightarrow> chainedOn m i = (if i = 0 then None else Some (i - 1))"
    "batchMutex m = (if calls m = 0 then None else Some (calls m - 1))"
  shows "mutex_inv m"
  using assms unfolding mutex_inv_def by blast

lemma mutex_invE:
  assumes "mutex_inv m"
  obtains k where "k \<le> calls m" "\<And>i. i < k \<Longrightarrow> status m i = Settled" "k < calls m \<Longrightarrow> status m k \<in> {Waiting, Running}"
    "\<And>i. k < i \<Longrightarrow> i < calls m \<Longrightarrow> status m i = Waiting"
    "activeBatch m = (if k = calls m then None else Some (calls m - 1))"
    "\<And>i. calls m \<le> i \<Longrightarrow> status m i = Unborn"
    "\<And>i. i < calls m \<Longrightarrow> chainedOn m i = (if i = 0 then None else Some (i - 1))"
    "batchMutex m = (if calls m = 0 then None else Some (calls m - 1))"
  using assms unfolding mutex_inv_def by blast

lemma only_front_runs:
  assumes "mutex_inv m" and "status m j = Running"
  shows "j < calls m \<and> (\<forall>i < j. status m i = Settled) \<and> (\<forall>i. j < i \<and> i < calls m \<longrightarrow> status m i = Waiting)"
  using assms(1)
proof (rule mutex_invE)
  fix k
  assume k: "k \<le> calls m" "\<And>i. i < k \<Longrightarrow> status m i = Settled" "\<And>i. k < i \<Longrightarrow> i < calls m \<Longrightarrow> status m i = Waiting"
    "\<And>i. calls m \<le> i \<Longrightarrow> status m i = Unborn"
  have "j < calls m" using k(4) [of j] assms(2) by (cases "calls m \<le> j") auto
  moreover have "j = k" using k(2) [of j] k(3) [of j] assms(2) calculation by (cases j k rule: linorder_cases) auto
  ultimately show ?thesis using k by auto
qed

lemma begin_is_front:
  assumes "mutex_inv m" and "mayBegin m j"
  shows "j < calls m \<and> (\<forall>i < j. status m i = Settled)"
  using assms(1)
proof (rule mutex_invE)
  fix k
  assume k: "k \<le> calls m" "\<And>i. i < k \<Longrightarrow> status m i = Settled" "k < calls m \<Longrightarrow> status m k \<in> {Waiting, Running}"
    "\<And>i. k < i \<Longrightarrow> i < calls m \<Longrightarrow> status m i = Waiting" "\<And>i. calls m \<le> i \<Longrightarrow> status m i = Unborn"
    and ch: "\<And>i. i < calls m \<Longrightarrow> chainedOn m i = (if i = 0 then None else Some (i - 1))"
  have j: "status m j = Waiting" using assms(2) by (simp add: mayBegin_def)
  then have "j < calls m" using k(5) [of j] by (cases "calls m \<le> j") auto
  moreover have "j \<le> k"
  proof (rule ccontr)
    assume "\<not> j \<le> k"
    then have "status m (j - 1) \<noteq> Settled"
      using k(3) k(4) [of "j - 1"] \<open>j < calls m\<close> by (cases "j - 1 = k") auto
    moreover have "status m (j - 1) = Settled"
      using assms(2) ch [OF \<open>j < calls m\<close>] \<open>\<not> j \<le> k\<close> by (auto simp: mayBegin_def)
    ultimately show False by simp
  qed
  ultimately show ?thesis using k(2) by auto
qed

lemma inv_init: "mutex_inv initMutex"
  by (simp add: mutex_inv_def initMutex_def)

lemma inv_call: "mutex_inv m \<Longrightarrow> mutex_inv (runExclusive m)"
  by (erule mutex_invE, rule_tac k = k in mutex_invI)
    (auto simp: runExclusive_def Let_def less_Suc_eq)

lemma inv_begin:
  assumes "mutex_inv m" and "mayBegin m j"
  shows "mutex_inv (beginBatch j m)"
  using assms(1)
proof (rule mutex_invE)
  fix k
  assume k: "k \<le> calls m" "\<And>i. i < k \<Longrightarrow> status m i = Settled" "k < calls m \<Longrightarrow> status m k \<in> {Waiting, Running}"
    "\<And>i. k < i \<Longrightarrow> i < calls m \<Longrightarrow> status m i = Waiting"
    "activeBatch m = (if k = calls m then None else Some (calls m - 1))"
    "\<And>i. calls m \<le> i \<Longrightarrow> status m i = Unborn"
    "\<And>i. i < calls m \<Longrightarrow> chainedOn m i = (if i = 0 then None else Some (i - 1))"
    "batchMutex m = (if calls m = 0 then None else Some (calls m - 1))"
  have j: "j < calls m" "\<forall>i < j. status m i = Settled" using begin_is_front [OF assms] by auto
  have w: "status m j = Waiting" using assms(2) by (simp add: mayBegin_def)
  have "j = k"
    using j w k(2) [of j] k(3) by (cases j k rule: linorder_cases) auto
  with k j show ?thesis by (intro mutex_invI [of k]) (auto simp: beginBatch_def)
qed

lemma inv_settle:
  assumes "mutex_inv m" and "status m j = Running"
  shows "mutex_inv (settleBatch j m)"
  using assms(1)
proof (rule mutex_invE)
  fix k
  assume k: "k \<le> calls m" "activeBatch m = (if k = calls m then None else Some (calls m - 1))"
    "\<And>i. i < k \<Longrightarrow> status m i = Settled" "\<And>i. k < i \<Longrightarrow> i < calls m \<Longrightarrow> status m i = Waiting"
    "\<And>i. calls m \<le> i \<Longrightarrow> status m i = Unborn"
    "\<And>i. i < calls m \<Longrightarrow> chainedOn m i = (if i = 0 then None else Some (i - 1))"
    "batchMutex m = (if calls m = 0 then None else Some (calls m - 1))"
  note front = only_front_runs [OF assms]
  have "j = k"
    using front k(3) [of j] k(4) [of j] assms(2) by (cases j k rule: linorder_cases) auto
  with k front show ?thesis
    by (intro mutex_invI [of "Suc k"]) (auto simp: settleBatch_def less_Suc_eq)
qed

lemma mutex_inv_reaches: "mutex_reaches initMutex m \<Longrightarrow> mutex_inv m"
  by (induction rule: rtranclp_induct)
    (auto simp: inv_init elim!: mutex_stepE intro: inv_call inv_begin inv_settle)

text \<open>C6. Batches never overlap and run in the order they were requested: in every reachable state at most
  one batch is running, and a batch that has started or settled has every earlier one
  settled before it.\<close>

theorem batches_exclusive:
  assumes "mutex_reaches initMutex m" and "status m j = Running \<or> status m j = Settled" and "i < j"
  shows "status m i = Settled"
  using mutex_inv_reaches [OF assms(1)]
proof (rule mutex_invE)
  fix k
  assume k: "\<And>i. i < k \<Longrightarrow> status m i = Settled" "\<And>i. k < i \<Longrightarrow> i < calls m \<Longrightarrow> status m i = Waiting"
    "\<And>i. calls m \<le> i \<Longrightarrow> status m i = Unborn"
  have "j \<le> k"
    using assms(2) k(2) [of j] k(3) [of j] by (cases "calls m \<le> j"; cases "k < j") auto
  with k(1) assms(3) show ?thesis by auto
qed

definition twoBatches :: mutex where
  "twoBatches = beginBatch 1 (settleBatch 0 (beginBatch 0 (runExclusive (runExclusive initMutex))))"

lemma twoBatches_reached: "mutex_reaches initMutex twoBatches"
proof -
  let ?c = "runExclusive (runExclusive initMutex)"
  have b: "mayBegin ?c 0" "status (beginBatch 0 ?c) 0 = Running" "mayBegin (settleBatch 0 (beginBatch 0 ?c)) 1"
    by (simp_all add: mayBegin_def runExclusive_def beginBatch_def settleBatch_def initMutex_def Let_def)
  have "mutex_reaches initMutex ?c"
    by (meson call converse_rtranclp_into_rtranclp rtranclp.rtrancl_refl)
  then show ?thesis
    unfolding twoBatches_def using b
    by (meson begin_batch settle rtranclp.rtrancl_into_rtrancl)
qed

theorem batches_exclusive_witness: "status twoBatches 1 = Running \<and> status twoBatches 0 = Settled"
proof -
  have "status twoBatches 1 = Running" by (simp add: twoBatches_def beginBatch_def)
  with batches_exclusive [OF twoBatches_reached, of 1 0] show ?thesis by simp
qed

text \<open>Draining is exact: \<open>waitForDrain\<close> returns at once (no active batch) precisely when every batch
  requested so far has settled, and while one has not, some batch can begin or is running,
  so the chain is never stuck behind a rejected batch.\<close>

theorem drain_exact:
  assumes "mutex_reaches initMutex m"
  shows "(activeBatch m = None \<longleftrightarrow> (\<forall>i < calls m. status m i = Settled))
    \<and> (activeBatch m \<noteq> None \<longleftrightarrow> (\<exists>j. mayBegin m j \<or> status m j = Running))"
proof -
  note inv = mutex_inv_reaches [OF assms]
  from inv obtain k where k: "k \<le> calls m" "\<And>i. i < k \<Longrightarrow> status m i = Settled" "k < calls m \<Longrightarrow> status m k \<in> {Waiting, Running}"
    "activeBatch m = (if k = calls m then None else Some (calls m - 1))"
    "\<And>i. i < calls m \<Longrightarrow> chainedOn m i = (if i = 0 then None else Some (i - 1))"
    by (rule mutex_invE) blast
  have ex: "mayBegin m k \<or> status m k = Running" if "k < calls m"
    using that k(2) [of "k - 1"] k(3,5) by (auto simp: mayBegin_def)
  have registered: "j < calls m" if "mayBegin m j \<or> status m j = Running" for j
    using that begin_is_front [OF inv] only_front_runs [OF inv] by blast
  have none: "\<not> (mayBegin m j \<or> status m j = Running)" if "k = calls m" for j
  proof
    assume h: "mayBegin m j \<or> status m j = Running"
    with registered [OF h] that k(2) [of j] show False by (auto simp: mayBegin_def)
  qed
  show ?thesis
  proof (cases "k = calls m")
    case True
    with k none show ?thesis by auto
  next
    case False
    with k ex show ?thesis by fastforce
  qed
qed

theorem drain_exact_witness: "activeBatch twoBatches \<noteq> None"
proof -
  have "status twoBatches 1 = Running" by (simp add: twoBatches_def beginBatch_def)
  then show ?thesis using drain_exact [OF twoBatches_reached] by blast
qed

end
