(* ===== verification/Sse_Service.thy ===== *)
theory Sse_Service
  imports Js_Values Metrics "HOL-Library.Sublist"
begin

text \<open>
  Server-sent events: the connection registry of \<open>backend/src/services/sse.service.ts\<close> with its
  limits, back-pressure and broadcasts. The registry is a JavaScript Map, kept in insertion
  order. What a response does with a write, and how much it has buffered, is an argument of
  every operation that writes (\<open>io\<close>). The log lines are left out.
\<close>

section \<open>State\<close>

definition MAX_WRITABLE_BUFFER :: nat where
  "MAX_WRITABLE_BUFFER = 64 * 1024"

definition MAX_CONNECTIONS_PER_IP :: nat where
  "MAX_CONNECTIONS_PER_IP = 5"

definition MAX_CONNECTIONS_PER_USER :: nat where
  "MAX_CONNECTIONS_PER_USER = 10"

definition RETRY_AFTER_SECONDS :: nat where
  "RETRY_AFTER_SECONDS = 60"

abbreviation LF :: string where
  "LF \<equiv> [CHR 0x0A]"

record SSEClient =
  cl_id :: string
  cl_subscriptions :: "string list"
  cl_paused :: bool
  cl_ip :: string
  cl_userId :: "string option"

text \<open>\<open>written\<close> are the messages handed to the responses, \<open>ended\<close> the responses that were closed.\<close>

record sse =
  clients :: "SSEClient list"
  ipConnectionCounts :: "string \<rightharpoonup> nat"
  userConnectionCounts :: "string \<rightharpoonup> nat"
  slowClientsDropped :: nat
  perIpPeakConnections :: nat
  perUserPeakConnections :: nat
  shuttingDown :: bool
  heartbeatOn :: bool
  maxConnections :: int
  sseGauges :: metrics
  sseConnectionsTotal :: nat
  sseClientsDroppedTotal :: "string \<Rightarrow> nat"
  written :: "(string \<times> string) list"
  ended :: "string list"

definition maxSseConnections :: "string option \<Rightarrow> int" where
  "maxSseConnections v =
     (case parseInt10 (case v of None \<Rightarrow> ''10000'' | Some s \<Rightarrow> s) of
        None \<Rightarrow> 10000
      | Some n \<Rightarrow> if n \<le> 0 then 10000 else n)"

definition newSse :: "string option \<Rightarrow> sse" where
  "newSse v =
     \<lparr>clients = [], ipConnectionCounts = Map.empty, userConnectionCounts = Map.empty, slowClientsDropped = 0,
      perIpPeakConnections = 0, perUserPeakConnections = 0, shuttingDown = False, heartbeatOn = False,
      maxConnections = maxSseConnections v, sseGauges = initMetrics, sseConnectionsTotal = 0,
      sseClientsDroppedTotal = (\<lambda>_. 0), written = [], ended = []\<rparr>"

text \<open>A write succeeds, asks for back-pressure, or throws; \<open>writableLength\<close> is what is buffered.\<close>

datatype write_result = WriteOk | WriteFull | WriteThrows

record io =
  io_write :: "string \<Rightarrow> write_result"
  writableLength :: "string \<Rightarrow> nat"

section \<open>Registry\<close>

definition countOf :: "(string \<rightharpoonup> nat) \<Rightarrow> string \<Rightarrow> nat" where
  "countOf m k = (case m k of None \<Rightarrow> 0 | Some n \<Rightarrow> n)"

record SSECapacityCheckResult =
  cap_allowed :: bool
  cap_status :: "int option"
  cap_retryAfterSeconds :: "nat option"

text \<open>An empty or missing user id is falsy.\<close>

definition userKey :: "string option \<Rightarrow> string option" where
  "userKey u = (case u of Some s \<Rightarrow> if s = [] then None else Some s | None \<Rightarrow> None)"

definition checkCapacity :: "string \<Rightarrow> string option \<Rightarrow> sse \<Rightarrow> SSECapacityCheckResult \<times> sse" where
  "checkCapacity ip userId s =
     (if maxConnections s \<le> int (length (clients s))
      then (\<lparr>cap_allowed = False, cap_status = Some 503, cap_retryAfterSeconds = None\<rparr>,
            s\<lparr>sseClientsDroppedTotal := incLabel ''capacity'' (sseClientsDroppedTotal s)\<rparr>)
      else if MAX_CONNECTIONS_PER_IP \<le> countOf (ipConnectionCounts s) ip
      then (\<lparr>cap_allowed = False, cap_status = Some 429, cap_retryAfterSeconds = Some RETRY_AFTER_SECONDS\<rparr>,
            s\<lparr>sseClientsDroppedTotal := incLabel ''per_ip_limit'' (sseClientsDroppedTotal s)\<rparr>)
      else if (case userKey userId of Some u \<Rightarrow> MAX_CONNECTIONS_PER_USER \<le> countOf (userConnectionCounts s) u | None \<Rightarrow> False)
      then (\<lparr>cap_allowed = False, cap_status = Some 429, cap_retryAfterSeconds = Some RETRY_AFTER_SECONDS\<rparr>, s)
      else (\<lparr>cap_allowed = True, cap_status = None, cap_retryAfterSeconds = None\<rparr>, s))"

fun tally :: "string list \<Rightarrow> (string \<times> nat) list \<Rightarrow> (string \<times> nat) list" where
  "tally [] acc = acc"
| "tally (t # ts) acc =
     tally ts (case map_of acc t of
       None \<Rightarrow> acc @ [(t, 1)]
     | Some n \<Rightarrow> map (\<lambda>(k, v). if k = t then (k, n + 1) else (k, v)) acc)"

definition publishConnectionMetrics :: "sse \<Rightarrow> sse" where
  "publishConnectionMetrics s =
     s\<lparr>sseGauges := setSseConnectionCounts (tally (concat (map cl_subscriptions (clients s))) []) (length (clients s)) (sseGauges s)\<rparr>"

text \<open>\<open>Map.set\<close>: a key that is there keeps its place.\<close>

definition mapSet :: "SSEClient \<Rightarrow> SSEClient list \<Rightarrow> SSEClient list" where
  "mapSet c cs = (if cl_id c \<in> cl_id ` set cs then map (\<lambda>x. if cl_id x = cl_id c then c else x) cs else cs @ [c])"

text \<open>\<open>new Set(xs)\<close> keeps the first occurrence of every element.\<close>

definition jsSet :: "string list \<Rightarrow> string list" where
  "jsSet xs = rev (remdups (rev xs))"

lemma jsSet_simps [simp]: "set (jsSet xs) = set xs" "distinct (jsSet xs)"
  by (simp_all add: jsSet_def)

definition addClient :: "string \<Rightarrow> string list \<Rightarrow> string \<Rightarrow> string option \<Rightarrow> sse \<Rightarrow> sse" where
  "addClient clientId subscriptions ip userId s =
     (let nextIp = countOf (ipConnectionCounts s) ip + 1;
          s1 = s\<lparr>ipConnectionCounts := (ipConnectionCounts s)(ip \<mapsto> nextIp),
                 perIpPeakConnections := max (perIpPeakConnections s) nextIp\<rparr>;
          s2 = (case userKey userId of
                  None \<Rightarrow> s1
                | Some u \<Rightarrow>
                    (let nextUser = countOf (userConnectionCounts s1) u + 1
                     in s1\<lparr>userConnectionCounts := (userConnectionCounts s1)(u \<mapsto> nextUser),
                           perUserPeakConnections := max (perUserPeakConnections s1) nextUser\<rparr>));
          client = \<lparr>cl_id = clientId, cl_subscriptions = jsSet subscriptions, cl_paused = False, cl_ip = ip, cl_userId = userId\<rparr>
      in publishConnectionMetrics
           (s2\<lparr>clients := mapSet client (clients s2), sseConnectionsTotal := sseConnectionsTotal s2 + 1, heartbeatOn := True\<rparr>))"

definition decrement :: "string \<Rightarrow> (string \<rightharpoonup> nat) \<Rightarrow> (string \<rightharpoonup> nat)" where
  "decrement k m = (if countOf m k \<le> 1 then m(k := None) else m(k \<mapsto> countOf m k - 1))"

definition removeClient :: "string \<Rightarrow> sse \<Rightarrow> sse" where
  "removeClient clientId s =
     (case find (\<lambda>c. cl_id c = clientId) (clients s) of
        None \<Rightarrow> s
      | Some client \<Rightarrow>
          (let s1 = publishConnectionMetrics (s\<lparr>clients := filter (\<lambda>c. cl_id c \<noteq> clientId) (clients s)\<rparr>);
               s2 = s1\<lparr>ipConnectionCounts := decrement (cl_ip client) (ipConnectionCounts s1)\<rparr>;
               s3 = (case userKey (cl_userId client) of
                       None \<Rightarrow> s2
                     | Some u \<Rightarrow> s2\<lparr>userConnectionCounts := decrement u (userConnectionCounts s2)\<rparr>)
           in s3\<lparr>ended := ended s3 @ [clientId]\<rparr>))"

definition dropSlowClient :: "string \<Rightarrow> sse \<Rightarrow> sse" where
  "dropSlowClient clientId s =
     removeClient clientId
       (s\<lparr>slowClientsDropped := slowClientsDropped s + 1,
          sseClientsDroppedTotal := incLabel ''slow_client'' (sseClientsDroppedTotal s)\<rparr>)"

definition setPaused :: "bool \<Rightarrow> string \<Rightarrow> sse \<Rightarrow> sse" where
  "setPaused b clientId s = s\<lparr>clients := map (\<lambda>c. if cl_id c = clientId then c\<lparr>cl_paused := b\<rparr> else c) (clients s)\<rparr>"

definition stopHeartbeat :: "sse \<Rightarrow> sse" where
  "stopHeartbeat s = s\<lparr>heartbeatOn := False\<rparr>"

section \<open>Writing\<close>

definition writeToClient :: "io \<Rightarrow> string \<Rightarrow> SSEClient \<Rightarrow> sse \<Rightarrow> sse" where
  "writeToClient W message client s =
     (let i = cl_id client in
      if cl_paused client
      then (if MAX_WRITABLE_BUFFER \<le> writableLength W i then dropSlowClient i s else s)
      else case io_write W i of
        WriteOk \<Rightarrow> s\<lparr>written := written s @ [(i, message)]\<rparr>
      | WriteFull \<Rightarrow>
          (let s1 = setPaused True i (s\<lparr>written := written s @ [(i, message)]\<rparr>)
           in if MAX_WRITABLE_BUFFER \<le> writableLength W i then dropSlowClient i s1 else s1)
      | WriteThrows \<Rightarrow> removeClient i s)"

text \<open>The loop over the live Map: a client can only remove itself while it is visited.\<close>

definition sendHeartbeat :: "io \<Rightarrow> sse \<Rightarrow> sse" where
  "sendHeartbeat W s = fold (writeToClient W ('': heartbeat'' @ LF @ LF)) (clients s) s"

definition sendReconnectToAll :: "io \<Rightarrow> sse \<Rightarrow> sse" where
  "sendReconnectToAll W s =
     s\<lparr>shuttingDown := True,
       written := written s @ map (\<lambda>c. (cl_id c, ''event: reconnect'' @ LF @ ''data: {}'' @ LF @ LF)) (filter (\<lambda>c. io_write W (cl_id c) \<noteq> WriteThrows) (clients s))\<rparr>"

definition broadcast :: "io \<Rightarrow> string \<Rightarrow> (SSEClient \<Rightarrow> bool) \<Rightarrow> sse \<Rightarrow> sse" where
  "broadcast W message keep s = fold (writeToClient W message) (filter keep (clients s)) s"

definition sseMessage :: "string \<Rightarrow> json \<Rightarrow> string" where
  "sseMessage event d =
     ''event: '' @ event @ LF @ ''data: '' @ JSON_stringify d @ LF @ LF"

definition wantsStream :: "string \<Rightarrow> SSEClient \<Rightarrow> bool" where
  "wantsStream streamId client = (streamId \<in> set (cl_subscriptions client) \<or> ''*'' \<in> set (cl_subscriptions client))"

definition wantsUser :: "string \<Rightarrow> SSEClient \<Rightarrow> bool" where
  "wantsUser publicKey client = (''user:'' @ publicKey \<in> set (cl_subscriptions client) \<or> ''*'' \<in> set (cl_subscriptions client))"

definition localBroadcastToStream :: "io \<Rightarrow> string \<Rightarrow> string \<Rightarrow> json \<Rightarrow> sse \<Rightarrow> sse" where
  "localBroadcastToStream W streamId event d s = broadcast W (sseMessage event d) (wantsStream streamId) s"

definition localBroadcastToUser :: "io \<Rightarrow> string \<Rightarrow> string \<Rightarrow> json \<Rightarrow> sse \<Rightarrow> sse" where
  "localBroadcastToUser W publicKey event d s = broadcast W (sseMessage event d) (wantsUser publicKey) s"

text \<open>
  With Redis the message is published instead (the second component), and every instance
  writes it to its own clients when it arrives.
\<close>

definition broadcastToStream ::
  "bool \<Rightarrow> io \<Rightarrow> string \<Rightarrow> string \<Rightarrow> json \<Rightarrow> sse \<Rightarrow> sse \<times> (string \<times> string \<times> json) list" where
  "broadcastToStream redis W streamId event d s =
     (if redis then (s, [(''sse:stream:'' @ streamId, event, d)]) else (localBroadcastToStream W streamId event d s, []))"

definition broadcastToUser ::
  "bool \<Rightarrow> io \<Rightarrow> string \<Rightarrow> string \<Rightarrow> json \<Rightarrow> sse \<Rightarrow> sse \<times> (string \<times> string \<times> json) list" where
  "broadcastToUser redis W publicKey event d s =
     (if redis then (s, [(''sse:user:'' @ publicKey, event, d)]) else (localBroadcastToUser W publicKey event d s, []))"

definition broadcastToAdmin ::
  "string option \<Rightarrow> bool \<Rightarrow> io \<Rightarrow> string \<Rightarrow> json \<Rightarrow> sse \<Rightarrow> sse \<times> (string \<times> string \<times> json) list" where
  "broadcastToAdmin adminKey redis W event d s =
     (case userKey adminKey of None \<Rightarrow> (s, []) | Some k \<Rightarrow> broadcastToUser redis W k event d s)"

definition onPubSubMessage :: "io \<Rightarrow> string \<times> string \<times> json \<Rightarrow> sse \<Rightarrow> sse" where
  "onPubSubMessage W msg s =
     (case msg of (channel, event, d) \<Rightarrow>
        if startsWith channel ''sse:stream:'' then localBroadcastToStream W (drop (length ''sse:stream:'') channel) event d s
        else if startsWith channel ''sse:user:'' then localBroadcastToUser W (drop (length ''sse:user:'') channel) event d s
        else s)"

section \<open>What is delivered\<close>

text \<open>Only the registry operations touch the clients; none of them touches the messages.\<close>

lemma removeClient_written [simp]: "written (removeClient i s) = written s"
  by (simp add: removeClient_def publishConnectionMetrics_def Let_def split: option.split)

lemma dropSlowClient_written [simp]: "written (dropSlowClient i s) = written s"
  by (simp add: dropSlowClient_def)

definition receives :: "io \<Rightarrow> SSEClient \<Rightarrow> bool" where
  "receives W c = (\<not> cl_paused c \<and> io_write W (cl_id c) \<noteq> WriteThrows)"

lemma writeToClient_written:
  "written (writeToClient W msg c s) = written s @ (if receives W c then [(cl_id c, msg)] else [])"
  by (simp add: writeToClient_def receives_def setPaused_def Let_def split: write_result.split)

lemma fold_writeToClient_written:
  "written (fold (writeToClient W msg) cs s) = written s @ map (\<lambda>c. (cl_id c, msg)) (filter (receives W) cs)"
  by (induction cs arbitrary: s) (simp_all add: writeToClient_written)

lemma stream_broadcast_delivery:
  "written (localBroadcastToStream W sid event d s) =
   written s @ map (\<lambda>c. (cl_id c, sseMessage event d)) (filter (\<lambda>c. wantsStream sid c \<and> receives W c) (clients s))"
  by (simp add: localBroadcastToStream_def broadcast_def fold_writeToClient_written conj_commute)

text \<open>A stream event is written, once and in order of connection, to exactly the clients that
  subscribe to the stream (or to everything), are not paused and whose connection takes it.
\<close>
theorem broadcast_delivery:
  "written (localBroadcastToStream W sid event d s) =
   written s @ map (\<lambda>c. (cl_id c, sseMessage event d))
     (filter (\<lambda>c. wantsStream sid c \<and> \<not> cl_paused c \<and> io_write W (cl_id c) \<noteq> WriteThrows) (clients s))"
  by (simp add: stream_broadcast_delivery receives_def)

lemma user_broadcast_delivery:
  "written (localBroadcastToUser W k event d s) =
   written s @ map (\<lambda>c. (cl_id c, sseMessage event d)) (filter (\<lambda>c. wantsUser k c \<and> receives W c) (clients s))"
  by (simp add: localBroadcastToUser_def broadcast_def fold_writeToClient_written conj_commute)

text \<open>Going through Redis makes no difference to one instance.\<close>

lemma pubsub_roundtrip:
  assumes "broadcastToStream True W sid event d s = (s1, [m])"
  shows "onPubSubMessage W m s1 = fst (broadcastToStream False W sid event d s)"
  using assms by (auto simp: broadcastToStream_def onPubSubMessage_def startsWith_def)

lemma pubsub_user_roundtrip:
  assumes "broadcastToUser True W k event d s = (s1, [m])"
  shows "onPubSubMessage W m s1 = fst (broadcastToUser False W k event d s)"
  using assms by (auto simp: broadcastToUser_def onPubSubMessage_def startsWith_def)

section \<open>The counters are exact\<close>

definition livePerIp :: "SSEClient list \<Rightarrow> string \<Rightarrow> nat" where
  "livePerIp cs ip = length (filter (\<lambda>c. cl_ip c = ip) cs)"

definition livePerUser :: "SSEClient list \<Rightarrow> string \<Rightarrow> nat" where
  "livePerUser cs u = length (filter (\<lambda>c. userKey (cl_userId c) = Some u) cs)"

definition livePerTopic :: "SSEClient list \<Rightarrow> string \<Rightarrow> nat" where
  "livePerTopic cs t = length (filter (\<lambda>c. t \<in> set (cl_subscriptions c)) cs)"

definition counts :: "(string \<Rightarrow> nat) \<Rightarrow> string \<rightharpoonup> nat" where
  "counts f k = (if f k = 0 then None else Some (f k))"

definition gaugesExact :: "sse \<Rightarrow> bool" where
  "gaugesExact s =
     (sseActiveConnections (sseGauges s) = (counts (livePerTopic (clients s)))(TOTAL_SSE_TOPIC \<mapsto> length (clients s)) \<or>
      (clients s = [] \<and> sseActiveConnections (sseGauges s) = Map.empty))"

definition sse_inv :: "sse \<Rightarrow> bool" where
  "sse_inv s =
     (distinct (map cl_id (clients s)) \<and> list_all (\<lambda>c. distinct (cl_subscriptions c)) (clients s) \<and>
      ipConnectionCounts s = counts (livePerIp (clients s)) \<and>
      userConnectionCounts s = counts (livePerUser (clients s)) \<and> gaugesExact s)"

lemma countOf_counts [simp]: "countOf (counts f) k = f k"
  by (simp add: countOf_def counts_def)

lemma counts_inc: "(counts f)(k \<mapsto> f k + 1) = counts (f(k := f k + 1))"
  by (auto simp: counts_def)

lemma decrement_counts: "0 < f k \<Longrightarrow> decrement k (counts f) = counts (f(k := f k - 1))"
  by (auto simp: decrement_def counts_def fun_eq_iff countOf_def)

text \<open>The tally of the topics of all clients.\<close>

lemma map_of_bump:
  "map_of (map (\<lambda>(k, v). if k = t then (k, n) else (k, v)) acc) x =
   (if x = t \<and> map_of acc t \<noteq> None then Some n else map_of acc x)"
  by (induction acc) auto

lemma tally_counts:
  "map_of acc = counts f \<Longrightarrow> map_of (tally ts acc) = counts (\<lambda>t. f t + count_list ts t)"
proof (induction ts arbitrary: acc f)
  case Nil
  then show ?case by simp
next
  case (Cons t ts)
  let ?acc = "case map_of acc t of None \<Rightarrow> acc @ [(t, 1)]
              | Some n \<Rightarrow> map (\<lambda>(k, v). if k = t then (k, n + 1) else (k, v)) acc"
  have "map_of ?acc = counts (f(t := f t + 1))"
    using Cons.prems by (auto simp: fun_eq_iff counts_def map_of_bump map_add_def split: option.split if_splits)
  from Cons.IH [OF this] show ?case
    by (simp add: fun_eq_iff counts_def)
qed

lemma fst_bump: "map fst (map (\<lambda>(k, v). if k = t then (k, n) else (k, v)) acc) = map fst acc"
  by (induction acc) auto

lemma tally_distinct: "distinct (map fst acc) \<Longrightarrow> distinct (map fst (tally ts acc))"
proof (induction ts arbitrary: acc)
  case (Cons t ts)
  show ?case
  proof (cases "map_of acc t")
    case None
    then have "t \<notin> fst ` set acc" by (simp add: map_of_eq_None_iff)
    with Cons None show ?thesis by simp
  next
    case (Some n)
    with Cons show ?thesis by (simp add: fst_bump del: map_map)
  qed
qed simp

lemma foldl_updates:
  "distinct (map fst kvs) \<Longrightarrow> foldl (\<lambda>g (k, n). g(k \<mapsto> n)) g0 kvs = g0 ++ map_of kvs"
proof (induction kvs arbitrary: g0)
  case (Cons kv kvs)
  obtain k v where kv: "kv = (k, v)" by force
  with Cons.prems have k: "map_of kvs k = None" by (simp add: map_of_eq_None_iff)
  from Cons show ?case
    by (auto simp: kv fun_eq_iff map_add_def k split: option.split)
qed simp

lemma count_list_distinct: "distinct xs \<Longrightarrow> count_list xs t = (if t \<in> set xs then 1 else 0)"
  by (induction xs) auto

lemma count_topics:
  "list_all (\<lambda>c. distinct (cl_subscriptions c)) cs \<Longrightarrow>
   count_list (concat (map cl_subscriptions cs)) t = livePerTopic cs t"
  by (induction cs) (auto simp: livePerTopic_def count_list_append count_list_distinct)

lemma publish_exact:
  assumes "list_all (\<lambda>c. distinct (cl_subscriptions c)) (clients s)"
  shows "gaugesExact (publishConnectionMetrics s)"
proof -
  let ?ts = "tally (concat (map cl_subscriptions (clients s))) []"
  have "map_of ?ts = counts (livePerTopic (clients s))"
    using tally_counts [of "[]" "\<lambda>_. 0" "concat (map cl_subscriptions (clients s))"] count_topics [OF assms]
    by (simp add: counts_def fun_eq_iff)
  moreover have "distinct (map fst ?ts)" by (rule tally_distinct) simp
  ultimately show ?thesis
    by (simp add: gaugesExact_def publishConnectionMetrics_def setSseConnectionCounts_def foldl_updates)
qed

lemma publish_frame [simp]:
  "clients (publishConnectionMetrics s) = clients s"
  "ipConnectionCounts (publishConnectionMetrics s) = ipConnectionCounts s"
  "userConnectionCounts (publishConnectionMetrics s) = userConnectionCounts s"
  by (simp_all add: publishConnectionMetrics_def)

lemma gaugesExact_cong:
  "clients s' = clients s \<Longrightarrow> sseGauges s' = sseGauges s \<Longrightarrow> gaugesExact s' = gaugesExact s"
  by (simp add: gaugesExact_def)

text \<open>Connecting and disconnecting.\<close>

lemma addClient_fields:
  assumes "cid \<notin> cl_id ` set (clients s)"
  shows "clients (addClient cid subs ip u s) =
         clients s @ [\<lparr>cl_id = cid, cl_subscriptions = jsSet subs, cl_paused = False, cl_ip = ip, cl_userId = u\<rparr>]"
    and "ipConnectionCounts (addClient cid subs ip u s) = (ipConnectionCounts s)(ip \<mapsto> countOf (ipConnectionCounts s) ip + 1)"
    and "userConnectionCounts (addClient cid subs ip u s) =
         (case userKey u of None \<Rightarrow> userConnectionCounts s
          | Some k \<Rightarrow> (userConnectionCounts s)(k \<mapsto> countOf (userConnectionCounts s) k + 1))"
  using assms by (simp_all add: addClient_def Let_def mapSet_def split: option.split)

lemma addClient_gauges:
  assumes "cid \<notin> cl_id ` set (clients s)" "list_all (\<lambda>c. distinct (cl_subscriptions c)) (clients s)"
  shows "gaugesExact (addClient cid subs ip u s)"
  unfolding addClient_def Let_def using assms
  by (intro publish_exact) (simp add: mapSet_def split: option.split)

lemma addClient_inv:
  assumes "sse_inv s" and new: "cid \<notin> cl_id ` set (clients s)"
  shows "sse_inv (addClient cid subs ip u s)"
proof -
  let ?c = "\<lparr>cl_id = cid, cl_subscriptions = jsSet subs, cl_paused = False, cl_ip = ip, cl_userId = u\<rparr>"
  have ip: "livePerIp (clients s @ [?c]) = (livePerIp (clients s))(ip := livePerIp (clients s) ip + 1)"
    by (auto simp: livePerIp_def fun_eq_iff)
  have user: "livePerUser (clients s @ [?c]) =
      (case userKey u of None \<Rightarrow> livePerUser (clients s) | Some k \<Rightarrow> (livePerUser (clients s))(k := livePerUser (clients s) k + 1))"
    by (auto simp: livePerUser_def fun_eq_iff split: option.split)
  show ?thesis
    using assms addClient_gauges [OF new, of subs ip u]
    by (auto simp: sse_inv_def addClient_fields ip user counts_inc [simplified] split: option.split)
qed

lemma live_without:
  assumes "distinct (map cl_id cs)" "c \<in> set cs"
  shows "length (filter P (filter (\<lambda>x. cl_id x \<noteq> cl_id c) cs)) = length (filter P cs) - (if P c then 1 else 0)"
    and "P c \<Longrightarrow> 0 < length (filter P cs)"
proof -
  from assms(2) obtain xs ys where cs: "cs = xs @ c # ys" by (meson split_list)
  with assms(1) have "filter (\<lambda>x. cl_id x \<noteq> cl_id c) xs = xs" "filter (\<lambda>x. cl_id x \<noteq> cl_id c) ys = ys"
    by (auto simp: filter_id_conv image_iff)
  then show "length (filter P (filter (\<lambda>x. cl_id x \<noteq> cl_id c) cs)) = length (filter P cs) - (if P c then 1 else 0)"
    by (simp add: cs del: filter_filter)
  show "P c \<Longrightarrow> 0 < length (filter P cs)" by (simp add: cs)
qed

lemma removeClient_fields:
  assumes "find (\<lambda>c. cl_id c = cid) (clients s) = Some c"
  shows "clients (removeClient cid s) = filter (\<lambda>x. cl_id x \<noteq> cid) (clients s)"
    and "ipConnectionCounts (removeClient cid s) = decrement (cl_ip c) (ipConnectionCounts s)"
    and "userConnectionCounts (removeClient cid s) =
         (case userKey (cl_userId c) of None \<Rightarrow> userConnectionCounts s | Some k \<Rightarrow> decrement k (userConnectionCounts s))"
    and "sseGauges (removeClient cid s) = sseGauges (publishConnectionMetrics (s\<lparr>clients := filter (\<lambda>x. cl_id x \<noteq> cid) (clients s)\<rparr>))"
  using assms by (simp_all add: removeClient_def Let_def split: option.split)

lemma removeClient_inv:
  assumes inv: "sse_inv s"
  shows "sse_inv (removeClient cid s)"
proof (cases "find (\<lambda>c. cl_id c = cid) (clients s)")
  case None
  then show ?thesis using inv by (simp add: removeClient_def)
next
  case (Some c)
  then have c: "c \<in> set (clients s)" "cid = cl_id c" by (auto simp: find_Some_iff)
  let ?cs = "filter (\<lambda>x. cl_id x \<noteq> cl_id c) (clients s)"
  from inv have d: "distinct (map cl_id (clients s))" and a: "list_all (\<lambda>c. distinct (cl_subscriptions c)) (clients s)"
    by (simp_all add: sse_inv_def)
  note gone = live_without [OF d c(1)]
  have ip: "livePerIp ?cs = (livePerIp (clients s))(cl_ip c := livePerIp (clients s) (cl_ip c) - 1)" "0 < livePerIp (clients s) (cl_ip c)"
    using gone(2) [of "\<lambda>x. cl_ip x = cl_ip c"] by (simp_all add: fun_eq_iff livePerIp_def gone(1) del: filter_filter)
  have user: "livePerUser ?cs = (livePerUser (clients s))(k := livePerUser (clients s) k - 1)" "0 < livePerUser (clients s) k"
    if "userKey (cl_userId c) = Some k" for k
    using that gone(2) [of "\<lambda>x. userKey (cl_userId x) = Some k"]
    by (simp_all add: fun_eq_iff livePerUser_def gone(1) del: filter_filter)
  have nouser: "livePerUser ?cs = livePerUser (clients s)" if "userKey (cl_userId c) = None"
    using that by (simp add: fun_eq_iff livePerUser_def gone(1) del: filter_filter)
  have g: "gaugesExact (removeClient cid s)"
    using publish_exact [of "s\<lparr>clients := ?cs\<rparr>"] a removeClient_fields(1,4) [OF Some]
    by (subst gaugesExact_cong) (auto simp: c(2) list_all_iff)
  show ?thesis
    using inv g user nouser ip
    by (auto simp: sse_inv_def removeClient_fields [OF Some, unfolded c(2)] c(2) decrement_counts distinct_map_filter list_all_iff split: option.split)
qed

lemma sse_inv_frame:
  "clients s' = clients s \<Longrightarrow> ipConnectionCounts s' = ipConnectionCounts s \<Longrightarrow>
   userConnectionCounts s' = userConnectionCounts s \<Longrightarrow> sseGauges s' = sseGauges s \<Longrightarrow> sse_inv s' = sse_inv s"
  by (simp add: sse_inv_def gaugesExact_def)

lemma dropSlowClient_inv: "sse_inv s \<Longrightarrow> sse_inv (dropSlowClient i s)"
  unfolding dropSlowClient_def by (rule removeClient_inv) (subst sse_inv_frame [of _ s], simp_all)

lemma setPaused_live:
  fixes cs :: "SSEClient list" and i :: string and b :: bool
  defines "f \<equiv> \<lambda>c. if cl_id c = i then c\<lparr>cl_paused := b\<rparr> else c"
  shows "livePerIp (map f cs) = livePerIp cs" "livePerUser (map f cs) = livePerUser cs"
    "livePerTopic (map f cs) = livePerTopic cs" "map cl_id (map f cs) = map cl_id cs"
    "map cl_subscriptions (map f cs) = map cl_subscriptions cs"
  unfolding f_def livePerIp_def livePerUser_def livePerTopic_def
  by (induction cs) (auto simp: fun_eq_iff)

lemma distinct_topics_map:
  "list_all (\<lambda>c. distinct (cl_subscriptions c)) cs = list_all distinct (map cl_subscriptions cs)"
  by (simp add: list_all_iff)

lemma setPaused_inv: "sse_inv s \<Longrightarrow> sse_inv (setPaused b i s)"
  by (simp add: sse_inv_def setPaused_def gaugesExact_def distinct_topics_map setPaused_live del: map_map)

lemma written_inv: "sse_inv (s\<lparr>written := m\<rparr>) = sse_inv s"
  by (rule sse_inv_frame) simp_all

lemma writeToClient_inv: "sse_inv s \<Longrightarrow> sse_inv (writeToClient W msg c s)"
  by (simp add: writeToClient_def Let_def dropSlowClient_inv removeClient_inv setPaused_inv written_inv
        split: write_result.split)

lemma fold_writeToClient_inv: "sse_inv s \<Longrightarrow> sse_inv (fold (writeToClient W msg) cs s)"
  by (induction cs arbitrary: s) (simp_all add: writeToClient_inv)

lemma newSse_inv: "sse_inv (newSse v)"
  by (simp add: sse_inv_def newSse_def gaugesExact_def livePerIp_def livePerUser_def counts_def initMetrics_def fun_eq_iff)

section \<open>Writing only removes clients\<close>

text \<open>What is fixed for the life of a connection.\<close>

definition static :: "SSEClient \<Rightarrow> string \<times> string \<times> string option \<times> string list" where
  "static c = (cl_id c, cl_ip c, cl_userId c, cl_subscriptions c)"

definition kept :: "sse \<Rightarrow> sse \<Rightarrow> bool" where
  "kept s s' = (subseq (map static (clients s')) (map static (clients s)) \<and> maxConnections s' = maxConnections s)"

lemma kept_refl [simp]: "kept s s"
  by (simp add: kept_def)

lemma kept_trans: "kept s s' \<Longrightarrow> kept s' s'' \<Longrightarrow> kept s s''"
  by (auto simp: kept_def intro: subseq_order.trans)

lemma kept_frame: "clients s' = clients s \<Longrightarrow> maxConnections s' = maxConnections s \<Longrightarrow> kept s s'"
  by (simp add: kept_def)

lemma removeClient_kept [simp]: "kept s (removeClient i s)"
  by (auto simp: kept_def removeClient_def publishConnectionMetrics_def Let_def subseq_map split: option.split)

lemma dropSlowClient_kept [simp]: "kept s (dropSlowClient i s)"
  unfolding dropSlowClient_def by (rule kept_trans [OF kept_frame removeClient_kept]) simp_all

lemma static_paused: "static (if P then c\<lparr>cl_paused := b\<rparr> else c) = static c"
  by (simp add: static_def)

lemma setPaused_kept [simp]: "kept s (setPaused b i s)"
  by (simp add: kept_def setPaused_def comp_def static_paused)

lemma writeToClient_kept: "kept s (writeToClient W msg c s)"
proof -
  have paused: "kept s (setPaused True (cl_id c) (s\<lparr>written := m\<rparr>))" for m
    by (rule kept_trans [OF kept_frame setPaused_kept]) simp_all
  show ?thesis
    by (auto simp: writeToClient_def Let_def paused kept_frame intro: kept_trans [OF paused dropSlowClient_kept]
          split: write_result.split)
qed

lemma fold_writeToClient_kept: "kept s (fold (writeToClient W msg) cs s)"
  by (induction cs arbitrary: s) (auto intro: kept_trans [OF writeToClient_kept])

lemma kept_live:
  assumes "kept s s'"
  shows "livePerIp (clients s') ip \<le> livePerIp (clients s) ip"
    and "livePerUser (clients s') u \<le> livePerUser (clients s) u"
    and "length (clients s') \<le> length (clients s)"
    and "static ` set (clients s') \<subseteq> static ` set (clients s)"
proof -
  have sub: "subseq (map static (clients s')) (map static (clients s))"
    using assms by (simp add: kept_def)
  have through: "length (filter (P \<circ> static) cs) = length (filter P (map static cs))" for P cs
    by (simp add: filter_map)
  have le: "length (filter (P \<circ> static) (clients s')) \<le> length (filter (P \<circ> static) (clients s))" for P
    unfolding through by (rule list_emb_length [OF subseq_filter [OF sub]])
  show "livePerIp (clients s') ip \<le> livePerIp (clients s) ip"
    using le [of "\<lambda>(i, a, v, t). a = ip"] by (simp add: livePerIp_def comp_def static_def)
  show "livePerUser (clients s') u \<le> livePerUser (clients s) u"
    using le [of "\<lambda>(i, a, v, t). userKey v = Some u"] by (simp add: livePerUser_def comp_def static_def)
  show "length (clients s') \<le> length (clients s)"
    using list_emb_length [OF sub] by simp
  show "static ` set (clients s') \<subseteq> static ` set (clients s)"
    using list_emb_set [OF sub] by (metis (no_types, lifting) image_set subsetI)
qed

lemma addClient_max [simp]: "maxConnections (addClient cid subs ip u s) = maxConnections s"
  by (simp add: addClient_def Let_def publishConnectionMetrics_def split: option.split)

end
