(* ===== verification/Rpc_Pool.thy ===== *)
theory Rpc_Pool
  imports Js_Values "HOL-Library.Product_Lexorder"
begin

text \<open>
  The RPC endpoint pool with its circuit breakers, \<open>backend/src/lib/rpc-pool.ts\<close>. An
  operation on an endpoint is a parameter giving how long it runs and what it returns; the
  deadline of \<open>execute\<close> turns one that runs too long into a timeout. The probe timer is not
  modelled, a probe round is (\<open>probeAll\<close>).
\<close>

datatype CircuitState = CLOSED | OPEN | HALF_OPEN

record endpoint =
  url :: string
  failures :: int
  latencyMs :: "int option"
  state :: CircuitState
  openedAt :: "int option"

record rpc_pool =
  endpoints :: "endpoint list"
  failureThreshold :: int
  cooldownMs :: int
  timeoutMs :: int

definition DEFAULT_URL :: string where
  "DEFAULT_URL = ''https://soroban-testnet.stellar.org''"

definition getRpcUrls :: "string option \<Rightarrow> string list" where
  "getRpcUrls value =
     filter (\<lambda>u. u \<noteq> []) (map trim (js_split CHR '','' (case value of None \<Rightarrow> DEFAULT_URL | Some v \<Rightarrow> v)))"

text \<open>\<open>[...new Set(xs)]\<close>: the first occurrence of each element, in order.\<close>

definition uniq :: "'a list \<Rightarrow> 'a list" where
  "uniq xs = rev (remdups (rev xs))"

definition newPool :: "string list \<Rightarrow> int option \<Rightarrow> int option \<Rightarrow> int \<Rightarrow> rpc_pool result" where
  "newPool urls threshold cooldown timeout =
     (let uniqueUrls = uniq (filter (\<lambda>u. u \<noteq> []) (map trim urls)) in
      if uniqueUrls = [] then Inl (Thrown ''At least one Soroban RPC URL is required'')
      else Inr \<lparr>endpoints = map (\<lambda>u. \<lparr>url = u, failures = 0, latencyMs = None, state = CLOSED, openedAt = None\<rparr>) uniqueUrls,
                failureThreshold = (case threshold of None \<Rightarrow> 5 | Some n \<Rightarrow> n),
                cooldownMs = (case cooldown of None \<Rightarrow> 60000 | Some n \<Rightarrow> n), timeoutMs = timeout\<rparr>)"

section \<open>Circuit breakers\<close>

definition recordSuccess :: "int \<Rightarrow> endpoint \<Rightarrow> endpoint" where
  "recordSuccess latency e = e\<lparr>failures := 0, latencyMs := Some latency, state := CLOSED, openedAt := None\<rparr>"

definition recordFailure :: "int \<Rightarrow> int \<Rightarrow> int \<Rightarrow> endpoint \<Rightarrow> endpoint" where
  "recordFailure threshold now latency e =
     (let e1 = e\<lparr>failures := failures e + 1, latencyMs := Some latency\<rparr>
      in if threshold \<le> failures e1 then e1\<lparr>state := OPEN, openedAt := Some now\<rparr> else e1)"

definition cooledDown :: "int \<Rightarrow> int \<Rightarrow> endpoint \<Rightarrow> bool" where
  "cooledDown cooldown now e = (case openedAt e of None \<Rightarrow> False | Some t \<Rightarrow> cooldown \<le> now - t)"

text \<open>The filter of \<open>availableEndpoints\<close> with its side effect on the endpoints it lets through.\<close>

definition admitted :: "int \<Rightarrow> int \<Rightarrow> endpoint \<Rightarrow> bool" where
  "admitted cooldown now e = (state e \<noteq> OPEN \<or> cooledDown cooldown now e)"

definition halfOpen :: "int \<Rightarrow> int \<Rightarrow> endpoint \<Rightarrow> endpoint" where
  "halfOpen cooldown now e = (if state e = OPEN \<and> cooledDown cooldown now e then e\<lparr>state := HALF_OPEN\<rparr> else e)"

definition endpointKey :: "endpoint \<Rightarrow> int \<times> nat \<times> int" where
  "endpointKey e = (failures e, case latencyMs e of None \<Rightarrow> (1, 0) | Some l \<Rightarrow> (0, l))"

definition availableEndpoints :: "int \<Rightarrow> rpc_pool \<Rightarrow> string list \<times> rpc_pool" where
  "availableEndpoints now p =
     (let adm = filter (admitted (cooldownMs p) now) (endpoints p)
      in (map url (sort_key endpointKey adm), p\<lparr>endpoints := map (halfOpen (cooldownMs p) now) (endpoints p)\<rparr>))"

definition updateEndpoint :: "string \<Rightarrow> (endpoint \<Rightarrow> endpoint) \<Rightarrow> rpc_pool \<Rightarrow> rpc_pool" where
  "updateEndpoint u f p = p\<lparr>endpoints := map (\<lambda>e. if url e = u then f e else e) (endpoints p)\<rparr>"

section \<open>Execution\<close>

definition raced :: "string \<Rightarrow> int \<Rightarrow> int \<times> 'a result \<Rightarrow> int \<times> 'a result" where
  "raced label timeout r =
     (if timeout \<le> fst r
      then (timeout, Inl (Thrown (label @ '' timed out after '' @ toString timeout @ ''ms'')))
      else r)"

fun tryEndpoints ::
  "string \<Rightarrow> (string \<Rightarrow> int \<times> 'a result) \<Rightarrow> int \<Rightarrow> string list \<Rightarrow> err option \<Rightarrow> rpc_pool \<Rightarrow> 'a result \<times> rpc_pool" where
  "tryEndpoints label call now [] lastError p =
     (Inl (case lastError of Some x \<Rightarrow> x | None \<Rightarrow> Thrown (label @ '' failed on all RPC endpoints'')), p)"
| "tryEndpoints label call now (u # us) lastError p =
     (case raced label (timeoutMs p) (call u) of
        (elapsed, Inr r) \<Rightarrow> (Inr r, updateEndpoint u (recordSuccess elapsed) p)
      | (elapsed, Inl x) \<Rightarrow>
          tryEndpoints label call (now + elapsed) us (Some x)
            (updateEndpoint u (recordFailure (failureThreshold p) (now + elapsed) elapsed) p))"

definition execute :: "string \<Rightarrow> (string \<Rightarrow> int \<times> 'a result) \<Rightarrow> int \<Rightarrow> rpc_pool \<Rightarrow> 'a result \<times> rpc_pool" where
  "execute label call now p =
     (let (us, p1) = availableEndpoints now p in tryEndpoints label call now us None p1)"

definition probeEndpoint :: "(string \<Rightarrow> int \<times> unit result) \<Rightarrow> int \<Rightarrow> rpc_pool \<Rightarrow> endpoint \<Rightarrow> endpoint" where
  "probeEndpoint call now p e =
     (case raced ''health probe'' (timeoutMs p) (call (url e)) of
        (elapsed, Inr _) \<Rightarrow> recordSuccess elapsed e
      | (elapsed, Inl _) \<Rightarrow> recordFailure (failureThreshold p) (now + elapsed) (timeoutMs p) e)"

definition probeAll :: "(string \<Rightarrow> int \<times> unit result) \<Rightarrow> int \<Rightarrow> rpc_pool \<Rightarrow> rpc_pool" where
  "probeAll call now p = p\<lparr>endpoints := map (probeEndpoint call now p) (endpoints p)\<rparr>"

definition getHealth :: "rpc_pool \<Rightarrow> endpoint list" where
  "getHealth p = endpoints p"

section \<open>The breaker contract\<close>

locale circuit_breaker =
  fixes inv :: "'e \<Rightarrow> bool"
    and admits :: "int \<Rightarrow> 'e \<Rightarrow> bool"
    and success :: "int \<Rightarrow> 'e \<Rightarrow> 'e"
    and failure :: "int \<Rightarrow> int \<Rightarrow> 'e \<Rightarrow> 'e"
    and reopensBy :: "'e \<Rightarrow> int"
  assumes inv_success: "inv e \<Longrightarrow> inv (success l e)"
    and inv_failure: "inv e \<Longrightarrow> inv (failure now l e)"
    and success_admits: "admits t (success l e)"
    and reopens: "inv e \<Longrightarrow> reopensBy e \<le> t \<Longrightarrow> admits t e"
begin

text \<open>Any history of outcomes leaves an endpoint that is admitted again from some time on.\<close>

lemma history_inv:
  "inv e \<Longrightarrow> inv (foldl (\<lambda>e (ok, now, l). if ok then success l e else failure now l e) e hs)"
  by (induction hs arbitrary: e) (auto simp: inv_success inv_failure)

lemma eventually_admitted:
  assumes "inv e"
  shows "\<exists>t0. \<forall>t \<ge> t0. admits t (foldl (\<lambda>e (ok, now, l). if ok then success l e else failure now l e) e hs)"
  using reopens [OF history_inv [OF assms]] by blast

end

definition wf_endpoint :: "int \<Rightarrow> endpoint \<Rightarrow> bool" where
  "wf_endpoint threshold e =
     (0 \<le> failures e
      \<and> (case state e of
           CLOSED \<Rightarrow> failures e < threshold \<and> openedAt e = None
         | _ \<Rightarrow> threshold \<le> failures e \<and> openedAt e \<noteq> None))"

definition reopensAt :: "int \<Rightarrow> endpoint \<Rightarrow> int" where
  "reopensAt cooldown e = (case openedAt e of None \<Rightarrow> 0 | Some t \<Rightarrow> t + cooldown)"

lemma wf_recordSuccess: "0 < threshold \<Longrightarrow> wf_endpoint threshold (recordSuccess l e)"
  by (simp add: wf_endpoint_def recordSuccess_def)

lemma wf_recordFailure: "wf_endpoint threshold e \<Longrightarrow> wf_endpoint threshold (recordFailure threshold now l e)"
  by (auto simp: wf_endpoint_def recordFailure_def Let_def split: CircuitState.splits)

lemma wf_halfOpen: "wf_endpoint threshold e \<Longrightarrow> wf_endpoint threshold (halfOpen cooldown now e)"
  by (simp add: wf_endpoint_def halfOpen_def split: CircuitState.splits)

interpretation breaker: circuit_breaker "\<lambda>e. 0 < threshold \<and> wf_endpoint threshold e" "admitted cooldown" recordSuccess
    "recordFailure threshold" "reopensAt cooldown" for threshold cooldown
proof unfold_locales
  fix e t assume "0 < threshold \<and> wf_endpoint threshold e" and "reopensAt cooldown e \<le> t"
  then show "admitted cooldown t e"
    by (auto simp: wf_endpoint_def admitted_def cooledDown_def reopensAt_def split: CircuitState.splits option.splits)
qed (auto simp: wf_recordSuccess wf_recordFailure, simp add: admitted_def recordSuccess_def)

section \<open>Properties of the pool\<close>

definition wf_pool :: "rpc_pool \<Rightarrow> bool" where
  "wf_pool p =
     (0 < failureThreshold p \<and> distinct (map url (endpoints p))
      \<and> list_all (wf_endpoint (failureThreshold p)) (endpoints p))"

lemma url_record [simp]:
  "url (recordSuccess l e) = url e" "url (recordFailure t n l e) = url e" "url (halfOpen c n e) = url e"
  by (simp_all add: recordSuccess_def recordFailure_def halfOpen_def Let_def)

lemma wf_pool_map:
  assumes "wf_pool p" and "\<And>e. url (f e) = url e" and "\<And>e. wf_endpoint (failureThreshold p) e \<Longrightarrow> wf_endpoint (failureThreshold p) (f e)"
  shows "wf_pool (p\<lparr>endpoints := map f (endpoints p)\<rparr>)"
  using assms by (simp add: wf_pool_def list_all_iff comp_def)

lemma wf_updateEndpoint:
  assumes "wf_pool p" and "\<And>e. url (f e) = url e" and "\<And>e. wf_endpoint (failureThreshold p) e \<Longrightarrow> wf_endpoint (failureThreshold p) (f e)"
  shows "wf_pool (updateEndpoint u f p)"
  unfolding updateEndpoint_def using assms by (intro wf_pool_map) auto

lemma updateEndpoint_config [simp]:
  "failureThreshold (updateEndpoint u f p) = failureThreshold p" "timeoutMs (updateEndpoint u f p) = timeoutMs p"
  "cooldownMs (updateEndpoint u f p) = cooldownMs p"
  by (simp_all add: updateEndpoint_def)

lemma wf_pool_threshold: "wf_pool p \<Longrightarrow> 0 < failureThreshold p"
  by (simp add: wf_pool_def)

lemma wf_tryEndpoints: "wf_pool p \<Longrightarrow> wf_pool (snd (tryEndpoints label call now us x p))"
proof (induction label call now us x p rule: tryEndpoints.induct)
  case (2 label call now u us x p)
  have "wf_pool (updateEndpoint u (recordSuccess l) p)" "wf_pool (updateEndpoint u (recordFailure (failureThreshold p) n l) p)" for l n
    using 2(2) by (auto intro!: wf_updateEndpoint wf_recordSuccess wf_recordFailure wf_pool_threshold)
  with 2(1) show ?case by (auto split: prod.split sum.split)
qed simp

lemma uniq_distinct: "distinct (uniq xs)" "set (uniq xs) = set xs"
  by (simp_all add: uniq_def)

text \<open>The pool's bookkeeping is consistent at all times: urls are distinct, a closed breaker has fewer
  consecutive failures than the threshold, and an open or half-open one has reached it and
  knows when it opened. A new pool has this with a positive threshold, and every call and
  probe round keeps it, whatever the endpoints answer.\<close>

theorem pool_invariant:
  "(newPool urls (Some n) cooldown timeout = Inr q \<and> 0 < n \<longrightarrow> wf_pool q)
   \<and> (wf_pool p \<longrightarrow> wf_pool (snd (execute label call now p)) \<and> wf_pool (probeAll probe now p))"
proof (intro conjI impI)
  show "wf_pool q" if "newPool urls (Some n) cooldown timeout = Inr q \<and> 0 < n"
    using that uniq_distinct(1)
    by (auto simp: newPool_def Let_def wf_pool_def list_all_iff wf_endpoint_def comp_def split: if_splits)
  assume p: "wf_pool p"
  have "wf_pool (p\<lparr>endpoints := map (halfOpen (cooldownMs p) now) (endpoints p)\<rparr>)"
    using p by (rule wf_pool_map) (auto intro: wf_halfOpen)
  then show "wf_pool (snd (execute label call now p))"
    by (simp add: execute_def availableEndpoints_def Let_def wf_tryEndpoints)
  show "wf_pool (probeAll probe now p)"
    unfolding probeAll_def using p
    by (intro wf_pool_map)
      (auto simp: probeEndpoint_def split: prod.split sum.split intro: wf_recordSuccess wf_recordFailure wf_pool_threshold)
qed

definition examplePool :: rpc_pool where
  "examplePool =
     \<lparr>endpoints = [\<lparr>url = ''a'', failures = 5, latencyMs = Some 10, state = OPEN, openedAt = Some 1000\<rparr>,
                   \<lparr>url = ''b'', failures = 1, latencyMs = Some 90, state = CLOSED, openedAt = None\<rparr>,
                   \<lparr>url = ''c'', failures = 0, latencyMs = None, state = CLOSED, openedAt = None\<rparr>],
      failureThreshold = 5, cooldownMs = 60000, timeoutMs = 10000\<rparr>"

lemma examplePool_wf: "wf_pool examplePool"
  by (simp add: wf_pool_def examplePool_def wf_endpoint_def)

theorem pool_invariant_witness: "wf_pool (snd (execute ''getHealth'' (\<lambda>u. (5, Inl TypeError :: unit result)) 2000 examplePool))"
  using pool_invariant examplePool_wf by blast

definition answer :: "string \<Rightarrow> (string \<Rightarrow> int \<times> 'a result) \<Rightarrow> rpc_pool \<Rightarrow> string \<Rightarrow> 'a result" where
  "answer label call p u = snd (raced label (timeoutMs p) (call u))"

lemma tryEndpoints_first:
  "fst (tryEndpoints label call now us x p) =
     (case find (\<lambda>u. isOk (answer label call p u)) us of
        Some u \<Rightarrow> answer label call p u
      | None \<Rightarrow> if us = [] then Inl (case x of Some e \<Rightarrow> e | None \<Rightarrow> Thrown (label @ '' failed on all RPC endpoints''))
                else answer label call p (last us))"
proof (induction label call now us x p rule: tryEndpoints.induct)
  case (2 label call now u us x p)
  obtain l r where lr: "raced label (timeoutMs p) (call u) = (l, r)" by fastforce
  show ?case
  proof (cases r)
    case (Inl e)
    have "answer label call (updateEndpoint u f p) = answer label call p" for f
      by (simp add: answer_def fun_eq_iff)
    with 2 [OF lr [symmetric] Inl] lr Inl show ?thesis
      by (cases "us = []") (auto simp: answer_def split: option.split)
  next
    case (Inr v)
    with lr show ?thesis by (auto simp: answer_def)
  qed
qed simp

definition admittedUrls :: "int \<Rightarrow> rpc_pool \<Rightarrow> string list" where
  "admittedUrls now p = map url (sort_key endpointKey (filter (admitted (cooldownMs p) now) (endpoints p)))"

lemma execute_eq:
  "execute label call now p =
     tryEndpoints label call now (admittedUrls now p) None (p\<lparr>endpoints := map (halfOpen (cooldownMs p) now) (endpoints p)\<rparr>)"
  by (simp add: execute_def availableEndpoints_def admittedUrls_def Let_def)

text \<open>Failover: a call returns the answer of the first admitted endpoint, in order of failures and then
  latency, that answers in time; it fails only when every admitted endpoint failed, with the
  last one's error, and without any call when none is admitted.\<close>

theorem execute_failover:
  "fst (execute label call now p) =
     (case find (\<lambda>u. isOk (answer label call p u)) (admittedUrls now p) of
        Some u \<Rightarrow> answer label call p u
      | None \<Rightarrow> if admittedUrls now p = [] then Inl (Thrown (label @ '' failed on all RPC endpoints''))
                else answer label call p (last (admittedUrls now p)))"
  by (simp add: execute_eq tryEndpoints_first answer_def split: option.split)

lemma tryEndpoints_cong:
  "(\<And>u. u \<in> set us \<Longrightarrow> call u = call' u) \<Longrightarrow> tryEndpoints label call now us x p = tryEndpoints label call' now us x p"
  by (induction us arbitrary: now x p) (auto split: prod.split sum.split)

text \<open>An open circuit protects its endpoint: while the cooldown runs the endpoint is not called at all, so
  the outcome and the pool afterwards are the same whatever it would have answered.\<close>

theorem open_circuit_not_called:
  assumes "e \<in> set (endpoints p)" and "distinct (map url (endpoints p))" and "state e = OPEN"
    and "openedAt e = Some t0" and "now - t0 < cooldownMs p" and "\<forall>u. u \<noteq> url e \<longrightarrow> call u = call' u"
  shows "execute label call now p = execute label call' now p"
proof -
  have "url e \<notin> url ` {x \<in> set (endpoints p). admitted (cooldownMs p) now x}"
    using assms(1-5) by (auto simp: admitted_def cooledDown_def distinct_map dest!: inj_onD [of url "set (endpoints p)" e])
  moreover have "set (admittedUrls now p) = url ` {x \<in> set (endpoints p). admitted (cooldownMs p) now x}"
    by (simp add: admittedUrls_def)
  ultimately have "u \<noteq> url e" if "u \<in> set (admittedUrls now p)" for u
    using that by blast
  with assms(6) show ?thesis
    unfolding execute_eq by (intro tryEndpoints_cong) auto
qed

theorem open_circuit_not_called_witness:
  "execute ''x'' (\<lambda>u. (1, Inr u)) 2000 examplePool = execute ''x'' (\<lambda>u. if u = ''a'' then (1, Inl TypeError) else (1, Inr u)) 2000 examplePool"
  by (rule open_circuit_not_called [where e = "hd (endpoints examplePool)" and ?t0.0 = 1000])
    (simp_all add: examplePool_def)

text \<open>No endpoint is given up for ever: after any history of successes and failures there is a time from which
  the pool admits the endpoint again.\<close>

theorem endpoint_recovers:
  assumes "0 < threshold" and "wf_endpoint threshold e"
  shows "\<exists>t0. \<forall>t \<ge> t0. admitted cooldown t
    (foldl (\<lambda>e (ok, now, l). if ok then recordSuccess l e else recordFailure threshold now l e) e history)"
  using assms breaker.eventually_admitted [of threshold e cooldown history] by simp

theorem endpoint_recovers_witness:
  "\<exists>t0. \<forall>t \<ge> t0. admitted 60000 t
    (foldl (\<lambda>e (ok, now, l). if ok then recordSuccess l e else recordFailure 1 now l e)
       \<lparr>url = ''a'', failures = 0, latencyMs = None, state = CLOSED, openedAt = None\<rparr> [(False, 10, 5), (False, 20, 5)])"
  by (rule endpoint_recovers) (simp_all add: wf_endpoint_def)

end
