(* ===== verification/Soroban_Service.thy ===== *)
theory Soroban_Service
  imports Rpc_Pool Xdr_Decode
begin

text \<open>
  The chain access layer \<open>backend/src/services/sorobanService.ts\<close>: deadlines and retries of RPC
  calls, read-only simulations, submitted transactions, the parameter checks and error
  translation of client-side signing. The RPC node and the SDK's codecs are parameters
  (\<open>chain\<close>); the \<open>k\<close>-th attempt of a call may be answered differently from the first.
  Metrics and tracing spans are left out.
\<close>

section \<open>Deadlines and retries\<close>

text \<open>
  The loop of \<open>withRpcRetry\<close>. \<open>maxRetries\<close> is a JavaScript number read from the environment;
  \<open>None\<close> is \<open>NaN\<close>, which no attempt exceeds. The result carries the waits between the
  attempts and whether the retries were exhausted.
\<close>

record 'a retried =
  rt_result :: "'a result"
  rt_waits :: "int list"
  rt_exhausted :: bool

definition exceeds :: "nat \<Rightarrow> int option \<Rightarrow> bool" where
  "exceeds attempt maxRetries = (case maxRetries of None \<Rightarrow> False | Some m \<Rightarrow> m < int attempt)"

partial_function (option) withRpcRetry ::
  "(err \<Rightarrow> bool) \<Rightarrow> int option \<Rightarrow> int \<Rightarrow> (nat \<Rightarrow> 'a result) \<Rightarrow> nat \<Rightarrow> int list \<Rightarrow> 'a retried option" where
  "withRpcRetry transient maxRetries base fn attempt0 waits =
     (case fn attempt0 of
        Inr v \<Rightarrow> Some \<lparr>rt_result = Inr v, rt_waits = waits, rt_exhausted = False\<rparr>
      | Inl x \<Rightarrow>
          (let attempt = attempt0 + 1 in
           if exceeds attempt maxRetries then Some \<lparr>rt_result = Inl x, rt_waits = waits, rt_exhausted = True\<rparr>
           else if \<not> transient x then Some \<lparr>rt_result = Inl x, rt_waits = waits, rt_exhausted = False\<rparr>
           else withRpcRetry transient maxRetries base fn attempt (waits @ [base * 2 ^ (attempt - 1)])))"

text \<open>The pattern of \<open>isTransientRpcError\<close>, case-insensitive; \<open>\b50[234]\b\<close> is a whole word.\<close>

definition lower_char :: "char \<Rightarrow> char" where
  "lower_char c = (if 65 \<le> code c \<and> code c \<le> 90 then char_of (code c + 32) else c)"

definition lower :: "string \<Rightarrow> string" where
  "lower s = map lower_char s"

fun contains :: "string \<Rightarrow> string \<Rightarrow> bool" where
  "contains p [] = (p = [])"
| "contains p (c # cs) = (startsWith (c # cs) p \<or> contains p cs)"

definition word_char :: "char \<Rightarrow> bool" where
  "word_char c =
     (is_digit c \<or> (97 \<le> code c \<and> code c \<le> 122) \<or> (65 \<le> code c \<and> code c \<le> 90) \<or> c = CHR ''_'')"

fun containsWord :: "string \<Rightarrow> bool \<Rightarrow> string \<Rightarrow> bool" where
  "containsWord p atWord [] = False"
| "containsWord p atWord (c # cs) =
     ((\<not> atWord \<and> startsWith (c # cs) p
       \<and> (case drop (length p) (c # cs) of [] \<Rightarrow> True | d # _ \<Rightarrow> \<not> word_char d))
      \<or> containsWord p (word_char c) cs)"

definition transientMessage :: "string \<Rightarrow> bool" where
  "transientMessage message =
     (list_ex (\<lambda>p. contains p (lower message))
        [''timeout'', ''timed out'', ''econnreset'', ''econnrefused'', ''enotfound'', ''eai_again'', ''network'', ''fetch failed'']
      \<or> list_ex (\<lambda>p. containsWord p False message) [''502'', ''503'', ''504''])"

section \<open>The chain\<close>

datatype chain_arg = AddrArg string | U64Arg int | I128Arg int

type_synonym invocation = "string \<times> chain_arg list"

text \<open>
  A successful simulation carries the returned value, the transaction data, the minimum
  resource fee (a decimal string) and the latest ledger.
\<close>

datatype simulation =
    SimError string
  | SimSuccess "scval option" string string int

datatype send_response = SendError string | SendOk string

record chain =
  contractIdVar :: string
  keeperSecretVar :: string
  tokenAddressVar :: "string option"
  serverOverride :: bool
  validContractId :: "string \<Rightarrow> bool"
  encodes :: "chain_arg \<Rightarrow> bool"
  publicKeyOf :: "string \<Rightarrow> string option"
  engineMessage :: "err \<Rightarrow> string"
  isAbort :: "err \<Rightarrow> bool"
  rpcTimeoutMs :: int
  rpcMaxRetries :: "int option"
  rpcRetryBaseMs :: int
  simulateRpc :: "invocation list \<Rightarrow> nat \<Rightarrow> int \<times> simulation result"
  getAccountRpc :: "string \<Rightarrow> int \<times> unit result"
  sendRpc :: "invocation \<Rightarrow> int \<times> send_response result"

text \<open>
  \<open>encodes\<close> is whether the SDK's \<open>nativeToScVal\<close> or \<open>new Address\<close> accepts an argument; \<open>isAbort\<close>
  whether an error's name is \<open>AbortError\<close>. \<open>messageOf\<close> is the property \<open>message\<close> of an error: the
  texts of the engine's own type, syntax and range errors are left open.
\<close>

fun messageOf :: "chain \<Rightarrow> err \<Rightarrow> string" where
  "messageOf K (Thrown m) = m"
| "messageOf K (External m) = m"
| "messageOf K (PrismaError m) = m"
| "messageOf K (ReferenceError x) = x @ '' is not defined''"
| "messageOf K x = engineMessage K x"

definition encodeArgs :: "chain \<Rightarrow> chain_arg list \<Rightarrow> unit result" where
  "encodeArgs K args = guardE (list_all (encodes K) args) (External ''invalid argument'')"

definition isTransientRpcError :: "chain \<Rightarrow> err \<Rightarrow> bool" where
  "isTransientRpcError K x = (isAbort K x \<or> transientMessage (messageOf K x))"

definition withRpcTimeout :: "string \<Rightarrow> int \<Rightarrow> int \<times> 'a result \<Rightarrow> 'a result" where
  "withRpcTimeout label timeout r = snd (raced label timeout r)"

text \<open>
  \<open>executeRpc\<close> uses a server set by \<open>setServer\<close> if there is one; otherwise it evaluates \<open>rpcPool\<close>,
  which the module does not import. \<open>getServer\<close> and \<open>pollTransactionStatus\<close> are not declared
  anywhere.
\<close>

definition executeRpc :: "chain \<Rightarrow> int \<times> 'a result \<Rightarrow> int \<times> 'a result" where
  "executeRpc K op = (if serverOverride K then op else (0, Inl (ReferenceError ''rpcPool'')))"

definition getServerCall :: "int \<times> 'a result" where
  "getServerCall = (0, Inl (ReferenceError ''getServer''))"

definition pollTransactionStatus :: "unit result" where
  "pollTransactionStatus = Inl (ReferenceError ''pollTransactionStatus'')"

definition retryCall :: "chain \<Rightarrow> (nat \<Rightarrow> 'a result) \<Rightarrow> 'a result option" where
  "retryCall K fn =
     map_option rt_result (withRpcRetry (isTransientRpcError K) (rpcMaxRetries K) (rpcRetryBaseMs K) fn 0 [])"

definition getLatestLedger :: "chain \<Rightarrow> int option" where
  "getLatestLedger K =
     map_option (\<lambda>r. case r of Inl _ \<Rightarrow> 0 | Inr n \<Rightarrow> toNumber n)
       (retryCall K (\<lambda>_. withRpcTimeout ''getLatestLedger'' (rpcTimeoutMs K) getServerCall))"

text \<open>\<open>None\<close>: the retries never end.\<close>

definition simulateTx :: "chain \<Rightarrow> invocation list \<Rightarrow> simulation result option" where
  "simulateTx K tx =
     retryCall K (\<lambda>k. withRpcTimeout ''simulateTransaction'' (rpcTimeoutMs K) (executeRpc K (simulateRpc K tx k)))"

definition newContract :: "chain \<Rightarrow> unit result" where
  "newContract K = guardE (validContractId K (contractIdVar K)) (External ''Invalid contract ID'')"

definition simulateContractCall :: "chain \<Rightarrow> invocation \<Rightarrow> scval result option" where
  "simulateContractCall K invo =
     (case newContract K of
        Inl x \<Rightarrow> Some (Inl x)
      | Inr _ \<Rightarrow>
          map_option (\<lambda>r. bindE r (\<lambda>sim. case sim of
             SimError e \<Rightarrow> Inl (Thrown (''Simulation error: '' @ e))
           | SimSuccess retval _ _ _ \<Rightarrow> of_opt TypeError retval)) (simulateTx K [invo]))"

text \<open>The hash of a submitted transaction and the transactions sent to the network.\<close>

definition submitContractCall :: "chain \<Rightarrow> invocation \<Rightarrow> string \<Rightarrow> (string result \<times> invocation list) option" where
  "submitContractCall K invo senderSecret =
     (if contractIdVar K = [] then Some (Inl (Thrown ''CONTRACT_ID not set''), [])
      else case publicKeyOf K senderSecret of
        None \<Rightarrow> Some (Inl (External ''invalid secret''), [])
      | Some pk \<Rightarrow>
          (case newContract K of Inl x \<Rightarrow> Some (Inl x, []) | Inr _ \<Rightarrow>
          (case withRpcTimeout ''getAccount'' (rpcTimeoutMs K) (executeRpc K (getAccountRpc K pk)) of
             Inl x \<Rightarrow> Some (Inl x, [])
           | Inr _ \<Rightarrow>
               (case simulateTx K [invo] of
                  None \<Rightarrow> None
                | Some (Inl x) \<Rightarrow> Some (Inl x, [])
                | Some (Inr (SimError e)) \<Rightarrow> Some (Inl (Thrown (''Simulation failed: '' @ e)), [])
                | Some (Inr (SimSuccess _ _ _ _)) \<Rightarrow>
                    (case withRpcTimeout ''sendTransaction'' (rpcTimeoutMs K) (executeRpc K (sendRpc K invo)) of
                       Inl x \<Rightarrow> Some (Inl x, [invo])
                     | Inr (SendError e) \<Rightarrow> Some (Inl (Thrown (''Transaction failed: '' @ e)), [invo])
                     | Inr (SendOk h) \<Rightarrow> Some (bindE pollTransactionStatus (\<lambda>_. Inr h), [invo]))))))"

definition cancelStream :: "chain \<Rightarrow> int \<Rightarrow> string \<Rightarrow> (string result \<times> invocation list) option" where
  "cancelStream K sid senderSecret =
     (case encodeArgs K [U64Arg sid] of
        Inl x \<Rightarrow> Some (Inl x, [])
      | Inr _ \<Rightarrow> submitContractCall K (''cancel_stream'', [U64Arg sid]) senderSecret)"

definition topUpStream :: "chain \<Rightarrow> int \<Rightarrow> int \<Rightarrow> string \<Rightarrow> (string result \<times> invocation list) option" where
  "topUpStream K sid amt caller =
     (if keeperSecretVar K = [] then Some (Inl (Thrown ''KEEPER_SECRET_KEY not configured''), [])
      else case encodeArgs K [U64Arg sid, I128Arg amt, AddrArg caller] of
        Inl x \<Rightarrow> Some (Inl x, [])
      | Inr _ \<Rightarrow> submitContractCall K (''top_up_stream'', [U64Arg sid, I128Arg amt, AddrArg caller]) (keeperSecretVar K))"

definition encodedCall :: "chain \<Rightarrow> invocation \<Rightarrow> scval result option" where
  "encodedCall K invo =
     (case encodeArgs K (snd invo) of Inl x \<Rightarrow> Some (Inl x) | Inr _ \<Rightarrow> simulateContractCall K invo)"

text \<open>Pause, resume and withdraw simulate the call and return a made-up hash.\<close>

definition simulatedAction :: "chain \<Rightarrow> string \<Rightarrow> string \<Rightarrow> string \<Rightarrow> string \<Rightarrow> int \<Rightarrow> string result option" where
  "simulatedAction K failure contractMethod prefix addr sid =
     (if contractIdVar K = [] then Some (Inl (Thrown ''Stream contract ID not configured''))
      else map_option (\<lambda>r. case r of
             Inr _ \<Rightarrow> Inr (prefix @ toString sid)
           | Inl x \<Rightarrow> Inl (Thrown (failure @ messageOf K x)))
         (encodedCall K (contractMethod, [AddrArg addr, U64Arg sid])))"

definition pauseStream :: "chain \<Rightarrow> string \<Rightarrow> int \<Rightarrow> string result option" where
  "pauseStream K senderAddress sid =
     simulatedAction K ''Failed to pause stream: '' ''pause_stream'' ''simulated-pause-'' senderAddress sid"

definition resumeStream :: "chain \<Rightarrow> string \<Rightarrow> int \<Rightarrow> string result option" where
  "resumeStream K senderAddress sid =
     simulatedAction K ''Failed to resume stream: '' ''resume_stream'' ''simulated-resume-'' senderAddress sid"

definition withdraw :: "chain \<Rightarrow> int \<Rightarrow> string \<Rightarrow> string result option" where
  "withdraw K sid recipientAddress =
     simulatedAction K ''Failed to withdraw from stream: '' ''withdraw'' ''simulated-withdraw-'' recipientAddress sid"

definition getClaimableFromChain :: "chain \<Rightarrow> int \<Rightarrow> string option option" where
  "getClaimableFromChain K sid =
     (if contractIdVar K = [] then Some None
      else map_option (\<lambda>r. case bindE r decodeI128 of Inl _ \<Rightarrow> None | Inr a \<Rightarrow> Some a)
             (encodedCall K (''get_claimable_amount'', [U64Arg sid])))"

definition STALE_THRESHOLD_MS :: int where
  "STALE_THRESHOLD_MS = 30000"

definition isStale :: "int \<Rightarrow> int \<Rightarrow> bool" where
  "isStale now updated = (STALE_THRESHOLD_MS < now - updated)"

record ChainStream =
  ch_streamId :: int
  ch_sender :: string
  ch_recipient :: string
  ch_tokenAddress :: string
  ch_ratePerSecond :: string
  ch_depositedAmount :: string
  ch_withdrawnAmount :: string
  ch_startTime :: int
  ch_isActive :: bool

definition chainStreamOf :: "strkey \<Rightarrow> int \<Rightarrow> scval \<Rightarrow> ChainStream result" where
  "chainStreamOf sk sid retval =
     bindE (decodeMap retval) (\<lambda>f.
     bindE (of_opt TypeError (f ''is_active'')) (\<lambda>act.
     bindE (bindE (of_opt TypeError (f ''sender'')) (decodeAddress sk)) (\<lambda>sndr.
     bindE (bindE (of_opt TypeError (f ''recipient'')) (decodeAddress sk)) (\<lambda>rcpt.
     bindE (bindE (of_opt TypeError (f ''token_address'')) (decodeAddress sk)) (\<lambda>tok.
     bindE (bindE (of_opt TypeError (f ''rate_per_second'')) decodeI128) (\<lambda>rate.
     bindE (bindE (of_opt TypeError (f ''deposited_amount'')) decodeI128) (\<lambda>dep.
     bindE (bindE (of_opt TypeError (f ''withdrawn_amount'')) decodeI128) (\<lambda>wd.
     bindE (bindE (of_opt TypeError (f ''start_time'')) decodeU64) (\<lambda>start.
     Inr \<lparr>ch_streamId = sid, ch_sender = sndr, ch_recipient = rcpt, ch_tokenAddress = tok, ch_ratePerSecond = rate,
          ch_depositedAmount = dep, ch_withdrawnAmount = wd, ch_startTime = toNumber start,
          ch_isActive = (act = ScvBool True)\<rparr>)))))))))"

definition getStreamFromChain :: "chain \<Rightarrow> strkey \<Rightarrow> int \<Rightarrow> ChainStream option option" where
  "getStreamFromChain K sk sid =
     (if contractIdVar K = [] then Some None
      else map_option (\<lambda>r. case bindE r (chainStreamOf sk sid) of Inl _ \<Rightarrow> None | Inr s \<Rightarrow> Some s)
             (encodedCall K (''get_stream'', [U64Arg sid])))"

text \<open>
  The argument lists that the contract's entry points declare
  (\<open>contracts/stream_contract/src/lib.rs\<close>), for the calls this service makes.
\<close>

fun conforms :: "invocation \<Rightarrow> bool" where
  "conforms (entry, args) =
     (if entry = ''create_stream''
      then (case args of [AddrArg _, AddrArg _, AddrArg _, I128Arg _, U64Arg _] \<Rightarrow> True | _ \<Rightarrow> False)
      else if entry = ''top_up_stream''
      then (case args of [AddrArg _, U64Arg _, I128Arg _] \<Rightarrow> True | _ \<Rightarrow> False)
      else if entry \<in> {''withdraw'', ''cancel_stream'', ''pause_stream'', ''resume_stream''}
      then (case args of [AddrArg _, U64Arg _] \<Rightarrow> True | _ \<Rightarrow> False)
      else False)"

section \<open>The health check\<close>

text \<open>
  \<open>checkRpcHealth\<close> shares one probe between concurrent callers and caches its answer. A call
  either answers from the cache or waits for the probe in flight, starting it if there is
  none; \<open>probeFinished\<close> is the rest of the asynchronous body.
\<close>

record rpc_health =
  healthCache :: "(bool \<times> int) option"
  healthPromise :: bool

definition resetRpcHealthCache :: rpc_health where
  "resetRpcHealthCache = \<lparr>healthCache = None, healthPromise = False\<rparr>"

datatype health_answer = Cached bool | Joined | Started

definition checkRpcHealth :: "int \<Rightarrow> rpc_health \<Rightarrow> health_answer \<times> rpc_health" where
  "checkRpcHealth now h =
     (case healthCache h of
        Some (ok, expiresAt) \<Rightarrow>
          if now < expiresAt then (Cached ok, h)
          else if healthPromise h then (Joined, h) else (Started, h\<lparr>healthPromise := True\<rparr>)
      | None \<Rightarrow> if healthPromise h then (Joined, h) else (Started, h\<lparr>healthPromise := True\<rparr>))"

definition probeFinished :: "chain \<Rightarrow> int \<Rightarrow> int \<times> bool result \<Rightarrow> int \<Rightarrow> int \<Rightarrow> rpc_health \<Rightarrow> bool \<times> rpc_health" where
  "probeFinished K deadline call ttlMs doneAt h =
     (let ok = (case withRpcTimeout ''soroban rpc health check'' deadline (executeRpc K call) of
                  Inl _ \<Rightarrow> False | Inr b \<Rightarrow> b)
      in (ok, h\<lparr>healthCache := Some (ok, doneAt + ttlMs), healthPromise := False\<rparr>))"

section \<open>Retries end\<close>

lemma withRpcRetry_from:
  assumes "n \<le> m" and "m - n = d"
  shows "\<exists>r k. withRpcRetry transient (Some (int m)) base fn n waits = Some r \<and> n \<le> k \<and> k \<le> m
      \<and> rt_result r = fn k \<and> rt_waits r = waits @ map (\<lambda>j. base * 2 ^ j) [n..<k]
      \<and> (\<forall>j. n \<le> j \<and> j < k \<longrightarrow> (\<exists>x. fn j = Inl x \<and> transient x))
      \<and> (isOk (fn k) \<or> k = m \<or> (\<exists>x. fn k = Inl x \<and> \<not> transient x))"
  using assms
proof (induction d arbitrary: n waits)
  case 0
  then have "n = m" by simp
  then show ?case
    by (subst withRpcRetry.simps) (auto simp: exceeds_def Let_def split: sum.splits intro!: exI [of _ m])
next
  case (Suc d)
  then have nm: "n < m" by simp
  show ?case
  proof (cases "\<exists>x. fn n = Inl x \<and> transient x")
    case True
    then obtain x where x: "fn n = Inl x" "transient x" by blast
    have "Suc n \<le> m" "m - Suc n = d" using Suc.prems nm by simp_all
    from Suc.IH [OF this, of "waits @ [base * 2 ^ n]"]
    obtain r k where ih: "withRpcRetry transient (Some (int m)) base fn (Suc n) (waits @ [base * 2 ^ n]) = Some r"
      "Suc n \<le> k" "k \<le> m" "rt_result r = fn k"
      "rt_waits r = (waits @ [base * 2 ^ n]) @ map (\<lambda>j. base * 2 ^ j) [Suc n..<k]"
      "\<forall>j. Suc n \<le> j \<and> j < k \<longrightarrow> (\<exists>x. fn j = Inl x \<and> transient x)"
      "isOk (fn k) \<or> k = m \<or> (\<exists>x. fn k = Inl x \<and> \<not> transient x)"
      by auto
    have "withRpcRetry transient (Some (int m)) base fn n waits = Some r"
      using x nm ih(1) by (subst withRpcRetry.simps) (simp add: exceeds_def Let_def)
    moreover have "rt_waits r = waits @ map (\<lambda>j. base * 2 ^ j) [n..<k]"
      using ih(2,5) by (simp add: upt_conv_Cons)
    moreover have "\<forall>j. n \<le> j \<and> j < k \<longrightarrow> (\<exists>x. fn j = Inl x \<and> transient x)"
      using ih(6) x by (metis Suc_leI le_neq_implies_less)
    ultimately show ?thesis using ih(2-4,7) by (intro exI [of _ r] exI [of _ k]) simp
  next
    case False
    then show ?thesis
      using nm by (subst withRpcRetry.simps)
        (auto simp: exceeds_def Let_def split: sum.splits intro!: exI [of _ n])
  qed
qed

text \<open>C9. With a finite number \<open>m\<close> of retries, \<open>withRpcRetry\<close> always returns: it makes at most
  \<open>m + 1\<close> attempts, its result is that of the last one, it waits \<open>base\<close>, \<open>2 base\<close>, \<open>4 base\<close>, ...
  between them, only transient failures are retried, and it stops at the first success, the
  first permanent failure or the last attempt.
\<close>

theorem retry_bounded:
  "\<exists>r k. withRpcRetry transient (Some (int m)) base fn 0 [] = Some r \<and> k \<le> m
     \<and> rt_result r = fn k \<and> rt_waits r = map (\<lambda>j. base * 2 ^ j) [0..<k]
     \<and> (\<forall>j<k. \<exists>x. fn j = Inl x \<and> transient x)
     \<and> (isOk (fn k) \<or> k = m \<or> (\<exists>x. fn k = Inl x \<and> \<not> transient x))"
  using withRpcRetry_from [of 0 m m transient base fn "[]"] by auto

theorem retry_bounded_witness:
  "\<exists>r. withRpcRetry (\<lambda>x. x = External ''fetch failed'') (Some 2) 250
         (\<lambda>k. if k < 2 then Inl (External ''fetch failed'') else Inr k) 0 [] = Some r
       \<and> rt_result r = Inr 2 \<and> rt_waits r = [250, 500]"
proof -
  obtain r k where r: "withRpcRetry (\<lambda>x. x = External ''fetch failed'') (Some 2) 250
      (\<lambda>k. if k < 2 then Inl (External ''fetch failed'') else Inr k) 0 [] = Some r" "k \<le> 2"
    "rt_result r = (if k < 2 then Inl (External ''fetch failed'') else Inr k)"
    "rt_waits r = map (\<lambda>j. 250 * 2 ^ j) [0..<k]"
    "isOk (if k < 2 then Inl (External ''fetch failed'') else Inr k) \<or> k = 2
      \<or> (\<exists>x. (if k < 2 then Inl (External ''fetch failed'') else Inr k :: nat result) = Inl x \<and> x \<noteq> External ''fetch failed'')"
    using retry_bounded [of "\<lambda>x. x = External ''fetch failed''" 2 250
      "\<lambda>k. if k < 2 then Inl (External ''fetch failed'') else Inr k :: nat result"] by auto
  then have "k = 2" by (auto split: if_splits)
  with r show ?thesis by (simp add: upt_rec)
qed

lemma retry_nan_partial:
  "withRpcRetry t mr b fn n waits = Some r \<Longrightarrow> mr = None \<and> (\<forall>k. \<exists>x. fn k = Inl x \<and> t x) \<longrightarrow> False"
proof (erule withRpcRetry.raw_induct [rotated])
  fix rec :: "(err \<Rightarrow> bool) \<Rightarrow> int option \<Rightarrow> int \<Rightarrow> (nat \<Rightarrow> 'a result) \<Rightarrow> nat \<Rightarrow> int list \<Rightarrow> 'a retried option"
  fix t mr b n w r and fn :: "nat \<Rightarrow> 'a result"
  assume ih: "\<And>t mr b fn n w r. rec t mr b fn n w = Some r \<Longrightarrow> mr = None \<and> (\<forall>k. \<exists>x. fn k = Inl x \<and> t x) \<longrightarrow> False"
    and step: "(case fn n of
        Inr v \<Rightarrow> Some \<lparr>rt_result = Inr v, rt_waits = w, rt_exhausted = False\<rparr>
      | Inl x \<Rightarrow>
          (let attempt = n + 1 in
           if exceeds attempt mr then Some \<lparr>rt_result = Inl x, rt_waits = w, rt_exhausted = True\<rparr>
           else if \<not> t x then Some \<lparr>rt_result = Inl x, rt_waits = w, rt_exhausted = False\<rparr>
           else rec t mr b fn attempt (w @ [b * 2 ^ (attempt - 1)]))) = Some r"
  show "mr = None \<and> (\<forall>k. \<exists>x. fn k = Inl x \<and> t x) \<longrightarrow> False"
  proof
    assume h: "mr = None \<and> (\<forall>k. \<exists>x. fn k = Inl x \<and> t x)"
    then obtain x where "fn n = Inl x" "t x" by blast
    with step h have "rec t None b fn (n + 1) (w @ [b * 2 ^ n]) = Some r"
      by (simp add: exceeds_def Let_def)
    with ih h show False by blast
  qed
qed

text \<open>\<open>SOROBAN_RPC_MAX_RETRIES\<close> is read with \<open>Number\<close>; a value that is not a number is \<open>NaN\<close>, which
  no attempt count exceeds. Against a node whose every answer is a transient failure the
  retry loop then never returns.
\<close>

theorem retry_nan_diverges:
  assumes "\<forall>k. \<exists>x. fn k = Inl x \<and> transient x"
  shows "withRpcRetry transient None base fn 0 [] = None"
  using assms retry_nan_partial [of transient None base fn 0 "[]"]
  by (cases "withRpcRetry transient None base fn 0 []") auto

theorem retry_nan_diverges_witness:
  "withRpcRetry (\<lambda>x. x = External ''fetch failed'') None 250 (\<lambda>k. Inl (External ''fetch failed'') :: unit result) 0 [] = None"
  by (rule retry_nan_diverges) simp

section \<open>What a caller gets back\<close>

lemma withRpcRetry_permanent:
  "fn n = Inl x \<Longrightarrow> \<not> transient x \<Longrightarrow> map_option rt_result (withRpcRetry transient mr base fn n waits) = Some (Inl x)"
  by (subst withRpcRetry.simps) (simp add: Let_def)

lemma timeout_transient:
  "rpcTimeoutMs K \<le> fst r \<Longrightarrow> withRpcTimeout label (rpcTimeoutMs K) r = Inl x \<Longrightarrow> isTransientRpcError K x"
proof -
  have app: "contains p v \<Longrightarrow> contains p (u @ v)" for p u v
    by (induction u) (simp_all add: startsWith_def)
  have here: "contains p (p @ v)" if "p \<noteq> []" for p v
    using that by (cases p) (simp_all add: startsWith_def)
  assume "rpcTimeoutMs K \<le> fst r" "withRpcTimeout label (rpcTimeoutMs K) r = Inl x"
  then have x: "x = Thrown (label @ '' timed out after '' @ toString (rpcTimeoutMs K) @ ''ms'')"
    by (simp add: withRpcTimeout_def raced_def)
  have "lower (label @ '' timed out after '' @ toString (rpcTimeoutMs K) @ ''ms'')
      = (lower label @ '' '') @ (''timed out'' @ ('' after '' @ lower (toString (rpcTimeoutMs K) @ ''ms'')))"
    by (simp add: lower_def lower_char_def code_def)
  then have "contains ''timed out'' (lower (label @ '' timed out after '' @ toString (rpcTimeoutMs K) @ ''ms''))"
    using app [OF here [of "''timed out''"]] by (metis list.distinct(1))
  then show ?thesis by (simp add: x isTransientRpcError_def transientMessage_def)
qed

lemma submit_Inl: "submitContractCall K invo secret = Some (r, sent) \<Longrightarrow> \<exists>x. r = Inl x"
  by (auto simp: submitContractCall_def pollTransactionStatus_def
      split: option.splits sum.splits simulation.splits send_response.splits if_splits)

text \<open>\<open>submitContractCall\<close> calls \<open>pollTransactionStatus\<close>, a function that is declared nowhere, after
  the transaction has been accepted: no submission returns a hash. When the account, the
  simulation and the submission all succeed, the transaction is on the network and the caller
  gets a ReferenceError.
\<close>

theorem submit_never_confirms:
  "(\<forall>h sent. submitContractCall K invo secret \<noteq> Some (Inr h, sent))
   \<and> (contractIdVar K \<noteq> [] \<and> validContractId K (contractIdVar K) \<and> publicKeyOf K secret = Some pk
      \<and> withRpcTimeout ''getAccount'' (rpcTimeoutMs K) (executeRpc K (getAccountRpc K pk)) = Inr u
      \<and> simulateTx K [invo] = Some (Inr (SimSuccess rv td fee ledger))
      \<and> withRpcTimeout ''sendTransaction'' (rpcTimeoutMs K) (executeRpc K (sendRpc K invo)) = Inr (SendOk h)
      \<longrightarrow> submitContractCall K invo secret = Some (Inl (ReferenceError ''pollTransactionStatus''), [invo]))"
  using submit_Inl [of K invo secret]
  by (fastforce simp: submitContractCall_def newContract_def pollTransactionStatus_def)

text \<open>A node that answers every request at once.\<close>

definition exampleChain :: chain where
  "exampleChain = \<lparr>contractIdVar = ''CCONTRACT'', keeperSecretVar = ''SKEEPER'', tokenAddressVar = Some ''CTOKEN'',
     serverOverride = True, validContractId = (\<lambda>c. c = ''CCONTRACT''),
     encodes = (\<lambda>a. case a of U64Arg n \<Rightarrow> 0 \<le> n \<and> n < 2 ^ 64 | _ \<Rightarrow> True),
     publicKeyOf = (\<lambda>s. Some (''G'' @ s)), engineMessage = (\<lambda>_. ''engine''), isAbort = (\<lambda>_. False),
     rpcTimeoutMs = 10000, rpcMaxRetries = Some 2, rpcRetryBaseMs = 250,
     simulateRpc = (\<lambda>_ _. (5, Inr (SimSuccess (Some (ScvI128 0 70)) ''data'' ''100'' 5000))),
     getAccountRpc = (\<lambda>_. (5, Inr ())), sendRpc = (\<lambda>_. (5, Inr (SendOk ''abc'')))\<rparr>"

lemma exampleChain_sel [simp]:
  "contractIdVar exampleChain = ''CCONTRACT''" "validContractId exampleChain c = (c = ''CCONTRACT'')"
  "publicKeyOf exampleChain s = Some (CHR ''G'' # s)" "rpcTimeoutMs exampleChain = 10000"
  "serverOverride exampleChain" "getAccountRpc exampleChain pk = (5, Inr ())" "sendRpc exampleChain i = (5, Inr (SendOk ''abc''))"
  "encodes exampleChain (U64Arg n) = (0 \<le> n \<and> n < 2 ^ 64)" "encodes exampleChain (AddrArg a)"
  "encodes exampleChain (I128Arg v)" "\<not> isAbort exampleChain x"
  by (simp_all add: exampleChain_def)

lemma exampleChain_simulate [simp]:
  "simulateTx exampleChain tx = Some (Inr (SimSuccess (Some (ScvI128 0 70)) ''data'' ''100'' 5000))"
  by (simp add: simulateTx_def retryCall_def withRpcRetry.simps withRpcTimeout_def raced_def executeRpc_def exampleChain_def)

theorem submit_never_confirms_witness:
  "submitContractCall exampleChain (''withdraw'', [AddrArg ''GA'', U64Arg 1]) ''SA'' =
     Some (Inl (ReferenceError ''pollTransactionStatus''), [(''withdraw'', [AddrArg ''GA'', U64Arg 1])])"
  using submit_never_confirms [of exampleChain "(''withdraw'', [AddrArg ''GA'', U64Arg 1])" "''SA''" "''GSA''" "()"
      "Some (ScvI128 0 70)" "''data''" "''100''" 5000 "''abc''"]
  by (simp add: executeRpc_def withRpcTimeout_def raced_def)

lemma not_transient_unbound: "\<not> isTransientRpcError K (ReferenceError ''rpcPool'')" if "\<not> isAbort K (ReferenceError ''rpcPool'')"
  using that
  by (simp add: isTransientRpcError_def transientMessage_def lower_def lower_char_def code_def startsWith_def word_char_def is_digit_def)

lemma unbound_simulateTx:
  assumes "\<not> serverOverride K" "0 < rpcTimeoutMs K" "\<not> isAbort K (ReferenceError ''rpcPool'')"
  shows "simulateTx K tx = Some (Inl (ReferenceError ''rpcPool''))"
  unfolding simulateTx_def retryCall_def using assms
  by (intro withRpcRetry_permanent not_transient_unbound) (simp_all add: executeRpc_def withRpcTimeout_def raced_def)

lemma unbound_encodedCall:
  assumes "\<not> serverOverride K" "0 < rpcTimeoutMs K" "\<not> isAbort K (ReferenceError ''rpcPool'')"
  shows "\<exists>x. encodedCall K invo = Some (Inl x)"
  using unbound_simulateTx [OF assms]
  by (auto simp: encodedCall_def simulateContractCall_def split: sum.split)

text \<open>\<open>executeRpc\<close> refers to \<open>rpcPool\<close>, which the module does not import. Unless a server is set with
  \<open>setServer\<close> (only the tests do), every chain read answers null, every action fails, and the
  health check reports the node as down, whatever the node would have answered.
\<close>

theorem unbound_pool_fails_closed:
  assumes "\<not> serverOverride K" "0 < rpcTimeoutMs K" "\<not> isAbort K (ReferenceError ''rpcPool'')" "0 < deadline"
  shows "getClaimableFromChain K sid = Some None \<and> getStreamFromChain K sk sid = Some None
    \<and> (\<exists>x. withdraw K sid addr = Some (Inl x)) \<and> (\<exists>x. pauseStream K addr sid = Some (Inl x))
    \<and> (\<exists>x. resumeStream K addr sid = Some (Inl x))
    \<and> \<not> fst (probeFinished K deadline call ttl doneAt h)"
proof (intro conjI)
  note c = unbound_encodedCall [OF assms(1-3)]
  show "getClaimableFromChain K sid = Some None"
    using c [of "(''get_claimable_amount'', [U64Arg sid])"] by (auto simp: getClaimableFromChain_def)
  show "getStreamFromChain K sk sid = Some None"
    using c [of "(''get_stream'', [U64Arg sid])"] by (auto simp: getStreamFromChain_def)
  have act: "\<exists>x. simulatedAction K f cm p addr sid = Some (Inl x)" for f cm p
    using c [of "(cm, [AddrArg addr, U64Arg sid])"] by (auto simp: simulatedAction_def)
  then show "\<exists>x. withdraw K sid addr = Some (Inl x)" "\<exists>x. pauseStream K addr sid = Some (Inl x)"
    "\<exists>x. resumeStream K addr sid = Some (Inl x)"
    by (simp_all add: withdraw_def pauseStream_def resumeStream_def)
  show "\<not> fst (probeFinished K deadline call ttl doneAt h)"
    using assms(1,4) by (simp add: probeFinished_def executeRpc_def withRpcTimeout_def raced_def Let_def)
qed

theorem unbound_pool_fails_closed_witness:
  "getClaimableFromChain (exampleChain\<lparr>serverOverride := False\<rparr>) 1 = Some None
   \<and> getClaimableFromChain exampleChain 1 = Some (Some ''70'')"
  using unbound_pool_fails_closed [of "exampleChain\<lparr>serverOverride := False\<rparr>" 3000 1]
  by (simp add: getClaimableFromChain_def encodedCall_def encodeArgs_def simulateContractCall_def newContract_def
      decodeI128_eq asIntN_def asUintN_def or_split)

lemma simulatedAction_hash: "simulatedAction K f cm p a sid = Some (Inr h) \<Longrightarrow> h = p @ toString sid"
  by (auto simp: simulatedAction_def split: if_splits sum.splits) (metis sumE)

text \<open>Pause, resume and withdraw only simulate the contract call: the hash they return is the same
  for every call on a stream, and nothing is sent to the network. The keeper-signed calls send
  argument lists that the contract's entry points do not declare: \<open>cancel_stream\<close> lacks the sender,
  \<open>top_up_stream\<close> has the caller last.
\<close>

theorem action_hashes_constant:
  "(\<forall>h. withdraw K sid a = Some (Inr h) \<longrightarrow> h = ''simulated-withdraw-'' @ toString sid)
   \<and> (\<forall>h. pauseStream K a sid = Some (Inr h) \<longrightarrow> h = ''simulated-pause-'' @ toString sid)
   \<and> (\<forall>h. resumeStream K a sid = Some (Inr h) \<longrightarrow> h = ''simulated-resume-'' @ toString sid)
   \<and> (\<forall>r sent invo. cancelStream K sid secret = Some (r, sent) \<and> invo \<in> set sent \<longrightarrow> \<not> conforms invo)
   \<and> (\<forall>r sent invo. topUpStream K sid amt a = Some (r, sent) \<and> invo \<in> set sent \<longrightarrow> \<not> conforms invo)"
proof (intro conjI allI impI)
  show "withdraw K sid a = Some (Inr h) \<Longrightarrow> h = ''simulated-withdraw-'' @ toString sid" for h
    unfolding withdraw_def by (rule simulatedAction_hash)
  show "pauseStream K a sid = Some (Inr h) \<Longrightarrow> h = ''simulated-pause-'' @ toString sid" for h
    unfolding pauseStream_def by (rule simulatedAction_hash)
  show "resumeStream K a sid = Some (Inr h) \<Longrightarrow> h = ''simulated-resume-'' @ toString sid" for h
    unfolding resumeStream_def by (rule simulatedAction_hash)
  have sub: "submitContractCall K i s = Some (r, sent) \<Longrightarrow> invo \<in> set sent \<Longrightarrow> invo = i" for i s r sent invo
    by (auto simp: submitContractCall_def split: if_splits option.splits sum.splits simulation.splits send_response.splits)
  show "cancelStream K sid secret = Some (r, sent) \<and> invo \<in> set sent \<Longrightarrow> \<not> conforms invo" for r sent invo
    by (auto simp: cancelStream_def dest: sub split: sum.splits)
  show "topUpStream K sid amt a = Some (r, sent) \<and> invo \<in> set sent \<Longrightarrow> \<not> conforms invo" for r sent invo
    by (auto simp: topUpStream_def dest: sub split: sum.splits if_splits)
qed

theorem action_hashes_constant_witness:
  "withdraw exampleChain 7 ''GA'' = Some (Inr ''simulated-withdraw-7'')"
proof -
  have "\<exists>h. withdraw exampleChain 7 ''GA'' = Some (Inr h)"
    by (simp add: withdraw_def simulatedAction_def encodedCall_def encodeArgs_def simulateContractCall_def newContract_def)
  then show ?thesis using action_hashes_constant [of exampleChain 7 "''GA''"] by auto
qed

end
