(* ===== verification/Action_Simulation.thy ===== *)
theory Action_Simulation
  imports Soroban_Service
begin

text \<open>
  Client-side signing: the second half of \<open>backend/src/services/sorobanService.ts\<close>
  (\<open>simulateStreamAction\<close> with its parameter checks, the translation of contract errors and
  the fee buffer) and its HTTP handler \<open>backend/src/controllers/stream/simulate.ts\<close>. The
  dash in the hint of error 2 is written as a hyphen.
\<close>

section \<open>Errors\<close>

record ApiError =
  ae_status :: int
  ae_message :: string
  ae_code :: string
  ae_details :: "(string \<times> json) list option"

datatype failure = Api ApiError | Raised err

type_synonym 'a api_result = "failure + 'a"

definition apiError :: "int \<Rightarrow> string \<Rightarrow> string \<Rightarrow> failure" where
  "apiError st m c = Api \<lparr>ae_status = st, ae_message = m, ae_code = c, ae_details = None\<rparr>"

definition raise :: "'a result \<Rightarrow> 'a api_result" where
  "raise r = (case r of Inl x \<Rightarrow> Inl (Raised x) | Inr v \<Rightarrow> Inr v)"

fun CONTRACT_ERROR_HINTS :: "int \<Rightarrow> (string \<times> string) option" where
  "CONTRACT_ERROR_HINTS n =
     (if n = 1 then Some (''Amount must be greater than zero'', ''Enter an amount above 0 stroops.'')
      else if n = 2 then Some (''Stream not found'', ''Refresh the stream list - this stream may have been cancelled or never existed on-chain.'')
      else if n = 3 then Some (''Caller is not authorized for this stream'', ''Only the stream sender can cancel or top up; only the recipient can withdraw.'')
      else if n = 4 then Some (''Stream is not active'', ''The stream was cancelled or fully withdrawn and cannot be modified.'')
      else if n = 5 then Some (''Protocol is already initialized'', ''This is a configuration action that can only be performed once.'')
      else if n = 6 then Some (''Caller is not the protocol admin'', ''Connect the admin wallet to perform this action.'')
      else if n = 7 then Some (''Fee rate exceeds the protocol maximum'', ''The fee rate must be at most 1000 bps (10%).'')
      else if n = 8 then Some (''Protocol config is not initialized'', ''The stream contract has not been initialized on this network yet.'')
      else if n = 9 then Some (''Duration must be greater than zero'', ''Set a stream duration of at least 1 second.'')
      else if n = 10 then Some (''Invalid token contract address'', ''Provide a deployed SEP-41 token contract address.'')
      else if n = 11 then Some (''Rate rounds to zero'', ''Increase the amount or shorten the duration so amount / duration is at least 1 stroop per second.'')
      else if n = 12 then Some (''Stream is paused'', ''Resume the stream before performing this action.'')
      else if n = 13 then Some (''Stream is not paused'', ''Only a paused stream can be resumed.'')
      else if n = 14 then Some (''Stream is already paused'', ''This stream is already paused.'')
      else None)"

declare CONTRACT_ERROR_HINTS.simps [simp del]

text \<open>
  The two regular expressions, matched at the leftmost position: the digits after
  \<open>Error(Contract, #\<close> up to the closing parenthesis, and up to four digits at most 40
  characters after \<open>contract trapped\<close>. \<open>Number\<close> of the digits is exact for the contract's codes.
\<close>

definition digitsValue :: "string \<Rightarrow> int" where
  "digitsValue ds = (case BigInt ds of None \<Rightarrow> 0 | Some n \<Rightarrow> toNumber n)"

definition hostErrorAt :: "string \<Rightarrow> string option" where
  "hostErrorAt s =
     (let p = ''error(contract,'' in
      if startsWith (lower s) p
      then (case dropWhile is_ws (drop (length p) s) of
              c # cs \<Rightarrow>
                (let ds = takeWhile is_digit cs in
                 if c = CHR ''#'' \<and> ds \<noteq> [] \<and> startsWith (dropWhile is_digit cs) '')'' then Some ds else None)
            | [] \<Rightarrow> None)
      else None)"

definition codeAt :: "string \<Rightarrow> string option" where
  "codeAt s =
     (let r = (case s of c # cs \<Rightarrow> if c = CHR ''#'' then cs else s | [] \<Rightarrow> []);
          ds = take 4 (takeWhile is_digit r)
      in if ds = [] then None else Some ds)"

fun lazyCode :: "nat \<Rightarrow> string \<Rightarrow> string option" where
  "lazyCode k s =
     (case codeAt s of
        Some ds \<Rightarrow> Some ds
      | None \<Rightarrow> (case (k, s) of
            (Suc j, c # cs) \<Rightarrow> if is_digit c then None else lazyCode j cs
          | _ \<Rightarrow> None))"

declare lazyCode.simps [simp del]

definition trappedAt :: "string \<Rightarrow> string option" where
  "trappedAt s =
     (let p = ''contract trapped'' in
      if startsWith (lower s) p then lazyCode 40 (drop (length p) s) else None)"

fun firstMatch :: "(string \<Rightarrow> string option) \<Rightarrow> string \<Rightarrow> string option" where
  "firstMatch m [] = m []"
| "firstMatch m (c # cs) = (case m (c # cs) of Some ds \<Rightarrow> Some ds | None \<Rightarrow> firstMatch m cs)"

definition parseContractErrorCode :: "string \<Rightarrow> int option" where
  "parseContractErrorCode raw =
     (case firstMatch hostErrorAt raw of
        Some ds \<Rightarrow> Some (digitsValue ds)
      | None \<Rightarrow> map_option digitsValue (firstMatch trappedAt raw))"

datatype StreamAction = Create | Withdraw | Cancel | TopUp | BatchWithdraw

fun actionName :: "StreamAction \<Rightarrow> string" where
  "actionName Create = ''create''"
| "actionName Withdraw = ''withdraw''"
| "actionName Cancel = ''cancel''"
| "actionName TopUp = ''top_up''"
| "actionName BatchWithdraw = ''batch_withdraw''"

definition toSimulationApiError :: "string \<Rightarrow> StreamAction \<Rightarrow> ApiError" where
  "toSimulationApiError rawError action =
     (let errorCode = parseContractErrorCode rawError;
          known = (case errorCode of None \<Rightarrow> None | Some n \<Rightarrow> CONTRACT_ERROR_HINTS n);
          message = (case known of
             Some (m, _) \<Rightarrow> m
           | None \<Rightarrow> ''Simulation of '' @ [char_of (34::nat)] @ actionName action @ [char_of (34::nat)] @ '' failed: '' @ rawError)
      in \<lparr>ae_status = 400, ae_message = message, ae_code = ''simulation_failed'',
          ae_details = Some ([(''action'', JStr (actionName action)), (''reason'', JStr rawError)]
             @ jopt ''contractErrorCode'' (map_option JNum errorCode)
             @ jopt ''hint'' (map_option (\<lambda>(_, h). JStr h) known))\<rparr>)"

section \<open>Parameters\<close>

text \<open>A JSON number of seconds; \<open>None\<close> is one that is not an integer.\<close>

record SimulateActionParams =
  pr_streamId :: "string option"
  pr_streamIds :: "string list option"
  pr_recipient :: "string option"
  pr_amount :: "string option"
  pr_duration :: "int option option"
  pr_tokenAddress :: "string option"

definition MAX_BATCH_WITHDRAW :: nat where
  "MAX_BATCH_WITHDRAW = 10"

definition required :: "string option \<Rightarrow> string \<Rightarrow> string api_result" where
  "required raw fld =
     (case raw of
        None \<Rightarrow> Inl (apiError 400 (fld @ '' is required'') ''invalid_params'')
      | Some s \<Rightarrow> if s = [] then Inl (apiError 400 (fld @ '' is required'') ''invalid_params'') else Inr s)"

definition toStreamId :: "string option \<Rightarrow> string \<Rightarrow> int api_result" where
  "toStreamId raw fld =
     bindE (required raw fld) (\<lambda>s.
     bindE (guardE (all_digits s) (apiError 400 (fld @ '' must be a non-negative integer string'') ''invalid_params'')) (\<lambda>_.
     raise (of_opt SyntaxError (BigInt s))))"

definition toPositiveI128 :: "string option \<Rightarrow> string \<Rightarrow> int api_result" where
  "toPositiveI128 raw fld =
     bindE (required raw fld) (\<lambda>s.
     bindE (guardE (all_digits s) (apiError 400 (fld @ '' must be a positive integer string'') ''invalid_params'')) (\<lambda>_.
     bindE (raise (of_opt SyntaxError (BigInt s))) (\<lambda>v.
     bindE (guardE (0 < v) (apiError 400 (fld @ '' must be greater than zero'') ''invalid_params'')) (\<lambda>_. Inr v))))"

definition toAddress :: "chain \<Rightarrow> string option \<Rightarrow> string \<Rightarrow> chain_arg api_result" where
  "toAddress K raw fld =
     bindE (required raw fld) (\<lambda>s.
     bindE (guardE (encodes K (AddrArg s)) (apiError 400 (fld @ '' is not a valid Stellar address'') ''invalid_params'')) (\<lambda>_.
     Inr (AddrArg s)))"

definition native :: "chain \<Rightarrow> chain_arg \<Rightarrow> chain_arg api_result" where
  "native K a = bindE (raise (encodeArgs K [a])) (\<lambda>_. Inr a)"

definition streamCall :: "chain \<Rightarrow> string \<Rightarrow> chain_arg \<Rightarrow> string option \<Rightarrow> string \<Rightarrow> invocation api_result" where
  "streamCall K entry sndr raw fld =
     bindE (toStreamId raw fld) (\<lambda>n. bindE (native K (U64Arg n)) (\<lambda>i. Inr (entry, [sndr, i])))"

fun mapE :: "('a \<Rightarrow> 'e + 'b) \<Rightarrow> 'a list \<Rightarrow> 'e + 'b list" where
  "mapE f [] = Inr []"
| "mapE f (x # xs) = bindE (f x) (\<lambda>y. bindE (mapE f xs) (\<lambda>ys. Inr (y # ys)))"

definition positiveDuration :: "int option option \<Rightarrow> int api_result" where
  "positiveDuration d =
     (case d of
        Some (Some n) \<Rightarrow>
          if 0 < n then Inr n
          else Inl (apiError 400 ''params.duration must be a positive integer (seconds)'' ''invalid_params'')
      | _ \<Rightarrow> Inl (apiError 400 ''params.duration must be a positive integer (seconds)'' ''invalid_params''))"

definition batchIds :: "SimulateActionParams \<Rightarrow> string list option" where
  "batchIds params =
     (case pr_streamIds params of
        Some ids \<Rightarrow> Some ids
      | None \<Rightarrow> (case pr_streamId params of Some s \<Rightarrow> if s = [] then None else Some [s] | None \<Rightarrow> None))"

fun buildInvocations :: "chain \<Rightarrow> StreamAction \<Rightarrow> chain_arg \<Rightarrow> SimulateActionParams \<Rightarrow> invocation list api_result" where
  "buildInvocations K Create sndr params =
     bindE (toAddress K (pr_recipient params) ''params.recipient'') (\<lambda>rcpt.
     bindE (toAddress K (Some (case pr_tokenAddress params of Some t \<Rightarrow> t
              | None \<Rightarrow> (case tokenAddressVar K of Some t \<Rightarrow> t | None \<Rightarrow> []))) ''params.tokenAddress'') (\<lambda>tok.
     bindE (toPositiveI128 (pr_amount params) ''params.amount'') (\<lambda>amt.
     bindE (positiveDuration (pr_duration params)) (\<lambda>dur.
     bindE (native K (I128Arg amt)) (\<lambda>a.
     bindE (native K (U64Arg dur)) (\<lambda>d.
     Inr [(''create_stream'', [sndr, rcpt, tok, a, d])]))))))"
| "buildInvocations K Withdraw sndr params =
     bindE (streamCall K ''withdraw'' sndr (pr_streamId params) ''params.streamId'') (\<lambda>c. Inr [c])"
| "buildInvocations K Cancel sndr params =
     bindE (streamCall K ''cancel_stream'' sndr (pr_streamId params) ''params.streamId'') (\<lambda>c. Inr [c])"
| "buildInvocations K TopUp sndr params =
     bindE (toStreamId (pr_streamId params) ''params.streamId'') (\<lambda>n.
     bindE (native K (U64Arg n)) (\<lambda>i.
     bindE (toPositiveI128 (pr_amount params) ''params.amount'') (\<lambda>amt.
     bindE (native K (I128Arg amt)) (\<lambda>a.
     Inr [(''top_up_stream'', [sndr, i, a])]))))"
| "buildInvocations K BatchWithdraw sndr params =
     (case batchIds params of
        None \<Rightarrow> Inl (apiError 400 ''params.streamIds is required for batch_withdraw'' ''invalid_params'')
      | Some ids \<Rightarrow>
          if ids = [] then Inl (apiError 400 ''params.streamIds is required for batch_withdraw'' ''invalid_params'')
          else if MAX_BATCH_WITHDRAW < length ids
          then Inl (apiError 400 (''batch_withdraw accepts at most '' @ nat_toString MAX_BATCH_WITHDRAW @ '' streams per transaction'') ''invalid_params'')
          else mapE (\<lambda>s. streamCall K ''withdraw'' sndr (Some s) ''params.streamIds[]'') ids)"

section \<open>The simulation\<close>

definition FEE_BUFFER_PERCENT :: int where
  "FEE_BUFFER_PERCENT = 15"

definition applyFeeBuffer :: "string \<Rightarrow> string result" where
  "applyFeeBuffer minResourceFee =
     bindE (of_opt SyntaxError (BigInt (if minResourceFee = [] then ''0'' else minResourceFee))) (\<lambda>base.
     let padded = (base * (100 + FEE_BUFFER_PERCENT)) sdiv 100
     in Inr (toString (if base < padded then padded else base + 1)))"

text \<open>
  What the SDK reads out of the answer: the assembled transaction, its footprint (\<open>None\<close> when
  reading it throws) and the base64 XDR of a value.
\<close>

record sdk =
  assembledXdr :: "invocation list \<Rightarrow> string \<Rightarrow> string"
  resourcesOf :: "string \<Rightarrow> (int \<times> int) option"
  base64Xdr :: "scval \<Rightarrow> string"
  simulationValidityLedgers :: int

definition readResourceFootprint :: "sdk \<Rightarrow> string \<Rightarrow> int \<times> int" where
  "readResourceFootprint S transactionData =
     (case resourcesOf S transactionData of Some r \<Rightarrow> r | None \<Rightarrow> (0, 0))"

definition decodeSimulatedReturn :: "sdk \<Rightarrow> scval option \<Rightarrow> string" where
  "decodeSimulatedReturn S retval =
     (case retval of
        None \<Rightarrow> []
      | Some (ScvI128 h l) \<Rightarrow> (case decodeI128 (ScvI128 h l) of Inl _ \<Rightarrow> [] | Inr s \<Rightarrow> s)
      | Some (ScvU64 n) \<Rightarrow> toString n
      | Some (ScvU32 n) \<Rightarrow> toString n
      | Some (ScvI64 n) \<Rightarrow> toString n
      | Some (ScvU128 h l) \<Rightarrow> toString (push_bit 64 (asUintN 64 h) OR asUintN 64 l)
      | Some v \<Rightarrow> base64Xdr S v)"

record StreamSimulationResult =
  unsignedXdr :: string
  minResourceFee :: string
  recommendedFee :: string
  cpuInstructions :: int
  memoryBytes :: int
  expiresAtLedger :: int
  simulatedReturn :: string

text \<open>
  Both calls evaluate \<open>getServer()\<close>. The first failure is caught (a placeholder account takes the
  sender's place); the loop over the retries may not end (\<open>None\<close>).
\<close>

definition simulateStreamAction ::
  "chain \<Rightarrow> sdk \<Rightarrow> StreamAction \<Rightarrow> string \<Rightarrow> SimulateActionParams \<Rightarrow> StreamSimulationResult api_result option" where
  "simulateStreamAction K S action senderPublicKey params =
     (if contractIdVar K = [] then Some (Inl (apiError 503 ''Stream contract is not configured'' ''contract_not_configured''))
      else case toAddress K (Some senderPublicKey) ''senderPublicKey'' of
        Inl x \<Rightarrow> Some (Inl x)
      | Inr sndr \<Rightarrow>
          (case buildInvocations K action sndr params of
             Inl x \<Rightarrow> Some (Inl x)
           | Inr invocations \<Rightarrow>
               (case newContract K of
                  Inl x \<Rightarrow> Some (Inl (Raised x))
                | Inr _ \<Rightarrow>
                    (case retryCall K (\<lambda>_. withRpcTimeout ''getAccount'' (rpcTimeoutMs K) (getServerCall :: int \<times> unit result)) of
                       None \<Rightarrow> None
                     | Some _ \<Rightarrow>
                         map_option
                           (\<lambda>r. bindE (raise r) (\<lambda>sim. case sim of
                              SimError e \<Rightarrow> Inl (Api (toSimulationApiError e action))
                            | SimSuccess retval td fee latest \<Rightarrow>
                                (let (cpu, mem) = readResourceFootprint S td in
                                 bindE (raise (applyFeeBuffer fee)) (\<lambda>rec.
                                 Inr \<lparr>unsignedXdr = assembledXdr S invocations td, minResourceFee = fee, recommendedFee = rec,
                                      cpuInstructions = cpu, memoryBytes = mem,
                                      expiresAtLedger = latest + simulationValidityLedgers S,
                                      simulatedReturn = decodeSimulatedReturn S retval\<rparr>))))
                           (retryCall K (\<lambda>_. withRpcTimeout ''simulateTransaction'' (rpcTimeoutMs K) getServerCall))))))"

section \<open>The handler\<close>

text \<open>
  The request schema. \<open>z.optional\<close> accepts a missing field only; numbers that are not integers are
  not part of \<open>json\<close>.
\<close>

definition lookup :: "string \<Rightarrow> json \<Rightarrow> json option" where
  "lookup k j = (case j of JObj fs \<Rightarrow> map_of fs k | _ \<Rightarrow> None)"

definition optionalField :: "(json \<Rightarrow> 'a option) \<Rightarrow> string \<Rightarrow> json \<Rightarrow> 'a option option" where
  "optionalField d k j = (case lookup k j of None \<Rightarrow> Some None | Some v \<Rightarrow> map_option Some (d v))"

fun zString :: "json \<Rightarrow> string option" where
  "zString (JStr s) = Some s"
| "zString _ = None"

fun zStrings :: "json \<Rightarrow> string list option" where
  "zStrings (JArr js) = those (map zString js)"
| "zStrings _ = None"

fun zPositiveInt :: "json \<Rightarrow> int option option" where
  "zPositiveInt (JNum n) = (if 0 < n then Some (Some n) else None)"
| "zPositiveInt _ = None"

definition zAction :: "json \<Rightarrow> StreamAction option" where
  "zAction j =
     (case zString j of
        None \<Rightarrow> None
      | Some s \<Rightarrow> List.find (\<lambda>a. actionName a = s) [Create, Withdraw, Cancel, TopUp, BatchWithdraw])"

definition zParams :: "json \<Rightarrow> SimulateActionParams option" where
  "zParams j =
     (case j of
        JObj _ \<Rightarrow>
          Option.bind (optionalField zString ''streamId'' j) (\<lambda>sid.
          Option.bind (optionalField zStrings ''streamIds'' j) (\<lambda>ids.
          Option.bind (optionalField zString ''recipient'' j) (\<lambda>rcpt.
          Option.bind (optionalField zString ''amount'' j) (\<lambda>amt.
          Option.bind (optionalField zPositiveInt ''duration'' j) (\<lambda>dur.
          Option.bind (optionalField zString ''tokenAddress'' j) (\<lambda>tok.
          Some \<lparr>pr_streamId = sid, pr_streamIds = ids, pr_recipient = rcpt, pr_amount = amt, pr_duration = dur,
                pr_tokenAddress = tok\<rparr>))))))
      | _ \<Rightarrow> None)"

definition simulateBodySchema :: "json \<Rightarrow> (StreamAction \<times> string \<times> SimulateActionParams) option" where
  "simulateBodySchema body =
     Option.bind (Option.bind (lookup ''action'' body) zAction) (\<lambda>action.
     Option.bind (Option.bind (lookup ''senderPublicKey'' body) zString) (\<lambda>pk.
     if pk = [] then None
     else Option.bind (zParams (case lookup ''params'' body of None \<Rightarrow> JObj [] | Some p \<Rightarrow> p)) (\<lambda>params.
     Some (action, pk, params))))"

datatype simulate_response =
    SimOk StreamSimulationResult
  | SimInvalid
  | SimApiError ApiError
  | SimUnexpected

fun simStatus :: "simulate_response \<Rightarrow> int" where
  "simStatus (SimOk _) = 200"
| "simStatus SimInvalid = 400"
| "simStatus (SimApiError x) = ae_status x"
| "simStatus SimUnexpected = 500"

definition simulateStreamHandler :: "chain \<Rightarrow> sdk \<Rightarrow> json \<Rightarrow> simulate_response option" where
  "simulateStreamHandler K S body =
     (case simulateBodySchema body of
        None \<Rightarrow> Some SimInvalid
      | Some (action, pk, params) \<Rightarrow>
          map_option (\<lambda>r. case r of Inr d \<Rightarrow> SimOk d | Inl (Api x) \<Rightarrow> SimApiError x | Inl (Raised _) \<Rightarrow> SimUnexpected)
            (simulateStreamAction K S action pk params))"

section \<open>Invocations follow the contract's interface\<close>

lemma mapE_Inr: "mapE f xs = Inr ys \<longleftrightarrow> list_all2 (\<lambda>x y. f x = Inr y) xs ys"
  by (induction xs arbitrary: ys) (auto simp: bindE_eq_Inr list_all2_Cons1)

lemma raise_Inr [simp]: "raise r = Inr v \<longleftrightarrow> r = Inr v"
  by (simp add: raise_def split: sum.split)

lemma native_Inr [simp]: "native K a = Inr b \<longleftrightarrow> encodes K a \<and> b = a"
  by (auto simp: native_def encodeArgs_def bindE_eq_Inr)

lemma toAddress_Inr: "toAddress K raw fld = Inr a \<longleftrightarrow> (\<exists>s. raw = Some s \<and> s \<noteq> [] \<and> a = AddrArg s \<and> encodes K (AddrArg s))"
  by (auto simp: toAddress_def required_def bindE_eq_Inr split: option.splits)

lemma toStreamId_Inr:
  "toStreamId raw fld = Inr n \<longleftrightarrow> (\<exists>s. raw = Some s \<and> s \<noteq> [] \<and> all_digits s \<and> BigInt s = Some n)"
  by (auto simp: toStreamId_def required_def bindE_eq_Inr split: option.splits)

lemma toPositiveI128_Inr:
  "toPositiveI128 raw fld = Inr n \<longleftrightarrow> (\<exists>s. raw = Some s \<and> s \<noteq> [] \<and> all_digits s \<and> BigInt s = Some n \<and> 0 < n)"
  by (auto simp: toPositiveI128_def required_def bindE_eq_Inr split: option.splits)

lemma streamCall_Inr:
  "streamCall K entry sndr raw fld = Inr c \<longleftrightarrow>
     (\<exists>n. toStreamId raw fld = Inr n \<and> encodes K (U64Arg n) \<and> c = (entry, [sndr, U64Arg n]))"
  by (auto simp: streamCall_def bindE_eq_Inr)

lemmas invocation_simps = bindE_eq_Inr streamCall_Inr toAddress_Inr toPositiveI128_Inr

text \<open>C11. Whatever parameters pass the checks of \<open>buildInvocations\<close>, the resulting transaction has between
  one and ten operations, and each is a call of an entry point of the contract with the argument
  list that entry point declares, the sender first, and only arguments the SDK can encode.
\<close>

theorem invocations_conform:
  assumes "buildInvocations K action (AddrArg s) params = Inr invs"
  shows "invs \<noteq> [] \<and> length invs \<le> MAX_BATCH_WITHDRAW
     \<and> list_all (\<lambda>i. conforms i \<and> hd (snd i) = AddrArg s \<and> list_all (encodes K) (tl (snd i))) invs"
proof (cases action)
  case BatchWithdraw
  with assms obtain ids where ids: "ids \<noteq> []" "length ids \<le> MAX_BATCH_WITHDRAW"
    "list_all2 (\<lambda>x i. streamCall K ''withdraw'' (AddrArg s) (Some x) ''params.streamIds[]'' = Inr i) ids invs"
    by (auto simp: mapE_Inr split: option.splits if_splits)
  have "conforms i \<and> hd (snd i) = AddrArg s \<and> list_all (encodes K) (tl (snd i))" if "i \<in> set invs" for i
    using ids(3) that by (auto simp: in_set_conv_nth list_all2_conv_all_nth streamCall_Inr)
  with ids list_all2_lengthD [OF ids(3)] show ?thesis by (auto simp: list_all_iff)
qed (use assms in \<open>auto simp: invocation_simps MAX_BATCH_WITHDRAW_def\<close>)

definition exampleParams :: SimulateActionParams where
  "exampleParams = \<lparr>pr_streamId = None, pr_streamIds = Some [''1'', ''2''], pr_recipient = None, pr_amount = None,
     pr_duration = None, pr_tokenAddress = None\<rparr>"

lemma example_batch:
  "buildInvocations exampleChain BatchWithdraw (AddrArg ''GA'') exampleParams =
     Inr [(''withdraw'', [AddrArg ''GA'', U64Arg 1]), (''withdraw'', [AddrArg ''GA'', U64Arg 2])]"
  using BigInt_toString [of 1] BigInt_toString [of 2]
  by (simp add: batchIds_def exampleParams_def MAX_BATCH_WITHDRAW_def bindE_eq_Inr streamCall_Inr toStreamId_Inr all_digits_def
      is_digit_def code_def)

theorem invocations_conform_witness:
  "conforms (''withdraw'', [AddrArg ''GA'', U64Arg 2])"
  using invocations_conform [OF example_batch] by simp

section \<open>Fees, error codes and the handler's answers\<close>

text \<open>The recommended fee of a non-negative minimum fee is strictly above it and at most one stroop
  above the 15 percent buffer; it may be short of the buffer by less than one stroop, since the
  division rounds down (the comment of \<open>applyFeeBuffer\<close> says it rounds up).
\<close>

theorem fee_buffer_bounds:
  assumes "BigInt fee = Some base" "fee \<noteq> []" "0 \<le> base"
  shows "\<exists>r. applyFeeBuffer fee = Inr (toString r) \<and> base < r \<and> 100 * r \<le> 115 * base + 100 \<and> 115 * base - 100 < 100 * r"
proof -
  define p where "p = (base * 115) div 100"
  have "applyFeeBuffer fee = Inr (toString (if base < p then p else base + 1))"
    using assms by (simp add: applyFeeBuffer_def Let_def FEE_BUFFER_PERCENT_def sdiv_nonneg p_def)
  moreover have "100 * p \<le> 115 * base" "115 * base - 100 < 100 * p"
    unfolding p_def by (simp_all add: algebra_simps)
  ultimately show ?thesis using assms(3) by auto
qed

theorem fee_buffer_bounds_witness:
  "applyFeeBuffer ''10'' = Inr ''11''
   \<and> (\<exists>r. applyFeeBuffer ''10'' = Inr (toString r) \<and> 10 < r \<and> 100 * r \<le> 1250 \<and> 1050 < 100 * r)"
proof -
  have ten: "BigInt ''10'' = Some 10" using BigInt_toString [of 10] by simp
  then have "applyFeeBuffer ''10'' = Inr ''11''"
    by (simp add: applyFeeBuffer_def Let_def FEE_BUFFER_PERCENT_def sdiv_nonneg)
  with fee_buffer_bounds [OF ten] show ?thesis by simp
qed

lemma digitsValue_nat: "n < 2 ^ 53 \<Longrightarrow> digitsValue (nat_toString n) = int n"
  using BigInt_toString [of "int n"]
  by (simp add: digitsValue_def toString_def toNumber_safe isSafeInteger_def MAX_SAFE_INTEGER_def)

lemma takeWhile_digits:
  "takeWhile is_digit (nat_toString n @ CHR '')'' # r) = nat_toString n"
  "dropWhile is_digit (nat_toString n @ CHR '')'' # r) = CHR '')'' # r"
proof -
  have "\<forall>c \<in> set (nat_toString n). is_digit c" using nat_toString_digits [of n] by (simp add: list_all_iff)
  moreover have "\<not> is_digit CHR '')''" by (simp add: is_digit_def code_def)
  ultimately show "takeWhile is_digit (nat_toString n @ CHR '')'' # r) = nat_toString n"
    "dropWhile is_digit (nat_toString n @ CHR '')'' # r) = CHR '')'' # r"
    by (simp_all add: takeWhile_append2 dropWhile_append2)
qed

text \<open>The contract error code that a node reports as \<open>HostError: Error(Contract, #n)\<close>, with whatever
  diagnostics after it, is read back as \<open>n\<close>.
\<close>

theorem error_code_roundtrip:
  assumes "n < 2 ^ 53"
  shows "parseContractErrorCode (''HostError: Error(Contract, #'' @ nat_toString n @ '')'' @ rest) = Some (int n)"
proof -
  have "hostErrorAt (''Error(Contract, #'' @ nat_toString n @ '')'' @ rest) = Some (nat_toString n)"
    by (simp add: hostErrorAt_def startsWith_def lower_def lower_char_def code_def char_of_def bit_0 is_ws_def takeWhile_digits Let_def)
  then have "firstMatch hostErrorAt (''HostError: Error(Contract, #'' @ nat_toString n @ '')'' @ rest) = Some (nat_toString n)"
    by (simp add: hostErrorAt_def startsWith_def lower_def lower_char_def code_def)
  then show ?thesis using assms by (simp add: parseContractErrorCode_def digitsValue_nat)
qed

theorem error_code_roundtrip_witness:
  "parseContractErrorCode ''HostError: Error(Contract, #11) at ledger 5'' = Some 11"
  using error_code_roundtrip [of 11 "'' at ledger 5''"] by simp

lemma unbound_getServer:
  assumes "0 < rpcTimeoutMs K" "\<not> isAbort K (ReferenceError ''getServer'')"
  shows "retryCall K (\<lambda>_. withRpcTimeout label (rpcTimeoutMs K) (getServerCall :: int \<times> 'a result))
    = Some (Inl (ReferenceError ''getServer''))"
  unfolding retryCall_def
proof (rule withRpcRetry_permanent)
  show "\<not> isTransientRpcError K (ReferenceError ''getServer'')"
    using assms(2)
    by (simp add: isTransientRpcError_def transientMessage_def lower_def lower_char_def code_def startsWith_def
        word_char_def is_digit_def char_of_def bit_0)
qed (use assms(1) in \<open>simp add: withRpcTimeout_def raced_def getServerCall_def\<close>)

lemma simulateStreamAction_fails:
  assumes "0 < rpcTimeoutMs K" "\<not> isAbort K (ReferenceError ''getServer'')"
  shows "\<exists>x. simulateStreamAction K S action pk params = Some (Inl x)
     \<and> (\<forall>a. x = Api a \<longrightarrow> ae_status a \<in> {400, 503})"
proof -
  have chk: "required raw fld = Inl (Api a) \<Longrightarrow> ae_status a = 400" for raw fld a
    by (auto simp: required_def apiError_def split: option.splits if_splits)
  have rz: "raise r = Inl (Api a) \<longleftrightarrow> False" for r :: "'z result" and a
    by (simp add: raise_def split: sum.split)
  have nat: "native K x = Inl (Api a) \<longleftrightarrow> False" for x a
    by (simp add: native_def bindE_eq_Inl rz)
  have adr: "toAddress K raw fld = Inl (Api a) \<Longrightarrow> ae_status a = 400" for raw fld a
    by (auto simp: toAddress_def bindE_eq_Inl guardE_def apiError_def dest: chk split: if_splits)
  have sid: "toStreamId raw fld = Inl (Api a) \<Longrightarrow> ae_status a = 400" for raw fld a
    by (auto simp: toStreamId_def bindE_eq_Inl guardE_def apiError_def rz dest: chk split: if_splits)
  have amt: "toPositiveI128 raw fld = Inl (Api a) \<Longrightarrow> ae_status a = 400" for raw fld a
    by (auto simp: toPositiveI128_def bindE_eq_Inl guardE_def apiError_def rz dest: chk split: if_splits)
  have dur: "positiveDuration d = Inl (Api a) \<Longrightarrow> ae_status a = 400" for d a
    by (auto simp: positiveDuration_def apiError_def split: option.splits if_splits)
  have cal: "streamCall K e sndr raw fld = Inl (Api a) \<Longrightarrow> ae_status a = 400" for e sndr raw fld a
    by (auto simp: streamCall_def bindE_eq_Inl nat dest: sid)
  have map: "mapE f xs = Inl (Api a) \<Longrightarrow> \<exists>x. f x = Inl (Api a)" for f :: "string \<Rightarrow> invocation api_result" and xs a
    by (induction xs) (auto simp: bindE_eq_Inl)
  have bld: "buildInvocations K action sndr params = Inl (Api a) \<Longrightarrow> ae_status a = 400" for sndr a
    by (cases action) (auto simp: bindE_eq_Inl nat apiError_def dest: adr sid amt dur cal map split: option.splits if_splits)
  show ?thesis
    by (auto simp: unbound_getServer [OF assms] simulateStreamAction_def apiError_def raise_def dest: adr bld split: sum.splits)
qed

text \<open>The endpoint that prepares transactions for a wallet calls \<open>getServer\<close>, a function that is
  declared nowhere: no request gets status 200. A valid request gets the generic 500, an invalid
  one its 400 (or 503 when no contract is configured).
\<close>

theorem simulate_never_succeeds:
  assumes "0 < rpcTimeoutMs K" "\<not> isAbort K (ReferenceError ''getServer'')"
  shows "\<exists>r. simulateStreamHandler K S body = Some r \<and> simStatus r \<in> {400, 500, 503}"
proof (cases "simulateBodySchema body")
  case None
  then show ?thesis by (simp add: simulateStreamHandler_def)
next
  case (Some b)
  obtain action pk params where b: "b = (action, pk, params)" by (cases b)
  obtain x where x: "simulateStreamAction K S action pk params = Some (Inl x)" "\<forall>a. x = Api a \<longrightarrow> ae_status a \<in> {400, 503}"
    using simulateStreamAction_fails [OF assms] by blast
  then show ?thesis using Some b by (cases x) (auto simp: simulateStreamHandler_def)
qed

theorem simulate_never_succeeds_witness:
  "\<exists>r. simulateStreamHandler exampleChain
       \<lparr>assembledXdr = (\<lambda>_ _. ''AAAA''), resourcesOf = (\<lambda>_. None), base64Xdr = (\<lambda>_. []), simulationValidityLedgers = 10\<rparr>
       (JObj [(''action'', JStr ''withdraw''), (''senderPublicKey'', JStr ''GA''), (''params'', JObj [(''streamId'', JStr ''1'')])]) = Some r
     \<and> simStatus r \<in> {400, 500, 503}"
  by (rule simulate_never_succeeds) simp_all

end
