(* ===== verification/Memory_Cache.thy ===== *)
theory Memory_Cache
  imports Js_Values
begin

text \<open>
  The per-process cache of \<open>backend/src/lib/redis.ts\<close>. The JavaScript \<open>Map\<close> keeps its entries
  in insertion order; deleting and re-inserting an entry moves it to the end, so the list
  below runs from the least to the most recently used entry. Time is passed in
  milliseconds. The timer that calls \<open>cleanup\<close> and the Redis connection are not modelled.
\<close>

record 'v item =
  item_value :: 'v
  createdAt :: int
  expiresAt :: int

record 'v memory_cache =
  entries :: "(string \<times> 'v item) list"
  hits :: nat
  misses :: nat
  maxItems :: int

definition DEFAULT_MEMORY_CACHE_MAX_ITEMS :: int where
  "DEFAULT_MEMORY_CACHE_MAX_ITEMS = 10000"

text \<open>The constructor; \<open>MEMORY_CACHE_MAX_ITEMS\<close> unset is \<open>None\<close>.\<close>

definition newCache :: "string option \<Rightarrow> int option \<Rightarrow> 'v memory_cache" where
  "newCache configured override =
     (let configuredMax = parseInt10 (case configured of None \<Rightarrow> [] | Some s \<Rightarrow> s);
          envMax = (case configuredMax of
                      Some n \<Rightarrow> if 0 < n then n else DEFAULT_MEMORY_CACHE_MAX_ITEMS
                    | None \<Rightarrow> DEFAULT_MEMORY_CACHE_MAX_ITEMS)
      in \<lparr>entries = [], hits = 0, misses = 0, maxItems = (case override of None \<Rightarrow> envMax | Some n \<Rightarrow> n)\<rparr>)"

definition mapDelete :: "string \<Rightarrow> (string \<times> 'a) list \<Rightarrow> (string \<times> 'a) list" where
  "mapDelete k xs = filter (\<lambda>e. fst e \<noteq> k) xs"

text \<open>Delete-then-set: the entry becomes the most recently used one.\<close>

definition reinsert :: "string \<Rightarrow> 'a \<Rightarrow> (string \<times> 'a) list \<Rightarrow> (string \<times> 'a) list" where
  "reinsert k i xs = mapDelete k xs @ [(k, i)]"

definition cacheGet :: "int \<Rightarrow> string \<Rightarrow> 'v memory_cache \<Rightarrow> 'v option \<times> 'v memory_cache" where
  "cacheGet now k c =
     (case map_of (entries c) k of
        None \<Rightarrow> (None, c\<lparr>misses := misses c + 1\<rparr>)
      | Some item \<Rightarrow>
          if expiresAt item \<le> now
          then (None, c\<lparr>entries := mapDelete k (entries c), misses := misses c + 1\<rparr>)
          else (Some (item_value item),
                c\<lparr>hits := hits c + 1, entries := reinsert k item (entries c)\<rparr>))"

text \<open>The loop of \<open>evictIfOverCapacity\<close>.\<close>

fun evict :: "int \<Rightarrow> 'a list \<Rightarrow> 'a list" where
  "evict cap [] = []"
| "evict cap (e # es) = (if cap < int (length (e # es)) then evict cap es else e # es)"

definition cacheSet :: "int \<Rightarrow> string \<Rightarrow> 'v \<Rightarrow> int \<Rightarrow> 'v memory_cache \<Rightarrow> 'v memory_cache" where
  "cacheSet now k v ttlMs c =
     c\<lparr>entries := evict (maxItems c)
         (reinsert k \<lparr>item_value = v, createdAt = now, expiresAt = now + ttlMs\<rparr> (entries c))\<rparr>"

definition cacheDel :: "string \<Rightarrow> 'v memory_cache \<Rightarrow> 'v memory_cache" where
  "cacheDel k c = c\<lparr>entries := mapDelete k (entries c)\<rparr>"

definition getMetadata :: "int \<Rightarrow> string \<Rightarrow> 'v memory_cache \<Rightarrow> (int \<times> int) option \<times> 'v memory_cache" where
  "getMetadata now k c =
     (case map_of (entries c) k of
        None \<Rightarrow> (None, c)
      | Some item \<Rightarrow>
          if expiresAt item \<le> now then (None, c\<lparr>entries := mapDelete k (entries c)\<rparr>)
          else (Some (createdAt item, expiresAt item), c\<lparr>entries := reinsert k item (entries c)\<rparr>))"

definition cleanup :: "int \<Rightarrow> 'v memory_cache \<Rightarrow> 'v memory_cache" where
  "cleanup now c = c\<lparr>entries := evict (maxItems c) (filter (\<lambda>e. now < expiresAt (snd e)) (entries c))\<rparr>"

section \<open>The contract clients rely on\<close>

text \<open>
  \<open>view\<close> is what a read at a given time would return. A client that stores only values
  standing in some relation to their key reads only such values, whatever is evicted.
\<close>

locale ttl_cache =
  fixes wf :: "'c \<Rightarrow> bool"
    and view :: "'c \<Rightarrow> int \<Rightarrow> string \<rightharpoonup> 'v"
    and get :: "int \<Rightarrow> string \<Rightarrow> 'c \<Rightarrow> 'v option \<times> 'c"
    and put :: "int \<Rightarrow> string \<Rightarrow> 'v \<Rightarrow> int \<Rightarrow> 'c \<Rightarrow> 'c"
    and peek :: "int \<Rightarrow> string \<Rightarrow> 'c \<Rightarrow> 'm option \<times> 'c"
  assumes get_view: "fst (get now k c) = view c now k"
    and wf_get: "wf c \<Longrightarrow> wf (snd (get now k c))"
    and wf_peek: "wf c \<Longrightarrow> wf (snd (peek now k c))"
    and wf_put: "wf c \<Longrightarrow> wf (put now k v ttl c)"
    and get_keeps: "view (snd (get now k c)) t k' = Some v \<Longrightarrow> view c t k' = Some v"
    and peek_keeps: "view (snd (peek now k c)) t k' = Some v \<Longrightarrow> view c t k' = Some v"
    and put_view: "wf c \<Longrightarrow> view (put now k v ttl c) t k' = Some v' \<Longrightarrow>
           (k' = k \<and> v' = v \<and> t < now + ttl) \<or> (k' \<noteq> k \<and> view c t k' = Some v')"
begin

definition only :: "(string \<Rightarrow> 'v \<Rightarrow> bool) \<Rightarrow> 'c \<Rightarrow> bool" where
  "only R c \<longleftrightarrow> wf c \<and> (\<forall>t k v. view c t k = Some v \<longrightarrow> R k v)"

lemma only_get: "only R c \<Longrightarrow> fst (get now k c) = Some v \<Longrightarrow> R k v"
  by (simp add: only_def get_view)

lemma only_after_get: "only R c \<Longrightarrow> only R (snd (get now k c))"
  by (auto simp: only_def wf_get dest: get_keeps)

lemma only_after_peek: "only R c \<Longrightarrow> only R (snd (peek now k c))"
  by (auto simp: only_def wf_peek dest: peek_keeps)

lemma only_after_put: "only R c \<Longrightarrow> R k v \<Longrightarrow> only R (put now k v ttl c)"
  by (auto simp: only_def wf_put dest: put_view)

end

section \<open>Properties\<close>

definition cacheView :: "'v memory_cache \<Rightarrow> int \<Rightarrow> string \<rightharpoonup> 'v" where
  "cacheView c now k =
     (case map_of (entries c) k of None \<Rightarrow> None
      | Some item \<Rightarrow> if expiresAt item \<le> now then None else Some (item_value item))"

definition wf_cache :: "'v memory_cache \<Rightarrow> bool" where
  "wf_cache c = (distinct (map fst (entries c)) \<and> int (length (entries c)) \<le> max 0 (maxItems c))"

lemma evict_drop: "evict cap es = drop (length es - nat (max 0 cap)) es"
proof (induction cap es rule: evict.induct)
  case (2 cap e es)
  show ?case
  proof (cases "cap < int (length (e # es))")
    case True
    then have "length (e # es) - nat (max 0 cap) = Suc (length es - nat (max 0 cap))"
      by (cases "cap \<le> 0") auto
    with True 2 show ?thesis by simp
  next
    case False
    then have "length (e # es) - nat (max 0 cap) = 0" by simp
    with False show ?thesis by simp
  qed
qed simp

lemma map_of_mapDelete: "map_of (mapDelete k xs) k' = (if k' = k then None else map_of xs k')"
  by (induction xs) (auto simp: mapDelete_def)

lemma mapDelete_keys: "map fst (mapDelete k xs) = filter (\<lambda>x. x \<noteq> k) (map fst xs)"
  by (induction xs) (auto simp: mapDelete_def)

lemma map_of_drop:
  assumes "distinct (map fst xs)" and "map_of (drop n xs) k = Some v"
  shows "map_of xs k = Some v"
  using assms(1) map_of_SomeD [OF assms(2)] by (auto dest: in_set_dropD)

lemma map_of_reinsert: "map_of (reinsert k i es) k' = (if k' = k then Some i else map_of es k')"
  by (simp add: reinsert_def map_add_def map_of_mapDelete split: option.split)

lemma mapDelete_length: "length (mapDelete k es) \<le> length es"
  by (simp add: mapDelete_def)

lemma mapDelete_distinct: "distinct (map fst es) \<Longrightarrow> distinct (map fst (mapDelete k es))"
  by (simp add: mapDelete_keys)

lemma reinsert_distinct: "distinct (map fst es) \<Longrightarrow> distinct (map fst (reinsert k i es))"
  by (simp add: reinsert_def mapDelete_keys)

lemma reinsert_length:
  assumes "map_of es k = Some i"
  shows "length (reinsert k i es) \<le> length es"
proof -
  have "length (mapDelete k es) < length es"
    unfolding mapDelete_def by (rule length_filter_less [of "(k, i)"]) (use map_of_SomeD [OF assms] in auto)
  then show ?thesis by (simp add: reinsert_def)
qed

lemma wf_entries:
  "wf_cache c \<Longrightarrow> distinct (map fst es) \<Longrightarrow> length es \<le> length (entries c) \<Longrightarrow> wf_cache (c\<lparr>entries := es\<rparr>)"
  by (simp add: wf_cache_def)

lemma wf_counters [simp]: "wf_cache (c\<lparr>hits := h\<rparr>) = wf_cache c" "wf_cache (c\<lparr>misses := m\<rparr>) = wf_cache c"
  "wf_cache (c\<lparr>hits := h, entries := es\<rparr>) = wf_cache (c\<lparr>entries := es\<rparr>)"
  "wf_cache (c\<lparr>entries := es, misses := m\<rparr>) = wf_cache (c\<lparr>entries := es\<rparr>)"
  by (simp_all add: wf_cache_def)

lemma wf_distinct: "wf_cache c \<Longrightarrow> distinct (map fst (entries c))"
  by (simp add: wf_cache_def)

lemma wf_cacheGet: "wf_cache c \<Longrightarrow> wf_cache (snd (cacheGet now k c))"
  by (auto simp: cacheGet_def wf_distinct split: option.split
      intro!: wf_entries mapDelete_distinct reinsert_distinct mapDelete_length reinsert_length)

lemma wf_getMetadata: "wf_cache c \<Longrightarrow> wf_cache (snd (getMetadata now k c))"
  by (auto simp: getMetadata_def wf_distinct split: option.split
      intro!: wf_entries mapDelete_distinct reinsert_distinct mapDelete_length reinsert_length)

lemma wf_cacheDel: "wf_cache c \<Longrightarrow> wf_cache (cacheDel k c)"
  unfolding cacheDel_def by (intro wf_entries mapDelete_distinct mapDelete_length wf_distinct)

lemma evict_wf: "distinct (map fst es) \<Longrightarrow> wf_cache (c\<lparr>entries := evict (maxItems c) es\<rparr>)"
  by (auto simp: wf_cache_def evict_drop drop_map [symmetric])

lemma wf_cacheSet: "wf_cache c \<Longrightarrow> wf_cache (cacheSet now k v ttl c)"
  unfolding cacheSet_def by (rule evict_wf) (simp add: wf_distinct reinsert_distinct)

lemma wf_cleanup: "wf_cache c \<Longrightarrow> wf_cache (cleanup now c)"
  unfolding cleanup_def by (rule evict_wf) (auto simp: wf_cache_def distinct_map inj_on_def)

lemma cacheSet_view:
  assumes "wf_cache c" and "cacheView (cacheSet now k v ttl c) t k' = Some v'"
  shows "(k' = k \<and> v' = v \<and> t < now + ttl) \<or> (k' \<noteq> k \<and> cacheView c t k' = Some v')"
proof -
  let ?new = "\<lparr>item_value = v, createdAt = now, expiresAt = now + ttl\<rparr>"
  from assms(2) obtain i where i: "map_of (entries (cacheSet now k v ttl c)) k' = Some i"
    and live: "t < expiresAt i" "v' = item_value i"
    by (auto simp: cacheView_def split: option.splits if_splits)
  have "map_of (reinsert k ?new (entries c)) k' = Some i"
    by (rule map_of_drop [OF reinsert_distinct [OF wf_distinct [OF assms(1)]]])
      (use i in \<open>simp add: cacheSet_def evict_drop\<close>)
  with live show ?thesis
    by (auto simp: map_of_reinsert cacheView_def split: if_splits)
qed

interpretation lru: ttl_cache wf_cache cacheView cacheGet cacheSet getMetadata
proof unfold_locales
  fix now t k k' v and c :: "'a memory_cache"
  show "fst (cacheGet now k c) = cacheView c now k"
    by (auto simp: cacheGet_def cacheView_def split: option.split)
  show "cacheView (snd (cacheGet now k c)) t k' = Some v \<Longrightarrow> cacheView c t k' = Some v"
    by (auto simp: cacheGet_def cacheView_def map_of_mapDelete map_of_reinsert split: option.splits if_splits)
  show "cacheView (snd (getMetadata now k c)) t k' = Some v \<Longrightarrow> cacheView c t k' = Some v"
    by (auto simp: getMetadata_def cacheView_def map_of_mapDelete map_of_reinsert split: option.splits if_splits)
qed (auto simp: wf_cacheGet wf_getMetadata wf_cacheSet dest: cacheSet_view)

section \<open>Bounds and recency\<close>

text \<open>One call on the cache, at any time and with any arguments.\<close>

inductive cache_step :: "'v memory_cache \<Rightarrow> 'v memory_cache \<Rightarrow> bool" where
  get: "cache_step c (snd (cacheGet now k c))"
| set: "cache_step c (cacheSet now k v ttl c)"
| del: "cache_step c (cacheDel k c)"
| metadata: "cache_step c (snd (getMetadata now k c))"
| sweep: "cache_step c (cleanup now c)"

lemma step_wf: "cache_step c c' \<Longrightarrow> wf_cache c \<Longrightarrow> wf_cache c'"
  by (induction rule: cache_step.induct) (simp_all add: wf_cacheGet wf_cacheSet wf_cacheDel wf_getMetadata wf_cleanup)

lemma maxItems_constant: "cache_step c c' \<Longrightarrow> maxItems c' = maxItems c"
  by (induction rule: cache_step.induct)
    (auto simp: cacheGet_def cacheSet_def cacheDel_def getMetadata_def cleanup_def split: option.split)

lemma reaches_wf: "cache_step\<^sup>*\<^sup>* c c' \<Longrightarrow> wf_cache c \<Longrightarrow> wf_cache c' \<and> maxItems c' = maxItems c"
  by (induction rule: rtranclp_induct) (auto dest: step_wf maxItems_constant)

lemma newCache_wf: "wf_cache (newCache configured override)"
  by (simp add: wf_cache_def newCache_def Let_def)

lemma newCache_default: "maxItems (newCache configured None) \<ge> 1"
  by (simp add: newCache_def Let_def DEFAULT_MEMORY_CACHE_MAX_ITEMS_def split: option.split)

text \<open>The cache stays bounded: after any sequence of reads, writes, deletions and sweeps on a cache made
  with the configured capacity, no key has two entries and there are at most as many
  entries as the capacity, which is at least 1 whatever the environment variable says.\<close>

theorem cache_bounded:
  assumes "cache_step\<^sup>*\<^sup>* (newCache configured None) c"
  shows "distinct (map fst (entries c)) \<and> int (length (entries c)) \<le> maxItems c \<and> 1 \<le> maxItems c"
  using reaches_wf [OF assms newCache_wf] newCache_default [of configured] by (auto simp: wf_cache_def)

lemma parse_one: "parseInt10 ''1'' = Some 1"
  by code_simp

theorem cache_bounded_witness:
  "length (entries (cacheSet 5 ''b'' 2 100 (cacheSet 0 ''a'' (1::nat) 100 (newCache (Some ''1'') None)))) \<le> 1"
proof -
  let ?c0 = "newCache (Some ''1'') None :: nat memory_cache"
  have "cache_step\<^sup>*\<^sup>* ?c0 (cacheSet 5 ''b'' 2 100 (cacheSet 0 ''a'' 1 100 ?c0))"
    by (meson cache_step.set converse_rtranclp_into_rtranclp rtranclp.rtrancl_refl)
  moreover have "maxItems (cacheSet 5 ''b'' 2 100 (cacheSet 0 ''a'' 1 100 ?c0)) = 1"
    by (simp add: cacheSet_def newCache_def parse_one)
  ultimately show ?thesis using cache_bounded [of "Some ''1''"] by fastforce
qed

text \<open>Read your own write until it expires: right after a write under a positive capacity the key holds the
  written value for every time before its expiry and nothing from then on; and only the
  least recently used entries are dropped, the survivors keeping their order.\<close>

theorem cache_set_then_get:
  assumes "wf_cache c" and "1 \<le> maxItems c"
  shows "cacheView (cacheSet now k v ttl c) t k = (if t < now + ttl then Some v else None)
    \<and> (\<exists>dropped. dropped @ entries (cacheSet now k v ttl c) =
         reinsert k \<lparr>item_value = v, createdAt = now, expiresAt = now + ttl\<rparr> (entries c))"
proof -
  let ?es = "reinsert k \<lparr>item_value = v, createdAt = now, expiresAt = now + ttl\<rparr> (entries c)"
  let ?n = "length ?es - nat (max 0 (maxItems c))"
  have es: "entries (cacheSet now k v ttl c) = drop ?n ?es" by (simp add: cacheSet_def evict_drop)
  have "?n \<le> length (mapDelete k (entries c))" using assms(2) by (simp add: reinsert_def)
  then have "drop ?n ?es = drop ?n (mapDelete k (entries c)) @ [(k, \<lparr>item_value = v, createdAt = now, expiresAt = now + ttl\<rparr>)]"
    by (simp add: reinsert_def)
  moreover have "map_of (drop ?n (mapDelete k (entries c))) k = None"
    by (auto simp: map_of_eq_None_iff mapDelete_def dest!: in_set_dropD)
  ultimately have "map_of (drop ?n ?es) k = Some \<lparr>item_value = v, createdAt = now, expiresAt = now + ttl\<rparr>"
    by (simp add: map_add_def)
  then have "cacheView (cacheSet now k v ttl c) t k = (if t < now + ttl then Some v else None)"
    by (simp add: cacheView_def es)
  moreover have "take ?n ?es @ entries (cacheSet now k v ttl c) = ?es" by (simp only: es append_take_drop_id)
  ultimately show ?thesis by blast
qed

theorem cache_set_then_get_witness: "cacheView (cacheSet 0 ''a'' (1::nat) 100 (newCache None (Some 1))) 99 ''a'' = Some 1"
  using cache_set_then_get [of "newCache None (Some 1) :: nat memory_cache" 0 "''a''" 1 100 99]
  by (simp add: newCache_wf newCache_def wf_cache_def Let_def)

end
