(* ===== verification/Claimable.thy ===== *)
theory Claimable
  imports Memory_Cache Prisma_Store
begin

text \<open>
  The claimable-amount service of \<open>backend/src/services/claimable.service.ts\<close>, on top of the
  memory cache. Amounts are BigInts clamped to the i128 range, as in the source. The
  service's clock (\<open>nowMs\<close>) and the cache's clock (\<open>wall\<close>) are passed in milliseconds.
\<close>

definition I128_MAX :: int where
  "I128_MAX = 2 ^ 127 - 1"

definition I128_MIN :: int where
  "I128_MIN = - (2 ^ 127)"

record ClaimableStreamState =
  cs_streamId :: int
  cs_ratePerSecond :: string
  cs_depositedAmount :: string
  cs_withdrawnAmount :: string
  cs_startTime :: int
  cs_lastUpdateTime :: int
  cs_isActive :: bool
  cs_isPaused :: bool
  cs_pausedAt :: "int option"
  cs_totalPausedDuration :: int
  cs_updatedAt :: "int option"

record claimable_value =
  cv_streamId :: int
  cv_claimableAmount :: string
  cv_actionable :: bool
  cv_calculatedAt :: int

definition CLAIMABLE_CACHE_BUCKET_SECONDS :: int where
  "CLAIMABLE_CACHE_BUCKET_SECONDS = 5"

definition clampI128 :: "int \<Rightarrow> int" where
  "clampI128 v = (if I128_MAX < v then I128_MAX else if v < I128_MIN then I128_MIN else v)"

definition saturatingSubI128 :: "int \<Rightarrow> int \<Rightarrow> int" where
  "saturatingSubI128 a b = clampI128 (a - b)"

definition checkedMulI128 :: "int \<Rightarrow> int \<Rightarrow> int option" where
  "checkedMulI128 a b = (let v = a * b in if I128_MAX < v \<or> v < I128_MIN then None else Some v)"

definition parseI128 :: "string \<Rightarrow> string \<Rightarrow> int result" where
  "parseI128 s fieldName =
     (case BigInt s of
        Some v \<Rightarrow> Inr (clampI128 v)
      | None \<Rightarrow> Inl (Thrown (''Invalid i128 value for '' @ [CHR 0x27] @ fieldName @ [CHR 0x27])))"

definition fingerprintParts :: "ClaimableStreamState \<Rightarrow> string list" where
  "fingerprintParts s =
     [cs_ratePerSecond s, cs_depositedAmount s, cs_withdrawnAmount s, toString (cs_startTime s),
      toString (cs_lastUpdateTime s), if cs_isActive s then ''1'' else ''0'', if cs_isPaused s then ''1'' else ''0'',
      case cs_pausedAt s of None \<Rightarrow> ''null'' | Some p \<Rightarrow> toString p, toString (cs_totalPausedDuration s)]"

definition getStateFingerprint :: "ClaimableStreamState \<Rightarrow> string" where
  "getStateFingerprint s =
     (let base = join '':'' (fingerprintParts s) in
      case cs_updatedAt s of None \<Rightarrow> base | Some u \<Rightarrow> base @ '':'' @ toString u)"

definition cacheKeyBucket :: "int \<Rightarrow> int" where
  "cacheKeyBucket t = t div CLAIMABLE_CACHE_BUCKET_SECONDS * CLAIMABLE_CACHE_BUCKET_SECONDS"

definition cacheKey :: "ClaimableStreamState \<Rightarrow> int \<Rightarrow> string" where
  "cacheKey s t =
     ''claimable:'' @ toString (cs_streamId s) @ '':'' @ getStateFingerprint s @ '':'' @ toString (cacheKeyBucket t)"

definition elapsedAt :: "ClaimableStreamState \<Rightarrow> int \<Rightarrow> int" where
  "elapsedAt s calculatedAt =
     (let anchorTime = (if 0 < cs_lastUpdateTime s then cs_lastUpdateTime s else 0);
          nowTs = max 0 calculatedAt;
          elapsed = (if anchorTime < nowTs then nowTs - anchorTime else 0)
      in case (cs_isPaused s, cs_pausedAt s) of
           (True, Some p) \<Rightarrow>
             (let currentPauseStart = (if 0 < p then p else 0) in
              if currentPauseStart < nowTs
              then (let currentPauseDuration = nowTs - currentPauseStart
                    in if currentPauseDuration < elapsed then elapsed - currentPauseDuration else 0)
              else elapsed)
         | _ \<Rightarrow> elapsed)"

definition computeClaimable :: "ClaimableStreamState \<Rightarrow> int \<Rightarrow> claimable_value result" where
  "computeClaimable s calculatedAt =
     bindE (parseI128 (cs_ratePerSecond s) ''ratePerSecond'') (\<lambda>rate.
     bindE (parseI128 (cs_depositedAmount s) ''depositedAmount'') (\<lambda>deposited.
     bindE (parseI128 (cs_withdrawnAmount s) ''withdrawnAmount'') (\<lambda>withdrawn.
     let remainingAmount = saturatingSubI128 deposited withdrawn;
         rawClaimable = (case checkedMulI128 (elapsedAt s calculatedAt) rate of
                           None \<Rightarrow> remainingAmount
                         | Some streamed \<Rightarrow> if remainingAmount < streamed then remainingAmount else streamed);
         actionableAmount = (if cs_isActive s \<and> 0 < rawClaimable then rawClaimable else 0)
     in Inr \<lparr>cv_streamId = cs_streamId s, cv_claimableAmount = toString actionableAmount,
             cv_actionable = (0 < actionableAmount), cv_calculatedAt = calculatedAt\<rparr>)))"

text \<open>\<open>cacheTtlMs\<close> is the service's option, clamped at 0; \<open>calculatedAt\<close> is the requested second or the clock's.\<close>

definition newTtl :: "int option \<Rightarrow> int" where
  "newTtl cacheTtlMs = max 0 (case cacheTtlMs of None \<Rightarrow> 5000 | Some n \<Rightarrow> n)"

type_synonym claimable_cache = "claimable_value memory_cache"

definition getClaimableAmount ::
  "int \<Rightarrow> int \<Rightarrow> int \<Rightarrow> ClaimableStreamState \<Rightarrow> int option \<Rightarrow> claimable_cache
     \<Rightarrow> (claimable_value \<times> bool \<times> int option) result \<times> claimable_cache" where
  "getClaimableAmount ttlMs nowMs wall s requestedAt c0 =
     (let calculatedAt = (case requestedAt of Some t \<Rightarrow> t | None \<Rightarrow> nowMs div 1000);
          key = cacheKey s calculatedAt
      in case cacheGet wall key c0 of
           (Some entry, c1) \<Rightarrow>
             (let (metadata, c2) = getMetadata wall key c1
              in (Inr (entry, True, map_option fst metadata), c2))
         | (None, c1) \<Rightarrow>
             (case computeClaimable s calculatedAt of
                Inl x \<Rightarrow> (Inl x, c1)
              | Inr v \<Rightarrow> (Inr (v, False, None), cacheSet wall key v ttlMs c1)))"

section \<open>Arithmetic\<close>

lemma clampI128_range: "I128_MIN \<le> clampI128 v \<and> clampI128 v \<le> I128_MAX"
  by (simp add: clampI128_def I128_MIN_def I128_MAX_def)

lemma clampI128_id: "I128_MIN \<le> v \<Longrightarrow> v \<le> I128_MAX \<Longrightarrow> clampI128 v = v"
  by (simp add: clampI128_def)

lemma elapsedAt_alt:
  "elapsedAt s t =
     (let n = max 0 t; e = max 0 (n - max 0 (cs_lastUpdateTime s)) in
      if cs_isPaused s \<and> cs_pausedAt s \<noteq> None then max 0 (e - max 0 (n - max 0 (the (cs_pausedAt s)))) else e)"
  by (auto simp: elapsedAt_def Let_def max_def split: option.split bool.split)

lemma elapsedAt_nonneg: "0 \<le> elapsedAt s t"
  by (simp add: elapsedAt_alt Let_def)

lemma elapsedAt_paused:
  assumes "cs_isPaused s" and "cs_pausedAt s = Some p" and "max 0 (cs_lastUpdateTime s) \<le> p" and "p \<le> t"
  shows "elapsedAt s t = p - max 0 (cs_lastUpdateTime s)"
  using assms by (simp add: elapsedAt_alt Let_def)

lemma max0_close: "\<bar>max 0 a - max 0 b\<bar> \<le> \<bar>a - b :: int\<bar>"
  by linarith

lemma max0_diff_close:
  "\<bar>(max 0 (n - a) - max 0 (n - p)) - (max 0 (m - a) - max 0 (m - p))\<bar> \<le> \<bar>n - m :: int\<bar>"
  by linarith

lemma elapsedAt_close: "\<bar>elapsedAt s t - elapsedAt s t'\<bar> \<le> \<bar>t - t'\<bar>"
proof -
  let ?n = "max 0 t" and ?m = "max 0 t'" and ?a = "max 0 (cs_lastUpdateTime s)" and ?p = "max 0 (the (cs_pausedAt s))"
  have nm: "\<bar>?n - ?m\<bar> \<le> \<bar>t - t'\<bar>" by (rule max0_close)
  have run: "\<bar>max 0 (?n - ?a) - max 0 (?m - ?a)\<bar> \<le> \<bar>?n - ?m\<bar>"
    using max0_close [of "?n - ?a" "?m - ?a"] by simp
  have pause: "\<bar>max 0 (max 0 (?n - ?a) - max 0 (?n - ?p)) - max 0 (max 0 (?m - ?a) - max 0 (?m - ?p))\<bar> \<le> \<bar>?n - ?m\<bar>"
    using max0_close max0_diff_close by (rule order_trans)
  show ?thesis
    using order_trans [OF run nm] order_trans [OF pause nm] by (simp only: elapsedAt_alt Let_def split: if_split) blast
qed

text \<open>The arithmetic without machine bounds.\<close>

definition claimableSpec :: "ClaimableStreamState \<Rightarrow> int \<Rightarrow> int" where
  "claimableSpec s t =
     (if cs_isActive s
      then max 0 (min (elapsedAt s t * amount (cs_ratePerSecond s))
                      (amount (cs_depositedAmount s) - amount (cs_withdrawnAmount s)))
      else 0)"

definition wf_claimable :: "ClaimableStreamState \<Rightarrow> bool" where
  "wf_claimable s =
     (is_amount (cs_ratePerSecond s) \<and> is_amount (cs_depositedAmount s) \<and> is_amount (cs_withdrawnAmount s)
      \<and> 0 \<le> amount (cs_ratePerSecond s) \<and> amount (cs_ratePerSecond s) \<le> I128_MAX
      \<and> 0 \<le> amount (cs_withdrawnAmount s) \<and> amount (cs_withdrawnAmount s) \<le> I128_MAX
      \<and> 0 \<le> amount (cs_depositedAmount s) \<and> amount (cs_depositedAmount s) \<le> I128_MAX)"

lemma parseI128_amount:
  "is_amount x \<Longrightarrow> I128_MIN \<le> amount x \<Longrightarrow> amount x \<le> I128_MAX \<Longrightarrow> parseI128 x f = Inr (amount x)"
  by (simp add: parseI128_def is_amount_BigInt clampI128_id)

lemma claimable_equals_spec:
  assumes "wf_claimable s"
  shows "computeClaimable s t = Inr \<lparr>cv_streamId = cs_streamId s, cv_claimableAmount = toString (claimableSpec s t),
           cv_actionable = (0 < claimableSpec s t), cv_calculatedAt = t\<rparr>"
proof -
  let ?r = "amount (cs_ratePerSecond s)" and ?d = "amount (cs_depositedAmount s)" and ?w = "amount (cs_withdrawnAmount s)"
  let ?e = "elapsedAt s t"
  have neg: "I128_MIN \<le> 0" "I128_MIN \<le> - I128_MAX" by (simp_all add: I128_MIN_def I128_MAX_def)
  have p: "parseI128 (cs_ratePerSecond s) f = Inr ?r" "parseI128 (cs_depositedAmount s) f = Inr ?d"
    "parseI128 (cs_withdrawnAmount s) f = Inr ?w" for f
    using assms neg by (auto simp: wf_claimable_def intro!: parseI128_amount)
  have sub: "saturatingSubI128 ?d ?w = ?d - ?w"
    using assms neg by (auto simp: wf_claimable_def saturatingSubI128_def intro!: clampI128_id)
  have "0 \<le> ?e * ?r" using assms elapsedAt_nonneg by (auto simp: wf_claimable_def)
  then have raw: "(case checkedMulI128 ?e ?r of None \<Rightarrow> ?d - ?w | Some st \<Rightarrow> if ?d - ?w < st then ?d - ?w else st)
      = min (?e * ?r) (?d - ?w)"
    using assms neg by (auto simp: wf_claimable_def checkedMulI128_def Let_def)
  have act: "(if cs_isActive s \<and> 0 < min (?e * ?r) (?d - ?w) then min (?e * ?r) (?d - ?w) else 0) = claimableSpec s t"
    by (auto simp: claimableSpec_def)
  show ?thesis unfolding computeClaimable_def p bindE_Inr Let_def sub raw act by simp
qed

text \<open>C7. The claimable amount is exact: for a stream whose rate, deposit and withdrawn total are non-negative
  i128 values, the clamped and overflow-checked computation gives what unbounded integers
  give, the smaller of what has streamed since the last update and what is left, and 0
  for an inactive or overdrawn stream.\<close>

theorem claimable_exact:
  assumes "wf_claimable s"
  shows "\<exists>v. computeClaimable s t = Inr v \<and> amount (cv_claimableAmount v) = claimableSpec s t
    \<and> (cv_actionable v \<longleftrightarrow> 0 < claimableSpec s t)"
  by (simp add: claimable_equals_spec [OF assms])

definition exampleState :: ClaimableStreamState where
  "exampleState =
     \<lparr>cs_streamId = 7, cs_ratePerSecond = toString 10, cs_depositedAmount = toString 1000,
      cs_withdrawnAmount = toString 50, cs_startTime = 1700, cs_lastUpdateTime = 1710, cs_isActive = True,
      cs_isPaused = False, cs_pausedAt = None, cs_totalPausedDuration = 0, cs_updatedAt = None\<rparr>"

lemma exampleState_wf: "wf_claimable exampleState"
  by (simp add: wf_claimable_def exampleState_def I128_MAX_def del: toString_eval)

theorem claimable_exact_witness:
  "\<exists>v. computeClaimable exampleState 1730 = Inr v \<and> amount (cv_claimableAmount v) = 200 \<and> cv_actionable v"
  using claimable_exact [OF exampleState_wf, of 1730]
  by (simp add: claimableSpec_def exampleState_def elapsedAt_alt del: toString_eval)

text \<open>What can be claimed is never negative and never more than what is left in the stream, for every
  state the service accepts, even one with amounts outside the i128 range; an inactive
  stream has nothing claimable.\<close>

theorem claimable_bounds:
  assumes "computeClaimable s t = Inr v"
  shows "0 \<le> amount (cv_claimableAmount v)
    \<and> amount (cv_claimableAmount v) \<le> max 0 (saturatingSubI128 (clampI128 (amount (cs_depositedAmount s))) (clampI128 (amount (cs_withdrawnAmount s))))
    \<and> (cv_actionable v \<longleftrightarrow> 0 < amount (cv_claimableAmount v)) \<and> (\<not> cs_isActive s \<longrightarrow> \<not> cv_actionable v)"
proof -
  from assms obtain d w where "BigInt (cs_depositedAmount s) = Some d" "BigInt (cs_withdrawnAmount s) = Some w"
    by (auto simp: computeClaimable_def bindE_eq_Inr parseI128_def split: option.splits)
  then show ?thesis
    using assms by (auto simp: computeClaimable_def bindE_eq_Inr parseI128_def amount_def Let_def split: option.splits)
qed

theorem claimable_bounds_witness:
  "\<exists>v. computeClaimable exampleState 9999 = Inr v \<and> amount (cv_claimableAmount v) \<le> 950"
proof -
  obtain v where "computeClaimable exampleState 9999 = Inr v"
    using claimable_equals_spec [OF exampleState_wf] by blast
  with claimable_bounds [OF this] show ?thesis
    by (auto simp: exampleState_def saturatingSubI128_def clampI128_def I128_MAX_def I128_MIN_def simp del: toString_eval)
qed

text \<open>A paused stream accrues nothing: from the moment of the pause on, the claimable amount does not depend
  on the time of the request.\<close>

theorem paused_stream_frozen:
  assumes "cs_isPaused s" and "cs_pausedAt s = Some p" and "max 0 (cs_lastUpdateTime s) \<le> p" and "p \<le> t" and "p \<le> t'"
  shows "map_sum id cv_claimableAmount (computeClaimable s t) = map_sum id cv_claimableAmount (computeClaimable s t')"
proof -
  have "elapsedAt s t = elapsedAt s t'"
    using elapsedAt_paused [OF assms(1-3)] assms(4,5) by simp
  then show ?thesis
    by (simp add: computeClaimable_def bindE_def Let_def split: sum.split)
qed

theorem paused_stream_frozen_witness:
  "map_sum id cv_claimableAmount (computeClaimable (exampleState\<lparr>cs_isPaused := True, cs_pausedAt := Some 1720\<rparr>) 1730)
     = map_sum id cv_claimableAmount (computeClaimable (exampleState\<lparr>cs_isPaused := True, cs_pausedAt := Some 1720\<rparr>) 5000)"
  by (rule paused_stream_frozen [where p = 1720]) (simp_all add: exampleState_def)

section \<open>Cache keys\<close>

lemma split_join:
  "ws \<noteq> [] \<Longrightarrow> list_all (\<lambda>w. CHR '':'' \<notin> set w) ws \<Longrightarrow> js_split CHR '':'' (join '':'' ws) = ws"
  by (induction ws rule: induct_list012) (auto simp: js_split_no_sep js_split_append)

lemma join_append:
  "xs \<noteq> [] \<Longrightarrow> ys \<noteq> [] \<Longrightarrow> join sep (xs @ ys) = join sep xs @ sep @ join sep ys"
  by (induction xs rule: induct_list012) (auto simp: neq_Nil_conv)

lemma toString_chars: "list_all (\<lambda>c. is_digit c \<or> c = CHR ''-'') (toString i)"
  using nat_toString_digits by (auto simp: toString_def list_all_iff)

lemma no_colon_digit: "\<not> is_digit CHR '':''" "\<not> is_digit CHR ''n''"
  by (simp_all add: is_digit_def code_def)

lemma toString_no_colon [simp]: "CHR '':'' \<notin> set (toString i)"
  using toString_chars [of i] no_colon_digit by (auto simp: list_all_iff)

lemma toString_not_null [simp]: "toString i \<noteq> ''null''" "''null'' \<noteq> toString i"
proof -
  show "toString i \<noteq> ''null''"
  proof
    assume "toString i = ''null''"
    with toString_chars [of i] no_colon_digit show False by simp
  qed
  then show "''null'' \<noteq> toString i" by simp
qed

lemma is_amount_no_colon: "is_amount x \<Longrightarrow> CHR '':'' \<notin> set x"
  by (metis is_amount_BigInt toString_no_colon)

definition keyParts :: "ClaimableStreamState \<Rightarrow> int \<Rightarrow> string list" where
  "keyParts s t =
     ''claimable'' # toString (cs_streamId s) # fingerprintParts s
       @ (case cs_updatedAt s of None \<Rightarrow> [] | Some u \<Rightarrow> [toString u]) @ [toString (cacheKeyBucket t)]"

lemma cacheKey_join: "cacheKey s t = join '':'' (keyParts s t)"
proof (cases "cs_updatedAt s")
  case None
  have "join '':'' (fingerprintParts s @ [toString (cacheKeyBucket t)])
      = join '':'' (fingerprintParts s) @ '':'' @ toString (cacheKeyBucket t)"
    by (subst join_append) (simp_all add: fingerprintParts_def)
  with None show ?thesis
    by (simp add: cacheKey_def keyParts_def getStateFingerprint_def) (simp add: fingerprintParts_def)
next
  case (Some u)
  have "join '':'' (fingerprintParts s @ [toString u, toString (cacheKeyBucket t)])
      = join '':'' (fingerprintParts s) @ '':'' @ toString u @ '':'' @ toString (cacheKeyBucket t)"
    by (subst join_append) (simp_all add: fingerprintParts_def)
  with Some show ?thesis
    by (simp add: cacheKey_def keyParts_def getStateFingerprint_def) (simp add: fingerprintParts_def)
qed

lemma keyParts_no_colon:
  "wf_claimable s \<Longrightarrow> list_all (\<lambda>w. CHR '':'' \<notin> set w) (keyParts s t)"
  by (simp add: keyParts_def fingerprintParts_def wf_claimable_def is_amount_no_colon split: option.split)

lemma cacheKey_injective:
  assumes "wf_claimable s" and "wf_claimable s'" and "cacheKey s t = cacheKey s' t'"
  shows "s = s' \<and> cacheKeyBucket t = cacheKeyBucket t'"
proof -
  have "keyParts s t = keyParts s' t'"
    using split_join [OF _ keyParts_no_colon [OF assms(1)], of t] split_join [OF _ keyParts_no_colon [OF assms(2)], of t']
      assms(3) by (simp add: cacheKey_join keyParts_def)
  then show ?thesis
    by (auto simp: keyParts_def fingerprintParts_def split: option.splits if_splits)
qed

section \<open>Cached answers\<close>

definition fromService :: "string \<Rightarrow> claimable_value \<Rightarrow> bool" where
  "fromService k v \<longleftrightarrow> (\<exists>s t. wf_claimable s \<and> k = cacheKey s t \<and> computeClaimable s t = Inr v)"

text \<open>A cache that only the service has written to, for well-formed streams.\<close>

definition serviceCache :: "claimable_cache \<Rightarrow> bool" where
  "serviceCache c \<longleftrightarrow> wf_cache c \<and> (\<forall>t k v. cacheView c t k = Some v \<longrightarrow> fromService k v)"

lemma serviceCache_only: "serviceCache c = lru.only fromService c"
  by (simp add: serviceCache_def lru.only_def)

lemma serviceCache_new: "serviceCache (newCache configured override)"
  by (simp add: serviceCache_def newCache_wf) (simp add: cacheView_def newCache_def Let_def)

lemma same_bucket_close: "cacheKeyBucket t = cacheKeyBucket t' \<Longrightarrow> \<bar>t - t'\<bar> \<le> 4"
  by (simp add: cacheKeyBucket_def CLAIMABLE_CACHE_BUCKET_SECONDS_def)

lemma clip_close: "\<bar>max 0 (min a r) - max 0 (min b r)\<bar> \<le> \<bar>a - b :: int\<bar>"
  by linarith

lemma claimableSpec_close:
  assumes "wf_claimable s"
  shows "\<bar>claimableSpec s t - claimableSpec s t'\<bar> \<le> \<bar>t - t'\<bar> * amount (cs_ratePerSecond s)"
proof -
  let ?r = "amount (cs_ratePerSecond s)"
  have r: "0 \<le> ?r" using assms by (simp add: wf_claimable_def)
  have "\<bar>claimableSpec s t - claimableSpec s t'\<bar> \<le> \<bar>elapsedAt s t * ?r - elapsedAt s t' * ?r\<bar>"
    using clip_close by (simp add: claimableSpec_def)
  also have "\<dots> = \<bar>elapsedAt s t - elapsedAt s t'\<bar> * ?r"
    using r by (simp add: abs_mult flip: left_diff_distrib)
  also have "\<dots> \<le> \<bar>t - t'\<bar> * ?r"
    by (rule mult_right_mono [OF elapsedAt_close r])
  finally show ?thesis .
qed

lemma cached_answer:
  assumes "serviceCache c" and "wf_claimable s"
    and "t = (case requestedAt of Some q \<Rightarrow> q | None \<Rightarrow> nowMs div 1000)"
  shows "\<exists>v cached at t'. fst (getClaimableAmount ttl nowMs wall s requestedAt c) = Inr (v, cached, at)
      \<and> cacheKeyBucket t' = cacheKeyBucket t \<and> cv_claimableAmount v = toString (claimableSpec s t')
      \<and> (cv_actionable v \<longleftrightarrow> 0 < claimableSpec s t')
      \<and> \<bar>amount (cv_claimableAmount v) - claimableSpec s t\<bar> \<le> 4 * amount (cs_ratePerSecond s)
      \<and> serviceCache (snd (getClaimableAmount ttl nowMs wall s requestedAt c))"
proof -
  let ?k = "cacheKey s t"
  obtain r c1 where g: "cacheGet wall ?k c = (r, c1)" by fastforce
  have only: "lru.only fromService c" and only1: "lru.only fromService c1"
    using assms(1) lru.only_after_get [of fromService c wall ?k] g by (simp_all add: serviceCache_only)
  have near: "\<bar>claimableSpec s t' - claimableSpec s t\<bar> \<le> 4 * amount (cs_ratePerSecond s)"
    if "cacheKeyBucket t' = cacheKeyBucket t" for t'
    using claimableSpec_close [OF assms(2), of t' t] same_bucket_close [OF that] assms(2)
    by (auto simp: wf_claimable_def intro: order_trans mult_right_mono)
  show ?thesis
  proof (cases r)
    case None
    have "fromService ?k \<lparr>cv_streamId = cs_streamId s, cv_claimableAmount = toString (claimableSpec s t),
           cv_actionable = (0 < claimableSpec s t), cv_calculatedAt = t\<rparr>"
      unfolding fromService_def using assms(2) claimable_equals_spec by blast
    from lru.only_after_put [OF only1 this] None g assms(3) near [of t] show ?thesis
      by (auto simp: getClaimableAmount_def Let_def claimable_equals_spec [OF assms(2)] serviceCache_only)
  next
    case (Some v)
    then have "fromService ?k v"
      using lru.only_get [OF only, of wall ?k v] g by simp
    then obtain s' t' where "wf_claimable s'" "?k = cacheKey s' t'" "computeClaimable s' t' = Inr v"
      by (auto simp: fromService_def)
    with cacheKey_injective [OF assms(2)] have t': "computeClaimable s t' = Inr v" "cacheKeyBucket t' = cacheKeyBucket t"
      by metis+
    then have v: "cv_claimableAmount v = toString (claimableSpec s t')" "cv_actionable v \<longleftrightarrow> 0 < claimableSpec s t'"
      by (auto simp: claimable_equals_spec [OF assms(2)])
    obtain md c2 where md: "getMetadata wall ?k c1 = (md, c2)" by fastforce
    with lru.only_after_peek [OF only1, of wall ?k] have "serviceCache c2" by (simp add: serviceCache_only)
    with Some g md assms(3) t' v near [OF t'(2)] show ?thesis
      by (auto simp: getClaimableAmount_def Let_def)
  qed
qed

text \<open>C8. A cached answer is never another stream's and never stale by more than four seconds: on a cache only the
  service has written, a request for a well-formed stream returns the exact amount of that
  very state at a second of the same five-second bucket, so it differs from the exact
  amount by at most four seconds of the stream's rate; and the cache stays such a cache.\<close>

theorem claimable_cache_sound:
  assumes "serviceCache c" and "wf_claimable s"
    and "t = (case requestedAt of Some q \<Rightarrow> q | None \<Rightarrow> nowMs div 1000)"
  shows "\<exists>v cached at t'. fst (getClaimableAmount ttl nowMs wall s requestedAt c) = Inr (v, cached, at)
      \<and> cacheKeyBucket t' = cacheKeyBucket t \<and> amount (cv_claimableAmount v) = claimableSpec s t'
      \<and> (cv_actionable v \<longleftrightarrow> 0 < claimableSpec s t')
      \<and> \<bar>amount (cv_claimableAmount v) - claimableSpec s t\<bar> \<le> 4 * amount (cs_ratePerSecond s)
      \<and> serviceCache (snd (getClaimableAmount ttl nowMs wall s requestedAt c))"
  using cached_answer [OF assms] by (metis amount_toString)

theorem claimable_cache_sound_witness:
  "\<exists>v cached at. fst (getClaimableAmount 5000 1731000 1731000 exampleState None
       (snd (getClaimableAmount 5000 1730000 1730000 exampleState None (newCache None None)))) = Inr (v, cached, at)
     \<and> \<bar>amount (cv_claimableAmount v) - 210\<bar> \<le> 40"
proof -
  let ?c = "snd (getClaimableAmount 5000 1730000 1730000 exampleState None (newCache None None))"
  have "serviceCache ?c"
    using claimable_cache_sound [OF serviceCache_new exampleState_wf refl,
        where ttl = 5000 and nowMs = 1730000 and wall = 1730000 and requestedAt = None] by blast
  moreover have "claimableSpec exampleState 1731 = 210" "amount (cs_ratePerSecond exampleState) = 10"
    by (simp_all add: claimableSpec_def exampleState_def elapsedAt_alt del: toString_eval)
  ultimately show ?thesis
    using claimable_cache_sound [OF _ exampleState_wf, where c = ?c and t = 1731 and ttl = 5000 and nowMs = 1731000
        and wall = 1731000 and requestedAt = None] by auto
qed

end
