(* ===== verification/Stream_Api.thy ===== *)
theory Stream_Api
  imports Action_Simulation Claimable Withdrawal_Ledger Examples
begin

text \<open>
  The endpoints that act on a stream: withdrawal (\<open>backend/src/routes/v1/streams/withdraw.ts\<close>),
  cancellation (\<open>controllers/stream/cancel.ts\<close>), creation, top-up, pause and resume
  (\<open>controllers/stream.controller.ts\<close>), with \<open>lib/stream-id.ts\<close>, the request schema of
  \<open>validators/stream.validator.ts\<close> and \<open>updateStatus\<close> of \<open>repositories/stream.repository.ts\<close>.
  A handler returns the response and the new state; \<open>None\<close> is a retry loop that never ends.
  The database may change between two of a handler's calls: what other requests and the
  indexer do there is an argument.
\<close>

section \<open>Stream identifiers\<close>

datatype raw_id = RawBigint int | RawNumber "int option" | RawString string | RawOther

text \<open>A number that is not an integer is \<open>RawNumber None\<close>.\<close>

fun parseStreamId :: "raw_id \<Rightarrow> int option" where
  "parseStreamId (RawBigint n) = (if 0 \<le> n then Some n else None)"
| "parseStreamId (RawNumber None) = None"
| "parseStreamId (RawNumber (Some n)) = (if n < 0 \<or> \<not> isSafeInteger n then None else Some n)"
| "parseStreamId (RawString s) = (let t = trim s in if all_digits t then BigInt t else None)"
| "parseStreamId RawOther = None"

section \<open>Requests, responses and the database calls of the handlers\<close>

text \<open>
  The environment of a request: the chain, the SDK's strkey encoders, the claimable cache's
  time to live, and the clocks a handler reads: \<open>Date.now()\<close> at the claimable computation and the
  cache's clock (milliseconds), the second at the update, and the value of \<open>@updatedAt\<close>.
\<close>

record request_env =
  re_chain :: chain
  re_strkey :: strkey
  re_ttlMs :: int
  re_nowMs :: int
  re_wall :: int
  re_nowSec :: int
  re_updatedAt :: int

datatype 'b response = Failure int string | Success int 'b

fun httpStatus :: "'b response \<Rightarrow> int" where
  "httpStatus (Failure st _) = st"
| "httpStatus (Success st _) = st"

text \<open>A 64-bit column or parameter: Prisma and Postgres reject a value outside the range.\<close>

definition int8 :: "int \<Rightarrow> bool" where
  "int8 n = (- (2 ^ 63) \<le> n \<and> n < 2 ^ 63)"

definition stream_findUnique :: "int \<Rightarrow> db \<Rightarrow> stream_row option result" where
  "stream_findUnique sid d = (if int8 sid then Inr (streams d sid) else Inl (PrismaError ''P2033''))"

text \<open>\<open>(column::bigint + $1::bigint)::text\<close>; each cast and the sum may be out of range.\<close>

definition sqlBigint :: "string \<Rightarrow> int result" where
  "sqlBigint s =
     bindE (of_opt (External ''invalid input syntax for type bigint'') (signed_decimal (trim s))) (\<lambda>n.
     bindE (guardE (int8 n) (External ''bigint out of range'')) (\<lambda>_. Inr n))"

definition sqlAdd :: "string \<Rightarrow> string \<Rightarrow> string result" where
  "sqlAdd column x =
     bindE (sqlBigint column) (\<lambda>a.
     bindE (sqlBigint x) (\<lambda>b.
     bindE (guardE (int8 (a + b)) (External ''bigint out of range'')) (\<lambda>_. Inr (toString (a + b)))))"

definition sqlUpdate :: "int \<Rightarrow> (stream_row \<Rightarrow> stream_row result) \<Rightarrow> db \<Rightarrow> db result" where
  "sqlUpdate sid f d =
     (case streams d sid of
        None \<Rightarrow> Inr d
      | Some r \<Rightarrow> bindE (f r) (\<lambda>r'. Inr (d\<lparr>streams := (streams d)(sid \<mapsto> r')\<rparr>)))"

datatype stream_status = ACTIVE | CANCELLED | COMPLETED | PAUSED

definition updateStatus :: "int \<Rightarrow> int \<Rightarrow> stream_status \<Rightarrow> db \<Rightarrow> db result" where
  "updateStatus now sid st d = stream_update now sid (\<lambda>r. r\<lparr>isActive := (st = ACTIVE \<or> st = PAUSED)\<rparr>) d"

definition claimState :: "stream_row \<Rightarrow> ClaimableStreamState" where
  "claimState r =
     \<lparr>cs_streamId = streamId r, cs_ratePerSecond = ratePerSecond r, cs_depositedAmount = depositedAmount r,
      cs_withdrawnAmount = withdrawnAmount r, cs_startTime = startTime r, cs_lastUpdateTime = lastUpdateTime r,
      cs_isActive = isActive r, cs_isPaused = isPaused r, cs_pausedAt = pausedAt r,
      cs_totalPausedDuration = totalPausedDuration r, cs_updatedAt = Some (updatedAt r)\<rparr>"

section \<open>Withdrawal\<close>

record withdraw_body =
  wb_streamId :: int
  wb_txHash :: string
  wb_amount :: string
  wb_stream :: "stream_row option"

text \<open>The interactive transaction; an error rolls it back.\<close>

definition withdrawTx :: "request_env \<Rightarrow> int \<Rightarrow> bool \<Rightarrow> int \<Rightarrow> db \<Rightarrow> (stream_row option \<times> db) result" where
  "withdrawTx E sid wasActive withdrawAmount d =
     bindE (sqlUpdate sid (\<lambda>r.
        bindE (sqlAdd (withdrawnAmount r) (toString withdrawAmount)) (\<lambda>w.
        Inr (r\<lparr>withdrawnAmount := w, lastUpdateTime := re_nowSec E\<rparr>))) d) (\<lambda>d1.
     case streams d1 sid of
       None \<Rightarrow> Inr (None, d1)
     | Some refreshed \<Rightarrow>
         if wasActive then
           bindE (of_opt SyntaxError (BigInt (withdrawnAmount refreshed))) (\<lambda>w.
           bindE (of_opt SyntaxError (BigInt (depositedAmount refreshed))) (\<lambda>dep.
           if dep \<le> w
           then bindE (stream_update (re_updatedAt E) sid (\<lambda>r. r\<lparr>isActive := False\<rparr>) d1) (\<lambda>d2.
                  Inr (Some (refreshed\<lparr>isActive := False\<rparr>), d2))
           else Inr (Some refreshed, d1)))
         else Inr (Some refreshed, d1))"

definition withdrawnEvent :: "int \<Rightarrow> string \<Rightarrow> string \<Rightarrow> int \<Rightarrow> string \<Rightarrow> event_row" where
  "withdrawnEvent sid amt txHash now caller =
     \<lparr>ev_streamId = sid, ev_eventType = ''WITHDRAWN'', ev_amount = Some amt, ev_transactionHash = txHash,
      ev_ledgerSequence = 0, ev_timestamp = now,
      ev_metadata = Some (JSON_stringify (JObj [(''withdrawnBy'', JStr caller)]))\<rparr>"

text \<open>
  \<open>m1\<close> is what happens between the first read and the transaction, \<open>m2\<close> between the transaction
  and the event row.
\<close>

definition withdrawHandler ::
  "request_env \<Rightarrow> (db \<Rightarrow> db) \<Rightarrow> (db \<Rightarrow> db) \<Rightarrow> string \<Rightarrow> string \<Rightarrow> db \<times> claimable_cache
     \<Rightarrow> (withdraw_body response \<times> db \<times> claimable_cache) option" where
  "withdrawHandler E m1 m2 streamIdParam caller s =
     (let (d, c) = s in
      case parseStreamId (RawString streamIdParam) of
        None \<Rightarrow> Some (Failure 400 ''INVALID_STREAM_ID'', d, c)
      | Some sid \<Rightarrow>
      case stream_findUnique sid d of
        Inl _ \<Rightarrow> Some (Failure 500 ''INTERNAL_SERVER_ERROR'', d, c)
      | Inr None \<Rightarrow> Some (Failure 404 ''NOT_FOUND'', d, c)
      | Inr (Some stream) \<Rightarrow>
      if recipient stream \<noteq> caller then Some (Failure 403 ''FORBIDDEN'', d, c)
      else case getClaimableAmount (re_ttlMs E) (re_nowMs E) (re_wall E) (claimState stream) None c of
        (Inl _, c1) \<Rightarrow> Some (Failure 500 ''INTERNAL_SERVER_ERROR'', d, c1)
      | (Inr (claimable, _), c1) \<Rightarrow>
      if \<not> cv_actionable claimable then Some (Failure 409 ''CONFLICT'', d, c1)
      else case withdraw (re_chain E) sid caller of
        None \<Rightarrow> None
      | Some (Inl _) \<Rightarrow> Some (Failure 400 ''WITHDRAWAL_FAILED'', d, c1)
      | Some (Inr txHash) \<Rightarrow>
      case bindE (of_opt SyntaxError (BigInt (cv_claimableAmount claimable)))
             (\<lambda>amt. withdrawTx E sid (isActive stream) amt (m1 d)) of
        Inl _ \<Rightarrow> Some (Failure 400 ''WITHDRAWAL_FAILED'', m1 d, c1)
      | Inr (updatedStream, d2) \<Rightarrow>
      case event_upsert (Some txHash) ''WITHDRAWN''
             (\<lambda>h. withdrawnEvent sid (cv_claimableAmount claimable) h (re_nowSec E) caller) (\<lambda>r. r) (m2 d2) of
        Inl _ \<Rightarrow> Some (Failure 400 ''WITHDRAWAL_FAILED'', m2 d2, c1)
      | Inr d3 \<Rightarrow>
          Some (Success 200 \<lparr>wb_streamId = sid, wb_txHash = txHash, wb_amount = cv_claimableAmount claimable,
                             wb_stream = updatedStream\<rparr>, d3, c1))"

section \<open>Cancellation and top-up\<close>

definition cancelStreamHandler ::
  "request_env \<Rightarrow> (db \<Rightarrow> db) \<Rightarrow> string \<Rightarrow> string \<Rightarrow> string option \<Rightarrow> db
     \<Rightarrow> (string response \<times> db \<times> invocation list) option" where
  "cancelStreamHandler E m1 streamIdParam caller senderSecret d =
     (if streamIdParam = [] then Some (Failure 400 ''MISSING_STREAM_ID'', d, [])
      else case parseStreamId (RawString streamIdParam) of
        None \<Rightarrow> Some (Failure 400 ''INVALID_STREAM_ID'', d, [])
      | Some sid \<Rightarrow>
      case stream_findUnique sid d of
        Inl _ \<Rightarrow> Some (Failure 500 ''INTERNAL_SERVER_ERROR'', d, [])
      | Inr None \<Rightarrow> Some (Failure 404 ''NOT_FOUND'', d, [])
      | Inr (Some stream) \<Rightarrow>
      if sender stream \<noteq> caller then Some (Failure 403 ''FORBIDDEN'', d, [])
      else if \<not> isActive stream then Some (Failure 409 ''CONFLICT'', d, [])
      else case senderSecret of
        None \<Rightarrow> Some (Failure 400 ''INVALID_REQUEST'', d, [])
      | Some secret \<Rightarrow>
      if secret = [] then Some (Failure 400 ''INVALID_REQUEST'', d, [])
      else case cancelStream (re_chain E) sid secret of
        None \<Rightarrow> None
      | Some (Inl x, sent) \<Rightarrow>
          Some (if contains ''Simulation failed'' (messageOf (re_chain E) x)
                then Failure 400 ''TRANSACTION_SIMULATION_FAILED'' else Failure 500 ''INTERNAL_SERVER_ERROR'', d, sent)
      | Some (Inr txHash, sent) \<Rightarrow>
      case updateStatus (re_updatedAt E) sid CANCELLED (m1 d) of
        Inl _ \<Rightarrow> Some (Failure 500 ''INTERNAL_SERVER_ERROR'', m1 d, sent)
      | Inr d1 \<Rightarrow> Some (Success 200 txHash, d1, sent))"

definition TOP_UP_AMOUNT_MAX_DIGITS :: nat where
  "TOP_UP_AMOUNT_MAX_DIGITS = 30"

definition topUpBodySchema :: "json \<Rightarrow> string option" where
  "topUpBodySchema body =
     (case Option.bind (lookup ''amount'' body) zString of
        Some s \<Rightarrow> if all_digits s \<and> length s \<le> TOP_UP_AMOUNT_MAX_DIGITS then Some s else None
      | None \<Rightarrow> None)"

definition topUpStreamHandler ::
  "request_env \<Rightarrow> (db \<Rightarrow> db) \<Rightarrow> string \<Rightarrow> json \<Rightarrow> string option \<Rightarrow> db
     \<Rightarrow> ((string \<times> string) response \<times> db \<times> invocation list) option" where
  "topUpStreamHandler E m1 streamIdParam body caller d =
     (case parseStreamId (RawString streamIdParam) of
        None \<Rightarrow> Some (Failure 400 ''INVALID_STREAM_ID'', d, [])
      | Some sid \<Rightarrow>
      case Option.bind (topUpBodySchema body) BigInt of
        None \<Rightarrow> Some (Failure 400 ''VALIDATION_ERROR'', d, [])
      | Some amt \<Rightarrow>
      if amt \<le> 0 then Some (Failure 400 ''INVALID_AMOUNT'', d, [])
      else case caller of
        None \<Rightarrow> Some (Failure 401 ''UNAUTHORIZED'', d, [])
      | Some callerAddress \<Rightarrow>
      if callerAddress = [] then Some (Failure 401 ''UNAUTHORIZED'', d, [])
      else case stream_findUnique sid d of
        Inl _ \<Rightarrow> Some (Failure 400 ''TOP_UP_FAILED'', d, [])
      | Inr None \<Rightarrow> Some (Failure 404 ''NOT_FOUND'', d, [])
      | Inr (Some stream) \<Rightarrow>
      if sender stream \<noteq> callerAddress then Some (Failure 403 ''FORBIDDEN'', d, [])
      else if \<not> isActive stream \<or> isPaused stream then Some (Failure 409 ''CONFLICT'', d, [])
      else case topUpStream (re_chain E) sid amt callerAddress of
        None \<Rightarrow> None
      | Some (Inl _, sent) \<Rightarrow> Some (Failure 400 ''TOP_UP_FAILED'', d, sent)
      | Some (Inr txHash, sent) \<Rightarrow>
      case sqlUpdate sid (\<lambda>r. bindE (sqlAdd (depositedAmount r) (toString amt)) (\<lambda>x.
             Inr (r\<lparr>depositedAmount := x, lastUpdateTime := re_nowSec E\<rparr>))) (m1 d) of
        Inl _ \<Rightarrow> Some (Failure 400 ''TOP_UP_FAILED'', m1 d, sent)
      | Inr d1 \<Rightarrow>
          (case streams d1 sid of
             None \<Rightarrow> Some (Failure 400 ''TOP_UP_FAILED'', d1, sent)
           | Some r \<Rightarrow> Some (Success 200 (txHash, depositedAmount r), d1, sent)))"

section \<open>Pause and resume\<close>

definition pauseStreamHandler ::
  "request_env \<Rightarrow> string \<Rightarrow> string option \<Rightarrow> db \<Rightarrow> (string \<times> stream_row) response option" where
  "pauseStreamHandler E streamIdParam user d =
     (case user of
        None \<Rightarrow> Some (Failure 401 ''UNAUTHORIZED'')
      | Some caller \<Rightarrow>
      case parseStreamId (RawString streamIdParam) of
        None \<Rightarrow> Some (Failure 400 ''INVALID_STREAM_ID'')
      | Some sid \<Rightarrow>
      case stream_findUnique sid d of
        Inl _ \<Rightarrow> Some (Failure 500 ''INTERNAL_SERVER_ERROR'')
      | Inr None \<Rightarrow> Some (Failure 404 ''NOT_FOUND'')
      | Inr (Some stream) \<Rightarrow>
      if sender stream \<noteq> caller then Some (Failure 403 ''FORBIDDEN'')
      else if isPaused stream \<or> \<not> isActive stream then Some (Failure 409 ''CONFLICT'')
      else map_option (\<lambda>r. case r of Inr h \<Rightarrow> Success 200 (h, stream) | Inl _ \<Rightarrow> Failure 400 ''PAUSE_FAILED'')
             (pauseStream (re_chain E) caller sid))"

definition resumeStreamHandler ::
  "request_env \<Rightarrow> string \<Rightarrow> string option \<Rightarrow> db \<Rightarrow> (string \<times> stream_row) response option" where
  "resumeStreamHandler E streamIdParam user d =
     (case user of
        None \<Rightarrow> Some (Failure 401 ''UNAUTHORIZED'')
      | Some caller \<Rightarrow>
      case parseStreamId (RawString streamIdParam) of
        None \<Rightarrow> Some (Failure 400 ''INVALID_STREAM_ID'')
      | Some sid \<Rightarrow>
      case stream_findUnique sid d of
        Inl _ \<Rightarrow> Some (Failure 500 ''INTERNAL_SERVER_ERROR'')
      | Inr None \<Rightarrow> Some (Failure 404 ''NOT_FOUND'')
      | Inr (Some stream) \<Rightarrow>
      if sender stream \<noteq> caller then Some (Failure 403 ''FORBIDDEN'')
      else if \<not> isPaused stream then Some (Failure 409 ''CONFLICT'')
      else map_option (\<lambda>r. case r of Inr h \<Rightarrow> Success 200 (h, stream) | Inl _ \<Rightarrow> Failure 400 ''RESUME_FAILED'')
             (resumeStream (re_chain E) caller sid))"

section \<open>Creation\<close>

record create_input =
  ci_streamId :: int
  ci_sender :: string
  ci_recipient :: string
  ci_tokenAddress :: string
  ci_ratePerSecond :: string
  ci_depositedAmount :: string
  ci_startTime :: int

definition MAX_I128 :: int where
  "MAX_I128 = 170141183460469231731687303715884105727"

fun zStreamId :: "json \<Rightarrow> int option" where
  "zStreamId (JNum n) = parseStreamId (RawNumber (Some n))"
| "zStreamId (JStr s) = parseStreamId (RawString s)"
| "zStreamId _ = None"

definition zNonEmpty :: "json \<Rightarrow> string option" where
  "zNonEmpty j = (case zString j of Some s \<Rightarrow> if s = [] then None else Some s | None \<Rightarrow> None)"

definition zDigits :: "json \<Rightarrow> string option" where
  "zDigits j = (case zString j of Some s \<Rightarrow> if all_digits s then Some s else None | None \<Rightarrow> None)"

definition zRate :: "json \<Rightarrow> string option" where
  "zRate j =
     Option.bind (zDigits j) (\<lambda>s.
     case BigInt s of
       None \<Rightarrow> Some s
     | Some n \<Rightarrow> if n \<le> MAX_I128 then Some s else None)"

fun zStartTime :: "json \<Rightarrow> int option" where
  "zStartTime (JNum n) = (if 0 \<le> n then Some n else None)"
| "zStartTime (JStr s) = (if all_digits s then map_option toNumber (parseInt10 s) else None)"
| "zStartTime _ = None"

definition createStreamSchema :: "json \<Rightarrow> create_input option" where
  "createStreamSchema body =
     Option.bind (Option.bind (lookup ''streamId'' body) zStreamId) (\<lambda>sid.
     Option.bind (Option.bind (lookup ''sender'' body) zNonEmpty) (\<lambda>sndr.
     Option.bind (Option.bind (lookup ''recipient'' body) zNonEmpty) (\<lambda>rcpt.
     Option.bind (Option.bind (lookup ''tokenAddress'' body) zNonEmpty) (\<lambda>tok.
     Option.bind (Option.bind (lookup ''ratePerSecond'' body) zRate) (\<lambda>rate.
     Option.bind (Option.bind (lookup ''depositedAmount'' body) zDigits) (\<lambda>dep.
     Option.bind (Option.bind (lookup ''startTime'' body) zStartTime) (\<lambda>st.
     Some \<lparr>ci_streamId = sid, ci_sender = sndr, ci_recipient = rcpt, ci_tokenAddress = tok, ci_ratePerSecond = rate,
           ci_depositedAmount = dep, ci_startTime = st\<rparr>)))))))"

definition matchesChain :: "create_input \<Rightarrow> int \<Rightarrow> int \<Rightarrow> ChainStream \<Rightarrow> bool" where
  "matchesChain i rate dep ch =
     (ch_sender ch = ci_sender i \<and> ch_recipient ch = ci_recipient i \<and> ch_tokenAddress ch = ci_tokenAddress i
      \<and> ch_ratePerSecond ch = toString rate \<and> ch_depositedAmount ch = toString dep \<and> ch_startTime ch = ci_startTime i)"

definition createdRow :: "int \<Rightarrow> int \<Rightarrow> ChainStream \<Rightarrow> stream_row" where
  "createdRow sid endT ch =
     \<lparr>streamId = sid, sender = ch_sender ch, recipient = ch_recipient ch, tokenAddress = ch_tokenAddress ch,
      ratePerSecond = ch_ratePerSecond ch, depositedAmount = ch_depositedAmount ch, withdrawnAmount = ''0'',
      startTime = ch_startTime ch, lastUpdateTime = ch_startTime ch, endTime = Some endT, isActive = True,
      isPaused = False, pausedAt = None, totalPausedDuration = 0, updatedAt = 0\<rparr>"

text \<open>
  \<open>m1\<close> is what happens between the read of the existing row and the upsert. The two BigInt parses
  cannot fail after the schema's digit check. The answer's body is the stored row.
\<close>

definition createStream ::
  "request_env \<Rightarrow> (db \<Rightarrow> db) \<Rightarrow> json \<Rightarrow> string option \<Rightarrow> db \<Rightarrow> (stream_row response \<times> db) option" where
  "createStream E m1 body user d =
     (case user of
        None \<Rightarrow> Some (Failure 401 ''UNAUTHORIZED'', d)
      | Some caller \<Rightarrow>
      if caller = [] then Some (Failure 401 ''UNAUTHORIZED'', d)
      else case createStreamSchema body of
        None \<Rightarrow> Some (Failure 400 ''INVALID_REQUEST'', d)
      | Some i \<Rightarrow>
      if ci_sender i \<noteq> caller then Some (Failure 403 ''FORBIDDEN'', d)
      else case (BigInt (ci_ratePerSecond i), BigInt (ci_depositedAmount i)) of
        (Some rate, Some dep) \<Rightarrow>
          (if rate \<le> 0 then Some (Failure 400 ''INVALID_RATE'', d)
           else if dep \<le> 0 then Some (Failure 400 ''INVALID_DEPOSITED_AMOUNT'', d)
           else case stream_findUnique (ci_streamId i) d of
             Inl _ \<Rightarrow> Some (Failure 500 ''INTERNAL_SERVER_ERROR'', d)
           | Inr existing \<Rightarrow>
           if (case existing of Some r \<Rightarrow> sender r \<noteq> caller | None \<Rightarrow> False) then Some (Failure 403 ''FORBIDDEN'', d)
           else case getStreamFromChain (re_chain E) (re_strkey E) (ci_streamId i) of
             None \<Rightarrow> None
           | Some None \<Rightarrow> Some (Failure 409 ''Stream has not been confirmed on-chain'', d)
           | Some (Some ch) \<Rightarrow>
           if \<not> matchesChain i rate dep ch then Some (Failure 409 ''Stream request does not match on-chain state'', d)
           else case stream_upsert (re_updatedAt E)
                       (createdRow (ci_streamId i) (ci_startTime i + dep sdiv rate) ch)
                       (\<lambda>r. r\<lparr>isActive := True, lastUpdateTime := re_nowSec E\<rparr>) (m1 d) of
             Inl _ \<Rightarrow> Some (Failure 500 ''INTERNAL_SERVER_ERROR'', m1 d)
           | Inr d1 \<Rightarrow>
               (case streams d1 (ci_streamId i) of
                  Some r \<Rightarrow> Some (Success 201 r, d1)
                | None \<Rightarrow> Some (Failure 500 ''INTERNAL_SERVER_ERROR'', d1)))
      | _ \<Rightarrow> Some (Failure 400 ''INVALID_NUMERIC_VALUES'', d))"

section \<open>Identifiers round-trip\<close>

lemma bitlen_lower: "0 < m \<Longrightarrow> 2 ^ (bitlen m - 1) \<le> m \<and> 0 < bitlen m"
proof (induction m rule: bitlen.induct)
  case (1 m)
  show ?case
  proof (cases "m div 2 = 0")
    case True
    with "1.prems" show ?thesis by (simp add: bitlen.simps [of m] bitlen.simps [of 0])
  next
    case False
    with 1 have ih: "2 ^ (bitlen (m div 2) - 1) \<le> m div 2" "0 < bitlen (m div 2)" by simp_all
    then have "2 * 2 ^ (bitlen (m div 2) - 1) \<le> m" by linarith
    moreover have "2 * 2 ^ (bitlen (m div 2) - 1) = (2::nat) ^ bitlen (m div 2)"
      using ih(2) by (simp flip: power_Suc)
    ultimately show ?thesis using "1.prems" by (simp add: bitlen.simps [of m])
  qed
qed

lemma bitlen_large: "2 ^ 53 \<le> m \<Longrightarrow> 53 < bitlen m"
proof (rule ccontr)
  assume m: "2 ^ 53 \<le> m" and "\<not> 53 < bitlen m"
  have up: "x < 2 ^ bitlen x" for x :: nat
  proof (induction x rule: bitlen.induct)
    case (1 x)
    show ?case
    proof (cases "x = 0")
      case False
      with 1 have "x div 2 < 2 ^ bitlen (x div 2)" by simp
      then show ?thesis using False by (subst bitlen.simps) simp
    qed simp
  qed
  from \<open>\<not> 53 < bitlen m\<close> have "(2::nat) ^ bitlen m \<le> 2 ^ 53" by (intro power_increasing) simp_all
  with up [of m] m show False by linarith
qed

lemma round53_large: "2 ^ 53 \<le> m \<Longrightarrow> 2 ^ 53 \<le> round53 m"
proof -
  assume m: "2 ^ 53 \<le> m"
  define k where "k = bitlen m - 53"
  have L: "53 < bitlen m" by (rule bitlen_large [OF m])
  then have k: "0 < k" "bitlen m - 1 = 52 + k" by (simp_all add: k_def)
  have "2 ^ (52 + k) \<le> m" using bitlen_lower [of m] m k by simp
  then have "2 ^ (52 + k) div 2 ^ k \<le> m div 2 ^ k" by (rule div_le_mono)
  then have q: "2 ^ 52 \<le> m div 2 ^ k" by (simp add: power_add)
  have "round53 m = (if m mod 2 ^ k > 2 ^ (k - 1) \<or> (m mod 2 ^ k = 2 ^ (k - 1) \<and> odd (m div 2 ^ k))
      then m div 2 ^ k + 1 else m div 2 ^ k) * 2 ^ k"
    using k(1) unfolding round53_def Let_def k_def [symmetric] by simp
  then have "m div 2 ^ k * 2 ^ k \<le> round53 m" by simp
  moreover have "(2::nat) ^ 52 * 2 ^ 1 \<le> m div 2 ^ k * 2 ^ k"
    using q k(1) by (intro mult_le_mono power_increasing) simp_all
  ultimately show ?thesis by simp
qed

lemma safe_after_rounding: "isSafeInteger (toNumber n) \<Longrightarrow> 0 \<le> n \<Longrightarrow> isSafeInteger n"
proof (rule ccontr)
  assume s: "isSafeInteger (toNumber n)" and n: "0 \<le> n" and "\<not> isSafeInteger n"
  then have "2 ^ 53 \<le> nat n" by (simp add: isSafeInteger_def MAX_SAFE_INTEGER_def le_nat_iff)
  then have "2 ^ 53 \<le> round53 (nat n)" by (rule round53_large)
  with s n show False by (simp add: isSafeInteger_def MAX_SAFE_INTEGER_def toNumber_def)
qed

lemma parse_print_id: "0 \<le> n \<Longrightarrow> parseStreamId (RawString (toString n)) = Some n"
proof -
  assume n: "0 \<le> n"
  then have dig: "list_all is_digit (toString n)" "toString n \<noteq> []"
    by (simp_all add: toString_def nat_toString_digits)
  then have "trim (toString n) = toString n" by (simp add: trim_digits)
  with dig show ?thesis by (simp add: all_digits_def Let_def)
qed

text \<open>A stream identifier that leaves the API as JSON (a number while it is safe, else a decimal
  string) is parsed back to the same identifier, and the parser returns only non-negative ones.
\<close>

theorem stream_id_roundtrip:
  "(0 \<le> n \<longrightarrow> zStreamId (streamIdToJson n) = Some n) \<and> (\<forall>raw m. parseStreamId raw = Some m \<longrightarrow> 0 \<le> m)"
proof (intro conjI impI allI)
  assume n: "0 \<le> n"
  show "zStreamId (streamIdToJson n) = Some n"
  proof (cases "isSafeInteger (toNumber n)")
    case True
    then have "isSafeInteger n" using n by (rule safe_after_rounding)
    with n show ?thesis by (simp add: streamIdToJson_def Let_def toNumber_safe)
  next
    case False
    with n show ?thesis by (simp add: streamIdToJson_def Let_def parse_print_id del: parseStreamId.simps)
  qed
next
  show "parseStreamId raw = Some m \<Longrightarrow> 0 \<le> m" for raw m
    using all_digits_BigInt by (cases raw rule: parseStreamId.cases) (force simp: Let_def split: if_splits)+
qed

theorem stream_id_roundtrip_witness:
  "zStreamId (streamIdToJson 7) = Some 7 \<and> zStreamId (streamIdToJson (2 ^ 63 + 1)) = Some (2 ^ 63 + 1)"
  using stream_id_roundtrip [of 7] stream_id_roundtrip [of "2 ^ 63 + 1"] by simp

section \<open>What a withdrawal request does to the index\<close>

lemma sqlBigint_toString [simp]:
  "sqlBigint (toString i) = (if int8 i then Inr i else Inl (External ''bigint out of range''))"
proof -
  have t: "trim (toString i) = toString i"
    by (simp add: toString_def trim_digits [OF nat_toString_digits])
  have "radix_prefix (toString i) = None" "toString i \<noteq> []"
    using nat_toString_digits by (auto simp: toString_def radix_prefix_digits radix_prefix_minus)
  then have "signed_decimal (trim (toString i)) = Some i"
    using BigInt_toString [of i] by (simp add: BigInt_def Let_def t del: BigInt_toString)
  then show ?thesis by (simp add: sqlBigint_def)
qed

lemma sqlAdd_Inr:
  assumes "sqlAdd x (toString b) = Inr y" and "is_amount x"
  shows "amount y = amount x + b"
proof -
  have "x = toString (amount x)" using is_amount_BigInt [OF assms(2)] by simp
  then have "sqlBigint x = (if int8 (amount x) then Inr (amount x) else Inl (External ''bigint out of range''))"
    using sqlBigint_toString by metis
  then show ?thesis using assms(1) by (auto simp: sqlAdd_def bindE_eq_Inr split: if_splits)
qed

lemma withdrawHandler_Success:
  assumes "withdrawHandler E m1 m2 p caller (d, c) = Some (Success st b, d', c')"
  obtains sid stream v rest c1 txHash amt upd d2 where
    "parseStreamId (RawString p) = Some sid" "streams d sid = Some stream" "recipient stream = caller"
    "getClaimableAmount (re_ttlMs E) (re_nowMs E) (re_wall E) (claimState stream) None c = (Inr (v, rest), c1)"
    "cv_actionable v" "withdraw (re_chain E) sid caller = Some (Inr txHash)"
    "BigInt (cv_claimableAmount v) = Some amt" "withdrawTx E sid (isActive stream) amt (m1 d) = Inr (upd, d2)"
    "event_upsert (Some txHash) ''WITHDRAWN''
       (\<lambda>h. withdrawnEvent sid (cv_claimableAmount v) h (re_nowSec E) caller) (\<lambda>r. r) (m2 d2) = Inr d'"
    "b = \<lparr>wb_streamId = sid, wb_txHash = txHash, wb_amount = cv_claimableAmount v, wb_stream = upd\<rparr>" "st = 200"
  using assms
  by (auto simp: withdrawHandler_def stream_findUnique_def Let_def bindE_eq_Inr bindE_eq_Inl
      simp del: parseStreamId.simps
      split: option.splits sum.splits if_splits prod.splits)

lemma withdrawTx_Inr:
  assumes "withdrawTx E sid wasActive amt d = Inr (upd, d2)" and "streams d sid = Some r" and "is_amount (withdrawnAmount r)"
  obtains r' where "streams d2 = (streams d)(sid \<mapsto> r')" "amount (withdrawnAmount r') = amount (withdrawnAmount r) + amt"
    "sender r' = sender r" "recipient r' = recipient r" "depositedAmount r' = depositedAmount r"
    "isActive r' \<longleftrightarrow> isActive r \<and> \<not> (wasActive \<and> amount (depositedAmount r) \<le> amount (withdrawnAmount r) + amt)"
    "events d2 = events d" "users d2 = users d" "wf_stream us r \<longrightarrow> wf_stream us r'" "streamId r' = streamId r"
    "d2 = d\<lparr>streams := (streams d)(sid \<mapsto> r')\<rparr>"
proof -
  obtain w where w: "sqlAdd (withdrawnAmount r) (toString amt) = Inr w"
    using assms(1,2) by (auto simp: withdrawTx_def sqlUpdate_def bindE_eq_Inr)
  define r1 where "r1 = r\<lparr>withdrawnAmount := w, lastUpdateTime := re_nowSec E\<rparr>"
  define d1 where "d1 = d\<lparr>streams := (streams d)(sid \<mapsto> r1)\<rparr>"
  have r1: "withdrawnAmount r1 = w" "sender r1 = sender r" "recipient r1 = recipient r"
    "depositedAmount r1 = depositedAmount r" "isActive r1 = isActive r" "streamId r1 = streamId r"
    "ratePerSecond r1 = ratePerSecond r"
    by (simp_all add: r1_def)
  have wa: "is_amount w" using w by (auto simp: sqlAdd_def bindE_eq_Inr)
  have sum: "amount w = amount (withdrawnAmount r) + amt" by (rule sqlAdd_Inr [OF w assms(3)])
  have d1: "streams d1 sid = Some r1" "stream_update (re_updatedAt E) sid (\<lambda>r. r\<lparr>isActive := False\<rparr>) d1 =
      Inr (d\<lparr>streams := (streams d)(sid \<mapsto> r1\<lparr>isActive := False, updatedAt := re_updatedAt E\<rparr>)\<rparr>)"
    by (simp_all add: d1_def stream_update_def stream_findUniqueOrThrow_def)
  have "sqlUpdate sid (\<lambda>r. bindE (sqlAdd (withdrawnAmount r) (toString amt)) (\<lambda>w.
        Inr (r\<lparr>withdrawnAmount := w, lastUpdateTime := re_nowSec E\<rparr>))) d = Inr d1"
    using assms(2) w by (simp add: sqlUpdate_def d1_def r1_def)
  then have tx: "withdrawTx E sid wasActive amt d =
      (if wasActive then
         bindE (of_opt SyntaxError (BigInt w)) (\<lambda>x.
         bindE (of_opt SyntaxError (BigInt (depositedAmount r))) (\<lambda>dep.
         if dep \<le> x then Inr (Some (r1\<lparr>isActive := False\<rparr>),
             d\<lparr>streams := (streams d)(sid \<mapsto> r1\<lparr>isActive := False, updatedAt := re_updatedAt E\<rparr>)\<rparr>)
         else Inr (Some r1, d1)))
       else Inr (Some r1, d1))"
    by (simp add: withdrawTx_def d1 r1 cong: if_cong)
  consider "d2 = d\<lparr>streams := (streams d)(sid \<mapsto> r1\<lparr>isActive := False, updatedAt := re_updatedAt E\<rparr>)\<rparr>"
      "wasActive" "amount (depositedAmount r) \<le> amount w"
    | "d2 = d1" "\<not> (wasActive \<and> amount (depositedAmount r) \<le> amount w)"
    using assms(1) unfolding tx by (auto simp: bindE_eq_Inr amount_def split: if_splits)
  then show ?thesis
  proof cases
    case 1
    then show ?thesis
      using r1 sum wa by (intro that [of "r1\<lparr>isActive := False, updatedAt := re_updatedAt E\<rparr>"]) (simp_all add: wf_stream_def)
  next
    case 2
    then show ?thesis using r1 sum wa by (intro that [of r1]) (simp_all add: d1_def wf_stream_def)
  qed
qed

lemma recorded_insert:
  assumes "finite (dom (events d))" and "events d k = None" and "events d' = (events d)(k \<mapsto> v)"
  shows "recordedWithdrawals d' sid = recordedWithdrawals d sid + contribution sid k (Some v)"
proof -
  have "(\<Sum>j\<in>dom (events d). contribution sid j (events d' j)) = (\<Sum>j\<in>dom (events d). contribution sid j (events d j))"
    using assms by (intro sum.cong) auto
  then show ?thesis using assms by (simp add: recordedWithdrawals_def domIff)
qed

lemma api_withdrawal_total:
  assumes "withdrawHandler E m1 (\<lambda>d. d) p caller (d, c) = Some (Success st b, d', c')"
    and "wf_db (m1 d)" and "streams (m1 d) (wb_streamId b) \<noteq> None"
  shows "withdrawnOf d' (wb_streamId b) = withdrawnOf (m1 d) (wb_streamId b) + amount (wb_amount b)"
    and "wb_txHash b = ''simulated-withdraw-'' @ toString (wb_streamId b)"
    and "\<exists>d2. events d2 = events (m1 d) \<and> event_upsert (Some (wb_txHash b)) ''WITHDRAWN''
          (\<lambda>h. withdrawnEvent (wb_streamId b) (wb_amount b) h (re_nowSec E) caller) (\<lambda>r. r) d2 = Inr d'"
    and "streams d' (wb_streamId b) \<noteq> None"
    and "is_amount (wb_amount b) \<Longrightarrow> wf_db d'"
proof -
  from assms(1) obtain sid h amt upd d2 and stream :: stream_row and v :: claimable_value where
    w: "withdraw (re_chain E) sid caller = Some (Inr h)" "BigInt (cv_claimableAmount v) = Some amt"
      "withdrawTx E sid (isActive stream) amt (m1 d) = Inr (upd, d2)"
      "event_upsert (Some h) ''WITHDRAWN'' (\<lambda>h. withdrawnEvent sid (cv_claimableAmount v) h (re_nowSec E) caller) (\<lambda>r. r) d2 = Inr d'"
      "b = \<lparr>wb_streamId = sid, wb_txHash = h, wb_amount = cv_claimableAmount v, wb_stream = upd\<rparr>"
    by (elim withdrawHandler_Success) blast
  have h: "h = ''simulated-withdraw-'' @ toString sid"
    using w(1) unfolding withdraw_def by (rule simulatedAction_hash)
  from assms(3) w(5) obtain r where r: "streams (m1 d) sid = Some r" by auto
  then have "is_amount (withdrawnAmount r)" using wf_dbD(1) [OF assms(2) r] by (simp add: wf_stream_def)
  with w(3) r obtain r' where
    r': "streams d2 = (streams (m1 d))(sid \<mapsto> r')" "amount (withdrawnAmount r') = amount (withdrawnAmount r) + amt"
      "events d2 = events (m1 d)" "wf_stream (users (m1 d)) r \<longrightarrow> wf_stream (users (m1 d)) r'" "streamId r' = streamId r"
      "d2 = (m1 d)\<lparr>streams := (streams (m1 d))(sid \<mapsto> r')\<rparr>" by (elim withdrawTx_Inr [where us = "users (m1 d)"]) blast
  have amt: "amount (cv_claimableAmount v) = amt" using w(2) by (simp add: amount_def)
  show "withdrawnOf d' (wb_streamId b) = withdrawnOf (m1 d) (wb_streamId b) + amount (wb_amount b)"
    using withdrawnOf_event_upsert [OF w(4)] r r' amt w(5) by (simp add: withdrawnOf_def)
  show "wb_txHash b = ''simulated-withdraw-'' @ toString (wb_streamId b)" using h w(5) by simp
  show "\<exists>d2. events d2 = events (m1 d) \<and> event_upsert (Some (wb_txHash b)) ''WITHDRAWN''
          (\<lambda>h. withdrawnEvent (wb_streamId b) (wb_amount b) h (re_nowSec E) caller) (\<lambda>r. r) d2 = Inr d'"
    using w(4,5) r'(3) by (intro exI [of _ d2]) simp
  show "streams d' (wb_streamId b) \<noteq> None"
    using w(4,5) r'(1) by (auto simp: event_upsert_Inr split: option.splits)
  assume "is_amount (wb_amount b)"
  moreover have "wf_db d2"
    unfolding r'(6) using wf_dbD(1) [OF assms(2) r] r'(4,5) by (intro wf_stream_put assms(2)) simp_all
  ultimately show "wf_db d'"
    using w(5) by (intro wf_event_upsert [OF _ w(4)]) (simp_all add: wf_event_def withdrawnEvent_def)
qed

text \<open>C12. A successful withdrawal request adds its amount to the stream's total as it is when the update
  runs, so that concurrent changes are not lost; but it withdraws nothing on chain, and since its
  hash is the same for every request on the stream, only the first one is logged: each later
  success leaves the event log as it is and opens a gap between the total and the log.
\<close>

theorem api_withdrawal_effect:
  assumes "withdrawHandler E m1 (\<lambda>d. d) p caller (d, c) = Some (Success st b, d', c')"
    and "wf_db (m1 d)" and "streams (m1 d) (wb_streamId b) \<noteq> None"
  shows "withdrawnOf d' (wb_streamId b) = withdrawnOf (m1 d) (wb_streamId b) + amount (wb_amount b)
    \<and> (if events (m1 d) (''simulated-withdraw-'' @ toString (wb_streamId b), ''WITHDRAWN'') = None
       then unrecorded d' (wb_streamId b) = unrecorded (m1 d) (wb_streamId b)
       else events d' = events (m1 d)
            \<and> unrecorded d' (wb_streamId b) = unrecorded (m1 d) (wb_streamId b) + amount (wb_amount b))"
proof -
  note t = api_withdrawal_total [OF assms]
  obtain d2 where d2: "events d2 = events (m1 d)" "event_upsert (Some (wb_txHash b)) ''WITHDRAWN''
      (\<lambda>h. withdrawnEvent (wb_streamId b) (wb_amount b) h (re_nowSec E) caller) (\<lambda>r. r) d2 = Inr d'"
    using t(3) by blast
  show ?thesis
  proof (cases "events (m1 d) (wb_txHash b, ''WITHDRAWN'')")
    case None
    with d2 have "events d' = (events (m1 d))((wb_txHash b, ''WITHDRAWN'') \<mapsto>
        withdrawnEvent (wb_streamId b) (wb_amount b) (wb_txHash b) (re_nowSec E) caller)"
      by (auto simp: event_upsert_Inr)
    from recorded_insert [OF wf_dbD(3) [OF assms(2)] None this, of "wb_streamId b"] None t(1) show ?thesis
      unfolding t(2) [symmetric] by (simp add: unrecorded_def contribution_def withdrawnEvent_def)
  next
    case (Some row)
    with d2 have ev: "events d' = events (m1 d)" by (auto simp: event_upsert_Inr)
    then have "recordedWithdrawals d' (wb_streamId b) = recordedWithdrawals (m1 d) (wb_streamId b)"
      by (simp add: recordedWithdrawals_def)
    with Some ev t(1) show ?thesis unfolding t(2) [symmetric] by (simp add: unrecorded_def)
  qed
qed

definition exampleRequest :: request_env where
  "exampleRequest = \<lparr>re_chain = exampleChain, re_strkey = sk exampleEnv, re_ttlMs = 5000, re_nowMs = 1900000,
     re_wall = 1900000, re_nowSec = 1900, re_updatedAt = 1900000\<rparr>"

lemma exampleRequest_sel [simp]:
  "re_chain exampleRequest = exampleChain" "re_ttlMs exampleRequest = 5000" "re_nowMs exampleRequest = 1900000"
  "re_wall exampleRequest = 1900000" "re_nowSec exampleRequest = 1900" "re_updatedAt exampleRequest = 1900000"
  by (simp_all add: exampleRequest_def)

lemma event_upsert_runs: "streams d (ev_streamId (c h)) \<noteq> None \<Longrightarrow> \<exists>d'. event_upsert (Some h) ty c f d = Inr d'"
  by (cases "events d (h, ty)") (auto simp: event_upsert_def)

lemma exampleStream_claim: "wf_claimable (claimState exampleStream)" "claimableSpec (claimState exampleStream) 1900 = 1000"
proof -
  have "is_amount ''0''" using is_amount_toString [of 0] by simp
  then show "wf_claimable (claimState exampleStream)" "claimableSpec (claimState exampleStream) 1900 = 1000"
    by (simp_all add: wf_claimable_def claimableSpec_def claimState_def exampleStream_def I128_MAX_def elapsedAt_alt del: toString_eval)
qed

lemma example_withdraw:
  assumes "streams dm 7 = Some r" "withdrawnAmount r = toString w" "0 \<le> w" "w < 2 ^ 62" "depositedAmount r = toString n"
  shows "\<exists>b d' c'. withdrawHandler exampleRequest (\<lambda>_. dm) (\<lambda>d. d) ''7'' ''G2'' (exampleDb, newCache None None)
      = Some (Success 200 b, d', c') \<and> wb_streamId b = 7 \<and> wb_amount b = toString 1000"
proof -
  have id7: "parseStreamId (RawString ''7'') = Some 7" using parse_print_id [of 7] by (simp del: parseStreamId.simps)
  have find: "stream_findUnique 7 exampleDb = Inr (Some exampleStream)"
    by (simp add: stream_findUnique_def int8_def exampleDb_stream)
  obtain c1 where claim: "getClaimableAmount 5000 1900000 1900000 (claimState exampleStream) None (newCache None None) =
      (Inr (\<lparr>cv_streamId = 7, cv_claimableAmount = toString 1000, cv_actionable = True, cv_calculatedAt = 1900\<rparr>, False, None), c1)"
    using claimable_equals_spec [OF exampleStream_claim(1), of 1900] exampleStream_claim(2)
    by (simp add: getClaimableAmount_def cacheGet_def newCache_def Let_def claimState_def exampleStream_def del: toString_eval)
  obtain h where wd: "withdraw exampleChain 7 ''G2'' = Some (Inr h)"
    by (simp add: withdraw_def simulatedAction_def encodedCall_def encodeArgs_def simulateContractCall_def newContract_def)
  have "sqlAdd (withdrawnAmount r) (toString 1000) = Inr (toString (w + 1000))"
    using assms by (simp add: sqlAdd_def int8_def del: toString_eval)
  then obtain upd d2 where tx: "withdrawTx exampleRequest 7 True 1000 dm = Inr (upd, d2)" "streams d2 7 \<noteq> None"
    using assms(1,5)
    by (cases "n \<le> w + 1000") (simp_all add: withdrawTx_def sqlUpdate_def stream_update_def stream_findUniqueOrThrow_def del: toString_eval)
  obtain d3 where "event_upsert (Some h) ''WITHDRAWN'' (\<lambda>h. withdrawnEvent 7 (toString 1000) h 1900 ''G2'') (\<lambda>r. r) d2 = Inr d3"
    using event_upsert_runs [of d2 "\<lambda>h. withdrawnEvent 7 (toString 1000) h 1900 ''G2''" h] tx(2)
    by (auto simp: withdrawnEvent_def)
  with id7 find claim wd tx show ?thesis
    by (simp add: withdrawHandler_def exampleStream_def del: toString_eval parseStreamId.simps)
qed

lemma example_withdraw_first:
  obtains b d' c' where
    "withdrawHandler exampleRequest (\<lambda>_. exampleDb) (\<lambda>d. d) ''7'' ''G2'' (exampleDb, newCache None None) = Some (Success 200 b, d', c')"
    "wb_streamId b = 7" "wb_amount b = toString 1000"
  using example_withdraw [OF exampleDb_stream, of 0 1000] by (auto simp: exampleStream_def)

theorem api_withdrawal_effect_witness:
  "\<exists>b d' c'. withdrawHandler exampleRequest (\<lambda>_. exampleDb) (\<lambda>d. d) ''7'' ''G2'' (exampleDb, newCache None None)
      = Some (Success 200 b, d', c') \<and> withdrawnOf d' 7 = 1000"
proof (rule example_withdraw_first)
  fix b d' c'
  assume w: "withdrawHandler exampleRequest (\<lambda>_. exampleDb) (\<lambda>d. d) ''7'' ''G2'' (exampleDb, newCache None None)
      = Some (Success 200 b, d', c')" "wb_streamId b = 7" "wb_amount b = toString 1000"
  have "withdrawnOf exampleDb 7 = 0"
    by (simp add: withdrawnOf_def exampleDb_stream exampleStream_def del: toString_eval)
  with api_withdrawal_effect [OF w(1)] w exampleDb_wf show ?thesis
    by (auto simp: exampleDb_stream simp del: toString_eval)
qed

text \<open>The atomic increment does not prevent an overdraft: when a second request of the recipient runs
  between the claimable check and the update of a first one, both succeed and the recorded total
  is the sum of both claims, above the deposit as soon as each claimed all that was left.
\<close>

theorem concurrent_withdrawals_overdraw:
  assumes "withdrawHandler E (\<lambda>d. d) (\<lambda>d. d) p caller (d, c1) = Some (Success st1 b1, d1, c1')"
    and "withdrawHandler E (\<lambda>_. d1) (\<lambda>d. d) p caller (d, c2) = Some (Success st2 b2, d2, c2')"
    and "wf_db d" and "wf_db d1" and "streams d sid = Some r" and "wb_streamId b1 = sid"
    and "amount (wb_amount b1) = amount (depositedAmount r) - amount (withdrawnAmount r)"
    and "amount (wb_amount b2) = amount (wb_amount b1)" and "0 < amount (wb_amount b1)"
  shows "withdrawnOf d2 sid = amount (withdrawnAmount r) + 2 * (amount (depositedAmount r) - amount (withdrawnAmount r))
    \<and> amount (depositedAmount r) < withdrawnOf d2 sid"
proof -
  from assms(1) have "parseStreamId (RawString p) = Some (wb_streamId b1)" by (auto elim: withdrawHandler_Success)
  moreover from assms(2) have "parseStreamId (RawString p) = Some (wb_streamId b2)" by (auto elim: withdrawHandler_Success)
  ultimately have ids: "wb_streamId b2 = sid" using assms(6) by simp
  have first: "withdrawnOf d1 sid = withdrawnOf d sid + amount (wb_amount b1)"
    using api_withdrawal_total(1) [OF assms(1)] assms(3,5,6) by simp
  have "streams d1 sid \<noteq> None"
    using api_withdrawal_total(4) [OF assms(1)] assms(3,5,6) by simp
  then have "withdrawnOf d2 sid = withdrawnOf d1 sid + amount (wb_amount b2)"
    using api_withdrawal_total(1) [OF assms(2)] assms(4) ids by simp
  with first assms(5,7-9) show ?thesis by (simp add: withdrawnOf_def)
qed

theorem concurrent_withdrawals_overdraw_witness:
  "\<exists>b1 d1 c1 b2 d2 c2.
     withdrawHandler exampleRequest (\<lambda>d. d) (\<lambda>d. d) ''7'' ''G2'' (exampleDb, newCache None None) = Some (Success 200 b1, d1, c1)
     \<and> withdrawHandler exampleRequest (\<lambda>_. d1) (\<lambda>d. d) ''7'' ''G2'' (exampleDb, newCache None None) = Some (Success 200 b2, d2, c2)
     \<and> withdrawnOf d2 7 = 2000 \<and> amount (depositedAmount exampleStream) = 1000"
proof -
  obtain b1 d1 c1 where one: "withdrawHandler exampleRequest (\<lambda>_. exampleDb) (\<lambda>d. d) ''7'' ''G2'' (exampleDb, newCache None None)
      = Some (Success 200 b1, d1, c1)" "wb_streamId b1 = 7" "wb_amount b1 = toString 1000"
    by (rule example_withdraw_first)
  have "withdrawHandler exampleRequest (\<lambda>d. d) (\<lambda>d. d) ''7'' ''G2'' (exampleDb, newCache None None) =
      withdrawHandler exampleRequest (\<lambda>_. exampleDb) (\<lambda>d. d) ''7'' ''G2'' (exampleDb, newCache None None)"
    by (simp add: withdrawHandler_def del: parseStreamId.simps)
  with one have first: "withdrawHandler exampleRequest (\<lambda>d. d) (\<lambda>d. d) ''7'' ''G2'' (exampleDb, newCache None None)
      = Some (Success 200 b1, d1, c1)" by simp
  have ex: "withdrawnOf exampleDb 7 = 0" "amount (depositedAmount exampleStream) = 1000" "amount (withdrawnAmount exampleStream) = 0"
    by (simp_all add: withdrawnOf_def exampleDb_stream exampleStream_def del: toString_eval)
  note t = api_withdrawal_total [OF first exampleDb_wf]
  have wf: "wf_db d1" using t(5) one exampleDb_stream by (simp del: toString_eval)
  obtain r where r: "streams d1 7 = Some r" using t(4) one exampleDb_stream by auto
  have "is_amount (withdrawnAmount r)" "is_amount (depositedAmount r)"
    using wf_dbD(1) [OF wf r] by (simp_all add: wf_stream_def)
  moreover have "amount (withdrawnAmount r) = 1000"
    using t(1) one ex r exampleDb_stream by (simp add: withdrawnOf_def del: toString_eval)
  ultimately obtain b2 d2 c2 where two: "withdrawHandler exampleRequest (\<lambda>_. d1) (\<lambda>d. d) ''7'' ''G2'' (exampleDb, newCache None None)
      = Some (Success 200 b2, d2, c2)" "wb_streamId b2 = 7" "wb_amount b2 = toString 1000"
    using example_withdraw [OF r, of 1000 "amount (depositedAmount r)"] is_amount_BigInt by fastforce
  have "withdrawnOf d2 7 = 2000"
    using concurrent_withdrawals_overdraw [OF first two(1) exampleDb_wf wf exampleDb_stream one(2)] one two ex
    by (simp del: toString_eval)
  with first two ex show ?thesis by blast
qed

section \<open>The other endpoints\<close>

lemma cancelStream_Inl: "cancelStream K sid secret = Some (r, sent) \<Longrightarrow> \<exists>x. r = Inl x"
  using submit_Inl by (auto simp: cancelStream_def split: sum.splits)

lemma topUpStream_Inl: "topUpStream K sid amt a = Some (r, sent) \<Longrightarrow> \<exists>x. r = Inl x"
  using submit_Inl by (auto simp: topUpStream_def split: sum.splits if_splits)

text \<open>The endpoints for cancelling and topping up never answer with success and never touch the
  database, whatever the chain did: since no submission is ever confirmed, a transaction may have
  been sent while the index still shows the stream as before.
\<close>

theorem keeper_endpoints_never_succeed:
  "(\<forall>r d' sent. cancelStreamHandler E m1 p caller secret d = Some (r, d', sent) \<longrightarrow> d' = d \<and> 400 \<le> httpStatus r)
   \<and> (\<forall>r d' sent. topUpStreamHandler E m1 p body user d = Some (r, d', sent) \<longrightarrow> d' = d \<and> 400 \<le> httpStatus r)"
proof (intro conjI allI impI)
  show "cancelStreamHandler E m1 p caller secret d = Some (r, d', sent) \<Longrightarrow> d' = d" for r d' sent
    by (auto simp: cancelStreamHandler_def Let_def dest!: cancelStream_Inl simp del: parseStreamId.simps
        split: option.splits sum.splits if_splits)
  show "cancelStreamHandler E m1 p caller secret d = Some (r, d', sent) \<Longrightarrow> 400 \<le> httpStatus r" for r d' sent
    by (auto simp: cancelStreamHandler_def Let_def dest!: cancelStream_Inl simp del: parseStreamId.simps
        split: option.splits sum.splits if_splits)
  show "topUpStreamHandler E m1 p body user d = Some (r, d', sent) \<Longrightarrow> d' = d" for r d' sent
    by (auto simp: topUpStreamHandler_def Let_def dest!: topUpStream_Inl simp del: parseStreamId.simps
        split: option.splits sum.splits if_splits)
  show "topUpStreamHandler E m1 p body user d = Some (r, d', sent) \<Longrightarrow> 400 \<le> httpStatus r" for r d' sent
    by (auto simp: topUpStreamHandler_def Let_def dest!: topUpStream_Inl simp del: parseStreamId.simps
        split: option.splits sum.splits if_splits)
qed

lemma event_upsert_frame [frame]: "event_upsert tx ty f g d = Inr d' \<Longrightarrow> streams d' = streams d \<and> users d' = users d"
  by (auto simp: event_upsert_Inr split: option.splits)

lemma sqlUpdate_frame [frame]:
  "sqlUpdate sid f d = Inr d' \<Longrightarrow> (\<forall>other. other \<noteq> sid \<longrightarrow> streams d' other = streams d other) \<and> users d' = users d"
  by (auto simp: sqlUpdate_def bindE_eq_Inr split: option.splits)

lemma stream_update_frame [frame]:
  "stream_update now sid f d = Inr d' \<Longrightarrow> (\<forall>other. other \<noteq> sid \<longrightarrow> streams d' other = streams d other) \<and> users d' = users d"
  by (auto simp: stream_update_Inr)

lemma withdrawTx_frame [frame]:
  assumes "withdrawTx E sid a amt d = Inr (u, d2)"
  shows "(\<forall>other. other \<noteq> sid \<longrightarrow> streams d2 other = streams d other) \<and> users d2 = users d"
proof -
  from assms obtain d1 f where d1: "sqlUpdate sid f d = Inr d1"
    and d2: "d2 = d1 \<or> stream_update (re_updatedAt E) sid (\<lambda>r. r\<lparr>isActive := False\<rparr>) d1 = Inr d2"
    unfolding withdrawTx_def bindE_eq_Inr by (auto simp: bindE_eq_Inr split: option.splits if_splits)
  from d2 show ?thesis
  proof
    assume "d2 = d1"
    then show ?thesis using sqlUpdate_frame [OF d1] by simp
  next
    assume "stream_update (re_updatedAt E) sid (\<lambda>r. r\<lparr>isActive := False\<rparr>) d1 = Inr d2"
    then show ?thesis using sqlUpdate_frame [OF d1] stream_update_frame [of _ sid _ d1 d2] by simp
  qed
qed

lemma withdrawHandler_changed:
  assumes "withdrawHandler E (\<lambda>d. d) (\<lambda>d. d) p caller (d, c) = Some (r, d', c')" and "d' \<noteq> d"
  obtains sid stream amt u d2 where
    "parseStreamId (RawString p) = Some sid" "streams d sid = Some stream" "recipient stream = caller"
    "withdrawTx E sid (isActive stream) amt d = Inr (u, d2)" "streams d' = streams d2" "users d' = users d2"
  using assms
  by (auto simp: withdrawHandler_def stream_findUnique_def Let_def bindE_eq_Inr bindE_eq_Inl
      simp del: parseStreamId.simps dest!: event_upsert_frame
      split: option.splits sum.splits if_splits prod.splits)

text \<open>C13. Only the recipient's own request changes the index in a withdrawal, and only the row of that
  stream: whenever the database differs afterwards, the caller is the recipient of the stream in
  the path, and every other stream's row and every user is as before.
\<close>

theorem withdrawal_authorized:
  assumes "withdrawHandler E (\<lambda>d. d) (\<lambda>d. d) p caller (d, c) = Some (r, d', c')" and "d' \<noteq> d"
  shows "\<exists>sid stream. parseStreamId (RawString p) = Some sid \<and> streams d sid = Some stream \<and> recipient stream = caller
    \<and> (\<forall>other. other \<noteq> sid \<longrightarrow> streams d' other = streams d other) \<and> users d' = users d"
  using assms
proof (rule withdrawHandler_changed)
  fix sid stream amt u d2
  assume "parseStreamId (RawString p) = Some sid" "streams d sid = Some stream" "recipient stream = caller"
    "withdrawTx E sid (isActive stream) amt d = Inr (u, d2)" "streams d' = streams d2" "users d' = users d2"
  with withdrawTx_frame [of E sid "isActive stream" amt d u d2] show ?thesis by auto
qed

theorem withdrawal_authorized_witness:
  "\<exists>r d' c' stream. withdrawHandler exampleRequest (\<lambda>d. d) (\<lambda>d. d) ''7'' ''G2'' (exampleDb, newCache None None) = Some (r, d', c')
     \<and> d' \<noteq> exampleDb \<and> streams exampleDb 7 = Some stream \<and> recipient stream = ''G2''"
proof -
  obtain b d' c' where "withdrawHandler exampleRequest (\<lambda>_. exampleDb) (\<lambda>d. d) ''7'' ''G2'' (exampleDb, newCache None None)
      = Some (Success 200 b, d', c')" and b: "wb_streamId b = 7" "wb_amount b = toString 1000"
    by (rule example_withdraw_first)
  then have w: "withdrawHandler exampleRequest (\<lambda>d. d) (\<lambda>d. d) ''7'' ''G2'' (exampleDb, newCache None None)
      = Some (Success 200 b, d', c')" by (simp add: withdrawHandler_def del: parseStreamId.simps)
  have "withdrawnOf d' 7 = withdrawnOf exampleDb 7 + 1000"
    using api_withdrawal_total(1) [OF w exampleDb_wf] b by (simp add: exampleDb_stream del: toString_eval)
  then have "d' \<noteq> exampleDb" by auto
  moreover have "parseStreamId (RawString ''7'') = Some 7" using parse_print_id [of 7] by (simp del: parseStreamId.simps)
  ultimately show ?thesis using withdrawal_authorized [OF w] w by (auto simp del: parseStreamId.simps)
qed

theorem keeper_endpoints_never_succeed_witness:
  "\<exists>r sent. cancelStreamHandler exampleRequest (\<lambda>d. d) ''7'' ''G1'' (Some ''SG1'') exampleDb = Some (r, exampleDb, sent)
     \<and> sent = [(''cancel_stream'', [U64Arg 7])] \<and> 400 \<le> httpStatus r"
proof -
  have id7: "parseStreamId (RawString ''7'') = Some 7" using parse_print_id [of 7] by (simp del: parseStreamId.simps)
  have "cancelStream exampleChain 7 ''SG1'' =
      Some (Inl (ReferenceError ''pollTransactionStatus''), [(''cancel_stream'', [U64Arg 7])])"
    by (simp add: cancelStream_def encodeArgs_def submitContractCall_def newContract_def executeRpc_def withRpcTimeout_def
        raced_def pollTransactionStatus_def)
  then obtain r where r: "cancelStreamHandler exampleRequest (\<lambda>d. d) ''7'' ''G1'' (Some ''SG1'') exampleDb =
      Some (r, exampleDb, [(''cancel_stream'', [U64Arg 7])])"
    using id7
    by (simp add: cancelStreamHandler_def stream_findUnique_def int8_def exampleDb_stream exampleStream_def del: parseStreamId.simps)
  with keeper_endpoints_never_succeed [of exampleRequest "\<lambda>d. d" "''7''" "''G1''" "Some ''SG1''" exampleDb]
  show ?thesis by auto
qed

lemma createStream_Success:
  assumes "createStream E m1 body user d = Some (Success st r, d')"
  obtains i rate dep ch where "createStreamSchema body = Some i" "user = Some (ci_sender i)"
    "case streams d (ci_streamId i) of Some old \<Rightarrow> sender old = ci_sender i | None \<Rightarrow> True"
    "getStreamFromChain (re_chain E) (re_strkey E) (ci_streamId i) = Some (Some ch)" "matchesChain i rate dep ch"
    "stream_upsert (re_updatedAt E) (createdRow (ci_streamId i) (ci_startTime i + dep sdiv rate) ch)
       (\<lambda>r. r\<lparr>isActive := True, lastUpdateTime := re_nowSec E\<rparr>) (m1 d) = Inr d'"
    "streams d' (ci_streamId i) = Some r" "0 < rate" "0 < dep"
  using assms
  by (auto simp: createStream_def stream_findUnique_def split: option.splits sum.splits if_splits prod.splits)

text \<open>C14. The creation endpoint stores nothing the chain does not confirm: on success the caller is the
  sender that the chain reports; a new row holds the chain's values, with nothing withdrawn and an
  end time that is the last second the deposit covers; an existing row of the caller only becomes
  active with a new update time. It becomes active even where the chain reports the stream as
  cancelled or completed.
\<close>

theorem creation_confirmed_on_chain:
  assumes "createStream E (\<lambda>d. d) body user d = Some (Success st r, d')"
  shows "\<exists>sid ch. getStreamFromChain (re_chain E) (re_strkey E) sid = Some (Some ch) \<and> user = Some (ch_sender ch)
    \<and> streams d' = (streams d)(sid \<mapsto> r) \<and> events d' = events d \<and> isActive r
    \<and> (case streams d sid of
         Some old \<Rightarrow> sender old = ch_sender ch
           \<and> r = old\<lparr>isActive := True, lastUpdateTime := re_nowSec E, updatedAt := re_updatedAt E\<rparr>
       | None \<Rightarrow> sender r = ch_sender ch \<and> recipient r = ch_recipient ch \<and> tokenAddress r = ch_tokenAddress ch
           \<and> ratePerSecond r = ch_ratePerSecond ch \<and> depositedAmount r = ch_depositedAmount ch \<and> withdrawnAmount r = ''0''
           \<and> startTime r = ch_startTime ch
           \<and> endTime r = Some (ch_startTime ch + amount (ch_depositedAmount ch) div amount (ch_ratePerSecond ch)))"
  using assms
proof (rule createStream_Success)
  fix i rate dep ch
  assume c: "user = Some (ci_sender i)" "case streams d (ci_streamId i) of Some old \<Rightarrow> sender old = ci_sender i | None \<Rightarrow> True"
    "getStreamFromChain (re_chain E) (re_strkey E) (ci_streamId i) = Some (Some ch)" "matchesChain i rate dep ch"
    "stream_upsert (re_updatedAt E) (createdRow (ci_streamId i) (ci_startTime i + dep sdiv rate) ch)
       (\<lambda>r. r\<lparr>isActive := True, lastUpdateTime := re_nowSec E\<rparr>) d = Inr d'"
    "streams d' (ci_streamId i) = Some r" "0 < rate" "0 < dep"
  have m: "ci_sender i = ch_sender ch" "ci_startTime i = ch_startTime ch"
    "amount (ch_depositedAmount ch) = dep" "amount (ch_ratePerSecond ch) = rate"
    using c(4) by (simp_all add: matchesChain_def)
  show ?thesis
  proof (intro exI [of _ "ci_streamId i"] exI [of _ ch] conjI)
    show "streams d' = (streams d)(ci_streamId i \<mapsto> r)" "events d' = events d" "isActive r"
      using c(5,6) by (auto simp: stream_upsert_Inr createdRow_def split: option.splits)
  qed (use c m in \<open>auto simp: stream_upsert_Inr createdRow_def sdiv_nonneg split: option.splits\<close>)
qed

definition cancelledOnChain :: scval where
  "cancelledOnChain = ScvMap (Some
     [(ScvSymbol ''is_active'', ScvBool False), (ScvSymbol ''sender'', ScvAddress (ScAddressAccount [1])),
      (ScvSymbol ''recipient'', ScvAddress (ScAddressAccount [1, 2])),
      (ScvSymbol ''token_address'', ScvAddress (ScAddressContract [3])), (ScvSymbol ''rate_per_second'', ScvI128 0 10),
      (ScvSymbol ''deposited_amount'', ScvI128 0 1000), (ScvSymbol ''withdrawn_amount'', ScvI128 0 50),
      (ScvSymbol ''start_time'', ScvU64 1700)])"

definition creationRequest :: request_env where
  "creationRequest = exampleRequest\<lparr>re_chain :=
     exampleChain\<lparr>simulateRpc := (\<lambda>_ _. (5, Inr (SimSuccess (Some cancelledOnChain) ''data'' ''100'' 5000)))\<rparr>\<rparr>"

definition creationBody :: json where
  "creationBody = JObj [(''streamId'', JStr (toString 7)), (''sender'', JStr ''G1''), (''recipient'', JStr ''G2''),
     (''tokenAddress'', JStr ''C1''), (''ratePerSecond'', JStr (toString 10)), (''depositedAmount'', JStr (toString 1000)),
     (''startTime'', JNum 1700)]"

lemma all_digits_toString: "0 \<le> n \<Longrightarrow> all_digits (toString n)"
  by (simp add: all_digits_def toString_def nat_toString_digits)

lemma creationBody_input:
  "createStreamSchema creationBody = Some \<lparr>ci_streamId = 7, ci_sender = ''G1'', ci_recipient = ''G2'', ci_tokenAddress = ''C1'',
     ci_ratePerSecond = toString 10, ci_depositedAmount = toString 1000, ci_startTime = 1700\<rparr>"
  by (simp add: createStreamSchema_def creationBody_def lookup_def zNonEmpty_def zDigits_def zRate_def all_digits_toString
      MAX_I128_def parse_print_id del: toString_eval parseStreamId.simps)

lemma creation_chain:
  "getStreamFromChain (re_chain creationRequest) (re_strkey creationRequest) 7 =
     Some (Some \<lparr>ch_streamId = 7, ch_sender = ''G1'', ch_recipient = ''G2'', ch_tokenAddress = ''C1'',
       ch_ratePerSecond = toString 10, ch_depositedAmount = toString 1000, ch_withdrawnAmount = toString 50,
       ch_startTime = 1700, ch_isActive = False\<rparr>)"
proof -
  have sim: "simulateTx (re_chain creationRequest) tx = Some (Inr (SimSuccess (Some cancelledOnChain) ''data'' ''100'' 5000))" for tx
    by (simp add: creationRequest_def simulateTx_def retryCall_def withRpcRetry.simps withRpcTimeout_def raced_def executeRpc_def)
  have sel: "contractIdVar (re_chain creationRequest) = ''CCONTRACT''" "validContractId (re_chain creationRequest) c = (c = ''CCONTRACT'')"
    "encodes (re_chain creationRequest) (U64Arg 7)" "re_strkey creationRequest = sk exampleEnv" for c
    by (simp_all add: creationRequest_def exampleRequest_def)
  have "toNumber 1700 = 1700" by (simp add: toNumber_safe isSafeInteger_def MAX_SAFE_INTEGER_def)
  then show ?thesis
    by (simp add: getStreamFromChain_def encodedCall_def encodeArgs_def simulateContractCall_def newContract_def sel sim
        chainStreamOf_def cancelledOnChain_def decodeMap_def decodeI128_small exampleEnv_def G_names del: toString_eval)
qed

theorem creation_confirmed_on_chain_witness:
  "\<exists>r d' ch. createStream creationRequest (\<lambda>d. d) creationBody (Some ''G1'')
       (exampleDb\<lparr>streams := [7 \<mapsto> exampleStream\<lparr>isActive := False\<rparr>]\<rparr>) = Some (Success 201 r, d') \<and> isActive r
     \<and> getStreamFromChain (re_chain creationRequest) (re_strkey creationRequest) 7 = Some (Some ch) \<and> \<not> ch_isActive ch"
proof -
  obtain r d' where c: "createStream creationRequest (\<lambda>d. d) creationBody (Some ''G1'')
       (exampleDb\<lparr>streams := [7 \<mapsto> exampleStream\<lparr>isActive := False\<rparr>]\<rparr>) = Some (Success 201 r, d')"
    by (simp add: createStream_def creationBody_input creation_chain stream_findUnique_def int8_def matchesChain_def
        stream_upsert_def createdRow_def stream_update_def stream_findUniqueOrThrow_def exampleStream_def
        del: toString_eval)
  with creation_confirmed_on_chain [OF c] creation_chain show ?thesis by auto
qed

end
