(* ===== verification/Sse_Subscribe.thy ===== *)
theory Sse_Subscribe
  imports Sse_Service Stream_Api
begin

text \<open>
  The subscription endpoint of \<open>backend/src/controllers/sse.controller.ts\<close>. The handler gives up
  control once, at the database query, so it is split there: \<open>subscribeBegin\<close> runs up to the query
  and \<open>subscribeFinish\<close> from its answer on. The step relation interleaves any number of handlers with
  the other events of the registry, and its reachable states carry the counters, the limits and
  the scope of the subscriptions.
\<close>

section \<open>The handler\<close>

datatype forwarded_for = FwdNone | FwdOne string | FwdMany "string list"

datatype query_value = QAbsent | QText string | QTexts "string list"

record sse_request =
  rq_forwarded :: forwarded_for
  rq_ip :: "string option"
  rq_remoteAddress :: "string option"
  rq_publicKey :: string
  rq_streams :: query_value
  rq_users :: query_value
  rq_all :: query_value

definition orElse :: "string option \<Rightarrow> string \<Rightarrow> string" where
  "orElse v d = (case v of None \<Rightarrow> d | Some s \<Rightarrow> if s = [] then d else s)"

definition getClientIp :: "sse_request \<Rightarrow> string" where
  "getClientIp req =
     (let direct = orElse (rq_ip req) (orElse (rq_remoteAddress req) ''unknown'') in
      case rq_forwarded req of
        FwdOne f \<Rightarrow> if trim f \<noteq> [] then orElse (Some (trim (hd (js_split CHR '','' f)))) ''unknown'' else direct
      | FwdMany (f # fs) \<Rightarrow> f
      | _ \<Rightarrow> direct)"

text \<open>
  The query string is parsed by Express 5: a parameter given once is a string, one given several
  times an array of strings. Neither is a boolean.
\<close>

fun zTexts :: "query_value \<Rightarrow> string list option" where
  "zTexts QAbsent = Some []"
| "zTexts (QTexts xs) = Some xs"
| "zTexts (QText _) = None"

fun zFlag :: "query_value \<Rightarrow> bool option" where
  "zFlag QAbsent = Some False"
| "zFlag _ = None"

definition subscribeSchema :: "sse_request \<Rightarrow> (string list \<times> string list \<times> bool) option" where
  "subscribeSchema req =
     (case (zTexts (rq_streams req), zTexts (rq_users req), zFlag (rq_all req)) of
        (Some streamIds, Some userKeys, Some allFlag) \<Rightarrow> Some (streamIds, userKeys, allFlag)
      | _ \<Rightarrow> None)"

definition MAX_SSE_STREAMS :: nat where
  "MAX_SSE_STREAMS = 500"

record pending =
  pd_ip :: string
  pd_publicKey :: string
  pd_streams :: "string list"
  pd_users :: "string list"
  pd_all :: bool

datatype subscribe_outcome = Rejected int "nat option" | Waits pending

definition subscribeBegin :: "sse_request \<Rightarrow> sse \<Rightarrow> subscribe_outcome \<times> sse" where
  "subscribeBegin req s =
     (if shuttingDown s then (Rejected 503 None, s)
      else let sourceIp = getClientIp req; (capacity, s1) = checkCapacity sourceIp (Some (rq_publicKey req)) s in
      if \<not> cap_allowed capacity
      then (Rejected (case cap_status capacity of None \<Rightarrow> 503 | Some c \<Rightarrow> c) (cap_retryAfterSeconds capacity), s1)
      else case subscribeSchema req of
        None \<Rightarrow> (Rejected 400 None, s1)
      | Some (streamIds, userKeys, allFlag) \<Rightarrow>
          (Waits \<lparr>pd_ip = sourceIp, pd_publicKey = rq_publicKey req, pd_streams = streamIds, pd_users = userKeys, pd_all = allFlag\<rparr>, s1))"

definition party :: "string \<Rightarrow> stream_row \<Rightarrow> bool" where
  "party publicKey r = (sender r = publicKey \<or> recipient r = publicKey)"

text \<open>\<open>rows\<close> is the table in descending order of the start time.\<close>

definition ownedStreams :: "string \<Rightarrow> stream_row list \<Rightarrow> stream_row list" where
  "ownedStreams publicKey rows = take MAX_SSE_STREAMS (filter (party publicKey) rows)"

definition subscriptionsFor :: "pending \<Rightarrow> stream_row list \<Rightarrow> string list" where
  "subscriptionsFor p owned =
     (let publicKey = pd_publicKey p;
          ownedIds = jsSet (map (\<lambda>r. toString (streamId r)) owned);
          allowedUserKeys = jsSet (publicKey # concat (map (\<lambda>r. [sender r, recipient r]) owned));
          subscriptions = (if pd_all p then ownedIds
                           else if pd_streams p \<noteq> [] then filter (\<lambda>i. i \<in> set ownedIds) (pd_streams p)
                           else ownedIds);
          userSubscriptions = jsSet ((''user:'' @ publicKey) # map (\<lambda>k. ''user:'' @ k) (filter (\<lambda>k. k \<in> set allowedUserKeys) (pd_users p)))
      in subscriptions @ userSubscriptions)"

definition connectedMessage :: "string \<Rightarrow> string option \<Rightarrow> string" where
  "connectedMessage clientId requestId =
     ''data: '' @ JSON_stringify (JObj ([(''type'', JStr ''connected''), (''clientId'', JStr clientId)] @
        jopt ''requestId'' (map_option JStr requestId))) @ LF @ LF"

text \<open>The answer of the database (\<open>None\<close>: it fails) comes with the state at that moment.\<close>

definition subscribeFinish ::
  "io \<Rightarrow> string option \<Rightarrow> pending \<Rightarrow> stream_row list option \<Rightarrow> string \<Rightarrow> sse \<Rightarrow> int \<times> sse" where
  "subscribeFinish W requestId p dbRows clientId s =
     (case dbRows of
        None \<Rightarrow> (500, s)
      | Some rows \<Rightarrow>
          (let subscriptions = subscriptionsFor p (ownedStreams (pd_publicKey p) rows) in
           if io_write W clientId = WriteThrows then (500, s)
           else (200, addClient clientId subscriptions (pd_ip p) (Some (pd_publicKey p))
                        (s\<lparr>written := written s @ [(clientId, connectedMessage clientId requestId)]\<rparr>))))"

section \<open>Events of the registry\<close>

record sse_world =
  reg :: sse
  waiting :: "pending list"
  returned :: "stream_row list"

text \<open>
  With \<open>serial\<close> a request is only taken up when no other handler waits for the database. \<open>returned\<close>
  collects the rows the database has returned. Client identifiers are never reused while the
  connection is open (time and random digits).
\<close>

inductive sse_step :: "bool \<Rightarrow> sse_world \<Rightarrow> sse_world \<Rightarrow> bool" for serial where
  refused: "subscribeBegin req (reg w) = (Rejected c h, s) \<Longrightarrow> sse_step serial w (w\<lparr>reg := s\<rparr>)"
| taken: "subscribeBegin req (reg w) = (Waits p, s) \<Longrightarrow> (serial \<Longrightarrow> waiting w = []) \<Longrightarrow>
    sse_step serial w (w\<lparr>reg := s, waiting := waiting w @ [p]\<rparr>)"
| answered: "waiting w = xs @ p # ys \<Longrightarrow> clientId \<notin> cl_id ` set (clients (reg w)) \<Longrightarrow>
    subscribeFinish W requestId p (Some rows) clientId (reg w) = (c, s) \<Longrightarrow>
    sse_step serial w (w\<lparr>reg := s, waiting := xs @ ys, returned := returned w @ ownedStreams (pd_publicKey p) rows\<rparr>)"
| query_failed: "waiting w = xs @ p # ys \<Longrightarrow> sse_step serial w (w\<lparr>waiting := xs @ ys\<rparr>)"
| closed: "sse_step serial w (w\<lparr>reg := removeClient i (reg w)\<rparr>)"
| drained: "sse_step serial w (w\<lparr>reg := setPaused False i (reg w)\<rparr>)"
| heartbeat: "heartbeatOn (reg w) \<Longrightarrow> sse_step serial w (w\<lparr>reg := sendHeartbeat W (reg w)\<rparr>)"
| stream_event: "sse_step serial w (w\<lparr>reg := localBroadcastToStream W sid event d (reg w)\<rparr>)"
| user_event: "sse_step serial w (w\<lparr>reg := localBroadcastToUser W k event d (reg w)\<rparr>)"
| shutdown: "sse_step serial w (w\<lparr>reg := sendReconnectToAll W (reg w)\<rparr>)"
| heartbeat_off: "sse_step serial w (w\<lparr>reg := stopHeartbeat (reg w)\<rparr>)"

inductive sse_reach :: "bool \<Rightarrow> sse_world \<Rightarrow> bool" for serial where
  start: "sse_reach serial \<lparr>reg = newSse v, waiting = [], returned = []\<rparr>"
| next_event: "sse_reach serial w \<Longrightarrow> sse_step serial w w' \<Longrightarrow> sse_reach serial w'"

section \<open>Counters and gauges\<close>

lemma checkCapacity_frame:
  assumes "checkCapacity ip u s = (c, s')"
  shows "clients s' = clients s" "ipConnectionCounts s' = ipConnectionCounts s" "userConnectionCounts s' = userConnectionCounts s"
    "sseGauges s' = sseGauges s" "maxConnections s' = maxConnections s" "written s' = written s"
  using assms by (auto simp: checkCapacity_def split: if_splits)

lemma subscribeBegin_frame:
  assumes "subscribeBegin req s = (r, s')"
  shows "clients s' = clients s" "ipConnectionCounts s' = ipConnectionCounts s" "userConnectionCounts s' = userConnectionCounts s"
    "sseGauges s' = sseGauges s" "maxConnections s' = maxConnections s" "written s' = written s"
  using assms by (auto simp: subscribeBegin_def Let_def checkCapacity_frame split: if_splits option.splits prod.splits)

lemma subscribeFinish_cases:
  assumes "subscribeFinish W q p (Some rows) cid s = (c, s')"
  obtains "s' = s" "c = 500"
  | "c = 200" "s' = addClient cid (subscriptionsFor p (ownedStreams (pd_publicKey p) rows)) (pd_ip p) (Some (pd_publicKey p))
                      (s\<lparr>written := written s @ [(cid, connectedMessage cid q)]\<rparr>)"
  using assms by (auto simp: subscribeFinish_def Let_def split: if_splits)

lemma step_inv: "sse_step b w w' \<Longrightarrow> sse_inv (reg w) \<Longrightarrow> sse_inv (reg w')"
proof (induction rule: sse_step.induct)
  case (refused req w c h s)
  then show ?case by (simp add: subscribeBegin_frame sse_inv_frame [of s "reg w"])
next
  case (taken req w p s)
  then show ?case by (simp add: subscribeBegin_frame sse_inv_frame [of s "reg w"])
next
  case (answered w xs p ys cid W q rows c s)
  from answered(3) show ?case
    by (rule subscribeFinish_cases) (use answered in \<open>auto intro: addClient_inv simp: written_inv\<close>)
next
  case (shutdown w W)
  then show ?case by (simp add: sendReconnectToAll_def) (subst sse_inv_frame [of _ "reg w"], simp_all)
next
  case (heartbeat_off w)
  then show ?case by (simp add: stopHeartbeat_def) (subst sse_inv_frame [of _ "reg w"], simp_all)
qed (simp_all add: removeClient_inv setPaused_inv fold_writeToClient_inv sendHeartbeat_def localBroadcastToStream_def
       localBroadcastToUser_def broadcast_def)




section \<open>Limits\<close>

definition withinLimits :: "sse \<Rightarrow> bool" where
  "withinLimits s =
     (int (length (clients s)) \<le> maxConnections s \<and> 0 < maxConnections s \<and>
      (\<forall>ip. livePerIp (clients s) ip \<le> MAX_CONNECTIONS_PER_IP) \<and>
      (\<forall>u. livePerUser (clients s) u \<le> MAX_CONNECTIONS_PER_USER))"

definition roomFor :: "pending \<Rightarrow> sse \<Rightarrow> bool" where
  "roomFor p s =
     (int (length (clients s)) < maxConnections s \<and> livePerIp (clients s) (pd_ip p) < MAX_CONNECTIONS_PER_IP \<and>
      (case userKey (Some (pd_publicKey p)) of None \<Rightarrow> True | Some u \<Rightarrow> livePerUser (clients s) u < MAX_CONNECTIONS_PER_USER))"

definition serialOk :: "sse_world \<Rightarrow> bool" where
  "serialOk w = (sse_inv (reg w) \<and> withinLimits (reg w) \<and> (waiting w = [] \<or> (\<exists>p. waiting w = [p] \<and> roomFor p (reg w))))"

lemma withinLimits_kept: "withinLimits s \<Longrightarrow> kept s s' \<Longrightarrow> withinLimits s'"
  unfolding withinLimits_def using kept_live [of s s'] by (force simp: kept_def intro: order_trans)

lemma roomFor_kept: "roomFor p s \<Longrightarrow> kept s s' \<Longrightarrow> roomFor p s'"
  unfolding roomFor_def using kept_live [of s s'] by (force simp: kept_def intro: order_le_less_trans split: option.splits)

lemma taken_room:
  assumes "subscribeBegin req s = (Waits p, s')" "sse_inv s"
  shows "roomFor p s'"
proof -
  obtain cap s1 where cap: "checkCapacity (getClientIp req) (Some (rq_publicKey req)) s = (cap, s1)" by force
  with assms(1) have ok: "cap_allowed cap" "pd_ip p = getClientIp req" "pd_publicKey p = rq_publicKey req" "s' = s1"
    by (auto simp: subscribeBegin_def Let_def split: if_splits option.splits)
  have cs: "clients s1 = clients s" "maxConnections s1 = maxConnections s" using checkCapacity_frame [OF cap] by simp_all
  have live: "countOf (ipConnectionCounts s) k = livePerIp (clients s) k" "countOf (userConnectionCounts s) k = livePerUser (clients s) k" for k
    using assms(2) by (simp_all add: sse_inv_def)
  note live1 = live [folded cs checkCapacity_frame(2,3) [OF cap]]
  show ?thesis
    using cap ok(1) unfolding roomFor_def ok cs
    by (auto simp: checkCapacity_def live live1 split: if_splits option.splits)
qed

lemma answered_limits:
  assumes lim: "withinLimits s" and room: "roomFor p s" and new: "cid \<notin> cl_id ` set (clients s)"
    and fin: "subscribeFinish W q p (Some rows) cid s = (c, s')"
  shows "withinLimits s'"
  using fin
proof (rule subscribeFinish_cases)
  let ?s = "s\<lparr>written := written s @ [(cid, connectedMessage cid q)]\<rparr>"
  let ?subs = "subscriptionsFor p (ownedStreams (pd_publicKey p) rows)"
  assume s': "s' = addClient cid ?subs (pd_ip p) (Some (pd_publicKey p)) ?s"
  from new have "cid \<notin> cl_id ` set (clients ?s)" by simp
  note fs = addClient_fields(1) [OF this, of ?subs "pd_ip p" "Some (pd_publicKey p)"]
  show ?thesis
    using lim room unfolding s' withinLimits_def roomFor_def fs
    by (auto simp: livePerIp_def livePerUser_def Suc_le_eq)
qed (use lim in simp)

text \<open>Apart from a new connection, a step only removes clients.\<close>

lemma step_kept:
  assumes "sse_step b w w'"
  obtains (quiet) "kept (reg w) (reg w')" "returned w' = returned w" "waiting w' = waiting w"
  | (taken) req p where "kept (reg w) (reg w')" "returned w' = returned w" "waiting w' = waiting w @ [p]"
      "subscribeBegin req (reg w) = (Waits p, reg w')" "b \<longrightarrow> waiting w = []"
  | (answered) xs p ys cid W q rows c where "waiting w = xs @ p # ys" "waiting w' = xs @ ys"
      "returned w' = returned w @ ownedStreams (pd_publicKey p) rows" "cid \<notin> cl_id ` set (clients (reg w))"
      "subscribeFinish W q p (Some rows) cid (reg w) = (c, reg w')"
  | (failed) xs p ys where "waiting w = xs @ p # ys" "waiting w' = xs @ ys" "reg w' = reg w" "returned w' = returned w"
  using assms
proof cases
  case (refused req c h s)
  then show thesis by (intro quiet) (auto intro: kept_frame dest: subscribeBegin_frame)
next
  case (taken req p s)
  then show thesis by (intro that(2) [of p req]) (auto intro: kept_frame dest: subscribeBegin_frame)
next
  case (answered xs p ys cid W q rows c s)
  then show thesis by (intro that(3) [of xs p ys rows cid W q c]) auto
next
  case (query_failed xs p ys)
  then show thesis by (intro that(4) [of xs p ys]) auto
next
  case (heartbeat W)
  then show thesis by (intro quiet) (simp_all add: sendHeartbeat_def fold_writeToClient_kept)
next
  case (stream_event W sid event d)
  then show thesis by (intro quiet) (simp_all add: localBroadcastToStream_def broadcast_def fold_writeToClient_kept)
next
  case (user_event W k event d)
  then show thesis by (intro quiet) (simp_all add: localBroadcastToUser_def broadcast_def fold_writeToClient_kept)
next
  case (shutdown W)
  then show thesis by (intro quiet) (auto simp: sendReconnectToAll_def intro: kept_frame)
next
  case heartbeat_off
  then show thesis by (intro quiet) (auto simp: stopHeartbeat_def intro: kept_frame)
qed (auto intro: quiet)

lemma serial_step:
  assumes "sse_step True w w'" "serialOk w"
  shows "serialOk w'"
proof -
  have inv: "sse_inv (reg w')" using step_inv [OF assms(1)] assms(2) by (simp add: serialOk_def)
  from assms(1) show ?thesis
  proof (cases rule: step_kept)
    case quiet
    with assms(2) inv show ?thesis by (auto simp: serialOk_def intro: withinLimits_kept roomFor_kept)
  next
    case (taken req p)
    with assms(2) inv show ?thesis by (auto simp: serialOk_def intro: taken_room withinLimits_kept)
  next
    case (answered xs p ys cid W q rows c)
    with assms(2) have "xs = []" "ys = []" "roomFor p (reg w)" "withinLimits (reg w)"
      by (auto simp: serialOk_def append_eq_Cons_conv)
    with answered inv show ?thesis by (auto simp: serialOk_def intro: answered_limits)
  next
    case (failed xs p ys)
    with assms(2) inv show ?thesis by (auto simp: serialOk_def append_eq_Cons_conv)
  qed
qed

lemma maxSseConnections_pos: "0 < maxSseConnections v"
  by (simp add: maxSseConnections_def split: option.split)

lemma serial_reach: "sse_reach True w \<Longrightarrow> serialOk w"
proof (induction rule: sse_reach.induct)
  case (start v)
  show ?case
    using newSse_inv [of v] maxSseConnections_pos [of v]
    by (simp add: serialOk_def withinLimits_def livePerIp_def livePerUser_def) (simp add: newSse_def)
qed (rule serial_step)

lemma sse_limits_serial_facts:
  assumes "sse_reach True w"
  shows "livePerIp (clients (reg w)) ip \<le> 5" and "livePerUser (clients (reg w)) u \<le> 10"
    and "int (length (clients (reg w))) \<le> maxConnections (reg w)"
  using serial_reach [OF assms] by (simp_all add: serialOk_def withinLimits_def MAX_CONNECTIONS_PER_IP_def MAX_CONNECTIONS_PER_USER_def)

text \<open>As long as a subscription request is only taken up when no other one is waiting for the
  database, the limits of 5 connections per address, 10 per user and the configured maximum hold.
\<close>
theorem sse_limits_serial:
  assumes "sse_reach True w"
  shows "livePerIp (clients (reg w)) ip \<le> 5 \<and> livePerUser (clients (reg w)) u \<le> 10 \<and>
         int (length (clients (reg w))) \<le> maxConnections (reg w)"
  using sse_limits_serial_facts [OF assms] by blast

section \<open>The limits are checked too early\<close>

definition quietIo :: io where
  "quietIo = \<lparr>io_write = (\<lambda>_. WriteOk), writableLength = (\<lambda>_. 0)\<rparr>"

definition plainRequest :: "string \<Rightarrow> string \<Rightarrow> sse_request" where
  "plainRequest ip publicKey =
     \<lparr>rq_forwarded = FwdNone, rq_ip = Some ip, rq_remoteAddress = None, rq_publicKey = publicKey,
      rq_streams = QAbsent, rq_users = QAbsent, rq_all = QAbsent\<rparr>"

definition plainPending :: "string \<Rightarrow> string \<Rightarrow> pending" where
  "plainPending ip publicKey = \<lparr>pd_ip = ip, pd_publicKey = publicKey, pd_streams = [], pd_users = [], pd_all = False\<rparr>"

lemma plain_taken:
  assumes "ip \<noteq> []"
  shows "subscribeBegin (plainRequest ip pk) (newSse v) = (Waits (plainPending ip pk), newSse v)"
  using assms maxSseConnections_pos [of v]
  by (simp add: subscribeBegin_def plainRequest_def plainPending_def newSse_def getClientIp_def orElse_def checkCapacity_def
        countOf_def MAX_CONNECTIONS_PER_IP_def MAX_CONNECTIONS_PER_USER_def subscribeSchema_def split: option.split)

lemma burst_waiting:
  assumes "ip \<noteq> []"
  shows "sse_reach False \<lparr>reg = newSse v, waiting = replicate n (plainPending ip pk), returned = []\<rparr>"
proof (induction n)
  case 0
  show ?case using start [of False v] by simp
next
  case (Suc n)
  let ?w = "\<lparr>reg = newSse v, waiting = replicate n (plainPending ip pk), returned = []\<rparr>"
  from taken [of "plainRequest ip pk" ?w "plainPending ip pk" "newSse v" False] plain_taken [OF assms]
  have "sse_step False ?w (?w\<lparr>reg := newSse v, waiting := waiting ?w @ [plainPending ip pk]\<rparr>)" by simp
  with Suc show ?case using next_event [of False ?w] by (simp add: replicate_append_same)
qed

lemma burst_connected:
  assumes "ip \<noteq> []" "pk \<noteq> []"
  shows "k \<le> n \<Longrightarrow> \<exists>w. sse_reach False w \<and> waiting w = replicate (n - k) (plainPending ip pk) \<and>
           length (clients (reg w)) = k \<and> livePerIp (clients (reg w)) ip = k \<and> livePerUser (clients (reg w)) pk = k \<and>
           maxConnections (reg w) = maxSseConnections v"
proof (induction k)
  case 0
  show ?case using burst_waiting [OF assms(1), of v n pk] by (force simp: newSse_def livePerIp_def livePerUser_def)
next
  case (Suc k)
  let ?p = "plainPending ip pk"
  from Suc obtain w where w: "sse_reach False w" "waiting w = replicate (n - k) ?p" "length (clients (reg w)) = k"
    "livePerIp (clients (reg w)) ip = k" "livePerUser (clients (reg w)) pk = k" "maxConnections (reg w) = maxSseConnections v" by auto
  obtain cid where new: "cid \<notin> cl_id ` set (clients (reg w))"
    using ex_new_if_finite [OF infinite_UNIV_listI, of "cl_id ` set (clients (reg w))"] by auto
  let ?s = "(reg w)\<lparr>written := written (reg w) @ [(cid, connectedMessage cid None)]\<rparr>"
  let ?s' = "addClient cid (subscriptionsFor ?p (ownedStreams pk [])) ip (Some pk) ?s"
  have fin: "subscribeFinish quietIo None ?p (Some []) cid (reg w) = (200, ?s')"
    by (simp add: subscribeFinish_def quietIo_def plainPending_def Let_def)
  from Suc.prems have split: "waiting w = [] @ ?p # replicate (n - Suc k) ?p"
    by (simp add: w(2) Suc_diff_Suc flip: replicate_Suc)
  note step = answered [OF split new fin, of False]
  from new have "cid \<notin> cl_id ` set (clients ?s)" by simp
  note fs = addClient_fields(1) [OF this]
  show ?case
    using next_event [OF w(1) step] w(3-6) assms
    by (intro exI conjI) (assumption | simp add: fs livePerIp_def livePerUser_def userKey_def)+
qed

text \<open>The limits are checked before the database query and the connection is counted after it: a
  burst of requests that all wait for the database is admitted whole, whatever its size, past the
  limits per address, per user and for the server.
\<close>
theorem sse_limits_race:
  assumes "ip \<noteq> []" "pk \<noteq> []"
  shows "\<exists>w. sse_reach False w \<and> livePerIp (clients (reg w)) ip = n \<and> livePerUser (clients (reg w)) pk = n \<and>
             length (clients (reg w)) = n \<and> maxConnections (reg w) = maxSseConnections v"
  using burst_connected [OF assms, of n n v] by auto

theorem sse_limits_race_witness:
  "\<exists>w. sse_reach False w \<and> livePerIp (clients (reg w)) ''10.0.0.1'' = 20001 \<and> livePerUser (clients (reg w)) ''GA'' = 20001 \<and>
       length (clients (reg w)) = 20001 \<and> maxConnections (reg w) = 10000"
  using sse_limits_race [of "''10.0.0.1''" "''GA''" 20001 "Some ''x''"]
  by (simp add: maxSseConnections_def parseInt10_def parse_radix_def trim_def is_ws_def is_digit_def code_def)

section \<open>Who gets what\<close>

definition inScope :: "stream_row list \<Rightarrow> string \<Rightarrow> string \<Rightarrow> bool" where
  "inScope rows pk t =
     ((\<exists>r \<in> set rows. party pk r \<and> t = toString (streamId r)) \<or>
      (\<exists>k. t = ''user:'' @ k \<and> (k = pk \<or> (\<exists>r \<in> set rows. party pk r \<and> party k r))))"

definition scoped :: "sse_world \<Rightarrow> bool" where
  "scoped w = (\<forall>c \<in> set (clients (reg w)). \<exists>pk. cl_userId c = Some pk \<and> (\<forall>t \<in> set (cl_subscriptions c). inScope (returned w) pk t))"

lemma subscriptions_in_scope:
  assumes "t \<in> set (subscriptionsFor p (ownedStreams (pd_publicKey p) rows))"
  shows "inScope (ownedStreams (pd_publicKey p) rows) (pd_publicKey p) t"
proof -
  let ?pk = "pd_publicKey p"
  let ?owned = "ownedStreams ?pk rows"
  have own: "party ?pk r" if "r \<in> set ?owned" for r
    using that by (auto simp: ownedStreams_def dest: in_set_takeD)
  from assms consider (stream) r where "r \<in> set ?owned" "t = toString (streamId r)"
    | (user) k where "t = ''user:'' @ k" "k = ?pk \<or> (\<exists>r \<in> set ?owned. k = sender r \<or> k = recipient r)"
    unfolding subscriptionsFor_def Let_def by (auto split: if_splits)
  then show ?thesis
  proof cases
    case stream
    with own show ?thesis by (auto simp: inScope_def)
  next
    case user
    with own show ?thesis by (fastforce simp: inScope_def party_def)
  qed
qed

lemma inScope_mono: "set rows \<subseteq> set rows' \<Longrightarrow> inScope rows pk t \<Longrightarrow> inScope rows' pk t"
  by (auto simp: inScope_def)

lemma toString_first: "toString n \<noteq> CHR ''u'' # k" "CHR ''u'' # k \<noteq> toString n" "toString n \<noteq> ''*''" "''*'' \<noteq> toString n"
proof -
  have no: "toString n \<noteq> c # k" if "\<not> is_digit c" "c \<noteq> CHR ''-''" for c k
    using toString_chars [of n] that by auto
  then show "toString n \<noteq> CHR ''u'' # k" "toString n \<noteq> ''*''" by (simp_all add: is_digit_def code_def)
  then show "CHR ''u'' # k \<noteq> toString n" "''*'' \<noteq> toString n" by metis+
qed

lemma scoped_static:
  "scoped w = (\<forall>x \<in> static ` set (clients (reg w)). \<exists>pk. fst (snd (snd x)) = Some pk \<and>
     (\<forall>t \<in> set (snd (snd (snd x))). inScope (returned w) pk t))"
  by (simp add: scoped_def static_def)

lemma scoped_kept: "scoped w \<Longrightarrow> kept (reg w) (reg w') \<Longrightarrow> returned w' = returned w \<Longrightarrow> scoped w'"
  using kept_live(4) [of "reg w" "reg w'"] by (auto simp: scoped_static)

lemma step_scoped:
  assumes "sse_step b w w'" "scoped w"
  shows "scoped w'"
  using assms(1)
proof (cases rule: step_kept)
  case (answered xs p ys cid W q rows c)
  let ?owned = "ownedStreams (pd_publicKey p) rows"
  let ?s = "(reg w)\<lparr>written := written (reg w) @ [(cid, connectedMessage cid q)]\<rparr>"
  have old: "\<exists>pk. cl_userId c = Some pk \<and> (\<forall>t \<in> set (cl_subscriptions c). inScope (returned w @ ?owned) pk t)"
    if "c \<in> set (clients (reg w))" for c
    using assms(2) that inScope_mono [of "returned w" "returned w @ ?owned"] by (fastforce simp: scoped_def)
  from answered(5) show ?thesis
  proof (rule subscribeFinish_cases)
    assume "reg w' = reg w"
    with old show ?thesis by (simp add: answered(3) scoped_def)
  next
    assume s: "reg w' = addClient cid (subscriptionsFor p ?owned) (pd_ip p) (Some (pd_publicKey p)) ?s"
    from answered(4) have "cid \<notin> cl_id ` set (clients ?s)" by simp
    note fs = addClient_fields(1) [OF this, of "subscriptionsFor p ?owned" "pd_ip p" "Some (pd_publicKey p)"]
    have "inScope (returned w @ ?owned) (pd_publicKey p) t" if "t \<in> set (subscriptionsFor p ?owned)" for t
      using subscriptions_in_scope [OF that] by (rule inScope_mono [rotated]) simp
    with old show ?thesis by (auto simp: answered(3) scoped_def s fs)
  qed
next
  case (failed xs p ys)
  with assms(2) show ?thesis by (simp add: scoped_def)
qed (use assms(2) in \<open>auto intro: scoped_kept\<close>)

lemma reach_scoped: "sse_reach b w \<Longrightarrow> scoped w"
proof (induction rule: sse_reach.induct)
  case (start v)
  show ?case by (simp add: scoped_def newSse_def)
qed (rule step_scoped)

lemma wantsStream_party:
  assumes "sse_reach b w" "c \<in> set (clients (reg w))" "wantsStream (toString n) c"
  shows "\<exists>pk r. cl_userId c = Some pk \<and> r \<in> set (returned w) \<and> streamId r = n \<and> party pk r"
proof -
  from reach_scoped [OF assms(1)] assms(2) obtain pk where
    pk: "cl_userId c = Some pk" "\<forall>t \<in> set (cl_subscriptions c). inScope (returned w) pk t"
    by (auto simp: scoped_def)
  from assms(3) consider "toString n \<in> set (cl_subscriptions c)" | "''*'' \<in> set (cl_subscriptions c)"
    by (auto simp: wantsStream_def)
  then show ?thesis
    by cases (use pk in \<open>force simp: inScope_def toString_first\<close>)+
qed

text \<open>C17. An event of a stream is only ever written to connections of a wallet that the database named as
  the sender or the recipient of that stream.
\<close>
theorem stream_events_reach_parties_only:
  assumes "sse_reach b w"
    and "(i, m) \<in> set (drop (length (written (reg w))) (written (localBroadcastToStream W (toString n) event d (reg w))))"
  shows "\<exists>c pk r. c \<in> set (clients (reg w)) \<and> cl_id c = i \<and> cl_userId c = Some pk \<and>
                  r \<in> set (returned w) \<and> streamId r = n \<and> party pk r"
  using assms wantsStream_party [OF assms(1)]
  by (fastforce simp: localBroadcastToStream_def broadcast_def fold_writeToClient_written)

text \<open>A world with one connection, of the recipient of a stream.\<close>

definition oneClient :: "string \<Rightarrow> stream_row \<Rightarrow> sse_world" where
  "oneClient userQuery r =
     (let p = (plainPending ''10.0.0.1'' (recipient r))\<lparr>pd_users := [userQuery]\<rparr>;
          s = newSse None
      in \<lparr>reg = snd (subscribeFinish quietIo None p (Some [r]) ''c1'' s), waiting = [], returned = [r]\<rparr>)"

lemma oneClient_reach:
  "sse_reach b (oneClient k r)"
proof -
  let ?req = "(plainRequest ''10.0.0.1'' (recipient r))\<lparr>rq_users := QTexts [k]\<rparr>"
  let ?p = "(plainPending ''10.0.0.1'' (recipient r))\<lparr>pd_users := [k]\<rparr>"
  let ?w0 = "\<lparr>reg = newSse None, waiting = [], returned = []\<rparr>"
  let ?w1 = "\<lparr>reg = newSse None, waiting = [?p], returned = []\<rparr>"
  have "subscribeBegin ?req (newSse None) = (Waits ?p, newSse None)"
    using maxSseConnections_pos [of None]
    by (simp add: subscribeBegin_def plainRequest_def plainPending_def newSse_def getClientIp_def orElse_def checkCapacity_def
          countOf_def MAX_CONNECTIONS_PER_IP_def MAX_CONNECTIONS_PER_USER_def subscribeSchema_def split: option.split)
  with taken [of ?req ?w0 ?p "newSse None" b] have "sse_step b ?w0 ?w1" by simp
  with start [of b None] have r1: "sse_reach b ?w1" by (rule next_event)
  have own: "ownedStreams (recipient r) [r] = [r]" by (simp add: ownedStreams_def party_def MAX_SSE_STREAMS_def)
  obtain c s where fin: "subscribeFinish quietIo None ?p (Some [r]) ''c1'' (newSse None) = (c, s)" by force
  have "sse_step b ?w1 (?w1\<lparr>reg := s, waiting := [] @ [], returned := returned ?w1 @ ownedStreams (pd_publicKey ?p) [r]\<rparr>)"
    by (rule answered [where xs = "[]" and ys = "[]" and p = ?p and clientId = "''c1''" and W = quietIo and requestId = None and rows = "[r]" and c = c])
      (simp_all add: fin, simp add: newSse_def)
  with r1 have "sse_reach b (?w1\<lparr>reg := s, waiting := [] @ [], returned := returned ?w1 @ ownedStreams (pd_publicKey ?p) [r]\<rparr>)"
    by (rule next_event)
  moreover have "pd_publicKey ?p = recipient r" by (simp add: plainPending_def)
  ultimately show ?thesis by (simp add: oneClient_def fin own Let_def)
qed

lemma oneClient_clients:
  "clients (reg (oneClient k r)) =
   [\<lparr>cl_id = ''c1'', cl_subscriptions = jsSet (toString (streamId r) # jsSet ((''user:'' @ recipient r) #
        map (\<lambda>k. ''user:'' @ k) (filter (\<lambda>k. k \<in> {recipient r, sender r}) [k]))),
     cl_paused = False, cl_ip = ''10.0.0.1'', cl_userId = Some (recipient r)\<rparr>]"
  by (simp add: oneClient_def subscribeFinish_def quietIo_def plainPending_def newSse_def ownedStreams_def MAX_SSE_STREAMS_def
        party_def Let_def addClient_fields subscriptionsFor_def) (auto simp: jsSet_def)


theorem sse_limits_serial_witness:
  "livePerIp (clients (reg (oneClient [] exampleStream))) ''10.0.0.1'' \<le> 5 \<and>
   livePerUser (clients (reg (oneClient [] exampleStream))) ''G2'' \<le> 10 \<and>
   int (length (clients (reg (oneClient [] exampleStream)))) \<le> maxConnections (reg (oneClient [] exampleStream))"
  using sse_limits_serial [OF oneClient_reach [of True "[]" exampleStream]] by simp

theorem stream_events_reach_parties_only_witness:
  "\<exists>c pk r. c \<in> set (clients (reg (oneClient [] exampleStream))) \<and> cl_id c = ''c1'' \<and> cl_userId c = Some pk \<and>
      r \<in> set (returned (oneClient [] exampleStream)) \<and> streamId r = 7 \<and> party pk r"
proof (rule stream_events_reach_parties_only [where b = False and W = quietIo and event = "''stream.paused''" and d = JNull])
  show "sse_reach False (oneClient [] exampleStream)" by (rule oneClient_reach)
  show "(''c1'', sseMessage ''stream.paused'' JNull) \<in> set (drop (length (written (reg (oneClient [] exampleStream))))
          (written (localBroadcastToStream quietIo (toString 7) ''stream.paused'' JNull (reg (oneClient [] exampleStream)))))"
    by (simp add: stream_broadcast_delivery oneClient_clients wantsStream_def receives_def quietIo_def exampleStream_def)
qed

section \<open>Parameters given once\<close>

text \<open>A request that names a single stream or a single user, or that sets \<open>all\<close>, is never accepted:
  the schema wants an array and a boolean, the query string holds neither.
\<close>
theorem single_parameter_rejected:
  assumes "rq_streams req = QText a \<or> rq_users req = QText a \<or> rq_all req \<noteq> QAbsent"
  shows "\<exists>c h. fst (subscribeBegin req s) = Rejected c h \<and> c \<in> {400, 429, 503}"
proof -
  from assms have "subscribeSchema req = None"
    by (cases "rq_all req") (auto simp: subscribeSchema_def split: option.split)
  then show ?thesis
    by (auto simp: subscribeBegin_def checkCapacity_def Let_def split: option.split)
qed

theorem single_parameter_rejected_witness:
  "\<exists>c h. fst (subscribeBegin ((plainRequest ''10.0.0.1'' ''GA'')\<lparr>rq_all := QText ''true''\<rparr>) (newSse None)) = Rejected c h \<and> c \<in> {400, 429, 503}"
  by (rule single_parameter_rejected) simp

text \<open>The address that is counted is whatever the client puts into the header.\<close>

lemma forwarded_address_is_free:
  assumes "CHR '','' \<notin> set a" "trim a = a" "a \<noteq> []"
  shows "getClientIp (req\<lparr>rq_forwarded := FwdOne a\<rparr>) = a"
  using assms by (simp add: getClientIp_def orElse_def js_split_no_sep)

end
