(* ===== verification/Webhooks.thy ===== *)
theory Webhooks
  imports Sse_Subscribe
begin

text \<open>
  Outgoing webhooks: \<open>backend/src/services/webhook.service.ts\<close> and the handlers of
  \<open>backend/src/controllers/webhook.controller.ts\<close> (mounted by \<open>routes/v1/webhook.routes.ts\<close> without any
  authentication). The two tables are lists in order of creation, so that newest first is the
  reverse. HMAC-SHA256, random bytes, the receiving server and what Prisma makes of a filter or a
  data object taken from a request body are parameters. The database itself does not fail here,
  and a delivery runs without other deliveries in between.
\<close>

section \<open>Tables\<close>

record webhook_sub =
  wh_id :: string
  wh_userAddress :: string
  wh_targetUrl :: string
  wh_secretKey :: string
  wh_eventTypes :: "string list"
  wh_isActive :: bool

record webhook_delivery =
  wd_id :: string
  wd_subscriptionId :: string
  wd_eventType :: string
  wd_payload :: string
  wd_responseStatus :: "int option"
  wd_attempts :: nat
  wd_deliveredAt :: "int option"
  wd_error :: "string option"

record hooks =
  subscriptions :: "webhook_sub list"
  deliveries :: "webhook_delivery list"

definition subs_updateMany :: "(webhook_sub \<Rightarrow> bool) \<Rightarrow> (webhook_sub \<Rightarrow> webhook_sub) \<Rightarrow> hooks \<Rightarrow> nat \<times> hooks" where
  "subs_updateMany P f h =
     (length (filter P (subscriptions h)), h\<lparr>subscriptions := map (\<lambda>r. if P r then f r else r) (subscriptions h)\<rparr>)"

definition delivery_update :: "string \<Rightarrow> (webhook_delivery \<Rightarrow> webhook_delivery) \<Rightarrow> hooks \<Rightarrow> hooks" where
  "delivery_update i f h = h\<lparr>deliveries := map (\<lambda>r. if wd_id r = i then f r else r) (deliveries h)\<rparr>"

section \<open>Signatures\<close>

type_synonym hmac_fun = "string \<Rightarrow> string \<Rightarrow> string"

definition generateWebhookSignature :: "hmac_fun \<Rightarrow> string \<Rightarrow> string \<Rightarrow> int \<Rightarrow> string" where
  "generateWebhookSignature hmac payload secret timestamp = hmac secret (toString timestamp @ ''.'' @ payload)"

definition timingSafeEqual :: "string \<Rightarrow> string \<Rightarrow> bool result" where
  "timingSafeEqual a b = (if length a \<noteq> length b then Inl RangeError else Inr (a = b))"

definition verifyWebhookSignature ::
  "hmac_fun \<Rightarrow> int \<Rightarrow> string \<Rightarrow> string \<Rightarrow> string \<Rightarrow> int \<Rightarrow> int \<Rightarrow> bool result" where
  "verifyWebhookSignature hmac nowMs payload signature secret timestamp toleranceSeconds =
     (let now = nowMs div 1000 in
      if \<bar>now - timestamp\<bar> > toleranceSeconds then Inr False
      else timingSafeEqual signature (generateWebhookSignature hmac payload secret timestamp))"

section \<open>Subscriptions\<close>

definition createWebhookSubscription ::
  "string \<Rightarrow> string \<Rightarrow> string \<Rightarrow> string \<Rightarrow> string list \<Rightarrow> hooks \<Rightarrow> (webhook_sub \<times> hooks) result" where
  "createWebhookSubscription newId secretKey userAddress targetUrl eventTypes h =
     (if \<not> startsWith targetUrl ''https://'' then Inl (Thrown ''Webhook URL must use HTTPS'')
      else let r = \<lparr>wh_id = newId, wh_userAddress = userAddress, wh_targetUrl = targetUrl, wh_secretKey = secretKey,
                    wh_eventTypes = eventTypes, wh_isActive = True\<rparr>
           in Inr (r, h\<lparr>subscriptions := subscriptions h @ [r]\<rparr>))"

definition listWebhookSubscriptions :: "string \<Rightarrow> hooks \<Rightarrow> webhook_sub list" where
  "listWebhookSubscriptions userAddress h = filter (\<lambda>r. wh_userAddress r = userAddress) (rev (subscriptions h))"

definition deleteWebhookSubscription :: "string \<Rightarrow> string \<Rightarrow> hooks \<Rightarrow> hooks" where
  "deleteWebhookSubscription i userAddress h =
     snd (subs_updateMany (\<lambda>r. wh_id r = i \<and> wh_userAddress r = userAddress) (\<lambda>r. r\<lparr>wh_isActive := False\<rparr>) h)"

text \<open>
  \<open>data\<close> is what \<open>updateMany\<close> does with the request body as its data object: \<open>None\<close> is Prisma's validation
  error. The second component of the body is its \<open>targetUrl\<close>.
\<close>

definition updateWebhookSubscription ::
  "(webhook_sub \<Rightarrow> webhook_sub) option \<Rightarrow> json option \<Rightarrow> string \<Rightarrow> string \<Rightarrow> hooks \<Rightarrow> webhook_sub result \<times> hooks" where
  "updateWebhookSubscription upd targetUrl i userAddress h =
     (let run = (case upd of
            None \<Rightarrow> (Inl (PrismaError ''validation''), h)
          | Some f \<Rightarrow>
              (let (n, h1) = subs_updateMany (\<lambda>r. wh_id r = i \<and> wh_userAddress r = userAddress) f h in
               if n = 0 then (Inl (Thrown ''Webhook subscription not found''), h1)
               else case find (\<lambda>r. wh_id r = i) (subscriptions h1) of
                 None \<Rightarrow> (Inl (PrismaError ''P2025''), h1)
               | Some r \<Rightarrow> (Inr r, h1)))
      in case targetUrl of
           None \<Rightarrow> run
         | Some (JStr u) \<Rightarrow> if \<not> startsWith u ''https://'' then (Inl (Thrown ''Webhook URL must use HTTPS''), h) else run
         | Some _ \<Rightarrow> (Inl TypeError, h))"

text \<open>\<open>Math.floor(x) || d\<close>, for a number that may be NaN.\<close>

definition floorOr :: "int option \<Rightarrow> int \<Rightarrow> int" where
  "floorOr x d = (case x of None \<Rightarrow> d | Some n \<Rightarrow> if n = 0 then d else n)"

definition listWebhookDeliveries ::
  "string \<Rightarrow> string \<Rightarrow> int option \<Rightarrow> int option \<Rightarrow> hooks \<Rightarrow> (webhook_delivery list \<times> nat \<times> int \<times> int) result" where
  "listWebhookDeliveries i userAddress page limit h =
     (let safePage = max 1 (floorOr page 1);
          safeLimit = min 100 (max 1 (floorOr limit 20));
          own = filter (\<lambda>d. wd_subscriptionId d = i) (rev (deliveries h))
      in case find (\<lambda>r. wh_id r = i \<and> wh_userAddress r = userAddress) (subscriptions h) of
           None \<Rightarrow> Inl (Thrown ''Webhook subscription not found'')
         | Some _ \<Rightarrow> Inr (take (nat safeLimit) (drop (nat ((safePage - 1) * safeLimit)) own), length own, safePage, safeLimit))"

text \<open>\<open>owner\<close> is the filter on the owner's address.\<close>

definition regenerateWebhookSecret ::
  "string \<Rightarrow> string \<Rightarrow> (string \<Rightarrow> bool) \<Rightarrow> hooks \<Rightarrow> string result \<times> hooks" where
  "regenerateWebhookSecret secretKey i owner h =
     (case find (\<lambda>r. wh_id r = i \<and> owner (wh_userAddress r)) (subscriptions h) of
        None \<Rightarrow> (Inl (Thrown ''Webhook subscription not found''), h)
      | Some _ \<Rightarrow> (Inr secretKey, snd (subs_updateMany (\<lambda>r. wh_id r = i) (\<lambda>r. r\<lparr>wh_secretKey := secretKey\<rparr>) h)))"

section \<open>Delivery\<close>

definition MAX_RETRY_ATTEMPTS :: nat where
  "MAX_RETRY_ATTEMPTS = 5"

definition RETRY_DELAYS_MS :: "int list" where
  "RETRY_DELAYS_MS = [0, 60000, 300000, 900000, 3600000]"

text \<open>
  \<open>we_fetch\<close> is the answer to each attempt (an error message, or a status), \<open>we_took\<close> the time from
  sending it to the next step.
\<close>

record webhook_env =
  we_hmac :: hmac_fun
  we_startMs :: int
  we_fetch :: "nat \<Rightarrow> string + int"
  we_took :: "nat \<Rightarrow> int"
  we_deliveryId :: string
  we_rowId :: string

record webhook_request =
  wr_url :: string
  wr_timestamp :: int
  wr_signature :: string
  wr_event :: string
  wr_deliveryId :: string
  wr_body :: string
  wr_sentMs :: int

record delivery_result =
  res_success :: bool
  res_status :: "int option"
  res_error :: "string option"

definition ok2xx :: "int \<Rightarrow> bool" where
  "ok2xx st = (200 \<le> st \<and> st < 300)"

definition httpError :: "int \<Rightarrow> string" where
  "httpError st = ''HTTP '' @ toString st"

text \<open>The loop: whether it returned, the last error and status, and the requests that were sent.\<close>

fun deliverAttempts ::
  "webhook_env \<Rightarrow> webhook_request \<Rightarrow> nat list \<Rightarrow> int \<Rightarrow> string option \<Rightarrow> int option \<Rightarrow> webhook_request list \<Rightarrow> hooks \<Rightarrow>
   bool \<times> string option \<times> int option \<times> webhook_request list \<times> hooks" where
  "deliverAttempts E rq [] t lastError lastStatus sent h = (False, lastError, lastStatus, sent, h)"
| "deliverAttempts E rq (attempt # rest) t lastError lastStatus sent h =
     (let t1 = (if 0 < attempt then t + RETRY_DELAYS_MS ! attempt else t);
          sent1 = sent @ [rq\<lparr>wr_sentMs := t1\<rparr>];
          t2 = t1 + we_took E attempt
      in case we_fetch E attempt of
           Inr st \<Rightarrow>
             (let h1 = delivery_update (we_rowId E)
                    (\<lambda>d. d\<lparr>wd_responseStatus := Some st, wd_attempts := attempt + 1,
                           wd_deliveredAt := (if ok2xx st then Some t2 else None),
                           wd_error := (if ok2xx st then None else Some (httpError st))\<rparr>) h
              in if ok2xx st then (True, lastError, Some st, sent1, h1)
                 else deliverAttempts E rq rest t2 (Some (httpError st)) (Some st) sent1 h1)
         | Inl msg \<Rightarrow>
             (let e = (if msg = [] then ''Network error'' else msg)
              in deliverAttempts E rq rest t2 (Some e) lastStatus sent1
                   (delivery_update (we_rowId E) (\<lambda>d. d\<lparr>wd_attempts := attempt + 1, wd_error := Some e\<rparr>) h)))"

definition checkConsecutiveFailures :: "string \<Rightarrow> hooks \<Rightarrow> hooks" where
  "checkConsecutiveFailures i h =
     (let recent = take 50 (filter (\<lambda>d. wd_subscriptionId d = i) (rev (deliveries h)));
          consecutiveFailures = length (takeWhile (\<lambda>d. wd_deliveredAt d = None) recent)
      in if 50 \<le> consecutiveFailures
         then snd (subs_updateMany (\<lambda>r. wh_id r = i) (\<lambda>r. r\<lparr>wh_isActive := False\<rparr>) h)
         else h)"

definition deliverWebhook ::
  "webhook_env \<Rightarrow> webhook_sub \<Rightarrow> string \<Rightarrow> string \<Rightarrow> hooks \<Rightarrow> delivery_result \<times> webhook_request list \<times> hooks" where
  "deliverWebhook E sub eventType payloadJson h =
     (let timestamp = we_startMs E div 1000;
          signature = generateWebhookSignature (we_hmac E) payloadJson (wh_secretKey sub) timestamp;
          h1 = h\<lparr>deliveries := deliveries h @ [\<lparr>wd_id = we_rowId E, wd_subscriptionId = wh_id sub, wd_eventType = eventType,
                   wd_payload = payloadJson, wd_responseStatus = None, wd_attempts = 0, wd_deliveredAt = None, wd_error = None\<rparr>]\<rparr>;
          rq = \<lparr>wr_url = wh_targetUrl sub, wr_timestamp = timestamp, wr_signature = signature, wr_event = eventType,
                wr_deliveryId = we_deliveryId E, wr_body = payloadJson, wr_sentMs = we_startMs E\<rparr>
      in case deliverAttempts E rq [0..<MAX_RETRY_ATTEMPTS] (we_startMs E) None None [] h1 of
           (True, lastError, lastStatus, sent, h2) \<Rightarrow> (\<lparr>res_success = True, res_status = lastStatus, res_error = None\<rparr>, sent, h2)
         | (False, lastError, lastStatus, sent, h2) \<Rightarrow>
             (\<lparr>res_success = False, res_status = Some (case lastStatus of None \<Rightarrow> 0 | Some st \<Rightarrow> st),
               res_error = Some (case lastError of None \<Rightarrow> ''Unknown error'' | Some e \<Rightarrow> if e = [] then ''Unknown error'' else e)\<rparr>,
              sent, checkConsecutiveFailures (wh_id sub) h2))"

definition webhookPayload :: "string \<Rightarrow> json \<Rightarrow> string \<Rightarrow> string" where
  "webhookPayload eventType d isoTime =
     JSON_stringify (JObj [(''eventType'', JStr eventType), (''data'', d), (''timestamp'', JStr isoTime)])"

definition sendTestWebhook ::
  "webhook_env \<Rightarrow> string \<Rightarrow> string \<Rightarrow> (string \<Rightarrow> bool) \<Rightarrow> hooks \<Rightarrow> (delivery_result \<times> webhook_request list) result \<times> hooks" where
  "sendTestWebhook E isoTime i owner h =
     (case find (\<lambda>r. wh_id r = i \<and> owner (wh_userAddress r) \<and> wh_isActive r) (subscriptions h) of
        None \<Rightarrow> (Inl (Thrown ''Webhook subscription not found''), h)
      | Some sub \<Rightarrow>
          (case deliverWebhook E sub ''TEST_PING''
                  (webhookPayload ''TEST_PING'' (JObj [(''message'', JStr ''This is a test webhook delivery from FlowFi'')]) isoTime) h of
             (r, sent, h1) \<Rightarrow> (Inr (r, sent), h1)))"

text \<open>Every subscription has its own delivery environment; they are run one after the other.\<close>

fun dispatchAll ::
  "(webhook_sub \<Rightarrow> webhook_env) \<Rightarrow> string \<Rightarrow> string \<Rightarrow> webhook_sub list \<Rightarrow> hooks \<Rightarrow> webhook_request list \<times> hooks" where
  "dispatchAll Es eventType payload [] h = ([], h)"
| "dispatchAll Es eventType payload (sub # rest) h =
     (case deliverWebhook (Es sub) sub eventType payload h of
        (r, sent, h1) \<Rightarrow> (case dispatchAll Es eventType payload rest h1 of (more_sent, h2) \<Rightarrow> (sent @ more_sent, h2)))"

definition dispatchWebhookEvent ::
  "(webhook_sub \<Rightarrow> webhook_env) \<Rightarrow> string \<Rightarrow> string \<Rightarrow> json \<Rightarrow> string list \<Rightarrow> hooks \<Rightarrow> webhook_request list \<times> hooks" where
  "dispatchWebhookEvent Es isoTime eventType d userAddresses h =
     dispatchAll Es eventType (webhookPayload eventType d isoTime)
       (filter (\<lambda>r. wh_userAddress r \<in> set userAddresses \<and> wh_isActive r \<and> eventType \<in> set (wh_eventTypes r)) (subscriptions h)) h"

section \<open>Handlers\<close>

text \<open>\<open>PrismaFilter\<close>: what a where clause makes of a JSON value, \<open>None\<close> being the validation error.\<close>

record prisma_params =
  pp_filter :: "json \<Rightarrow> (string \<Rightarrow> bool) option"
  pp_data :: "json \<Rightarrow> (webhook_sub \<Rightarrow> webhook_sub) option"

fun jsonTruthy :: "json \<Rightarrow> bool" where
  "jsonTruthy JNull = False"
| "jsonTruthy (JBool b) = b"
| "jsonTruthy (JStr s) = (s \<noteq> [])"
| "jsonTruthy (JNum n) = (n \<noteq> 0)"
| "jsonTruthy _ = True"

definition bodyField :: "string \<Rightarrow> json \<Rightarrow> json option" where
  "bodyField k body = (case body of JObj fs \<Rightarrow> map_of fs k | _ \<Rightarrow> None)"

fun asString :: "json \<Rightarrow> string option" where
  "asString (JStr s) = Some s"
| "asString _ = None"

definition webhookCreate :: "string \<Rightarrow> string \<Rightarrow> json \<Rightarrow> hooks \<Rightarrow> (webhook_sub \<times> string) response \<times> hooks" where
  "webhookCreate newId newSecret body h =
     (case (bodyField ''userAddress'' body, bodyField ''targetUrl'' body, bodyField ''eventTypes'' body) of
        (Some ua, Some tgt, Some (JArr tys)) \<Rightarrow>
          if \<not> jsonTruthy ua \<or> \<not> jsonTruthy tgt then (Failure 400 ''Missing required fields'', h)
          else (case tgt of
            JStr u \<Rightarrow>
              if \<not> startsWith u ''https://'' then (Failure 500 ''Webhook URL must use HTTPS'', h)
              else (case (asString ua, those (map asString tys)) of
                (Some a, Some ts) \<Rightarrow>
                  (case createWebhookSubscription newId newSecret a u ts h of
                     Inl _ \<Rightarrow> (Failure 500 ''Failed to create webhook'', h)
                   | Inr (r, h1) \<Rightarrow> (Success 201 (r, wh_secretKey r), h1))
              | _ \<Rightarrow> (Failure 500 ''Failed to create webhook'', h))
          | _ \<Rightarrow> (Failure 500 ''Failed to create webhook'', h))
      | _ \<Rightarrow> (Failure 400 ''Missing required fields'', h))"

definition safeSub :: "webhook_sub \<Rightarrow> string \<times> string \<times> string \<times> string list \<times> bool" where
  "safeSub r = (wh_id r, wh_userAddress r, wh_targetUrl r, wh_eventTypes r, wh_isActive r)"

definition webhookList ::
  "query_value \<Rightarrow> hooks \<Rightarrow> (string \<times> string \<times> string \<times> string list \<times> bool) list response" where
  "webhookList userAddress h =
     (case userAddress of
        QText u \<Rightarrow> if u = [] then Failure 400 ''userAddress query parameter required''
                   else Success 200 (map safeSub (listWebhookSubscriptions u h))
      | _ \<Rightarrow> Failure 400 ''userAddress query parameter required'')"

definition webhookDelete :: "string \<Rightarrow> query_value \<Rightarrow> hooks \<Rightarrow> unit response \<times> hooks" where
  "webhookDelete i userAddress h =
     (case userAddress of
        QText u \<Rightarrow> if i = [] \<or> u = [] then (Failure 400 ''Invalid id or userAddress required'', h)
                   else (Success 204 (), deleteWebhookSubscription i u h)
      | _ \<Rightarrow> (Failure 400 ''Invalid id or userAddress required'', h))"

definition webhookUpdate ::
  "prisma_params \<Rightarrow> string \<Rightarrow> query_value \<Rightarrow> json \<Rightarrow> hooks \<Rightarrow> (string \<times> string \<times> string \<times> string list \<times> bool) response \<times> hooks" where
  "webhookUpdate P i userAddress body h =
     (case userAddress of
        QText u \<Rightarrow>
          if i = [] then (Failure 400 ''id and userAddress are required'', h)
          else (case updateWebhookSubscription (pp_data P body) (bodyField ''targetUrl'' body) i u h of
             (Inl _, h1) \<Rightarrow> (Failure 400 ''Failed to update webhook'', h1)
           | (Inr r, h1) \<Rightarrow> (Success 200 (safeSub r), h1))
      | _ \<Rightarrow> (Failure 400 ''id and userAddress are required'', h))"

definition webhookDeliveries ::
  "string \<Rightarrow> query_value \<Rightarrow> int option \<Rightarrow> int option \<Rightarrow> hooks \<Rightarrow> (webhook_delivery list \<times> nat \<times> int \<times> int) response" where
  "webhookDeliveries i userAddress page limit h =
     (case userAddress of
        QText u \<Rightarrow>
          if i = [] then Failure 400 ''id and userAddress are required''
          else (case listWebhookDeliveries i u page limit h of
             Inl _ \<Rightarrow> Failure 400 ''Failed to list webhook deliveries''
           | Inr r \<Rightarrow> Success 200 r)
      | _ \<Rightarrow> Failure 400 ''id and userAddress are required'')"

definition ownerFilter :: "prisma_params \<Rightarrow> json option \<Rightarrow> (string \<Rightarrow> bool) option" where
  "ownerFilter P v = (case v of None \<Rightarrow> None | Some (JStr s) \<Rightarrow> Some (\<lambda>a. a = s) | Some j \<Rightarrow> pp_filter P j)"

definition webhookSecret :: "prisma_params \<Rightarrow> string \<Rightarrow> string \<Rightarrow> json \<Rightarrow> hooks \<Rightarrow> string response \<times> hooks" where
  "webhookSecret P newSecret i body h =
     (let ua = bodyField ''userAddress'' body in
      if i = [] \<or> \<not> (case ua of None \<Rightarrow> False | Some v \<Rightarrow> jsonTruthy v) then (Failure 400 ''id and userAddress are required'', h)
      else case ownerFilter P ua of
        None \<Rightarrow> (Failure 400 ''Failed to regenerate webhook secret'', h)
      | Some owner \<Rightarrow>
          (case regenerateWebhookSecret newSecret i owner h of
             (Inl _, h1) \<Rightarrow> (Failure 400 ''Failed to regenerate webhook secret'', h1)
           | (Inr s, h1) \<Rightarrow> (Success 200 s, h1)))"

definition webhookTest ::
  "prisma_params \<Rightarrow> webhook_env \<Rightarrow> string \<Rightarrow> string \<Rightarrow> json \<Rightarrow> hooks \<Rightarrow> (delivery_result \<times> webhook_request list) response \<times> hooks" where
  "webhookTest P E isoTime i body h =
     (let ua = bodyField ''userAddress'' body in
      if i = [] \<or> \<not> (case ua of None \<Rightarrow> False | Some v \<Rightarrow> jsonTruthy v) then (Failure 400 ''id and userAddress required'', h)
      else case ownerFilter P ua of
        None \<Rightarrow> (Failure 500 ''Failed to send test webhook'', h)
      | Some owner \<Rightarrow>
          (case sendTestWebhook E isoTime i owner h of
             (Inl _, h1) \<Rightarrow> (Failure 500 ''Failed to send test webhook'', h1)
           | (Inr r, h1) \<Rightarrow> (Success 200 r, h1)))"

section \<open>What a delivery does\<close>

definition delivered :: "webhook_env \<Rightarrow> nat \<Rightarrow> bool" where
  "delivered E k = (case we_fetch E k of Inr st \<Rightarrow> ok2xx st | Inl _ \<Rightarrow> False)"

text \<open>The attempts that are made, and when.\<close>

fun tried :: "webhook_env \<Rightarrow> nat list \<Rightarrow> nat list" where
  "tried E [] = []"
| "tried E (k # ks) = k # (if delivered E k then [] else tried E ks)"

definition pauseBefore :: "nat \<Rightarrow> int" where
  "pauseBefore k = (if 0 < k then RETRY_DELAYS_MS ! k else 0)"

primrec readyTime :: "webhook_env \<Rightarrow> nat \<Rightarrow> int" where
  "readyTime E 0 = we_startMs E"
| "readyTime E (Suc k) = readyTime E k + pauseBefore k + we_took E k"

definition sendTime :: "webhook_env \<Rightarrow> nat \<Rightarrow> int" where
  "sendTime E k = readyTime E k + pauseBefore k"

lemma tried_upt: "k < n \<Longrightarrow> tried E [k..<n] = k # (if delivered E k then [] else tried E [Suc k..<n])"
  by (simp add: upt_conv_Cons)

lemma atLeastLessThan_insert: "k < n \<Longrightarrow> {k..<n} = insert k {Suc k..<n}" for k n :: nat
  by auto

lemma tried_prefix:
  "k < n \<Longrightarrow> \<exists>m. tried E [k..<n] = [k..<m] \<and> k < m \<and> m \<le> n \<and> (\<forall>j. k \<le> j \<longrightarrow> Suc j < m \<longrightarrow> \<not> delivered E j) \<and>
     delivered E (m - 1) = (\<exists>j \<in> {k..<n}. delivered E j)"
proof (induction "n - k" arbitrary: k)
  case (Suc d)
  show ?case
  proof (cases "delivered E k \<or> n = Suc k")
    case True
    with Suc.prems show ?thesis by (intro exI [of _ "Suc k"]) (auto simp: tried_upt atLeastLessThan_insert)
  next
    case False
    with Suc.prems have "Suc k < n" by simp
    with Suc.hyps obtain m where m: "tried E [Suc k..<n] = [Suc k..<m]" "Suc k < m" "m \<le> n"
      "\<forall>j. Suc k \<le> j \<longrightarrow> Suc j < m \<longrightarrow> \<not> delivered E j" "delivered E (m - 1) = (\<exists>j \<in> {Suc k..<n}. delivered E j)"
      by (metis Suc_diff_Suc Suc_lessD diff_Suc_1)
    have "\<not> delivered E j" if "k \<le> j" "Suc j < m" for j
      using m(4) that False by (cases "j = k") auto
    with False m Suc.prems show ?thesis
      by (intro exI [of _ m]) (auto simp: tried_upt upt_conv_Cons atLeastLessThan_insert)
  qed
qed simp

lemma attempts_sent:
  assumes "k \<le> n" "deliverAttempts E rq [k..<n] (readyTime E k) le ls sent h = (ok, le', ls', sent', h')"
  shows "sent' = sent @ map (\<lambda>j. rq\<lparr>wr_sentMs := sendTime E j\<rparr>) (tried E [k..<n]) \<and>
         ok = (\<exists>j \<in> {k..<n}. delivered E j) \<and> (ok \<longrightarrow> (\<exists>st. ls' = Some st \<and> ok2xx st)) \<and> subscriptions h' = subscriptions h"
  using assms
proof (induction "n - k" arbitrary: k le ls sent h)
  case (Suc d)
  then have kn: "k < n" by simp
  have next_time: "readyTime E (Suc k) = (if 0 < k then readyTime E k + RETRY_DELAYS_MS ! k else readyTime E k) + we_took E k"
    and now: "(if 0 < k then readyTime E k + RETRY_DELAYS_MS ! k else readyTime E k) = sendTime E k"
    by (simp_all add: pauseBefore_def sendTime_def)
  have range: "(\<exists>j \<in> {k..<n}. delivered E j) = (delivered E k \<or> (\<exists>j \<in> {Suc k..<n}. delivered E j))"
    unfolding atLeastLessThan_insert [OF kn] by simp
  note run = Suc.prems(2) [unfolded upt_conv_Cons [OF kn] deliverAttempts.simps Let_def, folded next_time, unfolded now]
  show ?case
  proof (cases "delivered E k")
    case True
    with run show ?thesis
      unfolding range tried_upt [OF kn] by (auto simp: delivered_def delivery_update_def split: sum.splits if_splits)
  next
    case False
    with run obtain le1 ls1 h1 where
      rest: "deliverAttempts E rq [Suc k..<n] (readyTime E (Suc k)) le1 ls1 (sent @ [rq\<lparr>wr_sentMs := sendTime E k\<rparr>]) h1 = (ok, le', ls', sent', h')"
      and h1: "subscriptions h1 = subscriptions h"
      by (auto simp: delivered_def delivery_update_def split: sum.splits if_splits)
    from Suc.hyps(1) [OF _ _ rest] Suc.hyps(2) kn h1 False show ?thesis
      unfolding range tried_upt [OF kn] by simp
  qed
qed auto

text \<open>The row of the delivery.\<close>

lemma delivery_update_last:
  assumes "deliveries h = ds @ [d]" "wd_id d = i" "i \<notin> wd_id ` set ds"
  shows "deliveries (delivery_update i f h) = ds @ [f d]"
proof -
  have "map (\<lambda>r. if wd_id r = i then f r else r) ds = ds"
    using assms(3) by (induction ds) auto
  with assms(1,2) show ?thesis by (simp add: delivery_update_def)
qed

lemma attempts_row:
  assumes "k \<le> n" "deliverAttempts E rq [k..<n] t le ls sent h = (ok, le', ls', sent', h')"
    and "deliveries h = ds @ [d]" "wd_id d = we_rowId E" "we_rowId E \<notin> wd_id ` set ds" "wd_deliveredAt d = None" "wd_attempts d = k"
  shows "\<exists>d'. deliveries h' = ds @ [d'] \<and> wd_id d' = we_rowId E \<and> wd_subscriptionId d' = wd_subscriptionId d \<and>
              wd_payload d' = wd_payload d \<and> wd_eventType d' = wd_eventType d \<and>
              wd_attempts d' = k + length (tried E [k..<n]) \<and> (wd_deliveredAt d' \<noteq> None) = ok"
  using assms
proof (induction "n - k" arbitrary: k t le ls sent h d)
  case (Suc m)
  then have kn: "k < n" by simp
  note run = Suc.prems(2) [unfolded upt_conv_Cons [OF kn] deliverAttempts.simps Let_def]
  note upd = delivery_update_last [OF Suc.prems(3-5)]
  show ?case
  proof (cases "delivered E k")
    case True
    with run upd Suc.prems(4) show ?thesis
      by (auto simp: tried_upt [OF kn] delivered_def split: sum.splits if_splits)
  next
    case False
    with run upd Suc.prems(4,6) obtain t1 le1 ls1 sent1 h1 d1 where
      rest: "deliverAttempts E rq [Suc k..<n] t1 le1 ls1 sent1 h1 = (ok, le', ls', sent', h')"
      and d1: "deliveries h1 = ds @ [d1]" "wd_id d1 = we_rowId E" "wd_deliveredAt d1 = None" "wd_attempts d1 = Suc k"
        "wd_subscriptionId d1 = wd_subscriptionId d" "wd_payload d1 = wd_payload d" "wd_eventType d1 = wd_eventType d"
      by (auto simp: delivered_def split: sum.splits if_splits)
    from Suc.hyps(1) [OF _ _ rest d1(1,2) Suc.prems(5) d1(3,4)] Suc.hyps(2) kn d1(5-7) False show ?thesis
      by (simp add: tried_upt [OF kn])
  qed
qed auto

lemma checkConsecutiveFailures_deliveries [simp]: "deliveries (checkConsecutiveFailures i h) = deliveries h"
  by (simp add: checkConsecutiveFailures_def subs_updateMany_def Let_def)

lemma deliverWebhook_parts:
  assumes "deliverWebhook E sub ty body h = (r, sent, h')" and "we_rowId E \<notin> wd_id ` set (deliveries h)"
  obtains h2 d where
    "sent = map (\<lambda>j. \<lparr>wr_url = wh_targetUrl sub, wr_timestamp = we_startMs E div 1000,
                       wr_signature = generateWebhookSignature (we_hmac E) body (wh_secretKey sub) (we_startMs E div 1000),
                       wr_event = ty, wr_deliveryId = we_deliveryId E, wr_body = body, wr_sentMs = sendTime E j\<rparr>) (tried E [0..<5])"
    "res_success r = (\<exists>j \<in> {0..<5}. delivered E j)" "subscriptions h2 = subscriptions h"
    "deliveries h2 = deliveries h @ [d]" "wd_subscriptionId d = wh_id sub" "wd_payload d = body"
    "wd_attempts d = length (tried E [0..<5])" "(wd_deliveredAt d \<noteq> None) = res_success r"
    "h' = (if res_success r then h2 else checkConsecutiveFailures (wh_id sub) h2)"
proof -
  let ?sig = "generateWebhookSignature (we_hmac E) body (wh_secretKey sub) (we_startMs E div 1000)"
  let ?d = "\<lparr>wd_id = we_rowId E, wd_subscriptionId = wh_id sub, wd_eventType = ty, wd_payload = body, wd_responseStatus = None,
              wd_attempts = 0, wd_deliveredAt = None, wd_error = None\<rparr>"
  let ?h1 = "h\<lparr>deliveries := deliveries h @ [?d]\<rparr>"
  let ?rq = "\<lparr>wr_url = wh_targetUrl sub, wr_timestamp = we_startMs E div 1000, wr_signature = ?sig, wr_event = ty,
               wr_deliveryId = we_deliveryId E, wr_body = body, wr_sentMs = we_startMs E\<rparr>"
  obtain ok le ls sent' h2 where run: "deliverAttempts E ?rq [0..<5] (we_startMs E) None None [] ?h1 = (ok, le, ls, sent', h2)"
    by (metis prod_cases5)
  note s1 = attempts_sent [OF _ run [folded readyTime.simps(1)]] and s2 = attempts_row [OF _ run, of "deliveries h" ?d]
  have out: "sent = sent'" "res_success r = ok" "h' = (if ok then h2 else checkConsecutiveFailures (wh_id sub) h2)"
    using assms(1) run by (auto simp: deliverWebhook_def Let_def MAX_RETRY_ATTEMPTS_def split: bool.splits)
  from s2 assms(2) obtain d where "deliveries h2 = deliveries h @ [d]" "wd_subscriptionId d = wh_id sub" "wd_payload d = body"
    "wd_attempts d = length (tried E [0..<5])" "(wd_deliveredAt d \<noteq> None) = ok" by auto
  with s1 out show thesis by (intro that [of h2 d]) auto
qed



section \<open>Signatures and retries\<close>

lemma verify_generated:
  "verifyWebhookSignature hmac nowMs body (generateWebhookSignature hmac body secret ts) secret ts tol =
   Inr (\<bar>nowMs div 1000 - ts\<bar> \<le> tol)"
  by (simp add: verifyWebhookSignature_def timingSafeEqual_def Let_def)

lemma sent_request:
  assumes "deliverWebhook E sub ty body h = (r, sent, h')" "we_rowId E \<notin> wd_id ` set (deliveries h)" "k < length sent"
  shows "wr_body (sent ! k) = body" "wr_timestamp (sent ! k) = we_startMs E div 1000" "k < 5" "wr_sentMs (sent ! k) = sendTime E k"
    "wr_signature (sent ! k) = generateWebhookSignature (we_hmac E) body (wh_secretKey sub) (we_startMs E div 1000)"
proof -
  obtain m where m: "tried E [0..<5] = [0..<m]" "m \<le> 5" using tried_prefix [of 0 5 E] by auto
  from assms(1,2) have "wr_body (sent ! k) = body \<and> wr_timestamp (sent ! k) = we_startMs E div 1000 \<and> k < 5 \<and> wr_sentMs (sent ! k) = sendTime E k \<and>
    wr_signature (sent ! k) = generateWebhookSignature (we_hmac E) body (wh_secretKey sub) (we_startMs E div 1000)"
    by (rule deliverWebhook_parts) (use assms(3) m in simp)
  then show "wr_body (sent ! k) = body" "wr_timestamp (sent ! k) = we_startMs E div 1000" "k < 5" "wr_sentMs (sent ! k) = sendTime E k"
    "wr_signature (sent ! k) = generateWebhookSignature (we_hmac E) body (wh_secretKey sub) (we_startMs E div 1000)"
    by simp_all
qed

lemma late_attempts:
  assumes "\<And>k. 0 \<le> we_took E k" "2 \<le> k" "k < 5"
  shows "we_startMs E + 360000 \<le> sendTime E k"
proof -
  from assms(2,3) consider "k = Suc (Suc 0)" | "k = Suc (Suc (Suc 0))" | "k = Suc (Suc (Suc (Suc 0)))" by linarith
  then show ?thesis
    using assms(1) [of 0] assms(1) [of 1] assms(1) [of 2] assms(1) [of 3]
    by cases (simp_all add: sendTime_def pauseBefore_def RETRY_DELAYS_MS_def numeral_2_eq_2 numeral_3_eq_3)
qed

lemma retry_signature_expires_facts:
  assumes "deliverWebhook E sub ty body h = (r, sent, h')" "we_rowId E \<notin> wd_id ` set (deliveries h)" "\<And>j. 0 \<le> we_took E j"
    and "k < length sent"
  shows "verifyWebhookSignature (we_hmac E) nowMs (wr_body (sent ! k)) (wr_signature (sent ! k)) (wh_secretKey sub)
           (wr_timestamp (sent ! k)) 300 = Inr (\<bar>nowMs div 1000 - we_startMs E div 1000\<bar> \<le> 300)"
    and "2 \<le> k \<Longrightarrow> wr_sentMs (sent ! k) \<le> nowMs \<Longrightarrow>
         verifyWebhookSignature (we_hmac E) nowMs (wr_body (sent ! k)) (wr_signature (sent ! k)) (wh_secretKey sub)
           (wr_timestamp (sent ! k)) 300 = Inr False"
proof -
  note req = sent_request [OF assms(1,2,4)]
  show v: "verifyWebhookSignature (we_hmac E) nowMs (wr_body (sent ! k)) (wr_signature (sent ! k)) (wh_secretKey sub)
           (wr_timestamp (sent ! k)) 300 = Inr (\<bar>nowMs div 1000 - we_startMs E div 1000\<bar> \<le> 300)"
    by (simp add: req verify_generated)
  assume "2 \<le> k" "wr_sentMs (sent ! k) \<le> nowMs"
  with late_attempts [OF assms(3)] req(3,4) have "we_startMs E + 360000 \<le> nowMs" by fastforce
  then have "(we_startMs E + 360 * 1000) div 1000 \<le> nowMs div 1000" by (intro zdiv_mono1) simp_all
  then have "\<not> \<bar>nowMs div 1000 - we_startMs E div 1000\<bar> \<le> 300"
    by simp
  with v show "verifyWebhookSignature (we_hmac E) nowMs (wr_body (sent ! k)) (wr_signature (sent ! k)) (wh_secretKey sub)
           (wr_timestamp (sent ! k)) 300 = Inr False" by simp
qed

text \<open>The signature is computed once, with the time of the first attempt. A receiver that checks it
  with the service's own \<open>verifyWebhookSignature\<close> and its default tolerance accepts it within 300 seconds
  of the first attempt, and therefore rejects every request from the third attempt on, which is
  sent at least 360 seconds later.
\<close>
theorem retry_signature_expires:
  assumes "deliverWebhook E sub ty body h = (r, sent, h')" "we_rowId E \<notin> wd_id ` set (deliveries h)" "\<And>j. 0 \<le> we_took E j"
    and "k < length sent"
  shows "verifyWebhookSignature (we_hmac E) nowMs (wr_body (sent ! k)) (wr_signature (sent ! k)) (wh_secretKey sub)
           (wr_timestamp (sent ! k)) 300 = Inr (\<bar>nowMs div 1000 - we_startMs E div 1000\<bar> \<le> 300) \<and>
    (2 \<le> k \<longrightarrow> wr_sentMs (sent ! k) \<le> nowMs \<longrightarrow>
       verifyWebhookSignature (we_hmac E) nowMs (wr_body (sent ! k)) (wr_signature (sent ! k)) (wh_secretKey sub)
           (wr_timestamp (sent ! k)) 300 = Inr False)"
  using retry_signature_expires_facts [OF assms] by blast

text \<open>
  A signature of another length than a digest is not reported as invalid: the comparison throws.
\<close>
theorem short_signature_throws:
  assumes "length signature \<noteq> length (hmac secret (toString ts @ ''.'' @ body))" "\<bar>nowMs div 1000 - ts\<bar> \<le> tol"
  shows "verifyWebhookSignature hmac nowMs body signature secret ts tol = Inl RangeError"
  using assms by (simp add: verifyWebhookSignature_def generateWebhookSignature_def timingSafeEqual_def Let_def)

section \<open>Disabling\<close>

lemma takeWhile_take_length: "length (takeWhile P (take n xs)) = min n (length (takeWhile P xs))"
  by (induction xs arbitrary: n) (auto simp: take_Cons split: nat.split)

text \<open>After a failed delivery the subscription stays active unless the 49 newest earlier deliveries
  have no delivery time. A delivery that is still being retried has none either and counts as a
  failure.
\<close>
theorem webhook_disabled_iff:
  assumes "deliverWebhook E sub ty body h = (r, sent, h')" "we_rowId E \<notin> wd_id ` set (deliveries h)" "\<not> res_success r"
  shows "(\<exists>s \<in> set (subscriptions h'). wh_id s = wh_id sub \<and> wh_isActive s) =
         ((\<exists>s \<in> set (subscriptions h). wh_id s = wh_id sub \<and> wh_isActive s) \<and>
          length (takeWhile (\<lambda>d. wd_deliveredAt d = None) (filter (\<lambda>d. wd_subscriptionId d = wh_id sub) (rev (deliveries h)))) < 49)"
  using assms(1,2)
proof (rule deliverWebhook_parts)
  fix h2 d
  let ?P = "\<lambda>d. wd_deliveredAt d = None"
  assume parts: "subscriptions h2 = subscriptions h" "deliveries h2 = deliveries h @ [d]" "wd_subscriptionId d = wh_id sub"
    "(wd_deliveredAt d \<noteq> None) = res_success r" "h' = (if res_success r then h2 else checkConsecutiveFailures (wh_id sub) h2)"
  let ?old = "filter (\<lambda>d. wd_subscriptionId d = wh_id sub) (rev (deliveries h))"
  have "(50 \<le> length (takeWhile ?P (take 50 (d # ?old)))) = (49 \<le> length (takeWhile ?P ?old))"
    using parts(4) assms(3) unfolding takeWhile_take_length by simp
  then show ?thesis
    using parts assms(3) by (auto simp: checkConsecutiveFailures_def subs_updateMany_def Let_def)
qed

section \<open>No caller is asked who they are\<close>

lemma webhook_secret_takeover_facts:
  assumes "r \<in> set (subscriptions h)" "wh_id r \<noteq> []" "wh_userAddress r \<noteq> []"
  shows "\<exists>l. webhookList (QText (wh_userAddress r)) h = Success 200 l \<and> safeSub r \<in> set l"
    and "\<exists>h'. webhookSecret P newSecret (wh_id r) (JObj [(''userAddress'', JStr (wh_userAddress r))]) h = (Success 200 newSecret, h') \<and>
              (\<forall>s \<in> set (subscriptions h'). wh_id s = wh_id r \<longrightarrow> wh_secretKey s = newSecret)"
proof -
  show "\<exists>l. webhookList (QText (wh_userAddress r)) h = Success 200 l \<and> safeSub r \<in> set l"
    using assms by (auto simp: webhookList_def listWebhookSubscriptions_def)
  have "find (\<lambda>s. wh_id s = wh_id r \<and> wh_userAddress s = wh_userAddress r) (subscriptions h) \<noteq> None"
    using assms(1) by (auto simp: find_None_iff)
  then show "\<exists>h'. webhookSecret P newSecret (wh_id r) (JObj [(''userAddress'', JStr (wh_userAddress r))]) h = (Success 200 newSecret, h') \<and>
              (\<forall>s \<in> set (subscriptions h'). wh_id s = wh_id r \<longrightarrow> wh_secretKey s = newSecret)"
    using assms(2,3) by (auto simp: webhookSecret_def bodyField_def ownerFilter_def regenerateWebhookSecret_def subs_updateMany_def)
qed

text \<open>The webhook routes carry no authentication. Whoever knows a wallet address gets the
  identifiers of its subscriptions and, with one more request, a new secret that replaces the
  owner's.
\<close>
theorem webhook_secret_takeover:
  assumes "r \<in> set (subscriptions h)" "wh_id r \<noteq> []" "wh_userAddress r \<noteq> []"
  shows "(\<exists>l. webhookList (QText (wh_userAddress r)) h = Success 200 l \<and> safeSub r \<in> set l) \<and>
    (\<exists>h'. webhookSecret P newSecret (wh_id r) (JObj [(''userAddress'', JStr (wh_userAddress r))]) h = (Success 200 newSecret, h') \<and>
          (\<forall>s \<in> set (subscriptions h'). wh_id s = wh_id r \<longrightarrow> wh_secretKey s = newSecret))"
  using webhook_secret_takeover_facts [OF assms] by blast

text \<open>
  Not even the address is needed: the value of the body goes into the where clause as it is, and
  Prisma reads an object there as a filter.
\<close>

lemma webhook_filter_injection:
  assumes "r \<in> set (subscriptions h)" "wh_id r \<noteq> []" "wh_userAddress r \<noteq> []"
    and filter_not: "pp_filter P (JObj [(''not'', JStr [])]) = Some (\<lambda>a. a \<noteq> [])"
  shows "\<exists>h'. webhookSecret P newSecret (wh_id r) (JObj [(''userAddress'', JObj [(''not'', JStr [])])]) h = (Success 200 newSecret, h')"
proof -
  have "find (\<lambda>s. wh_id s = wh_id r \<and> wh_userAddress s \<noteq> []) (subscriptions h) \<noteq> None"
    using assms(1,3) by (auto simp: find_None_iff)
  then show ?thesis
    using assms(2) by (auto simp: webhookSecret_def bodyField_def ownerFilter_def regenerateWebhookSecret_def filter_not)
qed

text \<open>The update takes every column the body names.\<close>

lemma webhook_update_mass_assignment:
  assumes "r \<in> set (subscriptions h)" "wh_id r \<noteq> []"
    and data: "pp_data P (JObj [(''userAddress'', JStr a)]) = Some (\<lambda>r. r\<lparr>wh_userAddress := a\<rparr>)"
    and "webhookUpdate P (wh_id r) (QText (wh_userAddress r)) (JObj [(''userAddress'', JStr a)]) h = (resp, h')"
  shows "r\<lparr>wh_userAddress := a\<rparr> \<in> set (subscriptions h')"
  using assms by (auto simp: webhookUpdate_def updateWebhookSubscription_def bodyField_def subs_updateMany_def data image_iff
      split: option.splits if_splits sum.splits)

section \<open>Examples\<close>

definition downEnv :: webhook_env where
  "downEnv = \<lparr>we_hmac = (\<lambda>k m. k @ m), we_startMs = 1000000, we_fetch = (\<lambda>_. Inr 500), we_took = (\<lambda>_. 10),
              we_deliveryId = ''d'', we_rowId = ''row''\<rparr>"

definition flakyEnv :: webhook_env where
  "flakyEnv = downEnv\<lparr>we_fetch := (\<lambda>k. if k = 0 then Inl ''timeout'' else Inr 204)\<rparr>"

definition exampleSub :: webhook_sub where
  "exampleSub = \<lparr>wh_id = ''s1'', wh_userAddress = ''GA'', wh_targetUrl = ''https://x'', wh_secretKey = ''k'', wh_eventTypes = [],
                 wh_isActive = True\<rparr>"

definition exampleHooks :: hooks where
  "exampleHooks = \<lparr>subscriptions = [exampleSub], deliveries = []\<rparr>"

lemma exampleHooks_sel [simp]: "deliveries exampleHooks = []" "subscriptions exampleHooks = [exampleSub]"
  by (simp_all add: exampleHooks_def)

lemma downEnv_delivered: "\<not> delivered downEnv k" "delivered flakyEnv k = (k \<noteq> 0)"
  by (simp_all add: delivered_def downEnv_def flakyEnv_def ok2xx_def)


theorem retry_signature_expires_witness:
  "\<exists>r sent h'. deliverWebhook downEnv exampleSub ''PING'' ''{}'' exampleHooks = (r, sent, h') \<and> length sent = 5 \<and>
     verifyWebhookSignature (we_hmac downEnv) 1000000 (wr_body (sent ! 0)) (wr_signature (sent ! 0)) ''k'' (wr_timestamp (sent ! 0)) 300 = Inr True \<and>
     verifyWebhookSignature (we_hmac downEnv) (wr_sentMs (sent ! 2)) (wr_body (sent ! 2)) (wr_signature (sent ! 2)) ''k'' (wr_timestamp (sent ! 2)) 300 = Inr False"
proof -
  obtain r sent h' where run: "deliverWebhook downEnv exampleSub ''PING'' ''{}'' exampleHooks = (r, sent, h')" by (metis prod_cases3)
  have len: "length sent = 5"
    using run by (auto simp: deliverWebhook_def MAX_RETRY_ATTEMPTS_def upt_rec Let_def downEnv_def ok2xx_def)
  have took: "0 \<le> we_took downEnv j" for j by (simp add: downEnv_def)
  have key: "wh_secretKey exampleSub = ''k''" by (simp add: exampleSub_def)
  note f = retry_signature_expires [OF run _ took, unfolded key]
  from f [of 0 1000000] f [of 2 "wr_sentMs (sent ! 2)"] run len show ?thesis by (auto simp: downEnv_def)
qed

theorem short_signature_throws_witness:
  "verifyWebhookSignature (\<lambda>k m. k @ m) 5000 ''{}'' ''x'' ''k'' 4 300 = Inl RangeError"
  by (rule short_signature_throws) simp_all

text \<open>Forty-nine deliveries that are still on their way are enough.\<close>

definition busyHooks :: "nat \<Rightarrow> hooks" where
  "busyHooks n = exampleHooks\<lparr>deliveries := replicate n \<lparr>wd_id = ''other'', wd_subscriptionId = ''s1'', wd_eventType = ''PING'',
      wd_payload = ''{}'', wd_responseStatus = None, wd_attempts = 0, wd_deliveredAt = None, wd_error = None\<rparr>\<rparr>"

theorem webhook_disabled_iff_witness:
  "\<exists>r sent h'. deliverWebhook downEnv exampleSub ''PING'' ''{}'' (busyHooks 49) = (r, sent, h') \<and> \<not> res_success r \<and>
     \<not> (\<exists>s \<in> set (subscriptions h'). wh_id s = ''s1'' \<and> wh_isActive s)"
proof -
  obtain r sent h' where run: "deliverWebhook downEnv exampleSub ''PING'' ''{}'' (busyHooks 49) = (r, sent, h')" by (metis prod_cases3)
  have new: "we_rowId downEnv \<notin> wd_id ` set (deliveries (busyHooks 49))" by (auto simp: downEnv_def busyHooks_def)
  have "\<not> res_success r" using run new by (rule deliverWebhook_parts) (simp add: downEnv_delivered)
  from webhook_disabled_iff [OF run new this] run this show ?thesis
    by (auto simp: busyHooks_def exampleSub_def filter_replicate takeWhile_replicate)
qed

theorem webhook_secret_takeover_witness:
  "(\<exists>l. webhookList (QText ''GA'') exampleHooks = Success 200 l \<and> safeSub exampleSub \<in> set l) \<and>
   (\<exists>h'. webhookSecret \<lparr>pp_filter = (\<lambda>_. None), pp_data = (\<lambda>_. None)\<rparr> ''new'' ''s1'' (JObj [(''userAddress'', JStr ''GA'')]) exampleHooks =
      (Success 200 ''new'', h') \<and> (\<forall>s \<in> set (subscriptions h'). wh_id s = ''s1'' \<longrightarrow> wh_secretKey s = ''new''))"
proof -
  have r: "exampleSub \<in> set (subscriptions exampleHooks)" "wh_id exampleSub = ''s1''" "wh_userAddress exampleSub = ''GA''"
    by (simp_all add: exampleSub_def exampleHooks_def)
  show ?thesis
    using webhook_secret_takeover [OF r(1), unfolded r(2,3), of "\<lparr>pp_filter = (\<lambda>_. None), pp_data = (\<lambda>_. None)\<rparr>" "''new''"]
    by simp
qed

end
