(* ===== verification/Auth.thy ===== *)
theory Auth
  imports Webhooks
begin

text \<open>
  Authentication, \<open>backend/src/middleware/auth.ts\<close>: the store of pending challenges, the tokens signed
  with HMAC-SHA256, the challenge and verification handlers and the two middleware functions. The
  cryptography, base64url, \<open>JSON.parse\<close> and the Stellar SDK are parameters; what a theorem relies on of
  them is a hypothesis of it. \<open>sig\<close> is the base64url text of the digest under the server's secret.
\<close>

section \<open>Parameters\<close>

record auth_op =
  op_manageData :: bool
  op_value :: "string option"

record auth_tx =
  tx_source :: "string option"
  tx_operations :: "auth_op list"
  tx_hash :: string
  tx_signatures :: "string list"

record auth_params =
  au_sig :: "string \<Rightarrow> string"
  au_b64url :: "string \<Rightarrow> string"
  au_unb64url :: "string \<Rightarrow> string"
  au_parse :: "string \<Rightarrow> json option"
  au_less :: "json \<Rightarrow> int \<Rightarrow> bool"
  au_issuer :: string
  au_audience :: string
  au_validKey :: "string \<Rightarrow> bool"
  au_fromXDR :: "json \<Rightarrow> auth_tx option"
  au_verify :: "string \<Rightarrow> string \<Rightarrow> string \<Rightarrow> bool"

definition JWT_EXPIRY_SECONDS :: int where
  "JWT_EXPIRY_SECONDS = 3600"

definition jwtSecret :: "bool \<Rightarrow> string option \<Rightarrow> string \<Rightarrow> string result" where
  "jwtSecret isProduction rawJwtSecret randomHex =
     (let missing = (case rawJwtSecret of None \<Rightarrow> True | Some s \<Rightarrow> s = []) in
      if isProduction
      then (if missing then Inl (Thrown ''JWT_SECRET environment variable is required in production'')
            else if length (the rawJwtSecret) < 32 then Inl (Thrown ''JWT_SECRET must be at least 32 bytes long in production'')
            else Inr (the rawJwtSecret))
      else if missing then Inr randomHex else Inr (the rawJwtSecret))"

section \<open>Challenges\<close>

type_synonym challenge_store = "string \<rightharpoonup> (string \<times> int)"

definition sweepExpiredChallenges :: "int \<Rightarrow> challenge_store \<Rightarrow> challenge_store" where
  "sweepExpiredChallenges now m = (\<lambda>k. case m k of Some (nonce, expiry) \<Rightarrow> if expiry < now then None else m k | None \<Rightarrow> None)"

definition DEFAULT_CHALLENGE_SWEEP_INTERVAL_MS :: int where
  "DEFAULT_CHALLENGE_SWEEP_INTERVAL_MS = 5 * 60 * 1000"

text \<open>\<open>num\<close> is \<open>Number(raw)\<close>, \<open>None\<close> when it is not finite.\<close>

definition resolveChallengeSweepIntervalMs :: "(string \<Rightarrow> int option) \<Rightarrow> string option \<Rightarrow> int" where
  "resolveChallengeSweepIntervalMs num raw =
     (case raw of
        None \<Rightarrow> DEFAULT_CHALLENGE_SWEEP_INTERVAL_MS
      | Some s \<Rightarrow> if s = [] then DEFAULT_CHALLENGE_SWEEP_INTERVAL_MS
          else (case num s of Some n \<Rightarrow> if 0 < n then n else DEFAULT_CHALLENGE_SWEEP_INTERVAL_MS
                | None \<Rightarrow> DEFAULT_CHALLENGE_SWEEP_INTERVAL_MS))"

section \<open>Tokens\<close>

definition jwtHeader :: json where
  "jwtHeader = JObj [(''alg'', JStr ''HS256''), (''typ'', JStr ''JWT'')]"

definition signJwt :: "auth_params \<Rightarrow> json \<Rightarrow> string" where
  "signJwt P payload =
     (let header = au_b64url P (JSON_stringify jwtHeader);
          body = au_b64url P (JSON_stringify payload)
      in header @ ''.'' @ body @ ''.'' @ au_sig P (header @ ''.'' @ body))"

definition expired :: "auth_params \<Rightarrow> json \<Rightarrow> int \<Rightarrow> bool" where
  "expired P e now = (\<not> jsonTruthy e \<or> (case e of JNum n \<Rightarrow> n < now | _ \<Rightarrow> au_less P e now))"

text \<open>The result is \<open>payload.sub\<close>, which is whatever the payload has there.\<close>

definition verifyJwt :: "auth_params \<Rightarrow> int \<Rightarrow> string \<Rightarrow> json option option" where
  "verifyJwt P nowMs token =
     (case js_split CHR ''.'' token of
        header # body # sg # rest \<Rightarrow>
          if header = [] \<or> body = [] \<or> sg = [] then None
          else if sg \<noteq> au_sig P (header @ ''.'' @ body) then None
          else (case au_parse P (au_unb64url P body) of
             Some (JObj fs) \<Rightarrow>
               if (case map_of fs ''exp'' of None \<Rightarrow> True | Some e \<Rightarrow> expired P e (nowMs div 1000)) then None
               else if map_of fs ''iss'' \<noteq> Some (JStr (au_issuer P)) \<or> map_of fs ''aud'' \<noteq> Some (JStr (au_audience P)) then None
               else Some (map_of fs ''sub'')
           | _ \<Rightarrow> None)
      | _ \<Rightarrow> None)"

section \<open>Handlers\<close>

text \<open>The body is the JSON that was sent; a request without one is answered by the error handler, since
  taking its fields throws before a handler has done anything.\<close>

definition issueChallenge ::
  "auth_params \<Rightarrow> int \<Rightarrow> string \<Rightarrow> json \<Rightarrow> challenge_store \<Rightarrow> (string \<times> int) response \<times> challenge_store" where
  "issueChallenge P nowMs nonce body m =
     (case bodyField ''publicKey'' body of
        Some (JStr publicKey) \<Rightarrow>
          if publicKey = [] \<or> \<not> au_validKey P publicKey then (Failure 400 ''Invalid publicKey'', m)
          else (Success 200 (nonce, nowMs + 60000), m(publicKey \<mapsto> (nonce, nowMs + 60000)))
      | _ \<Rightarrow> (Failure 400 ''Invalid publicKey'', m))"

definition hexOf :: "string \<Rightarrow> string" where
  "hexOf s = concat (map (\<lambda>c. [hex_digit (code c div 16), hex_digit (code c mod 16)]) s)"

definition claims :: "auth_params \<Rightarrow> string \<Rightarrow> int \<Rightarrow> json" where
  "claims P publicKey now =
     JObj [(''sub'', JStr publicKey), (''iat'', JNum now), (''exp'', JNum (now + JWT_EXPIRY_SECONDS)),
           (''iss'', JStr (au_issuer P)), (''aud'', JStr (au_audience P))]"

definition nonceOp :: "string \<Rightarrow> auth_op list \<Rightarrow> bool" where
  "nonceOp nonce ops =
     (case ops of [] \<Rightarrow> False
      | p # _ \<Rightarrow> op_manageData p \<and> hexOf (case op_value p of None \<Rightarrow> [] | Some v \<Rightarrow> v) = nonce)"

definition verifyChallenge ::
  "auth_params \<Rightarrow> int \<Rightarrow> json \<Rightarrow> challenge_store \<Rightarrow> (string \<times> int) response \<times> challenge_store" where
  "verifyChallenge P nowMs body m =
     (case (bodyField ''publicKey'' body, bodyField ''signedTransaction'' body) of
        (Some pk, Some stx) \<Rightarrow>
          if \<not> jsonTruthy pk \<or> \<not> jsonTruthy stx then (Failure 400 ''publicKey and signedTransaction required'', m)
          else (case pk of
            JStr publicKey \<Rightarrow>
              (case m publicKey of
                 None \<Rightarrow> (Failure 401 ''Challenge expired or not found'', m)
               | Some (nonce, expiry) \<Rightarrow>
                   if expiry < nowMs then (Failure 401 ''Challenge expired or not found'', m)
                   else (case au_fromXDR P stx of
                     None \<Rightarrow> (Failure 401 ''Invalid signed transaction'', m)
                   | Some tx \<Rightarrow>
                       if tx_source tx \<noteq> Some publicKey then (Failure 401 ''Transaction source does not match publicKey'', m)
                       else if \<not> nonceOp nonce (tx_operations tx) then (Failure 401 ''Invalid challenge nonce in transaction'', m)
                       else if \<not> au_validKey P publicKey then (Failure 401 ''Invalid signed transaction'', m)
                       else if \<not> list_ex (au_verify P publicKey (tx_hash tx)) (tx_signatures tx) then (Failure 401 ''Invalid signature'', m)
                       else (Success 200 (signJwt P (claims P publicKey (nowMs div 1000)), JWT_EXPIRY_SECONDS), m(publicKey := None))))
          | _ \<Rightarrow> (Failure 401 ''Challenge expired or not found'', m))
      | _ \<Rightarrow> (Failure 400 ''publicKey and signedTransaction required'', m))"

text \<open>The middleware passes the request on with the subject of the token, or answers it.\<close>

definition requireAuth :: "auth_params \<Rightarrow> int \<Rightarrow> string option \<Rightarrow> json option response" where
  "requireAuth P nowMs authorization =
     (case authorization of
        None \<Rightarrow> Failure 401 ''Missing Bearer token''
      | Some h \<Rightarrow>
          if \<not> startsWith h ''Bearer '' then Failure 401 ''Missing Bearer token''
          else (case verifyJwt P nowMs (drop 7 h) of
             None \<Rightarrow> Failure 401 ''Invalid or expired token''
           | Some sub \<Rightarrow> Success 200 sub))"

definition requireAdmin :: "auth_params \<Rightarrow> int \<Rightarrow> string option \<Rightarrow> string option \<Rightarrow> json option response" where
  "requireAdmin P nowMs adminKey authorization =
     (case requireAuth P nowMs authorization of
        Failure c e \<Rightarrow> Failure c e
      | Success c sub \<Rightarrow>
          (case userKey adminKey of
             None \<Rightarrow> Failure 403 ''Admin access required''
           | Some k \<Rightarrow> if sub \<noteq> Some (JStr k) then Failure 403 ''Admin access required'' else Success c sub))"

section \<open>Runs of the authentication endpoints\<close>

text \<open>
  \<open>issued\<close> and \<open>granted\<close> record the challenges handed out and the tokens granted, with the wallet, the nonce
  and the time; a granted entry also names the transaction. Nonces are 32 random bytes: an issued nonce
  is new.
\<close>

record auth_world =
  store :: challenge_store
  issued :: "(string \<times> string \<times> int) list"
  granted :: "(string \<times> string \<times> int \<times> auth_tx) list"
  clock :: int

inductive auth_step :: "auth_params \<Rightarrow> auth_world \<Rightarrow> auth_world \<Rightarrow> bool" for P where
  tick: "clock w \<le> t \<Longrightarrow> auth_step P w (w\<lparr>clock := t\<rparr>)"
| sweep: "auth_step P w (w\<lparr>store := sweepExpiredChallenges (clock w) (store w)\<rparr>)"
| issue: "issueChallenge P (clock w) nonce body (store w) = (Success c x, m) \<Longrightarrow> bodyField ''publicKey'' body = Some (JStr pk) \<Longrightarrow>
    nonce \<notin> (\<lambda>(k, n, t). n) ` set (issued w) \<Longrightarrow>
    auth_step P w (w\<lparr>store := m, issued := issued w @ [(pk, nonce, clock w)]\<rparr>)"
| issue_refused: "issueChallenge P (clock w) nonce body (store w) = (Failure c x, m) \<Longrightarrow> auth_step P w (w\<lparr>store := m\<rparr>)"
| grant: "verifyChallenge P (clock w) body (store w) = (Success c x, m) \<Longrightarrow> bodyField ''publicKey'' body = Some (JStr pk) \<Longrightarrow>
    store w pk = Some (nonce, e) \<Longrightarrow> bodyField ''signedTransaction'' body = Some stx \<Longrightarrow> au_fromXDR P stx = Some tx \<Longrightarrow>
    auth_step P w (w\<lparr>store := m, granted := granted w @ [(pk, nonce, clock w, tx)]\<rparr>)"
| grant_refused: "verifyChallenge P (clock w) body (store w) = (Failure c x, m) \<Longrightarrow> auth_step P w (w\<lparr>store := m\<rparr>)"

inductive auth_reach :: "auth_params \<Rightarrow> auth_world \<Rightarrow> bool" for P where
  start: "auth_reach P \<lparr>store = Map.empty, issued = [], granted = [], clock = t\<rparr>"
| step: "auth_reach P w \<Longrightarrow> auth_step P w w' \<Longrightarrow> auth_reach P w'"

lemma issueChallenge_Success:
  assumes "issueChallenge P now nonce body m = (Success c x, m')" "bodyField ''publicKey'' body = Some (JStr pk)"
  shows "m' = m(pk \<mapsto> (nonce, now + 60000))" "au_validKey P pk" "pk \<noteq> []" "x = (nonce, now + 60000)" "c = 200"
  using assms by (auto simp: issueChallenge_def split: if_splits)

lemma issueChallenge_Failure: "issueChallenge P now nonce body m = (Failure c x, m') \<Longrightarrow> m' = m"
  by (auto simp: issueChallenge_def split: if_splits option.splits json.splits)

lemma verifyChallenge_Failure: "verifyChallenge P now body m = (Failure c x, m') \<Longrightarrow> m' = m"
  by (auto simp: verifyChallenge_def split: if_splits option.splits json.splits prod.splits)

lemma verifyChallenge_Success:
  assumes "verifyChallenge P now body m = (Success c x, m')"
  obtains pk stx nonce e tx where "bodyField ''publicKey'' body = Some (JStr pk)" "bodyField ''signedTransaction'' body = Some stx"
    "m pk = Some (nonce, e)" "now \<le> e" "au_fromXDR P stx = Some tx" "tx_source tx = Some pk" "nonceOp nonce (tx_operations tx)"
    "list_ex (au_verify P pk (tx_hash tx)) (tx_signatures tx)" "au_validKey P pk"
    "x = (signJwt P (claims P pk (now div 1000)), JWT_EXPIRY_SECONDS)" "m' = m(pk := None)"
  using assms by (auto simp: verifyChallenge_def not_less split: if_splits option.splits json.splits prod.splits)

lemma sweep_sub: "sweepExpiredChallenges now m k = Some v \<Longrightarrow> m k = Some v"
  by (auto simp: sweepExpiredChallenges_def split: option.splits if_splits prod.splits)

definition issuedNonces :: "auth_world \<Rightarrow> string list" where
  "issuedNonces w = map (\<lambda>(k, n, t). n) (issued w)"

definition usedNonces :: "auth_world \<Rightarrow> string list" where
  "usedNonces w = map (\<lambda>(k, n, t, x). n) (granted w)"

definition justified :: "auth_params \<Rightarrow> (string \<times> string \<times> int) list \<Rightarrow> string \<times> string \<times> int \<times> auth_tx \<Rightarrow> bool" where
  "justified P cs g =
     (case g of (k, n, t, x) \<Rightarrow> tx_source x = Some k \<and> nonceOp n (tx_operations x) \<and> list_ex (au_verify P k (tx_hash x)) (tx_signatures x) \<and>
        (\<exists>t0. (k, n, t0) \<in> set cs \<and> t0 \<le> t \<and> t \<le> t0 + 60000))"

definition auth_inv :: "auth_params \<Rightarrow> auth_world \<Rightarrow> bool" where
  "auth_inv P w =
     (distinct (issuedNonces w) \<and> distinct (usedNonces w) \<and>
      (\<forall>k n t. (k, n, t) \<in> set (issued w) \<longrightarrow> t \<le> clock w) \<and>
      (\<forall>k n e. store w k = Some (n, e) \<longrightarrow> (k, n, e - 60000) \<in> set (issued w) \<and> n \<notin> set (usedNonces w)) \<and>
      (\<forall>g \<in> set (granted w). justified P (issued w) g))"

lemma justified_append: "justified P cs g \<Longrightarrow> justified P (cs @ ds) g"
  by (auto simp: justified_def)

lemma used_were_issued: "auth_inv P w \<Longrightarrow> set (usedNonces w) \<subseteq> set (issuedNonces w)"
proof
  fix n
  assume inv: "auth_inv P w" and "n \<in> set (usedNonces w)"
  then obtain k t x where "(k, n, t, x) \<in> set (granted w)" by (auto simp: usedNonces_def)
  with inv have "justified P (issued w) (k, n, t, x)" unfolding auth_inv_def by blast
  then obtain t0 where "(k, n, t0) \<in> set (issued w)" by (auto simp: justified_def)
  then show "n \<in> set (issuedNonces w)" by (force simp: issuedNonces_def)
qed

lemma issued_unique:
  assumes "auth_inv P w" "(k, n, t) \<in> set (issued w)" "(k', n, t') \<in> set (issued w)"
  shows "k' = k"
proof -
  from assms(1) have "inj_on (\<lambda>(k, n, t). n) (set (issued w))" by (simp add: auth_inv_def issuedNonces_def distinct_map)
  from inj_onD [OF this _ assms(2,3)] show ?thesis by simp
qed

lemma nonces_frame [simp]:
  "issuedNonces (w\<lparr>store := m\<rparr>) = issuedNonces w" "usedNonces (w\<lparr>store := m\<rparr>) = usedNonces w"
  "issuedNonces (w\<lparr>clock := t\<rparr>) = issuedNonces w" "usedNonces (w\<lparr>clock := t\<rparr>) = usedNonces w"
  by (simp_all add: issuedNonces_def usedNonces_def)

lemma issue_inv:
  assumes "auth_inv P w" "nonce \<notin> set (issuedNonces w)"
  shows "auth_inv P (w\<lparr>store := (store w)(pk \<mapsto> (nonce, clock w + 60000)), issued := issued w @ [(pk, nonce, clock w)]\<rparr>)"
  using assms used_were_issued [OF assms(1)]
  by (auto simp: auth_inv_def issuedNonces_def usedNonces_def justified_append)

lemma grant_inv:
  assumes inv: "auth_inv P w" and st: "store w pk = Some (nonce, e)" "clock w \<le> e"
    and tx: "tx_source tx = Some pk" "nonceOp nonce (tx_operations tx)" "list_ex (au_verify P pk (tx_hash tx)) (tx_signatures tx)"
  shows "auth_inv P (w\<lparr>store := (store w)(pk := None), granted := granted w @ [(pk, nonce, clock w, tx)]\<rparr>)"
proof -
  from inv st(1) have entry: "(pk, nonce, e - 60000) \<in> set (issued w)" "nonce \<notin> set (usedNonces w)"
    by (simp_all add: auth_inv_def)
  from inv entry(1) have "e - 60000 \<le> clock w" unfolding auth_inv_def by blast
  have other: "n \<noteq> nonce" if "store w k = Some (n, e1)" "k \<noteq> pk" for k n e1
  proof
    assume "n = nonce"
    with that inv have "(k, nonce, e1 - 60000) \<in> set (issued w)" by (auto simp: auth_inv_def)
    from issued_unique [OF inv entry(1) this] that(2) show False by simp
  qed
  have "justified P (issued w) (pk, nonce, clock w, tx)"
    using tx entry st(2) \<open>e - 60000 \<le> clock w\<close> by (auto simp: justified_def intro!: exI [of _ "e - 60000"])
  with inv entry(2) other show ?thesis by (auto simp: auth_inv_def usedNonces_def issuedNonces_def)
qed

lemma auth_step_inv:
  assumes "auth_step P w w'" "auth_inv P w"
  shows "auth_inv P w'"
  using assms(1)
proof cases
  case (tick t)
  with assms(2) show ?thesis by (fastforce simp: auth_inv_def)
next
  case sweep
  from assms(2) sweep_sub [of "clock w" "store w"] show ?thesis
    unfolding auth_inv_def sweep by simp blast
next
  case (issue nonce body c x m pk)
  from issue(4) have "nonce \<notin> set (issuedNonces w)" by (simp add: issuedNonces_def)
  from issue_inv [OF assms(2) this, of pk] show ?thesis
    by (simp add: issue(1) issueChallenge_Success(1) [OF issue(2,3)])
next
  case (issue_refused nonce body c x m)
  with assms(2) issueChallenge_Failure [OF issue_refused(2)] show ?thesis by simp
next
  case (grant body c x m pk nonce e stx tx)
  from grant(2) obtain pk' stx' nonce' e' tx' where v: "bodyField ''publicKey'' body = Some (JStr pk')"
    "bodyField ''signedTransaction'' body = Some stx'" "store w pk' = Some (nonce', e')" "clock w \<le> e'" "au_fromXDR P stx' = Some tx'"
    "tx_source tx' = Some pk'" "nonceOp nonce' (tx_operations tx')" "list_ex (au_verify P pk' (tx_hash tx')) (tx_signatures tx')"
    "m = (store w)(pk' := None)"
    by (rule verifyChallenge_Success)
  with grant have same: "pk' = pk" "nonce' = nonce" "tx' = tx" by simp_all
  show ?thesis
    using grant_inv [OF assms(2) v(3,4,6-8)] by (simp add: grant(1) v(9) same)
next
  case (grant_refused body c x m)
  with assms(2) verifyChallenge_Failure [OF grant_refused(2)] show ?thesis by simp
qed

lemma auth_reach_inv: "auth_reach P w \<Longrightarrow> auth_inv P w"
proof (induction rule: auth_reach.induct)
  case (start t)
  show ?case by (simp add: auth_inv_def issuedNonces_def usedNonces_def)
qed (rule auth_step_inv)

lemma tokens_need_fresh_signature_facts:
  assumes "auth_reach P w"
  shows "distinct (map (\<lambda>(k, n, t, x). n) (granted w))"
    and "(k, n, t, x) \<in> set (granted w) \<Longrightarrow>
         tx_source x = Some k \<and> nonceOp n (tx_operations x) \<and> (\<exists>sg \<in> set (tx_signatures x). au_verify P k (tx_hash x) sg) \<and>
         (\<exists>t0. (k, n, t0) \<in> set (issued w) \<and> t0 \<le> t \<and> t \<le> t0 + 60000)"
  using auth_reach_inv [OF assms] by (auto simp: auth_inv_def usedNonces_def justified_def list_ex_iff)

text \<open>C18. In every run, each token was granted against a challenge issued to that wallet at most 60
  seconds before, for a transaction of that wallet that carries the nonce and a signature the
  wallet's key verifies; and no challenge is used twice.
\<close>
theorem tokens_need_fresh_signature:
  assumes "auth_reach P w"
  shows "distinct (map (\<lambda>(k, n, t, x). n) (granted w)) \<and>
         (\<forall>k n t x. (k, n, t, x) \<in> set (granted w) \<longrightarrow>
            tx_source x = Some k \<and> nonceOp n (tx_operations x) \<and> (\<exists>sg \<in> set (tx_signatures x). au_verify P k (tx_hash x) sg) \<and>
            (\<exists>t0. (k, n, t0) \<in> set (issued w) \<and> t0 \<le> t \<and> t \<le> t0 + 60000))"
  using tokens_need_fresh_signature_facts [OF assms] by blast

text \<open>
  Anyone can ask for a challenge for any wallet, and it replaces the one that is pending: the
  transaction its owner has signed is then refused.
\<close>
theorem challenge_overwritten:
  assumes "m pk = Some (n, e)" "n' \<noteq> n" "pk \<noteq> []" "au_validKey P pk" "nonceOp n (tx_operations tx)" "au_fromXDR P stx = Some tx"
  shows "\<exists>m' f. fst (issueChallenge P now n' (JObj [(''publicKey'', JStr pk)]) m) = Success 200 (n', now + 60000) \<and>
           snd (issueChallenge P now n' (JObj [(''publicKey'', JStr pk)]) m) = m' \<and>
           verifyChallenge P now (JObj [(''publicKey'', JStr pk), (''signedTransaction'', stx)]) m' = (f, m') \<and>
           httpStatus f \<in> {400, 401}"
proof -
  have "\<not> nonceOp n' (tx_operations tx)"
    using assms(2,5) by (auto simp: nonceOp_def split: list.splits)
  with assms show ?thesis
    by (auto simp: issueChallenge_def verifyChallenge_def bodyField_def)
qed

section \<open>Token lifetime\<close>

lemma dots_split:
  "CHR ''.'' \<notin> set a \<Longrightarrow> CHR ''.'' \<notin> set b \<Longrightarrow> CHR ''.'' \<notin> set c \<Longrightarrow> js_split CHR ''.'' (a @ ''.'' @ b @ ''.'' @ c) = [a, b, c]"
  by (simp add: js_split_append js_split_no_sep)

lemma verify_own_token:
  assumes "\<And>x. CHR ''.'' \<notin> set (au_b64url P x) \<and> au_b64url P x \<noteq> []" "\<And>x. CHR ''.'' \<notin> set (au_sig P x) \<and> au_sig P x \<noteq> []"
    and decodes: "au_unb64url P (au_b64url P (JSON_stringify (claims P pk t))) = JSON_stringify (claims P pk t)"
    and parses: "au_parse P (JSON_stringify (claims P pk t)) = Some (claims P pk t)"
    and "0 \<le> t"
  shows "verifyJwt P nowMs (signJwt P (claims P pk t)) = (if nowMs div 1000 \<le> t + 3600 then Some (Some (JStr pk)) else None)"
  unfolding signJwt_def Let_def verifyJwt_def
  by (subst dots_split) (use assms in \<open>simp_all add: decodes parses, simp add: claims_def expired_def JWT_EXPIRY_SECONDS_def\<close>)

text \<open>A token granted at a time \<open>t\<close> is accepted, for the wallet it was granted to, until 3600 seconds
  later and not after. Base64url has no dots and decodes what it encodes; parsing returns the
  object that was printed.
\<close>
theorem token_lifetime:
  assumes no_dots: "\<And>x. CHR ''.'' \<notin> set (au_b64url P x) \<and> au_b64url P x \<noteq> []" "\<And>x. CHR ''.'' \<notin> set (au_sig P x) \<and> au_sig P x \<noteq> []"
    and decodes: "au_unb64url P (au_b64url P (JSON_stringify (claims P pk t))) = JSON_stringify (claims P pk t)"
    and parses: "au_parse P (JSON_stringify (claims P pk t)) = Some (claims P pk t)"
    and "0 \<le> t"
  shows "requireAuth P nowMs (Some (''Bearer '' @ signJwt P (claims P pk t))) =
         (if nowMs div 1000 \<le> t + 3600 then Success 200 (Some (JStr pk)) else Failure 401 ''Invalid or expired token'')"
  using verify_own_token [OF assms, of nowMs] by (simp add: requireAuth_def startsWith_def)

text \<open>A request passes the administrator check only with a token whose signature is the server's,
  which has not expired, and whose subject is the configured administrator.
\<close>
theorem admin_needs_own_token:
  assumes "requireAdmin P nowMs adminKey authorization = Success c sub"
  shows "\<exists>k header body sg rest fs e. adminKey = Some k \<and> k \<noteq> [] \<and> sub = Some (JStr k) \<and>
           authorization = Some (''Bearer '' @ drop 7 (the authorization)) \<and>
           js_split CHR ''.'' (drop 7 (the authorization)) = header # body # sg # rest \<and> sg = au_sig P (header @ ''.'' @ body) \<and>
           au_parse P (au_unb64url P body) = Some (JObj fs) \<and> map_of fs ''sub'' = Some (JStr k) \<and>
           map_of fs ''exp'' = Some e \<and> \<not> expired P e (nowMs div 1000) \<and>
           map_of fs ''iss'' = Some (JStr (au_issuer P)) \<and> map_of fs ''aud'' = Some (JStr (au_audience P))"
proof -
  from assms obtain k where k: "userKey adminKey = Some k" "sub = Some (JStr k)" and auth: "requireAuth P nowMs authorization = Success c sub"
    by (auto simp: requireAdmin_def split: response.splits option.splits if_splits)
  from auth obtain h where h: "authorization = Some h" "startsWith h ''Bearer ''" "verifyJwt P nowMs (drop 7 h) = Some sub"
    by (auto simp: requireAuth_def split: option.splits if_splits)
  from h(3) obtain header body sg rest fs e where
    "js_split CHR ''.'' (drop 7 h) = header # body # sg # rest" "sg = au_sig P (header @ ''.'' @ body)"
    "au_parse P (au_unb64url P body) = Some (JObj fs)" "map_of fs ''exp'' = Some e" "\<not> expired P e (nowMs div 1000)"
    "map_of fs ''iss'' = Some (JStr (au_issuer P))" "map_of fs ''aud'' = Some (JStr (au_audience P))" "map_of fs ''sub'' = sub"
    by (auto simp: verifyJwt_def split: list.splits if_splits option.splits json.splits)
  moreover have "h = ''Bearer '' @ drop 7 h"
    using h(2) append_take_drop_id [of 7 h] by (simp add: startsWith_def numeral_eq_Suc)
  ultimately show ?thesis
    using k h(1) by (auto simp: userKey_def split: option.splits if_splits)
qed

section \<open>Examples\<close>

definition exampleTx :: auth_tx where
  "exampleTx = \<lparr>tx_source = Some ''GA'', tx_operations = [\<lparr>op_manageData = True, op_value = Some ''AB''\<rparr>], tx_hash = ''h'', tx_signatures = [''GAh'']\<rparr>"

definition exampleAuth :: auth_params where
  "exampleAuth =
     \<lparr>au_sig = (\<lambda>m. CHR ''s'' # hexOf m), au_b64url = (\<lambda>m. CHR ''b'' # hexOf m), au_unb64url = (\<lambda>_. ''body''),
      au_parse = (\<lambda>_. None), au_less = (\<lambda>_ _. False), au_issuer = ''flowfi-api'', au_audience = ''flowfi-api'',
      au_validKey = (\<lambda>k. k = ''GA''), au_fromXDR = (\<lambda>j. if j = JStr ''tx'' then Some exampleTx else None),
      au_verify = (\<lambda>k h sg. sg = k @ h)\<rparr>"

definition codecFor :: "json \<Rightarrow> auth_params" where
  "codecFor j = exampleAuth\<lparr>au_unb64url := (\<lambda>_. JSON_stringify j), au_parse := (\<lambda>_. Some j)\<rparr>"

lemma hexOf_no_dot: "CHR ''.'' \<notin> set (hexOf m)"
proof -
  have "hex_digit n \<noteq> CHR ''.''" if "n < 16" for n
  proof
    assume "hex_digit n = CHR ''.''"
    then have "code (hex_digit n) = 46" by (simp add: code_def)
    with that show False by (auto simp: hex_digit_def code_def split: if_splits)
  qed
  moreover have "code c div 16 < 16" "code c mod 16 < 16" for c :: char
    using nat_of_char_less_256 [of c] by (auto simp: code_def less_mult_imp_div_less)
  ultimately have no: "hex_digit (code c div 16) \<noteq> CHR ''.''" "hex_digit (code c mod 16) \<noteq> CHR ''.''" for c by blast+
  show ?thesis by (induction m) (simp_all add: hexOf_def no [symmetric])
qed

lemma hexOf_AB: "hexOf ''AB'' = ''4142''"
  by code_simp

definition challengeBody :: json where
  "challengeBody = JObj [(''publicKey'', JStr ''GA'')]"

definition signedBody :: json where
  "signedBody = JObj [(''publicKey'', JStr ''GA''), (''signedTransaction'', JStr ''tx'')]"

lemma example_bodies:
  "bodyField ''publicKey'' challengeBody = Some (JStr ''GA'')" "bodyField ''publicKey'' signedBody = Some (JStr ''GA'')"
  "bodyField ''signedTransaction'' signedBody = Some (JStr ''tx'')"
  by (simp_all add: challengeBody_def signedBody_def bodyField_def)

definition grantedWorld :: auth_world where
  "grantedWorld = \<lparr>store = Map.empty, issued = [(''GA'', ''4142'', 0)], granted = [(''GA'', ''4142'', 60000, exampleTx)], clock = 60000\<rparr>"

lemma grantedWorld_reach: "auth_reach exampleAuth grantedWorld"
proof -
  let ?m = "[''GA'' \<mapsto> (''4142'', 60000)]"
  let ?w0 = "\<lparr>store = Map.empty, issued = [], granted = [], clock = 0\<rparr>"
  let ?w1 = "\<lparr>store = ?m, issued = [(''GA'', ''4142'', 0)], granted = [], clock = 0\<rparr>"
  let ?w2 = "\<lparr>store = ?m, issued = [(''GA'', ''4142'', 0)], granted = [], clock = 60000\<rparr>"
  have "auth_step exampleAuth ?w0 (?w0\<lparr>store := ?m, issued := issued ?w0 @ [(''GA'', ''4142'', clock ?w0)]\<rparr>)"
    by (rule issue [where body = challengeBody and c = 200 and x = "(''4142'', 60000)"])
      (simp_all add: issueChallenge_def example_bodies exampleAuth_def)
  with start [of exampleAuth 0] have "auth_reach exampleAuth ?w1" using step by fastforce
  moreover have "auth_step exampleAuth ?w1 (?w1\<lparr>clock := 60000\<rparr>)" by (rule tick) simp
  ultimately have r2: "auth_reach exampleAuth ?w2" using step by fastforce
  have fx: "au_fromXDR exampleAuth (JStr ''tx'') = Some exampleTx" by (simp add: exampleAuth_def)
  obtain x where v: "verifyChallenge exampleAuth 60000 signedBody ?m = (Success 200 x, Map.empty)"
    by (simp add: verifyChallenge_def example_bodies fx) (simp add: exampleAuth_def exampleTx_def nonceOp_def hexOf_AB)
  have "auth_step exampleAuth ?w2 (?w2\<lparr>store := Map.empty, granted := granted ?w2 @ [(''GA'', ''4142'', clock ?w2, exampleTx)]\<rparr>)"
    by (rule grant [where body = signedBody and c = 200 and x = x and e = 60000 and stx = "JStr ''tx''"])
      (simp_all add: v example_bodies fx)
  with r2 show ?thesis using step by (fastforce simp: grantedWorld_def)
qed

theorem tokens_need_fresh_signature_witness:
  "distinct (map (\<lambda>(k, n, t, x). n) (granted grantedWorld)) \<and>
   (\<exists>sg \<in> set (tx_signatures exampleTx). au_verify exampleAuth ''GA'' (tx_hash exampleTx) sg) \<and>
   (\<exists>t0. (''GA'', ''4142'', t0) \<in> set (issued grantedWorld) \<and> t0 \<le> 60000 \<and> 60000 \<le> t0 + 60000)"
  using tokens_need_fresh_signature [OF grantedWorld_reach]
  by (simp add: grantedWorld_def)

theorem challenge_overwritten_witness:
  "\<exists>m' f. fst (issueChallenge exampleAuth 5 ''ff'' (JObj [(''publicKey'', JStr ''GA'')]) [''GA'' \<mapsto> (''4142'', 60000)]) = Success 200 (''ff'', 60005) \<and>
     verifyChallenge exampleAuth 5 (JObj [(''publicKey'', JStr ''GA''), (''signedTransaction'', JStr ''tx'')]) m' = (f, m') \<and> httpStatus f \<in> {400, 401}"
  using challenge_overwritten [of "[''GA'' \<mapsto> (''4142'', 60000)]" "''GA''" "''4142''" 60000 "''ff''" exampleAuth exampleTx "JStr ''tx''" 5]
  by (auto simp: exampleAuth_def exampleTx_def nonceOp_def hexOf_AB)

theorem token_lifetime_witness:
  "let P = codecFor (claims exampleAuth ''GA'' 100) in
   requireAuth P 3700999 (Some (''Bearer '' @ signJwt P (claims P ''GA'' 100))) = Success 200 (Some (JStr ''GA'')) \<and>
   requireAuth P 3701000 (Some (''Bearer '' @ signJwt P (claims P ''GA'' 100))) = Failure 401 ''Invalid or expired token''"
proof -
  let ?P = "codecFor (claims exampleAuth ''GA'' 100)"
  have "claims ?P ''GA'' 100 = claims exampleAuth ''GA'' 100" by (simp add: claims_def codecFor_def)
  then have l: "requireAuth ?P now (Some (''Bearer '' @ signJwt ?P (claims ?P ''GA'' 100))) =
      (if now div 1000 \<le> 100 + 3600 then Success 200 (Some (JStr ''GA'')) else Failure 401 ''Invalid or expired token'')" for now
    by (intro token_lifetime) (simp_all add: codecFor_def exampleAuth_def hexOf_no_dot)
  show ?thesis unfolding Let_def l by simp
qed

theorem admin_needs_own_token_witness:
  "\<exists>header body sg rest. js_split CHR ''.'' (signJwt (codecFor (claims exampleAuth ''GA'' 100)) (claims exampleAuth ''GA'' 100)) = header # body # sg # rest \<and>
     sg = au_sig (codecFor (claims exampleAuth ''GA'' 100)) (header @ ''.'' @ body)"
proof -
  let ?P = "codecFor (claims exampleAuth ''GA'' 100)"
  have j: "claims ?P ''GA'' 100 = claims exampleAuth ''GA'' 100" by (simp add: claims_def codecFor_def)
  then have "verifyJwt ?P 0 (signJwt ?P (claims ?P ''GA'' 100)) = Some (Some (JStr ''GA''))"
    by (subst verify_own_token) (simp_all add: codecFor_def exampleAuth_def hexOf_no_dot)
  then have "requireAdmin ?P 0 (Some ''GA'') (Some (''Bearer '' @ signJwt ?P (claims ?P ''GA'' 100))) = Success 200 (Some (JStr ''GA''))"
    by (simp add: requireAdmin_def requireAuth_def userKey_def startsWith_def)
  from admin_needs_own_token [OF this] show ?thesis unfolding j by auto
qed

end
