(* ===== verification/Stream_Queries.thy ===== *)
theory Stream_Queries
  imports Stream_Api
begin

text \<open>
  The read endpoints of \<open>backend/src/controllers/stream.controller.ts\<close> with the repositories
  \<open>stream.repository.ts\<close> and \<open>streamEvent.repository.ts\<close>: a stream and its claimable amount with the
  fall-back to the chain, the user summary and its cache, and the paginated lists. The order in
  which the database returns the rows of a list is an argument (the rows come in the requested
  order); a query value is \<open>None\<close> when it is missing or not a string.
\<close>

section \<open>One stream\<close>

datatype stream_view = DbStream stream_row | ChainOnly ChainStream | Merged stream_row ChainStream

definition getStream :: "request_env \<Rightarrow> string \<Rightarrow> db \<Rightarrow> stream_view response option" where
  "getStream E streamIdParam d =
     (case parseStreamId (RawString streamIdParam) of
        None \<Rightarrow> Some (Failure 400 ''INVALID_STREAM_ID'')
      | Some sid \<Rightarrow>
      case stream_findUnique sid d of
        Inl _ \<Rightarrow> Some (Failure 500 ''INTERNAL_SERVER_ERROR'')
      | Inr None \<Rightarrow>
          map_option (\<lambda>chain. case chain of None \<Rightarrow> Failure 404 ''NOT_FOUND'' | Some ch \<Rightarrow> Success 200 (ChainOnly ch))
            (getStreamFromChain (re_chain E) (re_strkey E) sid)
      | Inr (Some stream) \<Rightarrow>
          if isStale (re_nowMs E) (updatedAt stream)
          then map_option (\<lambda>chain. Success 200 (case chain of None \<Rightarrow> DbStream stream | Some ch \<Rightarrow> Merged stream ch))
                 (getStreamFromChain (re_chain E) (re_strkey E) sid)
          else Some (Success 200 (DbStream stream)))"

datatype claimable_view = ChainClaim int string bool int | DbClaim claimable_value bool "int option"

definition chainClaim :: "int \<Rightarrow> int \<Rightarrow> string \<Rightarrow> claimable_view response" where
  "chainClaim now sid amt =
     (case BigInt amt of
        None \<Rightarrow> Failure 500 ''INTERNAL_SERVER_ERROR''
      | Some n \<Rightarrow> Success 200 (ChainClaim sid amt (0 < n) now))"

text \<open>\<open>at\<close> is the query parameter; \<open>parseInt\<close> of it may be NaN (\<open>None\<close>).\<close>

definition requestedAt :: "string option \<Rightarrow> int option option" where
  "requestedAt atq =
     (case atq of
        None \<Rightarrow> Some None
      | Some s \<Rightarrow> (case parseInt10 s of None \<Rightarrow> None | Some n \<Rightarrow> if n < 0 then None else Some (Some (toNumber n))))"

definition getStreamClaimableAmount ::
  "request_env \<Rightarrow> string \<Rightarrow> string option \<Rightarrow> db \<Rightarrow> claimable_cache \<Rightarrow> (claimable_view response \<times> claimable_cache) option" where
  "getStreamClaimableAmount E streamIdParam atq d c =
     (case parseStreamId (RawString streamIdParam) of
        None \<Rightarrow> Some (Failure 400 ''INVALID_STREAM_ID'', c)
      | Some sid \<Rightarrow>
      case requestedAt atq of
        None \<Rightarrow> Some (Failure 400 ''INVALID_QUERY_PARAMETER'', c)
      | Some rat \<Rightarrow>
      case stream_findUnique sid d of
        Inl _ \<Rightarrow> Some (Failure 500 ''INTERNAL_SERVER_ERROR'', c)
      | Inr None \<Rightarrow>
          map_option (\<lambda>chain. (case chain of None \<Rightarrow> Failure 404 ''NOT_FOUND'' | Some a \<Rightarrow> chainClaim (re_nowSec E) sid a, c))
            (getClaimableFromChain (re_chain E) sid)
      | Inr (Some stream) \<Rightarrow>
          (let local = (case getClaimableAmount (re_ttlMs E) (re_nowMs E) (re_wall E) (claimState stream) rat c of
                          (Inl _, c1) \<Rightarrow> (Failure 500 ''INTERNAL_SERVER_ERROR'', c1)
                        | (Inr (v, cached, at), c1) \<Rightarrow> (Success 200 (DbClaim v cached at), c1))
           in if isStale (re_nowMs E) (updatedAt stream)
              then map_option (\<lambda>chain. case chain of None \<Rightarrow> local | Some a \<Rightarrow> (chainClaim (re_nowSec E) sid a, c))
                     (getClaimableFromChain (re_chain E) sid)
              else Some local))"

section \<open>The user summary\<close>

record UserStreamSummary =
  us_address :: string
  us_totalStreamsCreated :: nat
  us_totalStreamedOut :: string
  us_totalStreamedIn :: string
  us_currentClaimable :: string
  us_activeOutgoingCount :: nat
  us_activeIncomingCount :: nat
  us_truncated :: bool

definition MAX_USER_STREAMS :: nat where
  "MAX_USER_STREAMS = 500"

definition USER_SUMMARY_CACHE_TTL_MS :: int where
  "USER_SUMMARY_CACHE_TTL_MS = 30000"

type_synonym summary_cache = "string \<rightharpoonup> (UserStreamSummary \<times> int)"

definition pruneUserSummaryCache :: "int \<Rightarrow> summary_cache \<Rightarrow> summary_cache" where
  "pruneUserSummaryCache nowMs m =
     (\<lambda>k. case m k of Some (v, expires) \<Rightarrow> if expires \<le> nowMs then None else Some (v, expires) | None \<Rightarrow> None)"

fun sumValid :: "int \<Rightarrow> string list \<Rightarrow> int" where
  "sumValid acc [] = acc"
| "sumValid acc (v # vs) = (case BigInt v of None \<Rightarrow> sumValid acc vs | Some n \<Rightarrow> sumValid (acc + n) vs)"

definition sumStringI128 :: "string list \<Rightarrow> string" where
  "sumStringI128 vs = toString (sumValid 0 vs)"

fun claimableTotal ::
  "request_env \<Rightarrow> int \<Rightarrow> stream_row list \<Rightarrow> int \<Rightarrow> claimable_cache \<Rightarrow> int result \<times> claimable_cache" where
  "claimableTotal E calculatedAt [] acc c = (Inr acc, c)"
| "claimableTotal E calculatedAt (s # ss) acc c =
     (case getClaimableAmount (re_ttlMs E) (re_nowMs E) (re_wall E) (claimState s) (Some calculatedAt) c of
        (Inl x, c1) \<Rightarrow> (Inl x, c1)
      | (Inr (v, _), c1) \<Rightarrow>
          (case BigInt (cv_claimableAmount v) of
             None \<Rightarrow> (Inl SyntaxError, c1)
           | Some n \<Rightarrow> claimableTotal E calculatedAt ss (acc + n) c1))"

text \<open>
  \<open>outgoing\<close> and \<open>incoming\<close> are all streams of the address, the latest start first; the query
  takes at most \<open>MAX_USER_STREAMS\<close> of each.
\<close>

definition fetchSummary ::
  "request_env \<Rightarrow> string \<Rightarrow> stream_row list \<Rightarrow> stream_row list \<Rightarrow> summary_cache \<Rightarrow> claimable_cache
     \<Rightarrow> UserStreamSummary response \<times> summary_cache \<times> claimable_cache" where
  "fetchSummary E address outgoing incoming m c =
     (let outs = take MAX_USER_STREAMS outgoing; ins = take MAX_USER_STREAMS incoming in
      case claimableTotal E (re_nowMs E div 1000) ins 0 c of
        (Inl _, c1) \<Rightarrow> (Failure 500 ''INTERNAL_SERVER_ERROR'', m, c1)
      | (Inr claim, c1) \<Rightarrow>
          (let summary = \<lparr>us_address = address, us_totalStreamsCreated = length outs,
                 us_totalStreamedOut = sumStringI128 (map withdrawnAmount outs),
                 us_totalStreamedIn = sumStringI128 (map withdrawnAmount ins),
                 us_currentClaimable = toString claim,
                 us_activeOutgoingCount = length (filter isActive outs),
                 us_activeIncomingCount = length (filter isActive ins),
                 us_truncated = (MAX_USER_STREAMS \<le> length outs \<or> MAX_USER_STREAMS \<le> length ins)\<rparr>
           in (Success 200 summary, m(address \<mapsto> (summary, re_nowMs E + USER_SUMMARY_CACHE_TTL_MS)), c1)))"

definition getUserStreamSummary ::
  "request_env \<Rightarrow> string \<Rightarrow> stream_row list \<Rightarrow> stream_row list \<Rightarrow> summary_cache \<Rightarrow> claimable_cache
     \<Rightarrow> UserStreamSummary response \<times> summary_cache \<times> claimable_cache" where
  "getUserStreamSummary E addressParam outgoing incoming m c =
     (let address = trim addressParam; nowMs = re_nowMs E in
      if address = [] then (Failure 400 ''INVALID_ADDRESS'', m, c)
      else case m address of
        Some (v, expires) \<Rightarrow>
          if nowMs < expires then (Success 200 v, m, c)
          else fetchSummary E address outgoing incoming (pruneUserSummaryCache nowMs m) c
      | None \<Rightarrow> fetchSummary E address outgoing incoming (pruneUserSummaryCache nowMs m) c)"

section \<open>Lists\<close>

text \<open>
  \<open>findMany\<close> with \<open>take\<close> and \<open>skip\<close>: a negative \<open>take\<close> counts from the other side of the list. A
  cursor starts at its row, or gives nothing if there is no such row.
\<close>

definition prismaPage :: "int \<Rightarrow> int \<Rightarrow> 'a list \<Rightarrow> 'a list" where
  "prismaPage n skip xs =
     (if 0 \<le> n then take (nat n) (drop (nat skip) xs)
      else rev (take (nat (- n)) (drop (nat skip) (rev xs))))"

definition prismaCursor :: "int \<Rightarrow> ('a \<Rightarrow> bool) \<Rightarrow> int \<Rightarrow> 'a list \<Rightarrow> 'a list" where
  "prismaCursor n at skip xs =
     (if 0 \<le> n then take (nat n) (drop (nat skip) (dropWhile (\<lambda>x. \<not> at x) xs))
      else rev (take (nat (- n)) (drop (nat skip) (dropWhile (\<lambda>x. \<not> at x) (rev xs)))))"

definition orDefault :: "int option \<Rightarrow> int \<Rightarrow> int" where
  "orDefault n dflt = (case n of None \<Rightarrow> dflt | Some k \<Rightarrow> if k = 0 then dflt else toNumber k)"

definition DEFAULT_STREAM_PAGE_SIZE :: int where
  "DEFAULT_STREAM_PAGE_SIZE = 20"

definition MAX_STREAM_PAGE_SIZE :: int where
  "MAX_STREAM_PAGE_SIZE = 100"

datatype status_filter = FActive | FPaused | FCancelled | FCompleted

record FindStreamsParams =
  fp_status :: "status_filter option"
  fp_sender :: "string option"
  fp_recipient :: "string option"
  fp_tokenAddress :: "string option"
  fp_limit :: int
  fp_offset :: int
  fp_sortField :: string
  fp_ascending :: bool

definition matchesText :: "string option \<Rightarrow> string \<Rightarrow> bool" where
  "matchesText want actual = (case want of None \<Rightarrow> True | Some w \<Rightarrow> w = [] \<or> w = actual)"

text \<open>\<open>logged sid ty\<close>: the stream has an event of that type.\<close>

definition streamMatches :: "(int \<Rightarrow> string \<Rightarrow> bool) \<Rightarrow> FindStreamsParams \<Rightarrow> stream_row \<Rightarrow> bool" where
  "streamMatches logged p r =
     (matchesText (fp_sender p) (sender r) \<and> matchesText (fp_recipient p) (recipient r)
      \<and> matchesText (fp_tokenAddress p) (tokenAddress r)
      \<and> (case fp_status p of
           None \<Rightarrow> True
         | Some FActive \<Rightarrow> isActive r \<and> \<not> isPaused r
         | Some FPaused \<Rightarrow> isPaused r
         | Some FCancelled \<Rightarrow> \<not> isActive r \<and> logged (streamId r) ''CANCELLED''
         | Some FCompleted \<Rightarrow> \<not> isActive r \<and> logged (streamId r) ''COMPLETED''))"

text \<open>The rows that match, their number, and whether there are more.\<close>

definition findStreams ::
  "(int \<Rightarrow> string \<Rightarrow> bool) \<Rightarrow> (string \<Rightarrow> bool \<Rightarrow> stream_row list) \<Rightarrow> FindStreamsParams \<Rightarrow> stream_row list \<times> int \<times> bool" where
  "findStreams logged rows p =
     (let matching = filter (streamMatches logged p) (rows (fp_sortField p) (fp_ascending p));
          page = prismaPage (fp_limit p) (fp_offset p) matching;
          count = int (length matching)
      in (page, count, fp_offset p + int (length page) < count))"

definition statusOf :: "string \<Rightarrow> status_filter option" where
  "statusOf s =
     (if s = ''active'' then Some FActive else if s = ''cancelled'' then Some FCancelled
      else if s = ''completed'' then Some FCompleted else if s = ''paused'' then Some FPaused else None)"

record list_query =
  q_sender :: "string option"
  q_recipient :: "string option"
  q_status :: "string option"
  q_token :: "string option"
  q_sort :: "string option"
  q_order :: "string option"
  q_limit :: "string option"
  q_offset :: "string option"

definition listLimit :: "string option \<Rightarrow> int" where
  "listLimit limit =
     min (case limit of None \<Rightarrow> DEFAULT_STREAM_PAGE_SIZE | Some s \<Rightarrow> orDefault (parseInt10 s) DEFAULT_STREAM_PAGE_SIZE)
         MAX_STREAM_PAGE_SIZE"

definition listOffset :: "string option \<Rightarrow> int" where
  "listOffset offset = (case offset of None \<Rightarrow> 0 | Some s \<Rightarrow> max 0 (orDefault (parseInt10 s) 0))"

text \<open>The default of \<open>limit\<close> and \<open>offset\<close> ('20' and '0') is that of a missing value.\<close>

definition listStreams ::
  "(int \<Rightarrow> string \<Rightarrow> bool) \<Rightarrow> (string \<Rightarrow> bool \<Rightarrow> stream_row list) \<Rightarrow> list_query
     \<Rightarrow> (stream_row list \<times> int \<times> bool \<times> int \<times> int) response" where
  "listStreams logged rows q =
     (if (case q_status q of Some s \<Rightarrow> statusOf s = None | None \<Rightarrow> False) then Failure 400 ''INVALID_STATUS''
      else
        (let sort = (case q_sort q of None \<Rightarrow> ''createdAt'' | Some s \<Rightarrow> s);
             sortField = (if sort \<in> set [''createdAt'', ''startTime'', ''lastUpdateTime'', ''depositedAmount'', ''endTime'']
                          then sort else ''createdAt'');
             lim = listLimit (q_limit q);
             off = listOffset (q_offset q);
             (page, count, hasMore) = findStreams logged rows
               \<lparr>fp_status = Option.bind (q_status q) statusOf, fp_sender = q_sender q, fp_recipient = q_recipient q,
                fp_tokenAddress = q_token q, fp_limit = lim, fp_offset = off, fp_sortField = sortField,
                fp_ascending = (q_order q = Some ''asc'')\<rparr>
         in Success 200 (page, count, hasMore, lim, off)))"

section \<open>Events\<close>

definition EVENT_TYPES :: "string list" where
  "EVENT_TYPES = [''CREATED'', ''TOPPED_UP'', ''WITHDRAWN'', ''CANCELLED'', ''COMPLETED'', ''PAUSED'', ''RESUMED'',
     ''FEE_COLLECTED'', ''FEE_CONFIG_UPDATED'', ''ADMIN_TRANSFERRED'']"

definition MAX_EVENTS_PAGE_SIZE :: int where
  "MAX_EVENTS_PAGE_SIZE = 200"

definition DEFAULT_EVENTS_PAGE_SIZE :: int where
  "DEFAULT_EVENTS_PAGE_SIZE = 50"

definition parseEventTypeFilter :: "string option \<Rightarrow> string list \<times> string list" where
  "parseEventTypeFilter rawType =
     (let raw = (case rawType of None \<Rightarrow> [] | Some s \<Rightarrow> s);
          requested = filter (\<lambda>t. t \<noteq> []) (map (\<lambda>t. map upper_char (trim t)) (js_split CHR '','' raw))
      in (requested, filter (\<lambda>t. t \<in> set EVENT_TYPES) requested))"

definition resolveEventsPageSize :: "string option \<Rightarrow> int" where
  "resolveEventsPageSize rawLimit =
     (case parseInt10 (case rawLimit of None \<Rightarrow> [] | Some s \<Rightarrow> s) of
        Some n \<Rightarrow> if 0 < n then min (toNumber n) MAX_EVENTS_PAGE_SIZE else DEFAULT_EVENTS_PAGE_SIZE
      | None \<Rightarrow> DEFAULT_EVENTS_PAGE_SIZE)"

definition pageOffset :: "string option \<Rightarrow> int \<Rightarrow> int" where
  "pageOffset rawPage limit =
     (let page = (case parseInt10 (case rawPage of None \<Rightarrow> [] | Some s \<Rightarrow> s) of
                    Some n \<Rightarrow> if 0 < n then toNumber n else 1
                  | None \<Rightarrow> 1)
      in max 0 ((page - 1) * limit))"

definition resolveEventsOffset :: "string option \<Rightarrow> string option \<Rightarrow> int \<Rightarrow> int" where
  "resolveEventsOffset rawOffset rawPage limit =
     (case rawOffset of
        Some s \<Rightarrow>
          if s = [] then pageOffset rawPage limit
          else (case parseInt10 s of
                  Some n \<Rightarrow> if 0 \<le> n then toNumber n else pageOffset rawPage limit
                | None \<Rightarrow> pageOffset rawPage limit)
      | None \<Rightarrow> pageOffset rawPage limit)"

text \<open>An event row with its uuid, which the cursor of the list names.\<close>

type_synonym listed_event = "string \<times> event_row"

definition listEventsForWallet ::
  "(int \<Rightarrow> stream_row option) \<Rightarrow> listed_event list \<Rightarrow> string \<Rightarrow> string list \<Rightarrow> int \<Rightarrow> int
     \<Rightarrow> listed_event list \<times> int \<times> int \<times> int \<times> bool" where
  "listEventsForWallet streamOf rows address types limit offset =
     (let mine = filter (\<lambda>(_, e). (case streamOf (ev_streamId e) of
                    Some r \<Rightarrow> sender r = address \<or> recipient r = address | None \<Rightarrow> False)
                  \<and> (types = [] \<or> ev_eventType e \<in> set types)) rows;
          page = prismaPage limit offset mine;
          count = int (length mine)
      in (page, count, limit, offset, offset + int (length page) < count))"

record events_query =
  eq_limit :: "string option"
  eq_offset :: "string option"
  eq_page :: "string option"
  eq_cursor :: "string option"
  eq_order :: "string option"
  eq_eventType :: "string option"

definition queryText :: "string option \<Rightarrow> string option" where
  "queryText x = (case x of Some s \<Rightarrow> if s = [] then None else Some s | None \<Rightarrow> None)"

definition eventsLimit :: "events_query \<Rightarrow> int" where
  "eventsLimit q =
     min (case queryText (eq_limit q) of
            Some s \<Rightarrow> orDefault (parseInt10 s) DEFAULT_EVENTS_PAGE_SIZE
          | None \<Rightarrow> DEFAULT_EVENTS_PAGE_SIZE) MAX_EVENTS_PAGE_SIZE"

definition eventsOffset :: "events_query \<Rightarrow> int" where
  "eventsOffset q =
     (case queryText (eq_offset q) of
        Some s \<Rightarrow> max 0 (orDefault (parseInt10 s) 0)
      | None \<Rightarrow>
          (case queryText (eq_page q) of
             Some s \<Rightarrow> if queryText (eq_cursor q) = None then max 0 ((orDefault (parseInt10 s) 1 - 1) * eventsLimit q) else 0
           | None \<Rightarrow> 0))"

definition eventMatches :: "int \<Rightarrow> events_query \<Rightarrow> listed_event \<Rightarrow> bool" where
  "eventMatches sid q row =
     (ev_streamId (snd row) = sid
      \<and> (case queryText (eq_eventType q) of Some t \<Rightarrow> ev_eventType (snd row) = t | None \<Rightarrow> True))"

text \<open>\<open>rows asc\<close> are the events of all streams by time and then by uuid, in the order asked for.\<close>

definition getStreamEvents ::
  "(bool \<Rightarrow> listed_event list) \<Rightarrow> string \<Rightarrow> events_query \<Rightarrow> (listed_event list \<times> int \<times> bool) response" where
  "getStreamEvents rows streamIdParam q =
     (case parseStreamId (RawString streamIdParam) of
        None \<Rightarrow> Failure 400 ''INVALID_STREAM_ID''
      | Some sid \<Rightarrow>
      if (case queryText (eq_eventType q) of Some t \<Rightarrow> t \<notin> set EVENT_TYPES | None \<Rightarrow> False)
      then Failure 400 ''INVALID_EVENT_TYPE''
      else if \<not> int8 sid then Failure 500 ''INTERNAL_SERVER_ERROR''
      else
        (let matching = filter (eventMatches sid q) (rows (eq_order q = Some ''asc''));
             lim = eventsLimit q;
             off = eventsOffset q;
             count = int (length matching)
         in case queryText (eq_cursor q) of
              Some cur \<Rightarrow>
                (let page = prismaCursor lim (\<lambda>e. fst e = cur) 1 matching
                 in Success 200 (page, count, int (length page) = lim))
            | None \<Rightarrow>
                (let page = prismaPage lim off matching
                 in Success 200 (page, count, off + int (length page) < count))))"

section \<open>Pages\<close>

text \<open>A client that follows the cursor of the last row of a page while there are more, for at most \<open>n\<close> pages.\<close>

fun walkEvents :: "(bool \<Rightarrow> listed_event list) \<Rightarrow> string \<Rightarrow> events_query \<Rightarrow> nat \<Rightarrow> string option \<Rightarrow> listed_event list" where
  "walkEvents rows p q 0 cur = []"
| "walkEvents rows p q (Suc n) cur =
     (case getStreamEvents rows p (q\<lparr>eq_cursor := cur\<rparr>) of
        Failure _ _ \<Rightarrow> []
      | Success _ (page, count, hasMore) \<Rightarrow>
          page @ (if hasMore \<and> page \<noteq> [] then walkEvents rows p q n (Some (fst (last page))) else []))"

lemma after_cursor:
  assumes "distinct (map fst (ys @ e # zs))"
  shows "drop 1 (dropWhile (\<lambda>x. fst x \<noteq> fst e) (ys @ e # zs)) = zs"
proof -
  have "fst e \<notin> fst ` set ys" using assms by simp
  then have "\<forall>x\<in>set ys. fst x \<noteq> fst e" by (metis image_eqI)
  then show ?thesis by (simp add: dropWhile_append2)
qed

lemma eventMatches_cursor [simp]: "eventMatches sid (q\<lparr>eq_cursor := c\<rparr>) = eventMatches sid q"
  by (simp add: eventMatches_def fun_eq_iff)

lemma eventsLimit_cursor [simp]: "eventsLimit (q\<lparr>eq_cursor := c\<rparr>) = eventsLimit q"
  by (simp add: eventsLimit_def)

text \<open>A request that is accepted: its stream identifier fits, and its type filter is one of the event types.\<close>

definition acceptedQuery :: "string \<Rightarrow> int \<Rightarrow> events_query \<Rightarrow> bool" where
  "acceptedQuery p sid q =
     (parseStreamId (RawString p) = Some sid \<and> int8 sid
      \<and> (case queryText (eq_eventType q) of Some t \<Rightarrow> t \<in> set EVENT_TYPES | None \<Rightarrow> True))"

lemma cursor_page:
  assumes "acceptedQuery p sid q" and "1 \<le> eventsLimit q"
    and "filter (eventMatches sid q) (rows (eq_order q = Some ''asc'')) = ys @ e # zs"
    and "distinct (map fst (ys @ e # zs))" and "fst e \<noteq> []"
  shows "getStreamEvents rows p (q\<lparr>eq_cursor := Some (fst e)\<rparr>) =
     Success 200 (take (nat (eventsLimit q)) zs, int (length (ys @ e # zs)), eventsLimit q \<le> int (length zs))"
proof -
  have "prismaCursor (eventsLimit q) (\<lambda>x. fst x = fst e) 1 (ys @ e # zs) = take (nat (eventsLimit q)) zs"
    using assms(2) after_cursor [OF assms(4)] by (simp add: prismaCursor_def)
  moreover have "(int (length (take (nat (eventsLimit q)) zs)) = eventsLimit q) = (eventsLimit q \<le> int (length zs))"
    using assms(2) by auto
  ultimately show ?thesis
    using assms(1,3,5)
    by (auto simp: getStreamEvents_def acceptedQuery_def queryText_def Let_def simp del: parseStreamId.simps split: option.splits)
qed

lemma walk_from_cursor:
  assumes "acceptedQuery p sid q" and "1 \<le> eventsLimit q"
    and "filter (eventMatches sid q) (rows (eq_order q = Some ''asc'')) = ys @ e # zs"
    and "distinct (map fst (ys @ e # zs))" and "\<forall>x\<in>set (ys @ e # zs). fst x \<noteq> []" and "length zs < n"
  shows "walkEvents rows p q n (Some (fst e)) = zs"
  using assms(3-6)
proof (induction n arbitrary: ys e zs)
  case (Suc n)
  let ?l = "nat (eventsLimit q)"
  have page: "getStreamEvents rows p (q\<lparr>eq_cursor := Some (fst e)\<rparr>) =
      Success 200 (take ?l zs, int (length (ys @ e # zs)), eventsLimit q \<le> int (length zs))"
    using assms(1,2) Suc.prems by (intro cursor_page) simp_all
  show ?case
  proof (cases "eventsLimit q \<le> int (length zs)")
    case True
    define as where "as = butlast (take ?l zs)"
    define b where "b = last (take ?l zs)"
    have l: "0 < ?l" "?l \<le> length zs" using True assms(2) by auto
    then have "take ?l zs \<noteq> []" by auto
    then have tk: "take ?l zs = as @ [b]" by (simp add: as_def b_def)
    have zs: "zs = as @ b # drop ?l zs" using append_take_drop_id [of ?l zs] unfolding tk by simp
    have split: "ys @ e # zs = (ys @ e # as) @ b # drop ?l zs" by (subst zs) simp
    have "walkEvents rows p q n (Some (fst b)) = drop ?l zs"
      using Suc.prems l unfolding split by (intro Suc.IH [of "ys @ e # as" b]) auto
    then show ?thesis using page True tk zs by simp
  next
    case False
    then show ?thesis using page assms(2) by simp
  qed
qed simp

text \<open>C15. Following the cursor visits every event of the stream exactly once and in order, whatever the page
  size from 1 up: the pages a client collects, starting without a cursor and going on from the
  last row of each page while the answer says there are more, are the complete filtered list.\<close>

theorem cursor_walk_complete:
  assumes "acceptedQuery p sid q" and "1 \<le> eventsLimit q" and "eq_offset q = None" and "eq_page q = None"
    and "matching = filter (eventMatches sid q) (rows (eq_order q = Some ''asc''))"
    and "distinct (map fst matching)" and "\<forall>x\<in>set matching. fst x \<noteq> []" and "length matching < n"
  shows "walkEvents rows p q n None = matching"
proof -
  let ?l = "nat (eventsLimit q)"
  obtain k where n: "n = Suc k" using assms(8) by (cases n) auto
  have off: "eventsOffset (q\<lparr>eq_cursor := None\<rparr>) = 0" using assms(3,4) by (simp add: eventsOffset_def queryText_def)
  have page: "getStreamEvents rows p (q\<lparr>eq_cursor := None\<rparr>) =
      Success 200 (take ?l matching, int (length matching), ?l < length matching)"
    using assms(1,2,5) off
    by (auto simp: getStreamEvents_def acceptedQuery_def queryText_def prismaPage_def Let_def simp del: parseStreamId.simps split: option.splits)
  show ?thesis
  proof (cases "?l < length matching")
    case True
    define as where "as = butlast (take ?l matching)"
    define b where "b = last (take ?l matching)"
    have "take ?l matching \<noteq> []" using True assms(2) by auto
    then have tk: "take ?l matching = as @ [b]" by (simp add: as_def b_def)
    have ms: "matching = as @ b # drop ?l matching" using append_take_drop_id [of ?l matching] unfolding tk by simp
    have "length (drop ?l matching) < k" using True assms(2,8) n by simp
    moreover have "filter (eventMatches sid q) (rows (eq_order q = Some ''asc'')) = as @ b # drop ?l matching"
      using assms(5) ms by simp
    ultimately have "walkEvents rows p q k (Some (fst b)) = drop ?l matching"
      using assms(6,7) ms by (intro walk_from_cursor [OF assms(1,2), where ys = as]) simp_all
    then show ?thesis using page True tk n ms by simp
  next
    case False
    then show ?thesis using page n by simp
  qed
qed

definition exampleEvents :: "listed_event list" where
  "exampleEvents = map (\<lambda>(i, h). (i, withdrawnEvent 7 (toString 10) h 1710 ''G2'')) [(''a'', ''tx1''), (''b'', ''tx2''), (''c'', ''tx3'')]"

definition exampleQuery :: events_query where
  "exampleQuery = \<lparr>eq_limit = Some ''2'', eq_offset = None, eq_page = None, eq_cursor = None, eq_order = None, eq_eventType = None\<rparr>"

lemma exampleQuery_facts:
  "acceptedQuery ''7'' 7 exampleQuery" "eventsLimit exampleQuery = 2"
  "filter (eventMatches 7 exampleQuery) exampleEvents = exampleEvents"
proof -
  show "acceptedQuery ''7'' 7 exampleQuery"
    using parse_print_id [of 7] by (simp add: acceptedQuery_def exampleQuery_def queryText_def int8_def del: parseStreamId.simps)
  have "parseInt10 ''2'' = Some 2"
    by (simp add: parseInt10_def is_ws_def code_def is_digit_def parse_radix_def radix_val_def Let_def)
  moreover have "toNumber 2 = 2" by (simp add: toNumber_safe isSafeInteger_def MAX_SAFE_INTEGER_def)
  ultimately show "eventsLimit exampleQuery = 2"
    by (simp add: eventsLimit_def exampleQuery_def queryText_def orDefault_def MAX_EVENTS_PAGE_SIZE_def)
  show "filter (eventMatches 7 exampleQuery) exampleEvents = exampleEvents"
    by (simp add: exampleEvents_def eventMatches_def exampleQuery_def queryText_def withdrawnEvent_def)
qed

theorem cursor_walk_complete_witness:
  "walkEvents (\<lambda>_. exampleEvents) ''7'' exampleQuery 4 None = exampleEvents \<and> length exampleEvents = 3"
proof
  have d: "distinct (map fst exampleEvents)" "\<forall>x\<in>set exampleEvents. fst x \<noteq> []" "length exampleEvents < 4"
    by (simp_all add: exampleEvents_def)
  show "walkEvents (\<lambda>_. exampleEvents) ''7'' exampleQuery 4 None = exampleEvents"
    by (rule cursor_walk_complete [OF exampleQuery_facts(1)]) (use d exampleQuery_facts in \<open>simp_all add: exampleQuery_def\<close>)
  show "length exampleEvents = 3" by (simp add: exampleEvents_def)
qed

section \<open>The summary adds up\<close>

lemma sumValid_eq: "sumValid acc vs = acc + sum_list (map amount vs)"
  by (induction vs arbitrary: acc) (auto simp: amount_def split: option.split)

lemma claimableTotal_close:
  assumes "serviceCache c" and "list_all (\<lambda>s. wf_claimable (claimState s)) ss"
  shows "\<exists>n c'. claimableTotal E t ss acc c = (Inr n, c') \<and> serviceCache c'
    \<and> \<bar>n - (acc + (\<Sum>s\<leftarrow>ss. claimableSpec (claimState s) t))\<bar> \<le> 4 * (\<Sum>s\<leftarrow>ss. amount (ratePerSecond s))"
  using assms
proof (induction ss arbitrary: acc c)
  case (Cons s ss)
  obtain v cached at t' where v: "fst (getClaimableAmount (re_ttlMs E) (re_nowMs E) (re_wall E) (claimState s) (Some t) c) = Inr (v, cached, at)"
    "amount (cv_claimableAmount v) = claimableSpec (claimState s) t'"
    "\<bar>amount (cv_claimableAmount v) - claimableSpec (claimState s) t\<bar> \<le> 4 * amount (ratePerSecond s)"
    "serviceCache (snd (getClaimableAmount (re_ttlMs E) (re_nowMs E) (re_wall E) (claimState s) (Some t) c))"
    "is_amount (cv_claimableAmount v)"
    using cached_answer [OF Cons.prems(1), where s = "claimState s" and t = t and requestedAt = "Some t"
        and nowMs = "re_nowMs E" and ttl = "re_ttlMs E" and wall = "re_wall E"] Cons.prems(2)
    by (auto simp: claimState_def)
  obtain c1 where c1: "getClaimableAmount (re_ttlMs E) (re_nowMs E) (re_wall E) (claimState s) (Some t) c = (Inr (v, cached, at), c1)"
    "serviceCache c1"
    using v(1,4) by (metis prod.collapse)
  let ?a = "amount (cv_claimableAmount v)"
  obtain n c' where ih: "claimableTotal E t ss (acc + ?a) c1 = (Inr n, c')" "serviceCache c'"
    "\<bar>n - (acc + ?a + (\<Sum>s\<leftarrow>ss. claimableSpec (claimState s) t))\<bar> \<le> 4 * (\<Sum>s\<leftarrow>ss. amount (ratePerSecond s))"
    using Cons.IH [OF c1(2)] Cons.prems(2) by fastforce
  have "BigInt (cv_claimableAmount v) = Some ?a" using is_amount_BigInt [OF v(5)] by simp
  then have "claimableTotal E t (s # ss) acc c = (Inr n, c')" using c1(1) ih(1) by simp
  moreover have "\<bar>n - (acc + (\<Sum>s\<leftarrow>s # ss. claimableSpec (claimState s) t))\<bar> \<le> 4 * (\<Sum>s\<leftarrow>s # ss. amount (ratePerSecond s))"
    using ih(3) v(3) unfolding list.map sum_list.Cons abs_le_iff distrib_left by linarith
  ultimately show ?case using ih(2) by blast
qed simp

text \<open>The user summary is right for a wallet with fewer than 500 streams in each direction: the totals are
  the sums of the recorded withdrawals, the claimable amount is within four seconds of the rates
  of the exact sum (the staleness of the claimable cache), the counts are those of the active
  streams, it is not marked as truncated, and the same answer is given again for 30 seconds.\<close>

theorem user_summary_exact:
  assumes "trim addressParam = address" and "address \<noteq> []" and "m address = None" and "serviceCache c"
    and "length outgoing < MAX_USER_STREAMS" and "length incoming < MAX_USER_STREAMS"
    and "list_all (\<lambda>s. wf_claimable (claimState s)) incoming"
  shows "\<exists>v m' c'. getUserStreamSummary E addressParam outgoing incoming m c = (Success 200 v, m', c')
    \<and> amount (us_totalStreamedOut v) = (\<Sum>s\<leftarrow>outgoing. amount (withdrawnAmount s))
    \<and> amount (us_totalStreamedIn v) = (\<Sum>s\<leftarrow>incoming. amount (withdrawnAmount s))
    \<and> \<bar>amount (us_currentClaimable v) - (\<Sum>s\<leftarrow>incoming. claimableSpec (claimState s) (re_nowMs E div 1000))\<bar>
        \<le> 4 * (\<Sum>s\<leftarrow>incoming. amount (ratePerSecond s))
    \<and> us_activeIncomingCount v = length (filter isActive incoming)
    \<and> us_totalStreamsCreated v = length outgoing \<and> \<not> us_truncated v
    \<and> (\<forall>E' outs ins c''. re_nowMs E' < re_nowMs E + USER_SUMMARY_CACHE_TTL_MS \<longrightarrow>
          getUserStreamSummary E' addressParam outs ins m' c'' = (Success 200 v, m', c''))"
proof -
  obtain n c' where n: "claimableTotal E (re_nowMs E div 1000) incoming 0 c = (Inr n, c')"
    "\<bar>n - (\<Sum>s\<leftarrow>incoming. claimableSpec (claimState s) (re_nowMs E div 1000))\<bar> \<le> 4 * (\<Sum>s\<leftarrow>incoming. amount (ratePerSecond s))"
    using claimableTotal_close [OF assms(4,7), of E "re_nowMs E div 1000" 0] by auto
  have tk: "take MAX_USER_STREAMS outgoing = outgoing" "take MAX_USER_STREAMS incoming = incoming"
    using assms(5,6) by simp_all
  have fetch: "getUserStreamSummary E addressParam outgoing incoming m c =
      fetchSummary E address outgoing incoming (pruneUserSummaryCache (re_nowMs E) m) c"
    using assms(1-3) by (simp add: getUserStreamSummary_def)
  define v where "v = \<lparr>us_address = address, us_totalStreamsCreated = length outgoing,
      us_totalStreamedOut = sumStringI128 (map withdrawnAmount outgoing),
      us_totalStreamedIn = sumStringI128 (map withdrawnAmount incoming), us_currentClaimable = toString n,
      us_activeOutgoingCount = length (filter isActive outgoing), us_activeIncomingCount = length (filter isActive incoming),
      us_truncated = False\<rparr>"
  define m' where "m' = (pruneUserSummaryCache (re_nowMs E) m)(address \<mapsto> (v, re_nowMs E + USER_SUMMARY_CACHE_TTL_MS))"
  have run: "getUserStreamSummary E addressParam outgoing incoming m c = (Success 200 v, m', c')"
    unfolding fetch fetchSummary_def using assms(5,6) n(1) by (simp add: tk v_def m'_def Let_def)
  have again: "getUserStreamSummary E' addressParam outs ins m' c'' = (Success 200 v, m', c'')"
    if "re_nowMs E' < re_nowMs E + USER_SUMMARY_CACHE_TTL_MS" for E' outs ins c''
    using that assms(1,2) by (simp add: getUserStreamSummary_def m'_def)
  show ?thesis
    by (intro exI [of _ v] exI [of _ m'] exI [of _ c'] conjI)
      (use run again n(2) in \<open>simp_all add: v_def sumStringI128_def sumValid_eq comp_def\<close>)
qed

theorem user_summary_exact_witness:
  "\<exists>v m' c'. getUserStreamSummary exampleRequest ''G2'' [] [exampleStream] Map.empty (newCache None None) = (Success 200 v, m', c')
     \<and> \<bar>amount (us_currentClaimable v) - 1000\<bar> \<le> 40 \<and> us_activeIncomingCount v = 1"
proof -
  have "trim ''G2'' = ''G2''" by (simp add: trim_def is_ws_def code_def)
  from user_summary_exact [OF this, where m = Map.empty and c = "newCache None None" and outgoing = "[]"
      and incoming = "[exampleStream]" and E = exampleRequest] serviceCache_new exampleStream_claim
  obtain v m' c' where v: "getUserStreamSummary exampleRequest ''G2'' [] [exampleStream] Map.empty (newCache None None) = (Success 200 v, m', c')"
    "\<bar>amount (us_currentClaimable v) - 1000\<bar> \<le> 4 * amount (ratePerSecond exampleStream)"
    "us_activeIncomingCount v = length (filter isActive [exampleStream])"
    by (auto simp: MAX_USER_STREAMS_def)
  moreover have "amount (ratePerSecond exampleStream) = 10" "isActive exampleStream"
    by (simp_all add: exampleStream_def del: toString_eval)
  ultimately show ?thesis by auto
qed

end
