(* ===== verification/Runway.thy ===== *)
theory Runway
  imports Sse_Subscribe Stream_Queries
begin

text \<open>
  The low-balance alerts, \<open>backend/src/workers/stream-runway-worker.ts\<close>: the runway of a stream from
  the claimable amount, the history of sent alerts, and the hourly check that broadcasts through
  the SSE service. The number of hours in the message is printed with one decimal; how a number
  of tenths is printed is the parameter \<open>tenths\<close>. The clock stands still during one check.
\<close>

definition WARNING_THRESHOLD_HOURS :: int where
  "WARNING_THRESHOLD_HOURS = 48"

definition CRITICAL_THRESHOLD_HOURS :: int where
  "CRITICAL_THRESHOLD_HOURS = 24"

definition DEDUPLICATION_WINDOW_HOURS :: int where
  "DEDUPLICATION_WINDOW_HOURS = 24"

record RunwayCalculation =
  rc_streamId :: int
  rc_remainingRunwaySeconds :: int
  rc_unclaimedBalance :: int
  rc_claimableNow :: int
  rc_sender :: string
  rc_recipient :: string

definition runwayState :: "stream_row \<Rightarrow> ClaimableStreamState" where
  "runwayState r = (claimState r)\<lparr>cs_updatedAt := None\<rparr>"

definition calculateStreamRunway ::
  "int \<Rightarrow> int \<Rightarrow> int \<Rightarrow> stream_row \<Rightarrow> int \<Rightarrow> claimable_cache \<Rightarrow> RunwayCalculation result \<times> claimable_cache" where
  "calculateStreamRunway ttlMs nowMs wall r now c =
     (case getClaimableAmount ttlMs nowMs wall (runwayState r) (Some now) c of
        (Inl e, c1) \<Rightarrow> (Inl e, c1)
      | (Inr (v, cached, at), c1) \<Rightarrow>
          (bindE (of_opt SyntaxError (BigInt (cv_claimableAmount v))) (\<lambda>claimableNow.
           bindE (of_opt SyntaxError (BigInt (depositedAmount r))) (\<lambda>deposited.
           bindE (of_opt SyntaxError (BigInt (withdrawnAmount r))) (\<lambda>withdrawn.
           let unclaimedBalance = deposited - withdrawn;
               remainingBalance = unclaimedBalance - claimableNow
           in bindE (of_opt SyntaxError (BigInt (ratePerSecond r))) (\<lambda>rate.
              Inr \<lparr>rc_streamId = streamId r,
                   rc_remainingRunwaySeconds = (if 0 < rate \<and> 0 < remainingBalance then toNumber (remainingBalance div rate) else 0),
                   rc_unclaimedBalance = unclaimedBalance, rc_claimableNow = claimableNow, rc_sender = sender r, rc_recipient = recipient r\<rparr>)))), c1))"

section \<open>Alerts\<close>

datatype alert_type = WARNING_48H | CRITICAL_24H

fun alertText :: "alert_type \<Rightarrow> string" where
  "alertText WARNING_48H = ''WARNING_48H''"
| "alertText CRITICAL_24H = ''CRITICAL_24H''"

record alert_row =
  al_streamId :: int
  al_alertType :: alert_type
  al_sentAt :: int

record runway_world =
  rw_sse :: sse
  rw_published :: "(string \<times> string \<times> json) list"
  rw_alerts :: "alert_row list"
  rw_cache :: claimable_cache

record runway_env =
  rn_redis :: bool
  rn_io :: io
  rn_tenths :: "int \<Rightarrow> json"
  rn_nowMs :: int
  rn_isoTime :: string
  rn_ttlMs :: int

definition wasAlertRecentlySent :: "int \<Rightarrow> int \<Rightarrow> alert_type \<Rightarrow> alert_row list \<Rightarrow> bool" where
  "wasAlertRecentlySent nowMs sid ty hist =
     list_ex (\<lambda>a. al_streamId a = sid \<and> al_alertType a = ty \<and> nowMs - DEDUPLICATION_WINDOW_HOURS * 60 * 60 * 1000 \<le> al_sentAt a) hist"

definition recordAlert :: "int \<Rightarrow> int \<Rightarrow> alert_type \<Rightarrow> alert_row list \<Rightarrow> alert_row list" where
  "recordAlert nowMs sid ty hist = hist @ [\<lparr>al_streamId = sid, al_alertType = ty, al_sentAt = nowMs\<rparr>]"

definition alertData :: "runway_env \<Rightarrow> RunwayCalculation \<Rightarrow> alert_type \<Rightarrow> json" where
  "alertData E runway ty =
     JObj [(''streamId'', JStr (toString (rc_streamId runway))), (''alertType'', JStr (alertText ty)),
           (''remainingRunwaySeconds'', JNum (rc_remainingRunwaySeconds runway)),
           (''hoursRemaining'', rn_tenths E (rc_remainingRunwaySeconds runway div 360)),
           (''unclaimedBalance'', JStr (toString (rc_unclaimedBalance runway))),
           (''sender'', JStr (rc_sender runway)), (''recipient'', JStr (rc_recipient runway)), (''timestamp'', JStr (rn_isoTime E))]"

definition sendLowBalanceAlert :: "runway_env \<Rightarrow> RunwayCalculation \<Rightarrow> alert_type \<Rightarrow> runway_world \<Rightarrow> runway_world" where
  "sendLowBalanceAlert E runway ty w =
     (let d = alertData E runway ty;
          (s1, p1) = broadcastToUser (rn_redis E) (rn_io E) (rc_sender runway) ''STREAM_LOW_BALANCE'' d (rw_sse w);
          (s2, p2) = broadcastToUser (rn_redis E) (rn_io E) (rc_recipient runway) ''STREAM_LOW_BALANCE'' d s1;
          (s3, p3) = broadcastToStream (rn_redis E) (rn_io E) (toString (rc_streamId runway)) ''STREAM_LOW_BALANCE'' d s2
      in w\<lparr>rw_sse := s3, rw_published := rw_published w @ p1 @ p2 @ p3\<rparr>)"

definition alertOnce :: "runway_env \<Rightarrow> RunwayCalculation \<Rightarrow> int \<Rightarrow> alert_type \<Rightarrow> runway_world \<Rightarrow> runway_world" where
  "alertOnce E runway sid ty w =
     (if wasAlertRecentlySent (rn_nowMs E) sid ty (rw_alerts w) then w
      else let w1 = sendLowBalanceAlert E runway ty w
           in w1\<lparr>rw_alerts := recordAlert (rn_nowMs E) sid ty (rw_alerts w1)\<rparr>)"

text \<open>One stream of the check; an error is logged and the next stream follows.\<close>

definition checkStream :: "runway_env \<Rightarrow> stream_row \<Rightarrow> runway_world \<Rightarrow> runway_world" where
  "checkStream E r w =
     (case calculateStreamRunway (rn_ttlMs E) (rn_nowMs E) (rn_nowMs E) r (rn_nowMs E div 1000) (rw_cache w) of
        (Inl e, c) \<Rightarrow> w\<lparr>rw_cache := c\<rparr>
      | (Inr runway, c) \<Rightarrow>
          (let w1 = w\<lparr>rw_cache := c\<rparr> in
           if rc_remainingRunwaySeconds runway \<le> CRITICAL_THRESHOLD_HOURS * 3600 then alertOnce E runway (streamId r) CRITICAL_24H w1
           else if rc_remainingRunwaySeconds runway \<le> WARNING_THRESHOLD_HOURS * 3600 then alertOnce E runway (streamId r) WARNING_48H w1
           else w1))"

text \<open>\<open>rows\<close> is the stream table, \<open>None\<close> when the query fails.\<close>

definition runStreamRunwayCheck :: "runway_env \<Rightarrow> stream_row list option \<Rightarrow> runway_world \<Rightarrow> runway_world" where
  "runStreamRunwayCheck E rows w =
     (case rows of None \<Rightarrow> w | Some rs \<Rightarrow> fold (checkStream E) (filter (\<lambda>r. isActive r \<and> \<not> isPaused r) rs) w)"

section \<open>At most one alert a day\<close>

definition spaced :: "alert_row list \<Rightarrow> bool" where
  "spaced = sorted_wrt (\<lambda>a b. al_streamId a = al_streamId b \<longrightarrow> al_alertType a = al_alertType b \<longrightarrow> al_sentAt a + 86400000 < al_sentAt b)"

lemma sendLowBalanceAlert_alerts [simp]: "rw_alerts (sendLowBalanceAlert E runway ty w) = rw_alerts w"
  by (simp add: sendLowBalanceAlert_def Let_def split: prod.split)

lemma alertOnce_spaced: "spaced (rw_alerts w) \<Longrightarrow> spaced (rw_alerts (alertOnce E runway sid ty w))"
  by (auto simp: alertOnce_def Let_def spaced_def recordAlert_def sorted_wrt_append wasAlertRecentlySent_def list_ex_iff
        DEDUPLICATION_WINDOW_HOURS_def not_le)

lemma checkStream_spaced: "spaced (rw_alerts w) \<Longrightarrow> spaced (rw_alerts (checkStream E r w))"
  by (auto simp: checkStream_def Let_def intro!: alertOnce_spaced split: prod.split sum.split)

lemma check_spaced: "spaced (rw_alerts w) \<Longrightarrow> spaced (rw_alerts (runStreamRunwayCheck E rows w))"
proof -
  have "spaced (rw_alerts (fold (checkStream E) rs w))" if "spaced (rw_alerts w)" for rs
    using that by (induction rs arbitrary: w) (simp_all add: checkStream_spaced)
  then show "spaced (rw_alerts w) \<Longrightarrow> ?thesis" by (simp add: runStreamRunwayCheck_def split: option.split)
qed

fun runChecks :: "(runway_env \<times> stream_row list option) list \<Rightarrow> runway_world \<Rightarrow> runway_world" where
  "runChecks [] w = w"
| "runChecks ((E, rows) # cs) w = runChecks cs (runStreamRunwayCheck E rows w)"

text \<open>Over any sequence of checks, two alerts of the same type about the same stream are more than
  24 hours apart.
\<close>
theorem alerts_spaced:
  assumes "rw_alerts w = []" "i < j" "j < length (rw_alerts (runChecks cs w))"
    and "al_streamId (rw_alerts (runChecks cs w) ! i) = al_streamId (rw_alerts (runChecks cs w) ! j)"
    and "al_alertType (rw_alerts (runChecks cs w) ! i) = al_alertType (rw_alerts (runChecks cs w) ! j)"
  shows "al_sentAt (rw_alerts (runChecks cs w) ! i) + 24 * 3600 * 1000 < al_sentAt (rw_alerts (runChecks cs w) ! j)"
proof -
  have "spaced (rw_alerts (runChecks cs w))" if "spaced (rw_alerts w)" for w
    using that by (induction cs w rule: runChecks.induct) (simp_all add: check_spaced)
  with assms(1) have "spaced (rw_alerts (runChecks cs w))" by (simp add: spaced_def)
  from sorted_wrt_nth_less [OF this [unfolded spaced_def] assms(2,3)] assms(4,5) show ?thesis by simp
qed

section \<open>The runway predicts the end of the funds\<close>

lemma claimable_linear:
  assumes "cs_isActive s" "\<not> cs_isPaused s" "0 \<le> t" "cs_lastUpdateTime s \<le> t" "0 \<le> k"
  shows "claimableSpec s (t + k) =
         max 0 (min ((elapsedAt s t + k) * amount (cs_ratePerSecond s)) (amount (cs_depositedAmount s) - amount (cs_withdrawnAmount s)))"
proof -
  have "elapsedAt s (t + k) = elapsedAt s t + k" using assms by (simp add: elapsedAt_alt Let_def)
  with assms(1) show ?thesis by (simp add: claimableSpec_def)
qed

lemma runway_arith:
  fixes e r l :: int
  assumes "0 \<le> e" "0 < r"
  defines "n \<equiv> (if 0 < l - max 0 (min (e * r) l) then (l - max 0 (min (e * r) l)) div r else 0)"
  shows "0 \<le> n" and "0 \<le> k \<Longrightarrow> k \<le> n \<Longrightarrow> max 0 (min ((e + k) * r) l) = max 0 (min (e * r) l) + k * r"
    and "max 0 (min ((e + (n + 1)) * r) l) = max 0 l"
proof -
  have er: "0 \<le> e * r" using assms by simp
  show n0: "0 \<le> n" using assms(2) by (simp add: n_def pos_imp_zdiv_nonneg_iff)
  show "max 0 (min ((e + k) * r) l) = max 0 (min (e * r) l) + k * r" if k: "0 \<le> k" "k \<le> n"
  proof (cases "0 < l - max 0 (min (e * r) l)")
    case True
    then have m: "max 0 (min (e * r) l) = e * r" and n: "n = (l - e * r) div r" using er by (auto simp: n_def max_def min_def)
    have "k * r \<le> n * r" using k(2) assms(2) by (simp add: mult_right_mono)
    also have "\<dots> \<le> l - e * r" unfolding n using assms(2) by (metis div_mod_decomp_int pos_mod_sign add_le_cancel_left le_add_same_cancel1)
    finally have "(e + k) * r \<le> l" by (simp add: distrib_right)
    moreover have "0 \<le> (e + k) * r" using assms(1,2) k(1) by simp
    ultimately show ?thesis by (simp add: m distrib_right)
  next
    case False
    with k have "k = 0" by (auto simp: n_def split: if_splits)
    then show ?thesis by simp
  qed
  show "max 0 (min ((e + (n + 1)) * r) l) = max 0 l"
  proof (cases "0 < l - max 0 (min (e * r) l)")
    case True
    then have n: "n = (l - e * r) div r" using er by (auto simp: n_def max_def min_def)
    have "l - e * r < (n + 1) * r"
    proof -
      have "l - e * r = n * r + (l - e * r) mod r" by (simp add: n)
      moreover have "(n + 1) * r = n * r + r" by (simp add: distrib_right)
      ultimately show ?thesis using pos_mod_bound [OF assms(2), of "l - e * r"] by linarith
    qed
    then show ?thesis by (simp add: distrib_right)
  next
    case False
    then have "n = 0" "l \<le> e * r" using er by (auto simp: n_def max_def min_def split: if_splits)
    with assms(2) have "l \<le> (e + (n + 1)) * r" by (simp add: distrib_right)
    then show ?thesis by (simp add: min_def)
  qed
qed

lemma runway_safe:
  fixes l r d :: int
  assumes "0 < r" "l \<le> MAX_SAFE_INTEGER * r" "0 < l"
  shows "isSafeInteger (l div r)"
proof -
  have "0 \<le> l div r" using assms by (simp add: pos_imp_zdiv_nonneg_iff)
  moreover have "l div r \<le> MAX_SAFE_INTEGER * r div r" using assms by (intro zdiv_mono1) simp_all
  ultimately show ?thesis using assms(1) by (simp add: isSafeInteger_def)
qed

lemma runway_value:
  assumes "serviceCache c" "wf_claimable (runwayState r)"
  defines "l \<equiv> amount (depositedAmount r) - amount (withdrawnAmount r)"
  obtains runway t where "fst (calculateStreamRunway ttl nowMs wall r now c) = Inr runway" "cacheKeyBucket t = cacheKeyBucket now"
    "rc_remainingRunwaySeconds runway =
       (if 0 < amount (ratePerSecond r) \<and> 0 < l - claimableSpec (runwayState r) t
        then toNumber ((l - claimableSpec (runwayState r) t) div amount (ratePerSecond r)) else 0)"
    "serviceCache (snd (calculateStreamRunway ttl nowMs wall r now c))"
proof -
  let ?s = "runwayState r"
  obtain v cached at' t where run: "fst (getClaimableAmount ttl nowMs wall ?s (Some now) c) = Inr (v, cached, at')"
    and t: "cacheKeyBucket t = cacheKeyBucket now" "cv_claimableAmount v = toString (claimableSpec ?s t)"
    and c: "serviceCache (snd (getClaimableAmount ttl nowMs wall ?s (Some now) c))"
    using cached_answer [OF assms(1,2), where t = now and requestedAt = "Some now" and ttl = ttl and nowMs = nowMs and wall = wall] by auto
  have wf: "is_amount (ratePerSecond r)" "is_amount (depositedAmount r)" "is_amount (withdrawnAmount r)"
    using assms(2) by (simp_all add: wf_claimable_def runwayState_def claimState_def)
  show thesis
  proof (rule that)
    show "fst (calculateStreamRunway ttl nowMs wall r now c) =
        Inr \<lparr>rc_streamId = streamId r, rc_remainingRunwaySeconds =
            (if 0 < amount (ratePerSecond r) \<and> 0 < l - claimableSpec ?s t then toNumber ((l - claimableSpec ?s t) div amount (ratePerSecond r)) else 0),
          rc_unclaimedBalance = l, rc_claimableNow = claimableSpec ?s t, rc_sender = sender r, rc_recipient = recipient r\<rparr>"
      using run t(2) is_amount_BigInt [OF wf(1)] is_amount_BigInt [OF wf(2)] is_amount_BigInt [OF wf(3)]
      by (auto simp: calculateStreamRunway_def of_opt_def Let_def l_def split: prod.splits)
    show "serviceCache (snd (calculateStreamRunway ttl nowMs wall r now c))"
      using c by (auto simp: calculateStreamRunway_def split: prod.splits sum.splits)
  qed (simp_all add: t)
qed

text \<open>C29. For an active, unpaused stream the runway is exact: counted from the second at which the
  claimable amount was computed (at most four seconds from the check, because of the cache), the
  claimable amount grows by the full rate for that many seconds and has reached everything
  that is left one second later.
\<close>
theorem runway_predicts_depletion:
  assumes "serviceCache c" "wf_claimable (runwayState r)" "isActive r" "\<not> isPaused r" "0 < amount (ratePerSecond r)"
    and "4 \<le> now" "lastUpdateTime r + 4 \<le> now" "amount (depositedAmount r) \<le> MAX_SAFE_INTEGER * amount (ratePerSecond r)"
  shows "\<exists>runway t. fst (calculateStreamRunway ttl nowMs wall r now c) = Inr runway \<and> \<bar>t - now\<bar> \<le> 4 \<and>
     (\<forall>k. 0 \<le> k \<longrightarrow> k \<le> rc_remainingRunwaySeconds runway \<longrightarrow>
        claimableSpec (runwayState r) (t + k) = claimableSpec (runwayState r) t + k * amount (ratePerSecond r)) \<and>
     claimableSpec (runwayState r) (t + (rc_remainingRunwaySeconds runway + 1)) = max 0 (amount (depositedAmount r) - amount (withdrawnAmount r))"
proof -
  let ?s = "runwayState r" and ?r = "amount (ratePerSecond r)" and ?d = "amount (depositedAmount r)" and ?w = "amount (withdrawnAmount r)"
  let ?l = "?d - ?w"
  obtain runway t where run: "fst (calculateStreamRunway ttl nowMs wall r now c) = Inr runway" "cacheKeyBucket t = cacheKeyBucket now"
    "rc_remainingRunwaySeconds runway = (if 0 < ?r \<and> 0 < ?l - claimableSpec ?s t then toNumber ((?l - claimableSpec ?s t) div ?r) else 0)"
    using runway_value [OF assms(1,2)] by blast
  have near: "\<bar>t - now\<bar> \<le> 4" by (rule same_bucket_close [OF run(2)])
  let ?n = "if 0 < ?l - claimableSpec ?s t then (?l - claimableSpec ?s t) div ?r else 0"
  have sel: "cs_isActive ?s" "\<not> cs_isPaused ?s" "cs_lastUpdateTime ?s = lastUpdateTime r" "cs_ratePerSecond ?s = ratePerSecond r"
    "cs_depositedAmount ?s = depositedAmount r" "cs_withdrawnAmount ?s = withdrawnAmount r"
    using assms(3,4) by (simp_all add: runwayState_def claimState_def)
  have w0: "0 \<le> ?w" using assms(2) by (simp add: wf_claimable_def sel)
  have lin: "claimableSpec ?s (t + k) = max 0 (min ((elapsedAt ?s t + k) * ?r) ?l)" if "0 \<le> k" for k
    using claimable_linear [OF sel(1,2) _ _ that] near assms(6,7) by (simp add: sel)
  note now_spec = lin [of 0, simplified]
  note ar = runway_arith [OF elapsedAt_nonneg [of ?s t] assms(5), where l = ?l, folded now_spec]
  have n: "0 \<le> ?n" by (rule ar(1))
  have lt: "?l - claimableSpec ?s t \<le> MAX_SAFE_INTEGER * ?r" using assms(8) w0 by (simp add: now_spec)
  have rem: "rc_remainingRunwaySeconds runway = ?n"
    using run(3) assms(5) toNumber_safe [OF runway_safe [OF assms(5) lt]] by simp
  have "claimableSpec ?s (t + k) = claimableSpec ?s t + k * ?r" if "0 \<le> k" "k \<le> ?n" for k
    using ar(2) [OF that] lin [OF that(1)] by simp
  moreover have "claimableSpec ?s (t + (?n + 1)) = max 0 ?l"
    using ar(3) lin [of "?n + 1"] n by simp
  ultimately show ?thesis using near run(1) by (intro exI [of _ runway] exI [of _ t]) (simp only: rem, blast)
qed

section \<open>Alerts reach third parties\<close>

lemma alert_leaks_to_counterparty_facts:
  assumes "rc_sender runway = sender r" "recipient r \<noteq> rc_sender runway" "recipient r \<noteq> rc_recipient runway"
    and "rw_sse w = reg (oneClient (sender r) r)" "rn_redis E = False" "rn_io E = quietIo"
  shows "sse_reach b (oneClient (sender r) r)"
    and "\<exists>c. c \<in> set (clients (rw_sse w)) \<and> cl_userId c = Some (recipient r) \<and>
             (cl_id c, sseMessage ''STREAM_LOW_BALANCE'' (alertData E runway ty)) \<in> set (written (rw_sse (sendLowBalanceAlert E runway ty w)))"
proof -
  show "sse_reach b (oneClient (sender r) r)" by (rule oneClient_reach)
  obtain c where c: "clients (rw_sse w) = [c]" "cl_userId c = Some (recipient r)" "cl_paused c = False" "wantsUser (sender r) c"
    unfolding assms(4) oneClient_clients by (auto simp: wantsUser_def)
  have sent: "written (rw_sse (sendLowBalanceAlert E runway ty w)) =
      written (localBroadcastToStream quietIo (toString (rc_streamId runway)) ''STREAM_LOW_BALANCE'' (alertData E runway ty)
        (localBroadcastToUser quietIo (rc_recipient runway) ''STREAM_LOW_BALANCE'' (alertData E runway ty)
          (localBroadcastToUser quietIo (sender r) ''STREAM_LOW_BALANCE'' (alertData E runway ty) (rw_sse w))))"
    using assms by (simp add: sendLowBalanceAlert_def broadcastToUser_def broadcastToStream_def Let_def)
  have "receives quietIo c" using c(3) by (simp add: receives_def quietIo_def)
  then show "\<exists>c. c \<in> set (clients (rw_sse w)) \<and> cl_userId c = Some (recipient r) \<and>
             (cl_id c, sseMessage ''STREAM_LOW_BALANCE'' (alertData E runway ty)) \<in> set (written (rw_sse (sendLowBalanceAlert E runway ty w)))"
    unfolding sent using c by (intro exI [of _ c]) (simp add: stream_broadcast_delivery user_broadcast_delivery)
qed

text \<open>The alert about a stream goes to the channels of its sender and its recipient. A wallet may
  subscribe to the channel of every wallet it shares a stream with, so it receives the alerts
  about that wallet's other streams, to which it is not a party.
\<close>
theorem alert_leaks_to_counterparty:
  assumes "rc_sender runway = sender r" "recipient r \<noteq> rc_sender runway" "recipient r \<noteq> rc_recipient runway"
    and "rw_sse w = reg (oneClient (sender r) r)" "rn_redis E = False" "rn_io E = quietIo"
  shows "sse_reach b (oneClient (sender r) r) \<and>
    (\<exists>c. c \<in> set (clients (rw_sse w)) \<and> cl_userId c = Some (recipient r) \<and>
         (cl_id c, sseMessage ''STREAM_LOW_BALANCE'' (alertData E runway ty)) \<in> set (written (rw_sse (sendLowBalanceAlert E runway ty w))))"
  using alert_leaks_to_counterparty_facts [OF assms] by blast

section \<open>Examples\<close>

definition exampleRunwayEnv :: "int \<Rightarrow> runway_env" where
  "exampleRunwayEnv t = \<lparr>rn_redis = False, rn_io = quietIo, rn_tenths = JNum, rn_nowMs = t, rn_isoTime = ''now'', rn_ttlMs = 5000\<rparr>"

definition exampleRunway :: RunwayCalculation where
  "exampleRunway = \<lparr>rc_streamId = 8, rc_remainingRunwaySeconds = 60, rc_unclaimedBalance = 10, rc_claimableNow = 0, rc_sender = ''G1'', rc_recipient = ''G3''\<rparr>"

definition emptyWorld :: runway_world where
  "emptyWorld = \<lparr>rw_sse = newSse None, rw_published = [], rw_alerts = [], rw_cache = newCache None None\<rparr>"

theorem alert_leaks_to_counterparty_witness:
  "\<exists>c. c \<in> set (clients (reg (oneClient ''G1'' exampleStream))) \<and> cl_userId c = Some ''G2'' \<and>
       (cl_id c, sseMessage ''STREAM_LOW_BALANCE'' (alertData (exampleRunwayEnv 0) exampleRunway CRITICAL_24H)) \<in>
       set (written (rw_sse (sendLowBalanceAlert (exampleRunwayEnv 0) exampleRunway CRITICAL_24H
         (emptyWorld\<lparr>rw_sse := reg (oneClient ''G1'' exampleStream)\<rparr>))))"
  using alert_leaks_to_counterparty [of exampleRunway exampleStream "emptyWorld\<lparr>rw_sse := reg (oneClient ''G1'' exampleStream)\<rparr>" "exampleRunwayEnv 0" False CRITICAL_24H]
  by (simp add: exampleRunway_def exampleStream_def exampleRunwayEnv_def)

lemma exampleStream_runway_wf: "wf_claimable (runwayState exampleStream)"
  using exampleStream_claim(1) by (simp add: wf_claimable_def runwayState_def)

theorem runway_predicts_depletion_witness:
  "\<exists>runway t. fst (calculateStreamRunway 5000 1720000 1720000 exampleStream 1720 (newCache None None)) = Inr runway \<and> \<bar>t - 1720\<bar> \<le> 4 \<and>
     claimableSpec (runwayState exampleStream) (t + (rc_remainingRunwaySeconds runway + 1)) = 1000"
proof -
  have f: "isActive exampleStream" "\<not> isPaused exampleStream" "amount (ratePerSecond exampleStream) = 10"
    "amount (depositedAmount exampleStream) = 1000" "amount (withdrawnAmount exampleStream) = 0" "lastUpdateTime exampleStream = 1700"
    using amount_toString [of 10] amount_toString [of 1000] amount_toString [of 0] by (simp_all add: exampleStream_def)
  from runway_predicts_depletion [OF serviceCache_new exampleStream_runway_wf f(1,2), where now = 1720 and ttl = 5000 and nowMs = 1720000 and wall = 1720000]
  show ?thesis by (fastforce simp: f MAX_SAFE_INTEGER_def)
qed

definition exampleChecks :: "(runway_env \<times> stream_row list option) list" where
  "exampleChecks = [(exampleRunwayEnv 1720000, Some [exampleStream]), (exampleRunwayEnv 5320000, Some [exampleStream]),
                    (exampleRunwayEnv 91720000, Some [exampleStream])]"

lemma exampleStream_amounts:
  "amount (ratePerSecond exampleStream) = 10" "amount (depositedAmount exampleStream) = 1000" "amount (withdrawnAmount exampleStream) = 0"
  using amount_toString [of 10] amount_toString [of 1000] amount_toString [of 0] by (simp_all add: exampleStream_def)

lemma exampleStream_critical:
  assumes "serviceCache c"
  obtains runway where "fst (calculateStreamRunway ttl nowMs wall exampleStream now c) = Inr runway"
    "rc_remainingRunwaySeconds runway \<le> 86400" "serviceCache (snd (calculateStreamRunway ttl nowMs wall exampleStream now c))"
proof (rule runway_value [OF assms exampleStream_runway_wf, of ttl nowMs wall now])
  fix runway t
  assume run: "fst (calculateStreamRunway ttl nowMs wall exampleStream now c) = Inr runway"
    "serviceCache (snd (calculateStreamRunway ttl nowMs wall exampleStream now c))"
    and rem: "rc_remainingRunwaySeconds runway = (if 0 < amount (ratePerSecond exampleStream) \<and>
         0 < amount (depositedAmount exampleStream) - amount (withdrawnAmount exampleStream) - claimableSpec (runwayState exampleStream) t
       then toNumber ((amount (depositedAmount exampleStream) - amount (withdrawnAmount exampleStream) - claimableSpec (runwayState exampleStream) t)
              div amount (ratePerSecond exampleStream)) else 0)"
  let ?x = "1000 - claimableSpec (runwayState exampleStream) t"
  have "0 \<le> claimableSpec (runwayState exampleStream) t" by (simp add: claimableSpec_def)
  then have x: "?x \<le> 1000" by simp
  have "toNumber (?x div 10) \<le> 86400" if "0 < ?x"
  proof -
    have q: "0 \<le> ?x div 10" "?x div 10 \<le> 100" using that x by linarith+
    then have "isSafeInteger (?x div 10)" by (simp add: isSafeInteger_def MAX_SAFE_INTEGER_def)
    with q show ?thesis by (simp add: toNumber_safe)
  qed
  with rem have "rc_remainingRunwaySeconds runway \<le> 86400" by (simp add: exampleStream_amounts)
  with run show thesis by (intro that)
qed

lemma exampleStream_check:
  assumes "serviceCache (rw_cache w)"
  shows "rw_alerts (runStreamRunwayCheck E (Some [exampleStream]) w) =
           (if wasAlertRecentlySent (rn_nowMs E) 7 CRITICAL_24H (rw_alerts w) then rw_alerts w
            else recordAlert (rn_nowMs E) 7 CRITICAL_24H (rw_alerts w))"
    and "serviceCache (rw_cache (runStreamRunwayCheck E (Some [exampleStream]) w))"
proof -
  from assms obtain runway where "fst (calculateStreamRunway (rn_ttlMs E) (rn_nowMs E) (rn_nowMs E) exampleStream (rn_nowMs E div 1000) (rw_cache w)) = Inr runway"
    "rc_remainingRunwaySeconds runway \<le> 86400"
    "serviceCache (snd (calculateStreamRunway (rn_ttlMs E) (rn_nowMs E) (rn_nowMs E) exampleStream (rn_nowMs E div 1000) (rw_cache w)))"
    by (rule exampleStream_critical)
  moreover have "isActive exampleStream" "\<not> isPaused exampleStream" "streamId exampleStream = 7" by (simp_all add: exampleStream_def)
  moreover have "rw_cache (sendLowBalanceAlert E runway ty v) = rw_cache v" for ty v
    by (simp add: sendLowBalanceAlert_def Let_def split: prod.split)
  ultimately show "rw_alerts (runStreamRunwayCheck E (Some [exampleStream]) w) =
           (if wasAlertRecentlySent (rn_nowMs E) 7 CRITICAL_24H (rw_alerts w) then rw_alerts w
            else recordAlert (rn_nowMs E) 7 CRITICAL_24H (rw_alerts w))"
    "serviceCache (rw_cache (runStreamRunwayCheck E (Some [exampleStream]) w))"
    by (auto simp: runStreamRunwayCheck_def checkStream_def alertOnce_def Let_def CRITICAL_THRESHOLD_HOURS_def split: prod.splits)
qed

lemma exampleChecks_alerts:
  "rw_alerts (runChecks exampleChecks emptyWorld) =
   [\<lparr>al_streamId = 7, al_alertType = CRITICAL_24H, al_sentAt = 1720000\<rparr>, \<lparr>al_streamId = 7, al_alertType = CRITICAL_24H, al_sentAt = 91720000\<rparr>]"
proof -
  have start: "rw_alerts emptyWorld = []" "serviceCache (rw_cache emptyWorld)" by (simp_all add: emptyWorld_def serviceCache_new)
  have clock: "rn_nowMs (exampleRunwayEnv t) = t" for t by (simp add: exampleRunwayEnv_def)
  show ?thesis
    unfolding exampleChecks_def
    by (simp add: exampleStream_check start clock wasAlertRecentlySent_def recordAlert_def DEDUPLICATION_WINDOW_HOURS_def)
qed

theorem alerts_spaced_witness:
  "al_sentAt (rw_alerts (runChecks exampleChecks emptyWorld) ! 0) + 24 * 3600 * 1000 < al_sentAt (rw_alerts (runChecks exampleChecks emptyWorld) ! 1)"
  by (rule alerts_spaced) (simp_all add: exampleChecks_alerts, simp add: emptyWorld_def)

end
