(* ===== verification/Amounts.thy ===== *)
theory Amounts
  imports Js_Values
begin

text \<open>
  Token amounts between their smallest unit and the text a user reads or types:
  \<open>frontend/src/utils/amount.ts\<close>. Amounts are unbounded integers, division truncates towards 0.
  The abbreviations with K, M and B (floating point) and the contract call behind
  \<open>fetchTokenDecimals\<close> are represented by the outcome of that call.
\<close>

section \<open>Formatting\<close>

definition stripZeros :: "string \<Rightarrow> string" where
  "stripZeros s = rev (dropWhile (\<lambda>c. c = CHR ''0'') (rev s))"

definition formatAmount :: "int \<Rightarrow> nat \<Rightarrow> string" where
  "formatAmount raw decimals =
     (if raw = 0 then ''0''
      else if decimals = 0 then toString raw
      else let factor = 10 ^ decimals;
               integerPart = raw sdiv factor;
               fractionalPart = raw smod factor;
               fractionalStr = padStart (toString fractionalPart) decimals CHR ''0'';
               trimmedFractional = stripZeros fractionalStr
           in if trimmedFractional = [] then toString integerPart else toString integerPart @ ''.'' @ trimmedFractional)"

definition streamProgressPercent :: "int \<Rightarrow> int \<Rightarrow> int" where
  "streamProgressPercent withdrawn deposited =
     (if deposited = 0 then (if 0 < withdrawn then 100 else 0) else min 100 (toNumber ((withdrawn * 100) sdiv deposited)))"

definition fromStroops :: "int \<Rightarrow> nat \<Rightarrow> string" where
  "fromStroops amt decimals = formatAmount amt decimals"

definition formatRate :: "int \<Rightarrow> nat \<Rightarrow> string \<Rightarrow> string" where
  "formatRate ratePerSec decimals symbol =
     (if ratePerSec = 0 then (if symbol \<noteq> [] then ''0 '' @ symbol @ ''/sec'' else ''0/sec'')
      else let perSecond = formatAmount ratePerSec decimals;
               perDay = formatAmount (ratePerSec * 86400) decimals;
               symbolStr = (if symbol \<noteq> [] then CHR '' '' # symbol else [])
           in perSecond @ symbolStr @ ''/sec ('' @ perDay @ symbolStr @ ''/day)'')"

definition formatStreamRate :: "int \<Rightarrow> nat \<Rightarrow> string \<Rightarrow> string" where
  "formatStreamRate ratePerSecond decimals tokenSymbol = formatRate ratePerSecond decimals tokenSymbol"

definition truncateAmount :: "int \<Rightarrow> nat \<Rightarrow> nat \<Rightarrow> string" where
  "truncateAmount amt decimals maxDisplayDecimals =
     (if amt = 0 then ''0''
      else let factor = 10 ^ decimals;
               integerPart = amt sdiv factor;
               fractionalPart = amt smod factor
           in if fractionalPart = 0 then toString integerPart
              else let fractionalStr = padStart (toString fractionalPart) decimals CHR ''0'';
                       trimmedFractional = stripZeros (take maxDisplayDecimals fractionalStr)
                   in if trimmedFractional = [] then toString integerPart else toString integerPart @ ''.'' @ trimmedFractional)"

section \<open>Parsing\<close>

text \<open>\<open>/^\d*\.?\d*$/.test(s)\<close>.\<close>

definition decimalText :: "string \<Rightarrow> bool" where
  "decimalText s =
     (case js_split CHR ''.'' s of
        [a] \<Rightarrow> list_all is_digit a
      | [a, b] \<Rightarrow> list_all is_digit a \<and> list_all is_digit b
      | _ \<Rightarrow> False)"

definition parseAmount :: "string \<Rightarrow> nat \<Rightarrow> int result" where
  "parseAmount display decimals =
     (let trimmed = trim display in
      if trimmed = [] then Inr 0
      else if \<not> decimalText trimmed then Inr 0
      else let parts = js_split CHR ''.'' trimmed;
               integerPart = (if hd parts = [] then ''0'' else hd parts);
               frac = (case tl parts of [] \<Rightarrow> [] | f # _ \<Rightarrow> f);
               fractionalPart = (if decimals < length frac then take decimals frac
                                 else if length frac < decimals then padEnd frac decimals CHR ''0'' else frac)
           in bindE (of_opt SyntaxError (BigInt integerPart)) (\<lambda>i.
              bindE (of_opt SyntaxError (BigInt fractionalPart)) (\<lambda>f. Inr (i * 10 ^ decimals + f))))"

definition toStroops :: "string \<Rightarrow> nat \<Rightarrow> int result" where
  "toStroops amt decimals = parseAmount amt decimals"

definition hasValidPrecision :: "string \<Rightarrow> nat \<Rightarrow> bool" where
  "hasValidPrecision input decimals =
     (let cleanInput = trim input in
      if cleanInput = [] then True
      else if \<not> decimalText cleanInput then False
      else if startsWith cleanInput ''-'' then False
      else if CHR ''.'' \<in> set cleanInput
           then (let fractionalPart = js_split CHR ''.'' cleanInput ! 1 in fractionalPart \<noteq> [] \<longrightarrow> length fractionalPart \<le> decimals)
           else True)"

text \<open>
  Of \<open>parseFloat\<close> only the sign matters: a text of digits and a point is not a number when it has no
  digit, and positive when one of its digits is not 0.
\<close>

definition validateAmountInput :: "string \<Rightarrow> nat \<Rightarrow> string option" where
  "validateAmountInput input decimals =
     (let cleanInput = trim input in
      if cleanInput = [] then Some ''Amount is required''
      else if \<not> decimalText cleanInput then Some ''Please enter a valid number''
      else if \<not> hasValidPrecision cleanInput decimals
           then Some (''Amount cannot have more than '' @ nat_toString decimals @ '' decimal places'')
      else if \<not> list_ex (\<lambda>c. is_digit c \<and> c \<noteq> CHR ''0'') cleanInput then Some ''Amount must be greater than 0''
      else None)"

section \<open>Decimals of a token\<close>

type_synonym decimals_cache = "string \<rightharpoonup> int"

definition getCachedTokenDecimals :: "string \<Rightarrow> decimals_cache \<Rightarrow> int option" where
  "getCachedTokenDecimals tokenAddress c = c tokenAddress"

definition setCachedTokenDecimals :: "string \<Rightarrow> int \<Rightarrow> decimals_cache \<Rightarrow> decimals_cache" where
  "setCachedTokenDecimals tokenAddress decimals c = c(tokenAddress \<mapsto> decimals)"

definition clearTokenDecimalsCache :: "decimals_cache \<Rightarrow> decimals_cache" where
  "clearTokenDecimalsCache c = Map.empty"

definition getDefaultTokenDecimals :: "string \<Rightarrow> int" where
  "getDefaultTokenDecimals symbol =
     (case map_of [(''XLM'', 7), (''USDC'', 7), (''EURC'', 7), (''FLOW'', 7)] (map upper_char symbol) of None \<Rightarrow> 7 | Some n \<Rightarrow> n)"

datatype decimals_call = CallThrows | CallError | NoValue | NumberValue int | BigintValue int | StringValue string | OtherValue

text \<open>A text without a leading number gives NaN, here \<open>None\<close>, and is cached as such.\<close>

definition fetchTokenDecimals :: "decimals_call \<Rightarrow> string \<Rightarrow> (string \<rightharpoonup> int option) \<Rightarrow> int option \<times> (string \<rightharpoonup> int option)" where
  "fetchTokenDecimals call tokenAddress c =
     (case c tokenAddress of
        Some cached \<Rightarrow> (cached, c)
      | None \<Rightarrow>
          (let v = (case call of CallThrows \<Rightarrow> Some 7 | CallError \<Rightarrow> Some 7 | NoValue \<Rightarrow> Some 7 | NumberValue n \<Rightarrow> Some n
                    | BigintValue n \<Rightarrow> Some (toNumber n) | StringValue s \<Rightarrow> parseInt10 s | OtherValue \<Rightarrow> Some 7)
           in (v, c(tokenAddress \<mapsto> v))))"

definition getTokenDecimalsSync :: "string \<Rightarrow> (string \<rightharpoonup> int option) \<Rightarrow> int option" where
  "getTokenDecimalsSync tokenAddress c = (case c tokenAddress of Some v \<Rightarrow> v | None \<Rightarrow> Some 7)"

section \<open>Digits\<close>

definition digitsVal :: "string \<Rightarrow> nat" where
  "digitsVal s = foldl (\<lambda>a c. a * 10 + (code c - 48)) 0 s"

lemma foldl_digits: "foldl (\<lambda>a c. a * 10 + (code c - 48)) a s = a * 10 ^ length s + digitsVal s"
proof (induction s arbitrary: a)
  case (Cons c s)
  have "digitsVal (c # s) = (code c - 48) * 10 ^ length s + digitsVal s"
    using Cons [of "code c - 48"] by (simp add: digitsVal_def)
  then show ?case using Cons [of "a * 10 + (code c - 48)"] by (simp add: distrib_right)
qed (simp add: digitsVal_def)

lemma digitsVal_append: "digitsVal (s @ t) = digitsVal s * 10 ^ length t + digitsVal t"
  using foldl_digits [of "digitsVal s" t] by (simp add: digitsVal_def)

lemma digitsVal_simps [simp]: "digitsVal [] = 0" "digitsVal (replicate k CHR ''0'') = 0" "digitsVal ''0'' = 0"
proof -
  show "digitsVal (replicate k CHR ''0'') = 0"
    by (induction k) (simp_all add: digitsVal_def code_def)
qed (simp_all add: digitsVal_def code_def)

lemma parse_digits: "list_all is_digit s \<Longrightarrow> parse_radix_acc 10 a s = Some (a * 10 ^ length s + digitsVal s)"
proof (induction s arbitrary: a)
  case (Cons c s)
  then show ?case
    using foldl_digits [of a "c # s"] foldl_digits [of "a * 10 + (code c - 48)" s] by (simp add: radix_val_digit)
qed simp

lemma BigInt_digitsVal: "list_all is_digit s \<Longrightarrow> BigInt s = Some (int (digitsVal s))"
proof (cases "s = []")
  case True
  then show ?thesis by (simp add: BigInt_def trim_def)
qed (simp add: BigInt_digits parse_digits)

lemma toString_digits: "0 \<le> n \<Longrightarrow> list_all is_digit (toString n)"
  by (simp add: toString_def nat_toString_digits)

lemma digitsVal_toString: "0 \<le> n \<Longrightarrow> int (digitsVal (toString n)) = n"
  using BigInt_digitsVal [OF toString_digits, of n] BigInt_toString [of n] by (simp only: option.inject)

lemma nat_toString_length: "m < 10 ^ d \<Longrightarrow> 0 < d \<Longrightarrow> length (nat_toString m) \<le> d"
proof (induction d arbitrary: m)
  case (Suc d)
  show ?case
  proof (cases "m < 10")
    case True
    then show ?thesis by (simp add: nat_toString.simps [of m])
  next
    case False
    with Suc.prems have "m div 10 < 10 ^ d" "0 < d" by (auto simp: less_mult_imp_div_less intro: gr0I)
    with Suc.IH [of "m div 10"] False show ?thesis by (simp add: nat_toString.simps [of m])
  qed
qed simp

lemma stripZeros_split: "\<exists>k. s = stripZeros s @ replicate k CHR ''0''"
proof -
  let ?P = "\<lambda>c. c = CHR ''0''"
  have "rev s = takeWhile ?P (rev s) @ dropWhile ?P (rev s)" by simp
  moreover have "takeWhile ?P (rev s) = replicate (length (takeWhile ?P (rev s))) CHR ''0''"
    by (rule sym, rule replicate_length_same) (auto dest: set_takeWhileD)
  ultimately have "rev s = replicate (length (takeWhile ?P (rev s))) CHR ''0'' @ dropWhile ?P (rev s)" by metis
  from arg_cong [OF this, of rev] have "s = stripZeros s @ replicate (length (takeWhile ?P (rev s))) CHR ''0''"
    by (simp add: stripZeros_def)
  then show ?thesis ..
qed

lemma stripZeros_digits: "list_all is_digit s \<Longrightarrow> list_all is_digit (stripZeros s)"
  by (auto simp: stripZeros_def list_all_iff dest: set_dropWhileD)

section \<open>Round trip\<close>

lemma no_point_digits: "list_all is_digit s \<Longrightarrow> CHR ''.'' \<notin> set s"
  by (auto simp: list_all_iff is_digit_def code_def)

lemma digits_ws: "list_all is_digit s \<Longrightarrow> \<not> list_ex is_ws s"
  by (auto simp: list_all_iff list_ex_iff dest: not_ws_digit)

lemma trim_no_ws: "\<not> is_ws (hd s) \<Longrightarrow> \<not> is_ws (last s) \<Longrightarrow> s \<noteq> [] \<Longrightarrow> trim s = s"
proof -
  assume "\<not> is_ws (hd s)" "\<not> is_ws (last s)" "s \<noteq> []"
  then have "dropWhile is_ws s = s" "dropWhile is_ws (rev s) = rev s"
    by (simp_all add: dropWhile_eq_self_iff hd_rev)
  then show "trim s = s" by (simp add: trim_def)
qed

lemma toString_nonempty [simp]: "toString n \<noteq> []"
  by (simp add: toString_def)

text \<open>What is read from a whole part \<open>a\<close> and a fractional part \<open>b\<close>.\<close>

definition pointSplit :: "string \<Rightarrow> string \<Rightarrow> string \<Rightarrow> bool" where
  "pointSplit t a b = (js_split CHR ''.'' t = [a, b] \<or> js_split CHR ''.'' t = [a] \<and> b = [])"

lemma decimalText_split: "decimalText t \<Longrightarrow> \<exists>a b. pointSplit t a b \<and> list_all is_digit a \<and> list_all is_digit b"
  by (auto simp: decimalText_def pointSplit_def split: list.splits)

lemma parse_text:
  assumes "trim s \<noteq> []" "pointSplit (trim s) a b" "list_all is_digit a" "list_all is_digit b"
  shows "parseAmount s d = Inr (int (digitsVal a * 10 ^ d + digitsVal (take d b) * 10 ^ (d - length b)))"
proof -
  let ?i = "if a = [] then ''0'' else a"
  let ?f = "if d < length b then take d b else if length b < d then padEnd b d CHR ''0'' else b"
  have i: "list_all is_digit ?i" "digitsVal ?i = digitsVal a"
    using assms(3) by (simp_all add: is_digit_def code_def)
  have f: "list_all is_digit ?f" "digitsVal ?f = digitsVal (take d b) * 10 ^ (d - length b)"
    using assms(4) by (auto simp: padEnd_def list_all_iff digitsVal_append is_digit_def code_def dest: in_set_takeD)
  have "decimalText (trim s)" using assms(2-4) by (auto simp: decimalText_def pointSplit_def)
  then have "parseAmount s d = bindE (of_opt SyntaxError (BigInt ?i)) (\<lambda>i. bindE (of_opt SyntaxError (BigInt ?f)) (\<lambda>f. Inr (i * 10 ^ d + f)))"
    using assms(1,2) by (auto simp: parseAmount_def Let_def pointSplit_def)
  then show ?thesis unfolding BigInt_digitsVal [OF i(1)] BigInt_digitsVal [OF f(1)] i(2) f(2) by (simp add: of_opt_def)
qed

lemma parse_parts:
  assumes "list_all is_digit a" "list_all is_digit b" "a \<noteq> []" "b \<noteq> []" "length b \<le> d"
  shows "parseAmount (a @ ''.'' @ b) d = Inr (int (digitsVal a * 10 ^ d + digitsVal b * 10 ^ (d - length b)))"
proof -
  have "\<not> is_ws (hd a)" "\<not> is_ws (last b)"
    using assms hd_in_set [of a] last_in_set [of b] by (auto simp: list_all_iff dest: not_ws_digit)
  then have t: "trim (a @ ''.'' @ b) = a @ ''.'' @ b"
    using assms(3,4) by (intro trim_no_ws) auto
  have "pointSplit (a @ ''.'' @ b) a b"
    using no_point_digits [OF assms(1)] no_point_digits [OF assms(2)] by (simp add: pointSplit_def js_split_append js_split_no_sep)
  with parse_text [of "a @ ''.'' @ b" a b d] t assms show ?thesis by simp
qed

lemma parse_whole:
  assumes "list_all is_digit a" "a \<noteq> []"
  shows "parseAmount a d = Inr (int (digitsVal a * 10 ^ d))"
  using parse_text [of a a "[]" d] assms no_point_digits [OF assms(1)] by (simp add: trim_digits pointSplit_def js_split_no_sep)

text \<open>C19. Formatting a non-negative amount and parsing the text again gives the amount, for every
  number of decimals.
\<close>
theorem amount_roundtrip:
  assumes "0 \<le> n"
  shows "parseAmount (formatAmount n d) d = Inr n"
proof (cases "n = 0 \<or> d = 0")
  case True
  then show ?thesis
    using parse_whole [of "''0''" d] parse_whole [OF toString_digits [OF assms], of 0] digitsVal_toString [OF assms]
    by (auto simp: formatAmount_def is_digit_def code_def)
next
  case False
  let ?f = "(10::int) ^ d"
  let ?q = "n div ?f" and ?m = "n mod ?f"
  have q: "0 \<le> ?q" "0 \<le> ?m" "?m < ?f" using assms by (simp_all add: pos_imp_zdiv_nonneg_iff)
  have sd: "n sdiv ?f = ?q" "n smod ?f = ?m"
    using assms by (simp_all add: signed_divide_int_def signed_modulo_int_def sgn_if minus_div_mult_eq_mod [symmetric])
  let ?s = "padStart (toString ?m) d CHR ''0''"
  have "nat ?m < 10 ^ d" using q by (simp add: nat_less_iff)
  moreover have "toString ?m = nat_toString (nat ?m)" using q(2) by (simp only: toString_def not_less [symmetric] if_False)
  ultimately have len: "length ?s = d"
    using nat_toString_length [of "nat ?m" d] False by (simp add: padStart_def)
  have val: "int (digitsVal ?s) = ?m"
    using digitsVal_toString [OF q(2)] by (simp add: padStart_def digitsVal_append)
  have dig: "list_all is_digit ?s" using toString_digits [OF q(2)] by (auto simp: padStart_def list_all_iff is_digit_def code_def)
  obtain k where k: "?s = stripZeros ?s @ replicate k CHR ''0''" using stripZeros_split by blast
  let ?t = "stripZeros ?s"
  from k len have kd: "length ?t \<le> d" "k = d - length ?t" by (metis le_add1 length_append, metis add_diff_cancel_left' length_append length_replicate)
  have tv: "int (digitsVal ?t * 10 ^ (d - length ?t)) = ?m"
    using val arg_cong [OF k, of digitsVal] kd(2) by (simp add: digitsVal_append)
  have qs: "toString ?q \<noteq> []" "list_all is_digit (toString ?q)" using q toString_digits by (simp_all add: toString_def)
  have fmt: "formatAmount n d = (if ?t = [] then toString ?q else toString ?q @ ''.'' @ ?t)"
    using False by (simp add: formatAmount_def sd Let_def)
  show ?thesis
  proof (cases "?t = []")
    case True
    with tv have "?m = 0" by simp
    with parse_whole [OF qs(2,1), of d] digitsVal_toString [OF q(1)] True show ?thesis
      using div_mult_mod_eq [of n ?f] by (simp add: fmt)
  next
    case t: False
    from parse_parts [OF qs(2) stripZeros_digits [OF dig] qs(1) t kd(1)] digitsVal_toString [OF q(1)] tv t show ?thesis
      using div_mult_mod_eq [of n ?f] by (simp add: fmt)
  qed
qed

theorem amount_roundtrip_witness: "parseAmount (formatAmount 105000000 7) 7 = Inr 105000000"
  by (rule amount_roundtrip) simp

section \<open>What users type\<close>

text \<open>Parsing never throws and never gives a negative amount, whatever is typed.\<close>
theorem parse_total: "\<exists>n. parseAmount s d = Inr (int n)"
proof (cases "trim s = [] \<or> \<not> decimalText (trim s)")
  case True
  then have "parseAmount s d = Inr (int 0)" by (auto simp: parseAmount_def Let_def)
  then show ?thesis ..
next
  case False
  then show ?thesis using decimalText_split [of "trim s"] parse_text [of s] by metis
qed

lemma digitsVal_pos: "list_all is_digit s \<Longrightarrow> list_ex (\<lambda>c. c \<noteq> CHR ''0'') s \<Longrightarrow> 0 < digitsVal s"
proof (induction s)
  case (Cons c s)
  have "digitsVal (c # s) = (code c - 48) * 10 ^ length s + digitsVal s"
    using digitsVal_append [of "[c]" s] by (simp add: digitsVal_def)
  moreover have "c \<noteq> CHR ''0'' \<Longrightarrow> 48 < code c"
  proof -
    assume "c \<noteq> CHR ''0''"
    then have "code c \<noteq> code CHR ''0''" by (simp only: code_def of_char_eq_iff not_False_eq_True)
    with Cons.prems(1) show "48 < code c" by (simp add: is_digit_def code_def)
  qed
  ultimately show ?case using Cons by auto
qed simp

lemma js_split_join: "js_split sep s = ws \<Longrightarrow> join [sep] ws = s"
proof (induction s arbitrary: ws)
  case (Cons c s)
  show ?case
  proof (cases "js_split sep s")
    case (Cons w ws')
    with Cons.IH [of "w # ws'"] Cons.prems show ?thesis by (cases ws') auto
  qed simp
qed simp

lemma trim_trim: "trim (trim s) = trim s"
proof (cases "trim s = []")
  case False
  show ?thesis
  proof (rule trim_no_ws)
    show "\<not> is_ws (last (trim s))" using False hd_dropWhile [of is_ws "rev (dropWhile is_ws s)"] by (simp add: trim_def last_rev)
    have "dropWhile is_ws s \<noteq> []"
    proof
      assume "dropWhile is_ws s = []"
      with False show False by (simp add: trim_def del: dropWhile_eq_Nil_conv)
    qed
    then have h: "\<not> is_ws (hd (dropWhile is_ws s))" by (rule hd_dropWhile)
    obtain k where "dropWhile is_ws s = trim s @ k"
      unfolding trim_def by (metis rev_append rev_rev_ident takeWhile_dropWhile_id)
    with h False show "\<not> is_ws (hd (trim s))" by simp
  qed (fact False)
next
  case True
  have "trim [] = []" by (simp add: trim_def)
  with True show ?thesis by simp
qed

text \<open>
  An input the form accepts is read exactly, without loss of digits, and gives a positive
  amount: with \<open>a\<close> before and \<open>b\<close> after the point, the amount is the number with the digits \<open>a b\<close>, scaled
  by the decimals that are not used.
\<close>
theorem validated_input_exact:
  assumes "validateAmountInput s d = None"
  shows "\<exists>a b. pointSplit (trim s) a b \<and> list_all is_digit a \<and> list_all is_digit b \<and> length b \<le> d \<and> 0 < digitsVal (a @ b) \<and>
               parseAmount s d = Inr (int (digitsVal (a @ b) * 10 ^ (d - length b)))"
proof -
  from assms have t: "trim s \<noteq> []" "decimalText (trim s)" "hasValidPrecision (trim s) d"
    and pos: "list_ex (\<lambda>c. is_digit c \<and> c \<noteq> CHR ''0'') (trim s)"
    by (auto simp: validateAmountInput_def Let_def split: if_splits)
  from decimalText_split [OF t(2)] obtain a b where ab: "pointSplit (trim s) a b" "list_all is_digit a" "list_all is_digit b" by blast
  have tt: "trim (trim s) = trim s" by (rule trim_trim)
  have len: "length b \<le> d"
  proof (cases "js_split CHR ''.'' (trim s) = [a, b]")
    case True
    then have "CHR ''.'' \<in> set (trim s)" using js_split_no_sep [of "CHR ''.''" "trim s"] by force
    with t(3) True show ?thesis by (cases "b = []") (simp_all add: hasValidPrecision_def tt t(1,2) Let_def split: if_splits)
  next
    case False
    with ab(1) show ?thesis by (simp add: pointSplit_def)
  qed
  have "trim s = a @ ''.'' @ b \<or> trim s = a"
    using ab(1) js_split_join [of "CHR ''.''" "trim s" "[a, b]"] js_split_join [of "CHR ''.''" "trim s" "[a]"] by (auto simp: pointSplit_def)
  then have "set (trim s) \<subseteq> set (a @ b) \<union> {CHR ''.''}" by auto
  moreover from pos obtain c where c: "c \<in> set (trim s)" "is_digit c" "c \<noteq> CHR ''0''" by (auto simp: list_ex_iff)
  moreover from c(2) have "c \<noteq> CHR ''.''" by (auto simp: is_digit_def code_def)
  ultimately have "c \<in> set (a @ b)" by auto
  with c(3) have "list_ex (\<lambda>c. c \<noteq> CHR ''0'') (a @ b)" unfolding list_ex_iff by blast
  then have "0 < digitsVal (a @ b)" using ab(2,3) by (intro digitsVal_pos) (simp add: list_all_append)
  moreover have "parseAmount s d = Inr (int (digitsVal (a @ b) * 10 ^ (d - length b)))"
  proof -
    have "(10::nat) ^ d = 10 ^ length b * 10 ^ (d - length b)" using len by (simp flip: power_add)
    then have "digitsVal a * 10 ^ d + digitsVal b * 10 ^ (d - length b) = digitsVal (a @ b) * 10 ^ (d - length b)"
      by (simp add: digitsVal_append distrib_right)
    with parse_text [OF t(1) ab, of d] len show ?thesis by (simp only: take_all)
  qed
  ultimately show ?thesis using ab len by blast
qed

theorem validated_input_exact_witness:
  "\<exists>a b. pointSplit (trim '' 12.5 '') a b \<and> list_all is_digit a \<and> list_all is_digit b \<and> length b \<le> 7 \<and> 0 < digitsVal (a @ b) \<and>
         parseAmount '' 12.5 '' 7 = Inr (int (digitsVal (a @ b) * 10 ^ (7 - length b)))"
  by (rule validated_input_exact) code_simp

text \<open>The progress of a stream is a percentage, for amounts that are not negative.\<close>
theorem progress_percent_bounds:
  assumes "0 \<le> w" "0 \<le> dep"
  shows "0 \<le> streamProgressPercent w dep \<and> streamProgressPercent w dep \<le> 100"
proof -
  have nn: "0 \<le> (w * 100) sdiv dep" using assms by (simp add: signed_divide_int_def sgn_if zero_le_mult_iff pos_imp_zdiv_nonneg_iff)
  then have "0 \<le> toNumber ((w * 100) sdiv dep)" by (simp add: toNumber_def)
  then show ?thesis by (simp add: streamProgressPercent_def)
qed

theorem progress_percent_bounds_witness: "0 \<le> streamProgressPercent 150 100 \<and> streamProgressPercent 150 100 \<le> 100"
  by (rule progress_percent_bounds) simp_all

text \<open>A negative amount is not formatted as a number: the sign ends up behind the point.\<close>

lemma negative_amount_malformed: "formatAmount (- 5) 7 = ''0.00000-5''"
  by code_simp

end
