(* ===== verification/Csv_Export.thy ===== *)
theory Csv_Export
  imports Amounts Sse_Subscribe
begin

text \<open>
  The statement export, \<open>backend/src/services/export.service.ts\<close> with its handler in
  \<open>controllers/user.controller.ts\<close>, and the CSV reader of the web client, \<open>frontend/src/lib/csv-parser.ts\<close>.
  A stream row comes with its database identifier and its events in order of time; the rows come
  in order of creation and do not change during an export. The response is the text written to
  it and whether it was ended.
\<close>

section \<open>Dates\<close>

text \<open>\<open>Date.prototype.toISOString\<close> of a number of milliseconds.\<close>

definition civilFromDays :: "int \<Rightarrow> int \<times> int \<times> int" where
  "civilFromDays z0 =
     (let z = z0 + 719468;
          era = z div 146097;
          doe = z - era * 146097;
          yoe = (doe - doe div 1460 + doe div 36524 - doe div 146096) div 365;
          doy = doe - (365 * yoe + yoe div 4 - yoe div 100);
          mp = (5 * doy + 2) div 153;
          d = doy - (153 * mp + 2) div 5 + 1;
          m = (if mp < 10 then mp + 3 else mp - 9);
          y = yoe + era * 400 + (if m \<le> 2 then 1 else 0)
      in (y, m, d))"

definition isoYear :: "int \<Rightarrow> string" where
  "isoYear y =
     (if 0 \<le> y \<and> y \<le> 9999 then padStart (toString y) 4 CHR ''0''
      else (if y < 0 then ''-'' else ''+'') @ padStart (toString \<bar>y\<bar>) 6 CHR ''0'')"

definition toISOString :: "int \<Rightarrow> string result" where
  "toISOString ms =
     (if 8640000000000000 < \<bar>ms\<bar> then Inl RangeError
      else let (y, m, d) = civilFromDays (ms div 86400000);
               t = ms mod 86400000;
               two = (\<lambda>n. padStart (toString n) 2 CHR ''0'')
           in Inr (isoYear y @ ''-'' @ two m @ ''-'' @ two d @ ''T'' @ two (t div 3600000) @ '':'' @ two (t div 60000 mod 60) @ '':'' @
                   two (t div 1000 mod 60) @ ''.'' @ padStart (toString (t mod 1000)) 3 CHR ''0'' @ ''Z''))"

section \<open>Records\<close>

record TransactionRecord =
  tr_timestamp :: string
  tr_streamId :: string
  tr_transactionHash :: string
  tr_eventType :: string
  tr_direction :: string
  tr_counterpartyAddress :: string
  tr_tokenContract :: string
  tr_grossAmountStroops :: string
  tr_grossAmountFormatted :: string
  tr_protocolFeeDeducted :: string
  tr_netAmount :: string

definition CSV_HEADERS :: string where
  "CSV_HEADERS = join '','' [''Timestamp (UTC)'', ''Stream ID'', ''Transaction Hash'', ''Event Type'', ''Direction'',
     ''Counterparty Address'', ''Token Contract'', ''Gross Amount (Stroops)'', ''Gross Amount (Formatted)'', ''Protocol Fee Deducted'', ''Net Amount'']"

definition parseBigint :: "string \<Rightarrow> int result" where
  "parseBigint s = of_opt SyntaxError (BigInt s)"

definition exportFormatAmount :: "string \<Rightarrow> nat \<Rightarrow> string result" where
  "exportFormatAmount stroops decimals =
     bindE (parseBigint stroops) (\<lambda>a.
     let divisor = 10 ^ decimals
     in Inr (toString (a sdiv divisor) @ ''.'' @ padStart (toString (a smod divisor)) decimals CHR ''0''))"

definition calculateProtocolFee :: "string \<Rightarrow> string \<Rightarrow> string result" where
  "calculateProtocolFee amt eventType =
     (if eventType = ''WITHDRAWN'' then bindE (parseBigint amt) (\<lambda>a. Inr (toString ((a * 5) sdiv 1000))) else Inr ''0'')"

text \<open>The value of the event's time stamp as a number is the stored one for times of this age.\<close>

definition mapEventToTransaction :: "event_row \<Rightarrow> stream_row \<Rightarrow> string \<Rightarrow> TransactionRecord result" where
  "mapEventToTransaction event stream userAddress =
     (let isOutgoing = (sender stream = userAddress);
          counterparty = (if isOutgoing then recipient stream else sender stream);
          grossAmount = (case ev_amount event of None \<Rightarrow> ''0'' | Some a \<Rightarrow> if a = [] then ''0'' else a)
      in bindE (calculateProtocolFee grossAmount (ev_eventType event)) (\<lambda>protocolFee.
         bindE (parseBigint grossAmount) (\<lambda>gross.
         bindE (parseBigint protocolFee) (\<lambda>fee.
         let netAmount = toString (gross - fee) in
         bindE (toISOString (toNumber (ev_timestamp event) * 1000)) (\<lambda>ts.
         bindE (exportFormatAmount grossAmount 7) (\<lambda>grossFormatted.
         bindE (exportFormatAmount netAmount 7) (\<lambda>netFormatted.
         Inr \<lparr>tr_timestamp = ts, tr_streamId = toString (streamId stream), tr_transactionHash = ev_transactionHash event,
              tr_eventType = ev_eventType event, tr_direction = (if isOutgoing then ''OUTGOING'' else ''INCOMING''),
              tr_counterpartyAddress = counterparty, tr_tokenContract = tokenAddress stream,
              tr_grossAmountStroops = grossAmount, tr_grossAmountFormatted = grossFormatted,
              tr_protocolFeeDeducted = protocolFee, tr_netAmount = netFormatted\<rparr>)))))))"

definition escapeCSV :: "string \<Rightarrow> string" where
  "escapeCSV value =
     (if CHR '','' \<in> set value \<or> CHR 0x22 \<in> set value \<or> CHR 0x0A \<in> set value
      then [CHR 0x22] @ concat (map (\<lambda>c. if c = CHR 0x22 then [CHR 0x22, CHR 0x22] else [c]) value) @ [CHR 0x22]
      else value)"

definition recordFields :: "TransactionRecord \<Rightarrow> string list" where
  "recordFields r =
     [tr_timestamp r, tr_streamId r, tr_transactionHash r, tr_eventType r, tr_direction r, tr_counterpartyAddress r,
      tr_tokenContract r, tr_grossAmountStroops r, tr_grossAmountFormatted r, tr_protocolFeeDeducted r, tr_netAmount r]"

definition transactionToCSVRow :: "TransactionRecord \<Rightarrow> string" where
  "transactionToCSVRow r = join '','' (map escapeCSV (recordFields r))"

section \<open>The reader\<close>

fun parseCSVChars :: "bool \<Rightarrow> string \<Rightarrow> string list \<Rightarrow> string \<Rightarrow> string list" where
  "parseCSVChars inQuotes current acc [] = acc @ [current]"
| "parseCSVChars inQuotes current acc (c # cs) =
     (if inQuotes
      then (if c = CHR 0x22
            then (case cs of
                    [] \<Rightarrow> parseCSVChars False current acc cs
                  | c2 # cs2 \<Rightarrow> if c2 = CHR 0x22 then parseCSVChars True (current @ [CHR 0x22]) acc cs2 else parseCSVChars False current acc cs)
            else parseCSVChars True (current @ [c]) acc cs)
      else if c = CHR 0x22 then parseCSVChars True current acc cs
      else if c = CHR '','' then parseCSVChars False [] (acc @ [current]) cs
      else parseCSVChars False (current @ [c]) acc cs)"

definition parseCSVLine :: "string \<Rightarrow> string list" where
  "parseCSVLine line = parseCSVChars False [] [] line"

section \<open>The export\<close>

datatype export_date = NoDate | InvalidDate | DateMs int

record ExportOptions =
  xo_direction :: string
  xo_startDate :: export_date
  xo_endDate :: export_date
  xo_tokenAddress :: "string option"

type_synonym export_row = "string \<times> stream_row \<times> event_row list"

definition exportWhere :: "string \<Rightarrow> ExportOptions \<Rightarrow> stream_row \<Rightarrow> bool" where
  "exportWhere userAddress xo r =
     ((xo_direction xo \<in> {''outgoing'', ''all''} \<and> sender r = userAddress \<or> xo_direction xo \<in> {''incoming'', ''all''} \<and> recipient r = userAddress) \<and>
      (case userKey (xo_tokenAddress xo) of None \<Rightarrow> True | Some t \<Rightarrow> tokenAddress r = t))"

text \<open>\<open>BigInt(Math.floor(date.getTime() / 1000))\<close>; an invalid date gives NaN and throws.\<close>

fun dateBound :: "export_date \<Rightarrow> int option result" where
  "dateBound NoDate = Inr None"
| "dateBound InvalidDate = Inl RangeError"
| "dateBound (DateMs ms) = Inr (Some (ms div 1000))"

definition inPeriod :: "int option \<Rightarrow> int option \<Rightarrow> event_row \<Rightarrow> bool" where
  "inPeriod lo hi e =
     ((case lo of None \<Rightarrow> True | Some l \<Rightarrow> l \<le> ev_timestamp e) \<and> (case hi of None \<Rightarrow> True | Some u \<Rightarrow> ev_timestamp e \<le> u))"

definition BATCH_SIZE :: nat where
  "BATCH_SIZE = 100"

definition afterCursor :: "string option \<Rightarrow> export_row list \<Rightarrow> export_row list" where
  "afterCursor cursor rows = (case cursor of None \<Rightarrow> rows | Some c \<Rightarrow> tl (dropWhile (\<lambda>r. fst r \<noteq> c) rows))"

text \<open>The rows the loop reads, batch by batch.\<close>

partial_function (option) exportBatches :: "export_row list \<Rightarrow> string option \<Rightarrow> export_row list list option" where
  "exportBatches rows cursor =
     (let batch = take BATCH_SIZE (afterCursor cursor rows) in
      if batch = [] then Some []
      else if length batch < BATCH_SIZE then Some [batch]
      else Option.bind (exportBatches rows (Some (fst (last batch)))) (\<lambda>bs. Some (batch # bs)))"

record export_response =
  xr_text :: string
  xr_ended :: bool

text \<open>Writing the records of a list of events until one of them throws.\<close>

fun writeRecords :: "(bool \<Rightarrow> TransactionRecord \<Rightarrow> string) \<Rightarrow> string \<Rightarrow> (stream_row \<times> event_row) list \<Rightarrow> bool \<Rightarrow> string \<Rightarrow> bool \<times> string" where
  "writeRecords render userAddress [] first out = (True, out)"
| "writeRecords render userAddress ((s, e) # es) first out =
     (case mapEventToTransaction e s userAddress of
        Inl _ \<Rightarrow> (False, out)
      | Inr r \<Rightarrow> writeRecords render userAddress es False (out @ render first r))"

definition exportEvents :: "ExportOptions \<Rightarrow> int option \<Rightarrow> int option \<Rightarrow> export_row list list \<Rightarrow> (stream_row \<times> event_row) list" where
  "exportEvents xo lo hi batches =
     concat (map (\<lambda>(i, s, es). map (\<lambda>e. (s, e)) (filter (inPeriod lo hi) es)) (concat batches))"

text \<open>\<open>None\<close>: the loop does not end. An error after the first write leaves the response open.\<close>

definition streamTransactions ::
  "string \<Rightarrow> (bool \<Rightarrow> TransactionRecord \<Rightarrow> string) \<Rightarrow> (nat \<Rightarrow> string) \<Rightarrow> string \<Rightarrow> ExportOptions \<Rightarrow> export_row list \<Rightarrow> export_response option" where
  "streamTransactions opening render closing userAddress xo rows =
     (case (dateBound (xo_startDate xo), dateBound (xo_endDate xo)) of
        (Inr lo, Inr hi) \<Rightarrow>
          map_option (\<lambda>batches.
            let es = exportEvents xo lo hi batches in
            case writeRecords render userAddress es True opening of
              (True, out) \<Rightarrow> \<lparr>xr_text = out @ closing (length es), xr_ended = True\<rparr>
            | (False, out) \<Rightarrow> \<lparr>xr_text = out, xr_ended = False\<rparr>)
          (exportBatches (filter (\<lambda>(i, s, es). exportWhere userAddress xo s) rows) None)
      | _ \<Rightarrow> Some \<lparr>xr_text = opening, xr_ended = False\<rparr>)"

definition streamTransactionCSV :: "string \<Rightarrow> ExportOptions \<Rightarrow> export_row list \<Rightarrow> export_response option" where
  "streamTransactionCSV userAddress xo rows =
     streamTransactions (CSV_HEADERS @ LF) (\<lambda>first r. transactionToCSVRow r @ LF) (\<lambda>_. []) userAddress xo rows"

definition recordJson :: "TransactionRecord \<Rightarrow> json" where
  "recordJson r =
     JObj [(''timestamp'', JStr (tr_timestamp r)), (''streamId'', JStr (tr_streamId r)), (''transactionHash'', JStr (tr_transactionHash r)),
           (''eventType'', JStr (tr_eventType r)), (''direction'', JStr (tr_direction r)),
           (''counterpartyAddress'', JStr (tr_counterpartyAddress r)), (''tokenContract'', JStr (tr_tokenContract r)),
           (''grossAmountStroops'', JStr (tr_grossAmountStroops r)), (''grossAmountFormatted'', JStr (tr_grossAmountFormatted r)),
           (''protocolFeeDeducted'', JStr (tr_protocolFeeDeducted r)), (''netAmount'', JStr (tr_netAmount r))]"

definition dq :: string where
  "dq = [CHR 0x22]"

definition streamTransactionJSON :: "string \<Rightarrow> string \<Rightarrow> ExportOptions \<Rightarrow> export_row list \<Rightarrow> export_response option" where
  "streamTransactionJSON isoNow userAddress xo rows =
     streamTransactions (''{'' @ dq @ ''transactions'' @ dq @ '':['')
       (\<lambda>first r. (if first then [] else '','') @ JSON_stringify (recordJson r))
       (\<lambda>n. ''],'' @ dq @ ''metadata'' @ dq @ '':{'' @ dq @ ''totalRecords'' @ dq @ '':'' @ toString (int n) @ '','' @ dq @ ''exportedAt'' @ dq @ '':'' @
            dq @ isoNow @ dq @ '','' @ dq @ ''userAddress'' @ dq @ '':'' @ dq @ userAddress @ dq @ ''}}'')
       userAddress xo rows"

section \<open>The handler\<close>

definition base32Char :: "char \<Rightarrow> bool" where
  "base32Char c = (65 \<le> code c \<and> code c \<le> 90 \<or> 50 \<le> code c \<and> code c \<le> 55)"

definition stellarKey :: "string \<Rightarrow> bool" where
  "stellarKey s = (length s = 56 \<and> hd s = CHR ''G'' \<and> list_all base32Char (tl s))"

text \<open>A query value is taken as it is when it is not empty; only a single text can be one of the allowed ones.\<close>

definition queryOr :: "query_value \<Rightarrow> string \<Rightarrow> string option" where
  "queryOr q d = (case q of QAbsent \<Rightarrow> Some d | QText s \<Rightarrow> Some (if s = [] then d else s) | QTexts _ \<Rightarrow> None)"

definition exportTransactions ::
  "string \<Rightarrow> string \<Rightarrow> query_value \<Rightarrow> query_value \<Rightarrow> ExportOptions \<Rightarrow> export_row list \<Rightarrow> (string + export_response) option" where
  "exportTransactions isoNow address format direction xo rows =
     (if \<not> stellarKey address then Some (Inl ''INVALID_ADDRESS'')
      else case queryOr format ''csv'' of
        None \<Rightarrow> Some (Inl ''INVALID_FORMAT'')
      | Some fmt \<Rightarrow>
      if fmt \<notin> {''csv'', ''json''} then Some (Inl ''INVALID_FORMAT'')
      else case queryOr direction ''all'' of
        None \<Rightarrow> Some (Inl ''INVALID_DIRECTION'')
      | Some dir \<Rightarrow>
      if dir \<notin> {''incoming'', ''outgoing'', ''all''} then Some (Inl ''INVALID_DIRECTION'')
      else map_option Inr
        (if fmt = ''csv'' then streamTransactionCSV address (xo\<lparr>xo_direction := dir\<rparr>) rows
         else streamTransactionJSON isoNow address (xo\<lparr>xo_direction := dir\<rparr>) rows))"

section \<open>The reader inverts the writer\<close>

lemma parse_plain:
  "CHR 0x22 \<notin> set f \<Longrightarrow> CHR '','' \<notin> set f \<Longrightarrow> parseCSVChars False cur acc (f @ rest) = parseCSVChars False (cur @ f) acc rest"
  by (induction f arbitrary: cur) auto

lemma parse_quoted:
  assumes "rest = [] \<or> hd rest \<noteq> CHR 0x22"
  shows "parseCSVChars True cur acc (concat (map (\<lambda>c. if c = CHR 0x22 then [CHR 0x22, CHR 0x22] else [c]) f) @ CHR 0x22 # rest) =
         parseCSVChars False (cur @ f) acc rest"
proof (induction f arbitrary: cur)
  case Nil
  with assms show ?case by (cases rest) simp_all
qed simp_all

lemma parse_field:
  assumes "rest = [] \<or> hd rest = CHR '',''"
  shows "parseCSVChars False [] acc (escapeCSV f @ rest) = parseCSVChars False f acc rest"
proof (cases "CHR '','' \<in> set f \<or> CHR 0x22 \<in> set f \<or> CHR 0x0A \<in> set f")
  case True
  with assms parse_quoted [of rest "[]" acc f] show ?thesis by (auto simp: escapeCSV_def)
next
  case False
  then show ?thesis using parse_plain [of f "[]" acc rest] by (simp add: escapeCSV_def)
qed

lemma parse_row: "fs \<noteq> [] \<Longrightarrow> parseCSVChars False [] acc (join '','' (map escapeCSV fs)) = acc @ fs"
proof (induction fs arbitrary: acc)
  case (Cons f fs)
  show ?case
  proof (cases fs)
    case Nil
    then show ?thesis using parse_field [of "[]" acc f] by simp
  next
    case (Cons g gs)
    with Cons.IH [of "acc @ [f]"] parse_field [of "CHR '','' # join '','' (map escapeCSV fs)" acc f] show ?thesis by simp
  qed
qed simp

text \<open>C20. A row of the export is read back by the client's CSV reader field by field, whatever
  separators, quotes or line ends the fields contain.
\<close>
theorem csv_roundtrip: "parseCSVLine (transactionToCSVRow r) = recordFields r"
  using parse_row [of "recordFields r" "[]"] by (simp add: parseCSVLine_def transactionToCSVRow_def recordFields_def)

section \<open>The amounts of a record\<close>

lemma exportFormat_value:
  assumes "0 \<le> n"
  shows "\<exists>s. exportFormatAmount (toString n) 7 = Inr s \<and> parseAmount s 7 = Inr n"
proof -
  let ?q = "n div 10 ^ 7" and ?m = "n mod 10 ^ 7"
  have q: "0 \<le> ?q" "0 \<le> ?m" "?m < 10 ^ 7" using assms by (simp_all add: pos_imp_zdiv_nonneg_iff)
  have sd: "n sdiv 10 ^ 7 = ?q" "n smod 10 ^ 7 = ?m"
    using assms by (simp_all add: signed_divide_int_def signed_modulo_int_def sgn_if minus_div_mult_eq_mod [symmetric])
  let ?s = "padStart (toString ?m) 7 CHR ''0''"
  have "toString ?m = nat_toString (nat ?m)" using q(2) by (simp only: toString_def not_less [symmetric] if_False)
  moreover have "nat ?m < 10 ^ 7" using q by (simp add: nat_less_iff)
  ultimately have len: "length ?s = 7" using nat_toString_length [of "nat ?m" 7] by (simp add: padStart_def)
  have val: "int (digitsVal ?s) = ?m" using digitsVal_toString [OF q(2)] by (simp add: padStart_def digitsVal_append)
  have dig: "list_all is_digit ?s" using toString_digits [OF q(2)] by (auto simp: padStart_def list_all_iff is_digit_def code_def)
  have "parseAmount (toString ?q @ ''.'' @ ?s) 7 = Inr (int (digitsVal (toString ?q) * 10 ^ 7 + digitsVal ?s * 10 ^ (7 - length ?s)))"
    using len by (intro parse_parts toString_digits [OF q(1)] dig) auto
  moreover have "int (digitsVal (toString ?q) * 10 ^ 7 + digitsVal ?s * 10 ^ (7 - length ?s)) = n"
    using val len digitsVal_toString [OF q(1)] div_mult_mod_eq [of n "10 ^ 7"] by simp
  moreover have "exportFormatAmount (toString n) 7 = Inr (toString ?q @ ''.'' @ ?s)"
    unfolding exportFormatAmount_def parseBigint_def Let_def by (simp only: BigInt_toString of_opt_def option.case bindE_Inr sd)
  ultimately show ?thesis by metis
qed

lemma export_amounts_facts:
  assumes "ev_amount e = Some (toString n)" "0 \<le> n" "\<bar>ev_timestamp e\<bar> \<le> 8640000000000"
  shows "\<exists>r. mapEventToTransaction e s u = Inr r \<and> parseAmount (tr_grossAmountFormatted r) 7 = Inr n \<and>
           BigInt (tr_protocolFeeDeducted r) = Some (if ev_eventType e = ''WITHDRAWN'' then n * 5 div 1000 else 0) \<and>
           parseAmount (tr_netAmount r) 7 = Inr (n - (if ev_eventType e = ''WITHDRAWN'' then n * 5 div 1000 else 0))"
proof -
  let ?fee = "if ev_eventType e = ''WITHDRAWN'' then n * 5 div 1000 else 0"
  have fee: "calculateProtocolFee (toString n) (ev_eventType e) = Inr (toString ?fee)"
    using assms(2) by (simp add: calculateProtocolFee_def parseBigint_def sdiv_nonneg)
  have "toNumber (ev_timestamp e) = ev_timestamp e"
    using assms(3) by (intro toNumber_safe) (simp add: isSafeInteger_def MAX_SAFE_INTEGER_def)
  then have iso: "isOk (toISOString (toNumber (ev_timestamp e) * 1000))"
    using assms(3) by (auto simp: toISOString_def Let_def split: prod.splits)
  then obtain ts where ts: "toISOString (toNumber (ev_timestamp e) * 1000) = Inr ts" by blast
  obtain g where g: "exportFormatAmount (toString n) 7 = Inr g" "parseAmount g 7 = Inr n"
    using exportFormat_value [OF assms(2)] by blast
  have "0 \<le> n - ?fee" using assms(2) by auto
  then obtain m where m: "exportFormatAmount (toString (n - ?fee)) 7 = Inr m" "parseAmount m 7 = Inr (n - ?fee)"
    using exportFormat_value by blast
  show ?thesis using g(2) m(2) assms(1)
    unfolding mapEventToTransaction_def Let_def
    by (simp only: option.case toString_nonempty if_False fee parseBigint_def BigInt_toString of_opt_simps bindE_Inr ts g(1) m(1)) simp
qed

text \<open>
  A stored event with a decimal amount and a time JavaScript dates reach becomes a record whose
  formatted amounts are read back exactly: the gross amount, and for a withdrawal the gross
  amount less one half percent rounded down.
\<close>
theorem export_amounts:
  assumes "ev_amount e = Some (toString n)" "0 \<le> n" "\<bar>ev_timestamp e\<bar> \<le> 8640000000000"
  shows "\<exists>r. mapEventToTransaction e s u = Inr r \<and> parseAmount (tr_grossAmountFormatted r) 7 = Inr n \<and>
           BigInt (tr_protocolFeeDeducted r) = Some (if ev_eventType e = ''WITHDRAWN'' then n * 5 div 1000 else 0) \<and>
           parseAmount (tr_netAmount r) 7 = Inr (n - (if ev_eventType e = ''WITHDRAWN'' then n * 5 div 1000 else 0))"
  using assms by (rule export_amounts_facts)

theorem export_amounts_witness:
  "\<exists>r. mapEventToTransaction \<lparr>ev_streamId = 1, ev_eventType = ''WITHDRAWN'', ev_amount = Some (toString 10000001), ev_transactionHash = ''h'',
       ev_ledgerSequence = 1, ev_timestamp = 1700000000, ev_metadata = None\<rparr> exampleStream ''GA'' = Inr r \<and>
     parseAmount (tr_netAmount r) 7 = Inr 9950001"
  using export_amounts [of "\<lparr>ev_streamId = 1, ev_eventType = ''WITHDRAWN'', ev_amount = Some (toString 10000001), ev_transactionHash = ''h'',
       ev_ledgerSequence = 1, ev_timestamp = 1700000000, ev_metadata = None\<rparr>" 10000001 exampleStream "''GA''"]
  by auto

section \<open>The batches\<close>

lemma afterCursor_nth:
  assumes "distinct (map fst rows)" "k < length rows"
  shows "afterCursor (Some (fst (rows ! k))) rows = drop (Suc k) rows"
proof -
  have "takeWhile (\<lambda>r. fst r \<noteq> fst (rows ! k)) rows = take k rows"
    using assms nth_eq_iff_index_eq [OF assms(1)] by (intro takeWhile_eq_take_P_nth) auto
  then have "dropWhile (\<lambda>r. fst r \<noteq> fst (rows ! k)) rows = drop k rows"
    using assms(2) by (simp add: dropWhile_eq_drop)
  then show ?thesis by (simp add: afterCursor_def drop_Suc tl_drop)
qed

lemma exportBatches_from:
  assumes "distinct (map fst rows)" "afterCursor cursor rows = drop k rows"
  shows "\<exists>bs. exportBatches rows cursor = Some bs \<and> concat bs = drop k rows \<and> (\<forall>b\<in>set bs. length b \<le> BATCH_SIZE)"
  using assms(2)
proof (induction "length rows - k" arbitrary: k cursor rule: less_induct)
  case less
  let ?b = "take BATCH_SIZE (drop k rows)"
  show ?case
  proof (cases "length ?b < BATCH_SIZE")
    case True
    then have "?b = drop k rows" by simp
    with True less.prems show ?thesis by (simp add: exportBatches.simps [of rows cursor] Let_def)
  next
    case False
    then have len: "k + BATCH_SIZE \<le> length rows" and pos: "0 < BATCH_SIZE" by (auto simp: BATCH_SIZE_def)
    let ?k = "k + BATCH_SIZE"
    have "?b \<noteq> []" using False pos by auto
    then have "last ?b = rows ! (?k - 1)" using len pos by (simp add: last_conv_nth)
    then have "afterCursor (Some (fst (last ?b))) rows = drop ?k rows"
      using afterCursor_nth [OF assms(1), of "?k - 1"] len pos by simp
    moreover have "length rows - ?k < length rows - k" using len pos by simp
    ultimately obtain bs where "exportBatches rows (Some (fst (last ?b))) = Some bs" "concat bs = drop ?k rows" "\<forall>b\<in>set bs. length b \<le> BATCH_SIZE"
      using less.hyps by blast
    moreover have "?b @ drop ?k rows = drop k rows"
      by (metis add.commute append_take_drop_id drop_drop)
    ultimately show ?thesis using False \<open>?b \<noteq> []\<close> less.prems by (simp add: exportBatches.simps [of rows cursor] Let_def)
  qed
qed

text \<open>The export loop ends, and its batches of at most one hundred streams are together the
  selected rows, each once and in order, when the identifiers are distinct.
\<close>
theorem export_batches_complete:
  assumes "distinct (map fst rows)"
  shows "\<exists>bs. exportBatches rows None = Some bs \<and> concat bs = rows \<and> (\<forall>b\<in>set bs. length b \<le> BATCH_SIZE)"
  using exportBatches_from [OF assms, of None 0] by (simp add: afterCursor_def)

theorem export_batches_complete_witness:
  "\<exists>bs. exportBatches (map (\<lambda>i. (toString (int i), exampleStream, [])) [0..<250]) None = Some bs \<and> 2 < length bs"
proof -
  let ?rows = "map (\<lambda>i. (toString (int i), exampleStream, [] :: event_row list)) [0..<250]"
  have "distinct (map fst ?rows)"
    by (simp add: comp_def distinct_map) (metis (mono_tags, lifting) BigInt_toString inj_onI of_nat_eq_iff option.inject)
  then obtain bs where bs: "exportBatches ?rows None = Some bs" "concat bs = ?rows" "\<forall>b\<in>set bs. length b \<le> BATCH_SIZE"
    using export_batches_complete by blast
  have "length (concat bs) \<le> length bs * BATCH_SIZE"
    using bs(3) by (induction bs) auto
  then have "2 < length bs" using bs(2) by (simp add: BATCH_SIZE_def)
  with bs(1) show ?thesis by blast
qed

section \<open>The written response\<close>

definition selectedEvents :: "string \<Rightarrow> ExportOptions \<Rightarrow> int option \<Rightarrow> int option \<Rightarrow> export_row list \<Rightarrow> (stream_row \<times> event_row) list" where
  "selectedEvents u xo lo hi rows =
     concat (map (\<lambda>(i, s, es). if exportWhere u xo s then map (\<lambda>e. (s, e)) (filter (inPeriod lo hi) es) else []) rows)"

lemma writeRecords_ok:
  "list_all2 (\<lambda>(s, e) r. mapEventToTransaction e s u = Inr r) es rs \<Longrightarrow>
   writeRecords render u es b out = (True, out @ concat (map2 render (if es = [] then [] else b # replicate (length es - 1) False) rs))"
proof (induction es rs arbitrary: b out rule: list_all2_induct)
  case (Cons se es r rs)
  have "(if es = [] then [] else False # replicate (length es - 1) False) = replicate (length es) False"
    by (cases es) simp_all
  with Cons show ?case by (cases se) simp
qed simp

lemma writeRecords_fails:
  "(s, e) \<in> set es \<Longrightarrow> \<not> isOk (mapEventToTransaction e s u) \<Longrightarrow> \<exists>out'. writeRecords render u es b out = (False, out')"
  by (induction es arbitrary: b out) (auto split: sum.splits)

lemma exportEvents_selected:
  "exportEvents xo lo hi bs = selectedEvents u xo lo hi rows" if "concat bs = filter (\<lambda>(i, s, es). exportWhere u xo s) rows"
  unfolding exportEvents_def selectedEvents_def that by (induction rows) auto

lemma streamTransactions_eq:
  assumes "distinct (map fst rows)" "dateBound (xo_startDate xo) = Inr lo" "dateBound (xo_endDate xo) = Inr hi"
  shows "streamTransactions opening render closing u xo rows =
    Some (case writeRecords render u (selectedEvents u xo lo hi rows) True opening of
            (True, out) \<Rightarrow> \<lparr>xr_text = out @ closing (length (selectedEvents u xo lo hi rows)), xr_ended = True\<rparr>
          | (False, out) \<Rightarrow> \<lparr>xr_text = out, xr_ended = False\<rparr>)"
proof -
  let ?f = "filter (\<lambda>(i, s, es). exportWhere u xo s) rows"
  have "distinct (map fst ?f)" using assms(1) by (rule distinct_map_filter)
  then obtain bs where "exportBatches ?f None = Some bs" "concat bs = ?f"
    using exportBatches_from [of ?f None 0] by (auto simp: afterCursor_def)
  with assms(2,3) exportEvents_selected [of bs u xo rows lo hi] show ?thesis
    by (simp add: streamTransactions_def Let_def split: prod.splits bool.splits)
qed

definition toRecords :: "string \<Rightarrow> (stream_row \<times> event_row) list \<Rightarrow> TransactionRecord list \<Rightarrow> bool" where
  "toRecords u es rs = list_all2 (\<lambda>(s, e) r. mapEventToTransaction e s u = Inr r) es rs"

lemma streamTransactions_complete:
  assumes "distinct (map fst rows)" "dateBound (xo_startDate xo) = Inr lo" "dateBound (xo_endDate xo) = Inr hi"
    and "toRecords u (selectedEvents u xo lo hi rows) rs"
  shows "streamTransactions opening render closing u xo rows =
    Some \<lparr>xr_text = opening @ concat (map2 render (if rs = [] then [] else True # replicate (length rs - 1) False) rs) @ closing (length rs),
          xr_ended = True\<rparr>"
proof -
  note rs = assms(4) [unfolded toRecords_def]
  have "length (selectedEvents u xo lo hi rows) = length rs" using rs by (rule list_all2_lengthD)
  moreover from this have "selectedEvents u xo lo hi rows = [] \<longleftrightarrow> rs = []" by (metis length_0_conv)
  ultimately show ?thesis
    using streamTransactions_eq [OF assms(1-3)] writeRecords_ok [OF rs] by simp
qed

lemma flags_length: "length (if rs = [] then [] else True # replicate (length rs - 1) False) = length rs"
  by (cases rs) simp_all

lemma map2_ignore: "length bs = length rs \<Longrightarrow> map2 (\<lambda>b r. f r) bs rs = map f rs"
  by (induction bs rs rule: list_induct2) simp_all

lemma rest_commas: "concat (map2 (\<lambda>b r. (if b then [] else sep) @ f r) (replicate (length rs) False) rs) = concat (map (\<lambda>r. sep @ f r) rs)"
  by (induction rs) simp_all

lemma join_commas: "join sep (w # ws) = w @ concat (map (\<lambda>v. sep @ v) ws)"
  by (induction ws arbitrary: w) simp_all

lemma commas_join:
  "concat (map2 (\<lambda>b r. (if b then [] else sep) @ f r) (if rs = [] then [] else True # replicate (length rs - 1) False) rs) = join sep (map f rs)"
proof (cases rs)
  case (Cons r rs')
  then show ?thesis using rest_commas [of sep f rs'] by (simp add: join_commas comp_def)
qed simp

text \<open>
  A CSV export without an invalid date whose events all have readable amounts writes the header
  and exactly one row for every selected event, in order, and ends the response.
\<close>
theorem csv_statement:
  assumes "distinct (map fst rows)" "dateBound (xo_startDate xo) = Inr lo" "dateBound (xo_endDate xo) = Inr hi"
    and "toRecords u (selectedEvents u xo lo hi rows) rs"
  shows "streamTransactionCSV u xo rows =
    Some \<lparr>xr_text = CSV_HEADERS @ LF @ concat (map (\<lambda>r. transactionToCSVRow r @ LF) rs), xr_ended = True\<rparr>"
  using streamTransactions_complete [OF assms, of "CSV_HEADERS @ LF" "\<lambda>first r. transactionToCSVRow r @ LF" "\<lambda>_. []"]
  by (simp add: streamTransactionCSV_def map2_ignore [OF flags_length])

lemma json_quote_plain: "list_all (\<lambda>c. json_escape c = [c]) s \<Longrightarrow> json_quote s = dq @ s @ dq"
proof -
  assume "list_all (\<lambda>c. json_escape c = [c]) s"
  then have "concat (map json_escape s) = s" by (induction s) simp_all
  then show ?thesis by (simp add: json_quote_def dq_def) code_simp
qed

text \<open>The JSON export written piece by piece is the serialisation of one object: the records of the
  selected events, and the metadata with their number.
\<close>
theorem json_statement:
  assumes "distinct (map fst rows)" "dateBound (xo_startDate xo) = Inr lo" "dateBound (xo_endDate xo) = Inr hi"
    and "toRecords u (selectedEvents u xo lo hi rows) rs"
    and "list_all (\<lambda>c. json_escape c = [c]) isoNow" "list_all (\<lambda>c. json_escape c = [c]) u"
  shows "streamTransactionJSON isoNow u xo rows =
    Some \<lparr>xr_text = JSON_stringify (JObj [(''transactions'', JArr (map recordJson rs)),
            (''metadata'', JObj [(''totalRecords'', JNum (int (length rs))), (''exportedAt'', JStr isoNow), (''userAddress'', JStr u)])]), xr_ended = True\<rparr>"
proof -
  have k: "json_quote ''transactions'' = dq @ ''transactions'' @ dq" "json_quote ''metadata'' = dq @ ''metadata'' @ dq"
    "json_quote ''totalRecords'' = dq @ ''totalRecords'' @ dq" "json_quote ''exportedAt'' = dq @ ''exportedAt'' @ dq"
    "json_quote ''userAddress'' = dq @ ''userAddress'' @ dq"
    by (rule json_quote_plain, simp add: json_escape_def code_def)+
  show ?thesis
    unfolding streamTransactionJSON_def streamTransactions_complete [OF assms(1-4)] commas_join
    by (simp add: k json_quote_plain [OF assms(5)] json_quote_plain [OF assms(6)] comp_def del: toString_eval)
qed

text \<open>
  An invalid date in the query, or a selected event whose amount or time cannot be read, leaves
  the response open: the handler has already written and does not end it.
\<close>
theorem export_error_leaves_open:
  assumes "distinct (map fst rows)"
    and "xo_startDate xo = InvalidDate \<or> xo_endDate xo = InvalidDate \<or>
         (\<exists>lo hi s e. dateBound (xo_startDate xo) = Inr lo \<and> dateBound (xo_endDate xo) = Inr hi \<and>
            (s, e) \<in> set (selectedEvents u xo lo hi rows) \<and> \<not> isOk (mapEventToTransaction e s u))"
  shows "\<exists>x. streamTransactionCSV u xo rows = Some x \<and> \<not> xr_ended x"
  using assms(2)
proof (elim disjE exE conjE)
  fix lo hi s e
  assume a: "dateBound (xo_startDate xo) = Inr lo" "dateBound (xo_endDate xo) = Inr hi"
    "(s, e) \<in> set (selectedEvents u xo lo hi rows)" "\<not> isOk (mapEventToTransaction e s u)"
  from writeRecords_fails [OF a(3,4)] show ?thesis
    unfolding streamTransactionCSV_def streamTransactions_eq [OF assms(1) a(1,2)]
    by (metis (mono_tags, lifting) case_prod_conv export_response.select_convs(2) bool.case(2))
qed (auto simp: streamTransactionCSV_def streamTransactions_def split: sum.splits)

definition exportUser :: string where
  "exportUser = sender exampleStream"

definition paidEvent :: "string \<Rightarrow> event_row" where
  "paidEvent a = \<lparr>ev_streamId = 7, ev_eventType = ''TOPPED_UP'', ev_amount = Some a, ev_transactionHash = ''tx'', ev_ledgerSequence = 3,
     ev_timestamp = 1700000000, ev_metadata = None\<rparr>"

definition exportAll :: ExportOptions where
  "exportAll = \<lparr>xo_direction = ''all'', xo_startDate = DateMs 1600000000000, xo_endDate = NoDate, xo_tokenAddress = None\<rparr>"

lemma paidRecord_ok: "isOk (mapEventToTransaction (paidEvent (toString 25)) exampleStream exportUser)"
  using export_amounts_facts [of "paidEvent (toString 25)" 25 exampleStream exportUser] by (auto simp: paidEvent_def simp del: toString_eval)

lemma paid_selected:
  "selectedEvents exportUser exportAll (Some 1600000000) None [(''a'', exampleStream, [paidEvent x])] = [(exampleStream, paidEvent x)]"
  by (simp add: selectedEvents_def exportWhere_def exportAll_def exportUser_def inPeriod_def paidEvent_def userKey_def)

lemma paid_toRecords:
  "mapEventToTransaction (paidEvent x) exampleStream exportUser = Inr r \<Longrightarrow>
   toRecords exportUser (selectedEvents exportUser exportAll (Some 1600000000) None [(''a'', exampleStream, [paidEvent x])]) [r]"
  by (simp add: toRecords_def paid_selected)

theorem csv_statement_witness:
  "\<exists>r. mapEventToTransaction (paidEvent (toString 25)) exampleStream exportUser = Inr r \<and>
     streamTransactionCSV exportUser exportAll [(''a'', exampleStream, [paidEvent (toString 25)])] =
     Some \<lparr>xr_text = CSV_HEADERS @ LF @ transactionToCSVRow r @ LF, xr_ended = True\<rparr>"
proof -
  obtain r where r: "mapEventToTransaction (paidEvent (toString 25)) exampleStream exportUser = Inr r" using paidRecord_ok by blast
  then show ?thesis using csv_statement [OF _ _ _ paid_toRecords [OF r]] by (simp add: exportAll_def del: toString_eval)
qed

theorem json_statement_witness:
  "\<exists>x. streamTransactionJSON ''2026-01-01'' exportUser exportAll [(''a'', exampleStream, [paidEvent (toString 25)])] = Some x \<and> xr_ended x"
proof -
  obtain r where r: "mapEventToTransaction (paidEvent (toString 25)) exampleStream exportUser = Inr r" using paidRecord_ok by blast
  have "list_all (\<lambda>c. json_escape c = [c]) ''2026-01-01''" "list_all (\<lambda>c. json_escape c = [c]) exportUser"
    by (simp_all add: exportUser_def exampleStream_def json_escape_def code_def)
  then show ?thesis using json_statement [OF _ _ _ paid_toRecords [OF r]] by (simp add: exportAll_def del: toString_eval)
qed

theorem export_error_leaves_open_witness:
  "(\<exists>x. streamTransactionCSV exportUser exportAll [(''a'', exampleStream, [paidEvent ''1.5''])] = Some x \<and> \<not> xr_ended x) \<and>
   (\<exists>x. streamTransactionCSV exportUser (exportAll\<lparr>xo_endDate := InvalidDate\<rparr>) [] = Some x \<and> \<not> xr_ended x)"
proof
  have "\<not> isOk (mapEventToTransaction (paidEvent ''1.5'') exampleStream exportUser)"
  proof -
    have "BigInt ''1.5'' = None" by code_simp
    then show ?thesis by (simp add: mapEventToTransaction_def calculateProtocolFee_def paidEvent_def parseBigint_def)
  qed
  then show "\<exists>x. streamTransactionCSV exportUser exportAll [(''a'', exampleStream, [paidEvent ''1.5''])] = Some x \<and> \<not> xr_ended x"
    using paid_selected [of "''1.5''"] by (intro export_error_leaves_open) (auto simp: exportAll_def)
  show "\<exists>x. streamTransactionCSV exportUser (exportAll\<lparr>xo_endDate := InvalidDate\<rparr>) [] = Some x \<and> \<not> xr_ended x"
    by (intro export_error_leaves_open) (simp_all add: exportAll_def)
qed

section \<open>Requests\<close>

text \<open>
  The handler exports only for a well formed address, a known format and a known direction; the
  first of these that fails gives the answer.
\<close>
theorem export_validated:
  assumes "distinct (map fst rows)"
  shows "(\<exists>x. exportTransactions isoNow address format direction xo rows = Some (Inr x)) \<longleftrightarrow>
    stellarKey address \<and> queryOr format ''csv'' \<in> {Some ''csv'', Some ''json''} \<and>
    queryOr direction ''all'' \<in> {Some ''incoming'', Some ''outgoing'', Some ''all''}"
proof -
  have "\<exists>x. streamTransactions a b c u xo rows = Some x" for a b c u xo
  proof (cases "isOk (dateBound (xo_startDate xo)) \<and> isOk (dateBound (xo_endDate xo))")
    case True
    then show ?thesis using streamTransactions_eq [OF assms] by blast
  next
    case False
    then show ?thesis by (auto simp: streamTransactions_def split: sum.splits)
  qed
  then show ?thesis
    by (auto simp: exportTransactions_def streamTransactionCSV_def streamTransactionJSON_def split: option.splits if_splits)
qed

end
