(* ===== verification/Js_Float.thy ===== *)
theory Js_Float
  imports Complex_Main Amounts
begin

text \<open>
  JavaScript numbers that are not integers: a finite number is the rational value of a double,
  every operation rounds its exact result to the nearest double, ties to even. The sign of zero
  is not kept; nothing modelled here depends on it. \<open>parseFloat\<close>, \<open>Math.round\<close> and \<open>Math.ceil\<close>
  are the ones of the language.
\<close>

section \<open>Rounding\<close>

datatype jsnum = NaN | Infinity bool | Fin rat

text \<open>The exponent of the leading binary digit of a positive number.\<close>

definition leadExp :: "rat \<Rightarrow> int" where
  "leadExp q =
     (let (a, b) = quotient_of q; e = int (bitlen (nat a)) - int (bitlen (nat b))
      in if 2 powi e \<le> q then e else e - 1)"

definition ulp :: "rat \<Rightarrow> rat" where
  "ulp q = 2 powi (max (leadExp q) (- 1022) - 52)"

definition roundEven :: "rat \<Rightarrow> int" where
  "roundEven x = (let f = \<lfloor>x\<rfloor>; d = x - of_int f in if d < 1 / 2 \<or> d = 1 / 2 \<and> even f then f else f + 1)"

definition fl :: "rat \<Rightarrow> jsnum" where
  "fl q =
     (if q = 0 then Fin 0
      else let r = of_int (roundEven (\<bar>q\<bar> / ulp \<bar>q\<bar>)) * ulp \<bar>q\<bar>
           in if 2 ^ 1024 \<le> r then Infinity (q < 0) else Fin (if q < 0 then - r else r))"

section \<open>Operations\<close>

fun numMult :: "jsnum \<Rightarrow> jsnum \<Rightarrow> jsnum" where
  "numMult (Fin a) (Fin b) = fl (a * b)"
| "numMult (Infinity s) (Infinity t) = Infinity (s \<noteq> t)"
| "numMult (Infinity s) (Fin b) = (if b = 0 then NaN else Infinity (s \<noteq> (b < 0)))"
| "numMult (Fin a) (Infinity t) = (if a = 0 then NaN else Infinity (t \<noteq> (a < 0)))"
| "numMult _ _ = NaN"

fun numLe :: "jsnum \<Rightarrow> jsnum \<Rightarrow> bool" where
  "numLe (Fin a) (Fin b) = (a \<le> b)"
| "numLe (Infinity s) (Infinity t) = (s \<or> \<not> t)"
| "numLe (Infinity s) (Fin b) = s"
| "numLe (Fin a) (Infinity t) = (\<not> t)"
| "numLe _ _ = False"

fun numLess :: "jsnum \<Rightarrow> jsnum \<Rightarrow> bool" where
  "numLess (Fin a) (Fin b) = (a < b)"
| "numLess (Infinity s) (Infinity t) = (s \<and> \<not> t)"
| "numLess (Infinity s) (Fin b) = s"
| "numLess (Fin a) (Infinity t) = (\<not> t)"
| "numLess _ _ = False"

fun Math_round :: "jsnum \<Rightarrow> jsnum" where
  "Math_round (Fin q) = Fin (of_int \<lfloor>q + 1 / 2\<rfloor>)"
| "Math_round x = x"

fun Math_ceil :: "jsnum \<Rightarrow> jsnum" where
  "Math_ceil (Fin q) = Fin (of_int \<lceil>q\<rceil>)"
| "Math_ceil x = x"

text \<open>\<open>BigInt(x)\<close> of a number throws unless the number is an integer.\<close>

fun BigIntOfNumber :: "jsnum \<Rightarrow> int result" where
  "BigIntOfNumber (Fin q) = (if of_int \<lfloor>q\<rfloor> = q then Inr \<lfloor>q\<rfloor> else Inl RangeError)"
| "BigIntOfNumber _ = Inl RangeError"

section \<open>parseFloat\<close>

text \<open>The longest prefix that is a decimal literal: digits, a point, digits, an exponent.\<close>

definition exponentOf :: "string \<Rightarrow> int" where
  "exponentOf s =
     (case s of
        c # cs \<Rightarrow>
          if c = CHR ''e'' \<or> c = CHR ''E''
          then (let neg = (cs \<noteq> [] \<and> hd cs = CHR ''-'');
                    ds = takeWhile is_digit (if cs \<noteq> [] \<and> (hd cs = CHR ''-'' \<or> hd cs = CHR ''+'') then tl cs else cs)
                in if neg then - int (digitsVal ds) else int (digitsVal ds))
          else 0
      | [] \<Rightarrow> 0)"

definition unsignedFloat :: "string \<Rightarrow> rat option" where
  "unsignedFloat s =
     (let a = takeWhile is_digit s;
          rest = dropWhile is_digit s;
          point = (rest \<noteq> [] \<and> hd rest = CHR ''.'');
          b = (if point then takeWhile is_digit (tl rest) else []);
          rest2 = (if point then dropWhile is_digit (tl rest) else rest)
      in if a = [] \<and> b = [] then None
         else Some (of_nat (digitsVal (a @ b)) * 10 powi (exponentOf rest2 - int (length b))))"

definition parseFloat :: "string \<Rightarrow> jsnum" where
  "parseFloat s0 =
     (let s1 = dropWhile is_ws s0;
          neg = (s1 \<noteq> [] \<and> hd s1 = CHR ''-'');
          s = (if s1 \<noteq> [] \<and> (hd s1 = CHR ''-'' \<or> hd s1 = CHR ''+'') then tl s1 else s1)
      in if take 8 s = ''Infinity'' then Infinity neg
         else case unsignedFloat s of None \<Rightarrow> NaN | Some q \<Rightarrow> fl (if neg then - q else q))"

section \<open>The rounding error\<close>

lemma bitlen_bounds: "0 < m \<Longrightarrow> 2 ^ (bitlen m - 1) \<le> m \<and> m < 2 ^ bitlen m \<and> 0 < bitlen m"
proof (induction m rule: bitlen.induct)
  case (1 n)
  show ?case
  proof (cases "n = 1")
    case True
    then show ?thesis by (simp add: bitlen.simps)
  next
    case False
    with 1 have "0 < n div 2" by simp
    with 1 have ih: "2 ^ (bitlen (n div 2) - 1) \<le> n div 2" "n div 2 < 2 ^ bitlen (n div 2)" "0 < bitlen (n div 2)" by auto
    have b: "bitlen n = Suc (bitlen (n div 2))" using 1 by (subst bitlen.simps) simp
    have "2 ^ bitlen (n div 2) = 2 * (2::nat) ^ (bitlen (n div 2) - 1)" using ih(3) by (cases "bitlen (n div 2)") simp_all
    also have "\<dots> \<le> n" using ih(1) by linarith
    finally have "2 ^ bitlen (n div 2) \<le> n" .
    moreover have "n < 2 * 2 ^ bitlen (n div 2)" using ih(2) by linarith
    ultimately show ?thesis by (simp add: b)
  qed
qed

lemma powi_pos [simp]: "(0::rat) < 2 powi e"
  by simp

lemma bitlen_rat:
  assumes "0 < a"
  shows "2 ^ (bitlen (nat a) - 1) \<le> (of_int a :: rat)" "of_int a < (2::rat) ^ bitlen (nat a)"
proof -
  have a: "(of_int a :: rat) = of_nat (nat a)" using assms by simp
  have m: "2 ^ (bitlen (nat a) - 1) \<le> nat a" "nat a < 2 ^ bitlen (nat a)" using bitlen_bounds [of "nat a"] assms by auto
  have "(of_nat (2 ^ (bitlen (nat a) - 1)) :: rat) \<le> of_nat (nat a)" using m(1) by (simp only: of_nat_le_iff)
  then show "2 ^ (bitlen (nat a) - 1) \<le> (of_int a :: rat)" by (simp only: a of_nat_power of_nat_numeral)
  have "(of_nat (nat a) :: rat) < of_nat (2 ^ bitlen (nat a))" using m(2) by (simp only: of_nat_less_iff)
  then show "of_int a < (2::rat) ^ bitlen (nat a)" by (simp only: a of_nat_power of_nat_numeral)
qed

lemma leadExp_bounds:
  assumes "0 < q"
  shows "2 powi leadExp q \<le> q" "q < 2 powi (leadExp q + 1)"
proof -
  obtain a b where ab: "quotient_of q = (a, b)" by (metis surj_pair)
  have b: "0 < b" using quotient_of_denom_pos [OF ab] .
  have q: "q = of_int a / of_int b" using quotient_of_div [OF ab] .
  with assms b have a: "0 < a" by (simp add: zero_less_divide_iff)
  let ?m = "bitlen (nat a)" and ?n = "bitlen (nat b)"
  let ?e = "int ?m - int ?n"
  have A: "2 ^ (?m - 1) \<le> nat a" "nat a < 2 ^ ?m" "0 < ?m" using bitlen_bounds [of "nat a"] a by auto
  have B: "2 ^ (?n - 1) \<le> nat b" "nat b < 2 ^ ?n" "0 < ?n" using bitlen_bounds [of "nat b"] b by auto
  have A': "2 ^ (?m - 1) \<le> (of_int a :: rat)" "of_int a < (2::rat) ^ ?m"
    using bitlen_rat [OF a] .
  have B': "2 ^ (?n - 1) \<le> (of_int b :: rat)" "of_int b < (2::rat) ^ ?n"
    using bitlen_rat [OF b] .
  have lo: "2 powi (?e - 1) < q"
  proof -
    have "(2::rat) powi (?e - 1) = 2 ^ (?m - 1) / 2 ^ ?n"
      using A(3) by (simp add: power_int_diff power_diff flip: power_int_of_nat)
    also have "\<dots> < of_int a / of_int b" using A' B' b by (intro frac_less2) auto
    finally show ?thesis by (simp add: q)
  qed
  have hi: "q < 2 powi (?e + 1)"
  proof -
    have "q = of_int a / of_int b" by (rule q)
    also have "\<dots> < 2 ^ ?m / 2 ^ (?n - 1)" using A' B' a by (intro frac_less) auto
    also have "\<dots> = 2 powi (?e + 1)"
      using B(3) by (simp add: power_int_diff power_int_add power_diff)
    finally show ?thesis .
  qed
  have L: "leadExp q = (if 2 powi ?e \<le> q then ?e else ?e - 1)" by (simp add: leadExp_def ab)
  show "2 powi leadExp q \<le> q" using lo by (simp add: L)
  show "q < 2 powi (leadExp q + 1)" using hi by (simp add: L)
qed

lemma ulp_pos [simp]: "0 < ulp q"
  by (simp add: ulp_def)

lemma ulp_small:
  assumes "2 powi (- 1022) \<le> q"
  shows "ulp q \<le> q / 2 ^ 52"
proof -
  have q: "0 < q" using assms by (rule less_le_trans [OF powi_pos])
  have "2 powi max (leadExp q) (- 1022) \<le> q" using leadExp_bounds(1) [OF q] assms by (simp add: max_def)
  moreover have "ulp q = 2 powi max (leadExp q) (- 1022) / 2 ^ 52" by (simp add: ulp_def power_int_diff)
  ultimately show ?thesis by (simp add: divide_right_mono)
qed

lemma roundEven_error: "\<bar>of_int (roundEven x) - x\<bar> \<le> 1 / 2"
proof -
  have "of_int \<lfloor>x\<rfloor> \<le> x" "x < of_int \<lfloor>x\<rfloor> + 1" by linarith+
  then show ?thesis by (auto simp: roundEven_def Let_def abs_le_iff field_simps)
qed

lemma roundEven_ge: "of_int k \<le> x \<Longrightarrow> k \<le> roundEven x"
proof -
  assume "of_int k \<le> x"
  then have "k \<le> \<lfloor>x\<rfloor>" by (simp add: le_floor_iff)
  then show "k \<le> roundEven x" by (auto simp: roundEven_def Let_def)
qed

lemma roundEven_int [simp]: "roundEven (of_int k) = k"
  by (simp add: roundEven_def)

text \<open>In the range of the normal numbers the relative error is at most \<open>2\<^sup>-\<^sup>5\<^sup>3\<close>.\<close>

lemma fl_error:
  assumes "2 powi (- 1022) \<le> q" "q \<le> 2 ^ 1023"
  shows "\<exists>r. fl q = Fin r \<and> \<bar>r - q\<bar> \<le> q / 2 ^ 53"
proof -
  have q: "0 < q" using assms(1) by (rule less_le_trans [OF powi_pos])
  let ?u = "ulp q"
  let ?r = "of_int (roundEven (q / ?u)) * ?u"
  have "?r - q = (of_int (roundEven (q / ?u)) - q / ?u) * ?u" by (simp add: left_diff_distrib less_imp_neq [OF ulp_pos, symmetric])
  then have "\<bar>?r - q\<bar> = \<bar>of_int (roundEven (q / ?u)) - q / ?u\<bar> * ?u" by (simp add: abs_mult less_imp_le)
  also have "\<dots> \<le> 1 / 2 * ?u" using roundEven_error by (intro mult_right_mono) (simp_all add: less_imp_le)
  also have "\<dots> \<le> q / 2 ^ 53" using ulp_small [OF assms(1)] by simp
  finally have e: "\<bar>?r - q\<bar> \<le> q / 2 ^ 53" .
  then have "?r \<le> q + q / 2 ^ 53" by linarith
  also have "\<dots> < 2 ^ 1024" using assms(2) by simp
  finally have "\<not> 2 ^ 1024 \<le> ?r" by simp
  with q e show ?thesis by (auto simp: fl_def Let_def)
qed

lemma ulp_lead: "1 \<le> q \<Longrightarrow> ulp q = 2 powi (leadExp q - 52)"
proof -
  assume q1: "1 \<le> q"
  have "0 \<le> leadExp q"
  proof (rule ccontr)
    assume "\<not> 0 \<le> leadExp q"
    then have "(2::rat) powi (leadExp q + 1) \<le> 2 powi 0" by (intro power_int_increasing) auto
    then show False using leadExp_bounds(2) [of q] q1 by simp
  qed
  then show ?thesis by (simp add: ulp_def)
qed

lemma ulp_frac: "1 \<le> q \<Longrightarrow> leadExp q \<le> 52 \<Longrightarrow> ulp q = 1 / 2 ^ nat (52 - leadExp q)"
proof -
  assume "1 \<le> q" "leadExp q \<le> 52"
  then have "ulp q = 2 powi (- int (nat (52 - leadExp q)))" by (simp add: ulp_lead)
  then show ?thesis by (simp only: power_int_minus power_int_of_nat inverse_eq_divide)
qed

text \<open>An integer of at most 53 bits below a number is below its rounded value.\<close>

lemma fl_ge:
  assumes "0 < n" "n \<le> 2 ^ 53" "of_int n \<le> q" "q \<le> 2 ^ 1023"
  shows "\<exists>r. fl q = Fin r \<and> of_int n \<le> r"
proof -
  have q1: "1 \<le> q" using assms(1,3) by (meson int_one_le_iff_zero_less of_int_1_le_iff order_trans)
  then have q: "0 < q" by simp
  have "(2::rat) powi (- 1022) \<le> 1" by simp
  with q1 obtain r where r: "fl q = Fin r" using fl_error [of q] assms(4) by force
  have rr: "r = of_int (roundEven (q / ulp q)) * ulp q"
    using r q by (auto simp: fl_def Let_def split: if_splits)
  have "of_int n \<le> r"
  proof (cases "leadExp q \<le> 52")
    case True
    let ?k = "nat (52 - leadExp q)"
    have u': "ulp q = 1 / 2 ^ ?k" using ulp_frac [OF q1 True] .
    have "of_int (n * 2 ^ ?k) \<le> q / ulp q" using assms(3) by (simp add: u')
    then have "n * 2 ^ ?k \<le> roundEven (q / ulp q)" by (rule roundEven_ge)
    then have "of_int (n * 2 ^ ?k) * ulp q \<le> r" unfolding rr by (intro mult_right_mono) (simp_all only: of_int_le_iff less_imp_le ulp_pos)
    then show ?thesis by (simp add: u')
  next
    case False
    have "2 powi leadExp q = 2 ^ 52 * ulp q" using ulp_lead [OF q1] by (simp add: power_int_diff)
    then have "of_int (2 ^ 52) \<le> q / ulp q" using leadExp_bounds(1) [OF q] by (simp add: pos_le_divide_eq)
    then have "2 ^ 52 \<le> roundEven (q / ulp q)" by (rule roundEven_ge)
    then have "of_int (2 ^ 52) * ulp q \<le> r" unfolding rr by (intro mult_right_mono) (simp_all only: of_int_le_iff less_imp_le ulp_pos)
    moreover have "(2::rat) \<le> ulp q" using False ulp_lead [OF q1] power_int_increasing [of 1 "leadExp q - 52" "2::rat"] by simp
    moreover have "of_int n \<le> (2 ^ 53 :: rat)" using assms(2) by (metis of_int_le_iff of_int_numeral of_int_power)
    ultimately show ?thesis by simp
  qed
  with r show ?thesis by blast
qed

text \<open>The integers of at most 53 bits are not rounded.\<close>

lemma fl_int:
  assumes "0 \<le> n" "n \<le> 2 ^ 53"
  shows "fl (of_int n) = Fin (of_int n)"
proof (cases "n = 0")
  case False
  let ?q = "of_int n :: rat"
  have q1: "1 \<le> ?q" using False assms(1) by simp
  have le: "?q \<le> 2 ^ 53" using assms(2) by (metis of_int_le_iff of_int_numeral of_int_power)
  have "\<exists>k. ?q / ulp ?q = of_int k"
  proof (cases "leadExp ?q \<le> 52")
    case True
    have "?q / ulp ?q = of_int (n * 2 ^ nat (52 - leadExp ?q))" by (simp add: ulp_frac [OF q1 True])
    then show ?thesis by blast
  next
    case False
    then have "(2::rat) powi 53 \<le> 2 powi leadExp ?q" by (intro power_int_increasing) auto
    then have "?q = 2 ^ 53" using leadExp_bounds(1) [of ?q] q1 le by simp
    moreover from this have "leadExp ?q = 53" using False leadExp_bounds(1) [of ?q] q1 power_int_increasing [of 54 "leadExp ?q" "2::rat"]
      by (cases "54 \<le> leadExp ?q") auto
    moreover from this have "ulp ?q = 2" using ulp_lead [OF q1] by simp
    ultimately have "?q / ulp ?q = of_int (2 ^ 52)" by simp
    then show ?thesis by blast
  qed
  then obtain k where k: "?q / ulp ?q = of_int k" by blast
  then have "of_int k * ulp ?q = ?q" by (metis less_irrefl nonzero_eq_divide_eq ulp_pos)
  moreover have "\<not> 2 ^ 1024 \<le> ?q"
  proof -
    have "(2::rat) ^ 53 < 2 ^ 1024" by (intro power_strict_increasing) auto
    with le show ?thesis by linarith
  qed
  ultimately show ?thesis using q1 k by (simp add: fl_def)
qed (simp add: fl_def)

text \<open>Evaluation: the exponent, and the multiple of the unit that is nearest.\<close>

lemma leadExp_unique:
  assumes "2 powi e \<le> q" "q < 2 powi (e + 1)"
  shows "leadExp q = e"
proof -
  have q: "0 < q" using assms(1) by (rule less_le_trans [OF powi_pos])
  have "\<not> e + 1 \<le> leadExp q" "\<not> leadExp q + 1 \<le> e"
    using leadExp_bounds [OF q] assms power_int_increasing [of "e + 1" "leadExp q" "2::rat"] power_int_increasing [of "leadExp q + 1" e "2::rat"]
    by auto
  then show ?thesis by simp
qed

lemma roundEven_unique:
  assumes "\<bar>x - of_int k\<bar> < 1 / 2"
  shows "roundEven x = k"
proof -
  have "\<bar>of_int (roundEven x) - of_int k\<bar> < (1::rat)" using roundEven_error [of x] assms by linarith
  then have "(of_int \<bar>roundEven x - k\<bar> :: rat) < of_int 1" by simp
  then have "\<bar>roundEven x - k\<bar> < 1" by (simp only: of_int_less_iff)
  then show ?thesis by simp
qed

lemma fl_eval:
  assumes "2 powi e \<le> q" "q < 2 powi (e + 1)" "- 1022 \<le> e" "e \<le> 1022" "\<bar>q / 2 powi (e - 52) - of_int k\<bar> < 1 / 2"
  shows "fl q = Fin (of_int k * 2 powi (e - 52))"
proof -
  have q: "0 < q" using assms(1) by (rule less_le_trans [OF powi_pos])
  have u: "ulp q = 2 powi (e - 52)" using leadExp_unique [OF assms(1,2)] assms(3) by (simp add: ulp_def)
  have lo: "2 powi (- 1022) \<le> q" using assms(1,3) power_int_increasing [of "- 1022" e "2::rat"] by simp
  have "(2::rat) powi (e + 1) \<le> 2 powi 1023" using assms(4) by (intro power_int_increasing) auto
  then have "q \<le> 2 ^ 1023" using assms(2) by simp
  with lo obtain r where "fl q = Fin r" using fl_error by blast
  then show ?thesis using q roundEven_unique [OF assms(5)] by (auto simp: fl_def Let_def u split: if_splits)
qed

section \<open>Decimal texts\<close>

lemma js_split_two: "js_split sep t = [a, b] \<Longrightarrow> t = a @ sep # b"
  using js_split_join [of sep t "[a, b]"] by simp

lemma js_split_single: "js_split sep t = [a] \<Longrightarrow> t = a"
  by (induction t arbitrary: a) (auto split: if_splits list.splits)

lemma digits_then:
  assumes "list_all is_digit a" "rest = [] \<or> \<not> is_digit (hd rest)"
  shows "takeWhile is_digit (a @ rest) = a" "dropWhile is_digit (a @ rest) = rest"
proof -
  have "takeWhile is_digit rest = []" "dropWhile is_digit rest = rest" using assms(2) by (cases rest; simp)+
  then show "takeWhile is_digit (a @ rest) = a" "dropWhile is_digit (a @ rest) = rest"
    using assms(1) by (induction a) simp_all
qed

text \<open>What follows the text does not matter when it starts with white space.\<close>

lemma unsignedFloat_decimal:
  assumes "pointSplit t a b" "list_all is_digit a" "list_all is_digit b" "a \<noteq> [] \<or> b \<noteq> []" "list_all is_ws w"
  shows "unsignedFloat (t @ w) = Some (of_nat (digitsVal (a @ b)) / 10 ^ length b)"
proof -
  have w: "w = [] \<or> \<not> is_digit (hd w)" "w \<noteq> [] \<Longrightarrow> hd w \<noteq> CHR ''.''" "exponentOf w = 0"
    using assms(5) by (cases w; auto simp: is_ws_def is_digit_def code_def exponentOf_def)+
  have p: "\<not> is_digit CHR ''.''" by (simp add: is_digit_def code_def)
  show ?thesis
  proof (cases "js_split CHR ''.'' t = [a, b]")
    case True
    have t: "t = a @ CHR ''.'' # b" using js_split_two [OF True] .
    have b: "takeWhile is_digit (b @ w) = b" "dropWhile is_digit (b @ w) = w" using digits_then [OF assms(3) w(1)] by simp_all
    have a: "takeWhile is_digit (t @ w) = a" "dropWhile is_digit (t @ w) = CHR ''.'' # b @ w"
      using digits_then [OF assms(2), of "CHR ''.'' # b @ w"] p by (simp_all add: t)
    show ?thesis using assms(4) by (simp add: unsignedFloat_def Let_def a b w(3) power_int_minus divide_inverse)
  next
    case False
    then have t: "t = a" "b = []" using assms(1) js_split_single [of "CHR ''.''" t a] by (auto simp: pointSplit_def)
    have a: "takeWhile is_digit (a @ w) = a" "dropWhile is_digit (a @ w) = w" using digits_then [OF assms(2) w(1)] by simp_all
    show ?thesis using assms(4) w(2) by (auto simp: unsignedFloat_def Let_def t a w(3))
  qed
qed

lemma trim_split: "\<exists>w. dropWhile is_ws s = trim s @ w \<and> list_all is_ws w"
proof -
  let ?r = "rev (dropWhile is_ws s)"
  have "dropWhile is_ws s = trim s @ rev (takeWhile is_ws ?r)"
    unfolding trim_def by (metis rev_append rev_rev_ident takeWhile_dropWhile_id)
  moreover have "list_all is_ws (rev (takeWhile is_ws ?r))" by (auto simp: list_all_iff dest: set_takeWhileD)
  ultimately show ?thesis by blast
qed

lemma parseFloat_decimal:
  assumes "pointSplit (trim s) a b" "list_all is_digit a" "list_all is_digit b" "a \<noteq> [] \<or> b \<noteq> []"
  shows "parseFloat s = fl (of_nat (digitsVal (a @ b)) / 10 ^ length b)"
proof -
  let ?t = "trim s"
  obtain w where w: "dropWhile is_ws s = ?t @ w" "list_all is_ws w" using trim_split by blast
  have t: "?t \<noteq> []" "is_digit (hd ?t) \<or> hd ?t = CHR ''.''"
    using assms js_split_two [of "CHR ''.''" ?t a b] js_split_single [of "CHR ''.''" ?t a]
    by (auto simp: pointSplit_def list_all_iff hd_append)
  then have "hd ?t \<noteq> CHR ''-''" "hd ?t \<noteq> CHR ''+''" "hd ?t \<noteq> CHR ''I''"
    by (auto simp: is_digit_def code_def)
  moreover from this t have "take 8 (?t @ w) \<noteq> ''Infinity''" by (cases ?t; auto)
  ultimately show ?thesis using unsignedFloat_decimal [OF assms w(2)] t by (simp add: parseFloat_def Let_def w(1))
qed

lemma parseFloat_whole:
  assumes "list_all is_digit s" "s \<noteq> []" "digitsVal s \<le> 2 ^ 53"
  shows "parseFloat s = Fin (of_nat (digitsVal s))"
proof -
  have "pointSplit (trim s) s []"
    using no_point_digits [OF assms(1)] trim_digits [OF assms(1)] by (simp add: pointSplit_def js_split_no_sep)
  from parseFloat_decimal [OF this assms(1)] assms(2) have "parseFloat s = fl (of_nat (digitsVal s))" by simp
  moreover have "int (digitsVal s) \<le> 2 ^ 53" using assms(3) by simp
  ultimately show ?thesis using fl_int [of "int (digitsVal s)"] by simp
qed

text \<open>White space around a text does not change what \<open>parseFloat\<close> reads.\<close>

lemma digits_then_ws:
  assumes "list_all is_ws w"
  shows "takeWhile is_digit (t @ w) = takeWhile is_digit t" "dropWhile is_digit (t @ w) = dropWhile is_digit t @ w"
proof -
  have "w = [] \<or> \<not> is_digit (hd w)" using assms by (cases w) (auto dest: not_ws_digit)
  then have "takeWhile is_digit w = []" "dropWhile is_digit w = w" by (cases w; simp)+
  then show "takeWhile is_digit (t @ w) = takeWhile is_digit t" "dropWhile is_digit (t @ w) = dropWhile is_digit t @ w"
    by (induction t) simp_all
qed

lemma ws_hd:
  assumes "list_all is_ws w" "\<not> is_ws c"
  shows "(t @ w \<noteq> [] \<and> hd (t @ w) = c) = (t \<noteq> [] \<and> hd t = c)"
  using assms by (cases t; cases w) auto

lemma exponentOf_ws: "list_all is_ws w \<Longrightarrow> exponentOf (t @ w) = exponentOf t"
proof -
  assume w: "list_all is_ws w"
  have e: "\<not> is_ws CHR ''e''" "\<not> is_ws CHR ''E''" "\<not> is_ws CHR ''-''" "\<not> is_ws CHR ''+''" by (simp_all add: is_ws_def code_def)
  show ?thesis
  proof (cases t)
    case Nil
    with w e show ?thesis by (cases w) (auto simp: exponentOf_def)
  next
    case (Cons c cs)
    have tlw: "cs \<noteq> [] \<Longrightarrow> tl (cs @ w) = tl cs @ w" by (cases cs) simp_all
    have w0: "takeWhile is_digit w = []" using digits_then_ws(1) [OF w, of "[]"] by simp
    show ?thesis
    proof (cases "cs = []")
      case True
      with w0 ws_hd [OF w e(3), of "[]"] ws_hd [OF w e(4), of "[]"] show ?thesis by (auto simp: Cons exponentOf_def)
    next
      case False
      with tlw show ?thesis by (simp add: Cons exponentOf_def digits_then_ws [OF w])
    qed
  qed
qed

lemma unsignedFloat_ws: "list_all is_ws w \<Longrightarrow> unsignedFloat (t @ w) = unsignedFloat t"
proof -
  assume w: "list_all is_ws w"
  let ?r = "dropWhile is_digit t"
  have p: "(?r @ w \<noteq> [] \<and> hd (?r @ w) = CHR ''.'') = (?r \<noteq> [] \<and> hd ?r = CHR ''.'')"
    using w by (rule ws_hd) (simp add: is_ws_def code_def)
  have tlr: "?r \<noteq> [] \<Longrightarrow> tl (?r @ w) = tl ?r @ w" by (cases ?r) simp_all
  show ?thesis
  proof (cases "?r \<noteq> [] \<and> hd ?r = CHR ''.''")
    case True
    then show ?thesis using p tlr by (simp add: unsignedFloat_def Let_def digits_then_ws [OF w] exponentOf_ws [OF w] del: dropWhile_eq_Nil_conv)
  next
    case False
    then show ?thesis using p unfolding unsignedFloat_def Let_def digits_then_ws [OF w] by (simp only: exponentOf_ws [OF w] if_False simp_thms)
  qed
qed

lemma infinity_ws: "list_all is_ws w \<Longrightarrow> take 8 (t @ w) = ''Infinity'' \<longleftrightarrow> take 8 t = ''Infinity''"
proof
  assume w: "list_all is_ws w" and t: "take 8 (t @ w) = ''Infinity''"
  show "take 8 t = ''Infinity''"
  proof (cases "8 \<le> length t")
    case False
    let ?v = "take (8 - length t) w"
    have v: "t @ ?v = ''Infinity''" using t False by simp
    have "list_all is_ws ?v" using w by (auto simp: list_all_iff dest: in_set_takeD)
    moreover have "list_all (\<lambda>c. \<not> is_ws c) (t @ ?v)" unfolding v by (simp add: is_ws_def code_def)
    ultimately have "?v = []" by (cases ?v) auto
    with v show ?thesis by simp
  qed (use t in simp)
next
  assume t: "take 8 t = ''Infinity''"
  then have "length (take 8 t) = 8" by simp
  then have "8 \<le> length t" by (simp add: min_def split: if_splits)
  with t show "take 8 (t @ w) = ''Infinity''" by simp
qed

lemma parseFloat_trim: "parseFloat (trim s) = parseFloat s"
proof -
  let ?t = "trim s"
  obtain w where w: "dropWhile is_ws s = ?t @ w" "list_all is_ws w"
    using trim_split [of s] by blast
  have "\<not> is_ws (hd ?t)" if "?t \<noteq> []"
  proof -
    have "dropWhile is_ws s \<noteq> []" using w(1) that by simp
    then have "\<not> is_ws (hd (dropWhile is_ws s))" by (rule hd_dropWhile)
    with w(1) that show ?thesis by simp
  qed
  then have tt: "dropWhile is_ws ?t = ?t" by (cases ?t) simp_all
  have c: "\<not> is_ws CHR ''-''" "\<not> is_ws CHR ''+''" by (simp_all add: is_ws_def code_def)
  let ?sg = "?t \<noteq> [] \<and> (hd ?t = CHR ''-'' \<or> hd ?t = CHR ''+'')"
  have sg: "(?t @ w \<noteq> [] \<and> (hd (?t @ w) = CHR ''-'' \<or> hd (?t @ w) = CHR ''+'')) = ?sg"
    using ws_hd [OF w(2) c(1), of ?t] ws_hd [OF w(2) c(2), of ?t] by blast
  have u: "(if ?sg then tl (?t @ w) else ?t @ w) = (if ?sg then tl ?t else ?t) @ w" by (cases ?t) simp_all
  show ?thesis
    unfolding parseFloat_def Let_def w(1) tt sg u ws_hd [OF w(2) c(1)] unsignedFloat_ws [OF w(2)] infinity_ws [OF w(2)] ..
qed

section \<open>Scaling a decimal amount\<close>

text \<open>
  A decimal amount read as a double, multiplied by a power of ten and rounded is the exact
  number of base units, as long as that number has fewer than 52 bits.
\<close>

lemma rat_less_power: "n < 2 ^ k \<Longrightarrow> (of_int n :: rat) < 2 ^ k"
  using of_int_less_iff [of n "2 ^ k", where ?'a = rat] by (simp only: of_int_power of_int_numeral)

lemma first_error:
  fixes m z :: rat
  assumes "\<bar>z - m\<bar> \<le> m / 2 ^ 53" "1 \<le> m" "m \<le> 2 ^ 51 - 1"
  shows "m / 2 \<le> z" "z \<le> m + 1 / 4"
proof -
  have "z - m \<le> m / 2 ^ 53" "- (z - m) \<le> m / 2 ^ 53" using assms(1) by (simp_all only: abs_le_iff)
  then show "m / 2 \<le> z" "z \<le> m + 1 / 4" using assms(2,3) by simp_all
qed

lemma second_error:
  fixes m z y :: rat
  assumes "\<bar>z - m\<bar> \<le> m / 2 ^ 53" "1 \<le> m" "m \<le> 2 ^ 51 - 1" "\<bar>y - z\<bar> \<le> z / 2 ^ 53"
  shows "m - 1 / 2 < y" "y < m + 1 / 2"
proof -
  have "z - m \<le> m / 2 ^ 53" "- (z - m) \<le> m / 2 ^ 53" "y - z \<le> z / 2 ^ 53" "- (y - z) \<le> z / 2 ^ 53"
    using assms(1,4) by (simp_all only: abs_le_iff)
  then show "m - 1 / 2 < y" "y < m + 1 / 2" using assms(2,3) first_error [OF assms(1-3)] by simp_all
qed

lemma scaled_exact:
  assumes "0 < n" "n < 2 ^ 51" "d \<le> 15"
  shows "\<exists>x. fl (of_int n / 10 ^ d) = Fin x \<and> 0 < x \<and> Math_round (numMult (Fin x) (fl (10 ^ d))) = Fin (of_int n)"
proof -
  let ?n = "of_int n :: rat" and ?p = "10 ^ d :: rat" and ?\<delta> = "1 / 2 ^ 53 :: rat"
  have n1: "1 \<le> ?n" and n2: "?n < 2 ^ 51" using assms(1) rat_less_power [OF assms(2)] by simp_all
  have "(of_int (n + 1) :: rat) \<le> of_int (2 ^ 51)" using assms(2) by (simp only: of_int_le_iff add1_zle_eq)
  then have n3: "?n \<le> 2 ^ 51 - 1" by (simp add: le_diff_eq)
  have p: "?p \<le> 10 ^ 15" "1 \<le> ?p" using power_increasing [OF assms(3), of "10::rat"] one_le_power [of "10::rat" d] by simp_all
  have fp: "fl ?p = Fin ?p"
    using fl_int [of "10 ^ d"] power_increasing [of d 15 "10::int"] assms(3) by simp
  have small: "(2::rat) powi (- 1022) \<le> 1 / 10 ^ 15" 
    by (simp add: power_int_minus field_simps)
  have big: "(2::rat) ^ 53 \<le> 2 ^ 1023" by (intro power_increasing) auto
  have "1 / 10 ^ 15 \<le> ?n / ?p" using n1 p by (intro frac_le) auto
  moreover have "?n / ?p \<le> 2 ^ 53"
  proof -
    have "?n / ?p \<le> ?n / 1" using n1 p(2) by (intro divide_left_mono) auto
    then show ?thesis using n2 by simp
  qed
  ultimately obtain x where x: "fl (?n / ?p) = Fin x" "\<bar>x - ?n / ?p\<bar> \<le> ?n / ?p / 2 ^ 53"
    using fl_error [of "?n / ?p"] small big by (meson order_trans)
  have "x * ?p - ?n = (x - ?n / ?p) * ?p" by (simp add: left_diff_distrib)
  then have "\<bar>x * ?p - ?n\<bar> = \<bar>x - ?n / ?p\<bar> * ?p" by (simp add: abs_mult)
  also have "\<dots> \<le> ?n / ?p / 2 ^ 53 * ?p" using x(2) p(2) by (intro mult_right_mono) auto
  finally have e1: "\<bar>x * ?p - ?n\<bar> \<le> ?n / 2 ^ 53" using p(2) by simp
  have lo: "?n / 2 \<le> x * ?p" and hi: "x * ?p \<le> ?n + 1 / 4" by (rule first_error [OF e1 n1 n3])+
  have "0 < x * ?p" using lo n1 by linarith
  then have x0: "0 < x" by (simp add: zero_less_mult_iff)
  obtain y where y: "fl (x * ?p) = Fin y" "\<bar>y - x * ?p\<bar> \<le> x * ?p / 2 ^ 53"
    using fl_error [of "x * ?p"] small big lo hi n1 n2 by force
  have "\<lfloor>y + 1 / 2\<rfloor> = n" using second_error [OF e1 n1 n3 y(2)] by (intro floor_unique) auto
  then show ?thesis using x x0 y(1) by (simp add: fp)
qed

end
