(* ===== verification/Wallet_Client.thy ===== *)
theory Wallet_Client
  imports Js_Float Csv_Export Action_Simulation
begin

text \<open>
  The web client's side of a stream: the checks of the creation form
  (\<open>frontend/src/lib/stream-validation.ts\<close>), the conversion of what was typed into amounts and
  durations, and the calls that a wallet signs (\<open>frontend/src/lib/soroban.ts\<close>). The RPC node, the
  wallet extension and the encoders of the Stellar SDK are the record \<open>wallet_net\<close>.
\<close>

section \<open>Amounts and durations\<close>

text \<open>A \<open>SorobanCallError\<close> has a message and a code; other exceptions are kept apart.\<close>

datatype call_error = SorobanCallError string string | NativeError err | NotAnError

type_synonym 'a call_result = "call_error + 'a"

definition nativeCall :: "'a result \<Rightarrow> 'a call_result" where
  "nativeCall r = map_sum NativeError id r"

datatype DurationUnit = Seconds | Minutes | Hours | Days | Weeks | Months

fun SECONDS_PER_UNIT :: "DurationUnit \<Rightarrow> int" where
  "SECONDS_PER_UNIT Seconds = 1"
| "SECONDS_PER_UNIT Minutes = 60"
| "SECONDS_PER_UNIT Hours = 3600"
| "SECONDS_PER_UNIT Days = 86400"
| "SECONDS_PER_UNIT Weeks = 604800"
| "SECONDS_PER_UNIT Months = 2592000"

definition toDurationSeconds :: "string \<Rightarrow> DurationUnit \<Rightarrow> int call_result" where
  "toDurationSeconds value unit =
     (let parsed = parseFloat value in
      if parsed = NaN \<or> numLe parsed (Fin 0) then Inl (SorobanCallError ''Duration must be a positive number.'' ''InvalidAmount'')
      else bindE (nativeCall (BigIntOfNumber (Math_round parsed))) (\<lambda>n. Inr (n * SECONDS_PER_UNIT unit)))"

definition toBaseUnits :: "string \<Rightarrow> nat \<Rightarrow> int call_result" where
  "toBaseUnits value decimals =
     (let parsed = parseFloat value in
      if parsed = NaN \<or> numLe parsed (Fin 0) then Inl (SorobanCallError ''Amount must be a positive number.'' ''InvalidAmount'')
      else nativeCall (BigIntOfNumber (Math_round (numMult parsed (fl (10 ^ decimals))))))"

definition fromBaseUnits :: "int \<Rightarrow> nat \<Rightarrow> string" where
  "fromBaseUnits units decimals =
     (let divisor = 10 ^ decimals;
          whole = units sdiv divisor;
          fraction = stripZeros (padStart (toString (units smod divisor)) decimals CHR ''0'')
      in if 0 < length fraction then toString whole @ ''.'' @ fraction else toString whole)"

definition getTokenAddress :: "(string \<rightharpoonup> string) \<Rightarrow> string \<Rightarrow> string call_result" where
  "getTokenAddress configured symbol =
     (let k = map upper_char symbol;
          address = (if k \<in> {''USDC'', ''XLM'', ''EURC''} then
                      (case configured k of
                         Some a \<Rightarrow> a
                       | None \<Rightarrow> if k = ''USDC'' then ''CBIELTK6YBZJU5UP2WWQEUCYKLPU6AUNZ2BQ4WWFEIE3USCIHMXQDAMA''
                                 else if k = ''XLM'' then ''CDLZFC3SYJYDZT7K67VZ75HPJVIEUVNIXF47ZG2FB2RMQQVU2HHGCN''
                                 else ''CCWAMYJME4YOIUNAKVYEBYOG5I65QMKEX2NMN4OJAPXRPIF24ONPSHY'')
                     else [])
      in if address = [] then Inl (SorobanCallError (''Unsupported token: '' @ symbol) ''Unknown'') else Inr address)"

section \<open>The form\<close>

record StreamFormData =
  sf_recipient :: string
  sf_token :: string
  sf_amount :: string
  sf_duration :: string
  sf_durationUnit :: DurationUnit

definition isValidStellarPublicKey :: "string \<Rightarrow> bool" where
  "isValidStellarPublicKey value = (let normalized = trim value in normalized \<noteq> [] \<and> stellarKey normalized)"

definition validateRecipient :: "string \<Rightarrow> string option" where
  "validateRecipient recpt =
     (let trimmed = trim recpt in
      if trimmed = [] then Some ''Recipient address is required''
      else if \<not> isValidStellarPublicKey trimmed then Some ''Invalid Stellar public key format''
      else None)"

definition validateToken :: "string \<Rightarrow> string option" where
  "validateToken token = (if token = [] \<or> trim token = [] then Some ''Please select a token'' else None)"

definition validateAmount :: "string \<Rightarrow> string option \<Rightarrow> string option" where
  "validateAmount amt walletBalance =
     (let trimmed = trim amt; parsed = parseFloat trimmed in
      if trimmed = [] then Some ''Amount is required''
      else if parsed = NaN \<or> numLe parsed (Fin 0) then Some ''Amount must be a positive number''
      else if \<not> hasValidPrecision trimmed 7 then Some ''Amount exceeds maximum precision (7 decimal places)''
      else case validateAmountInput trimmed 7 of
        Some deepCheck \<Rightarrow> Some deepCheck
      | None \<Rightarrow>
      case walletBalance of
        None \<Rightarrow> None
      | Some balance \<Rightarrow>
          if balance = [] then None
          else let available = parseFloat balance in
               if available \<noteq> NaN \<and> numLess available parsed then Some ''Amount exceeds wallet balance'' else None)"

definition validateDuration :: "string \<Rightarrow> string option" where
  "validateDuration duration =
     (let trimmed = trim duration; parsed = parseFloat trimmed in
      if trimmed = [] then Some ''Duration is required''
      else if parsed = NaN \<or> numLe parsed (Fin 0) then Some ''Duration must be a positive number''
      else None)"

text \<open>\<open>None\<close> is the flat form, \<open>Some n\<close> the step \<open>n\<close> of the wizard. The answer lists the fields with their errors.\<close>

definition validateStreamForm :: "StreamFormData \<Rightarrow> nat option \<Rightarrow> string option \<Rightarrow> (string \<times> string) list" where
  "validateStreamForm data step walletBalance =
     (let shouldValidate = (\<lambda>fieldStep. step = None \<or> step = Some fieldStep);
          check = (\<lambda>fieldStep field res. if shouldValidate fieldStep then (case res of None \<Rightarrow> [] | Some e \<Rightarrow> [(field, e)]) else [])
      in check 2 ''recipient'' (validateRecipient (sf_recipient data))
         @ check 3 ''token'' (validateToken (sf_token data))
         @ check 4 ''amount'' (validateAmount (sf_amount data) walletBalance)
         @ check 5 ''duration'' (validateDuration (sf_duration data)))"

section \<open>Calls signed by the wallet\<close>

datatype wallet_arg = Plain chain_arg | VecArg "int list"

type_synonym wallet_call = "string \<times> wallet_arg list"

datatype sim_answer = SimThrows call_error | SimFailed string | SimDone
datatype sign_answer = SignThrows call_error | SignRefused string | SignDone
datatype send_answer = SendThrows call_error | SendFailed string | SendDone string
datatype tx_status = StatusThrows call_error | TxSuccess | TxFailed | TxPending

text \<open>
  What the outside answers: encoding an argument, loading the account, making the contract
  object, the simulation, assembling, signing, reading the signed transaction back, sending,
  and the status at each poll. \<open>Some\<close> error means that the step throws.
\<close>

record wallet_net =
  wn_encode :: "wallet_arg \<Rightarrow> call_error option"
  wn_account :: "string \<Rightarrow> call_error option"
  wn_contractId :: string
  wn_contract :: "call_error option"
  wn_simulate :: "wallet_call \<Rightarrow> sim_answer"
  wn_assemble :: "call_error option"
  wn_sign :: "wallet_call \<Rightarrow> sign_answer"
  wn_reread :: "call_error option"
  wn_send :: "wallet_call \<Rightarrow> send_answer"
  wn_status :: "nat \<Rightarrow> tx_status"

fun contractThen :: "string \<Rightarrow> bool" where
  "contractThen [] = False"
| "contractThen (c # cs) =
     ((startsWith (c # cs) ''contract'' \<and>
       (let l = takeWhile (\<lambda>x. x \<noteq> CHR 0x0A \<and> x \<noteq> CHR 0x0D) (drop 8 (c # cs)) in contains ''not exist'' l \<or> contains ''not found'' l))
      \<or> contractThen cs)"

definition isContractNotFoundError :: "string \<Rightarrow> bool" where
  "isContractNotFoundError message =
     (let l = lower message in
      contractThen l \<or> contains ''missingvalue'' l \<or> contains ''no contract code for'' l \<or> contains ''no contract instance for'' l)"

definition contractNotFoundError :: "string \<Rightarrow> call_error" where
  "contractNotFoundError contractAddress =
     SorobanCallError (''No contract is deployed at address '' @ contractAddress @ '' on this network. Check that NEXT_PUBLIC_STREAM_CONTRACT_ID (or the relevant token address) is configured correctly for this environment.'') ''ContractNotFound''"

definition rejectedText :: "string \<Rightarrow> bool" where
  "rejectedText msg = (let l = lower msg in contains ''reject'' l \<or> contains ''cancel'' l \<or> contains ''denied'' l)"

definition orThrow :: "call_error option \<Rightarrow> unit call_result" where
  "orThrow x = (case x of None \<Rightarrow> Inr () | Some e \<Rightarrow> Inl e)"

fun confirmLoop :: "(nat \<Rightarrow> tx_status) \<Rightarrow> string \<Rightarrow> nat \<Rightarrow> nat \<Rightarrow> string call_result" where
  "confirmLoop st txHash i 0 = Inl (SorobanCallError ''Transaction confirmation timed out.'' ''NetworkError'')"
| "confirmLoop st txHash i (Suc k) =
     (case st i of
        StatusThrows e \<Rightarrow> Inl e
      | TxSuccess \<Rightarrow> Inr txHash
      | TxFailed \<Rightarrow> Inl (SorobanCallError ''Transaction failed on-chain.'' ''NetworkError'')
      | TxPending \<Rightarrow> confirmLoop st txHash (Suc i) k)"

text \<open>Up to the signature nothing leaves the browser; \<open>freighterPrepare\<close> is that part.\<close>

definition freighterPrepare :: "wallet_net \<Rightarrow> string \<Rightarrow> wallet_call \<Rightarrow> unit call_result" where
  "freighterPrepare N publicKey call =
     bindE (orThrow (wn_account N publicKey)) (\<lambda>_.
     bindE (orThrow (wn_contract N)) (\<lambda>_.
     bindE (case wn_simulate N call of
              SimThrows e \<Rightarrow> Inl e
            | SimFailed msg \<Rightarrow>
                if isContractNotFoundError msg then Inl (contractNotFoundError (wn_contractId N))
                else Inl (SorobanCallError (''Simulation failed: '' @ msg) ''NetworkError'')
            | SimDone \<Rightarrow> Inr ()) (\<lambda>_.
     bindE (orThrow (wn_assemble N)) (\<lambda>_.
     bindE (case wn_sign N call of
              SignThrows e \<Rightarrow> Inl e
            | SignRefused msg \<Rightarrow>
                if rejectedText msg then Inl (SorobanCallError ''Transaction was rejected in wallet.'' ''WalletRejected'')
                else Inl (SorobanCallError msg ''Unknown'')
            | SignDone \<Rightarrow> Inr ()) (\<lambda>_.
     orThrow (wn_reread N))))))"

text \<open>The result and the calls handed to the network.\<close>

definition freighterCall :: "wallet_net \<Rightarrow> string \<Rightarrow> wallet_call \<Rightarrow> string call_result \<times> wallet_call list" where
  "freighterCall N publicKey call =
     (case freighterPrepare N publicKey call of
        Inl e \<Rightarrow> (Inl e, [])
      | Inr _ \<Rightarrow>
          (case wn_send N call of
             SendThrows e \<Rightarrow> (Inl e, [call])
           | SendFailed msg \<Rightarrow> (Inl (SorobanCallError (''Transaction failed: '' @ msg) ''NetworkError''), [call])
           | SendDone txHash \<Rightarrow> (confirmLoop (wn_status N) txHash 0 20, [call])))"

text \<open>The arguments are encoded, in order, before the call is made.\<close>

definition walletInvoke :: "wallet_net \<Rightarrow> string \<Rightarrow> wallet_call \<Rightarrow> string call_result \<times> wallet_call list" where
  "walletInvoke N publicKey call =
     (case List.map_filter (wn_encode N) (snd call) of
        e # _ \<Rightarrow> (Inl e, [])
      | [] \<Rightarrow> freighterCall N publicKey call)"

record WalletCreateParams =
  wc_recipient :: string
  wc_tokenAddress :: string
  wc_amount :: int
  wc_durationSeconds :: int

definition createStreamCall :: "string \<Rightarrow> WalletCreateParams \<Rightarrow> wallet_call" where
  "createStreamCall publicKey params =
     (''create_stream'', map Plain [AddrArg publicKey, AddrArg (wc_recipient params), AddrArg (wc_tokenAddress params),
        I128Arg (wc_amount params), U64Arg (wc_durationSeconds params)])"

definition topUpStreamCall :: "string \<Rightarrow> int \<Rightarrow> int \<Rightarrow> wallet_call" where
  "topUpStreamCall publicKey sid amt = (''top_up_stream'', map Plain [AddrArg publicKey, U64Arg sid, I128Arg amt])"

definition cancelStreamCall :: "string \<Rightarrow> int \<Rightarrow> wallet_call" where
  "cancelStreamCall publicKey sid = (''cancel_stream'', map Plain [AddrArg publicKey, U64Arg sid])"

definition withdrawCall :: "string \<Rightarrow> int \<Rightarrow> wallet_call" where
  "withdrawCall publicKey sid = (''withdraw'', map Plain [AddrArg publicKey, U64Arg sid])"

definition batchWithdrawCall :: "int list \<Rightarrow> wallet_call" where
  "batchWithdrawCall streamIds = (''batch_withdraw'', [VecArg streamIds])"

definition pauseStreamCall :: "string \<Rightarrow> int \<Rightarrow> wallet_call" where
  "pauseStreamCall publicKey sid = (''pause_stream'', map Plain [AddrArg publicKey, U64Arg sid])"

definition resumeStreamCall :: "string \<Rightarrow> int \<Rightarrow> wallet_call" where
  "resumeStreamCall publicKey sid = (''resume_stream'', map Plain [AddrArg publicKey, U64Arg sid])"

text \<open>The balance query: an exception, a failed simulation, no value, or the decoded value.\<close>

datatype balance_value = NoBalance | BigintBalance int | NumberBalance rat | TextBalance string | OtherBalance

definition fetchTokenBalance ::
  "(string \<rightharpoonup> string) \<Rightarrow> (string \<Rightarrow> call_error + (string + balance_value)) \<Rightarrow> string \<Rightarrow> int call_result" where
  "fetchTokenBalance configured query tokenSymbol =
     bindE (getTokenAddress configured tokenSymbol) (\<lambda>tokenAddress.
     bindE (query tokenAddress) (\<lambda>answer.
     case answer of
       Inl msg \<Rightarrow>
         if isContractNotFoundError msg then Inl (contractNotFoundError tokenAddress)
         else Inl (SorobanCallError (''Failed to fetch token balance: '' @ msg) ''NetworkError'')
     | Inr NoBalance \<Rightarrow> Inl (SorobanCallError ''Token balance query returned no value.'' ''NetworkError'')
     | Inr (BigintBalance n) \<Rightarrow> Inr n
     | Inr (NumberBalance q) \<Rightarrow> Inr (if q < 0 then \<lceil>q\<rceil> else \<lfloor>q\<rfloor>)
     | Inr (TextBalance s) \<Rightarrow> nativeCall (of_opt SyntaxError (BigInt s))
     | Inr OtherBalance \<Rightarrow> Inl (SorobanCallError ''Token balance query returned an invalid value.'' ''NetworkError'')))"

definition fetchTokenBalanceDisplay ::
  "(string \<rightharpoonup> string) \<Rightarrow> (string \<Rightarrow> call_error + (string + balance_value)) \<Rightarrow> string \<Rightarrow> nat \<Rightarrow> string call_result" where
  "fetchTokenBalanceDisplay configured query tokenSymbol decimals =
     bindE (fetchTokenBalance configured query tokenSymbol) (\<lambda>rawBalance. Inr (fromBaseUnits rawBalance decimals))"

text \<open>The text shown for an error; \<open>textOf\<close> is the message of another error. The long dash of
  the second text is written as a hyphen.\<close>

definition toSorobanErrorMessage :: "(err \<Rightarrow> string) \<Rightarrow> call_error \<Rightarrow> string" where
  "toSorobanErrorMessage textOf e =
     (case e of
        SorobanCallError message c \<Rightarrow> message
      | NativeError x \<Rightarrow>
          (let msg = textOf x; l = lower msg in
           if rejectedText msg then ''Transaction was rejected in your wallet.''
           else if contains ''timeout'' l then ''Transaction timed out. The network may be congested - please try again.''
           else if contains ''insufficient'' l then ''Insufficient balance to complete this transaction.''
           else if contains ''simulation'' l then ''Contract simulation failed. Check your inputs and try again.''
           else msg)
      | NotAnError \<Rightarrow> ''An unexpected error occurred. Please try again.'')"

section \<open>What is typed is what is signed\<close>

lemma toBaseUnits_exact:
  assumes "pointSplit (trim s) a b" "list_all is_digit a" "list_all is_digit b" "length b \<le> d" "d \<le> 15"
    and "n = int (digitsVal (a @ b) * 10 ^ (d - length b))" "0 < n" "n < 2 ^ 51"
  shows "toBaseUnits s d = Inr n"
proof -
  have ne: "a \<noteq> [] \<or> b \<noteq> []" using assms(6,7) by auto
  have p: "(10::rat) ^ d = 10 ^ (d - length b) * 10 ^ length b" using assms(4) by (simp flip: power_add)
  have "(of_nat (digitsVal (a @ b)) / 10 ^ length b :: rat) = of_int n / 10 ^ d" by (simp add: assms(6) p)
  then have f: "parseFloat s = fl (of_int n / 10 ^ d)" using parseFloat_decimal [OF assms(1-3) ne] by simp
  obtain x where "fl (of_int n / 10 ^ d) = Fin x" "0 < x" "Math_round (numMult (Fin x) (fl (10 ^ d))) = Fin (of_int n)"
    using scaled_exact [OF assms(7,8,5)] by blast
  then show ?thesis by (simp add: toBaseUnits_def f nativeCall_def Let_def)
qed

text \<open>C21. An amount the form accepts is positive, and below \<open>2\<^sup>5\<^sup>1\<close> base units the floating-point conversion
  that is submitted agrees with the exact reading of the text.
\<close>
theorem accepted_amount_exact:
  assumes "validateAmount s bal = None"
  shows "\<exists>n. parseAmount s 7 = Inr n \<and> 0 < n \<and> (n < 2 ^ 51 \<longrightarrow> toBaseUnits s 7 = Inr n)"
proof -
  have "validateAmountInput (trim s) 7 = None"
    using assms by (auto simp: validateAmount_def Let_def split: if_splits option.splits)
  from validated_input_exact [OF this] obtain a b where ab: "pointSplit (trim s) a b" "list_all is_digit a" "list_all is_digit b"
    "length b \<le> 7" "0 < digitsVal (a @ b)" "parseAmount (trim s) 7 = Inr (int (digitsVal (a @ b) * 10 ^ (7 - length b)))"
    by (auto simp: trim_trim)
  let ?n = "int (digitsVal (a @ b) * 10 ^ (7 - length b))"
  have "parseAmount s 7 = Inr ?n" using ab(6) by (simp add: parseAmount_def trim_trim)
  moreover have pos: "0 < ?n" using ab(5) by simp
  moreover have "?n < 2 ^ 51 \<Longrightarrow> toBaseUnits s 7 = Inr ?n" using toBaseUnits_exact [OF ab(1-4) _ refl pos] by simp
  ultimately show ?thesis by blast
qed

theorem accepted_amount_exact_witness: "toBaseUnits ''12.5'' 7 = Inr 125000000"
proof -
  have s: "pointSplit (trim ''12.5'') ''12'' ''5''" "trim ''12.5'' = ''12.5''" by code_simp+
  have "parseFloat ''12.5'' = fl (125 / 10)" using parseFloat_decimal [OF s(1)] by (simp add: is_digit_def code_def digitsVal_def)
  also have "\<dots> = Fin (of_int 7036874417766400 * 2 powi (3 - 52))" by (rule fl_eval) (simp_all add: power_int_def power_divide)
  finally have "parseFloat ''12.5'' = Fin (25 / 2)" by (simp add: power_int_def power_divide)
  moreover have "hasValidPrecision ''12.5'' 7" "validateAmountInput ''12.5'' 7 = None" by code_simp+
  ultimately have "validateAmount ''12.5'' None = None" by (simp add: validateAmount_def s(2))
  from accepted_amount_exact [OF this] obtain n where n: "parseAmount ''12.5'' 7 = Inr n" "n < 2 ^ 51 \<longrightarrow> toBaseUnits ''12.5'' 7 = Inr n"
    by blast
  moreover have "parseAmount ''12.5'' 7 = Inr 125000000" using parse_parts [of "''12''" "''5''" 7] by (simp add: is_digit_def code_def digitsVal_def)
  ultimately show ?thesis by simp
qed

text \<open>Above 53 bits the two readings of the same accepted text differ.\<close>

lemma large_amount_altered:
  "parseAmount ''900719925.4740993'' 7 = Inr 9007199254740993 \<and> toBaseUnits ''900719925.4740993'' 7 = Inr 9007199254740992"
proof
  show "parseAmount ''900719925.4740993'' 7 = Inr 9007199254740993"
    using parse_parts [of "''900719925''" "''4740993''" 7] by (simp add: is_digit_def code_def digitsVal_def)
  have s: "pointSplit (trim ''900719925.4740993'') ''900719925'' ''4740993''" by code_simp
  have v: "digitsVal (''900719925'' @ ''4740993'') = 9007199254740993" by (simp add: digitsVal_def code_def)
  have "parseFloat ''900719925.4740993'' = fl (9007199254740993 / 10 ^ 7)"
    using parseFloat_decimal [OF s] v by (simp add: is_digit_def code_def)
  also have "\<dots> = Fin (of_int 7555786372591433 * 2 powi (29 - 52))"
    by (rule fl_eval) (simp_all add: power_int_def power_divide)
  also have "of_int 7555786372591433 * (2::rat) powi (29 - 52) = 7555786372591433 / 2 ^ 23"
    by (simp add: power_int_def power_divide)
  finally have "parseFloat ''900719925.4740993'' = Fin (7555786372591433 / 2 ^ 23)" .
  moreover have "fl (10 ^ 7) = Fin (10 ^ 7)" using fl_int [of "10 ^ 7"] by simp
  moreover have "fl (7555786372591433 / 2 ^ 23 * 10 ^ 7) = Fin (of_int 4503599627370496 * 2 powi (53 - 52))"
    by (rule fl_eval) (simp_all add: power_int_def power_divide)
  moreover have "\<lfloor>18014398509481985 / 2 :: rat\<rfloor> = 9007199254740992" by (intro floor_unique) simp_all
  ultimately show "toBaseUnits ''900719925.4740993'' 7 = Inr 9007199254740992" by (simp add: toBaseUnits_def nativeCall_def)
qed

text \<open>A duration that is a whole number is converted exactly.\<close>

theorem whole_duration_exact:
  assumes "0 < n" "n \<le> 2 ^ 53"
  shows "toDurationSeconds (toString n) u = Inr (n * SECONDS_PER_UNIT u)"
proof -
  have dig: "list_all is_digit (toString n)" and v: "int (digitsVal (toString n)) = n"
    using assms(1) toString_digits [of n] digitsVal_toString [of n] by simp_all
  have "parseFloat (toString n) = Fin (of_nat (digitsVal (toString n)))"
    using v assms(2) by (intro parseFloat_whole [OF dig]) auto
  also have "of_nat (digitsVal (toString n)) = (of_int n :: rat)" using v by (metis of_int_of_nat_eq)
  finally have "parseFloat (toString n) = Fin (of_int n)" .
  moreover have "\<lfloor>of_int n + 1 / 2 :: rat\<rfloor> = n" by (intro floor_unique) auto
  ultimately show ?thesis using assms(1) by (simp add: toDurationSeconds_def nativeCall_def)
qed

theorem whole_duration_exact_witness: "toDurationSeconds (toString 30) Days = Inr 2592000"
  using whole_duration_exact [of 30 Days] by simp

text \<open>
  A fraction is rounded in the chosen unit, not in seconds: the form accepts 0.4 days, which
  becomes no time at all, and 1.5 days become two.
\<close>

lemma fl_fraction:
  "fl (4 / 10) = Fin (of_int 7205759403792794 * 2 powi (- 2 - 52))" "fl (15 / 10) = Fin (of_int 6755399441055744 * 2 powi (0 - 52))"
  by (rule fl_eval; simp add: power_int_def power_divide)+

theorem fractional_duration_rounded:
  "validateDuration ''0.4'' = None \<and> toDurationSeconds ''0.4'' Days = Inr 0 \<and> toDurationSeconds ''1.5'' Days = Inr 172800"
proof -
  have s: "pointSplit (trim ''0.4'') ''0'' ''4''" "pointSplit (trim ''1.5'') ''1'' ''5''" "trim ''0.4'' = ''0.4''" by code_simp+
  have "parseFloat ''0.4'' = fl (4 / 10)" "parseFloat ''1.5'' = fl (15 / 10)"
    using parseFloat_decimal [OF s(1)] parseFloat_decimal [OF s(2)] by (simp_all add: is_digit_def code_def digitsVal_def)
  then have p: "parseFloat ''0.4'' = Fin (7205759403792794 / 2 ^ 54)" "parseFloat ''1.5'' = Fin (3 / 2)"
    by (simp_all only: fl_fraction) (simp_all add: power_int_def power_divide)
  have "\<lfloor>7205759403792794 / 2 ^ 54 + 1 / 2 :: rat\<rfloor> = 0" "\<lfloor>3 / 2 + 1 / 2 :: rat\<rfloor> = 2" by (intro floor_unique; simp)+
  then show ?thesis by (simp add: validateDuration_def toDurationSeconds_def nativeCall_def s(3) p)
qed

section \<open>The calls\<close>

text \<open>The argument lists of the contract, with the list of identifiers of \<open>batch_withdraw\<close>.\<close>

fun walletConforms :: "wallet_call \<Rightarrow> bool" where
  "walletConforms (entry, args) =
     (if entry = ''batch_withdraw'' then (case args of [Plain (AddrArg _), VecArg _] \<Rightarrow> True | _ \<Rightarrow> False)
      else \<exists>plain. args = map Plain plain \<and> conforms (entry, plain))"

text \<open>Every call of the web client has the arguments its entry point declares, except the batch
  withdrawal, which leaves out the recipient.
\<close>
theorem wallet_calls_conform:
  "walletConforms (createStreamCall pk cp) \<and> walletConforms (topUpStreamCall pk sid amt) \<and> walletConforms (cancelStreamCall pk sid)
   \<and> walletConforms (withdrawCall pk sid) \<and> walletConforms (pauseStreamCall pk sid) \<and> walletConforms (resumeStreamCall pk sid)
   \<and> \<not> walletConforms (batchWithdrawCall ids)"
proof -
  have intro: "entry \<noteq> ''batch_withdraw'' \<Longrightarrow> conforms (entry, plain) \<Longrightarrow> walletConforms (entry, map Plain plain)" for entry plain
    by (simp only: walletConforms.simps if_False) blast
  show ?thesis
    unfolding createStreamCall_def topUpStreamCall_def cancelStreamCall_def withdrawCall_def pauseStreamCall_def resumeStreamCall_def
    by (intro conjI intro) (simp_all add: batchWithdrawCall_def)
qed

lemma confirmLoop_Inr:
  "confirmLoop st h i k = Inr r \<longleftrightarrow> r = h \<and> (\<exists>j<k. st (i + j) = TxSuccess \<and> (\<forall>l<j. st (i + l) = TxPending))"
proof (induction k arbitrary: i)
  case (Suc k)
  show ?case
  proof (cases "st i")
    case TxPending
    have "(\<exists>j<Suc k. st (i + j) = TxSuccess \<and> (\<forall>l<j. st (i + l) = TxPending)) \<longleftrightarrow>
          (\<exists>j<k. st (Suc i + j) = TxSuccess \<and> (\<forall>l<j. st (Suc i + l) = TxPending))"
      using TxPending by (simp add: Ex_less_Suc2 All_less_Suc2)
    with Suc TxPending show ?thesis by simp
  qed (auto simp: Ex_less_Suc2 All_less_Suc2)
qed simp

text \<open>
  A call reports success exactly if the wallet signed it, the node accepted it and one of the
  first twenty status answers confirms it, all earlier ones being pending. A failure before the
  sending leaves nothing on the network; every later failure is reported for a transaction that
  was sent.
\<close>
theorem freighter_outcome:
  "(fst (freighterCall N pk call) = Inr h \<longleftrightarrow>
      freighterPrepare N pk call = Inr () \<and> wn_send N call = SendDone h \<and>
      (\<exists>j<20. wn_status N j = TxSuccess \<and> (\<forall>l<j. wn_status N l = TxPending)))
   \<and> snd (freighterCall N pk call) = (if isOk (freighterPrepare N pk call) then [call] else [])"
  by (auto simp: freighterCall_def confirmLoop_Inr [of _ _ 0, simplified] split: sum.splits send_answer.splits)

end
