(* ===== verification/Batch_Upload.thy ===== *)
theory Batch_Upload
  imports Wallet_Client
begin

text \<open>
  The batch upload of the web client: the payroll file is parsed, checked and summed up
  (\<open>frontend/src/lib/csv-parser.ts\<close>), edited and then executed entry by entry through the wallet
  (\<open>components/stream-creation/BatchStreamWizard.tsx\<close>).
\<close>

section \<open>Entries\<close>

record BatchStreamEntry =
  be_id :: nat
  be_recipient :: string
  be_amount :: string
  be_durationSeconds :: string
  be_cliffSeconds :: string

type_synonym ValidationError = "string \<times> string"

record BatchValidationSummary =
  bs_entries :: "(BatchStreamEntry \<times> ValidationError list) list"
  bs_totalRows :: nat
  bs_validRows :: nat
  bs_invalidRows :: nat
  bs_totalGrossAmount :: int
  bs_totalProtocolFee :: int
  bs_totalNetDistributed :: int

definition PROTOCOL_FEE_RATE :: int where
  "PROTOCOL_FEE_RATE = 250"

definition BASIS_POINTS :: int where
  "BASIS_POINTS = 10000"

definition TOKEN_DECIMALS :: nat where
  "TOKEN_DECIMALS = 7"

definition isValidFederatedName :: "string \<Rightarrow> bool" where
  "isValidFederatedName value = (CHR ''@'' \<in> set value \<and> 3 < length value)"

text \<open>\<open>parseInt(s, 10)\<close> as a number.\<close>

definition parseIntNumber :: "string \<Rightarrow> jsnum" where
  "parseIntNumber s = (case parseInt10 s of None \<Rightarrow> NaN | Some n \<Rightarrow> fl (of_int n))"

definition recipientErrors :: "string \<Rightarrow> ValidationError list" where
  "recipientErrors value =
     (let recpt = trim value in
      if recpt = [] then [(''recipient'', ''Recipient is required'')]
      else if \<not> isValidStellarPublicKey recpt \<and> \<not> isValidFederatedName recpt
           then [(''recipient'', ''Must be a valid Stellar G... public key or federated name (user@domain)'')]
      else [])"

definition amountErrors :: "string \<Rightarrow> ValidationError list" where
  "amountErrors value =
     (let amountStr = trim value in
      if amountStr = [] then [(''amount'', ''Amount is required'')]
      else let amt = parseFloat amountStr in
           if amt = NaN then [(''amount'', ''Amount must be a number'')]
           else if numLe amt (Fin 0) then [(''amount'', ''Amount must be positive'')]
           else if CHR ''.'' \<in> set amountStr \<and> TOKEN_DECIMALS < length (js_split CHR ''.'' amountStr ! 1)
                then [(''amount'', ''Maximum 7 decimal places allowed'')]
           else [])"

definition durationErrors :: "string \<Rightarrow> ValidationError list" where
  "durationErrors value =
     (let durationStr = trim value in
      if durationStr = [] then [(''durationSeconds'', ''Duration is required'')]
      else let duration = parseIntNumber durationStr in
           if duration = NaN \<or> numLe duration (Fin 0) then [(''durationSeconds'', ''Duration must be a positive integer'')] else [])"

definition cliffErrors :: "string \<Rightarrow> string \<Rightarrow> ValidationError list" where
  "cliffErrors value durationValue =
     (let cliffStr = trim value; durationStr = trim durationValue in
      if cliffStr = [] then []
      else let cliff = parseIntNumber cliffStr in
           if cliff = NaN \<or> numLess cliff (Fin 0) then [(''cliffSeconds'', ''Cliff must be a non-negative integer'')]
           else let duration = parseIntNumber durationStr in
                if duration \<noteq> NaN \<and> numLe duration cliff then [(''cliffSeconds'', ''Cliff must be less than duration'')] else [])"

definition validateEntry :: "BatchStreamEntry \<Rightarrow> ValidationError list" where
  "validateEntry entry =
     recipientErrors (be_recipient entry) @ amountErrors (be_amount entry) @ durationErrors (be_durationSeconds entry) @
     cliffErrors (be_cliffSeconds entry) (be_durationSeconds entry)"

section \<open>The file\<close>

text \<open>\<open>split(/\r?\n/)\<close>.\<close>

definition stripCR :: "string \<Rightarrow> string" where
  "stripCR l = (if l \<noteq> [] \<and> last l = CHR 0x0D then butlast l else l)"

definition splitLines :: "string \<Rightarrow> string list" where
  "splitLines s = (let ls = js_split CHR 0x0A s in map stripCR (butlast ls) @ [last ls])"

fun findIndex :: "('a \<Rightarrow> bool) \<Rightarrow> 'a list \<Rightarrow> nat option" where
  "findIndex P [] = None"
| "findIndex P (x # xs) = (if P x then Some 0 else map_option Suc (findIndex P xs))"

definition column :: "string list \<Rightarrow> nat \<Rightarrow> string" where
  "column columns i = (if i < length columns then columns ! i else [])"

record column_indices =
  ci_recipient :: nat
  ci_amount :: nat
  ci_duration :: nat
  ci_cliff :: "nat option"

definition headerColumns :: "string \<Rightarrow> column_indices option" where
  "headerColumns line =
     (let header = map lower (parseCSVLine line) in
      case (findIndex (\<lambda>h. h = ''recipient'') header, findIndex (\<lambda>h. h = ''amount'') header,
            findIndex (\<lambda>h. h = ''duration_seconds'' \<or> h = ''duration'') header) of
        (Some r, Some a, Some d) \<Rightarrow>
          Some \<lparr>ci_recipient = r, ci_amount = a, ci_duration = d,
                ci_cliff = findIndex (\<lambda>h. h = ''cliff_seconds'' \<or> h = ''cliff'') header\<rparr>
      | _ \<Rightarrow> None)"

definition entryOf :: "column_indices \<Rightarrow> nat \<Rightarrow> string \<Rightarrow> BatchStreamEntry" where
  "entryOf ci i line =
     (let columns = parseCSVLine line in
      \<lparr>be_id = i, be_recipient = column columns (ci_recipient ci), be_amount = column columns (ci_amount ci),
       be_durationSeconds = column columns (ci_duration ci),
       be_cliffSeconds = (case ci_cliff ci of Some c \<Rightarrow> column columns c | None \<Rightarrow> ''0'')\<rparr>)"

definition amountUnitsOf :: "string \<Rightarrow> int result" where
  "amountUnitsOf amt = BigIntOfNumber (Math_round (numMult (parseFloat (trim amt)) (fl (10 ^ TOKEN_DECIMALS))))"

fun sumEntries ::
  "column_indices \<Rightarrow> nat \<Rightarrow> string list \<Rightarrow> (BatchStreamEntry \<times> ValidationError list) list \<Rightarrow> int \<Rightarrow> int \<Rightarrow>
   ((BatchStreamEntry \<times> ValidationError list) list \<times> int \<times> int) result" where
  "sumEntries ci i [] acc gross fee = Inr (acc, gross, fee)"
| "sumEntries ci i (l # ls) acc gross fee =
     (let entry = entryOf ci i l; errors = validateEntry entry in
      if errors = []
      then bindE (amountUnitsOf (be_amount entry)) (\<lambda>amountUnits.
             sumEntries ci (Suc i) ls (acc @ [(entry, errors)]) (gross + amountUnits)
               (fee + (amountUnits * PROTOCOL_FEE_RATE) sdiv BASIS_POINTS))
      else sumEntries ci (Suc i) ls (acc @ [(entry, errors)]) gross fee)"

definition emptySummary :: BatchValidationSummary where
  "emptySummary = \<lparr>bs_entries = [], bs_totalRows = 0, bs_validRows = 0, bs_invalidRows = 0,
     bs_totalGrossAmount = 0, bs_totalProtocolFee = 0, bs_totalNetDistributed = 0\<rparr>"

definition csvLines :: "string \<Rightarrow> string list" where
  "csvLines csvContent = filter (\<lambda>l. 0 < length l) (map trim (splitLines csvContent))"

definition parseBatchCSV :: "string \<Rightarrow> BatchValidationSummary result" where
  "parseBatchCSV csvContent =
     (case csvLines csvContent of
        header # l # ls \<Rightarrow>
          (case headerColumns header of
             None \<Rightarrow> Inr emptySummary
           | Some ci \<Rightarrow>
               bindE (sumEntries ci 1 (l # ls) [] 0 0) (\<lambda>(entries, gross, fee).
               Inr \<lparr>bs_entries = entries, bs_totalRows = length entries,
                    bs_validRows = length (filter (\<lambda>e. snd e = []) entries),
                    bs_invalidRows = length (filter (\<lambda>e. snd e \<noteq> []) entries),
                    bs_totalGrossAmount = gross, bs_totalProtocolFee = fee, bs_totalNetDistributed = gross - fee\<rparr>))
      | _ \<Rightarrow> Inr emptySummary)"

section \<open>Editing and execution\<close>

text \<open>\<open>handleSaveEdit\<close>: the new text of the file.\<close>

definition handleSaveEdit :: "string \<Rightarrow> nat \<Rightarrow> BatchStreamEntry \<Rightarrow> string" where
  "handleSaveEdit csvData entryId v =
     (let lns = splitLines csvData;
          header = hd lns;
          dataLines = filter (\<lambda>l. 0 < length (trim l)) (tl lns)
      in if 0 < entryId \<and> entryId \<le> length dataLines
         then join [CHR 0x0A] (header # dataLines[entryId - 1 :=
                be_recipient v @ '','' @ be_amount v @ '','' @ be_durationSeconds v @ '','' @ be_cliffSeconds v])
         else csvData)"

definition executeEntry :: "wallet_net \<Rightarrow> string \<Rightarrow> string \<Rightarrow> BatchStreamEntry \<Rightarrow> string call_result \<times> wallet_call list" where
  "executeEntry N publicKey tokenAddr entry =
     (case bindE (toBaseUnits (be_amount entry) 7) (\<lambda>amt.
           bindE (nativeCall (BigIntOfNumber (parseIntNumber (be_durationSeconds entry)))) (\<lambda>dur. Inr (amt, dur))) of
        Inl e \<Rightarrow> (Inl e, [])
      | Inr (amt, dur) \<Rightarrow>
          walletInvoke N publicKey (createStreamCall publicKey
            \<lparr>wc_recipient = trim (be_recipient entry), wc_tokenAddress = tokenAddr, wc_amount = amt, wc_durationSeconds = dur\<rparr>))"

text \<open>The outside may answer differently for every entry. An error of one entry is shown and the next is tried.\<close>

fun executeAll :: "(nat \<Rightarrow> wallet_net) \<Rightarrow> string \<Rightarrow> string \<Rightarrow> BatchStreamEntry list \<Rightarrow> string list \<times> wallet_call list" where
  "executeAll N publicKey tokenAddr [] = ([], [])"
| "executeAll N publicKey tokenAddr (e # es) =
     (let (r, sent) = executeEntry (N (be_id e)) publicKey tokenAddr e;
          (hashes, sents) = executeAll N publicKey tokenAddr es
      in ((case r of Inl _ \<Rightarrow> [] | Inr h \<Rightarrow> [h]) @ hashes, sent @ sents))"

definition validEntries :: "BatchValidationSummary \<Rightarrow> BatchStreamEntry list" where
  "validEntries s = map fst (filter (\<lambda>e. snd e = []) (bs_entries s))"

definition handleExecute ::
  "(string \<rightharpoonup> string) \<Rightarrow> (nat \<Rightarrow> wallet_net) \<Rightarrow> string \<Rightarrow> string \<Rightarrow> BatchValidationSummary \<Rightarrow> (string list \<times> wallet_call list) call_result" where
  "handleExecute configured N publicKey token s =
     bindE (getTokenAddress configured token) (\<lambda>tokenAddr. Inr (executeAll N publicKey tokenAddr (validEntries s)))"

section \<open>The summary\<close>

lemma units_of_valid:
  assumes "validateEntry e = []"
  shows "toBaseUnits (be_amount e) 7 = nativeCall (amountUnitsOf (be_amount e))"
proof -
  have "amountErrors (be_amount e) = []" using assms by (simp add: validateEntry_def)
  then have "parseFloat (trim (be_amount e)) \<noteq> NaN" "\<not> numLe (parseFloat (trim (be_amount e))) (Fin 0)"
    by (auto simp: amountErrors_def Let_def split: if_splits)
  then show ?thesis by (simp add: toBaseUnits_def amountUnitsOf_def TOKEN_DECIMALS_def parseFloat_trim)
qed

definition unitsSum :: "(BatchStreamEntry \<times> ValidationError list) list \<Rightarrow> int list \<Rightarrow> bool" where
  "unitsSum es us = list_all2 (\<lambda>e u. toBaseUnits (be_amount e) 7 = Inr u) (map fst (filter (\<lambda>e. snd e = []) es)) us"

lemma sumEntries_Inr:
  assumes "sumEntries ci i ls acc g f = Inr (es, g', f')"
  shows "\<exists>new us. es = acc @ new \<and> length new = length ls \<and> unitsSum new us \<and> g' = g + sum_list us \<and>
     f' = f + sum_list (map (\<lambda>u. (u * PROTOCOL_FEE_RATE) sdiv BASIS_POINTS) us) \<and>
     (\<forall>x\<in>set new. snd x = validateEntry (fst x))"
  using assms
proof (induction ci i ls acc g f rule: sumEntries.induct)
  case (1 ci i acc g f)
  then show ?case by (intro exI [of _ "[]"]) (simp add: unitsSum_def)
next
  case (2 ci i l ls acc g f)
  let ?e = "entryOf ci i l"
  show ?case
  proof (cases "validateEntry ?e = []")
    case True
    with 2(3) obtain u where u: "amountUnitsOf (be_amount ?e) = Inr u"
      "sumEntries ci (Suc i) ls (acc @ [(?e, [])]) (g + u) (f + (u * PROTOCOL_FEE_RATE) sdiv BASIS_POINTS) = Inr (es, g', f')"
      by (auto simp: bindE_eq_Inr Let_def)
    from 2(1) [OF refl refl True, of u] u True obtain new us where
      ih: "es = (acc @ [(?e, [])]) @ new" "length new = length ls" "unitsSum new us" "g' = g + u + sum_list us"
        "f' = f + (u * PROTOCOL_FEE_RATE) sdiv BASIS_POINTS + sum_list (map (\<lambda>u. (u * PROTOCOL_FEE_RATE) sdiv BASIS_POINTS) us)"
        "\<forall>x\<in>set new. snd x = validateEntry (fst x)"
      by auto
    have "toBaseUnits (be_amount ?e) 7 = Inr u" using units_of_valid [OF True] u(1) by (simp add: nativeCall_def)
    with ih True show ?thesis by (intro exI [of _ "(?e, []) # new"] exI [of _ "u # us"]) (simp add: unitsSum_def)
  next
    case False
    with 2(3) have "sumEntries ci (Suc i) ls (acc @ [(?e, validateEntry ?e)]) g f = Inr (es, g', f')" by (simp add: Let_def)
    from 2(2) [OF refl refl False] this obtain new us where
      ih: "es = (acc @ [(?e, validateEntry ?e)]) @ new" "length new = length ls" "unitsSum new us" "g' = g + sum_list us"
        "f' = f + sum_list (map (\<lambda>u. (u * PROTOCOL_FEE_RATE) sdiv BASIS_POINTS) us)" "\<forall>x\<in>set new. snd x = validateEntry (fst x)"
      by auto
    with False show ?thesis by (intro exI [of _ "(?e, validateEntry ?e) # new"] exI [of _ us]) (simp add: unitsSum_def)
  qed
qed

lemma parseBatch_cases:
  assumes "parseBatchCSV t = Inr s"
  shows "\<exists>us. list_all2 (\<lambda>e u. toBaseUnits (be_amount e) 7 = Inr u) (validEntries s) us \<and>
     bs_totalGrossAmount s = sum_list us \<and>
     bs_totalProtocolFee s = sum_list (map (\<lambda>u. (u * PROTOCOL_FEE_RATE) sdiv BASIS_POINTS) us) \<and>
     bs_totalNetDistributed s = bs_totalGrossAmount s - bs_totalProtocolFee s \<and>
     bs_validRows s = length (validEntries s) \<and> bs_validRows s + bs_invalidRows s = bs_totalRows s \<and>
     list_all (\<lambda>e. validateEntry e = []) (validEntries s)"
proof (cases "s = emptySummary")
  case True
  then show ?thesis by (intro exI [of _ "[]"]) (simp add: emptySummary_def validEntries_def)
next
  case False
  with assms obtain header l ls ci es g f where
    e: "headerColumns header = Some ci" "sumEntries ci 1 (l # ls) [] 0 0 = Inr (es, g, f)"
    and s: "s = \<lparr>bs_entries = es, bs_totalRows = length es, bs_validRows = length (filter (\<lambda>e. snd e = []) es),
        bs_invalidRows = length (filter (\<lambda>e. snd e \<noteq> []) es), bs_totalGrossAmount = g, bs_totalProtocolFee = f,
        bs_totalNetDistributed = g - f\<rparr>"
    unfolding parseBatchCSV_def by (auto simp: bindE_eq_Inr simp del: sumEntries.simps split: list.splits option.splits)
  from sumEntries_Inr [OF e(2)] obtain us where "unitsSum es us" "g = sum_list us"
    "f = sum_list (map (\<lambda>u. (u * PROTOCOL_FEE_RATE) sdiv BASIS_POINTS) us)" "\<forall>x\<in>set es. snd x = validateEntry (fst x)"
    by auto
  moreover have "length (filter (\<lambda>e. snd e = []) es) + length (filter (\<lambda>e. snd e \<noteq> []) es) = length es"
    by (rule filter_length_split)
  ultimately show ?thesis by (intro exI [of _ us]) (auto simp: s unitsSum_def validEntries_def list_all_iff)
qed

text \<open>C22. The gross total shown for an upload is the sum of exactly the amounts that will be submitted,
  the fee is the sum of the fees of the entries, each rounded down, and every row is counted.
\<close>
theorem summary_matches_submission:
  assumes "parseBatchCSV t = Inr s"
  shows "\<exists>us. list_all2 (\<lambda>e u. toBaseUnits (be_amount e) 7 = Inr u) (validEntries s) us \<and>
     bs_totalGrossAmount s = sum_list us \<and>
     bs_totalProtocolFee s = sum_list (map (\<lambda>u. (u * PROTOCOL_FEE_RATE) sdiv BASIS_POINTS) us) \<and>
     bs_totalNetDistributed s = bs_totalGrossAmount s - bs_totalProtocolFee s \<and>
     bs_validRows s = length (validEntries s) \<and> bs_validRows s + bs_invalidRows s = bs_totalRows s"
  using parseBatch_cases [OF assms] by blast

section \<open>Execution\<close>

definition callAmount :: "wallet_call \<Rightarrow> int" where
  "callAmount c = (case snd c of [_, _, _, Plain (I128Arg n), _] \<Rightarrow> n | _ \<Rightarrow> 0)"

lemma native_BigInt_Inr: "nativeCall (BigIntOfNumber x) = Inr u \<longleftrightarrow> x = Fin (of_int u)"
  by (cases x) (auto simp: nativeCall_def)

lemma Math_round_Fin: "Math_round x = Fin y \<longleftrightarrow> (\<exists>q. x = Fin q \<and> y = of_int \<lfloor>q + 1 / 2\<rfloor>)"
  by (cases x) auto

lemma fl_nonneg: "fl q = Fin r \<Longrightarrow> 0 \<le> q \<Longrightarrow> 0 \<le> r"
  using roundEven_ge [of 0 "q / ulp q"] by (auto simp: fl_def Let_def less_imp_le zero_le_mult_iff split: if_splits)

lemma numMult_nonneg:
  assumes "numMult x y = Fin z" "\<not> numLe x (Fin 0)" "y = fl q" "0 \<le> q"
  shows "0 \<le> z"
proof -
  obtain a b where ab: "x = Fin a" "y = Fin b" using assms(1) by (cases x; cases y) (auto split: if_splits)
  have "0 \<le> b" using fl_nonneg [of q b] assms(3,4) ab(2) by simp
  moreover have "0 < a" using assms(2) ab(1) by simp
  ultimately show ?thesis using assms(1) ab by (auto intro: fl_nonneg [of "a * b"])
qed

lemma toBaseUnits_nonneg: "toBaseUnits t d = Inr u \<Longrightarrow> 0 \<le> u"
proof -
  assume u: "toBaseUnits t d = Inr u"
  then have p: "\<not> numLe (parseFloat t) (Fin 0)" and
    "nativeCall (BigIntOfNumber (Math_round (numMult (parseFloat t) (fl (10 ^ d))))) = Inr u"
    by (simp_all add: toBaseUnits_def Let_def split: if_splits)
  then obtain z where z: "numMult (parseFloat t) (fl (10 ^ d)) = Fin z" "(of_int u :: rat) = of_int \<lfloor>z + 1 / 2\<rfloor>"
    by (auto simp: native_BigInt_Inr Math_round_Fin)
  have "0 \<le> z" using numMult_nonneg [OF z(1) p refl] by simp
  then have "0 \<le> \<lfloor>z + 1 / 2\<rfloor>" by simp
  moreover have "u = \<lfloor>z + 1 / 2\<rfloor>" using z(2) by (simp only: of_int_eq_iff)
  ultimately show "0 \<le> u" by simp
qed

lemma executeEntry_sent:
  assumes "executeEntry N pk tok e = (r, sent)" "toBaseUnits (be_amount e) 7 = Inr u"
  shows "sent = [] \<or> (\<exists>dur. sent = [createStreamCall pk
     \<lparr>wc_recipient = trim (be_recipient e), wc_tokenAddress = tok, wc_amount = u, wc_durationSeconds = dur\<rparr>])"
    and "isOk r \<Longrightarrow> sent \<noteq> []"
  using assms unfolding executeEntry_def walletInvoke_def freighterCall_def
  by (auto simp: bindE_eq_Inr split: sum.splits list.splits send_answer.splits)

lemma executeAll_within:
  assumes "list_all2 (\<lambda>e u. toBaseUnits (be_amount e) 7 = Inr u) es us" "executeAll N pk tok es = (hashes, sent)"
  shows "sum_list (map callAmount sent) \<le> sum_list us \<and> length hashes \<le> length sent \<and> length sent \<le> length es"
  using assms
proof (induction es us arbitrary: hashes sent rule: list_all2_induct)
  case (Cons e es u us)
  obtain r s1 hs s2 where x: "executeEntry (N (be_id e)) pk tok e = (r, s1)" "executeAll N pk tok es = (hs, s2)"
    "sent = s1 @ s2" "hashes = (case r of Inl _ \<Rightarrow> [] | Inr h \<Rightarrow> [h]) @ hs"
    using Cons.prems by (auto split: prod.splits)
  have "sum_list (map callAmount s1) \<le> u" "length s1 \<le> 1"
    using executeEntry_sent(1) [OF x(1) Cons.hyps(1)] toBaseUnits_nonneg [OF Cons.hyps(1)]
    by (auto simp: callAmount_def createStreamCall_def)
  moreover have "length (case r of Inl _ \<Rightarrow> [] | Inr h \<Rightarrow> [h]) \<le> length s1"
    using executeEntry_sent(2) [OF x(1) Cons.hyps(1)] by (cases r) (auto simp: Suc_le_eq)
  ultimately show ?case using Cons.IH [OF x(2)] by (simp add: x(3,4))
qed simp

text \<open>Executing an upload never hands more to the network than the gross total it showed, and at
  most one stream for each valid entry; the reported hashes are of streams that were sent.
\<close>
theorem execution_within_total:
  assumes "parseBatchCSV t = Inr s" "handleExecute configured N pk token s = Inr (hashes, sent)"
  shows "sum_list (map callAmount sent) \<le> bs_totalGrossAmount s \<and> length hashes \<le> length sent \<and> length sent \<le> bs_validRows s"
proof -
  from assms(2) obtain tok where "executeAll N pk tok (validEntries s) = (hashes, sent)"
    by (auto simp: handleExecute_def bindE_eq_Inr)
  then show ?thesis using parseBatch_cases [OF assms(1)] executeAll_within by fastforce
qed

section \<open>An upload that is refused as a whole\<close>

lemma BigIntOfNumber_Inl: "BigIntOfNumber x = Inl e \<Longrightarrow> e = RangeError"
  by (cases x) (auto split: if_splits)

lemma sumEntries_Inl:
  "sumEntries ci i ls acc g f = Inl x \<longleftrightarrow>
     x = RangeError \<and> (\<exists>k<length ls. validateEntry (entryOf ci (i + k) (ls ! k)) = [] \<and> \<not> isOk (amountUnitsOf (be_amount (entryOf ci (i + k) (ls ! k)))))"
proof (induction ls arbitrary: i acc g f)
  case (Cons l ls)
  let ?e = "entryOf ci i l"
  show ?case
  proof (cases "validateEntry ?e = []")
    case True
    then show ?thesis
      by (cases "amountUnitsOf (be_amount ?e)") (auto simp: Cons Ex_less_Suc2 amountUnitsOf_def dest: BigIntOfNumber_Inl)
  qed (simp add: Cons Ex_less_Suc2 Let_def)
qed simp

text \<open>
  Parsing an upload throws exactly if some row passes all checks and its amount is infinite or
  overflows: one such row makes the whole file unreadable.
\<close>
theorem batch_throws_iff:
  "(\<exists>x. parseBatchCSV t = Inl x) \<longleftrightarrow>
     (\<exists>header ls ci k. csvLines t = header # ls \<and> headerColumns header = Some ci \<and> k < length ls \<and>
        validateEntry (entryOf ci (Suc k) (ls ! k)) = [] \<and> \<not> isOk (amountUnitsOf (be_amount (entryOf ci (Suc k) (ls ! k)))))"
proof (cases "\<exists>header l ls. csvLines t = header # l # ls")
  case True
  then obtain header l ls where t: "csvLines t = header # l # ls" by blast
  show ?thesis
  proof (cases "headerColumns header")
    case (Some ci)
    have "(\<exists>x. parseBatchCSV t = Inl x) \<longleftrightarrow> (\<exists>x. sumEntries ci 1 (l # ls) [] 0 0 = Inl x)"
      by (cases "sumEntries ci 1 (l # ls) [] 0 0") (auto simp: parseBatchCSV_def t Some simp del: sumEntries.simps)
    also have "\<dots> \<longleftrightarrow> (\<exists>k<length (l # ls). validateEntry (entryOf ci (Suc k) ((l # ls) ! k)) = [] \<and>
        \<not> isOk (amountUnitsOf (be_amount (entryOf ci (Suc k) ((l # ls) ! k)))))"
      by (simp only: sumEntries_Inl plus_1_eq_Suc) blast
    finally show ?thesis using t Some by auto
  qed (simp add: parseBatchCSV_def t)
next
  case False
  then have "csvLines t = [] \<or> (\<exists>h. csvLines t = [h])" by (metis list.exhaust)
  then show ?thesis by (auto simp: parseBatchCSV_def)
qed

lemma infinity_accepted: "amountErrors ''Infinity'' = [] \<and> amountUnitsOf ''Infinity'' = Inl RangeError"
proof -
  have p: "trim ''Infinity'' = ''Infinity''" "parseFloat ''Infinity'' = Infinity False" by code_simp+
  have "fl (10 ^ 7) = Fin (10 ^ 7)" using fl_int [of "10 ^ 7"] by simp
  then show ?thesis by (simp add: amountErrors_def amountUnitsOf_def p TOKEN_DECIMALS_def)
qed

text \<open>The cliff is checked but never part of a call.\<close>

lemma cliff_never_submitted: "executeEntry N pk tok (e\<lparr>be_cliffSeconds := c\<rparr>) = executeEntry N pk tok e"
  unfolding executeEntry_def by (simp split: sum.split)

text \<open>
  An edited row is written in the order of the sample file, whatever the header says, and
  without quotes: here saving the entry as it was exchanges recipient and amount.
\<close>

lemma edit_ignores_header:
  "parseCSVLine (hd (csvLines (handleSaveEdit (''amount,recipient,duration'' @ LF @ ''5,a@b.c,60'') 1
      \<lparr>be_id = 1, be_recipient = ''a@b.c'', be_amount = ''5'', be_durationSeconds = ''60'', be_cliffSeconds = ''0''\<rparr>))) = [''amount'', ''recipient'', ''duration''] \<and>
   parseCSVLine (csvLines (handleSaveEdit (''amount,recipient,duration'' @ LF @ ''5,a@b.c,60'') 1
      \<lparr>be_id = 1, be_recipient = ''a@b.c'', be_amount = ''5'', be_durationSeconds = ''60'', be_cliffSeconds = ''0''\<rparr>) ! 1) = [''a@b.c'', ''5'', ''60'', ''0'']"
  by code_simp

section \<open>A small upload\<close>

definition smallUpload :: string where
  "smallUpload = ''recipient,amount,duration'' @ LF @ ''a@b.c,5,60''"

definition smallEntry :: BatchStreamEntry where
  "smallEntry = \<lparr>be_id = 1, be_recipient = ''a@b.c'', be_amount = ''5'', be_durationSeconds = ''60'', be_cliffSeconds = ''0''\<rparr>"

lemma smallEntry_valid: "validateEntry smallEntry = []" "amountUnitsOf (be_amount smallEntry) = Inr 50000000"
proof -
  have t: "trim ''5'' = ''5''" "trim ''60'' = ''60''" "trim ''0'' = ''0''" "trim ''a@b.c'' = ''a@b.c''" by code_simp+
  have five: "parseFloat ''5'' = Fin 5" using parseFloat_whole [of "''5''"] by (simp add: is_digit_def code_def digitsVal_def)
  have i: "parseInt10 ''60'' = Some 60" "parseInt10 ''0'' = Some 0" by code_simp+
  have f: "fl 60 = Fin 60" "fl 0 = Fin 0" "fl 10000000 = Fin 10000000" "fl 50000000 = Fin 50000000"
    using fl_int [of 60] fl_int [of 0] fl_int [of 10000000] fl_int [of 50000000] by simp_all
  have "recipientErrors ''a@b.c'' = []" by code_simp
  then show "validateEntry smallEntry = []"
    by (simp add: validateEntry_def smallEntry_def amountErrors_def durationErrors_def cliffErrors_def t five parseIntNumber_def i f)
  have "\<lfloor>50000000 + 1 / 2 :: rat\<rfloor> = 50000000" by (intro floor_unique) simp_all
  then show "amountUnitsOf (be_amount smallEntry) = Inr 50000000"
    by (simp add: amountUnitsOf_def smallEntry_def t five TOKEN_DECIMALS_def f)
qed

lemma smallUpload_parsed:
  "parseBatchCSV smallUpload = Inr \<lparr>bs_entries = [(smallEntry, [])], bs_totalRows = 1, bs_validRows = 1, bs_invalidRows = 0,
     bs_totalGrossAmount = 50000000, bs_totalProtocolFee = 1250000, bs_totalNetDistributed = 48750000\<rparr>"
proof -
  have l: "csvLines smallUpload = [''recipient,amount,duration'', ''a@b.c,5,60'']" by code_simp
  have h: "headerColumns ''recipient,amount,duration'' = Some \<lparr>ci_recipient = 0, ci_amount = 1, ci_duration = 2, ci_cliff = None\<rparr>" by code_simp
  have e: "entryOf \<lparr>ci_recipient = 0, ci_amount = 1, ci_duration = 2, ci_cliff = None\<rparr> 1 ''a@b.c,5,60'' = smallEntry" by code_simp
  show ?thesis
    using e by (simp add: parseBatchCSV_def l h smallEntry_valid PROTOCOL_FEE_RATE_def BASIS_POINTS_def)
qed

theorem summary_matches_submission_witness: "toBaseUnits ''5'' 7 = Inr 50000000"
  using summary_matches_submission [OF smallUpload_parsed] by (auto simp: validEntries_def smallEntry_def list_all2_Cons1)

definition goodNet :: wallet_net where
  "goodNet = \<lparr>wn_encode = (\<lambda>_. None), wn_account = (\<lambda>_. None), wn_contractId = ''C'', wn_contract = None, wn_simulate = (\<lambda>_. SimDone),
     wn_assemble = None, wn_sign = (\<lambda>_. SignDone), wn_reread = None, wn_send = (\<lambda>_. SendDone ''h''),
     wn_status = (\<lambda>i. if i = 0 then TxPending else TxSuccess)\<rparr>"

lemma confirmLoop_good: "confirmLoop (wn_status goodNet) ''h'' 0 20 = Inr ''h''"
  by (auto simp: confirmLoop_Inr goodNet_def intro!: exI [of _ 1])

lemma goodNet_call: "walletInvoke goodNet pk c = (Inr ''h'', [c])"
proof -
  have "List.map_filter (wn_encode goodNet) xs = []" for xs
    by (induction xs) (simp_all add: map_filter_def goodNet_def)
  moreover have "freighterPrepare goodNet pk c = Inr ()" by (simp add: freighterPrepare_def goodNet_def orThrow_def)
  moreover have "wn_send goodNet c = SendDone ''h''" by (simp add: goodNet_def)
  ultimately show ?thesis by (simp only: walletInvoke_def freighterCall_def list.case sum.case send_answer.case confirmLoop_good)
qed

lemma smallUpload_executed:
  "handleExecute (\<lambda>_. None) (\<lambda>_. goodNet) ''GA'' ''XLM''
     \<lparr>bs_entries = [(smallEntry, [])], bs_totalRows = 1, bs_validRows = 1, bs_invalidRows = 0,
      bs_totalGrossAmount = 50000000, bs_totalProtocolFee = 1250000, bs_totalNetDistributed = 48750000\<rparr> =
   Inr ([''h''], [createStreamCall ''GA'' \<lparr>wc_recipient = ''a@b.c'', wc_tokenAddress = ''CDLZFC3SYJYDZT7K67VZ75HPJVIEUVNIXF47ZG2FB2RMQQVU2HHGCN'',
     wc_amount = 50000000, wc_durationSeconds = 60\<rparr>])"
proof -
  have u: "toBaseUnits (be_amount smallEntry) 7 = Inr 50000000"
    using units_of_valid [OF smallEntry_valid(1)] by (simp add: smallEntry_valid(2) nativeCall_def)
  have i: "parseInt10 ''60'' = Some 60" "trim ''a@b.c'' = ''a@b.c''" "getTokenAddress (\<lambda>_. None) ''XLM'' = Inr ''CDLZFC3SYJYDZT7K67VZ75HPJVIEUVNIXF47ZG2FB2RMQQVU2HHGCN''" by code_simp+
  have "fl 60 = Fin 60" using fl_int [of 60] by simp
  then have d: "nativeCall (BigIntOfNumber (parseIntNumber (be_durationSeconds smallEntry))) = Inr 60"
    by (simp add: parseIntNumber_def smallEntry_def i nativeCall_def)
  show ?thesis
    by (simp add: handleExecute_def i validEntries_def executeEntry_def u d goodNet_call)
      (simp add: smallEntry_def i)
qed

theorem execution_within_total_witness: "callAmount (createStreamCall ''GA'' \<lparr>wc_recipient = ''a@b.c'',
     wc_tokenAddress = ''CDLZFC3SYJYDZT7K67VZ75HPJVIEUVNIXF47ZG2FB2RMQQVU2HHGCN'', wc_amount = 50000000, wc_durationSeconds = 60\<rparr>) \<le> 50000000"
  using execution_within_total [OF smallUpload_parsed smallUpload_executed] by simp

end
