(* ===== verification/Sdk_Client.thy ===== *)
theory Sdk_Client
  imports Wallet_Client
begin

text \<open>
  The TypeScript client package, \<open>packages/flowfi-sdk/src\<close>: building a call (\<open>builder.ts\<close>), signing it
  (\<open>signers/index.ts\<close>) and submitting it (\<open>client.ts\<close>). The Stellar SDK, the RPC node and the wallet
  are the record \<open>sdk_net\<close>; \<open>Inl\<close> of a text stands for an exception.
\<close>

section \<open>Building\<close>

text \<open>An argument of a contract call: a plain JavaScript string, or a value the SDK has encoded.\<close>

datatype sdk_arg = RawText string | ScU64 jsnum | ScI128 int

type_synonym sdk_call = "string \<times> sdk_arg list"

record SdkCreateParams =
  cs_sender :: string
  cs_recipient :: string
  cs_tokenAddress :: string
  cs_amount :: int
  cs_duration :: jsnum
  cs_cliffDuration :: "jsnum option"

definition bigU64 :: "int \<Rightarrow> sdk_arg" where
  "bigU64 n = ScU64 (Fin (of_int n))"

definition buildCreateStream :: "SdkCreateParams \<Rightarrow> sdk_call" where
  "buildCreateStream params =
     (case cs_cliffDuration params of None \<Rightarrow> ''create_stream'' | Some _ \<Rightarrow> ''create_stream_with_cliff'',
      [RawText (cs_sender params), RawText (cs_recipient params), RawText (cs_tokenAddress params), ScI128 (cs_amount params),
       ScU64 (cs_duration params)] @ (case cs_cliffDuration params of None \<Rightarrow> [] | Some c \<Rightarrow> [ScU64 c]))"

definition buildWithdraw :: "int \<Rightarrow> string \<Rightarrow> sdk_call" where
  "buildWithdraw sid recpt = (''withdraw'', [RawText recpt, bigU64 sid])"

definition buildTopUp :: "int \<Rightarrow> string \<Rightarrow> int \<Rightarrow> sdk_call" where
  "buildTopUp sid sndr amt = (''top_up_stream'', [RawText sndr, bigU64 sid, ScI128 amt])"

definition buildCancel :: "int \<Rightarrow> string \<Rightarrow> sdk_call" where
  "buildCancel sid sndr = (''cancel_stream'', [RawText sndr, bigU64 sid])"

definition buildClose :: "int \<Rightarrow> string \<Rightarrow> sdk_call" where
  "buildClose sid caller = (''close_stream'', [RawText caller, bigU64 sid])"

section \<open>The outside\<close>

text \<open>What assembling gives: an object with a \<open>toXDR\<close> method, or one without.\<close>

datatype assembled = HasXdr string | NoXdr

record sdk_simulation =
  sm_error :: "string option"
  sm_minResourceFee :: "string option"
  sm_assembledTx :: "assembled option"

record sent_answer =
  sd_status :: string
  sd_hash :: "string option"
  sd_returnValue :: "int option"

record sdk_net =
  sk_publicKey :: "string + string"
  sk_build :: "sdk_call \<Rightarrow> string + string"
  sk_simulate :: "string \<Rightarrow> string + sdk_simulation"
  sk_assemble :: "string \<Rightarrow> string + assembled"
  sk_sign :: "string \<Rightarrow> string + string"
  sk_send :: "string \<Rightarrow> string + sent_answer"
  sk_shim :: bool
  sk_streamIdForTx :: "(string \<Rightarrow> string + int) option"

section \<open>Fees and assembling\<close>

definition DEFAULT_FEE_BUFFER_MULTIPLIER :: jsnum where
  "DEFAULT_FEE_BUFFER_MULTIPLIER = Fin (5 / 4)"

definition FALLBACK_BASE_FEE_STROOPS :: string where
  "FALLBACK_BASE_FEE_STROOPS = ''100''"

definition sdkFeeBuffer :: "int \<Rightarrow> jsnum \<Rightarrow> int call_result" where
  "sdkFeeBuffer minFee multiplier =
     (if numLess multiplier (Fin 1) then Inl (NativeError (Thrown ''applyFeeBuffer: multiplier must be >= 1''))
      else nativeCall (BigIntOfNumber (Math_ceil (numMult (fl (of_int minFee)) multiplier))))"

definition external :: "string + 'a \<Rightarrow> 'a call_result" where
  "external r = map_sum (\<lambda>t. NativeError (Thrown t)) id r"

text \<open>The envelope to be signed and the buffered fee.\<close>

definition simulateAndAssemble :: "sdk_net \<Rightarrow> jsnum \<Rightarrow> string \<Rightarrow> (string \<times> int) call_result" where
  "simulateAndAssemble N multiplier rawXdr =
     bindE (external (sk_simulate N rawXdr)) (\<lambda>simulation.
     case sm_error simulation of
       Some e \<Rightarrow> Inl (NativeError (Thrown (''simulateAndAssemble: simulation failed: '' @ e)))
     | None \<Rightarrow>
       (let fromXdr = HasXdr rawXdr;
            assembledTx = (case sk_assemble N rawXdr of
                Inl _ \<Rightarrow> fromXdr
              | Inr a \<Rightarrow> (case sm_assembledTx simulation of Some b \<Rightarrow> b | None \<Rightarrow> a))
        in bindE (nativeCall (of_opt SyntaxError (BigInt (case sm_minResourceFee simulation of None \<Rightarrow> FALLBACK_BASE_FEE_STROOPS | Some s \<Rightarrow> s)))) (\<lambda>minFee.
           bindE (sdkFeeBuffer minFee multiplier) (\<lambda>fee.
           Inr (case assembledTx of HasXdr x \<Rightarrow> x | NoXdr \<Rightarrow> rawXdr, fee)))))"

section \<open>The client\<close>

record sdk_result =
  sr_hash :: string
  sr_returnValue :: "int option"

text \<open>The result, and the signed envelopes handed to the network.\<close>

definition submitSigned :: "sdk_net \<Rightarrow> string \<Rightarrow> sdk_result call_result" where
  "submitSigned N signedXdr =
     bindE (external (sk_send N signedXdr)) (\<lambda>sent.
     Inr \<lparr>sr_hash = (case sd_hash sent of None \<Rightarrow> [] | Some h \<Rightarrow> h),
          sr_returnValue = (if sk_shim N then sd_returnValue sent else None)\<rparr>)"

definition signAndSubmit :: "sdk_net \<Rightarrow> jsnum \<Rightarrow> sdk_call \<Rightarrow> sdk_result call_result \<times> string list" where
  "signAndSubmit N multiplier call =
     (case bindE (external (sk_build N call)) (\<lambda>rawXdr.
           bindE (simulateAndAssemble N multiplier rawXdr) (\<lambda>(ready, fee).
           external (sk_sign N ready))) of
        Inl e \<Rightarrow> (Inl e, [])
      | Inr signedXdr \<Rightarrow> (submitSigned N signedXdr, [signedXdr]))"

definition validateCreateParams :: "SdkCreateParams \<Rightarrow> unit call_result" where
  "validateCreateParams params =
     (if cs_amount params \<le> 0 then Inl (NativeError (Thrown ''createStream: amount must be > 0''))
      else if numLe (cs_duration params) (Fin 0) then Inl (NativeError (Thrown ''createStream: duration must be > 0''))
      else case cs_cliffDuration params of
        None \<Rightarrow> Inr ()
      | Some c \<Rightarrow>
          if numLe c (Fin 0) \<or> numLess (cs_duration params) c
          then Inl (NativeError (Thrown ''createStream: cliffDuration must satisfy 0 < cliff <= duration'')) else Inr ())"

definition pollStreamIdFromTx :: "sdk_net \<Rightarrow> string \<Rightarrow> int call_result" where
  "pollStreamIdFromTx N transactionHash =
     (case sk_streamIdForTx N of Some f \<Rightarrow> external (f transactionHash) | None \<Rightarrow> Inr 0)"

text \<open>The identifier of the stream and the hash.\<close>

definition sdkCreateStream :: "sdk_net \<Rightarrow> jsnum \<Rightarrow> SdkCreateParams \<Rightarrow> (int \<times> string) call_result \<times> string list" where
  "sdkCreateStream N multiplier params =
     (case bindE (validateCreateParams params) (\<lambda>_. external (sk_publicKey N)) of
        Inl e \<Rightarrow> (Inl e, [])
      | Inr source \<Rightarrow>
          (let (r, sent) = signAndSubmit N multiplier (buildCreateStream params)
           in (bindE r (\<lambda>res. bindE (pollStreamIdFromTx N (sr_hash res)) (\<lambda>sid. Inr (sid, sr_hash res))), sent)))"

text \<open>The answers of the outside may differ for every stream of the loop.\<close>

fun withdrawAll :: "(int \<Rightarrow> sdk_net) \<Rightarrow> jsnum \<Rightarrow> string \<Rightarrow> int list \<Rightarrow> (int \<times> int \<times> string) list call_result \<times> string list" where
  "withdrawAll N multiplier recpt [] = (Inr [], [])"
| "withdrawAll N multiplier recpt (sid # sids) =
     (case signAndSubmit (N sid) multiplier (buildWithdraw sid recpt) of
        (Inl e, sent) \<Rightarrow> (Inl e, sent)
      | (Inr res, sent) \<Rightarrow>
          (let (rest, sents) = withdrawAll N multiplier recpt sids
           in (bindE rest (\<lambda>out. Inr ((sid, case sr_returnValue res of None \<Rightarrow> 0 | Some v \<Rightarrow> v, sr_hash res) # out)), sent @ sents)))"

definition sdkBatchWithdraw :: "string + string \<Rightarrow> (int \<Rightarrow> sdk_net) \<Rightarrow> jsnum \<Rightarrow> int list \<Rightarrow> (int \<times> int \<times> string) list call_result \<times> string list" where
  "sdkBatchWithdraw publicKey N multiplier sids =
     (if sids = [] then (Inl (NativeError (Thrown ''batchWithdraw: streamIds must not be empty'')), [])
      else case external publicKey of Inl e \<Rightarrow> (Inl e, []) | Inr recpt \<Rightarrow> withdrawAll N multiplier recpt sids)"

definition withKey :: "sdk_net \<Rightarrow> jsnum \<Rightarrow> (string \<Rightarrow> sdk_call) \<Rightarrow> string call_result \<times> string list" where
  "withKey N multiplier call =
     (case external (sk_publicKey N) of
        Inl e \<Rightarrow> (Inl e, [])
      | Inr key \<Rightarrow> (let (r, sent) = signAndSubmit N multiplier (call key) in (bindE r (\<lambda>res. Inr (sr_hash res)), sent)))"

definition sdkTopUp :: "sdk_net \<Rightarrow> jsnum \<Rightarrow> int \<Rightarrow> int \<Rightarrow> string call_result \<times> string list" where
  "sdkTopUp N multiplier sid amt =
     (if amt \<le> 0 then (Inl (NativeError (Thrown ''topUpStream: amount must be > 0'')), [])
      else withKey N multiplier (\<lambda>k. buildTopUp sid k amt))"

definition sdkCancel :: "sdk_net \<Rightarrow> jsnum \<Rightarrow> int \<Rightarrow> string call_result \<times> string list" where
  "sdkCancel N multiplier sid = withKey N multiplier (buildCancel sid)"

definition sdkClose :: "sdk_net \<Rightarrow> jsnum \<Rightarrow> int \<Rightarrow> string call_result \<times> string list" where
  "sdkClose N multiplier sid = withKey N multiplier (buildClose sid)"

text \<open>The reads go to the injected client when it has the method, and to a placeholder otherwise.\<close>

definition sdkGetStream :: "(int \<Rightarrow> string + 'a option) option \<Rightarrow> int \<Rightarrow> 'a option call_result" where
  "sdkGetStream shim sid = (case shim of Some f \<Rightarrow> external (f sid) | None \<Rightarrow> Inr None)"

definition sdkGetClaimable :: "(int \<Rightarrow> string + int) option \<Rightarrow> int \<Rightarrow> int call_result" where
  "sdkGetClaimable shim sid = (case shim of Some f \<Rightarrow> external (f sid) | None \<Rightarrow> Inr 0)"

section \<open>Signers\<close>

definition newKeypairSigner :: "string \<Rightarrow> string call_result" where
  "newKeypairSigner secret =
     (if startsWith secret ''S'' then Inr secret
      else Inl (NativeError (Thrown (''KeypairSigner expects a Stellar secret key starting with '' @ dq @ ''S'' @ dq))))"

text \<open>What the wallet extension answers: a text, an object with \<open>signedTxXdr\<close>, or something else.\<close>

datatype freighter_answer = FreighterText string | FreighterObject "string option"

fun freighterSigned :: "freighter_answer \<Rightarrow> string call_result" where
  "freighterSigned (FreighterText s) = Inr s"
| "freighterSigned (FreighterObject x) =
     (case x of
        Some s \<Rightarrow> if s = [] then Inl (NativeError (Thrown ''FreighterSigner: unexpected signTransaction response shape'')) else Inr s
      | None \<Rightarrow> Inl (NativeError (Thrown ''FreighterSigner: unexpected signTransaction response shape'')))"

section \<open>The fee\<close>

text \<open>The buffered fee is never below the simulated minimum, for minimums of at most 53 bits and any
  finite multiplier the client accepts.
\<close>
theorem fee_never_short:
  assumes "0 < fee" "fee \<le> 2 ^ 53" "1 \<le> m" "of_int fee * m \<le> 2 ^ 1023"
  shows "\<exists>n. sdkFeeBuffer fee (Fin m) = Inr n \<and> fee \<le> n"
proof -
  have f: "fl (of_int fee) = Fin (of_int fee)" using fl_int [of fee] assms(1,2) by simp
  have "of_int fee * 1 \<le> of_int fee * m" using assms(1,3) by (intro mult_left_mono) auto
  then obtain r where r: "fl (of_int fee * m) = Fin r" "of_int fee \<le> r"
    using fl_ge [OF assms(1,2) _ assms(4)] by auto
  then have "fee \<le> \<lceil>r\<rceil>" by (simp add: le_ceiling_iff less_le_trans [of "of_int fee - 1" "of_int fee" r])
  with r assms(3) show ?thesis by (simp add: sdkFeeBuffer_def f nativeCall_def)
qed

theorem fee_never_short_witness: "\<exists>n. sdkFeeBuffer 100 DEFAULT_FEE_BUFFER_MULTIPLIER = Inr n \<and> 100 \<le> n"
proof -
  have "(125::rat) \<le> 2 ^ 1023"
    using power_increasing [of 7 1023 "2::rat"] by simp
  then show ?thesis
    unfolding DEFAULT_FEE_BUFFER_MULTIPLIER_def by (intro fee_never_short) simp_all
qed

text \<open>Above 53 bits the minimum itself is rounded, and the fee falls short.\<close>

lemma large_fee_short: "sdkFeeBuffer 9007199254740993 (Fin 1) = Inr 9007199254740992"
proof -
  have q: "fl 9007199254740993 = Fin 9007199254740992"
  proof -
    have l: "leadExp 9007199254740993 = 53" by (rule leadExp_unique) simp_all
    then have "ulp 9007199254740993 = 2" by (simp add: ulp_def)
    moreover have "roundEven (9007199254740993 / 2) = 4503599627370496"
    proof -
      have "\<lfloor>9007199254740993 / 2 :: rat\<rfloor> = 4503599627370496" by (intro floor_unique) simp_all
      then show ?thesis by (simp add: roundEven_def)
    qed
    moreover have "\<not> (2::rat) ^ 1024 \<le> 9007199254740992"
      using power_strict_increasing [of 53 1024 "2::rat"] by simp
    ultimately show ?thesis by (simp add: fl_def)
  qed
  have "fl 9007199254740992 = Fin 9007199254740992" using fl_int [of 9007199254740992] by simp
  then show ?thesis by (simp add: sdkFeeBuffer_def q nativeCall_def)
qed

section \<open>Submissions\<close>

lemma signAndSubmit_ok:
  "signAndSubmit N m c = (Inr res, sent) \<longleftrightarrow>
     (\<exists>u x f s. sk_build N c = Inr u \<and> simulateAndAssemble N m u = Inr (x, f) \<and> sk_sign N x = Inr s \<and> submitSigned N s = Inr res \<and> sent = [s])"
  by (auto simp: signAndSubmit_def external_def bindE_eq_Inr split: sum.splits) (auto simp: map_sum_def split: sum.splits)

text \<open>The configured fee multiplier has no effect on what is submitted: the buffered fee is computed and dropped.\<close>
theorem fee_buffer_unused:
  assumes "signAndSubmit N m c = (Inr res, sent)" "signAndSubmit N m' c = (Inr res', sent')"
  shows "res = res' \<and> sent = sent'"
proof -
  have same: "simulateAndAssemble N m u = Inr (x, f) \<Longrightarrow> simulateAndAssemble N m' u = Inr (x', f') \<Longrightarrow> x = x'" for u x f x' f'
    by (auto simp: simulateAndAssemble_def bindE_eq_Inr Let_def split: option.splits)
  from assms obtain u x f s x' f' s' where
    "sk_build N c = Inr u" "simulateAndAssemble N m u = Inr (x, f)" "sk_sign N x = Inr s" "submitSigned N s = Inr res" "sent = [s]"
    "simulateAndAssemble N m' u = Inr (x', f')" "sk_sign N x' = Inr s'" "submitSigned N s' = Inr res'" "sent' = [s']"
    by (auto simp: signAndSubmit_ok)
  moreover from this same have "x = x'" by blast
  ultimately show ?thesis by simp
qed

text \<open>A submission the node rejects is reported as one it accepted: the status of the answer is not read.\<close>

lemma rejection_reported_as_success:
  "submitSigned (N\<lparr>sk_send := \<lambda>_. Inr (a\<lparr>sd_status := ''ERROR''\<rparr>)\<rparr>) x = submitSigned (N\<lparr>sk_send := \<lambda>_. Inr a\<rparr>) x"
  by (simp add: submitSigned_def external_def)

text \<open>A batch withdrawal stops at the first failure. What was submitted before it stays submitted but
  is not reported; a complete batch reports one withdrawal for each stream, in order.
\<close>
theorem batch_withdraw_prefix:
  assumes "withdrawAll N m recpt sids = (r, sent)"
  shows "(case r of
            Inr out \<Rightarrow> map fst out = sids \<and> length sent = length sids
          | Inl e \<Rightarrow> \<exists>k<length sids. (\<exists>sent'. signAndSubmit (N (sids ! k)) m (buildWithdraw (sids ! k) recpt) = (Inl e, sent')) \<and>
                       (\<forall>j<k. \<exists>res sent'. signAndSubmit (N (sids ! j)) m (buildWithdraw (sids ! j) recpt) = (Inr res, sent')) \<and>
                       k \<le> length sent)"
  using assms
proof (induction sids arbitrary: r sent)
  case (Cons sid sids)
  show ?case
  proof (cases "signAndSubmit (N sid) m (buildWithdraw sid recpt)")
    case (Pair a s1)
    show ?thesis
    proof (cases a)
      case (Inl e)
      with Cons.prems Pair show ?thesis by (auto intro!: exI [of _ 0])
    next
      case (Inr res)
      have one: "length s1 = 1" using Pair Inr by (auto simp: signAndSubmit_ok)
      obtain rest s2 where rest: "withdrawAll N m recpt sids = (rest, s2)" by fastforce
      then have rs: "r = bindE rest (\<lambda>out. Inr ((sid, case sr_returnValue res of None \<Rightarrow> 0 | Some v \<Rightarrow> v, sr_hash res) # out))"
        "sent = s1 @ s2" using Cons.prems Pair Inr by simp_all
      note ih = Cons.IH [OF rest]
      show ?thesis
      proof (cases rest)
        case (Inr out)
        with ih rs one show ?thesis by simp
      next
        case (Inl e)
        with ih obtain k where k: "k < length sids" "\<exists>sent'. signAndSubmit (N (sids ! k)) m (buildWithdraw (sids ! k) recpt) = (Inl e, sent')"
          "\<forall>j<k. \<exists>res sent'. signAndSubmit (N (sids ! j)) m (buildWithdraw (sids ! j) recpt) = (Inr res, sent')" "k \<le> length s2" by auto
        have "\<forall>j<Suc k. \<exists>res sent'. signAndSubmit (N ((sid # sids) ! j)) m (buildWithdraw ((sid # sids) ! j) recpt) = (Inr res, sent')"
          using k(3) Pair \<open>a = Inr res\<close> by (auto simp: All_less_Suc2)
        with k rs one Inl show ?thesis by (auto intro!: exI [of _ "Suc k"])
      qed
    qed
  qed
qed simp

text \<open>
  Every write passes the wallet's address as a plain string. When the Stellar SDK builds calls of
  encoded values only, no write of the package ever reaches the network.
\<close>
theorem sdk_writes_never_submitted:
  assumes "\<And>c t. RawText t \<in> set (snd c) \<Longrightarrow> \<exists>e. sk_build N c = Inl e"
  shows "snd (sdkCreateStream N m params) = [] \<and> snd (sdkTopUp N m sid amt) = [] \<and> snd (sdkCancel N m sid) = [] \<and>
         snd (sdkClose N m sid) = [] \<and> snd (sdkBatchWithdraw pk (\<lambda>_. N) m sids) = []"
proof -
  have fails: "\<exists>e. signAndSubmit N m (entry, RawText t # args) = (Inl e, [])" for entry t args
  proof -
    obtain e where "sk_build N (entry, RawText t # args) = Inl e" using assms [of t "(entry, RawText t # args)"] by auto
    then show ?thesis by (simp add: signAndSubmit_def external_def)
  qed
  have with_key: "(\<And>k. \<exists>e. signAndSubmit N m (call k) = (Inl e, [])) \<Longrightarrow> snd (withKey N m call) = []" for call
    unfolding withKey_def by (auto split: sum.splits prod.splits) (metis snd_conv)
  have "snd (sdkCreateStream N m params) = []"
    using fails [of _ "cs_sender params"] unfolding sdkCreateStream_def buildCreateStream_def
    by (auto split: sum.splits prod.splits) (metis snd_conv)
  moreover have "snd (sdkTopUp N m sid amt) = []" "snd (sdkCancel N m sid) = []" "snd (sdkClose N m sid) = []"
    using fails by (simp_all add: sdkTopUp_def sdkCancel_def sdkClose_def with_key buildTopUp_def buildCancel_def buildClose_def)
  moreover have "snd (sdkBatchWithdraw pk (\<lambda>_. N) m sids) = []"
  proof (cases sids)
    case (Cons s ss)
    have "snd (withdrawAll (\<lambda>_. N) m k (s # ss)) = []" for k
      using fails [of "''withdraw''" k "[bigU64 s]"] by (auto simp: buildWithdraw_def)
    with Cons show ?thesis by (auto simp: sdkBatchWithdraw_def simp del: withdrawAll.simps split: sum.splits)
  qed (simp add: sdkBatchWithdraw_def)
  ultimately show ?thesis by blast
qed

section \<open>Examples\<close>

text \<open>A network whose answers do not depend on the call.\<close>

definition sdkNet :: "(sdk_call \<Rightarrow> string + string) \<Rightarrow> sdk_net" where
  "sdkNet build = \<lparr>sk_publicKey = Inr ''GA'', sk_build = build,
     sk_simulate = (\<lambda>_. Inr \<lparr>sm_error = None, sm_minResourceFee = Some ''100'', sm_assembledTx = None\<rparr>),
     sk_assemble = (\<lambda>_. Inr NoXdr), sk_sign = (\<lambda>x. Inr x), sk_send = (\<lambda>_. Inr \<lparr>sd_status = ''PENDING'', sd_hash = Some ''h'', sd_returnValue = None\<rparr>),
     sk_shim = False, sk_streamIdForTx = None\<rparr>"

lemma sdkNet_submits:
  assumes "1 \<le> k" "k \<le> 2"
  shows "signAndSubmit (sdkNet (\<lambda>_. Inr ''xdr'')) (Fin (of_int k)) c = (Inr \<lparr>sr_hash = ''h'', sr_returnValue = None\<rparr>, [''xdr''])"
proof -
  have b: "BigInt ''100'' = Some 100" using BigInt_toString [of 100] by simp
  have "fl 100 = Fin 100" "fl (of_int (100 * k)) = Fin (of_int (100 * k))"
    using fl_int [of 100] fl_int [of "100 * k"] assms by simp_all
  moreover have scaled: "\<lceil>100 * of_int k :: rat\<rceil> = 100 * k" "\<lfloor>100 * of_int k :: rat\<rfloor> = 100 * k"
    using ceiling_of_int [of "100 * k", where ?'a = rat] floor_of_int [of "100 * k", where ?'a = rat] by simp_all
  ultimately have "sdkFeeBuffer 100 (Fin (of_int k)) = Inr (100 * k)"
    using assms(1) scaled by (simp add: sdkFeeBuffer_def nativeCall_def)
  then show ?thesis
    by (simp add: signAndSubmit_def sdkNet_def external_def simulateAndAssemble_def b nativeCall_def submitSigned_def id_def)
qed

theorem fee_buffer_unused_witness:
  "fst (signAndSubmit (sdkNet (\<lambda>_. Inr ''xdr'')) (Fin 1) (buildCancel 3 ''GA'')) = fst (signAndSubmit (sdkNet (\<lambda>_. Inr ''xdr'')) (Fin 2) (buildCancel 3 ''GA''))"
proof -
  let ?s = "\<lambda>k. signAndSubmit (sdkNet (\<lambda>_. Inr ''xdr'')) (Fin k) (buildCancel 3 ''GA'')"
  obtain r1 s1 r2 s2 where r: "?s 1 = (Inr r1, s1)" "?s 2 = (Inr r2, s2)"
    using sdkNet_submits [of 1 "buildCancel 3 ''GA''"] sdkNet_submits [of 2 "buildCancel 3 ''GA''"] by simp
  then show ?thesis using fee_buffer_unused [OF r] by simp
qed

theorem batch_withdraw_prefix_witness:
  "\<exists>k<2. \<exists>s. signAndSubmit (if [1, 2 :: int] ! k = 1 then sdkNet (\<lambda>_. Inr ''xdr'') else sdkNet (\<lambda>_. Inl ''closed'')) (Fin 1)
      (buildWithdraw ([1, 2] ! k) ''GA'') = (Inl (NativeError (Thrown ''closed'')), s)"
proof -
  let ?N = "\<lambda>i :: int. if i = 1 then sdkNet (\<lambda>_. Inr ''xdr'') else sdkNet (\<lambda>_. Inl ''closed'')"
  have "signAndSubmit (sdkNet (\<lambda>_. Inl ''closed'')) (Fin 1) c = (Inl (NativeError (Thrown ''closed'')), [])" for c
    by (simp add: signAndSubmit_def sdkNet_def external_def)
  then have w: "withdrawAll ?N (Fin 1) ''GA'' [1, 2] = (Inl (NativeError (Thrown ''closed'')), [''xdr''])"
    using sdkNet_submits [of 1] by simp
  then show ?thesis using batch_withdraw_prefix [OF w] by (auto simp del: withdrawAll.simps simp: numeral_2_eq_2)
qed

theorem sdk_writes_never_submitted_witness:
  "snd (sdkCancel (sdkNet (\<lambda>c. if list_ex (\<lambda>a. case a of RawText _ \<Rightarrow> True | _ \<Rightarrow> False) (snd c) then Inl ''XDR Write Error'' else Inr ''xdr'')) (Fin 1) 3) = []"
  using sdk_writes_never_submitted [of "sdkNet (\<lambda>c. if list_ex (\<lambda>a. case a of RawText _ \<Rightarrow> True | _ \<Rightarrow> False) (snd c) then Inl ''XDR Write Error'' else Inr ''xdr'')"]
  by (force simp: sdkNet_def list_ex_iff)

end
