(* ===== verification/Admin_Api.thy ===== *)
theory Admin_Api
  imports Poll_Position Csv_Export Js_Float
begin

text \<open>
  The operator's endpoints: the dead-letter handlers of \<open>controllers/admin.controller.ts\<close>, the
  reset and replay routes of \<open>routes/v1/admin.routes.ts\<close>, and the previews of \<open>services/indexer.service.ts\<close>.
  \<open>Date\<close> parsing and failures of the database are parameters; authentication comes before
  (\<open>requireAdmin\<close> in \<open>Auth\<close>). A JSON number that is no integer is refused like a text.
\<close>

section \<open>Query parameters\<close>

text \<open>The whole text is a decimal literal: digits, a point, an exponent with digits.\<close>

definition exponentComplete :: "string \<Rightarrow> bool" where
  "exponentComplete s =
     (case s of
        [] \<Rightarrow> True
      | c # cs \<Rightarrow> (c = CHR ''e'' \<or> c = CHR ''E'') \<and>
          (let ds = (if cs \<noteq> [] \<and> (hd cs = CHR ''-'' \<or> hd cs = CHR ''+'') then tl cs else cs) in all_digits ds))"

definition decimalComplete :: "string \<Rightarrow> bool" where
  "decimalComplete s =
     (let rest = dropWhile is_digit s;
          rest2 = (if rest \<noteq> [] \<and> hd rest = CHR ''.'' then dropWhile is_digit (tl rest) else rest)
      in exponentComplete rest2)"

text \<open>\<open>Number(text)\<close>: white space alone is 0, and a text with anything left over is NaN.\<close>

definition numberOfText :: "string \<Rightarrow> jsnum" where
  "numberOfText s =
     (let t = trim s in
      if t = [] then Fin 0
      else case radix_prefix t of
        Some b \<Rightarrow> (case parse_radix b (drop 2 t) of None \<Rightarrow> NaN | Some n \<Rightarrow> fl (of_nat n))
      | None \<Rightarrow>
          (let u = (if hd t = CHR ''-'' \<or> hd t = CHR ''+'' then tl t else t) in
           if u = ''Infinity'' \<or> decimalComplete u then parseFloat t else NaN))"

fun numberOfJson :: "json option \<Rightarrow> jsnum" where
  "numberOfJson None = NaN"
| "numberOfJson (Some JNull) = Fin 0"
| "numberOfJson (Some (JBool b)) = Fin (if b then 1 else 0)"
| "numberOfJson (Some (JNum n)) = Fin (of_int n)"
| "numberOfJson (Some (JStr s)) = numberOfText s"
| "numberOfJson (Some (JArr xs)) =
     (case xs of
        [] \<Rightarrow> Fin 0
      | [x] \<Rightarrow> (case x of JNull \<Rightarrow> Fin 0 | JNum n \<Rightarrow> Fin (of_int n) | JStr s \<Rightarrow> numberOfText s
                | JArr [] \<Rightarrow> Fin 0 | JArr (y # ys) \<Rightarrow> (if ys = [] then numberOfJson (Some (JArr [y])) else NaN) | _ \<Rightarrow> NaN)
      | _ \<Rightarrow> NaN)"
| "numberOfJson (Some (JObj _)) = NaN"

text \<open>A non-negative integer, as \<open>Number.isInteger(n) && n >= 0\<close> asks for.\<close>

fun naturalNumber :: "jsnum \<Rightarrow> int option" where
  "naturalNumber (Fin q) = (if of_int \<lfloor>q\<rfloor> = q \<and> 0 \<le> q then Some \<lfloor>q\<rfloor> else None)"
| "naturalNumber _ = None"

definition parseOptionalInt :: "string option \<Rightarrow> int option" where
  "parseOptionalInt raw =
     (case raw of None \<Rightarrow> None | Some s \<Rightarrow> if s = [] then None else naturalNumber (numberOfText s))"

text \<open>\<open>Inl\<close>: the value is not a date. \<open>toMs\<close> is the reading of \<open>new Date\<close>, \<open>None\<close> an invalid date.\<close>

definition parseOptionalDate :: "(string \<Rightarrow> int option) \<Rightarrow> string option \<Rightarrow> unit + int option" where
  "parseOptionalDate toMs raw =
     (case raw of
        None \<Rightarrow> Inr None
      | Some s \<Rightarrow> if s = [] then Inr None else (case toMs s of None \<Rightarrow> Inl () | Some ms \<Rightarrow> Inr (Some ms)))"

fun readSingleQueryParam :: "query_value \<Rightarrow> string option" where
  "readSingleQueryParam QAbsent = None"
| "readSingleQueryParam (QText s) = Some s"
| "readSingleQueryParam (QTexts xs) = (case xs of [] \<Rightarrow> None | x # _ \<Rightarrow> Some x)"

section \<open>Dead letters\<close>

record dead_letter_request =
  dq_page :: query_value
  dq_limit :: query_value
  dq_ledgerSequence :: query_value
  dq_startDate :: query_value
  dq_endDate :: query_value
  dq_eventType :: query_value

text \<open>\<open>rejects\<close> says which queries the database refuses, for instance a ledger that is no 32-bit number.\<close>

definition listDeadLetterHandler ::
  "(string \<Rightarrow> int option) \<Rightarrow> (DeadLetterQuery \<Rightarrow> bool) \<Rightarrow> dead_letter_request \<Rightarrow> db \<Rightarrow> DeadLetterListResult response" where
  "listDeadLetterHandler toMs rejects rq d =
     (let page = (case parseOptionalInt (readSingleQueryParam (dq_page rq)) of None \<Rightarrow> 1 | Some n \<Rightarrow> n);
          rawLimit = parseOptionalInt (readSingleQueryParam (dq_limit rq));
          ledgerSequence = parseOptionalInt (readSingleQueryParam (dq_ledgerSequence rq))
      in case parseOptionalDate toMs (readSingleQueryParam (dq_startDate rq)) of
           Inl _ \<Rightarrow> Failure 400 ''startDate must be a valid ISO-8601 date''
         | Inr startDate \<Rightarrow>
         case parseOptionalDate toMs (readSingleQueryParam (dq_endDate rq)) of
           Inl _ \<Rightarrow> Failure 400 ''endDate must be a valid ISO-8601 date''
         | Inr endDate \<Rightarrow>
         if (case (startDate, endDate) of (Some s, Some t) \<Rightarrow> t < s | _ \<Rightarrow> False)
         then Failure 400 ''startDate must be before endDate''
         else (let q = \<lparr>q_page = page,
                        q_limit = min (case rawLimit of None \<Rightarrow> DEFAULT_DEAD_LETTER_PAGE_SIZE | Some n \<Rightarrow> n) MAX_DEAD_LETTER_PAGE_SIZE,
                        q_ledgerSequence = ledgerSequence, q_startDate = startDate, q_endDate = endDate,
                        q_eventType = (case readSingleQueryParam (dq_eventType rq) of None \<Rightarrow> None | Some ty \<Rightarrow> if ty = [] then None else Some ty)\<rparr>
               in if rejects q then Failure 500 ''Failed to list dead-letter events'' else Success 200 (listDeadLetterEvents q d)))"


definition replayAllDeadLetterHandler ::
  "env \<Rightarrow> quarantine_env \<Rightarrow> int \<Rightarrow> db \<Rightarrow> ReplayAllResult response \<times> db \<times> bcast list" where
  "replayAllDeadLetterHandler E Q now d =
     (let (summary, d', bs) = replayAllDeadLetterEvents E Q now d in (Success 200 summary, d', bs))"

definition discardDeadLetterHandler :: "string \<Rightarrow> db \<Rightarrow> dead_letter_row response \<times> db" where
  "discardDeadLetterHandler i d =
     (if i = [] then (Failure 400 ''id is required'', d)
      else case discardDeadLetterEvent i d of
        Inl _ \<Rightarrow> (Failure 404 ''Dead-letter event not found'', d)
      | Inr (r, d') \<Rightarrow> (Success 200 r, d'))"

section \<open>Reset and replay\<close>

record ResetPreview =
  rp_currentLastLedger :: int
  rp_currentLastCursor :: "string option"
  rp_targetLastLedger :: int

definition previewReset :: "int \<Rightarrow> db \<Rightarrow> ResetPreview" where
  "previewReset targetLedger d =
     \<lparr>rp_currentLastLedger = (case indexer d of None \<Rightarrow> 0 | Some s \<Rightarrow> lastLedger s),
      rp_currentLastCursor = (case indexer d of None \<Rightarrow> None | Some s \<Rightarrow> lastCursor s),
      rp_targetLastLedger = targetLedger\<rparr>"

record ReplayPreview =
  pp_fromLedger :: int
  pp_currentLastLedger :: int
  pp_currentLastCursor :: "string option"
  pp_eventCount :: nat
  pp_minLedger :: "int option"
  pp_maxLedger :: "int option"

text \<open>\<open>rows\<close> are the recorded events, in any order.\<close>

definition previewReplay :: "int \<Rightarrow> event_row list \<Rightarrow> db \<Rightarrow> ReplayPreview" where
  "previewReplay fromLedger rows d =
     (let currentLastLedger = (case indexer d of None \<Rightarrow> 0 | Some s \<Rightarrow> lastLedger s);
          ledgers = filter (\<lambda>l. fromLedger \<le> l \<and> (0 < currentLastLedger \<longrightarrow> l \<le> currentLastLedger)) (map ev_ledgerSequence rows)
      in \<lparr>pp_fromLedger = fromLedger, pp_currentLastLedger = currentLastLedger,
          pp_currentLastCursor = (case indexer d of None \<Rightarrow> None | Some s \<Rightarrow> lastCursor s),
          pp_eventCount = length ledgers,
          pp_minLedger = (if ledgers = [] then None else Some (foldr min (tl ledgers) (hd ledgers))),
          pp_maxLedger = (if ledgers = [] then None else Some (foldr max (tl ledgers) (hd ledgers)))\<rparr>)"

datatype reset_answer = ResetDryRun ResetPreview | ResetDone int

definition isTrue :: "query_value \<Rightarrow> bool" where
  "isTrue q = (q = QText ''true'')"

text \<open>\<open>ledger\<close> is the property of the JSON body, \<open>None\<close> when it is missing.\<close>

definition resetHandler :: "int \<Rightarrow> json option \<Rightarrow> query_value \<Rightarrow> world \<Rightarrow> reset_answer response \<times> world" where
  "resetHandler now ledger dryRun w =
     (case naturalNumber (numberOfJson ledger) of
        None \<Rightarrow> (Failure 400 ''ledger must be a non-negative integer'', w)
      | Some l \<Rightarrow>
          if isTrue dryRun then (Success 200 (ResetDryRun (previewReset l (store w))), w)
          else (Success 200 (ResetDone l), resetIndexer now l w))"

fun numberOfQuery :: "query_value \<Rightarrow> jsnum" where
  "numberOfQuery QAbsent = NaN"
| "numberOfQuery (QText s) = numberOfText s"
| "numberOfQuery (QTexts xs) = numberOfText (join '','' xs)"

datatype replay_answer = ReplayDryRun ReplayPreview | ReplayStarted int

definition replayHandler ::
  "event_row list \<Rightarrow> string option \<Rightarrow> string \<Rightarrow> cycle \<Rightarrow> query_value \<Rightarrow> query_value \<Rightarrow> world \<Rightarrow> replay_answer response \<times> world" where
  "replayHandler rows current uuid C fromLedger dryRun w =
     (case naturalNumber (numberOfQuery fromLedger) of
        None \<Rightarrow> (Failure 400 ''from_ledger must be a non-negative integer'', w)
      | Some l \<Rightarrow>
          if isTrue dryRun then (Success 200 (ReplayDryRun (previewReplay l rows (store w))), w)
          else (case replayFromLedger current uuid C l w of
                  (w', Inl _) \<Rightarrow> (Failure 500 ''Replay failed'', w')
                | (w', Inr _) \<Rightarrow> (Success 202 (ReplayStarted l), w')))"

section \<open>Pages of dead letters\<close>

text \<open>An operator who turns the pages while there are more, for at most \<open>n\<close> pages.\<close>

fun walkDeadLetters :: "DeadLetterQuery \<Rightarrow> db \<Rightarrow> nat \<Rightarrow> int \<Rightarrow> dead_letter_row list" where
  "walkDeadLetters q d 0 p = []"
| "walkDeadLetters q d (Suc n) p =
     (let r = listDeadLetterEvents (q\<lparr>q_page := p\<rparr>) d
      in lr_items r @ (if lr_hasMore r then walkDeadLetters q d n (p + 1) else []))"

lemma pageLimit_bounds: "1 \<le> pageLimit q" "pageLimit q \<le> 100"
  by (simp_all add: pageLimit_def MAX_DEAD_LETTER_PAGE_SIZE_def)

lemma pageLimit_page [simp]: "pageLimit (q\<lparr>q_page := p\<rparr>) = pageLimit q"
  by (simp add: pageLimit_def)

lemma deadLetterMatches_page [simp]: "deadLetterMatches (q\<lparr>q_page := p\<rparr>) = deadLetterMatches q"
  by (simp add: deadLetterMatches_def fun_eq_iff)

lemma walk_from:
  fixes q d
  defines "rows \<equiv> newestFirst (filter (deadLetterMatches q) (deadLetters d))"
  assumes "1 \<le> p" "int (length rows) \<le> (p - 1) * pageLimit q + int n"
  shows "walkDeadLetters q d n p = drop (nat ((p - 1) * pageLimit q)) rows"
  using assms(2,3)
proof (induction n arbitrary: p)
  case 0
  then show ?case by simp
next
  case (Suc n)
  let ?L = "pageLimit q"
  let ?k = "nat ((p - 1) * ?L)"
  have L: "1 \<le> ?L" by (rule pageLimit_bounds)
  have len: "length (filter (deadLetterMatches q) (deadLetters d)) = length rows" by (simp add: rows_def newestFirst_def)
  have page: "pageNumber (q\<lparr>q_page := p\<rparr>) = p" using Suc.prems(1) by (simp add: pageNumber_def)
  have k: "nat (p * ?L) = ?k + nat ?L"
  proof -
    have "p * ?L = (p - 1) * ?L + ?L" by (simp add: left_diff_distrib)
    moreover have "0 \<le> (p - 1) * ?L" using Suc.prems(1) L by simp
    ultimately show ?thesis using L by simp
  qed
  show ?case
  proof (cases "p * ?L < int (length rows)")
    case True
    have "int (length rows) \<le> p * ?L + int n" using Suc.prems(2) L by (simp add: left_diff_distrib)
    then have "walkDeadLetters q d n (p + 1) = drop (nat (p * ?L)) rows" using Suc.IH [of "p + 1"] Suc.prems(1) by simp
    moreover have "take (nat ?L) (drop ?k rows) @ drop (nat (p * ?L)) rows = drop ?k rows"
      unfolding k by (metis add.commute append_take_drop_id drop_drop)
    ultimately show ?thesis using True by (simp add: listDeadLetterEvents_def Let_def page len rows_def [symmetric])
  next
    case False
    then have "length rows \<le> ?k + nat ?L" using k L Suc.prems(1) by linarith
    then show ?thesis using False by (simp add: listDeadLetterEvents_def Let_def page len rows_def [symmetric])
  qed
qed

text \<open>Turning the pages of the dead-letter list shows every matching record exactly once, newest
  first, in pages of at most a hundred.
\<close>
theorem dead_letter_pages_complete:
  assumes "length (filter (deadLetterMatches q) (deadLetters d)) \<le> n"
  shows "walkDeadLetters q d n 1 = newestFirst (filter (deadLetterMatches q) (deadLetters d)) \<and> pageLimit q \<le> 100"
  using walk_from [of 1 q d n] assms pageLimit_bounds(2) by (simp add: newestFirst_def)

definition anyDeadLetter :: DeadLetterQuery where
  "anyDeadLetter = \<lparr>q_page = 1, q_limit = 1, q_ledgerSequence = None, q_startDate = None, q_endDate = None, q_eventType = None\<rparr>"

definition exampleLetter :: "string \<Rightarrow> int \<Rightarrow> dead_letter_row" where
  "exampleLetter i seen =
     \<lparr>dl_id = i, dl_eventId = i, dl_eventType = ''stream_created'', dl_txHash = ''tx1'', dl_ledgerSequence = 100, dl_cursor = None,
      dl_payload = None, dl_errorMessage = ''SyntaxError'', dl_attempts = 1, dl_lastAttemptAt = seen, dl_createdAt = seen\<rparr>"

theorem dead_letter_pages_complete_witness:
  "walkDeadLetters anyDeadLetter (emptyDb\<lparr>deadLetters := [exampleLetter ''a'' 5, exampleLetter ''b'' 6]\<rparr>) 2 1 =
     [exampleLetter ''b'' 6, exampleLetter ''a'' 5]"
proof -
  let ?d = "emptyDb\<lparr>deadLetters := [exampleLetter ''a'' 5, exampleLetter ''b'' 6]\<rparr>"
  have m: "deadLetterMatches anyDeadLetter x" for x by (simp add: deadLetterMatches_def anyDeadLetter_def)
  have "length (filter (deadLetterMatches anyDeadLetter) (deadLetters ?d)) \<le> 2" by (simp add: m)
  from dead_letter_pages_complete [OF this] show ?thesis by (simp add: m newestFirst_def insort_key.simps exampleLetter_def)
qed

section \<open>Outcomes\<close>






text \<open>A body without a ledger is refused, but one with the ledger \<open>null\<close>, and a replay with an empty ledger, start from ledger 0.\<close>

lemma null_ledger_resets:
  "resetHandler now (Some JNull) QAbsent w = (Success 200 (ResetDone 0), resetIndexer now 0 w) \<and>
   fst (resetHandler now None QAbsent w) = Failure 400 ''ledger must be a non-negative integer'' \<and>
   naturalNumber (numberOfQuery (QText [])) = Some 0"
  by (simp add: resetHandler_def isTrue_def numberOfText_def trim_def)

text \<open>
  A dry run changes nothing, and the reset that follows does what it announced: the position is
  the target, the stored cursor is dropped, and streams and events stay as they are.
\<close>
theorem dry_run_announces_reset:
  assumes "resetHandler now ledger (QText ''true'') w = (Success 200 (ResetDryRun p), w')"
  shows "w' = w \<and> rp_currentLastLedger p = is_lastLedger (getIndexerStatus now (store w)) \<and>
    fst (resetHandler now ledger QAbsent w) = Success 200 (ResetDone (rp_targetLastLedger p)) \<and>
    (let d = store (snd (resetHandler now ledger QAbsent w))
     in indexer d = Some \<lparr>lastLedger = rp_targetLastLedger p, lastCursor = None, ix_updatedAt = now\<rparr> \<and>
        streams d = streams (store w) \<and> events d = events (store w))"
proof -
  obtain l where n: "naturalNumber (numberOfJson ledger) = Some l"
    using assms by (cases "naturalNumber (numberOfJson ledger)") (simp_all add: resetHandler_def)
  with assms have "(Success 200 (ResetDryRun (previewReset l (store w))), w) = (Success 200 (ResetDryRun p), w')"
    by (simp only: resetHandler_def isTrue_def option.case if_True simp_thms)
  then have p: "p = previewReset l (store w)" and w: "w' = w" by blast+
  have r: "resetHandler now ledger QAbsent w = (Success 200 (ResetDone l), resetIndexer now l w)"
    by (simp add: resetHandler_def isTrue_def n)
  show ?thesis unfolding p w r
    by (simp add: previewReset_def getIndexerStatus_def resetIndexer_def indexerState_upsert_def split: option.split)
qed

theorem dry_run_announces_reset_witness:
  "fst (resetHandler 9 (Some (JNum 70)) QAbsent exampleWorld) = Success 200 (ResetDone 70)"
proof -
  have "resetHandler 9 (Some (JNum 70)) (QText ''true'') exampleWorld =
      (Success 200 (ResetDryRun (previewReset 70 emptyDb)), exampleWorld)"
    by (simp add: resetHandler_def isTrue_def)
  from dry_run_announces_reset [OF this] show ?thesis by (simp add: previewReset_def)
qed

end
