(* ===== verification/User_Api.thy ===== *)
theory User_Api
  imports Csv_Export Stream_Queries
begin

text \<open>
  Users and their history: \<open>controllers/user.controller.ts\<close>, the list of events in
  \<open>routes/v1/events.routes.ts\<close>, and the error handler of \<open>middleware/error.middleware.ts\<close> that answers for
  whatever the handlers throw. The rows of a list come in the requested order.
\<close>

section \<open>The error handler\<close>

text \<open>
  What reaches the handler: a failed schema, an error of \<open>types/api-error.ts\<close>, a Prisma error with
  its code and the columns of the violated constraint, another error with its \<open>status\<close> or
  \<open>statusCode\<close> property (0 when it has none), or a value that is no error.
\<close>

datatype thrown_value =
    ZodFailure
  | TypedApiError int string string
  | PrismaKnown string "string list"
  | PlainError int string
  | NoError

record api_error =
  ae_status :: int
  ae_code :: string
  ae_message :: string

definition plainAnswer :: "int \<Rightarrow> string \<Rightarrow> api_error" where
  "plainAnswer status message =
     (let statusCode = (if status = 0 then 500 else status) in
      if statusCode = 500
      then \<lparr>ae_status = 500, ae_code = ''INTERNAL_SERVER_ERROR'', ae_message = ''A technical error occurred. Please try again later.''\<rparr>
      else \<lparr>ae_status = statusCode, ae_code = ''REQUEST_ERROR'', ae_message = message\<rparr>)"

text \<open>\<open>None\<close>: the headers are sent and the error is passed on.\<close>

fun errorHandler :: "bool \<Rightarrow> thrown_value \<Rightarrow> api_error option" where
  "errorHandler True err = None"
| "errorHandler False ZodFailure = Some \<lparr>ae_status = 400, ae_code = ''VALIDATION_ERROR'', ae_message = ''Request validation failed''\<rparr>"
| "errorHandler False (TypedApiError status c message) = Some \<lparr>ae_status = status, ae_code = c, ae_message = message\<rparr>"
| "errorHandler False (PrismaKnown c target) =
     (if c = ''P2002''
      then Some \<lparr>ae_status = 409, ae_code = ''CONFLICT'',
                 ae_message = ''Record with this '' @ (let t = join '', '' target in if t = [] then ''field'' else t) @ '' already exists.''\<rparr>
      else if c = ''P2025'' then Some \<lparr>ae_status = 404, ae_code = ''NOT_FOUND'', ae_message = ''The requested record was not found.''\<rparr>
      else Some (plainAnswer 0 []))"
| "errorHandler False (PlainError status message) = Some (plainAnswer status message)"
| "errorHandler False NoError = Some (plainAnswer 0 [])"

text \<open>The error class of \<open>lib/api-error.ts\<close> is no instance of the one the handler knows; its status is read as a property.\<close>

definition libApiError :: "int \<Rightarrow> string \<Rightarrow> string \<Rightarrow> thrown_value" where
  "libApiError status message c = PlainError status message"

section \<open>Users\<close>

datatype user_view = UserRow string "stream_row list" "stream_row list" | BareUser string | InMemoryUser string

definition registerUserSchema :: "json \<Rightarrow> string option" where
  "registerUserSchema body =
     (case body of
        JObj fs \<Rightarrow> (case map_of fs ''publicKey'' of Some (JStr s) \<Rightarrow> if stellarKey s then Some s else None | _ \<Rightarrow> None)
      | _ \<Rightarrow> None)"

text \<open>\<open>d0\<close> is the database at the look-up, \<open>d\<close> at the insertion.\<close>

definition registerUser :: "json \<Rightarrow> db \<Rightarrow> db \<Rightarrow> (api_error option + (int \<times> user_view)) \<times> db" where
  "registerUser body d0 d =
     (case registerUserSchema body of
        None \<Rightarrow> (Inl (errorHandler False ZodFailure), d)
      | Some publicKey \<Rightarrow>
          if publicKey \<in> users d0 then (Inr (200, BareUser publicKey), d)
          else if publicKey \<in> users d then (Inl (errorHandler False (PrismaKnown ''P2002'' [''publicKey''])), d)
          else (Inr (201, BareUser publicKey), d\<lparr>users := insert publicKey (users d)\<rparr>))"

text \<open>\<open>newest\<close> are all streams, the newest first.\<close>

definition sentStreams :: "stream_row list \<Rightarrow> string \<Rightarrow> stream_row list" where
  "sentStreams newest publicKey = take 10 (filter (\<lambda>r. sender r = publicKey) newest)"

definition receivedStreams :: "stream_row list \<Rightarrow> string \<Rightarrow> stream_row list" where
  "receivedStreams newest publicKey = take 10 (filter (\<lambda>r. recipient r = publicKey) newest)"

definition getUser :: "stream_row list \<Rightarrow> string \<Rightarrow> db \<Rightarrow> user_view response" where
  "getUser newest publicKey d =
     (if \<not> stellarKey publicKey then Failure 400 ''INVALID_PUBLIC_KEY''
      else if publicKey \<notin> users d then Failure 404 ''NOT_FOUND''
      else Success 200 (UserRow publicKey (sentStreams newest publicKey) (receivedStreams newest publicKey)))"

definition getCurrentUser :: "stream_row list \<Rightarrow> string \<Rightarrow> db \<Rightarrow> user_view response" where
  "getCurrentUser newest publicKey d =
     (if publicKey \<notin> users d then Success 200 (InMemoryUser publicKey)
      else Success 200 (UserRow publicKey (sentStreams newest publicKey) (receivedStreams newest publicKey)))"

section \<open>The history of a wallet\<close>

record history_query =
  hq_type :: query_value
  hq_limit :: query_value
  hq_offset :: query_value
  hq_page :: query_value
  hq_includeStream :: query_value

definition typeText :: "query_value \<Rightarrow> string option" where
  "typeText q = (case q of QText s \<Rightarrow> Some s | _ \<Rightarrow> None)"

definition anyText :: "query_value \<Rightarrow> string option" where
  "anyText q = (case q of QAbsent \<Rightarrow> None | QText s \<Rightarrow> Some s | QTexts xs \<Rightarrow> Some (join '','' xs))"

definition historyPage ::
  "(int \<Rightarrow> stream_row option) \<Rightarrow> listed_event list \<Rightarrow> string \<Rightarrow> history_query \<Rightarrow> (listed_event list \<times> int \<times> int \<times> int \<times> bool) response" where
  "historyPage streamOf rows address q =
     (let (requested, types) = parseEventTypeFilter (typeText (hq_type q)) in
      if 0 < length requested \<and> types = [] then Failure 400 ''No valid event types in `type` filter''
      else let limit = resolveEventsPageSize (anyText (hq_limit q));
               offset = resolveEventsOffset (anyText (hq_offset q)) (anyText (hq_page q)) limit
           in Success 200 (listEventsForWallet streamOf rows address types limit offset))"

text \<open>The answer, and whether every event comes with its stream.\<close>

definition getUserEvents ::
  "(int \<Rightarrow> stream_row option) \<Rightarrow> listed_event list \<Rightarrow> string \<Rightarrow> history_query \<Rightarrow>
     ((listed_event list \<times> int \<times> int \<times> int \<times> bool) response) \<times> bool" where
  "getUserEvents streamOf rows publicKey q =
     (if \<not> stellarKey publicKey then Failure 400 ''INVALID_PUBLIC_KEY'' else historyPage streamOf rows publicKey q,
      hq_includeStream q \<noteq> QText ''false'')"

text \<open>\<open>GET /v1/events\<close>; \<open>caller\<close> is the wallet of the token.\<close>

definition listOwnEvents ::
  "(int \<Rightarrow> stream_row option) \<Rightarrow> listed_event list \<Rightarrow> string \<Rightarrow> query_value \<Rightarrow> history_query \<Rightarrow>
     ((listed_event list \<times> int \<times> int \<times> int \<times> bool) response) \<times> bool" where
  "listOwnEvents streamOf rows caller addressQ q =
     (let address = (case addressQ of QText s \<Rightarrow> trim s | _ \<Rightarrow> []) in
      (if address = [] then Failure 400 ''address query parameter is required''
       else if address \<noteq> caller then Failure 403 ''Forbidden''
       else historyPage streamOf rows address q,
       hq_includeStream q = QText ''true''))"

section \<open>What the endpoints promise\<close>

text \<open>
  Registering is idempotent: whatever happened before, after an answer 200 or 201 a second
  registration of the same body answers 200 and changes nothing; two that overlap give one 201
  and one 409, and the user once.
\<close>
theorem register_idempotent:
  assumes "registerUser body d d = (Inr a, d')"
  shows "registerUser body d' d' = (Inr (200, snd a), d') \<and>
    (fst a = 201 \<longrightarrow> (\<exists>e. registerUser body d d' = (Inl (Some e), d') \<and> ae_status e = 409))"
  using assms by (auto simp: registerUser_def split: option.splits if_splits)

theorem register_idempotent_witness:
  "fst (registerUser (JObj [(''publicKey'', JStr (CHR ''G'' # replicate 55 CHR ''A''))]) emptyDb
      (emptyDb\<lparr>users := {CHR ''G'' # replicate 55 CHR ''A''}\<rparr>)) \<noteq> Inr (201, BareUser (CHR ''G'' # replicate 55 CHR ''A''))"
proof -
  let ?k = "CHR ''G'' # replicate 55 CHR ''A''"
  have "stellarKey ?k" by (simp add: stellarKey_def base32Char_def code_def list_all_iff)
  then have "registerUser (JObj [(''publicKey'', JStr ?k)]) emptyDb emptyDb = (Inr (201, BareUser ?k), emptyDb\<lparr>users := {?k}\<rparr>)"
    by (simp add: registerUser_def registerUserSchema_def emptyDb_def)
  from register_idempotent [OF this] show ?thesis by auto
qed

text \<open>A wallet's history is not private: for every well-formed address the endpoint without
  authentication returns exactly what the authenticated endpoint returns to the owner.
\<close>
theorem history_is_public:
  assumes "stellarKey address"
  shows "fst (getUserEvents streamOf rows address q) = fst (listOwnEvents streamOf rows address (QText address) q)"
proof -
  have b: "list_all base32Char s \<Longrightarrow> c \<in> set s \<Longrightarrow> \<not> is_ws c" for s c
    by (auto simp: list_all_iff base32Char_def is_ws_def Let_def)
  have ne: "address \<noteq> []" using assms by (auto simp: stellarKey_def)
  have "\<not> is_ws (hd address)" using assms by (simp add: stellarKey_def is_ws_def code_def)
  moreover have "\<not> is_ws (last address)"
  proof (cases address)
    case (Cons c cs)
    with assms have "cs \<noteq> []" "list_all base32Char cs" by (auto simp: stellarKey_def)
    then show ?thesis using b [of cs "last cs"] Cons by simp
  qed (use ne in simp)
  ultimately have "trim address = address" using ne by (intro trim_no_ws)
  then show ?thesis using assms ne by (simp add: getUserEvents_def listOwnEvents_def)
qed

theorem history_is_public_witness:
  "fst (getUserEvents (\<lambda>_. None) [] (CHR ''G'' # replicate 55 CHR ''A'') \<lparr>hq_type = QAbsent, hq_limit = QText ''5'', hq_offset = QAbsent, hq_page = QAbsent, hq_includeStream = QAbsent\<rparr>) =
   fst (listOwnEvents (\<lambda>_. None) [] (CHR ''G'' # replicate 55 CHR ''A'') (QText (CHR ''G'' # replicate 55 CHR ''A'')) \<lparr>hq_type = QAbsent, hq_limit = QText ''5'', hq_offset = QAbsent, hq_page = QAbsent, hq_includeStream = QAbsent\<rparr>)"
  by (rule history_is_public) (simp add: stellarKey_def base32Char_def code_def list_all_iff)

text \<open>The code of an error of \<open>lib/api-error.ts\<close> never reaches the client.\<close>

lemma lib_error_code_lost:
  "status \<noteq> 0 \<Longrightarrow> status \<noteq> 500 \<Longrightarrow> errorHandler False (libApiError status message c) = Some \<lparr>ae_status = status, ae_code = ''REQUEST_ERROR'', ae_message = message\<rparr>"
  by (simp add: libApiError_def plainAnswer_def)

lemma toNumber_pos: "1 \<le> n \<Longrightarrow> 1 \<le> toNumber n"
  using round53_small [of "nat n"] round53_large [of "nat n"] by (cases "nat n < 2 ^ 53") (auto simp: toNumber_def)

lemma history_limits:
  "1 \<le> resolveEventsPageSize s" "resolveEventsPageSize s \<le> MAX_EVENTS_PAGE_SIZE" "0 \<le> resolveEventsOffset o1 p1 k"
proof -
  show "1 \<le> resolveEventsPageSize s" "resolveEventsPageSize s \<le> MAX_EVENTS_PAGE_SIZE"
    using toNumber_pos by (auto simp: resolveEventsPageSize_def MAX_EVENTS_PAGE_SIZE_def DEFAULT_EVENTS_PAGE_SIZE_def split: option.split)
  have z: "0 \<le> toNumber n" if "0 \<le> n" for n
    using that by (simp add: toNumber_def)
  show "0 \<le> resolveEventsOffset o1 p1 k"
    using z by (auto simp: resolveEventsOffset_def pageOffset_def Let_def split: option.split)
qed

text \<open>A page of the history holds at most 200 events, all of streams the wallet is a party of.\<close>
theorem history_page_bounded:
  assumes "historyPage streamOf rows address q = Success st (page, count, limit, offset, hasMore)"
  shows "1 \<le> limit \<and> limit \<le> MAX_EVENTS_PAGE_SIZE \<and> 0 \<le> offset \<and> int (length page) \<le> limit \<and>
    list_all (\<lambda>(i, e). case streamOf (ev_streamId e) of Some r \<Rightarrow> sender r = address \<or> recipient r = address | None \<Rightarrow> False) page"
proof -
  let ?l = "resolveEventsPageSize (anyText (hq_limit q))"
  have e: "limit = ?l" "offset = resolveEventsOffset (anyText (hq_offset q)) (anyText (hq_page q)) ?l"
    and page: "page = prismaPage ?l offset (filter (\<lambda>(_, e). (case streamOf (ev_streamId e) of
       Some r \<Rightarrow> sender r = address \<or> recipient r = address | None \<Rightarrow> False)
        \<and> (snd (parseEventTypeFilter (typeText (hq_type q))) = [] \<or> ev_eventType e \<in> set (snd (parseEventTypeFilter (typeText (hq_type q)))))) rows)"
    using assms by (auto simp: historyPage_def listEventsForWallet_def Let_def split: prod.splits if_splits)
  have l: "1 \<le> ?l" "?l \<le> MAX_EVENTS_PAGE_SIZE" by (rule history_limits)+
  have "int (length page) \<le> limit" using l e(1) unfolding page prismaPage_def by auto
  moreover have "list_all (\<lambda>(i, e). case streamOf (ev_streamId e) of Some r \<Rightarrow> sender r = address \<or> recipient r = address | None \<Rightarrow> False) page"
    using l unfolding page prismaPage_def
    by (auto simp: list_all_iff dest!: in_set_takeD in_set_dropD)
  ultimately show ?thesis using l e history_limits(3) by simp
qed

end
