(* ===== verification/Json_Text.thy ===== *)
theory Json_Text
  imports Js_Float
begin

text \<open>
  \<open>JSON.parse\<close> of the language, and that it reads back what \<open>JSON.stringify\<close> writes. A parser takes a
  text and returns a value with the rest of the text; \<open>n\<close> is fuel, of which twice the length of the
  text is always enough (\<open>parse_fuel\<close>). A character above 255 is read as a question mark.
\<close>

section \<open>Reading\<close>

datatype jvalue =
    VNull
  | VBool bool
  | VNum jsnum
  | VStr string
  | VArr "jvalue list"
  | VObj "(string \<times> jvalue) list"

definition json_ws :: "char \<Rightarrow> bool" where
  "json_ws c = (c = CHR '' '' \<or> c = CHR 0x09 \<or> c = CHR 0x0A \<or> c = CHR 0x0D)"

definition skipWs :: "string \<Rightarrow> string" where
  "skipWs s = dropWhile json_ws s"

definition unitChar :: "nat \<Rightarrow> char" where
  "unitChar n = (if n < 256 then char_of n else CHR ''?'')"

definition unescape :: "char \<Rightarrow> char option" where
  "unescape e =
     (if e = CHR 0x22 \<or> e = CHR 0x5C \<or> e = CHR 0x2F then Some e
      else if e = CHR ''b'' then Some (CHR 0x08) else if e = CHR ''f'' then Some (CHR 0x0C)
      else if e = CHR ''n'' then Some (CHR 0x0A) else if e = CHR ''r'' then Some (CHR 0x0D)
      else if e = CHR ''t'' then Some (CHR 0x09) else None)"

definition hexUnit :: "char \<Rightarrow> char \<Rightarrow> char \<Rightarrow> char \<Rightarrow> nat option" where
  "hexUnit h1 h2 h3 h4 =
     (case (radix_val 16 h1, radix_val 16 h2, radix_val 16 h3, radix_val 16 h4) of
        (Some a, Some b, Some c, Some d) \<Rightarrow> Some (((a * 16 + b) * 16 + c) * 16 + d)
      | _ \<Rightarrow> None)"

definition consText :: "char \<Rightarrow> (string \<times> string) option \<Rightarrow> (string \<times> string) option" where
  "consText c r = map_option (\<lambda>(t, rest). (c # t, rest)) r"

text \<open>The inside of a string, after the opening quote.\<close>

fun stringBody :: "string \<Rightarrow> (string \<times> string) option" where
  "stringBody [] = None"
| "stringBody (c # cs) =
     (if c = CHR 0x22 then Some ([], cs)
      else if c = CHR 0x5C then
        (case cs of
           [] \<Rightarrow> None
         | e # ds \<Rightarrow>
             if e = CHR ''u'' then
               (case ds of
                  h1 # h2 # h3 # h4 # r \<Rightarrow>
                    (case hexUnit h1 h2 h3 h4 of None \<Rightarrow> None | Some n \<Rightarrow> consText (unitChar n) (stringBody r))
                | _ \<Rightarrow> None)
             else (case unescape e of None \<Rightarrow> None | Some x \<Rightarrow> consText x (stringBody ds)))
      else if code c < 32 then None
      else consText c (stringBody cs))"

definition exponentPart :: "string \<Rightarrow> (string \<times> string) option" where
  "exponentPart s =
     (if s \<noteq> [] \<and> (hd s = CHR ''e'' \<or> hd s = CHR ''E'')
      then (let sign = takeWhile (\<lambda>c. c = CHR ''+'' \<or> c = CHR ''-'') (take 1 (tl s));
                t = drop (length sign) (tl s);
                ds = takeWhile is_digit t
            in if ds = [] then None else Some (hd s # sign @ ds, dropWhile is_digit t))
      else Some ([], s))"

definition fractionPart :: "string \<Rightarrow> (string \<times> string) option" where
  "fractionPart s =
     (if s \<noteq> [] \<and> hd s = CHR ''.''
      then (let ds = takeWhile is_digit (tl s) in if ds = [] then None else Some (CHR ''.'' # ds, dropWhile is_digit (tl s)))
      else Some ([], s))"

definition numberToken :: "string \<Rightarrow> (jvalue \<times> string) option" where
  "numberToken s =
     (let sign = (if s \<noteq> [] \<and> hd s = CHR ''-'' then ''-'' else []);
          t = drop (length sign) s;
          whole = takeWhile is_digit t
      in if whole = [] \<or> hd whole = CHR ''0'' \<and> 1 < length whole then None
         else case fractionPart (dropWhile is_digit t) of
           None \<Rightarrow> None
         | Some (fract, t1) \<Rightarrow>
             (case exponentPart t1 of
                None \<Rightarrow> None
              | Some (ex, rest) \<Rightarrow> Some (VNum (parseFloat (sign @ whole @ fract @ ex)), rest)))"

fun parseValue :: "nat \<Rightarrow> string \<Rightarrow> (jvalue \<times> string) option"
  and parseElements :: "nat \<Rightarrow> string \<Rightarrow> (jvalue list \<times> string) option"
  and parseMembers :: "nat \<Rightarrow> string \<Rightarrow> ((string \<times> jvalue) list \<times> string) option" where
  "parseValue 0 s0 = None"
| "parseValue (Suc n) s0 =
     (let s = skipWs s0 in
      case s of
        [] \<Rightarrow> None
      | c # cs \<Rightarrow>
          if c = CHR 0x22 then map_option (\<lambda>(t, r). (VStr t, r)) (stringBody cs)
          else if c = CHR ''['' then
            (let t = skipWs cs in if t \<noteq> [] \<and> hd t = CHR '']'' then Some (VArr [], tl t)
             else map_option (\<lambda>(vs, r). (VArr vs, r)) (parseElements n cs))
          else if c = CHR ''{'' then
            (let t = skipWs cs in if t \<noteq> [] \<and> hd t = CHR ''}'' then Some (VObj [], tl t)
             else map_option (\<lambda>(fs, r). (VObj fs, r)) (parseMembers n cs))
          else if startsWith s ''true'' then Some (VBool True, drop 4 s)
          else if startsWith s ''false'' then Some (VBool False, drop 5 s)
          else if startsWith s ''null'' then Some (VNull, drop 4 s)
          else numberToken s)"
| "parseElements 0 s = None"
| "parseElements (Suc n) s =
     (case parseValue n s of
        None \<Rightarrow> None
      | Some (v, r) \<Rightarrow>
          (case skipWs r of
             [] \<Rightarrow> None
           | c # t \<Rightarrow>
               if c = CHR '','' then map_option (\<lambda>(vs, r'). (v # vs, r')) (parseElements n t)
               else if c = CHR '']'' then Some ([v], t) else None))"
| "parseMembers 0 s = None"
| "parseMembers (Suc n) s =
     (case skipWs s of
        [] \<Rightarrow> None
      | q # s1 \<Rightarrow>
          if q \<noteq> CHR 0x22 then None
          else (case stringBody s1 of
                  None \<Rightarrow> None
                | Some (k, s2) \<Rightarrow>
                    (case skipWs s2 of
                       [] \<Rightarrow> None
                     | d # s3 \<Rightarrow>
                         if d \<noteq> CHR '':'' then None
                         else (case parseValue n s3 of
                                 None \<Rightarrow> None
                               | Some (v, r) \<Rightarrow>
                                   (case skipWs r of
                                      [] \<Rightarrow> None
                                    | c # t \<Rightarrow>
                                        if c = CHR '','' then map_option (\<lambda>(fs, r'). ((k, v) # fs, r')) (parseMembers n t)
                                        else if c = CHR ''}'' then Some ([(k, v)], t) else None)))))"

definition JSON_parse :: "string \<Rightarrow> jvalue option" where
  "JSON_parse s =
     (case parseValue (2 * length s + 2) s of
        Some (v, rest) \<Rightarrow> if skipWs rest = [] then Some v else None
      | None \<Rightarrow> None)"

text \<open>A property of an object: the last of equal names counts.\<close>

fun getProperty :: "jvalue \<Rightarrow> string \<Rightarrow> jvalue option" where
  "getProperty (VObj fs) k = map_of (rev fs) k"
| "getProperty _ k = None"

section \<open>Fuel\<close>

lemma skipWs_length: "length (skipWs s) \<le> length s"
  by (simp add: skipWs_def length_dropWhile_le)

lemma stringBody_shorter: "stringBody s = Some (t, r) \<Longrightarrow> length r < length s"
  by (induction s arbitrary: t r rule: stringBody.induct)
    (fastforce simp: consText_def split: if_splits list.splits option.splits)+

lemma fraction_shorter: "fractionPart s = Some (f, r) \<Longrightarrow> length r \<le> length s"
  by (cases s) (auto simp: fractionPart_def Let_def split: if_splits intro: le_SucI length_dropWhile_le)

lemma exponent_shorter: "exponentPart s = Some (f, r) \<Longrightarrow> length r \<le> length s"
proof -
  assume e: "exponentPart s = Some (f, r)"
  have "length (dropWhile is_digit (drop k (tl s))) \<le> length s" for k
    by (rule order_trans [OF length_dropWhile_le]) simp
  with e show "length r \<le> length s" by (auto simp: exponentPart_def Let_def split: if_splits)
qed

lemma numberToken_shorter: "numberToken s = Some (v, r) \<Longrightarrow> length r < length s"
proof -
  assume n: "numberToken s = Some (v, r)"
  define t where "t = drop (length (if s \<noteq> [] \<and> hd s = CHR ''-'' then ''-'' else [])) s"
  from n obtain f t1 e where p: "takeWhile is_digit t \<noteq> []" "fractionPart (dropWhile is_digit t) = Some (f, t1)" "exponentPart t1 = Some (e, r)"
    by (auto simp: numberToken_def Let_def t_def [symmetric] split: if_splits option.splits)
  have "length t = length (takeWhile is_digit t) + length (dropWhile is_digit t)"
    by (metis length_append takeWhile_dropWhile_id)
  moreover have "length t \<le> length s" by (simp add: t_def)
  moreover have "0 < length (takeWhile is_digit t)" using p(1) by simp
  ultimately show "length r < length s" using fraction_shorter [OF p(2)] exponent_shorter [OF p(3)] by linarith
qed

lemma skipWs_cons: "skipWs s = c # t \<Longrightarrow> length t < length s"
  using skipWs_length [of s] by simp

lemma startsWith_drop: "startsWith s p \<Longrightarrow> p \<noteq> [] \<Longrightarrow> length (drop (length p) s) < length s"
  by (cases s) (auto simp: startsWith_def)

lemma parse_shorter:
  "parseValue n s = Some (v, r) \<Longrightarrow> length r < length s"
  "parseElements n s = Some (vs, r) \<Longrightarrow> length r < length s"
  "parseMembers n s = Some (fs, r) \<Longrightarrow> length r < length s"
proof (induction n s and n s and n s arbitrary: v r and vs r and fs r rule: parseValue_parseElements_parseMembers.induct)
  case (2 n s0)
  show ?case
  proof (cases "skipWs s0")
    case (Cons c cs)
    have l: "length cs < length s0" using skipWs_cons [OF Cons] .
    have t: "length (tl (skipWs cs)) \<le> length cs" using skipWs_length [of cs] by simp
    consider (str) t where "stringBody cs = Some (t, r)" | (arr0) "r = tl (skipWs cs)"
      | (arr) vs where "c = CHR ''[''" "\<not> (skipWs cs \<noteq> [] \<and> hd (skipWs cs) = CHR '']'')" "parseElements n cs = Some (vs, r)"
      | (obj) fs where "c = CHR ''{''" "\<not> (skipWs cs \<noteq> [] \<and> hd (skipWs cs) = CHR ''}'')" "parseMembers n cs = Some (fs, r)"
      | (word) k where "r = drop k cs" | (num) "numberToken (c # cs) = Some (v, r)"
      using 2(3) Cons by (auto simp: Let_def split: if_splits)
    then show ?thesis
    proof cases
      case str
      then show ?thesis using stringBody_shorter l by fastforce
    next
      case arr0
      then show ?thesis using order.strict_trans1 [OF t l] by simp
    next
      case arr
      then show ?thesis using 2(1) [OF refl Cons _ arr(1) refl arr(2,3)] l by simp
    next
      case obj
      then show ?thesis using 2(2) [OF refl Cons _ _ obj(1) refl obj(2,3)] l by simp
    next
      case word
      then show ?thesis using l by simp
    next
      case num
      then show ?thesis using numberToken_shorter [OF num] l by simp
    qed
  qed (use 2(3) in simp)
next
  case (4 n s)
  then show ?case by (fastforce dest: skipWs_cons split: option.splits list.splits if_splits)
next
  case (6 n s)
  then show ?case by (fastforce dest: skipWs_cons stringBody_shorter split: option.splits list.splits if_splits)
qed simp_all

lemma parse_fuel:
  "(2 * length s + 1 \<le> n \<longrightarrow> 2 * length s + 1 \<le> m \<longrightarrow> parseValue n s = parseValue m s) \<and>
   (2 * length s + 2 \<le> n \<longrightarrow> 2 * length s + 2 \<le> m \<longrightarrow> parseElements n s = parseElements m s) \<and>
   (2 * length s + 2 \<le> n \<longrightarrow> 2 * length s + 2 \<le> m \<longrightarrow> parseMembers n s = parseMembers m s)"
proof (induction n arbitrary: s m)
  case (Suc n)
  have v: "parseValue n t = parseValue k t" if "2 * length t + 1 \<le> n" "2 * length t + 1 \<le> k" for t k using Suc.IH that by blast
  have e: "parseElements n t = parseElements k t" if "2 * length t + 2 \<le> n" "2 * length t + 2 \<le> k" for t k using Suc.IH that by blast
  have f: "parseMembers n t = parseMembers k t" if "2 * length t + 2 \<le> n" "2 * length t + 2 \<le> k" for t k using Suc.IH that by blast
  show ?case
  proof (intro conjI impI)
    assume n: "2 * length s + 1 \<le> Suc n" and "2 * length s + 1 \<le> m"
    then obtain k where k: "m = Suc k" "2 * length s \<le> k" by (cases m) auto
    show "parseValue (Suc n) s = parseValue m s"
    proof (cases "skipWs s")
      case (Cons c cs)
      have "length cs < length s" using skipWs_cons [OF Cons] .
      then have eqs: "parseElements n cs = parseElements k cs" "parseMembers n cs = parseMembers k cs" using n k(2) by (intro e f; simp)+
      show ?thesis unfolding k(1) parseValue.simps Cons Let_def list.case eqs ..
    qed (simp add: k(1))
  next
    assume n: "2 * length s + 2 \<le> Suc n" and "2 * length s + 2 \<le> m"
    then obtain k where k: "m = Suc k" "2 * length s + 1 \<le> k" by (cases m) auto
    have pv: "parseValue n s = parseValue k s" using v [of s k] n k(2) by simp
    show "parseElements (Suc n) s = parseElements m s"
    proof (cases "parseValue k s")
      case (Some x)
      obtain y r where x: "x = (y, r)" by (cases x)
      have r: "length r < length s" using parse_shorter(1) Some x by blast
      have "parseElements n t = parseElements k t" if "skipWs r = c # t" for c t
        using e [of t k] skipWs_cons [OF that] r n k(2) by simp
      then show ?thesis using Some x pv k(1) by (simp split: list.split)
    qed (simp add: k(1) pv)
  next
    assume n: "2 * length s + 2 \<le> Suc n" and "2 * length s + 2 \<le> m"
    then obtain k where k: "m = Suc k" "2 * length s + 1 \<le> k" by (cases m) auto
    have "parseValue n s3 = parseValue k s3 \<and> (\<forall>y r c t. parseValue k s3 = Some (y, r) \<longrightarrow> skipWs r = c # t \<longrightarrow> parseMembers n t = parseMembers k t)"
      if "skipWs s = q # s1" "stringBody s1 = Some (i, s2)" "skipWs s2 = d # s3" for q s1 i s2 d s3
    proof -
      have s3: "length s3 < length s"
        using skipWs_cons [OF that(1)] stringBody_shorter [OF that(2)] skipWs_cons [OF that(3)] by simp
      have "parseMembers n t = parseMembers k t" if "parseValue k s3 = Some (y, r)" "skipWs r = c # t" for y r c t
        using f [of t k] skipWs_cons [OF that(2)] parse_shorter(1) [OF that(1)] s3 n k(2) by simp
      then show ?thesis using v [of s3 k] s3 n k(2) by simp
    qed
    then show "parseMembers (Suc n) s = parseMembers m s"
      by (auto simp: k(1) split: list.split option.split)
  qed
qed simp

section \<open>Reading back what was written\<close>

text \<open>The value a written text stands for; numbers up to 53 bits are exact.\<close>

fun ofJson :: "json \<Rightarrow> jvalue" where
  "ofJson JNull = VNull"
| "ofJson (JBool b) = VBool b"
| "ofJson (JNum n) = VNum (Fin (of_int n))"
| "ofJson (JStr s) = VStr s"
| "ofJson (JArr xs) = VArr (map ofJson xs)"
| "ofJson (JObj fs) = VObj (map (\<lambda>(k, v). (k, ofJson v)) fs)"

fun json_safe :: "json \<Rightarrow> bool" where
  "json_safe (JNum n) = (0 \<le> n \<and> n \<le> 2 ^ 53)"
| "json_safe (JArr xs) = list_all json_safe xs"
| "json_safe (JObj fs) = list_all (\<lambda>(k, v). json_safe v) fs"
| "json_safe _ = True"

definition delimited :: "string \<Rightarrow> bool" where
  "delimited r = (r = [] \<or> hd r \<in> {CHR '','', CHR '']'', CHR ''}''})"

lemma hex_digit_value: "k < 16 \<Longrightarrow> radix_val 16 (hex_digit k) = Some k"
proof -
  assume "k < 16"
  then have "code (hex_digit k) = (if k < 10 then 48 + k else 87 + k)"
    by (simp add: hex_digit_def code_def take_bit_nat_def)
  with \<open>k < 16\<close> show ?thesis by (simp add: radix_val_def Let_def)
qed

lemma code_char: "c = char_of (code c)"
  by (simp add: code_def)

lemma escape_literals:
  "json_escape CHR 0x22 = [CHR 0x5C, CHR 0x22]" "json_escape CHR 0x5C = [CHR 0x5C, CHR 0x5C]" "json_escape CHR 0x08 = CHR 0x5C # ''b''"
  "json_escape CHR 0x09 = CHR 0x5C # ''t''" "json_escape CHR 0x0A = CHR 0x5C # ''n''" "json_escape CHR 0x0C = CHR 0x5C # ''f''"
  "json_escape CHR 0x0D = CHR 0x5C # ''r''"
  by (simp_all add: json_escape_def code_def char_of_def bit_0)

lemma stringBody_unescape: "unescape e = Some x \<Longrightarrow> e \<noteq> CHR ''u'' \<Longrightarrow> stringBody (CHR 0x5C # e # t) = consText x (stringBody t)"
  by simp

lemma stringBody_escape: "stringBody (json_escape c @ t) = consText c (stringBody t)"
proof -
  have bs: "char_of (92::nat) = CHR 0x5C" by (simp add: char_of_def bit_0)
  consider "c \<in> {CHR 0x22, CHR 0x5C, CHR 0x08, CHR 0x09, CHR 0x0A, CHR 0x0C, CHR 0x0D}"
    | "code c < 32" "code c \<noteq> 8" "code c \<noteq> 9" "code c \<noteq> 10" "code c \<noteq> 12" "code c \<noteq> 13"
    | "32 \<le> code c" "code c \<noteq> 34" "code c \<noteq> 92"
  proof -
    have "code c = n \<Longrightarrow> c = char_of n" for n using code_char [of c] by simp
    from this [of 34] this [of 92] this [of 8] this [of 9] this [of 10] this [of 12] this [of 13]
    have "code c \<in> {34, 92, 8, 9, 10, 12, 13} \<Longrightarrow> c \<in> {CHR 0x22, CHR 0x5C, CHR 0x08, CHR 0x09, CHR 0x0A, CHR 0x0C, CHR 0x0D}"
      by (auto simp: char_of_def bit_0)
    with that show ?thesis by (cases "code c < 32") auto
  qed
  then show ?thesis
  proof cases
    case 1
    then show ?thesis
      by (elim insertE emptyE; simp only: escape_literals append_Cons append_Nil; intro stringBody_unescape; simp add: unescape_def)
  next
    case 2
    have h: "hexUnit CHR ''0'' CHR ''0'' (hex_digit (code c div 16)) (hex_digit (code c mod 16)) = Some (code c)"
    proof -
      have "radix_val 16 CHR ''0'' = Some 0" by (simp add: radix_val_def code_def)
      then show ?thesis
        using 2(1) hex_digit_value [of "code c div 16"] hex_digit_value [of "code c mod 16"] by (simp add: hexUnit_def)
    qed
    have "unitChar (code c) = c" using 2(1) code_char [of c] by (simp add: unitChar_def)
    moreover have "json_escape c = CHR 0x5C # ''u00'' @ [hex_digit (code c div 16), hex_digit (code c mod 16)]"
      using 2 by (simp add: json_escape_def bs Let_def)
    ultimately show ?thesis using h by simp
  next
    case 3
    have "c \<noteq> CHR 0x22" "c \<noteq> CHR 0x5C" using 3(2,3) by (auto simp: code_def)
    with 3 show ?thesis by (simp add: json_escape_def Let_def)
  qed
qed

lemma stringBody_quoted: "stringBody (concat (map json_escape s) @ CHR 0x22 # r) = Some (s, r)"
  by (induction s) (simp_all add: stringBody_escape consText_def del: stringBody.simps(2), simp)

lemma leading_zero: "hd (nat_toString n) = CHR ''0'' \<Longrightarrow> n = 0"
proof (induction n rule: nat_toString.induct)
  case (1 n)
  show ?case
  proof (cases "n < 10")
    case True
    then have "digit_char n = CHR ''0''" using 1(2) by (simp add: nat_toString.simps [of n])
    then have "code (digit_char n) = 48" by (simp add: code_def)
    with True show ?thesis by (simp add: code_digit_char)
  next
    case False
    then have "hd (nat_toString (n div 10)) = CHR ''0''" using 1(2) by (simp add: nat_toString.simps [of n])
    then have "n div 10 = 0" using 1(1) False by simp
    with False show ?thesis by simp
  qed
qed

lemma number_read:
  assumes "0 \<le> n" "n \<le> 2 ^ 53" "delimited r"
  shows "numberToken (toString n @ r) = Some (VNum (Fin (of_int n)), r)"
proof -
  have dig: "list_all is_digit (toString n)" "toString n \<noteq> []" using toString_digits [OF assms(1)] by simp_all
  then have "is_digit (hd (toString n))" by (cases "toString n") simp_all
  then have sign: "hd (toString n) \<noteq> CHR ''-''" using digit_not_sign by blast
  have r: "r = [] \<or> \<not> is_digit (hd r)" using assms(3) by (auto simp: delimited_def is_digit_def code_def)
  have z: "\<not> (hd (toString n) = CHR ''0'' \<and> 1 < length (toString n))"
  proof
    assume a: "hd (toString n) = CHR ''0'' \<and> 1 < length (toString n)"
    then have "n = 0" using leading_zero [of "nat n"] assms(1) by (simp add: toString_def)
    with a show False by simp
  qed
  have v: "int (digitsVal (toString n)) = n" using digitsVal_toString [OF assms(1)] .
  then have "digitsVal (toString n) \<le> 2 ^ 53" using assms(2) by (metis of_nat_le_iff of_nat_numeral of_nat_power)
  from parseFloat_whole [OF dig this] v have p: "parseFloat (toString n) = Fin (of_int n)" by (metis of_int_of_nat_eq)
  have ext: "fractionPart r = Some ([], r)" "exponentPart r = Some ([], r)"
    using assms(3) by (auto simp: delimited_def fractionPart_def exponentPart_def)
  show ?thesis
    using dig(2) sign z by (simp add: numberToken_def Let_def digits_then [OF dig(1) r] ext p)
qed

lemma quoted_read: "stringBody (tl (json_quote s @ r)) = Some (s, r)" "hd (json_quote s @ r) = CHR 0x22"
proof -
  have q: "char_of (34::nat) = CHR 0x22" by (simp add: char_of_def bit_0)
  show "stringBody (tl (json_quote s @ r)) = Some (s, r)" using stringBody_quoted [of s r] by (simp add: json_quote_def q)
  show "hd (json_quote s @ r) = CHR 0x22" by (simp add: json_quote_def q)
qed

lemma json_quote_cons: "json_quote s = CHR 0x22 # tl (json_quote s)" "1 < length (json_quote s)"
  using quoted_read(2) [of s "[]"] by (simp_all add: json_quote_def)

text \<open>A written value starts with a character that is neither white space nor a closing bracket.\<close>

lemma stringify_first:
  obtains c cs where "JSON_stringify v = c # cs" "\<not> json_ws c" "c \<noteq> CHR '']''"
proof (cases v)
  case (JNum n)
  obtain c cs where t: "toString n = c # cs" by (cases "toString n") auto
  have "is_digit c \<or> c = CHR ''-''"
    using t nat_toString_digits [of "nat n"] by (auto simp: toString_def split: if_splits)
  then have "\<not> json_ws c" "c \<noteq> CHR '']''" by (auto simp: json_ws_def is_digit_def code_def)
  with that t JNum show ?thesis by simp
next
  case (JStr s)
  have "JSON_stringify v = CHR 0x22 # tl (json_quote s)" using JStr json_quote_cons(1) [of s] by simp
  then show ?thesis by (rule that) (simp_all add: json_ws_def)
qed (use that in \<open>force simp: json_ws_def split: if_splits\<close>)+

lemma skipWs_stringify: "skipWs (JSON_stringify v @ r) = JSON_stringify v @ r"
  by (rule stringify_first [of v]) (simp add: skipWs_def)

lemma skipWs_delimited: "delimited r \<Longrightarrow> skipWs r = r"
  by (cases r) (auto simp: delimited_def skipWs_def json_ws_def)

lemma join_Cons: "join sep (w # ws) = (if ws = [] then w else w @ sep @ join sep ws)"
  by (cases ws) simp_all

definition writtenMember :: "string \<times> json \<Rightarrow> string" where
  "writtenMember m = json_quote (fst m) @ '':'' @ JSON_stringify (snd m)"

lemma elements_read:
  assumes "\<forall>x\<in>set xs. \<forall>n r. 2 * length (JSON_stringify x) \<le> n \<longrightarrow> delimited r \<longrightarrow> parseValue n (JSON_stringify x @ r) = Some (ofJson x, r)"
    and "xs \<noteq> []" "2 * length (join '','' (map JSON_stringify xs)) < n"
  shows "parseElements n (join '','' (map JSON_stringify xs) @ CHR '']'' # r) = Some (map ofJson xs, r)"
  using assms
proof (induction xs arbitrary: n)
  case (Cons x xs)
  from Cons.prems(3) obtain k where k: "n = Suc k" "2 * length (join '','' (map JSON_stringify (x # xs))) \<le> k" by (cases n) auto
  show ?case
  proof (cases "xs = []")
    case True
    have "parseValue k (JSON_stringify x @ CHR '']'' # r) = Some (ofJson x, CHR '']'' # r)"
      using Cons.prems(1) k(2) True by (simp add: delimited_def)
    with True k(1) show ?thesis by (simp add: skipWs_def json_ws_def)
  next
    case False
    have j: "join '','' (JSON_stringify x # map JSON_stringify xs) = JSON_stringify x @ CHR '','' # join '','' (map JSON_stringify xs)"
      using False by (simp add: join_Cons)
    let ?rest = "CHR '','' # join '','' (map JSON_stringify xs) @ CHR '']'' # r"
    have "parseValue k (JSON_stringify x @ ?rest) = Some (ofJson x, ?rest)"
      using Cons.prems(1) k(2) j by (simp add: delimited_def)
    moreover have "parseElements k (join '','' (map JSON_stringify xs) @ CHR '']'' # r) = Some (map ofJson xs, r)"
      using Cons.prems(1) False k(2) j by (intro Cons.IH) auto
    ultimately show ?thesis using k(1) by (simp add: j skipWs_def json_ws_def)
  qed
qed simp

lemma members_read:
  assumes "\<forall>m\<in>set fs. \<forall>n r. 2 * length (JSON_stringify (snd m)) \<le> n \<longrightarrow> delimited r \<longrightarrow> parseValue n (JSON_stringify (snd m) @ r) = Some (ofJson (snd m), r)"
    and "fs \<noteq> []" "2 * length (join '','' (map writtenMember fs)) < n"
  shows "parseMembers n (join '','' (map writtenMember fs) @ CHR ''}'' # r) = Some (map (\<lambda>(k, v). (k, ofJson v)) fs, r)"
  using assms
proof (induction fs arbitrary: n)
  case (Cons m fs)
  obtain i v where m: "m = (i, v)" by (cases m)
  from Cons.prems(3) obtain k where k: "n = Suc k" "2 * length (join '','' (map writtenMember (m # fs))) \<le> k" by (cases n) auto
  have w: "writtenMember m = CHR 0x22 # tl (json_quote i) @ CHR '':'' # JSON_stringify v"
    using json_quote_cons(1) [of i] by (simp add: writtenMember_def m)
  have key: "stringBody (tl (json_quote i) @ t) = Some (i, t)" for t
    using quoted_read(1) [of i t] json_quote_cons(1) [of i] by (metis append_Cons list.sel(3))
  have step: "parseMembers (Suc k) (writtenMember m @ c # t) =
      (if c = CHR '','' then map_option (\<lambda>(fs, r'). ((i, ofJson v) # fs, r')) (parseMembers k t)
       else if c = CHR ''}'' then Some ([(i, ofJson v)], t) else None)"
    if "c = CHR '','' \<or> c = CHR ''}''" "2 * length (writtenMember m) \<le> k" for c t
  proof -
    have "parseValue k (JSON_stringify v @ c # t) = Some (ofJson v, c # t)"
      using Cons.prems(1) that m w by (auto simp: delimited_def)
    moreover have "skipWs (c # t) = c # t" using that(1) by (auto simp: skipWs_def json_ws_def)
    moreover have "skipWs (CHR 0x22 # u) = CHR 0x22 # u" "skipWs (CHR '':'' # u) = CHR '':'' # u" for u
      by (simp_all add: skipWs_def json_ws_def)
    ultimately show ?thesis by (simp add: w key)
  qed
  show ?case
  proof (cases "fs = []")
    case True
    then show ?thesis using k step [of "CHR ''}''" r] m by simp
  next
    case False
    have j: "join '','' (writtenMember m # map writtenMember fs) = writtenMember m @ CHR '','' # join '','' (map writtenMember fs)"
      using False by (simp add: join_Cons)
    have "parseMembers k (join '','' (map writtenMember fs) @ CHR ''}'' # r) = Some (map (\<lambda>(k, v). (k, ofJson v)) fs, r)"
      using Cons.prems(1) False k(2) j by (intro Cons.IH) auto
    then show ?thesis using k step [of "CHR '',''" "join '','' (map writtenMember fs) @ CHR ''}'' # r"] m j by simp
  qed
qed simp

lemma words_read:
  "0 < n \<Longrightarrow> parseValue n (''null'' @ r) = Some (VNull, r)" "0 < n \<Longrightarrow> parseValue n (''true'' @ r) = Some (VBool True, r)"
  "0 < n \<Longrightarrow> parseValue n (''false'' @ r) = Some (VBool False, r)"
  by (cases n; simp add: skipWs_def json_ws_def startsWith_def)+

lemma value_read:
  "json_safe v \<Longrightarrow> 2 * length (JSON_stringify v) \<le> n \<Longrightarrow> delimited r \<Longrightarrow> parseValue n (JSON_stringify v @ r) = Some (ofJson v, r)"
proof (induction v arbitrary: n r)
  case (JNum i)
  from JNum.prems(2) obtain k where n: "n = Suc k" by (cases n) auto
  have dig: "list_all is_digit (toString i)" "toString i \<noteq> []" using toString_digits JNum.prems(1) by simp_all
  obtain c cs where t: "toString i = c # cs" using dig(2) by (cases "toString i") auto
  then have "is_digit c" using dig(1) by simp
  then have c: "c \<noteq> CHR 0x22" "c \<noteq> CHR ''[''" "c \<noteq> CHR ''{''" "c \<noteq> CHR ''t''" "c \<noteq> CHR ''f''" "c \<noteq> CHR ''n''"
    by (auto simp: is_digit_def code_def)
  show ?case
    using skipWs_stringify [of "JNum i" r] number_read [of i r] JNum.prems(1,3) c by (simp add: n t startsWith_def)
next
  case (JStr s)
  from JStr.prems(2) obtain k where n: "n = Suc k" using json_quote_cons(2) [of s] by (cases n) auto
  have q: "json_quote s @ r = CHR 0x22 # tl (json_quote s @ r)" using json_quote_cons(1) [of s] by (metis append_Cons list.sel(3))
  have "skipWs (json_quote s @ r) = CHR 0x22 # tl (json_quote s @ r)" using skipWs_stringify [of "JStr s" r] q by simp
  then show ?case using quoted_read(1) [of s r] by (simp add: n)
next
  case (JArr xs)
  from JArr.prems(2) obtain k where n: "n = Suc k" "2 * length (join '','' (map JSON_stringify xs)) + 3 \<le> k" by (cases n) auto
  show ?case
  proof (cases "xs = []")
    case False
    have "parseElements k (join '','' (map JSON_stringify xs) @ CHR '']'' # r) = Some (map ofJson xs, r)"
      using JArr False n(2) by (intro elements_read) (auto simp: list_all_iff)
    moreover obtain c cs where "join '','' (map JSON_stringify xs) = c # cs" "\<not> json_ws c" "c \<noteq> CHR '']''"
    proof -
      obtain x xs' where "xs = x # xs'" using False by (cases xs) auto
      then show ?thesis using that stringify_first [of x] by (auto simp: join_Cons) (metis append_Cons)
    qed
    ultimately show ?thesis by (simp add: n skipWs_def json_ws_def)
  qed (simp add: n skipWs_def json_ws_def)
next
  case (JObj fs)
  have wm: "map (\<lambda>(k, v). json_quote k @ '':'' @ JSON_stringify v) fs = map writtenMember fs"
    by (simp add: writtenMember_def case_prod_beta)
  have str: "JSON_stringify (JObj fs) = ''{'' @ join '','' (map writtenMember fs) @ ''}''" unfolding JSON_stringify.simps wm ..
  from JObj.prems(2) obtain k where n: "n = Suc k" "2 * length (join '','' (map writtenMember fs)) + 3 \<le> k"
    unfolding str by (cases n) auto
  show ?case
  proof (cases "fs = []")
    case False
    have "parseMembers k (join '','' (map writtenMember fs) @ CHR ''}'' # r) = Some (map (\<lambda>(k, v). (k, ofJson v)) fs, r)"
    proof (rule members_read)
      show "\<forall>m\<in>set fs. \<forall>n r. 2 * length (JSON_stringify (snd m)) \<le> n \<longrightarrow> delimited r \<longrightarrow> parseValue n (JSON_stringify (snd m) @ r) = Some (ofJson (snd m), r)"
        using JObj.IH JObj.prems(1) by (fastforce simp: list_all_iff)
    qed (use False n(2) in auto)
    moreover obtain cs where "join '','' (map writtenMember fs) = CHR 0x22 # cs"
    proof -
      obtain m fs' where fs: "fs = m # fs'" using False by (cases fs) auto
      have "\<exists>cs. writtenMember m = CHR 0x22 # cs" using json_quote_cons(1) [of "fst m"] unfolding writtenMember_def by (metis append_Cons)
      with that show ?thesis by (cases "fs' = []") (auto simp: fs join_Cons)
    qed
    ultimately show ?thesis unfolding n str by (simp add: skipWs_def json_ws_def)
  qed (simp add: n skipWs_def json_ws_def)
next
  case JNull
  then show ?case using words_read(1) [of n r] by simp
next
  case (JBool b)
  then show ?case using words_read(2,3) [of n r] by (cases b) simp_all
qed

text \<open>What \<open>JSON.stringify\<close> writes, \<open>JSON.parse\<close> reads back.\<close>

lemma parse_stringify: "json_safe v \<Longrightarrow> JSON_parse (JSON_stringify v) = Some (ofJson v)"
  using value_read [of v "2 * length (JSON_stringify v) + 2" "[]"] by (simp add: JSON_parse_def delimited_def skipWs_def)

end
