(* ===== verification/Payment_Links.thy ===== *)
theory Payment_Links
  imports Json_Text
begin

text \<open>
  Shareable payment requests, \<open>frontend/src/utils/paymentRequest.ts\<close>: the terms of a stream as a token
  in a link. The first sections are the parts of the browser's library it uses: UTF-8, base64 and
  the reading of a query string. Durations are written as whole numbers.
\<close>

section \<open>UTF-8\<close>

text \<open>
  A text is the list of its code points; a string of the other theories, whose characters are the code
  units below 256, is the text of their codes. The encoder reads a lone surrogate as the
  replacement character, 65533.
\<close>

definition encodePoint :: "nat \<Rightarrow> nat list" where
  "encodePoint n =
     (if n < 128 then [n]
      else if n < 2048 then [192 + n div 64, 128 + n mod 64]
      else if 55296 \<le> n \<and> n \<le> 57343 then [239, 191, 189]
      else if n < 65536 then [224 + n div 64 div 64, 128 + n div 64 mod 64, 128 + n mod 64]
      else [240 + n div 64 div 64 div 64, 128 + n div 64 div 64 mod 64, 128 + n div 64 mod 64, 128 + n mod 64])"

definition TextEncoder :: "nat list \<Rightarrow> nat list" where
  "TextEncoder cs = concat (map encodePoint cs)"

text \<open>
  The decoder keeps the number of continuation bytes it waits for, the code point so far and the
  range of the next byte. A malformed sequence is one replacement character.
\<close>

function decodeBytes :: "nat \<Rightarrow> nat \<Rightarrow> nat \<Rightarrow> nat \<Rightarrow> nat list \<Rightarrow> nat list" where
  "decodeBytes need cp lo hi [] = (if need = 0 then [] else [65533])"
| "decodeBytes need cp lo hi (b # bs) =
     (if need = 0 then
        (if b < 128 then b # decodeBytes 0 0 128 191 bs
         else if 194 \<le> b \<and> b \<le> 223 then decodeBytes 1 (b - 192) 128 191 bs
         else if 224 \<le> b \<and> b \<le> 239 then decodeBytes 2 (b - 224) (if b = 224 then 160 else 128) (if b = 237 then 159 else 191) bs
         else if 240 \<le> b \<and> b \<le> 244 then decodeBytes 3 (b - 240) (if b = 240 then 144 else 128) (if b = 244 then 143 else 191) bs
         else 65533 # decodeBytes 0 0 128 191 bs)
      else if lo \<le> b \<and> b \<le> hi then
        (let cp' = cp * 64 + (b - 128) in
         if need = 1 then cp' # decodeBytes 0 0 128 191 bs else decodeBytes (need - 1) cp' 128 191 bs)
      else 65533 # decodeBytes 0 0 128 191 (b # bs))"
  by pat_completeness auto
termination by (relation "measures [\<lambda>(need, cp, lo, hi, bs). length bs, \<lambda>(need, cp, lo, hi, bs). need]") auto

declare decodeBytes.simps [simp del]

definition decodeWithoutBOM :: "nat list \<Rightarrow> nat list" where
  "decodeWithoutBOM bs = decodeBytes 0 0 128 191 bs"

definition TextDecoder :: "nat list \<Rightarrow> nat list" where
  "TextDecoder bs = decodeWithoutBOM (if take 3 bs = [239, 187, 191] then drop 3 bs else bs)"

text \<open>A decoded text as a string: what lies outside it is shown as question marks.\<close>

definition textOf :: "nat list \<Rightarrow> string" where
  "textOf cs = concat (map (\<lambda>n. if n < 65536 then [unitChar n] else ''??'') cs)"

definition scalarValue :: "nat \<Rightarrow> bool" where
  "scalarValue n = (n < 55296 \<or> (57344 \<le> n \<and> n < 1114112))"

lemma three_bytes:
  assumes "2048 \<le> n" "n < 65536" "scalarValue n"
  shows "decodeBytes 0 0 128 191 ((224 + n div 64 div 64) # (128 + n div 64 mod 64) # (128 + n mod 64) # bs) = n # decodeBytes 0 0 128 191 bs"
proof -
  define q s r where "q = n div 64 div 64" and "s = n div 64 mod 64" and "r = n mod 64"
  have n: "n = q * 4096 + s * 64 + r" using div_mult_mod_eq [of n 64] div_mult_mod_eq [of "n div 64" 64]
    unfolding q_def [symmetric] s_def [symmetric] r_def [symmetric] by linarith
  have b: "s < 64" "r < 64" by (simp_all add: s_def r_def)
  have "q < 16" using assms(2) n by linarith
  moreover have "q = 0 \<Longrightarrow> 32 \<le> s" using assms(1) n b by linarith
  moreover have "q = 13 \<Longrightarrow> s < 32" using assms(3) n b by (auto simp: scalarValue_def)
  ultimately show ?thesis unfolding q_def [symmetric] s_def [symmetric] r_def [symmetric]
    using b n by (auto simp: decodeBytes.simps(2))
qed

lemma four_bytes:
  assumes "65536 \<le> n" "scalarValue n"
  shows "decodeBytes 0 0 128 191 ((240 + n div 64 div 64 div 64) # (128 + n div 64 div 64 mod 64) # (128 + n div 64 mod 64) # (128 + n mod 64) # bs)
    = n # decodeBytes 0 0 128 191 bs"
proof -
  define q s t r where "q = n div 64 div 64 div 64" and "s = n div 64 div 64 mod 64" and "t = n div 64 mod 64" and "r = n mod 64"
  have n: "n = q * 262144 + s * 4096 + t * 64 + r" using div_mult_mod_eq [of n 64] div_mult_mod_eq [of "n div 64" 64] div_mult_mod_eq [of "n div 64 div 64" 64]
    unfolding q_def [symmetric] s_def [symmetric] t_def [symmetric] r_def [symmetric] by linarith
  have b: "s < 64" "t < 64" "r < 64" by (simp_all add: s_def t_def r_def)
  have hi: "n < 1114112" using assms by (auto simp: scalarValue_def)
  have "q < 5" using hi n by linarith
  moreover have "q = 0 \<Longrightarrow> 16 \<le> s" using assms(1) n b by linarith
  moreover have "q = 4 \<Longrightarrow> s < 16" using hi n by linarith
  ultimately show ?thesis unfolding q_def [symmetric] s_def [symmetric] t_def [symmetric] r_def [symmetric]
    using b n by (auto simp: decodeBytes.simps(2))
qed

lemma decode_point: "scalarValue n \<Longrightarrow> decodeBytes 0 0 128 191 (encodePoint n @ bs) = n # decodeBytes 0 0 128 191 bs"
proof -
  assume n: "scalarValue n"
  consider "n < 128" | "128 \<le> n" "n < 2048" | "2048 \<le> n" "n < 65536" | "65536 \<le> n" by linarith
  then show ?thesis
  proof cases
    case 2
    then have "2 \<le> n div 64" "n div 64 < 32" "n mod 64 < 64" "n div 64 * 64 + n mod 64 = n" by (simp_all add: div_less_iff_less_mult)
    moreover have "encodePoint n = [192 + n div 64, 128 + n mod 64]" using 2 by (simp add: encodePoint_def)
    ultimately show ?thesis by (simp add: decodeBytes.simps(2))
  qed (use n three_bytes [of n bs] four_bytes [of n bs] in \<open>auto simp: encodePoint_def scalarValue_def decodeBytes.simps(2)\<close>)
qed

lemma encoder_Cons: "TextEncoder (c # cs) = encodePoint c @ TextEncoder cs"
  by (simp add: TextEncoder_def)

lemma decode_encode: "list_all scalarValue cs \<Longrightarrow> decodeWithoutBOM (TextEncoder cs) = cs"
proof (induction cs)
  case Nil
  then show ?case by (simp add: decodeWithoutBOM_def TextEncoder_def decodeBytes.simps)
next
  case (Cons c cs)
  then show ?case by (simp add: decodeWithoutBOM_def encoder_Cons decode_point)
qed

lemma decode_mark: "decodeWithoutBOM (239 # 187 # 191 # bs) = 65279 # decodeWithoutBOM bs"
  by (simp add: decodeWithoutBOM_def decodeBytes.simps(2))

text \<open>The decoder takes a leading byte order mark off.\<close>

lemma TextDecoder_encode:
  assumes "list_all scalarValue cs"
  shows "TextDecoder (TextEncoder cs) = (if take 1 cs = [65279] then drop 1 cs else cs)"
proof (cases "take 3 (TextEncoder cs) = [239, 187, 191]")
  case True
  then have "TextEncoder cs = 239 # 187 # 191 # drop 3 (TextEncoder cs)"
    using append_take_drop_id [of 3 "TextEncoder cs"] by simp
  then have "decodeWithoutBOM (TextEncoder cs) = 65279 # decodeWithoutBOM (drop 3 (TextEncoder cs))"
    using decode_mark [of "drop 3 (TextEncoder cs)"] by simp
  then have cs: "cs = 65279 # decodeWithoutBOM (drop 3 (TextEncoder cs))"
    unfolding decode_encode [OF assms] .
  have "take 1 cs = [65279]" "drop 1 cs = decodeWithoutBOM (drop 3 (TextEncoder cs))"
    by (subst cs, simp)+
  with True show ?thesis by (simp only: TextDecoder_def if_True refl)
next
  case False
  have "take 1 cs \<noteq> [65279]"
  proof
    assume "take 1 cs = [65279]"
    then have "TextEncoder cs = [239, 187, 191] @ TextEncoder (drop 1 cs)"
      by (cases cs) (simp_all add: encoder_Cons encodePoint_def)
    with False show False by simp
  qed
  with False show ?thesis by (simp add: TextDecoder_def decode_encode [OF assms])
qed

lemma encodePoint_bytes: "scalarValue n \<Longrightarrow> list_all (\<lambda>b. b < 256) (encodePoint n)"
proof -
  assume n: "scalarValue n"
  have "n < 2048 \<Longrightarrow> n div 64 < 32" "n < 65536 \<Longrightarrow> n div 64 div 64 < 16" "n div 64 div 64 div 64 < 5"
    using n by (auto simp: scalarValue_def div_less_iff_less_mult)
  moreover have "m mod 64 < 128" for m :: nat by (rule less_trans [of _ 64]) simp_all
  ultimately show ?thesis using n
    by (cases "n < 2048"; cases "n < 65536") (simp_all add: encodePoint_def scalarValue_def)
qed

lemma TextEncoder_bytes: "list_all scalarValue cs \<Longrightarrow> b \<in> set (TextEncoder cs) \<Longrightarrow> b < 256"
  using encodePoint_bytes by (fastforce simp: TextEncoder_def list_all_iff)

lemma code_less: "code c < 256"
  by (simp add: code_def)

lemma code_scalar: "scalarValue (code c)"
  using code_less [of c] by (simp add: scalarValue_def)

lemma codes_scalar: "list_all scalarValue (map code s)"
  by (simp add: list_all_iff code_scalar)

lemma textOf_codes: "textOf (map code s) = s"
proof (induction s)
  case (Cons c s)
  have "code c < 256" by (simp add: code_def)
  with Cons show ?case by (simp add: textOf_def unitChar_def flip: code_char)
qed (simp add: textOf_def)

section \<open>base64\<close>

definition b64char :: "nat \<Rightarrow> char" where
  "b64char n =
     (if n < 26 then char_of (65 + n) else if n < 52 then char_of (71 + n) else if n < 62 then char_of (n - 4)
      else if n = 62 then CHR ''+'' else CHR ''/'')"

definition b64val :: "char \<Rightarrow> nat option" where
  "b64val c =
     (let n = code c in
      if 65 \<le> n \<and> n \<le> 90 then Some (n - 65) else if 97 \<le> n \<and> n \<le> 122 then Some (n - 71)
      else if 48 \<le> n \<and> n \<le> 57 then Some (n + 4) else if n = 43 then Some 62 else if n = 47 then Some 63 else None)"

fun sextets :: "nat list \<Rightarrow> nat list" where
  "sextets [] = []"
| "sextets [a] = [a div 4, a mod 4 * 16]"
| "sextets [a, b] = [a div 4, a mod 4 * 16 + b div 16, b mod 16 * 4]"
| "sextets (a # b # c # bs) = a div 4 # (a mod 4 * 16 + b div 16) # (b mod 16 * 4 + c div 64) # c mod 64 # sextets bs"

definition btoa :: "nat list \<Rightarrow> string" where
  "btoa bs = map b64char (sextets bs) @ replicate ((3 - length bs mod 3) mod 3) CHR ''=''"

fun octets :: "nat list \<Rightarrow> nat list" where
  "octets (a # b # c # d # vs) = (a * 4 + b div 16) # (b mod 16 * 16 + c div 4) # (c mod 4 * 64 + d) # octets vs"
| "octets [a, b, c] = [a * 4 + b div 16, b mod 16 * 16 + c div 4]"
| "octets [a, b] = [a * 4 + b div 16]"
| "octets _ = []"

text \<open>\<open>atob\<close> drops white space and, from a text of full length, up to two padding characters.\<close>

definition unpad :: "string \<Rightarrow> string" where
  "unpad s =
     (if length s mod 4 = 0 \<and> s \<noteq> [] \<and> last s = CHR ''=''
      then (let t = butlast s in if t \<noteq> [] \<and> last t = CHR ''='' then butlast t else t) else s)"

definition atob :: "string \<Rightarrow> nat list option" where
  "atob s =
     (let t = unpad (filter (\<lambda>c. \<not> (json_ws c \<or> c = CHR 0x0C)) s) in
      if length t mod 4 = 1 \<or> list_ex (\<lambda>c. b64val c = None) t then None
      else Some (octets (map (\<lambda>c. the (b64val c)) t)))"

definition toBase64Url :: "nat list \<Rightarrow> string" where
  "toBase64Url s =
     rev (dropWhile (\<lambda>c. c = CHR ''='') (rev (map (\<lambda>c. if c = CHR ''+'' then CHR ''-'' else if c = CHR ''/'' then CHR ''_'' else c)
       (btoa (TextEncoder s)))))"

definition fromBase64Url :: "string \<Rightarrow> nat list option" where
  "fromBase64Url s =
     map_option TextDecoder (atob (map (\<lambda>c. if c = CHR ''-'' then CHR ''+'' else if c = CHR ''_'' then CHR ''/'' else c) s))"

definition urlSafe :: "char \<Rightarrow> bool" where
  "urlSafe c = (let n = code c in (65 \<le> n \<and> n \<le> 90) \<or> (97 \<le> n \<and> n \<le> 122) \<or> (48 \<le> n \<and> n \<le> 57) \<or> n = 45 \<or> n = 95)"

lemma b64_code:
  "n < 64 \<Longrightarrow> code (b64char n) = (if n < 26 then 65 + n else if n < 52 then 71 + n else if n < 62 then n - 4 else if n = 62 then 43 else 47)"
proof -
  have "code (char_of m) = m" if "m < 256" for m :: nat using that by (simp add: code_def)
  moreover have "code CHR ''+'' = 43" "code CHR ''/'' = 47" by (simp_all add: code_def)
  ultimately show "n < 64 \<Longrightarrow> ?thesis" by (simp add: b64char_def)
qed

lemma char_code_eq: "c = d \<longleftrightarrow> code c = code d"
  by (metis code_char)

lemma special_codes: "code CHR ''='' = 61" "code CHR ''-'' = 45" "code CHR ''_'' = 95" "code CHR ''+'' = 43" "code CHR ''/'' = 47"
  "code CHR '' '' = 32" "code CHR 0x09 = 9" "code CHR 0x0A = 10" "code CHR 0x0D = 13" "code CHR 0x0C = 12"
  by (simp_all add: code_def)

lemma b64_char: assumes "n < 64"
  shows "b64val (b64char n) = Some n" "b64char n \<noteq> CHR ''=''" "b64char n \<noteq> CHR ''-''" "b64char n \<noteq> CHR ''_''"
    "\<not> json_ws (b64char n)" "b64char n \<noteq> CHR 0x0C"
    "urlSafe (let c = b64char n in if c = CHR ''+'' then CHR ''-'' else if c = CHR ''/'' then CHR ''_'' else c)"
  using b64_code [OF assms] assms
  by (auto simp: b64val_def Let_def urlSafe_def json_ws_def char_code_eq special_codes split: if_splits)

lemma six_bits: assumes "(a::nat) < 256" "(b::nat) < 256"
  shows "a div 4 < 64" "a mod 4 * 16 + b div 16 < 64" "b mod 16 * 4 + a div 64 < 64" "a mod 4 * 16 < 64" "b mod 16 * 4 < 64"
proof -
  have "a mod 4 < 4" "b mod 16 < 16" "b div 16 < 16" "a div 64 < 4" using assms by (simp_all add: div_less_iff_less_mult)
  then show "a mod 4 * 16 + b div 16 < 64" "b mod 16 * 4 + a div 64 < 64" "a mod 4 * 16 < 64" "b mod 16 * 4 < 64" by linarith+
qed (use assms in \<open>simp add: div_less_iff_less_mult\<close>)

lemma sextets_less: "(\<And>b. b \<in> set bs \<Longrightarrow> b < 256) \<Longrightarrow> v \<in> set (sextets bs) \<Longrightarrow> v < 64"
proof (induction bs rule: sextets.induct)
  case (2 a)
  then show ?case using six_bits [of a a] by auto
next
  case (3 a b)
  then show ?case using six_bits [of a b] by auto
next
  case (4 a b c bs)
  then have ab: "a < 256" "b < 256" "c < 256" by auto
  have "v \<in> set (sextets bs) \<Longrightarrow> v < 64" using 4 by simp
  then show ?case using 4(3) six_bits [OF ab(1,2)] six_bits(3) [OF ab(3,2)] by (simp, elim disjE; simp)
qed simp

lemma octets_sextets: "(\<And>b. b \<in> set bs \<Longrightarrow> b < 256) \<Longrightarrow> octets (sextets bs) = bs"
proof (induction bs rule: sextets.induct)
  case (4 a b c bs)
  then have "octets (sextets bs) = bs" "a < 256" "b < 256" "c < 256" by auto
  then show ?case by auto
next
  case (3 a b)
  then have "b < 256" by simp
  then show ?case by auto
qed auto

lemma sextets_length: "length (sextets bs) mod 4 \<noteq> 1"
  by (induction bs rule: sextets.induct) auto

lemma base64_read:
  assumes "\<And>b. b \<in> set bs \<Longrightarrow> b < 256"
  shows "atob (map b64char (sextets bs)) = Some bs"
proof -
  have v: "\<And>v. v \<in> set (sextets bs) \<Longrightarrow> v < 64" using sextets_less assms by blast
  let ?t = "map b64char (sextets bs)"
  have "filter (\<lambda>c. \<not> (json_ws c \<or> c = CHR 0x0C)) ?t = ?t" using v b64_char(5,6) by (auto intro!: filter_True)
  moreover have "unpad ?t = ?t"
  proof (cases "sextets bs = []")
    case False
    then have "last ?t \<noteq> CHR ''=''" using v b64_char(2) by (simp add: last_map)
    then show ?thesis by (simp add: unpad_def)
  qed (simp add: unpad_def)
  moreover have "map (\<lambda>c. the (b64val c)) ?t = sextets bs" "\<not> list_ex (\<lambda>c. b64val c = None) ?t"
    using v b64_char(1) by (auto simp: list_ex_iff intro!: map_idI)
  ultimately show ?thesis using octets_sextets [of bs] sextets_length [of bs] assms by (simp add: atob_def)
qed

lemma url_token:
  assumes "list_all scalarValue s"
  shows "toBase64Url s = map (\<lambda>v. let c = b64char v in if c = CHR ''+'' then CHR ''-'' else if c = CHR ''/'' then CHR ''_'' else c)
    (sextets (TextEncoder s))"
proof -
  let ?v = "sextets (TextEncoder s)"
  let ?u = "map (\<lambda>v. let c = b64char v in if c = CHR ''+'' then CHR ''-'' else if c = CHR ''/'' then CHR ''_'' else c) ?v"
  have v: "\<And>v. v \<in> set ?v \<Longrightarrow> v < 64" using sextets_less TextEncoder_bytes [OF assms] by blast
  have "dropWhile (\<lambda>c. c = CHR ''='') (replicate k CHR ''='' @ w) = dropWhile (\<lambda>c. c = CHR ''='') w" for k w by (induction k) auto
  moreover have "dropWhile (\<lambda>c. c = CHR ''='') (rev ?u) = rev ?u"
  proof (cases "?v = []")
    case False
    then have "hd (rev ?u) \<noteq> CHR ''=''" using v b64_char(2) by (simp add: hd_rev last_map Let_def)
    then show ?thesis by (simp add: dropWhile_eq_self_iff)
  qed simp
  ultimately show ?thesis by (simp add: toBase64Url_def btoa_def comp_def Let_def rev_map [symmetric])
qed

lemma base64url_roundtrip:
  assumes "list_all scalarValue s"
  shows "fromBase64Url (toBase64Url s) = Some (if take 1 s = [65279] then drop 1 s else s)"
proof -
  let ?v = "sextets (TextEncoder s)"
  have v: "\<And>v. v \<in> set ?v \<Longrightarrow> v < 64" using sextets_less TextEncoder_bytes [OF assms] by blast
  have "map (\<lambda>c. if c = CHR ''-'' then CHR ''+'' else if c = CHR ''_'' then CHR ''/'' else c) (toBase64Url s) = map b64char ?v"
    using v b64_char(3,4) by (auto simp: url_token [OF assms] Let_def)
  then show ?thesis using base64_read [of "TextEncoder s"] TextEncoder_bytes [OF assms]
    by (simp add: fromBase64Url_def TextDecoder_encode [OF assms])
qed

lemma text_roundtrip: "fromBase64Url (toBase64Url (map code s)) = Some (map code s)"
proof -
  have "code c \<noteq> 65279" for c using code_less [of c] by simp
  then have "take 1 (map code s) \<noteq> [65279]" by (cases s) auto
  then show ?thesis by (simp add: base64url_roundtrip [OF codes_scalar])
qed

lemma token_safe:
  assumes "list_all scalarValue s"
  shows "list_all urlSafe (toBase64Url s)"
proof -
  have "v < 64" if "v \<in> set (sextets (TextEncoder s))" for v using that sextets_less TextEncoder_bytes [OF assms] by blast
  then show ?thesis using b64_char(7) by (simp add: url_token [OF assms] list_all_iff)
qed

section \<open>Query strings\<close>

fun percentDecode :: "nat list \<Rightarrow> nat list" where
  "percentDecode (p # a # b # bs) =
     (case (radix_val 16 (char_of a), radix_val 16 (char_of b)) of
        (Some x, Some y) \<Rightarrow> if p = 37 then (x * 16 + y) # percentDecode bs else p # percentDecode (a # b # bs)
      | _ \<Rightarrow> p # percentDecode (a # b # bs))"
| "percentDecode bs = bs"

definition formDecode :: "string \<Rightarrow> string" where
  "formDecode s = textOf (decodeWithoutBOM (percentDecode (TextEncoder (map (\<lambda>c. code (if c = CHR ''+'' then CHR '' '' else c)) s))))"

text \<open>\<open>new URLSearchParams(s)\<close> as the list of names and values, and its \<open>get\<close>.\<close>

definition searchParams :: "string \<Rightarrow> (string \<times> string) list" where
  "searchParams s =
     map (\<lambda>p. (formDecode (takeWhile (\<lambda>c. c \<noteq> CHR ''='') p), formDecode (drop 1 (dropWhile (\<lambda>c. c \<noteq> CHR ''='') p))))
       (filter (\<lambda>p. p \<noteq> []) (js_split CHR ''&'' (if startsWith s ''?'' then drop 1 s else s)))"

section \<open>Requests\<close>

record 'n PaymentRequestParams =
  pr_recipient :: string
  pr_token :: string
  pr_amount :: string
  pr_durationSeconds :: 'n
  pr_cliffSeconds :: "'n option"
  pr_note :: "string option"

definition PAYMENT_REQUEST_PARAM :: string where
  "PAYMENT_REQUEST_PARAM = ''r''"

definition wireFormat :: "int PaymentRequestParams \<Rightarrow> json" where
  "wireFormat params =
     JObj [(''v'', JNum 1), (''recipient'', JStr (pr_recipient params)), (''token'', JStr (pr_token params)),
       (''amount'', JStr (pr_amount params)), (''durationSeconds'', JNum (pr_durationSeconds params)),
       (''cliffSeconds'', JNum (case pr_cliffSeconds params of None \<Rightarrow> 0 | Some c \<Rightarrow> c)),
       (''note'', JStr (case pr_note params of None \<Rightarrow> [] | Some t \<Rightarrow> t))]"

definition encodePaymentRequest :: "int PaymentRequestParams \<Rightarrow> string" where
  "encodePaymentRequest params = toBase64Url (map code (JSON_stringify (wireFormat params)))"

definition buildPaymentRequestUrl :: "int PaymentRequestParams \<Rightarrow> string \<Rightarrow> string" where
  "buildPaymentRequestUrl params basePath = basePath @ ''?'' @ PAYMENT_REQUEST_PARAM @ ''='' @ encodePaymentRequest params"

definition nonEmptyString :: "jvalue option \<Rightarrow> string option" where
  "nonEmptyString v = (case v of Some (VStr s) \<Rightarrow> if s = [] then None else Some s | _ \<Rightarrow> None)"

definition positiveNumber :: "jvalue option \<Rightarrow> rat option" where
  "positiveNumber v = (case v of Some (VNum (Fin d)) \<Rightarrow> if 0 < d then Some d else None | _ \<Rightarrow> None)"

definition cliffOf :: "jvalue option \<Rightarrow> rat" where
  "cliffOf v = (case v of Some (VNum (Fin c)) \<Rightarrow> max 0 c | _ \<Rightarrow> 0)"

definition decodeWire :: "jvalue \<Rightarrow> jsnum PaymentRequestParams option" where
  "decodeWire wire =
     (if getProperty wire ''v'' \<noteq> Some (VNum (Fin 1)) then None
      else Option.bind (nonEmptyString (getProperty wire ''recipient'')) (\<lambda>recpt.
           Option.bind (nonEmptyString (getProperty wire ''token'')) (\<lambda>tok.
           Option.bind (nonEmptyString (getProperty wire ''amount'')) (\<lambda>amt.
           Option.bind (positiveNumber (getProperty wire ''durationSeconds'')) (\<lambda>d.
           Some \<lparr>pr_recipient = recpt, pr_token = tok, pr_amount = amt, pr_durationSeconds = Fin d,
                 pr_cliffSeconds = Some (Fin (cliffOf (getProperty wire ''cliffSeconds''))),
                 pr_note = Some (case getProperty wire ''note'' of Some (VStr t) \<Rightarrow> t | _ \<Rightarrow> [])\<rparr>)))))"

definition decodePaymentRequest :: "string option \<Rightarrow> jsnum PaymentRequestParams option" where
  "decodePaymentRequest token =
     (case token of
        None \<Rightarrow> None
      | Some t \<Rightarrow>
          if t = [] then None
          else (case fromBase64Url t of
                  None \<Rightarrow> None
                | Some text \<Rightarrow> (case JSON_parse (textOf text) of None \<Rightarrow> None | Some parsed \<Rightarrow> decodeWire parsed)))"

definition decodePaymentRequestFromSearch :: "string \<Rightarrow> jsnum PaymentRequestParams option" where
  "decodePaymentRequestFromSearch search =
     decodePaymentRequest (map_of (searchParams (if startsWith search ''?'' then drop 1 search else search)) PAYMENT_REQUEST_PARAM)"

section \<open>Links carry the request\<close>

text \<open>What a request means to the reader: missing options have their defaults.\<close>

definition readTerms :: "int PaymentRequestParams \<Rightarrow> jsnum PaymentRequestParams" where
  "readTerms params =
     \<lparr>pr_recipient = pr_recipient params, pr_token = pr_token params, pr_amount = pr_amount params,
      pr_durationSeconds = Fin (of_int (pr_durationSeconds params)),
      pr_cliffSeconds = Some (Fin (of_int (case pr_cliffSeconds params of None \<Rightarrow> 0 | Some c \<Rightarrow> c))),
      pr_note = Some (case pr_note params of None \<Rightarrow> [] | Some t \<Rightarrow> t)\<rparr>"

definition payable :: "int PaymentRequestParams \<Rightarrow> bool" where
  "payable params =
     (pr_recipient params \<noteq> [] \<and> pr_token params \<noteq> [] \<and> pr_amount params \<noteq> [] \<and>
      0 < pr_durationSeconds params \<and> pr_durationSeconds params \<le> 2 ^ 53 \<and>
      (case pr_cliffSeconds params of None \<Rightarrow> True | Some c \<Rightarrow> 0 \<le> c \<and> c \<le> 2 ^ 53))"

lemma decode_encode_request: "payable params \<Longrightarrow> decodePaymentRequest (Some (encodePaymentRequest params)) = Some (readTerms params)"
proof -
  assume p: "payable params"
  have "json_safe (wireFormat params)" using p by (simp add: wireFormat_def payable_def split: option.splits)
  then have r: "fromBase64Url (encodePaymentRequest params) = Some (map code (JSON_stringify (wireFormat params)))"
    "JSON_parse (JSON_stringify (wireFormat params)) = Some (ofJson (wireFormat params))"
    by (simp_all only: encodePaymentRequest_def text_roundtrip parse_stringify)
  have "encodePaymentRequest params \<noteq> []"
  proof
    assume "encodePaymentRequest params = []"
    moreover have "fromBase64Url [] = Some []"
      by (simp add: fromBase64Url_def atob_def unpad_def TextDecoder_def decodeWithoutBOM_def decodeBytes.simps)
    ultimately show False using r(1) by (simp add: wireFormat_def)
  qed
  moreover have "decodeWire (ofJson (wireFormat params)) = Some (readTerms params)"
    using p by (auto simp: decodeWire_def wireFormat_def nonEmptyString_def positiveNumber_def cliffOf_def readTerms_def payable_def max_def split: option.splits)
  ultimately show ?thesis by (simp add: decodePaymentRequest_def r textOf_codes)
qed

lemma safe_code: "urlSafe c \<Longrightarrow> code c < 128 \<and> code c \<noteq> 37 \<and> c \<noteq> CHR ''+'' \<and> c \<noteq> CHR ''&''"
proof -
  assume c: "urlSafe c"
  then have "code c < 128" "code c \<noteq> 37" "code c \<noteq> 43" "code c \<noteq> 38" by (auto simp: urlSafe_def Let_def)
  then show ?thesis by (auto simp: code_def)
qed

lemma percentDecode_plain: "37 \<notin> set bs \<Longrightarrow> percentDecode bs = bs"
  by (induction bs rule: percentDecode.induct) (auto split: option.split)

lemma formDecode_safe: "list_all urlSafe t \<Longrightarrow> formDecode t = t"
proof -
  assume t: "list_all urlSafe t"
  have plus: "map (\<lambda>c. code (if c = CHR ''+'' then CHR '' '' else c)) t = map code t" using t by (induction t) (simp_all add: safe_code)
  have "TextEncoder (map code t) = map code t" using t by (induction t) (simp_all add: TextEncoder_def encodePoint_def safe_code)
  moreover have "37 \<notin> set (map code t)" using t by (induction t) (auto dest!: safe_code)
  ultimately show ?thesis using decode_encode [OF codes_scalar, of t] by (simp only: formDecode_def plus percentDecode_plain textOf_codes simp_thms)
qed

lemma request_parameter: "list_all urlSafe t \<Longrightarrow> map_of (searchParams (PAYMENT_REQUEST_PARAM @ ''='' @ t)) PAYMENT_REQUEST_PARAM = Some t"
proof -
  assume t: "list_all urlSafe t"
  then have "CHR ''&'' \<notin> set (''r='' @ t)" using safe_code by (auto simp: list_all_iff)
  then have "js_split CHR ''&'' (''r='' @ t) = [''r='' @ t]" by (rule js_split_no_sep)
  moreover have "formDecode ''r'' = ''r''" by (rule formDecode_safe) (simp add: urlSafe_def code_def)
  ultimately show ?thesis by (simp add: searchParams_def PAYMENT_REQUEST_PARAM_def startsWith_def formDecode_safe [OF t])
qed

text \<open>C39. The link built for a request whose recipient, token and amount are not empty and whose duration is a
  positive whole number of seconds (the cliff, if any, not negative, both at most \<open>2 ^ 53\<close>) is the
  base path with a query of URL-safe characters, and the page that opens it reads back the terms,
  with the missing options at their defaults: through JSON, UTF-8, base64 and the query string
  nothing is lost. The texts of the request are of code units below 256; the token encoding inverts
  on every Unicode text, but for a byte order mark at its start, which is taken off.
\<close>
theorem payment_link_roundtrip:
  assumes "payable params" "list_all scalarValue text"
  shows "(\<exists>search. buildPaymentRequestUrl params basePath = basePath @ search \<and>
      decodePaymentRequestFromSearch search = Some (readTerms params) \<and> list_all urlSafe (encodePaymentRequest params))
    \<and> fromBase64Url (toBase64Url text) = Some (if take 1 text = [65279] then drop 1 text else text)
    \<and> list_all urlSafe (toBase64Url text)"
proof (intro exI conjI)
  let ?s = "''?'' @ PAYMENT_REQUEST_PARAM @ ''='' @ encodePaymentRequest params"
  show "buildPaymentRequestUrl params basePath = basePath @ ?s" by (simp add: buildPaymentRequestUrl_def)
  show safe: "list_all urlSafe (encodePaymentRequest params)"
    unfolding encodePaymentRequest_def by (rule token_safe) (rule codes_scalar)
  have "drop 1 ?s = PAYMENT_REQUEST_PARAM @ ''='' @ encodePaymentRequest params" "startsWith ?s ''?''" by (simp_all add: startsWith_def)
  then show "decodePaymentRequestFromSearch ?s = Some (readTerms params)"
    unfolding decodePaymentRequestFromSearch_def by (simp only: if_True request_parameter [OF safe] decode_encode_request [OF assms(1)])
qed (rule base64url_roundtrip [OF assms(2)] token_safe [OF assms(2)])+

definition exampleTerms :: "int PaymentRequestParams" where
  "exampleTerms = \<lparr>pr_recipient = ''GA'', pr_token = ''USDC'', pr_amount = ''5000'', pr_durationSeconds = 2592000,
     pr_cliffSeconds = None, pr_note = Some ''Invoice 42 & 43''\<rparr>"

text \<open>A euro sign and an emoji take three and four bytes.\<close>

theorem payment_link_roundtrip_witness:
  "(\<exists>search terms. buildPaymentRequestUrl exampleTerms ''/pay'' = ''/pay'' @ search \<and>
     decodePaymentRequestFromSearch search = Some terms \<and> pr_note terms = Some ''Invoice 42 & 43'' \<and> pr_cliffSeconds terms = Some (Fin 0))
   \<and> fromBase64Url (toBase64Url [8364, 128512]) = Some [8364, 128512]"
proof -
  have "payable exampleTerms" "list_all scalarValue [8364, 128512]" by (simp_all add: payable_def exampleTerms_def scalarValue_def)
  from payment_link_roundtrip [OF this, of "''/pay''"] show ?thesis by (auto simp: readTerms_def exampleTerms_def)
qed

text \<open>Whatever a link contains, a request that is read from it has every required term.\<close>
theorem decoded_request_valid:
  assumes "decodePaymentRequest t = Some p"
  shows "pr_recipient p \<noteq> [] \<and> pr_token p \<noteq> [] \<and> pr_amount p \<noteq> [] \<and>
    (\<exists>d c. pr_durationSeconds p = Fin d \<and> 0 < d \<and> pr_cliffSeconds p = Some (Fin c) \<and> 0 \<le> c)"
proof -
  have ne: "nonEmptyString v = Some t \<Longrightarrow> t \<noteq> []" for v t
    by (auto simp: nonEmptyString_def split: option.splits jvalue.splits if_splits)
  have pos: "positiveNumber v = Some d \<Longrightarrow> 0 < d" for v d
    by (auto simp: positiveNumber_def split: option.splits jvalue.splits jsnum.splits if_splits)
  have cl: "0 \<le> cliffOf v" for v by (auto simp: cliffOf_def split: option.split jvalue.split jsnum.split)
  from assms obtain w where "decodeWire w = Some p" by (auto simp: decodePaymentRequest_def split: option.splits if_splits)
  then show ?thesis
    by (auto simp: decodeWire_def bind_eq_Some_conv ne pos cl split: if_splits)
qed

theorem decoded_request_valid_witness: "pr_recipient (readTerms exampleTerms) \<noteq> []"
proof -
  have "payable exampleTerms" by (simp add: payable_def exampleTerms_def)
  from decoded_request_valid [OF decode_encode_request [OF this]] show ?thesis by simp
qed

end
