(* ===== verification/Event_Run.thy ===== *)
theory Event_Run
  imports Main
begin

text \<open>
  Runs of a page: the hooks of the web client react to one event at a time, so a page is a step function
  over events and a run is a list of them. The locale states what a step keeps once and for all runs.
\<close>

locale event_machine =
  fixes step :: "'event \<Rightarrow> 'state \<Rightarrow> 'state" and inv :: "'state \<Rightarrow> bool" and allowed :: "'event \<Rightarrow> bool"
  assumes step_keeps: "inv s \<Longrightarrow> allowed e \<Longrightarrow> inv (step e s)"
begin

lemma run_keeps: "inv s \<Longrightarrow> list_all allowed es \<Longrightarrow> inv (fold step es s)"
  by (induction es arbitrary: s) (simp_all add: step_keeps)

end

text \<open>A counter that an event of cost \<open>n\<close> increases by at most \<open>n\<close> is bounded by the costs of the run.\<close>

locale event_counter =
  fixes step :: "'event \<Rightarrow> 'state \<Rightarrow> 'state" and counter :: "'state \<Rightarrow> nat" and cost :: "'event \<Rightarrow> nat"
  assumes counts: "counter (step e s) \<le> counter s + cost e"
begin

lemma run_counts: "counter (fold step es s) \<le> counter s + sum_list (map cost es)"
proof (induction es arbitrary: s)
  case (Cons e es)
  show ?case using Cons [of "step e s"] counts [of e s] by simp
qed simp

end

end
