(* ===== verification/Stream_Form.thy ===== *)
theory Stream_Form
  imports Event_Run Json_Text Wallet_Client
begin

text \<open>
  The form hook of the web client (\<open>frontend/src/hooks/useStreamForm.ts\<close>): drafts in \<open>sessionStorage\<close>,
  templates in \<open>localStorage\<close>, the errors shown beside the fields, and the wallet balance fetched for the
  chosen token. A storage entry is the text under its key; reads and writes of storage that throw are
  left out. Stored entries whose fields are of another type than the code casts them to are kept
  apart as \<open>Foreign\<close>; the page would carry such values along unchecked. Other tabs, which share
  \<open>localStorage\<close>, are left out.
\<close>

section \<open>The data of the form\<close>

record stream_form = StreamFormData +
  sf_descriptionTag :: "string option"

text \<open>\<open>Partial<StreamFormData>\<close>: \<open>None\<close> is an absent key.\<close>

record form_values =
  fv_recipient :: "string option"
  fv_token :: "string option"
  fv_amount :: "string option"
  fv_duration :: "string option"
  fv_durationUnit :: "DurationUnit option"
  fv_descriptionTag :: "string option"

record StreamTemplate =
  tp_id :: string
  tp_name :: string
  tp_description :: string
  tp_values :: form_values
  tp_builtIn :: bool

definition noValues :: form_values where
  "noValues = \<lparr>fv_recipient = None, fv_token = None, fv_amount = None, fv_duration = None, fv_durationUnit = None,
     fv_descriptionTag = None\<rparr>"

definition DEFAULT_FORM_DATA :: stream_form where
  "DEFAULT_FORM_DATA = \<lparr>sf_recipient = [], sf_token = ''USDC'', sf_amount = [], sf_duration = [], sf_durationUnit = Days,
     sf_descriptionTag = Some []\<rparr>"

definition builtIn :: "string \<Rightarrow> string \<Rightarrow> string \<Rightarrow> string \<Rightarrow> string \<Rightarrow> DurationUnit \<Rightarrow> string \<Rightarrow> StreamTemplate" where
  "builtIn i n d amt dur unit tag =
     \<lparr>tp_id = i, tp_name = n, tp_description = d,
      tp_values = noValues\<lparr>fv_token := Some ''USDC'', fv_amount := Some amt, fv_duration := Some dur, fv_durationUnit := Some unit,
                           fv_descriptionTag := Some tag\<rparr>,
      tp_builtIn = True\<rparr>"

definition BUILT_IN_TEMPLATES :: "StreamTemplate list" where
  "BUILT_IN_TEMPLATES =
     [builtIn ''monthly-salary'' ''Monthly Salary'' ''Recurring monthly payroll stream'' ''5000'' ''1'' Months ''salary'',
      builtIn ''weekly-subscription'' ''Weekly Subscription'' ''Weekly recurring subscription billing'' ''49'' ''1'' Weeks ''subscription'',
      builtIn ''one-time-grant'' ''One-time Grant'' ''Short fixed-duration grant payout'' ''1000'' ''14'' Days ''grant'',
      builtIn ''custom'' ''Custom'' ''Start with blank defaults'' [] [] Days ''custom'']"

fun unitText :: "DurationUnit \<Rightarrow> string" where
  "unitText Seconds = ''seconds''"
| "unitText Minutes = ''minutes''"
| "unitText Hours = ''hours''"
| "unitText Days = ''days''"
| "unitText Weeks = ''weeks''"
| "unitText Months = ''months''"

definition unitOf :: "string \<Rightarrow> DurationUnit option" where
  "unitOf s = find (\<lambda>u. unitText u = s) [Seconds, Minutes, Hours, Days, Weeks, Months]"

lemma unitOf_text [simp]: "unitOf (unitText u) = Some u"
  by (cases u) (simp_all add: unitOf_def)

section \<open>Drafts\<close>

record DraftPayload =
  dp_recipient :: string
  dp_token :: string
  dp_amount :: string
  dp_duration :: string
  dp_durationUnit :: "DurationUnit option"
  dp_descriptionTag :: "string option"
  dp_savedAt :: jsnum

datatype 'a stored = Nothing | Stored 'a | Foreign

text \<open>An optional property, read with \<open>??\<close>: \<open>Some None\<close> when it is absent or null, \<open>None\<close> when it is not a text.\<close>

definition optText :: "jvalue option \<Rightarrow> string option option" where
  "optText v = (case v of None \<Rightarrow> Some None | Some VNull \<Rightarrow> Some None | Some (VStr s) \<Rightarrow> Some (Some s) | _ \<Rightarrow> None)"

definition optUnit :: "jvalue option \<Rightarrow> DurationUnit option option" where
  "optUnit v =
     (case optText v of
        None \<Rightarrow> None
      | Some None \<Rightarrow> Some None
      | Some (Some s) \<Rightarrow> (case unitOf s of None \<Rightarrow> None | Some u \<Rightarrow> Some (Some u)))"

definition draftFields :: "jvalue \<Rightarrow> string \<Rightarrow> string \<Rightarrow> DraftPayload stored" where
  "draftFields v r a =
     (case (getProperty v ''token'', getProperty v ''duration'', optUnit (getProperty v ''durationUnit''),
            optText (getProperty v ''descriptionTag''), getProperty v ''savedAt'') of
        (Some (VStr t), Some (VStr d), Some u, Some g, Some (VNum n)) \<Rightarrow>
          Stored \<lparr>dp_recipient = r, dp_token = t, dp_amount = a, dp_duration = d, dp_durationUnit = u, dp_descriptionTag = g, dp_savedAt = n\<rparr>
      | _ \<Rightarrow> Foreign)"

definition loadDraft :: "string option \<Rightarrow> DraftPayload stored" where
  "loadDraft item =
     (case item of
        None \<Rightarrow> Nothing
      | Some raw \<Rightarrow>
          if raw = [] then Nothing
          else (case JSON_parse raw of
                  None \<Rightarrow> Nothing
                | Some parsed \<Rightarrow>
                    (case (getProperty parsed ''recipient'', getProperty parsed ''amount'') of
                       (Some (VStr r), Some (VStr a)) \<Rightarrow> if trim r \<noteq> [] \<or> trim a \<noteq> [] then draftFields parsed r a else Nothing
                     | _ \<Rightarrow> Nothing)))"

definition draftJson :: "int \<Rightarrow> stream_form \<Rightarrow> json" where
  "draftJson now data =
     JObj ([(''recipient'', JStr (sf_recipient data)), (''token'', JStr (sf_token data)), (''amount'', JStr (sf_amount data)),
            (''duration'', JStr (sf_duration data)), (''durationUnit'', JStr (unitText (sf_durationUnit data)))]
           @ jopt ''descriptionTag'' (map_option JStr (sf_descriptionTag data)) @ [(''savedAt'', JNum now)])"

definition saveDraft :: "int \<Rightarrow> stream_form \<Rightarrow> string option \<Rightarrow> string option" where
  "saveDraft now data item =
     (if trim (sf_recipient data) = [] \<and> trim (sf_amount data) = [] then item
      else Some (JSON_stringify (draftJson now data)))"

section \<open>Templates\<close>

fun falsy :: "jvalue option \<Rightarrow> bool" where
  "falsy None = True"
| "falsy (Some VNull) = True"
| "falsy (Some (VBool b)) = (\<not> b)"
| "falsy (Some (VNum n)) = (n = NaN \<or> n = Fin 0)"
| "falsy (Some (VStr s)) = (s = [])"
| "falsy _ = False"

text \<open>A field of \<open>values\<close>: absent, a text, or (\<open>None\<close>) of another type.\<close>

definition valueText :: "jvalue option \<Rightarrow> string option option" where
  "valueText v = (case v of None \<Rightarrow> Some None | Some (VStr s) \<Rightarrow> Some (Some s) | _ \<Rightarrow> None)"

definition valueUnit :: "jvalue option \<Rightarrow> DurationUnit option option" where
  "valueUnit v =
     (case v of
        None \<Rightarrow> Some None
      | Some (VStr s) \<Rightarrow> (case unitOf s of None \<Rightarrow> None | Some u \<Rightarrow> Some (Some u))
      | _ \<Rightarrow> None)"

definition templateValues :: "jvalue option \<Rightarrow> form_values option" where
  "templateValues v =
     (if falsy v then Some noValues
      else case v of
        Some (VObj fs) \<Rightarrow>
          (let g = (\<lambda>k. getProperty (VObj fs) k) in
           case (valueText (g ''recipient''), valueText (g ''token''), valueText (g ''amount''), valueText (g ''duration''),
                 valueUnit (g ''durationUnit''), valueText (g ''descriptionTag'')) of
             (Some r, Some t, Some a, Some d, Some u, Some tag) \<Rightarrow>
               Some \<lparr>fv_recipient = r, fv_token = t, fv_amount = a, fv_duration = d, fv_durationUnit = u, fv_descriptionTag = tag\<rparr>
           | _ \<Rightarrow> None)
      | _ \<Rightarrow> None)"

definition descriptionText :: "jvalue option \<Rightarrow> string option" where
  "descriptionText v = (if falsy v then Some ''Saved custom template'' else case v of Some (VStr s) \<Rightarrow> Some s | _ \<Rightarrow> None)"

definition templateItem :: "jvalue \<Rightarrow> StreamTemplate stored" where
  "templateItem item =
     (case (getProperty item ''id'', getProperty item ''name'') of
        (Some (VStr i), Some (VStr n)) \<Rightarrow>
          (case (descriptionText (getProperty item ''description''), templateValues (getProperty item ''values'')) of
             (Some d, Some vs) \<Rightarrow> Stored \<lparr>tp_id = i, tp_name = n, tp_description = d, tp_values = vs, tp_builtIn = False\<rparr>
           | _ \<Rightarrow> Foreign)
      | _ \<Rightarrow> Nothing)"

fun templateItems :: "jvalue list \<Rightarrow> StreamTemplate list stored" where
  "templateItems [] = Stored []"
| "templateItems (v # vs) =
     (case (templateItem v, templateItems vs) of
        (Nothing, r) \<Rightarrow> r
      | (Stored t, Stored ts) \<Rightarrow> Stored (t # ts)
      | _ \<Rightarrow> Foreign)"

definition loadCustomTemplates :: "string option \<Rightarrow> StreamTemplate list stored" where
  "loadCustomTemplates item =
     (case item of
        None \<Rightarrow> Stored []
      | Some raw \<Rightarrow>
          if raw = [] then Stored []
          else (case JSON_parse raw of Some (VArr xs) \<Rightarrow> templateItems xs | _ \<Rightarrow> Stored []))"

definition valuesJson :: "form_values \<Rightarrow> json" where
  "valuesJson v =
     JObj (jopt ''recipient'' (map_option JStr (fv_recipient v)) @ jopt ''token'' (map_option JStr (fv_token v))
           @ jopt ''amount'' (map_option JStr (fv_amount v)) @ jopt ''duration'' (map_option JStr (fv_duration v))
           @ jopt ''durationUnit'' (map_option (\<lambda>u. JStr (unitText u)) (fv_durationUnit v))
           @ jopt ''descriptionTag'' (map_option JStr (fv_descriptionTag v)))"

definition templateJson :: "StreamTemplate \<Rightarrow> json" where
  "templateJson t =
     JObj ([(''id'', JStr (tp_id t)), (''name'', JStr (tp_name t)), (''description'', JStr (tp_description t)), (''values'', valuesJson (tp_values t))]
           @ (if tp_builtIn t then [(''builtIn'', JBool True)] else []))"

definition persistCustomTemplates :: "StreamTemplate list \<Rightarrow> string option" where
  "persistCustomTemplates items = Some (JSON_stringify (JArr (map templateJson items)))"

section \<open>The page\<close>

record form_options =
  op_initialData :: "form_values option"
  op_enableDraftPersistence :: bool

text \<open>
  The state of the hook with its two pending timers, the balance request that has not been cancelled,
  and the two storage entries. \<open>fp_balanceOf\<close> is not in the code: it remembers which wallet and token
  the balance on display was fetched for.
\<close>

record form_page =
  fp_form :: stream_form
  fp_errors :: "(string \<times> string) list"
  fp_balance :: "string option"
  fp_balanceLoading :: bool
  fp_balanceError :: "string option"
  fp_custom :: "StreamTemplate list"
  fp_selected :: "string option"
  fp_restored :: "DraftPayload option"
  fp_discarded :: bool
  fp_draftTimer :: bool
  fp_hydrateTimer :: bool
  fp_wallet :: "string option"
  fp_fetch :: "(string \<times> string) option"
  fp_balanceOf :: "(string \<times> string) option"
  fp_templates :: "string option"
  fp_draft :: "string option"

definition setValues :: "form_values \<Rightarrow> stream_form \<Rightarrow> stream_form" where
  "setValues v d =
     (let pick = (\<lambda>new old. case new of None \<Rightarrow> old | Some x \<Rightarrow> x) in
      d\<lparr>sf_recipient := pick (fv_recipient v) (sf_recipient d), sf_token := pick (fv_token v) (sf_token d),
        sf_amount := pick (fv_amount v) (sf_amount d), sf_duration := pick (fv_duration v) (sf_duration d),
        sf_durationUnit := (case fv_durationUnit v of None \<Rightarrow> sf_durationUnit d | Some u \<Rightarrow> u),
        sf_descriptionTag := (case fv_descriptionTag v of None \<Rightarrow> sf_descriptionTag d | Some t \<Rightarrow> Some t)\<rparr>)"

definition draftForm :: "DraftPayload \<Rightarrow> stream_form" where
  "draftForm dp =
     DEFAULT_FORM_DATA\<lparr>sf_recipient := dp_recipient dp, sf_token := dp_token dp, sf_amount := dp_amount dp, sf_duration := dp_duration dp,
       sf_durationUnit := (case dp_durationUnit dp of None \<Rightarrow> Days | Some u \<Rightarrow> u),
       sf_descriptionTag := (case dp_descriptionTag dp of None \<Rightarrow> Some [] | Some t \<Rightarrow> Some t)\<rparr>"

text \<open>The effect that fetches the balance, on mount and whenever the wallet or the token changes.\<close>

definition balanceEffect :: "form_page \<Rightarrow> form_page" where
  "balanceEffect p =
     (case fp_wallet p of
        Some w \<Rightarrow>
          if w = [] \<or> sf_token (fp_form p) = []
          then p\<lparr>fp_balance := None, fp_balanceError := None, fp_balanceLoading := False, fp_fetch := None\<rparr>
          else p\<lparr>fp_balanceLoading := True, fp_balanceError := None, fp_fetch := Some (w, sf_token (fp_form p))\<rparr>
      | None \<Rightarrow> p\<lparr>fp_balance := None, fp_balanceError := None, fp_balanceLoading := False, fp_fetch := None\<rparr>)"

text \<open>
  Opening the page runs the effects in their order: the balance, the draft's timer, the timer that will
  read the templates, and the effect that writes the templates of the fresh state.
\<close>

definition openForm :: "form_options \<Rightarrow> string option \<Rightarrow> string option \<Rightarrow> string option \<Rightarrow> form_page option" where
  "openForm opts wallet templates draft =
     (let page = (\<lambda>data restored.
            balanceEffect \<lparr>fp_form = data, fp_errors = [], fp_balance = None, fp_balanceLoading = False, fp_balanceError = None,
              fp_custom = [], fp_selected = None, fp_restored = restored, fp_discarded = False,
              fp_draftTimer = op_enableDraftPersistence opts, fp_hydrateTimer = True, fp_wallet = wallet, fp_fetch = None,
              fp_balanceOf = None, fp_templates = persistCustomTemplates [], fp_draft = draft\<rparr>);
          fresh = (case op_initialData opts of None \<Rightarrow> DEFAULT_FORM_DATA | Some v \<Rightarrow> setValues v DEFAULT_FORM_DATA)
      in case (if op_enableDraftPersistence opts then loadDraft draft else Nothing) of
           Nothing \<Rightarrow> Some (page fresh None)
         | Stored dp \<Rightarrow> Some (page (draftForm dp) (Some dp))
         | Foreign \<Rightarrow> None)"



definition allTemplates :: "form_page \<Rightarrow> StreamTemplate list" where
  "allTemplates p = BUILT_IN_TEMPLATES @ fp_custom p"

text \<open>A new form re-arms the timer of the draft, and a new token fetches the balance again.\<close>

definition setFormData :: "form_options \<Rightarrow> stream_form \<Rightarrow> form_page \<Rightarrow> form_page" where
  "setFormData opts data p =
     (let p1 = p\<lparr>fp_form := data, fp_draftTimer := op_enableDraftPersistence opts\<rparr>
      in if sf_token data = sf_token (fp_form p) then p1 else balanceEffect p1)"

definition setCustomTemplates :: "StreamTemplate list \<Rightarrow> form_page \<Rightarrow> form_page" where
  "setCustomTemplates ts p = p\<lparr>fp_custom := ts, fp_templates := persistCustomTemplates ts\<rparr>"

definition updatedKeys :: "form_values \<Rightarrow> string list" where
  "updatedKeys v =
     (if fv_recipient v = None then [] else [''recipient'']) @ (if fv_token v = None then [] else [''token''])
     @ (if fv_amount v = None then [] else [''amount'']) @ (if fv_duration v = None then [] else [''duration''])
     @ (if fv_durationUnit v = None then [] else [''durationUnit'']) @ (if fv_descriptionTag v = None then [] else [''descriptionTag''])"

definition updateFormData :: "form_options \<Rightarrow> form_values \<Rightarrow> form_page \<Rightarrow> form_page" where
  "updateFormData opts updates p =
     (setFormData opts (setValues updates (fp_form p)) p)\<lparr>fp_errors := filter (\<lambda>(k, e). k \<notin> set (updatedKeys updates)) (fp_errors p)\<rparr>"

definition resetForm :: "form_options \<Rightarrow> form_page \<Rightarrow> form_page" where
  "resetForm opts p =
     (setFormData opts DEFAULT_FORM_DATA p)\<lparr>fp_errors := [], fp_selected := None,
       fp_draft := (if op_enableDraftPersistence opts then None else fp_draft p)\<rparr>"

definition validateForm :: "nat option \<Rightarrow> form_page \<Rightarrow> bool \<times> form_page" where
  "validateForm step p =
     (let newErrors = validateStreamForm (StreamFormData.truncate (fp_form p)) step (fp_balance p)
      in (newErrors = [], p\<lparr>fp_errors := newErrors\<rparr>))"

definition validateStep :: "nat \<Rightarrow> form_page \<Rightarrow> bool \<times> form_page" where
  "validateStep step p = validateForm (Some step) p"

definition validateAll :: "form_page \<Rightarrow> bool \<times> form_page" where
  "validateAll p = validateForm None p"

definition setMaxAmount :: "form_options \<Rightarrow> form_page \<Rightarrow> form_page" where
  "setMaxAmount opts p =
     (case fp_balance p of
        None \<Rightarrow> p
      | Some b \<Rightarrow> if b = [] then p else updateFormData opts (noValues\<lparr>fv_amount := Some b\<rparr>) p)"

definition applyTemplate :: "form_options \<Rightarrow> string \<Rightarrow> form_page \<Rightarrow> string option \<times> form_page" where
  "applyTemplate opts templateId p =
     (case find (\<lambda>t. tp_id t = templateId) (allTemplates p) of
        None \<Rightarrow> (None, p)
      | Some t \<Rightarrow>
          (let v = tp_values t; d = fp_form p;
               orForm = (\<lambda>new old. Some (case new of None \<Rightarrow> old | Some x \<Rightarrow> x))
           in (Some (''Applied template '' @ [CHR 0x22] @ tp_name t @ [CHR 0x22] @ ''. You can still edit every field.''),
               updateFormData opts
                 \<lparr>fv_recipient = None, fv_token = orForm (fv_token v) (sf_token d), fv_amount = orForm (fv_amount v) (sf_amount d),
                  fv_duration = orForm (fv_duration v) (sf_duration d),
                  fv_durationUnit = Some (case fv_durationUnit v of None \<Rightarrow> sf_durationUnit d | Some u \<Rightarrow> u),
                  fv_descriptionTag = (case fv_descriptionTag v of None \<Rightarrow> sf_descriptionTag d | Some tag \<Rightarrow> Some tag)\<rparr>
                 (p\<lparr>fp_selected := Some templateId\<rparr>))))"

definition saveCustomTemplate :: "string \<Rightarrow> int \<Rightarrow> form_page \<Rightarrow> string option \<times> form_page" where
  "saveCustomTemplate templateName now p =
     (let cleanedName = trim templateName; d = fp_form p;
          tag = (case sf_descriptionTag d of None \<Rightarrow> [] | Some t \<Rightarrow> t) in
      if cleanedName = [] then (Some ''Enter a template name first.'', p)
      else if sf_amount d = [] \<or> sf_duration d = [] \<or> sf_token d = []
      then (Some ''Set amount, duration, and token before saving a custom template.'', p)
      else let newTemplate =
             \<lparr>tp_id = ''custom-'' @ toString now, tp_name = cleanedName,
              tp_description = (if tag = [] then ''Saved custom template'' else ''Tag: '' @ tag),
              tp_values = noValues\<lparr>fv_token := Some (sf_token d), fv_amount := Some (sf_amount d), fv_duration := Some (sf_duration d),
                fv_durationUnit := Some (sf_durationUnit d), fv_descriptionTag := Some (if tag = [] then ''custom'' else tag)\<rparr>,
              tp_builtIn = False\<rparr>
           in (None, (setCustomTemplates (newTemplate # fp_custom p) p)\<lparr>fp_selected := Some (tp_id newTemplate)\<rparr>))"

definition deleteCustomTemplate :: "string \<Rightarrow> form_page \<Rightarrow> form_page" where
  "deleteCustomTemplate templateId p =
     (setCustomTemplates (filter (\<lambda>t. tp_id t \<noteq> templateId) (fp_custom p)) p)
       \<lparr>fp_selected := (if fp_selected p = Some templateId then None else fp_selected p)\<rparr>"

definition discardDraft :: "form_options \<Rightarrow> form_page \<Rightarrow> form_page" where
  "discardDraft opts p = (setFormData opts DEFAULT_FORM_DATA p)\<lparr>fp_draft := None, fp_discarded := True\<rparr>"

section \<open>Timers and answers\<close>

definition hydrateTemplates :: "form_page \<Rightarrow> form_page" where
  "hydrateTemplates p =
     (if \<not> fp_hydrateTimer p then p
      else let p1 = p\<lparr>fp_hydrateTimer := False\<rparr>
           in case loadCustomTemplates (fp_templates p) of Stored ts \<Rightarrow> setCustomTemplates ts p1 | _ \<Rightarrow> p1)"

definition draftTimer :: "int \<Rightarrow> form_page \<Rightarrow> form_page" where
  "draftTimer now p =
     (if fp_draftTimer p then p\<lparr>fp_draftTimer := False, fp_draft := saveDraft now (fp_form p) (fp_draft p)\<rparr> else p)"

definition balanceAnswer :: "string option \<Rightarrow> form_page \<Rightarrow> form_page" where
  "balanceAnswer reply p =
     (case fp_fetch p of
        None \<Rightarrow> p
      | Some k \<Rightarrow>
          (case reply of
             Some b \<Rightarrow> p\<lparr>fp_balance := Some b, fp_balanceOf := Some k, fp_balanceLoading := False, fp_fetch := None\<rparr>
           | None \<Rightarrow> p\<lparr>fp_balance := None, fp_balanceError := Some ''Unable to fetch wallet balance right now.'',
                       fp_balanceLoading := False, fp_fetch := None\<rparr>))"

definition walletChanges :: "string option \<Rightarrow> form_page \<Rightarrow> form_page" where
  "walletChanges wallet p = (if wallet = fp_wallet p then p else balanceEffect (p\<lparr>fp_wallet := wallet\<rparr>))"

datatype form_event =
    HydrateTimer
  | DraftTimer int
  | Update form_values
  | ResetForm
  | ValidateStep nat
  | ValidateAll
  | SetMax
  | ApplyTemplate string
  | SaveTemplate string int
  | DeleteTemplate string
  | Discard
  | BalanceAnswer "string option"
  | WalletChanges "string option"

fun formStep :: "form_options \<Rightarrow> form_event \<Rightarrow> form_page \<Rightarrow> form_page" where
  "formStep opts HydrateTimer p = hydrateTemplates p"
| "formStep opts (DraftTimer now) p = draftTimer now p"
| "formStep opts (Update v) p = updateFormData opts v p"
| "formStep opts ResetForm p = resetForm opts p"
| "formStep opts (ValidateStep n) p = snd (validateStep n p)"
| "formStep opts ValidateAll p = snd (validateAll p)"
| "formStep opts SetMax p = setMaxAmount opts p"
| "formStep opts (ApplyTemplate i) p = snd (applyTemplate opts i p)"
| "formStep opts (SaveTemplate n now) p = snd (saveCustomTemplate n now p)"
| "formStep opts (DeleteTemplate i) p = deleteCustomTemplate i p"
| "formStep opts Discard p = discardDraft opts p"
| "formStep opts (BalanceAnswer a) p = balanceAnswer a p"
| "formStep opts (WalletChanges w) p = walletChanges w p"

section \<open>Reading back\<close>

lemma values_read: "templateValues (Some (ofJson (valuesJson v))) = Some v"
proof (cases v)
  case (fields r t a d u g)
  show ?thesis
    unfolding fields valuesJson_def templateValues_def
    by (cases r; cases t; cases a; cases d; cases u; cases g; simp add: jopt_def valueText_def valueUnit_def Let_def)
qed

definition plainTemplate :: "StreamTemplate \<Rightarrow> bool" where
  "plainTemplate t = (\<not> tp_builtIn t \<and> tp_description t \<noteq> [])"

lemma item_read: "plainTemplate t \<Longrightarrow> templateItem (ofJson (templateJson t)) = Stored t"
  using values_read [of "tp_values t"]
  by (cases t) (simp add: templateItem_def templateJson_def plainTemplate_def descriptionText_def)

lemma items_read: "list_all plainTemplate ts \<Longrightarrow> templateItems (map (\<lambda>t. ofJson (templateJson t)) ts) = Stored ts"
  by (induction ts) (simp_all add: item_read)

lemma values_safe: "json_safe (valuesJson v)"
  by (simp add: valuesJson_def jopt_def split: option.split)

lemma templates_safe: "json_safe (JArr (map templateJson ts))"
  by (simp add: templateJson_def values_safe list_all_iff)

lemma templates_read:
  assumes "list_all plainTemplate ts"
  shows "loadCustomTemplates (persistCustomTemplates ts) = Stored ts"
proof -
  have "JSON_parse (JSON_stringify (JArr (map templateJson ts))) = Some (VArr (map (\<lambda>t. ofJson (templateJson t)) ts))"
    using parse_stringify [OF templates_safe] by (simp add: comp_def)
  then show ?thesis
    using items_read [OF assms] by (simp add: loadCustomTemplates_def persistCustomTemplates_def)
qed

text \<open>The tag is the one field a draft fills in when it is missing.\<close>

definition restored :: "stream_form \<Rightarrow> stream_form" where
  "restored d = d\<lparr>sf_descriptionTag := (case sf_descriptionTag d of None \<Rightarrow> Some [] | Some t \<Rightarrow> Some t)\<rparr>"


section \<open>What every page keeps\<close>

definition templatesOk :: "form_page \<Rightarrow> bool" where
  "templatesOk p =
     (fp_templates p = persistCustomTemplates (fp_custom p) \<and> list_all plainTemplate (fp_custom p) \<and>
      (\<forall>i. fp_selected p = Some i \<longrightarrow> i \<in> tp_id ` set (allTemplates p)))"

definition settledBalance :: "form_page \<Rightarrow> bool" where
  "settledBalance p =
     (if fp_balanceLoading p then fp_wallet p \<noteq> None \<and> fp_fetch p = map_option (\<lambda>w. (w, sf_token (fp_form p))) (fp_wallet p)
      else fp_fetch p = None \<and>
           (fp_balance p \<noteq> None \<longrightarrow> fp_wallet p \<noteq> None \<and> fp_balanceOf p = map_option (\<lambda>w. (w, sf_token (fp_form p))) (fp_wallet p)))"

lemma effect_frame:
  "fp_templates (balanceEffect p) = fp_templates p" "fp_custom (balanceEffect p) = fp_custom p" "fp_selected (balanceEffect p) = fp_selected p"
  "fp_form (balanceEffect p) = fp_form p" "fp_wallet (balanceEffect p) = fp_wallet p" "fp_draft (balanceEffect p) = fp_draft p"
  "fp_hydrateTimer (balanceEffect p) = fp_hydrateTimer p" "fp_draftTimer (balanceEffect p) = fp_draftTimer p"
  "fp_restored (balanceEffect p) = fp_restored p" "fp_discarded (balanceEffect p) = fp_discarded p"
  by (simp_all add: balanceEffect_def split: option.split)

lemma effect_settles: "settledBalance (balanceEffect p)"
  by (auto simp: balanceEffect_def settledBalance_def split: option.split)

lemma set_frame:
  "fp_templates (setFormData opts d p) = fp_templates p" "fp_custom (setFormData opts d p) = fp_custom p"
  "fp_selected (setFormData opts d p) = fp_selected p" "fp_form (setFormData opts d p) = d"
  by (simp_all add: setFormData_def effect_frame Let_def)

lemma set_settles: "settledBalance p \<Longrightarrow> settledBalance (setFormData opts d p)"
proof (cases "sf_token d = sf_token (fp_form p)")
  case True
  then show "settledBalance p \<Longrightarrow> ?thesis" by (auto simp: setFormData_def settledBalance_def Let_def split: if_splits)
next
  case False
  then show ?thesis by (simp add: setFormData_def effect_settles Let_def)
qed

lemma settled_frame:
  "settledBalance (p\<lparr>fp_errors := e\<rparr>) = settledBalance p" "settledBalance (p\<lparr>fp_selected := sel\<rparr>) = settledBalance p"
  "settledBalance (p\<lparr>fp_custom := ts\<rparr>) = settledBalance p" "settledBalance (p\<lparr>fp_templates := tx\<rparr>) = settledBalance p"
  "settledBalance (p\<lparr>fp_draft := dr\<rparr>) = settledBalance p" "settledBalance (p\<lparr>fp_discarded := b\<rparr>) = settledBalance p"
  "settledBalance (p\<lparr>fp_draftTimer := b\<rparr>) = settledBalance p" "settledBalance (p\<lparr>fp_hydrateTimer := b\<rparr>) = settledBalance p"
  by (simp_all add: settledBalance_def)

lemma step_settles: "settledBalance p \<Longrightarrow> settledBalance (formStep opts e p)"
proof (cases e)
  case (BalanceAnswer a)
  then show "settledBalance p \<Longrightarrow> ?thesis"
    by (auto simp: balanceAnswer_def settledBalance_def split: option.split if_splits)
next
  case (WalletChanges w)
  then show "settledBalance p \<Longrightarrow> ?thesis" by (simp add: walletChanges_def effect_settles)
qed (simp_all add: hydrateTemplates_def draftTimer_def updateFormData_def resetForm_def validateStep_def validateAll_def validateForm_def
      setMaxAmount_def applyTemplate_def saveCustomTemplate_def deleteCustomTemplate_def discardDraft_def setCustomTemplates_def
      settled_frame set_settles Let_def split: stored.split option.split)

lemma templates_frame:
  "templatesOk (p\<lparr>fp_errors := e\<rparr>) = templatesOk p" "templatesOk (p\<lparr>fp_draft := dr\<rparr>) = templatesOk p"
  "templatesOk (p\<lparr>fp_discarded := b\<rparr>) = templatesOk p" "templatesOk (p\<lparr>fp_draftTimer := b\<rparr>) = templatesOk p"
  "templatesOk (p\<lparr>fp_wallet := w\<rparr>) = templatesOk p"
  "templatesOk (balanceEffect p) = templatesOk p" "templatesOk (setFormData opts d p) = templatesOk p"
  by (simp_all add: templatesOk_def allTemplates_def effect_frame set_frame cong: option.case_cong)

lemma find_selected: "find (\<lambda>t. tp_id t = i) ts = Some t \<Longrightarrow> i \<in> tp_id ` set ts"
  by (auto simp: find_Some_iff)

lemma set_selected: "templatesOk p \<Longrightarrow> i \<in> tp_id ` set (allTemplates p) \<Longrightarrow> templatesOk (p\<lparr>fp_selected := Some i\<rparr>)"
  by (simp add: templatesOk_def allTemplates_def)

lemma hydrate_same: "templatesOk p \<Longrightarrow> templatesOk (hydrateTemplates p)"
  using templates_read [of "fp_custom p"]
  by (simp add: templatesOk_def hydrateTemplates_def setCustomTemplates_def allTemplates_def Let_def split: option.split)

lemma save_templates: "templatesOk p \<Longrightarrow> templatesOk (snd (saveCustomTemplate n now p))"
  by (simp add: templatesOk_def saveCustomTemplate_def setCustomTemplates_def allTemplates_def plainTemplate_def Let_def split: option.split)

lemma delete_templates: "templatesOk p \<Longrightarrow> templatesOk (deleteCustomTemplate i p)"
  by (auto simp: templatesOk_def deleteCustomTemplate_def setCustomTemplates_def allTemplates_def list_all_iff split: option.split)

lemma reset_templates: "templatesOk p \<Longrightarrow> templatesOk (resetForm opts p)"
  by (simp add: templatesOk_def resetForm_def allTemplates_def set_frame)

lemma step_templates: "templatesOk p \<Longrightarrow> templatesOk (formStep opts e p)"
proof (cases e)
  case (ApplyTemplate i)
  assume "templatesOk p"
  then show ?thesis
    by (simp add: ApplyTemplate applyTemplate_def updateFormData_def templates_frame Let_def set_selected find_selected split: option.split)
next
  case (BalanceAnswer a)
  then show "templatesOk p \<Longrightarrow> ?thesis" by (simp add: balanceAnswer_def templatesOk_def allTemplates_def split: option.split)
qed (simp_all add: hydrate_same save_templates delete_templates reset_templates draftTimer_def updateFormData_def validateStep_def
      validateAll_def validateForm_def setMaxAmount_def discardDraft_def walletChanges_def templates_frame Let_def split: option.split)

interpretation form_page: event_machine "formStep opts" "\<lambda>p. templatesOk p \<and> settledBalance p" "\<lambda>_. True" for opts
  by unfold_locales (simp add: step_templates step_settles)

lemma opened_ok: "openForm opts w t d = Some p \<Longrightarrow> templatesOk p \<and> settledBalance p"
  by (auto simp: openForm_def Let_def templates_frame effect_settles templatesOk_def allTemplates_def effect_frame
      split: stored.splits if_splits option.splits)

section \<open>Drafts and templates across visits\<close>


definition exampleOptions :: form_options where
  "exampleOptions = \<lparr>op_initialData = None, op_enableDraftPersistence = True\<rparr>"




text \<open>Whatever templates were saved on an earlier visit, opening the page replaces the stored list by the
  empty one before it is read, so after the page has read it there are only the built-in templates.
\<close>
theorem saved_templates_lost:
  assumes "openForm opts w stored d = Some p"
  shows "fp_templates p = Some ''[]'' \<and> allTemplates (formStep opts HydrateTimer p) = BUILT_IN_TEMPLATES \<and>
    fp_templates (formStep opts HydrateTimer p) = Some ''[]''"
proof -
  have empty: "persistCustomTemplates [] = Some ''[]''" by (simp add: persistCustomTemplates_def)
  have p: "fp_templates p = persistCustomTemplates []" "fp_custom p = []"
    using assms by (auto simp: openForm_def Let_def effect_frame split: stored.splits if_splits option.splits)
  have "loadCustomTemplates (fp_templates p) = Stored []" unfolding p by (rule templates_read) simp
  with p empty show ?thesis by (simp add: hydrateTemplates_def setCustomTemplates_def allTemplates_def)
qed

definition savedTemplate :: StreamTemplate where
  "savedTemplate = \<lparr>tp_id = ''custom-1'', tp_name = ''Rent'', tp_description = ''Tag: rent'', tp_values = noValues, tp_builtIn = False\<rparr>"

theorem saved_templates_lost_witness:
  "loadCustomTemplates (persistCustomTemplates [savedTemplate]) = Stored [savedTemplate] \<and>
   (\<exists>p. openForm exampleOptions None (persistCustomTemplates [savedTemplate]) None = Some p \<and>
      allTemplates (formStep exampleOptions HydrateTimer p) = BUILT_IN_TEMPLATES)"
proof -
  have "loadCustomTemplates (persistCustomTemplates [savedTemplate]) = Stored [savedTemplate]"
    by (rule templates_read) (simp add: savedTemplate_def plainTemplate_def)
  moreover obtain p where "openForm exampleOptions None (persistCustomTemplates [savedTemplate]) None = Some p"
    by (simp add: openForm_def loadDraft_def exampleOptions_def)
  ultimately show ?thesis using saved_templates_lost by blast
qed

text \<open>
  In every run of the page the stored templates are those on display, the selected template is one of
  them, and a balance on display that is not being refreshed was fetched for the connected wallet and
  the chosen token.
\<close>
theorem form_page_consistent:
  assumes "openForm opts w stored d = Some p"
  shows "let q = fold (formStep opts) es p in
    loadCustomTemplates (fp_templates q) = Stored (fp_custom q) \<and>
    (\<forall>i. fp_selected q = Some i \<longrightarrow> i \<in> tp_id ` set (allTemplates q)) \<and>
    (\<not> fp_balanceLoading q \<and> fp_balance q \<noteq> None \<longrightarrow> fp_balanceOf q = map_option (\<lambda>w. (w, sf_token (fp_form q))) (fp_wallet q))"
proof -
  have "templatesOk (fold (formStep opts) es p) \<and> settledBalance (fold (formStep opts) es p)"
    using form_page.run_keeps [of p es opts] opened_ok [OF assms] by (simp add: list_all_iff)
  then show ?thesis using templates_read by (auto simp: templatesOk_def settledBalance_def Let_def)
qed

theorem form_page_consistent_witness:
  "\<exists>p. openForm exampleOptions (Some ''GA'') None None = Some p \<and>
     (let q = fold (formStep exampleOptions) [ApplyTemplate ''one-time-grant'', BalanceAnswer (Some ''7'')] p in
      fp_selected q = Some ''one-time-grant'' \<and> fp_balance q = Some ''7'' \<and> fp_balanceOf q = Some (''GA'', ''USDC'') \<and>
      loadCustomTemplates (fp_templates q) = Stored (fp_custom q))"
proof -
  obtain p where p: "openForm exampleOptions (Some ''GA'') None None = Some p"
    by (simp add: openForm_def loadDraft_def exampleOptions_def)
  let ?q = "fold (formStep exampleOptions) [ApplyTemplate ''one-time-grant'', BalanceAnswer (Some ''7'')] p"
  have "fp_selected ?q = Some ''one-time-grant'' \<and> fp_balance ?q = Some ''7'' \<and> \<not> fp_balanceLoading ?q \<and> fp_wallet ?q = Some ''GA'' \<and>
      sf_token (fp_form ?q) = ''USDC''"
    using p by (auto simp: openForm_def loadDraft_def exampleOptions_def Let_def balanceEffect_def DEFAULT_FORM_DATA_def applyTemplate_def
        allTemplates_def BUILT_IN_TEMPLATES_def builtIn_def noValues_def updateFormData_def setFormData_def setValues_def balanceAnswer_def)
  then show ?thesis
    using p form_page_consistent [OF p, of "[ApplyTemplate ''one-time-grant'', BalanceAnswer (Some ''7'')]"] by (auto simp: Let_def)
qed

text \<open>The amount is taken from the balance of the token chosen before, as long as the new one is being fetched.\<close>

lemma max_amount_of_other_token:
  assumes "fp_balance p = Some b" "b \<noteq> []" "t \<noteq> sf_token (fp_form p)"
  shows "sf_amount (fp_form (setMaxAmount opts (updateFormData opts (noValues\<lparr>fv_token := Some t\<rparr>) p))) = b \<and>
         sf_token (fp_form (setMaxAmount opts (updateFormData opts (noValues\<lparr>fv_token := Some t\<rparr>) p))) = t \<or> fp_wallet p \<in> {None, Some []} \<or> t = []"
  using assms by (auto simp: setMaxAmount_def updateFormData_def setFormData_def balanceEffect_def setValues_def noValues_def Let_def split: option.split)

text \<open>Emptying the recipient and the amount keeps the old draft, which the next visit brings back.\<close>

lemma emptied_form_keeps_draft:
  "trim (sf_recipient (fp_form p)) = [] \<Longrightarrow> trim (sf_amount (fp_form p)) = [] \<Longrightarrow> fp_draft (draftTimer now p) = fp_draft p"
  by (simp add: draftTimer_def saveDraft_def)

end
