(* ===== verification/Sse_Client.thy ===== *)
theory Sse_Client
  imports Event_Run Json_Text Auth Sse_Subscribe "HOL-Library.List_Lexorder" "HOL-Library.Char_ord"
begin

text \<open>
  The client of the event stream (\<open>frontend/src/hooks/useStreamEvents.ts\<close>): its subscription, the
  events it keeps, and how it reconnects, composed with the endpoint of the backend. The browser's
  \<open>EventSource\<close> reports that it opened, an event, or an error, after which the hook closes it; it sends
  no \<open>Authorization\<close> header. The rendering of the page is left out.
\<close>

section \<open>The subscription\<close>

record StreamEvent =
  se_type :: string
  se_data :: jvalue
  se_timestamp :: int

record sse_options =
  so_streamIds :: "string list"
  so_userPublicKeys :: "string list"
  so_subscribeToAll :: bool
  so_autoReconnect :: bool
  so_maxRetryDelay :: int
  so_jwtToken :: "string option"

definition MAX_RECONNECT_ATTEMPTS :: nat where
  "MAX_RECONNECT_ATTEMPTS = 20"

definition tokenText :: "sse_options \<Rightarrow> string" where
  "tokenText opts = (case so_jwtToken opts of None \<Rightarrow> [] | Some t \<Rightarrow> t)"

definition subscriptionKey :: "sse_options \<Rightarrow> string" where
  "subscriptionKey opts =
     (if so_subscribeToAll opts then ''all'' else join '','' (sort (so_streamIds opts))) @ ''|'' @ tokenText opts"

text \<open>The parameters of the URL, in their order.\<close>

definition buildParams :: "sse_options \<Rightarrow> (string \<times> string) list" where
  "buildParams opts =
     (if so_subscribeToAll opts then [(''all'', ''true'')] else map (Pair ''streams'') (so_streamIds opts))
     @ (if tokenText opts = [] then [] else [(''token'', tokenText opts)])"

section \<open>The hook\<close>

datatype source_state = NoSource | SourceOpening | SourceOpen

text \<open>\<open>hk_connects\<close> is not in the code: it counts the connections the hook has opened.\<close>

record sse_hook =
  hk_options :: sse_options
  hk_events :: "StreamEvent list"
  hk_connected :: bool
  hk_error :: "string option"
  hk_reconnecting :: bool
  hk_source :: source_state
  hk_retryDelay :: int
  hk_timer :: "int option"
  hk_attempts :: nat
  hk_mounted :: bool
  hk_connects :: nat

definition connectHook :: "sse_hook \<Rightarrow> sse_hook" where
  "connectHook h = h\<lparr>hk_timer := None, hk_source := SourceOpening, hk_connects := Suc (hk_connects h)\<rparr>"

definition mountHook :: "sse_options \<Rightarrow> sse_hook" where
  "mountHook opts =
     connectHook \<lparr>hk_options = opts, hk_events = [], hk_connected = False, hk_error = None, hk_reconnecting = False, hk_source = NoSource,
       hk_retryDelay = 1000, hk_timer = None, hk_attempts = 0, hk_mounted = True, hk_connects = 0\<rparr>"

definition onOpen :: "sse_hook \<Rightarrow> sse_hook" where
  "onOpen h =
     (if hk_source h = SourceOpening
      then h\<lparr>hk_source := SourceOpen, hk_connected := True, hk_reconnecting := False, hk_error := None, hk_retryDelay := 1000, hk_attempts := 0\<rparr>
      else h)"

definition LISTENERS :: "(string \<times> string) list" where
  "LISTENERS =
     [(''stream.created'', ''created''), (''stream.topped_up'', ''topped_up''), (''stream.withdrawn'', ''withdrawn''),
      (''stream.cancelled'', ''cancelled''), (''stream.completed'', ''completed''), (''stream.paused'', ''paused''), (''stream.resumed'', ''resumed'')]"

definition handleEvent :: "string \<Rightarrow> string \<Rightarrow> int \<Rightarrow> sse_hook \<Rightarrow> sse_hook" where
  "handleEvent ty text now h =
     (case JSON_parse text of
        None \<Rightarrow> h
      | Some d \<Rightarrow> h\<lparr>hk_events := \<lparr>se_type = ty, se_data = d, se_timestamp = now\<rparr> # take 99 (hk_events h)\<rparr>)"

definition onMessage :: "string \<Rightarrow> string \<Rightarrow> int \<Rightarrow> sse_hook \<Rightarrow> sse_hook" where
  "onMessage event text now h =
     (if hk_source h \<noteq> SourceOpen then h
      else case map_of LISTENERS event of None \<Rightarrow> h | Some ty \<Rightarrow> handleEvent ty text now h)"

definition onError :: "sse_hook \<Rightarrow> sse_hook" where
  "onError h =
     (if hk_source h = NoSource then h
      else let h1 = h\<lparr>hk_connected := False, hk_error := Some ''SSE connection failed'', hk_source := NoSource\<rparr> in
      if \<not> so_autoReconnect (hk_options h) then h1
      else let h2 = h1\<lparr>hk_reconnecting := True, hk_timer := None, hk_attempts := Suc (hk_attempts h)\<rparr>; m = so_maxRetryDelay (hk_options h) in
      if hk_attempts h2 \<le> MAX_RECONNECT_ATTEMPTS
      then h2\<lparr>hk_timer := Some (min (hk_retryDelay h) m), hk_retryDelay := min (hk_retryDelay h * 2) m\<rparr>
      else h2)"

definition timerFires :: "sse_hook \<Rightarrow> sse_hook" where
  "timerFires h = (if hk_timer h = None then h else connectHook h)"

definition clearEvents :: "sse_hook \<Rightarrow> sse_hook" where
  "clearEvents h = h\<lparr>hk_events := []\<rparr>"

definition cleanupHook :: "sse_hook \<Rightarrow> sse_hook" where
  "cleanupHook h = h\<lparr>hk_source := NoSource, hk_timer := None\<rparr>"

text \<open>New options start the effect again only when they change what \<open>connect\<close> depends on.\<close>

definition optionsChange :: "sse_options \<Rightarrow> sse_hook \<Rightarrow> sse_hook" where
  "optionsChange opts h =
     (let old = hk_options h in
      if \<not> hk_mounted h \<or>
         (subscriptionKey opts = subscriptionKey old \<and> so_autoReconnect opts = so_autoReconnect old \<and> so_maxRetryDelay opts = so_maxRetryDelay old)
      then h
      else connectHook ((cleanupHook h)\<lparr>hk_options := opts\<rparr>))"

definition unmountHook :: "sse_hook \<Rightarrow> sse_hook" where
  "unmountHook h = (cleanupHook h)\<lparr>hk_mounted := False\<rparr>"

datatype hook_event =
    Opened
  | Message string string int
  | Failed
  | TimerFires
  | ClearEvents
  | OptionsChange sse_options
  | Unmount

fun hookStep :: "hook_event \<Rightarrow> sse_hook \<Rightarrow> sse_hook" where
  "hookStep Opened h = onOpen h"
| "hookStep (Message event text now) h = onMessage event text now h"
| "hookStep Failed h = onError h"
| "hookStep TimerFires h = timerFires h"
| "hookStep ClearEvents h = clearEvents h"
| "hookStep (OptionsChange opts) h = optionsChange opts h"
| "hookStep Unmount h = unmountHook h"

lemmas hook_defs = onOpen_def onMessage_def handleEvent_def onError_def timerFires_def clearEvents_def cleanupHook_def optionsChange_def
  unmountHook_def connectHook_def Let_def

section \<open>What every run keeps\<close>

definition hookOk :: "sse_hook \<Rightarrow> bool" where
  "hookOk h =
     (length (hk_events h) \<le> 100 \<and>
      (\<forall>d. hk_timer h = Some d \<longrightarrow> hk_source h = NoSource \<and> d \<le> so_maxRetryDelay (hk_options h) \<and> 0 < hk_attempts h \<and> hk_mounted h \<and>
         so_autoReconnect (hk_options h)) \<and>
      (hk_source h = SourceOpen \<longrightarrow> hk_connected h) \<and>
      (\<not> hk_mounted h \<longrightarrow> hk_source h = NoSource))"

lemma step_ok: "hookOk h \<Longrightarrow> hookOk (hookStep e h)"
  by (cases e) (auto simp: hookOk_def hook_defs split: option.splits)

interpretation hook: event_machine hookStep hookOk "\<lambda>_. True"
  by unfold_locales (rule step_ok)

fun connectCost :: "hook_event \<Rightarrow> nat" where
  "connectCost Opened = MAX_RECONNECT_ATTEMPTS"
| "connectCost (OptionsChange _) = 1"
| "connectCost _ = 0"

text \<open>The connections so far, the pending one, and the retries that are left.\<close>

definition potential :: "sse_hook \<Rightarrow> nat" where
  "potential h = hk_connects h + (if hk_timer h = None then 0 else 1) + (MAX_RECONNECT_ATTEMPTS - hk_attempts h)"

interpretation hook: event_counter hookStep potential connectCost
proof
  fix e h
  show "potential (hookStep e h) \<le> potential h + connectCost e"
    by (cases e) (auto simp: potential_def hook_defs split: option.splits)
qed

lemma mount_facts: "hookOk (mountHook opts)" "potential (mountHook opts) = 21"
  by (simp_all add: hookOk_def potential_def mountHook_def connectHook_def MAX_RECONNECT_ATTEMPTS_def)

text \<open>C25. In every run the hook keeps at most 100 events, never waits for a reconnection while it has a
  connection, never waits longer than the configured delay, and opens at most 21 connections, plus
  20 for each time one opened and one for each change of the subscription.
\<close>
theorem reconnections_bounded:
  "let h = fold hookStep es (mountHook opts) in
     length (hk_events h) \<le> 100 \<and>
     (\<forall>d. hk_timer h = Some d \<longrightarrow> hk_source h = NoSource \<and> d \<le> so_maxRetryDelay (hk_options h)) \<and>
     hk_connects h \<le> 21 + sum_list (map connectCost es)"
proof -
  have "hookOk (fold hookStep es (mountHook opts))" by (rule hook.run_keeps [OF mount_facts(1)]) (simp add: list_all_iff)
  moreover have "potential (fold hookStep es (mountHook opts)) \<le> 21 + sum_list (map connectCost es)"
    using hook.run_counts [of es "mountHook opts"] by (simp add: mount_facts)
  ultimately show ?thesis by (auto simp: hookOk_def potential_def Let_def)
qed

section \<open>Backing off and giving up\<close>

definition failedTries :: "nat \<Rightarrow> hook_event list" where
  "failedTries n = concat (replicate n [Failed, TimerFires])"

lemma failedTries_Suc: "failedTries (Suc n) = failedTries n @ [Failed, TimerFires]"
  by (simp add: failedTries_def flip: replicate_append_same)

definition retrying :: "nat \<Rightarrow> sse_options \<Rightarrow> sse_hook \<Rightarrow> bool" where
  "retrying n opts h =
     (hk_options h = opts \<and> hk_source h = SourceOpening \<and> hk_timer h = None \<and> hk_attempts h = n \<and> hk_mounted h \<and> \<not> hk_connected h \<and>
      hk_connects h = Suc n \<and> min (hk_retryDelay h) (so_maxRetryDelay opts) = min (1000 * 2 ^ n) (so_maxRetryDelay opts))"

lemma doubled_cap: "0 \<le> m \<Longrightarrow> min r m = min x m \<Longrightarrow> min (min (r * 2) m) m = min (2 * x) (m :: int)"
  by (auto simp: min_def split: if_splits)

lemma retrying_tries:
  assumes "so_autoReconnect opts" "0 \<le> so_maxRetryDelay opts"
  shows "n \<le> 20 \<Longrightarrow> retrying n opts (fold hookStep (failedTries n) (mountHook opts))"
proof (induction n)
  case 0
  show ?case by (simp add: retrying_def failedTries_def mountHook_def connectHook_def)
next
  case (Suc n)
  then have r: "retrying n opts (fold hookStep (failedTries n) (mountHook opts))" by simp
  have "2 * (1000 * 2 ^ n) = (1000 * 2 ^ Suc n :: int)" by simp
  with doubled_cap [OF assms(2)] r Suc.prems assms show ?case
    by (simp add: failedTries_Suc retrying_def hook_defs MAX_RECONNECT_ATTEMPTS_def)
qed

definition givenUp :: "sse_hook \<Rightarrow> bool" where
  "givenUp h = (hk_source h = NoSource \<and> hk_timer h = None \<and> hk_reconnecting h \<and> \<not> hk_connected h \<and> hk_error h \<noteq> None)"

lemma givenUp_stays: "givenUp h \<Longrightarrow> (\<forall>opts. e \<noteq> OptionsChange opts) \<Longrightarrow> givenUp (hookStep e h)"
  by (cases e) (auto simp: givenUp_def hook_defs)

lemma givenUp_run: "givenUp h \<Longrightarrow> (\<forall>opts. OptionsChange opts \<notin> set es) \<Longrightarrow> givenUp (fold hookStep es h)"
proof (induction es arbitrary: h)
  case (Cons e es)
  then show ?case using givenUp_stays [of h e] by (metis fold_simps(2) list.set_intros(1) list.set_intros(2))
qed simp

text \<open>
  The n-th failure in a row is followed by a wait of 1000 times 2 to the n-1 milliseconds, at most the
  configured delay, for twenty retries; after the twenty-first failure the hook neither waits nor
  connects, yet it says that it is reconnecting, and so it stays whatever happens until the
  subscription changes.
\<close>
theorem backoff_then_stuck:
  assumes "so_autoReconnect opts" "0 \<le> so_maxRetryDelay opts"
  shows "(n < 20 \<longrightarrow> hk_timer (fold hookStep (failedTries n @ [Failed]) (mountHook opts)) = Some (min (1000 * 2 ^ n) (so_maxRetryDelay opts))) \<and>
    ((\<forall>o'. OptionsChange o' \<notin> set es) \<longrightarrow> givenUp (fold hookStep (failedTries 20 @ Failed # es) (mountHook opts)))"
proof -
  have "hk_timer (fold hookStep (failedTries n @ [Failed]) (mountHook opts)) = Some (min (1000 * 2 ^ n) (so_maxRetryDelay opts))" if "n < 20"
    using retrying_tries [OF assms, of n] that assms by (simp add: retrying_def hook_defs MAX_RECONNECT_ATTEMPTS_def)
  moreover have "givenUp (fold hookStep (failedTries 20 @ [Failed]) (mountHook opts))"
    using retrying_tries [OF assms, of 20] assms by (simp add: retrying_def hook_defs MAX_RECONNECT_ATTEMPTS_def givenUp_def)
  ultimately show ?thesis using givenUp_run by simp
qed

definition defaultOptions :: "string list \<Rightarrow> sse_options" where
  "defaultOptions ids = \<lparr>so_streamIds = ids, so_userPublicKeys = [], so_subscribeToAll = False, so_autoReconnect = True,
     so_maxRetryDelay = 30000, so_jwtToken = None\<rparr>"

theorem reconnections_bounded_witness:
  "let h = fold hookStep [Failed, TimerFires, Failed] (mountHook (defaultOptions [])) in
     hk_connects h \<le> 21 \<and> hk_timer h = Some 2000 \<and> hk_source h = NoSource"
proof -
  have t: "hk_timer (fold hookStep [Failed, TimerFires, Failed] (mountHook (defaultOptions []))) = Some 2000" by code_simp
  show ?thesis
    using reconnections_bounded [of "[Failed, TimerFires, Failed]" "defaultOptions []"] t
    by (simp add: Let_def)
qed

theorem backoff_then_stuck_witness:
  "hk_timer (fold hookStep (failedTries 4 @ [Failed]) (mountHook (defaultOptions [''7'']))) = Some 16000 \<and>
   hk_timer (fold hookStep (failedTries 19 @ [Failed]) (mountHook (defaultOptions [''7'']))) = Some 30000 \<and>
   givenUp (fold hookStep (failedTries 20 @ [Failed, TimerFires, Opened]) (mountHook (defaultOptions [''7''])))"
  using backoff_then_stuck [of "defaultOptions [''7'']" 4 "[]"] backoff_then_stuck [of "defaultOptions [''7'']" 19 "[TimerFires, Opened]"]
  by (simp add: defaultOptions_def)

section \<open>Against the endpoint\<close>

definition queryOf :: "(string \<times> string) list \<Rightarrow> string \<Rightarrow> query_value" where
  "queryOf params k = (case map snd (filter (\<lambda>(k', v). k' = k) params) of [] \<Rightarrow> QAbsent | [x] \<Rightarrow> QText x | xs \<Rightarrow> QTexts xs)"

text \<open>The request the endpoint sees, from the address \<open>ip\<close> and for the wallet the middleware found.\<close>

definition hookRequest :: "string \<Rightarrow> string \<Rightarrow> sse_options \<Rightarrow> sse_request" where
  "hookRequest ip publicKey opts =
     \<lparr>rq_forwarded = FwdNone, rq_ip = Some ip, rq_remoteAddress = None, rq_publicKey = publicKey,
      rq_streams = queryOf (buildParams opts) ''streams'', rq_users = queryOf (buildParams opts) ''users'', rq_all = queryOf (buildParams opts) ''all''\<rparr>"

text \<open>The status the route answers at once, \<open>None\<close> when the request goes on to the database.\<close>

definition subscribeRoute :: "auth_params \<Rightarrow> int \<Rightarrow> string option \<Rightarrow> string \<Rightarrow> sse_options \<Rightarrow> sse \<Rightarrow> int option" where
  "subscribeRoute P nowMs authorization ip opts s =
     (case requireAuth P nowMs authorization of
        Failure c e \<Rightarrow> Some c
      | Success c (Some (JStr publicKey)) \<Rightarrow>
          (case fst (subscribeBegin (hookRequest ip publicKey opts) s) of Rejected status h \<Rightarrow> Some status | Waits p \<Rightarrow> None)
      | Success c _ \<Rightarrow> Some 400)"

text \<open>
  Runs of the hook against the endpoint: an opening connection succeeds only when the endpoint lets
  it through; the second argument counts the changes of the subscription.
\<close>

inductive client_run :: "auth_params \<Rightarrow> sse_options \<Rightarrow> nat \<Rightarrow> sse_hook \<Rightarrow> bool" for P opts where
  mounted: "client_run P opts 0 (mountHook opts)"
| let_through: "client_run P opts n h \<Longrightarrow> hk_source h = SourceOpening \<Longrightarrow> subscribeRoute P nowMs None ip (hk_options h) s = None \<Longrightarrow>
    client_run P opts n (hookStep Opened h)"
| fails: "client_run P opts n h \<Longrightarrow> client_run P opts n (hookStep Failed h)"
| delivers: "client_run P opts n h \<Longrightarrow> client_run P opts n (hookStep (Message event body now) h)"
| waits: "client_run P opts n h \<Longrightarrow> client_run P opts n (hookStep TimerFires h)"
| cleared: "client_run P opts n h \<Longrightarrow> client_run P opts n (hookStep ClearEvents h)"
| changed: "client_run P opts n h \<Longrightarrow> client_run P opts (Suc n) (hookStep (OptionsChange opts') h)"
| unmounted: "client_run P opts n h \<Longrightarrow> client_run P opts n (hookStep Unmount h)"

inductive_cases client_run_cases: "client_run P opts n h"

lemma no_header_refused: "subscribeRoute P nowMs None ip opts s = Some 401"
  by (simp add: subscribeRoute_def requireAuth_def)

lemma never_open: "client_run P opts n h \<Longrightarrow>
  hk_source h \<noteq> SourceOpen \<and> \<not> hk_connected h \<and> hk_events h = [] \<and> potential h \<le> 21 + n"
proof (induction rule: client_run.induct)
  case mounted
  show ?case using mount_facts(2) [of opts] by (simp add: mountHook_def connectHook_def)
next
  case (let_through n h nowMs ip s)
  then show ?case by (simp add: no_header_refused)
next
  case (fails n h)
  then show ?case using hook.counts [of Failed h] by (auto simp: hook_defs)
next
  case (delivers n h event body now)
  then show ?case using hook.counts [of "Message event body now" h] by (auto simp: hook_defs)
next
  case (waits n h)
  then show ?case using hook.counts [of TimerFires h] by (auto simp: hook_defs)
next
  case (cleared n h)
  then show ?case using hook.counts [of ClearEvents h] by (auto simp: hook_defs)
next
  case (changed n h opts')
  then show ?case using hook.counts [of "OptionsChange opts'" h] by (auto simp: hook_defs)
next
  case (unmounted n h)
  then show ?case using hook.counts [of Unmount h] by (auto simp: hook_defs)
qed

text \<open>C24. Against the endpoint the hook never connects and never shows an event, with whatever token it puts into
  the URL: the middleware reads the \<open>Authorization\<close> header alone, so every attempt is answered 401.
  It makes at most 21 attempts, and one more for each change of the subscription.
\<close>
theorem web_client_never_connected:
  assumes "client_run P opts n h"
  shows "\<not> hk_connected h \<and> hk_events h = [] \<and> hk_connects h \<le> 21 + n \<and> subscribeRoute P nowMs None ip (hk_options h) s = Some 401"
  using never_open [OF assms] no_header_refused by (auto simp: potential_def)

theorem web_client_never_connected_witness:
  "let h = fold hookStep [Failed, TimerFires, Failed] (mountHook (defaultOptions [])) in
     \<forall>P. client_run P (defaultOptions []) 0 h \<and> \<not> hk_connected h \<and> hk_connects h \<le> 21"
proof -
  have r: "client_run P (defaultOptions []) 0 (hookStep Failed (hookStep TimerFires (hookStep Failed (mountHook (defaultOptions [])))))" for P
    by (intro client_run.intros)
  from web_client_never_connected [OF r] r show ?thesis by (simp only: Let_def fold_simps) simp
qed

text \<open>With a token that is accepted, no or several streams pass the schema; exactly one, or all of them, do not.\<close>

lemma streams_parameter:
  assumes "\<not> so_subscribeToAll opts"
  shows "queryOf (buildParams opts) ''streams'' = (case so_streamIds opts of [] \<Rightarrow> QAbsent | [x] \<Rightarrow> QText x | xs \<Rightarrow> QTexts xs)"
proof -
  have "filter (\<lambda>(k', v). k' = ''streams'') (map (Pair ''streams'') xs) = map (Pair ''streams'') xs" for xs :: "string list"
    by (induction xs) simp_all
  then show ?thesis using assms by (simp add: queryOf_def buildParams_def comp_def)
qed

lemma absent_parameter: "k \<notin> {''streams'', ''all'', ''token''} \<Longrightarrow> queryOf (buildParams opts) k = QAbsent"
  by (auto simp: queryOf_def buildParams_def filter_map comp_def)

lemma all_parameter: "queryOf (buildParams opts) ''all'' = (if so_subscribeToAll opts then QText ''true'' else QAbsent)"
  by (auto simp: queryOf_def buildParams_def filter_map comp_def)

lemma hook_schema:
  "subscribeSchema (hookRequest ip pk opts) \<noteq> None \<longleftrightarrow> \<not> so_subscribeToAll opts \<and> length (so_streamIds opts) \<noteq> 1"
  by (cases "so_subscribeToAll opts")
    (auto simp: subscribeSchema_def hookRequest_def all_parameter absent_parameter streams_parameter split: list.split option.split)

section \<open>An event on its way\<close>

text \<open>
  How a browser reads one message of an event stream: the fields of its lines, the last \<open>event\<close> and the
  joined \<open>data\<close> lines; a message without data is not dispatched.
\<close>

definition fieldOf :: "string \<Rightarrow> string \<times> string" where
  "fieldOf l =
     (let k = takeWhile (\<lambda>c. c \<noteq> CHR '':'') l; v = drop (Suc (length k)) l
      in (k, case v of [] \<Rightarrow> [] | c # cs \<Rightarrow> if c = CHR '' '' then cs else v))"

definition dispatched :: "string \<Rightarrow> (string \<times> string) option" where
  "dispatched message =
     (let fields = map fieldOf (filter (\<lambda>l. l \<noteq> []) (js_split CHR 0x0A message));
          datas = map snd (filter (\<lambda>(k, v). k = ''data'') fields);
          events = map snd (filter (\<lambda>(k, v). k = ''event'') fields)
      in if datas = [] then None else Some (if events = [] then ''message'' else last events, join LF datas))"

lemma hex_digit_printable: "n < 16 \<Longrightarrow> 32 \<le> code (hex_digit n)"
  by (simp add: hex_digit_def code_def)

lemma escape_printable: "list_all (\<lambda>c. 32 \<le> code c) (json_escape c)"
  using nat_of_char_less_256 [of c]
  by (auto simp: json_escape_def Let_def code_def hex_digit_printable [unfolded code_def] less_mult_imp_div_less)

lemma quote_printable: "list_all (\<lambda>c. 32 \<le> code c) (json_quote s)"
  using escape_printable by (auto simp: json_quote_def list_all_iff code_def)

lemma join_printable: "list_all (\<lambda>c. 32 \<le> code c) sep \<Longrightarrow> list_all (list_all (\<lambda>c. 32 \<le> code c)) ws \<Longrightarrow> list_all (\<lambda>c. 32 \<le> code c) (join sep ws)"
  by (induction sep ws rule: join.induct) auto

lemma toString_printable: "list_all (\<lambda>c. 32 \<le> code c) (toString n)"
  using toString_chars [of n] by (auto simp: list_all_iff is_digit_def code_def)

lemma json_printable: "list_all (\<lambda>c. 32 \<le> code c) (JSON_stringify d)"
proof (induction d rule: JSON_stringify.induct)
  case (5 xs)
  have "list_all (\<lambda>c. 32 \<le> code c) (join '','' (map JSON_stringify xs))"
    by (rule join_printable) (use 5 in \<open>auto simp: list_all_iff code_def\<close>)
  then show ?case by (simp add: code_def)
next
  case (6 fs)
  have "list_all (\<lambda>c. 32 \<le> code c) (join '','' (map (\<lambda>(k, v). json_quote k @ '':'' @ JSON_stringify v) fs))"
    by (rule join_printable) (use 6 quote_printable in \<open>fastforce simp: list_all_iff code_def\<close>)+
  then show ?case by (simp add: code_def)
qed (simp_all only: JSON_stringify.simps quote_printable toString_printable, simp_all add: code_def)

lemma json_one_line: "CHR 0x0A \<notin> set (JSON_stringify d)"
  using json_printable [of d] by (auto simp: list_all_iff code_def)

lemma split_block: "c \<notin> set a \<Longrightarrow> c \<notin> set b \<Longrightarrow> js_split c (a @ c # b @ c # [c]) = [a, b, [], []]"
  by (simp add: js_split_append)

lemma dispatched_message: "CHR 0x0A \<notin> set event \<Longrightarrow> dispatched (sseMessage event d) = Some (event, JSON_stringify d)"
proof -
  assume e: "CHR 0x0A \<notin> set event"
  have "sseMessage event d = (''event: '' @ event) @ CHR 0x0A # (''data: '' @ JSON_stringify d) @ CHR 0x0A # [CHR 0x0A]"
    by (simp add: sseMessage_def)
  moreover have "js_split CHR 0x0A ((''event: '' @ event) @ CHR 0x0A # (''data: '' @ JSON_stringify d) @ CHR 0x0A # [CHR 0x0A]) =
      [''event: '' @ event, ''data: '' @ JSON_stringify d, [], []]"
    by (rule split_block) (use e json_one_line in auto)
  ultimately have "js_split CHR 0x0A (sseMessage event d) = [''event: '' @ event, ''data: '' @ JSON_stringify d, [], []]" by (simp only:)
  then show ?thesis by (simp add: dispatched_def fieldOf_def)
qed

text \<open>The messages the hook listens for.\<close>

definition streamMessages :: "string list" where
  "streamMessages = [''stream.created'', ''stream.topped_up'', ''stream.withdrawn'', ''stream.cancelled'',
     ''stream.completed'', ''stream.paused'', ''stream.resumed'']"

lemma listener_of: "map_of LISTENERS event = (if event \<in> set streamMessages then Some (drop 7 event) else None)"
  by (simp add: LISTENERS_def streamMessages_def)

text \<open>C26. What a broadcast of the backend does to an open hook that receives it, for payloads whose numbers
  are whole and between 0 and \<open>2 ^ 53\<close>: a message of one of the seven stream changes (created, topped
  up, withdrawn, cancelled, completed, paused, resumed) is put in front of the events, under its
  name without the prefix and with the value that was sent, whatever its texts contain; the others
  follow in their order, the oldest beyond 100 dropped. A message of any other name, among them the
  low-balance alert and the fee and admin events of the worker, leaves the hook as it was.
\<close>
theorem broadcast_reaches_hook:
  assumes "json_safe d" "CHR 0x0A \<notin> set event" "hk_source h = SourceOpen"
  shows "\<exists>body. dispatched (sseMessage event d) = Some (event, body) \<and>
    hookStep (Message event body now) h =
      (if event \<in> set streamMessages
       then h\<lparr>hk_events := \<lparr>se_type = drop 7 event, se_data = ofJson d, se_timestamp = now\<rparr> # take 99 (hk_events h)\<rparr>
       else h)"
  using assms parse_stringify [OF assms(1)] dispatched_message [OF assms(2), of d]
  by (simp add: onMessage_def handleEvent_def listener_of)

theorem broadcast_reaches_hook_witness:
  "\<exists>body. dispatched (sseMessage ''stream.paused'' (JObj [(''streamId'', JNum 7)])) = Some (''stream.paused'', body) \<and>
     map se_type (hk_events (hookStep (Message ''stream.paused'' body 5) (hookStep Opened (mountHook (defaultOptions []))))) = [''paused'']"
proof -
  have h: "hk_events (hookStep Opened (mountHook (defaultOptions []))) = []" "hk_source (hookStep Opened (mountHook (defaultOptions []))) = SourceOpen"
    by (simp_all add: mountHook_def hook_defs)
  have "CHR 0x0A \<notin> set ''stream.paused''" "json_safe (JObj [(''streamId'', JNum 7)])" by simp_all
  from broadcast_reaches_hook [OF this(2,1) h(2), of 5] h(1) show ?thesis by (auto simp: streamMessages_def)
qed

end
