(* ===== verification/Live_Amounts.thy ===== *)
theory Live_Amounts
  imports Event_Run Js_Float Claimable
begin

text \<open>
  The claimable amount that the web client counts up on the screen
  (\<open>frontend/src/hooks/useStreamingAmount.ts\<close>), over doubles. The clock of the wall is in
  milliseconds, the clock of the frames too; a hidden tab receives no new amounts. The page that
  shows the stream's details is compared with the amount the backend computes.
\<close>

section \<open>Arithmetic of doubles\<close>

fun numNeg :: "jsnum \<Rightarrow> jsnum" where
  "numNeg NaN = NaN"
| "numNeg (Infinity s) = Infinity (\<not> s)"
| "numNeg (Fin q) = Fin (- q)"

fun numAdd :: "jsnum \<Rightarrow> jsnum \<Rightarrow> jsnum" where
  "numAdd (Fin a) (Fin b) = fl (a + b)"
| "numAdd (Infinity s) (Infinity t) = (if s = t then Infinity s else NaN)"
| "numAdd (Infinity s) (Fin b) = Infinity s"
| "numAdd (Fin a) (Infinity t) = Infinity t"
| "numAdd _ _ = NaN"

definition numSub :: "jsnum \<Rightarrow> jsnum \<Rightarrow> jsnum" where
  "numSub a b = numAdd a (numNeg b)"

fun numDiv :: "jsnum \<Rightarrow> jsnum \<Rightarrow> jsnum" where
  "numDiv (Fin a) (Fin b) = (if b = 0 then (if a = 0 then NaN else Infinity (a < 0)) else fl (a / b))"
| "numDiv (Infinity s) (Fin b) = Infinity (s \<noteq> (b < 0))"
| "numDiv (Fin a) (Infinity t) = Fin 0"
| "numDiv _ _ = NaN"

definition Math_max :: "jsnum \<Rightarrow> jsnum \<Rightarrow> jsnum" where
  "Math_max a b = (if a = NaN \<or> b = NaN then NaN else if numLe a b then b else a)"

definition Math_min :: "jsnum \<Rightarrow> jsnum \<Rightarrow> jsnum" where
  "Math_min a b = (if a = NaN \<or> b = NaN then NaN else if numLe a b then a else b)"

definition truthyNum :: "jsnum option \<Rightarrow> bool" where
  "truthyNum v = (case v of None \<Rightarrow> False | Some n \<Rightarrow> n \<noteq> NaN \<and> n \<noteq> Fin 0)"

section \<open>The hook\<close>

record UseStreamingAmountParams =
  lp_deposited :: jsnum
  lp_withdrawn :: jsnum
  lp_ratePerSecond :: jsnum
  lp_startTime :: "jsnum option"
  lp_lastUpdateTime :: "jsnum option"
  lp_isActive :: bool
  lp_isPaused :: bool
  lp_pausedAt :: "jsnum option"
  lp_totalPausedDuration :: jsnum

definition clampNum :: "jsnum \<Rightarrow> jsnum \<Rightarrow> jsnum \<Rightarrow> jsnum" where
  "clampNum v lo hi = Math_min hi (Math_max lo v)"

definition maxClaimable :: "UseStreamingAmountParams \<Rightarrow> jsnum" where
  "maxClaimable p = Math_max (numSub (lp_deposited p) (lp_withdrawn p)) (Fin 0)"

definition isStreaming :: "UseStreamingAmountParams \<Rightarrow> bool" where
  "isStreaming p =
     (lp_isActive p \<and> \<not> lp_isPaused p \<and> numLess (Fin 0) (lp_ratePerSecond p) \<and> numLess (Fin 0) (maxClaimable p))"

definition nowSecondsOf :: "int \<Rightarrow> jsnum" where
  "nowSecondsOf nowMs = numDiv (Fin (of_int nowMs)) (Fin 1000)"

definition effectiveElapsed :: "UseStreamingAmountParams \<Rightarrow> int \<Rightarrow> jsnum" where
  "effectiveElapsed p nowMs =
     (let nowSeconds = nowSecondsOf nowMs;
          streamStartTime = (case lp_startTime p of Some s \<Rightarrow> s | None \<Rightarrow> (case lp_lastUpdateTime p of Some l \<Rightarrow> l | None \<Rightarrow> nowSeconds));
          elapsedSinceStart = Math_max (Fin 0) (numSub nowSeconds streamStartTime);
          currentPauseDuration =
            (case lp_pausedAt p of
               Some since \<Rightarrow> if lp_isPaused p \<and> truthyNum (Some since) then Math_max (Fin 0) (numSub nowSeconds since) else Fin 0
             | None \<Rightarrow> Fin 0)
      in Math_max (Fin 0)
           (numSub (numSub elapsedSinceStart (if truthyNum (lp_startTime p) then lp_totalPausedDuration p else Fin 0)) currentPauseDuration))"

definition computeLive :: "UseStreamingAmountParams \<Rightarrow> int \<Rightarrow> jsnum" where
  "computeLive p nowMs = clampNum (numMult (effectiveElapsed p nowMs) (lp_ratePerSecond p)) (Fin 0) (maxClaimable p)"

text \<open>The state of the effect: the amount, the time of the last frame, and whether a frame is requested.\<close>

record live_state =
  lv_claimable :: jsnum
  lv_lastFrameTime :: jsnum
  lv_frame :: bool

definition startLive :: "UseStreamingAmountParams \<Rightarrow> bool \<Rightarrow> int \<Rightarrow> jsnum \<Rightarrow> live_state" where
  "startLive p reduceMotion nowMs frameClock =
     \<lparr>lv_claimable = computeLive p nowMs, lv_lastFrameTime = frameClock, lv_frame = (isStreaming p \<and> \<not> reduceMotion)\<rparr>"

definition tick :: "UseStreamingAmountParams \<Rightarrow> bool \<Rightarrow> jsnum \<Rightarrow> live_state \<Rightarrow> live_state" where
  "tick p hidden frameTime l =
     (if \<not> lv_frame l then l
      else if hidden then l\<lparr>lv_lastFrameTime := frameTime\<rparr>
      else let deltaSeconds = Math_max (Fin 0) (numDiv (numSub frameTime (lv_lastFrameTime l)) (Fin 1000));
               nextClaimable = (if isStreaming p
                                then clampNum (numAdd (lv_claimable l) (numMult (lp_ratePerSecond p) deltaSeconds)) (Fin 0) (maxClaimable p)
                                else Fin 0)
           in \<lparr>lv_claimable = nextClaimable, lv_lastFrameTime = frameTime, lv_frame = (isStreaming p \<and> numLess nextClaimable (maxClaimable p))\<rparr>)"

definition handleVisibilityChange :: "UseStreamingAmountParams \<Rightarrow> bool \<Rightarrow> int \<Rightarrow> jsnum \<Rightarrow> live_state \<Rightarrow> live_state" where
  "handleVisibilityChange p hidden nowMs frameClock l =
     (if \<not> hidden \<and> isStreaming p then l\<lparr>lv_lastFrameTime := frameClock, lv_claimable := computeLive p nowMs\<rparr> else l)"

text \<open>The times of frames are doubles; \<open>Visible\<close> carries the clock of the wall and of the frames.\<close>

datatype live_event = Frame bool rat | Visible bool int rat

fun liveStep :: "UseStreamingAmountParams \<Rightarrow> live_event \<Rightarrow> live_state \<Rightarrow> live_state" where
  "liveStep p (Frame hidden t) l = tick p hidden (Fin t) l"
| "liveStep p (Visible hidden nowMs t) l = handleVisibilityChange p hidden nowMs (Fin t) l"

section \<open>Doubles stay numbers\<close>

lemma fl_zero [simp]: "fl 0 = Fin 0"
  by (simp add: fl_def)

lemma fl_minus: "fl (- q) = numNeg (fl q)"
  by (auto simp: fl_def Let_def)

lemma fl_not_nan [simp]: "fl q \<noteq> NaN" "NaN \<noteq> fl q"
  by (simp_all add: fl_def Let_def)

lemma fl_sign: "0 \<le> q \<Longrightarrow> (\<exists>r. fl q = Fin r \<and> 0 \<le> r) \<or> fl q = Infinity False"
proof -
  assume "0 \<le> q"
  have "0 \<le> of_int (roundEven (\<bar>q\<bar> / ulp \<bar>q\<bar>)) * ulp \<bar>q\<bar>"
    using roundEven_ge [of 0 "\<bar>q\<bar> / ulp \<bar>q\<bar>"] by (simp add: less_imp_le)
  with \<open>0 \<le> q\<close> show ?thesis by (auto simp: fl_def Let_def)
qed

lemma fl_whole: "\<bar>n\<bar> \<le> 2 ^ 53 \<Longrightarrow> fl (of_int n) = Fin (of_int n)"
  using fl_int [of n] fl_int [of "- n"] fl_minus [of "of_int (- n)"] by (cases "0 \<le> n") auto

lemma sub_whole: "\<bar>a\<bar> \<le> 2 ^ 52 \<Longrightarrow> \<bar>b\<bar> \<le> 2 ^ 52 \<Longrightarrow> numSub (Fin (of_int a)) (Fin (of_int b)) = Fin (of_int (a - b))"
  using fl_whole [of "a - b"] by (simp add: numSub_def)

lemma max_whole: "Math_max (Fin (of_int a)) (Fin (of_int b)) = Fin (of_int (max a b))"
  by (simp add: Math_max_def max_def)

lemma min_whole: "Math_min (Fin (of_int a)) (Fin (of_int b)) = Fin (of_int (min a b))"
  by (simp add: Math_min_def min_def)

text \<open>\<open>bounded k\<close>: a finite number of at most k bits before the point.\<close>

definition bounded :: "nat \<Rightarrow> jsnum \<Rightarrow> bool" where
  "bounded k x = (\<exists>q. x = Fin q \<and> \<bar>q\<bar> \<le> 2 ^ k)"

lemma bounded_mono: "bounded j x \<Longrightarrow> j \<le> k \<Longrightarrow> bounded k x"
proof -
  assume "j \<le> k"
  then have p: "(2::rat) ^ j \<le> 2 ^ k" by (intro power_increasing) auto
  show "bounded j x \<Longrightarrow> bounded k x" by (auto simp: bounded_def intro: order_trans [OF _ p])
qed

lemma fl_finite_pos:
  assumes "0 \<le> q" "q \<le> 2 ^ 1000"
  shows "\<exists>r. fl q = Fin r \<and> \<bar>r\<bar> \<le> 2 * q + 1"
proof (cases "2 powi (- 1022) \<le> q")
  case True
  have "(2::rat) ^ 1000 \<le> 2 ^ 1023" by (rule power_increasing) auto
  with assms(2) have "q \<le> 2 ^ 1023" by linarith
  then obtain r where "fl q = Fin r" "\<bar>r - q\<bar> \<le> q / 2 ^ 53" using fl_error [OF True] by blast
  moreover have "q / 2 ^ 53 \<le> q" using assms(1) by (simp add: divide_le_eq mult_le_cancel_left1)
  ultimately show ?thesis using assms(1) by (intro exI [of _ r]) linarith
next
  case False
  show ?thesis
  proof (cases "q = 0")
    case False
    with assms have q: "0 < q" by simp
    have "leadExp q < - 1022"
    proof (rule ccontr)
      assume "\<not> leadExp q < - 1022"
      then have "(2::rat) powi (- 1022) \<le> 2 powi leadExp q" by (intro power_int_increasing) auto
      with leadExp_bounds(1) [OF q] \<open>\<not> 2 powi (- 1022) \<le> q\<close> show False by linarith
    qed
    then have u: "ulp q = 2 powi (- 1074)" by (simp add: ulp_def)
    have u1: "ulp q \<le> 1" unfolding u using power_int_increasing [of "- 1074" 0 "2::rat"] by simp
    let ?r = "of_int (roundEven (q / ulp q)) * ulp q"
    have "of_int (roundEven (q / ulp q)) \<le> q / ulp q + 1 / 2" using roundEven_error [of "q / ulp q"] by linarith
    then have "?r \<le> (q / ulp q + 1 / 2) * ulp q" by (intro mult_right_mono) (simp_all add: less_imp_le)
    also have "\<dots> = q + ulp q / 2" using ulp_pos [of q] by (simp add: field_simps less_imp_neq [OF ulp_pos, symmetric])
    finally have r: "?r \<le> 2 * q + 1" using u1 q by linarith
    have r0: "0 \<le> ?r" using roundEven_ge [of 0 "q / ulp q"] q by (simp add: less_imp_le)
    have "2 * q + 1 < 2 ^ 1024"
    proof -
      have "(2::rat) powi (- 1022) \<le> 1" by simp
      then have "2 * q + 1 < 2 ^ 2" using False \<open>\<not> 2 powi (- 1022) \<le> q\<close> by (simp add: not_le)
      also have "(2::rat) ^ 2 \<le> 2 ^ 1024" by (rule power_increasing) auto
      finally show ?thesis .
    qed
    then have "fl q = Fin ?r" using q r by (simp add: fl_def Let_def)
    with r r0 show ?thesis by auto
  qed simp
qed

lemma fl_bounded:
  assumes "\<bar>q\<bar> \<le> 2 ^ k" "k \<le> 1000"
  shows "bounded (k + 2) (fl q)"
proof -
  have "(2::rat) ^ k \<le> 2 ^ 1000" by (rule power_increasing) (use assms in auto)
  then have "\<bar>q\<bar> \<le> 2 ^ 1000" using assms(1) by linarith
  then obtain r where r: "fl \<bar>q\<bar> = Fin r" "\<bar>r\<bar> \<le> 2 * \<bar>q\<bar> + 1" using fl_finite_pos [of "\<bar>q\<bar>"] by auto
  have "(1::rat) \<le> 2 ^ k" by simp
  then have "\<bar>r\<bar> \<le> 4 * 2 ^ k" using r(2) assms(1) by linarith
  then have "\<bar>r\<bar> \<le> 2 ^ (k + 2)" by (simp add: power_add)
  moreover have "fl q = Fin r \<or> fl q = Fin (- r)" using r(1) fl_minus [of "\<bar>q\<bar>"] by (cases "0 \<le> q") auto
  ultimately show ?thesis by (auto simp: bounded_def)
qed

lemma bounded_sub: "bounded k a \<Longrightarrow> bounded k b \<Longrightarrow> k \<le> 900 \<Longrightarrow> bounded (k + 3) (numSub a b)"
proof -
  assume ab: "bounded k a" "bounded k b" "k \<le> 900"
  then obtain x y where xy: "a = Fin x" "b = Fin y" "\<bar>x\<bar> \<le> 2 ^ k" "\<bar>y\<bar> \<le> 2 ^ k" by (auto simp: bounded_def)
  then have "\<bar>x - y\<bar> \<le> 2 ^ (k + 1)" by simp
  from fl_bounded [OF this] ab(3) xy(1,2) show ?thesis by (simp add: numSub_def eval_nat_numeral)
qed

lemma bounded_mult: "bounded j a \<Longrightarrow> bounded k b \<Longrightarrow> j + k \<le> 1000 \<Longrightarrow> bounded (j + k + 2) (numMult a b)"
proof -
  assume ab: "bounded j a" "bounded k b" "j + k \<le> 1000"
  then obtain x y where xy: "a = Fin x" "b = Fin y" "\<bar>x\<bar> \<le> 2 ^ j" "\<bar>y\<bar> \<le> 2 ^ k" by (auto simp: bounded_def)
  then have "\<bar>x * y\<bar> \<le> 2 ^ (j + k)" by (simp add: abs_mult power_add mult_mono)
  from fl_bounded [OF this ab(3)] xy(1,2) show ?thesis by simp
qed

lemma bounded_max: "bounded k a \<Longrightarrow> bounded k (Math_max (Fin 0) a)"
  by (auto simp: bounded_def Math_max_def)

lemma max_nonneg: "bounded k a \<Longrightarrow> numLe (Fin 0) (Math_max (Fin 0) a)"
  by (auto simp: bounded_def Math_max_def)

section \<open>The amount stays within what is left\<close>

definition realParams :: "UseStreamingAmountParams \<Rightarrow> bool" where
  "realParams p =
     (bounded 60 (lp_deposited p) \<and> bounded 60 (lp_withdrawn p) \<and> bounded 60 (lp_ratePerSecond p) \<and> bounded 60 (lp_totalPausedDuration p) \<and>
      pred_option (bounded 60) (lp_startTime p) \<and> pred_option (bounded 60) (lp_lastUpdateTime p) \<and> pred_option (bounded 60) (lp_pausedAt p))"

fun realEvent :: "live_event \<Rightarrow> bool" where
  "realEvent (Frame hidden t) = (\<bar>t\<bar> \<le> 2 ^ 60)"
| "realEvent (Visible hidden nowMs t) = (\<bar>nowMs\<bar> \<le> 2 ^ 60 \<and> \<bar>t\<bar> \<le> 2 ^ 60)"

lemma bounded_zero [simp]: "bounded k (Fin 0)"
  by (simp add: bounded_def)

lemma now_bounded: "\<bar>nowMs\<bar> \<le> 2 ^ 60 \<Longrightarrow> bounded 62 (nowSecondsOf nowMs)"
proof -
  assume "\<bar>nowMs\<bar> \<le> 2 ^ 60"
  then have "(of_int \<bar>nowMs\<bar> :: rat) \<le> of_int (2 ^ 60)" by (simp only: of_int_le_iff)
  then have "\<bar>of_int nowMs / 1000\<bar> \<le> (2 :: rat) ^ 60" by simp
  from fl_bounded [OF this] show ?thesis by (simp add: nowSecondsOf_def)
qed

lemma elapsed_bounded:
  assumes "realParams p" "\<bar>nowMs\<bar> \<le> 2 ^ 60"
  shows "bounded 80 (effectiveElapsed p nowMs)"
proof -
  have now: "bounded 62 (nowSecondsOf nowMs)" by (rule now_bounded) (rule assms(2))
  have "bounded 62 (case lp_startTime p of Some s \<Rightarrow> s | None \<Rightarrow> (case lp_lastUpdateTime p of Some l \<Rightarrow> l | None \<Rightarrow> nowSecondsOf nowMs))"
    using assms(1) now by (auto simp: realParams_def split: option.split intro: bounded_mono)
  from bounded_max [OF bounded_sub [OF now this]]
  have e: "bounded 65 (Math_max (Fin 0) (numSub (nowSecondsOf nowMs)
      (case lp_startTime p of Some s \<Rightarrow> s | None \<Rightarrow> (case lp_lastUpdateTime p of Some l \<Rightarrow> l | None \<Rightarrow> nowSecondsOf nowMs))))" by simp
  have t: "bounded 65 (if truthyNum (lp_startTime p) then lp_totalPausedDuration p else Fin 0)"
    using assms(1) by (auto simp: realParams_def intro: bounded_mono)
  have "bounded 65 (case lp_pausedAt p of
       Some s \<Rightarrow> if lp_isPaused p \<and> truthyNum (Some s) then Math_max (Fin 0) (numSub (nowSecondsOf nowMs) s) else Fin 0 | None \<Rightarrow> Fin 0)"
  proof (cases "lp_pausedAt p")
    case (Some s)
    then have "bounded 62 s" using assms(1) by (auto simp: realParams_def intro: bounded_mono)
    from bounded_max [OF bounded_sub [OF now this]] Some show ?thesis by simp
  qed simp
  then have c: "bounded 68 (case lp_pausedAt p of
       Some s \<Rightarrow> if lp_isPaused p \<and> truthyNum (Some s) then Math_max (Fin 0) (numSub (nowSecondsOf nowMs) s) else Fin 0 | None \<Rightarrow> Fin 0)"
    by (rule bounded_mono) simp
  have "bounded 71 (effectiveElapsed p nowMs)"
    unfolding effectiveElapsed_def Let_def
    using bounded_max [OF bounded_sub [OF bounded_sub [OF e t] c [THEN bounded_mono]]] by simp
  then show ?thesis by (rule bounded_mono) simp
qed

lemma max_real: "realParams p \<Longrightarrow> \<exists>m. maxClaimable p = Fin m \<and> 0 \<le> m \<and> m \<le> 2 ^ 63"
  using bounded_sub [of 60 "lp_deposited p" "lp_withdrawn p"]
  by (auto simp: realParams_def maxClaimable_def Math_max_def bounded_def)

lemma clamp_real: "0 \<le> m \<Longrightarrow> bounded k v \<Longrightarrow> \<exists>c. clampNum v (Fin 0) (Fin m) = Fin c \<and> 0 \<le> c \<and> c \<le> m"
  by (auto simp: clampNum_def Math_max_def Math_min_def bounded_def)

definition liveOk :: "UseStreamingAmountParams \<Rightarrow> live_state \<Rightarrow> bool" where
  "liveOk p l =
     (\<exists>c m. lv_claimable l = Fin c \<and> maxClaimable p = Fin m \<and> 0 \<le> c \<and> c \<le> m \<and> bounded 60 (lv_lastFrameTime l))"

lemma compute_real:
  assumes "realParams p" "\<bar>nowMs\<bar> \<le> 2 ^ 60"
  shows "\<exists>c m. computeLive p nowMs = Fin c \<and> maxClaimable p = Fin m \<and> 0 \<le> c \<and> c \<le> m"
proof -
  have "bounded 60 (lp_ratePerSecond p)" using assms(1) by (simp add: realParams_def)
  from bounded_mult [OF elapsed_bounded [OF assms] this]
  have "bounded 142 (numMult (effectiveElapsed p nowMs) (lp_ratePerSecond p))" by simp
  then show ?thesis using max_real [OF assms(1)] clamp_real unfolding computeLive_def by metis
qed

lemma tick_real:
  assumes "realParams p" "\<bar>t\<bar> \<le> 2 ^ 60" "liveOk p l"
  shows "liveOk p (tick p hidden (Fin t) l)"
proof -
  obtain c m where l: "lv_claimable l = Fin c" "maxClaimable p = Fin m" "0 \<le> c" "c \<le> m" "bounded 60 (lv_lastFrameTime l)"
    using assms(3) by (auto simp: liveOk_def)
  have "m \<le> 2 ^ 63" using max_real [OF assms(1)] l(2) by auto
  have t: "bounded 60 (Fin t)" using assms(2) by (simp add: bounded_def)
  let ?sub = "numSub (Fin t) (lv_lastFrameTime l)"
  obtain x where x: "?sub = Fin x" "\<bar>x\<bar> \<le> 2 ^ 63" using bounded_sub [OF t l(5)] by (auto simp: bounded_def)
  then have "\<bar>x / 1000\<bar> \<le> 2 ^ 63" by simp
  from bounded_max [OF fl_bounded [OF this]]
  have d: "bounded 65 (Math_max (Fin 0) (numDiv ?sub (Fin 1000)))" by (simp add: x)
  have "bounded 60 (lp_ratePerSecond p)" using assms(1) by (simp add: realParams_def)
  from bounded_mult [OF this d] obtain y where y: "numMult (lp_ratePerSecond p) (Math_max (Fin 0) (numDiv ?sub (Fin 1000))) = Fin y" "\<bar>y\<bar> \<le> 2 ^ 127"
    by (auto simp: bounded_def)
  have "\<bar>c + y\<bar> \<le> 2 ^ 128" using l(3,4) \<open>m \<le> 2 ^ 63\<close> y(2) by simp
  from fl_bounded [OF this] have "bounded 130 (numAdd (lv_claimable l) (numMult (lp_ratePerSecond p) (Math_max (Fin 0) (numDiv ?sub (Fin 1000)))))"
    by (simp add: y l(1))
  from clamp_real [OF order_trans [OF l(3,4)] this] show ?thesis
    using l t order_trans [OF l(3,4)] by (auto simp: liveOk_def tick_def Let_def)
qed

lemma step_real: "realParams p \<Longrightarrow> liveOk p l \<Longrightarrow> realEvent e \<Longrightarrow> liveOk p (liveStep p e l)"
proof (cases e)
  case (Visible hidden nowMs t)
  assume "realParams p" "liveOk p l" "realEvent e"
  then show ?thesis using compute_real [of p nowMs] Visible by (auto simp: liveOk_def handleVisibilityChange_def bounded_def)
qed (simp add: tick_real)

interpretation live_amount: event_machine "liveStep p" "\<lambda>l. realParams p \<and> liveOk p l" realEvent for p
  by unfold_locales (simp add: step_real)

text \<open>
  Whatever frames come, with the tab hidden or shown and the clocks at any times, the amount on the
  screen is a number between 0 and what the stream still holds, and counting stops when it is
  reached: a frame is requested only while the amount is below it.
\<close>
theorem live_amount_in_range:
  assumes "realParams p" "\<bar>nowMs\<bar> \<le> 2 ^ 60" "\<bar>t\<bar> \<le> 2 ^ 60" "list_all realEvent es"
  shows "\<exists>c m. lv_claimable (fold (liveStep p) es (startLive p reduceMotion nowMs (Fin t))) = Fin c \<and> maxClaimable p = Fin m \<and> 0 \<le> c \<and> c \<le> m"
proof -
  have "liveOk p (startLive p reduceMotion nowMs (Fin t))"
    using compute_real [OF assms(1,2)] assms(3) by (auto simp: liveOk_def startLive_def bounded_def)
  with live_amount.run_keeps [of p "startLive p reduceMotion nowMs (Fin t)" es] assms(1,4) show ?thesis by (auto simp: liveOk_def)
qed

definition exampleLive :: UseStreamingAmountParams where
  "exampleLive = \<lparr>lp_deposited = Fin 10, lp_withdrawn = Fin 2, lp_ratePerSecond = Fin 1, lp_startTime = None, lp_lastUpdateTime = Some (Fin 5),
     lp_isActive = True, lp_isPaused = False, lp_pausedAt = None, lp_totalPausedDuration = Fin 0\<rparr>"

theorem live_amount_in_range_witness:
  "\<exists>c m. lv_claimable (fold (liveStep exampleLive) [Frame False 16, Visible False 9000 20] (startLive exampleLive False 7000 (Fin 0))) = Fin c \<and>
     maxClaimable exampleLive = Fin m \<and> 0 \<le> c \<and> c \<le> m"
  by (rule live_amount_in_range) (simp_all add: realParams_def exampleLive_def bounded_def)

section \<open>The details page and the backend\<close>

text \<open>
  The parameters of \<open>stream-details-content.tsx\<close>: the amounts are the texts of base units read by
  \<open>Number\<close>, and no start time is passed.
\<close>

definition detailsParams :: "ClaimableStreamState \<Rightarrow> UseStreamingAmountParams" where
  "detailsParams s =
     \<lparr>lp_deposited = fl (of_int (amount (cs_depositedAmount s))), lp_withdrawn = fl (of_int (amount (cs_withdrawnAmount s))),
      lp_ratePerSecond = fl (of_int (amount (cs_ratePerSecond s))), lp_startTime = None,
      lp_lastUpdateTime = Some (Fin (of_int (cs_lastUpdateTime s))), lp_isActive = cs_isActive s, lp_isPaused = cs_isPaused s,
      lp_pausedAt = map_option (\<lambda>q. Fin (of_int q)) (cs_pausedAt s), lp_totalPausedDuration = Fin 0\<rparr>"

definition liveClaimable :: "jsnum \<Rightarrow> int" where
  "liveClaimable n = (case n of Fin q \<Rightarrow> (case BigIntOfNumber (Math_round n) of Inr i \<Rightarrow> i | Inl e \<Rightarrow> 0) | _ \<Rightarrow> 0)"

lemma liveClaimable_whole [simp]: "liveClaimable (Fin (of_int i)) = i"
proof -
  have "\<lfloor>of_int i + 1 / 2 :: rat\<rfloor> = i" by (rule floor_unique) simp_all
  then show ?thesis by (simp add: liveClaimable_def)
qed

definition smallState :: "ClaimableStreamState \<Rightarrow> bool" where
  "smallState s =
     (0 \<le> amount (cs_ratePerSecond s) \<and> amount (cs_ratePerSecond s) \<le> 2 ^ 52 \<and>
      0 \<le> amount (cs_withdrawnAmount s) \<and> amount (cs_withdrawnAmount s) \<le> 2 ^ 52 \<and>
      0 \<le> amount (cs_depositedAmount s) \<and> amount (cs_depositedAmount s) \<le> 2 ^ 52 \<and>
      0 \<le> cs_lastUpdateTime s \<and> cs_lastUpdateTime s \<le> 2 ^ 52 \<and>
      (case cs_pausedAt s of None \<Rightarrow> True | Some q \<Rightarrow> 0 < q \<and> q \<le> 2 ^ 52))"

lemma details_elapsed:
  assumes "smallState s" "0 \<le> t" "t \<le> 2 ^ 52"
  shows "effectiveElapsed (detailsParams s) (1000 * t) = Fin (of_int (elapsedAt s t))"
proof -
  have n: "nowSecondsOf (1000 * t) = Fin (of_int t)" using fl_whole [of t] assms(2,3) by (simp add: nowSecondsOf_def)
  let ?l = "cs_lastUpdateTime s"
  have l: "0 \<le> ?l" "?l \<le> 2 ^ 52" using assms(1) by (simp_all add: smallState_def)
  have e: "Math_max (Fin 0) (numSub (Fin (of_int t)) (Fin (of_int ?l))) = Fin (of_int (max 0 (t - ?l)))"
    using sub_whole [of t ?l] max_whole [of 0 "t - ?l"] assms(2,3) l by simp
  have E: "\<bar>max 0 (t - ?l)\<bar> \<le> 2 ^ 52" using assms(2,3) l by simp
  have z: "numSub (Fin (of_int (max 0 (t - ?l)))) (Fin 0) = Fin (of_int (max 0 (t - ?l)))"
    using sub_whole [OF E, of 0] by simp
  show ?thesis
  proof (cases "cs_isPaused s \<and> cs_pausedAt s \<noteq> None")
    case False
    then show ?thesis
      using z max_whole [of 0 "max 0 (t - ?l)"] assms(2) l
      by (auto simp: effectiveElapsed_def detailsParams_def n e truthyNum_def elapsedAt_def Let_def split: option.split bool.split)
  next
    case True
    then obtain q where q: "cs_isPaused s" "cs_pausedAt s = Some q" "0 < q" "q \<le> 2 ^ 52" using assms(1) by (auto simp: smallState_def)
    have c: "Math_max (Fin 0) (numSub (Fin (of_int t)) (Fin (of_int q))) = Fin (of_int (max 0 (t - q)))"
      using sub_whole [of t q] max_whole [of 0 "t - q"] assms(2,3) q by simp
    have "numSub (Fin (of_int (max 0 (t - ?l)))) (Fin (of_int (max 0 (t - q)))) = Fin (of_int (max 0 (t - ?l) - max 0 (t - q)))"
      by (rule sub_whole) (use assms(2,3) l q in auto)
    then show ?thesis
      using z max_whole [of 0 "max 0 (t - ?l) - max 0 (t - q)"] assms(2) l q
      by (auto simp: effectiveElapsed_def detailsParams_def n e c truthyNum_def elapsedAt_def Let_def)
  qed
qed

text \<open>A product too large to be exact is still above a bound of 53 bits.\<close>

lemma min_product:
  assumes "0 \<le> a" "0 \<le> b" "a \<le> 2 ^ 52" "b \<le> 2 ^ 52" "0 \<le> m" "m \<le> 2 ^ 53"
  shows "clampNum (numMult (Fin (of_int a)) (Fin (of_int b))) (Fin 0) (Fin (of_int m)) = Fin (of_int (min (a * b) m))"
proof (cases "a * b \<le> 2 ^ 53")
  case True
  then have "fl (of_int a * of_int b) = Fin (of_int (a * b))" using fl_whole [of "a * b"] assms(1,2) by simp
  then show ?thesis using assms(1,2) max_whole [of 0 "a * b"] min_whole [of m "a * b"] by (simp add: clampNum_def min.commute)
next
  case False
  have "(of_int (a * b) :: rat) \<le> of_int (2 ^ 52 * 2 ^ 52)" unfolding of_int_le_iff using assms by (intro mult_mono) auto
  also have "\<dots> \<le> 2 ^ 1023" by simp
  finally have hi: "of_int (a * b) \<le> (2 ^ 1023 :: rat)" .
  have "\<exists>r. fl (of_int (a * b)) = Fin r \<and> of_int (2 ^ 53) \<le> r"
    by (rule fl_ge) (use False hi in \<open>simp_all only: of_int_le_iff, simp_all\<close>)
  then obtain r where r: "fl (of_int a * of_int b) = Fin r" "of_int (2 ^ 53) \<le> r" by auto
  have "(of_int m :: rat) \<le> of_int (2 ^ 53)" using assms(6) by (simp only: of_int_le_iff)
  with r assms(5) have "of_int m \<le> r" "0 \<le> r" by linarith+
  moreover have "min (a * b) m = m" using False assms(6) by simp
  ultimately show ?thesis using r(1) by (auto simp: clampNum_def Math_max_def Math_min_def)
qed

lemma min_left_max: "0 \<le> a \<Longrightarrow> min a (max 0 b) = max 0 (min a (b :: int))"
  by (auto simp: min_def max_def)

lemma live_shown:
  assumes "smallState s" "0 \<le> t" "t \<le> 2 ^ 52"
  shows "liveClaimable (lv_claimable (startLive (detailsParams s) reduceMotion (1000 * t) clock)) = claimableSpec (s\<lparr>cs_isActive := True\<rparr>) t"
proof -
  let ?r = "amount (cs_ratePerSecond s)" and ?d = "amount (cs_depositedAmount s)" and ?w = "amount (cs_withdrawnAmount s)"
  have b: "0 \<le> ?r" "?r \<le> 2 ^ 52" "0 \<le> ?w" "?w \<le> 2 ^ 52" "0 \<le> ?d" "?d \<le> 2 ^ 52" "0 \<le> cs_lastUpdateTime s"
    using assms(1) by (simp_all add: smallState_def)
  have e: "0 \<le> elapsedAt s t" "elapsedAt s t \<le> 2 ^ 52"
    using elapsedAt_nonneg assms(2,3) b(7) by (auto simp: elapsedAt_def Let_def split: option.split bool.split)
  have x: "fl (of_int ?r) = Fin (of_int ?r)" "fl (of_int ?d) = Fin (of_int ?d)" "fl (of_int ?w) = Fin (of_int ?w)"
    using fl_whole [of ?r] fl_whole [of ?d] fl_whole [of ?w] b by simp_all
  have m: "maxClaimable (detailsParams s) = Fin (of_int (max 0 (?d - ?w)))"
    using sub_whole [of ?d ?w] max_whole [of "?d - ?w" 0] b by (simp add: maxClaimable_def detailsParams_def x max.commute)
  have "computeLive (detailsParams s) (1000 * t) = Fin (of_int (min (elapsedAt s t * ?r) (max 0 (?d - ?w))))"
    unfolding computeLive_def details_elapsed [OF assms] m
    using min_product [OF e(1) b(1) e(2) b(2), of "max 0 (?d - ?w)"] b by (simp add: detailsParams_def x)
  moreover have "elapsedAt (s\<lparr>cs_isActive := True\<rparr>) t = elapsedAt s t" by (simp add: elapsedAt_def)
  moreover have "min (elapsedAt s t * ?r) (max 0 (?d - ?w)) = max 0 (min (elapsedAt s t * ?r) (?d - ?w))"
    by (rule min_left_max) (rule mult_nonneg_nonneg [OF e(1) b(1)])
  ultimately show ?thesis by (simp add: startLive_def claimableSpec_def)
qed





lemma inactive_still_shown:
  assumes "smallState s" "\<not> cs_isActive s" "0 \<le> t" "t \<le> 2 ^ 52" "0 < elapsedAt s t" "0 < amount (cs_ratePerSecond s)"
    and left: "amount (cs_withdrawnAmount s) < amount (cs_depositedAmount s)"
  shows "claimableSpec s t = 0 \<and> 0 < liveClaimable (lv_claimable (startLive (detailsParams s) reduceMotion (1000 * t) clock))"
proof -
  have "elapsedAt (s\<lparr>cs_isActive := True\<rparr>) t = elapsedAt s t" by (simp add: elapsedAt_def)
  then show ?thesis using assms live_shown [OF assms(1,3,4)] mult_pos_pos [OF assms(5,6)] by (simp add: claimableSpec_def)
qed

end
