(* ===== verification/Wallet_Session.thy ===== *)
theory Wallet_Session
  imports Json_Text Wallet_Client
begin

text \<open>
  The wallet session of the web client: connecting to a wallet (\<open>frontend/src/lib/wallet.ts\<close>), the reducer
  and the stored session (\<open>frontend/src/context/wallet-context.tsx\<close>). The wallet extensions and the
  clock are parameters; \<open>localStorage\<close> is the text under the session's key.
\<close>

section \<open>Connecting\<close>

record WalletDescriptor =
  wd_id :: string
  wd_name :: string
  wd_badge :: string
  wd_description :: string

record WalletSession =
  ws_walletId :: string
  ws_walletName :: string
  ws_publicKey :: string
  ws_connectedAt :: string
  ws_network :: string
  ws_mocked :: bool

definition SUPPORTED_WALLETS :: "WalletDescriptor list" where
  "SUPPORTED_WALLETS =
     [\<lparr>wd_id = ''freighter'', wd_name = ''Freighter'', wd_badge = ''Extension'', wd_description = ''Direct browser wallet for Stellar accounts and Soroban apps.''\<rparr>,
      \<lparr>wd_id = ''albedo'', wd_name = ''Albedo'', wd_badge = ''Web / Mobile'', wd_description = ''Popup wallet for browser and mobile users.''\<rparr>,
      \<lparr>wd_id = ''xbull'', wd_name = ''xBull'', wd_badge = ''Extension / Web'', wd_description = ''Stellar wallet for desktop and web users.''\<rparr>,
      \<lparr>wd_id = ''hana'', wd_name = ''Hana'', wd_badge = ''Extension'', wd_description = ''Secure Stellar browser wallet.''\<rparr>,
      \<lparr>wd_id = ''walletconnect'', wd_name = ''WalletConnect'', wd_badge = ''Mobile'', wd_description = ''Connect mobile wallets with WalletConnect.''\<rparr>]"

definition walletOf :: "string \<Rightarrow> WalletDescriptor option" where
  "walletOf i = find (\<lambda>w. wd_id w = i) SUPPORTED_WALLETS"

datatype wallet_error = FreighterNotInstalledError | WalletError string | ThrownText string | ThrownOther

definition STELLAR_NETWORK :: "string option \<Rightarrow> string" where
  "STELLAR_NETWORK env = (case env of None \<Rightarrow> ''TESTNET'' | Some s \<Rightarrow> s)"

definition STELLAR_NETWORK_ID :: "string option \<Rightarrow> string" where
  "STELLAR_NETWORK_ID env =
     (if STELLAR_NETWORK env = ''MAINNET'' then ''Public Global Stellar Network ; September 2015''
      else ''Test SDF Network ; September 2015'')"

definition buildSession :: "string \<Rightarrow> string \<Rightarrow> string \<Rightarrow> string \<Rightarrow> wallet_error + WalletSession" where
  "buildSession now walletId publicKey network =
     (case walletOf walletId of
        None \<Rightarrow> Inl (WalletError ''Unsupported wallet selected.'')
      | Some descriptor \<Rightarrow>
          Inr \<lparr>ws_walletId = walletId, ws_walletName = wd_name descriptor, ws_publicKey = publicKey, ws_connectedAt = now,
               ws_network = network, ws_mocked = False\<rparr>)"

text \<open>
  What the extension answers: whether it is there, a failing permission, the address with an error
  text (empty when there is none), and the passphrase of its network, \<open>None\<close> when asking failed.
\<close>

record freighter_ext =
  fx_isConnected :: "wallet_error + bool"
  fx_setAllowed :: "wallet_error option"
  fx_getAddress :: "wallet_error + (string \<times> string)"
  fx_passphrase :: "string option"

definition networkLabel :: "string \<Rightarrow> string" where
  "networkLabel passphrase =
     (let raw = lower passphrase in
      if contains ''public'' raw \<or> raw = ''mainnet'' then ''Mainnet''
      else if contains ''test'' raw \<or> contains ''sdf'' raw then ''Testnet'' else ''Other'')"

definition connectFreighter :: "string option \<Rightarrow> freighter_ext \<Rightarrow> string \<Rightarrow> wallet_error + WalletSession" where
  "connectFreighter env X now =
     (case fx_isConnected X of
        Inl e \<Rightarrow> Inl e
      | Inr False \<Rightarrow> Inl FreighterNotInstalledError
      | Inr True \<Rightarrow>
          (case fx_setAllowed X of
             Some e \<Rightarrow> Inl e
           | None \<Rightarrow>
               (case fx_getAddress X of
                  Inl e \<Rightarrow> Inl e
                | Inr (address, addressError) \<Rightarrow>
                    if address = [] \<or> addressError \<noteq> []
                    then Inl (WalletError (if addressError = [] then ''Freighter did not return a valid public key.'' else addressError))
                    else buildSession now ''freighter'' address
                      (case fx_passphrase X of
                         Some p \<Rightarrow> if p = [] then (if contains ''public'' (lower (STELLAR_NETWORK_ID env)) then ''Mainnet'' else ''Testnet'') else networkLabel p
                       | None \<Rightarrow> if contains ''public'' (lower (STELLAR_NETWORK_ID env)) then ''Mainnet'' else ''Testnet''))))"

text \<open>Another wallet: the object the page finds under its name, with a \<open>connect\<close> method or without.\<close>

datatype wallet_bridge = NoBridge | NoConnect | Bridge "wallet_error + (string option \<times> string option)"

definition connectWallet :: "string option \<Rightarrow> freighter_ext \<Rightarrow> (string \<Rightarrow> wallet_bridge) \<Rightarrow> string \<Rightarrow> string \<Rightarrow> wallet_error + WalletSession" where
  "connectWallet env X bridgeOf now walletId =
     (if walletId = ''freighter'' then connectFreighter env X now
      else case bridgeOf walletId of
        NoBridge \<Rightarrow> Inl (WalletError ((case walletOf walletId of Some w \<Rightarrow> wd_name w | None \<Rightarrow> walletId) @ '' is not installed or available.''))
      | NoConnect \<Rightarrow> Inl (WalletError (walletId @ '' does not expose a compatible connect API.''))
      | Bridge (Inl e) \<Rightarrow> Inl e
      | Bridge (Inr (publicKey, address)) \<Rightarrow>
          (let key = (case publicKey of Some k \<Rightarrow> k | None \<Rightarrow> (case address of Some a \<Rightarrow> a | None \<Rightarrow> [])) in
           if key = [] then Inl (WalletError (walletId @ '' did not return a public key.''))
           else buildSession now walletId key (if STELLAR_NETWORK env = ''MAINNET'' then ''Mainnet'' else ''Testnet'')))"

fun userAbort :: "string \<Rightarrow> bool" where
  "userAbort [] = False"
| "userAbort (c # cs) =
     ((startsWith (c # cs) ''user'' \<and> contains ''abort'' (takeWhile (\<lambda>x. x \<noteq> CHR 0x0A \<and> x \<noteq> CHR 0x0D) (drop 4 (c # cs)))) \<or> userAbort cs)"

definition userRejected :: "string \<Rightarrow> bool" where
  "userRejected message =
     (let l = lower message in
      list_ex (\<lambda>p. contains p l) [''rejected'', ''declined'', ''denied'', ''canceled'', ''cancelled'', ''closed''] \<or> userAbort l)"

definition toWalletErrorMessage :: "wallet_error \<Rightarrow> string" where
  "toWalletErrorMessage e =
     (case e of
        FreighterNotInstalledError \<Rightarrow> ''Freighter extension is not installed. Please install it from freighter.app.''
      | _ \<Rightarrow>
          (let baseMessage = (case e of WalletError m \<Rightarrow> m | ThrownText t \<Rightarrow> t | _ \<Rightarrow> ''Wallet connection failed. Please try again.'')
           in if userRejected baseMessage then ''You rejected the connection request. Try again when ready.'' else baseMessage))"

definition shortenPublicKey :: "string \<Rightarrow> string" where
  "shortenPublicKey publicKey =
     (if length publicKey \<le> 14 then publicKey else take 7 publicKey @ ''...'' @ drop (length publicKey - 7) publicKey)"

definition formatNetwork :: "string \<Rightarrow> string" where
  "formatNetwork network =
     (let n = lower (trim network) in
      if contains ''public'' n \<or> n = ''mainnet'' then ''Mainnet''
      else if contains ''test'' n \<or> contains ''sdf'' n then ''Testnet'' else network)"

definition isExpectedNetwork :: "string option \<Rightarrow> string \<Rightarrow> bool" where
  "isExpectedNetwork env sessionNetwork =
     (formatNetwork sessionNetwork = (if STELLAR_NETWORK env = ''MAINNET'' then ''Mainnet'' else ''Testnet''))"

section \<open>The state of the page\<close>

datatype WalletStatus = Idle | Connecting | Connected | ErrorStatus

record WalletState =
  st_status :: WalletStatus
  st_session :: "WalletSession option"
  st_selectedWalletId :: "string option"
  st_errorMessage :: "string option"
  st_isHydrated :: bool

datatype WalletAction =
    Hydrate "WalletSession option"
  | ConnectStart string
  | ConnectSuccess WalletSession
  | ConnectError string
  | Disconnect
  | ErrorClear

definition INITIAL_STATE :: WalletState where
  "INITIAL_STATE = \<lparr>st_status = Idle, st_session = None, st_selectedWalletId = None, st_errorMessage = None, st_isHydrated = False\<rparr>"

fun walletReducer :: "WalletState \<Rightarrow> WalletAction \<Rightarrow> WalletState" where
  "walletReducer s (Hydrate None) = s\<lparr>st_isHydrated := True\<rparr>"
| "walletReducer s (Hydrate (Some ses)) =
     \<lparr>st_status = Connected, st_session = Some ses, st_selectedWalletId = Some (ws_walletId ses), st_errorMessage = None, st_isHydrated = True\<rparr>"
| "walletReducer s (ConnectStart walletId) = s\<lparr>st_status := Connecting, st_selectedWalletId := Some walletId, st_errorMessage := None\<rparr>"
| "walletReducer s (ConnectSuccess ses) =
     s\<lparr>st_status := Connected, st_session := Some ses, st_selectedWalletId := Some (ws_walletId ses), st_errorMessage := None\<rparr>"
| "walletReducer s (ConnectError message) = s\<lparr>st_status := ErrorStatus, st_session := None, st_errorMessage := Some message\<rparr>"
| "walletReducer s Disconnect = s\<lparr>st_status := Idle, st_session := None, st_selectedWalletId := None, st_errorMessage := None\<rparr>"
| "walletReducer s ErrorClear =
     s\<lparr>st_errorMessage := None, st_status := if st_status s = ErrorStatus then Idle else st_status s\<rparr>"

section \<open>The stored session\<close>

definition sessionJson :: "WalletSession \<Rightarrow> json" where
  "sessionJson s =
     JObj [(''walletId'', JStr (ws_walletId s)), (''walletName'', JStr (ws_walletName s)), (''publicKey'', JStr (ws_publicKey s)),
       (''connectedAt'', JStr (ws_connectedAt s)), (''network'', JStr (ws_network s)), (''mocked'', JBool (ws_mocked s))]"

definition isWalletSession :: "jvalue \<Rightarrow> WalletSession option" where
  "isWalletSession v =
     (case (getProperty v ''walletId'', getProperty v ''walletName'', getProperty v ''publicKey'', getProperty v ''connectedAt'',
            getProperty v ''network'', getProperty v ''mocked'') of
        (Some (VStr i), Some (VStr n), Some (VStr k), Some (VStr c), Some (VStr w), Some (VBool False)) \<Rightarrow>
          if walletOf i = None then None
          else Some \<lparr>ws_walletId = i, ws_walletName = n, ws_publicKey = k, ws_connectedAt = c, ws_network = w, ws_mocked = False\<rparr>
      | _ \<Rightarrow> None)"

text \<open>The session and what is left in the storage: a text that is no session is removed.\<close>

definition readStoredSession :: "string option \<Rightarrow> WalletSession option \<times> string option" where
  "readStoredSession stored =
     (case stored of
        None \<Rightarrow> (None, None)
      | Some raw \<Rightarrow>
          if raw = [] then (None, Some raw)
          else (case JSON_parse raw of
                  None \<Rightarrow> (None, None)
                | Some parsed \<Rightarrow> (case isWalletSession parsed of Some s \<Rightarrow> (Some s, Some raw) | None \<Rightarrow> (None, None))))"

definition storeSession :: "WalletSession \<Rightarrow> string option" where
  "storeSession s = Some (JSON_stringify (sessionJson s))"

section \<open>Runs of the page\<close>

text \<open>The state, the stored text, and the connection attempts that wait for their wallet.\<close>

record wallet_page =
  wp_state :: WalletState
  wp_stored :: "string option"
  wp_waiting :: "string list"

definition mountWallet :: "string option \<Rightarrow> wallet_page" where
  "mountWallet stored =
     (let (s, stored') = readStoredSession stored
      in \<lparr>wp_state = walletReducer INITIAL_STATE (Hydrate s), wp_stored = stored', wp_waiting = []\<rparr>)"

definition beginConnect :: "string \<Rightarrow> wallet_page \<Rightarrow> wallet_page" where
  "beginConnect walletId p =
     p\<lparr>wp_state := walletReducer (wp_state p) (ConnectStart walletId), wp_waiting := walletId # wp_waiting p\<rparr>"

text \<open>\<open>full\<close>: writing to the storage throws, which is caught like a failed connection.\<close>

definition endConnect :: "string \<Rightarrow> wallet_error + WalletSession \<Rightarrow> wallet_error option \<Rightarrow> wallet_page \<Rightarrow> wallet_page" where
  "endConnect walletId r full p =
     (let p1 = p\<lparr>wp_waiting := remove1 walletId (wp_waiting p)\<rparr>;
          failed = (\<lambda>st e. p1\<lparr>wp_state := walletReducer st (ConnectError (toWalletErrorMessage e)), wp_stored := None\<rparr>)
      in case r of
           Inl e \<Rightarrow> failed (wp_state p) e
         | Inr s \<Rightarrow>
             (let st = walletReducer (wp_state p) (ConnectSuccess s)
              in case full of None \<Rightarrow> p1\<lparr>wp_state := st, wp_stored := storeSession s\<rparr> | Some e \<Rightarrow> failed st e))"

definition disconnect :: "wallet_page \<Rightarrow> wallet_page" where
  "disconnect p = p\<lparr>wp_state := walletReducer (wp_state p) Disconnect, wp_stored := None\<rparr>"

definition clearError :: "wallet_page \<Rightarrow> wallet_page" where
  "clearError p = p\<lparr>wp_state := walletReducer (wp_state p) ErrorClear\<rparr>"

inductive wallet_run :: "string option \<Rightarrow> string option \<Rightarrow> wallet_page \<Rightarrow> bool" for env stored where
  mount: "wallet_run env stored (mountWallet stored)"
| begin_connect: "wallet_run env stored p \<Longrightarrow> wallet_run env stored (beginConnect walletId p)"
| end_connect: "wallet_run env stored p \<Longrightarrow> walletId \<in> set (wp_waiting p) \<Longrightarrow>
    wallet_run env stored (endConnect walletId (connectWallet env X bridgeOf now walletId) full p)"
| disconnects: "wallet_run env stored p \<Longrightarrow> wallet_run env stored (disconnect p)"
| clears: "wallet_run env stored p \<Longrightarrow> wallet_run env stored (clearError p)"

lemma connected_session:
  assumes "connectWallet env X bridgeOf now walletId = Inr s"
  shows "ws_walletId s = walletId \<and> walletOf walletId \<noteq> None \<and> ws_publicKey s \<noteq> [] \<and> \<not> ws_mocked s"
proof -
  have b: "buildSession now i k n = Inr s \<Longrightarrow> ws_walletId s = i \<and> walletOf i \<noteq> None \<and> ws_publicKey s = k \<and> \<not> ws_mocked s" for i k n
    by (auto simp: buildSession_def split: option.splits)
  show ?thesis
    using assms by (auto simp: connectWallet_def connectFreighter_def Let_def dest!: b split: if_splits sum.splits bool.splits option.splits wallet_bridge.splits prod.splits)
qed

lemma stored_session_read: "walletOf (ws_walletId s) \<noteq> None \<Longrightarrow> \<not> ws_mocked s \<Longrightarrow> readStoredSession (storeSession s) = (Some s, storeSession s)"
proof -
  assume s: "walletOf (ws_walletId s) \<noteq> None" "\<not> ws_mocked s"
  have "JSON_parse (JSON_stringify (sessionJson s)) = Some (ofJson (sessionJson s))" by (rule parse_stringify) (simp add: sessionJson_def)
  moreover have "isWalletSession (ofJson (sessionJson s)) = Some s" using s by (cases s) (simp add: isWalletSession_def sessionJson_def)
  moreover have "JSON_stringify (sessionJson s) \<noteq> []" by (simp add: sessionJson_def)
  ultimately show ?thesis by (simp add: readStoredSession_def storeSession_def)
qed

definition page_ok :: "wallet_page \<Rightarrow> bool" where
  "page_ok p =
     (let st = wp_state p in
      fst (readStoredSession (wp_stored p)) = st_session st \<and> (st_status st = Connected \<longrightarrow> st_session st \<noteq> None) \<and>
      (st_status st \<in> {Idle, ErrorStatus} \<longrightarrow> st_session st = None) \<and>
      (case st_session st of None \<Rightarrow> True | Some s \<Rightarrow> walletOf (ws_walletId s) \<noteq> None \<and> \<not> ws_mocked s))"

lemma mount_session: "st_session (wp_state (mountWallet stored)) = fst (readStoredSession stored)"
proof (cases "readStoredSession stored")
  case (Pair ses stored')
  then show ?thesis by (cases ses) (simp_all add: mountWallet_def INITIAL_STATE_def)
qed

lemma read_twice: "fst (readStoredSession (snd (readStoredSession stored))) = fst (readStoredSession stored)"
  by (auto simp: readStoredSession_def split: option.split)

lemma stored_is_session: "fst (readStoredSession stored) = Some s \<Longrightarrow> walletOf (ws_walletId s) \<noteq> None \<and> \<not> ws_mocked s"
proof -
  have "isWalletSession v = Some s \<Longrightarrow> walletOf (ws_walletId s) \<noteq> None \<and> \<not> ws_mocked s" for v
    by (auto simp: isWalletSession_def split: option.splits jvalue.splits bool.splits if_splits)
  then show "fst (readStoredSession stored) = Some s \<Longrightarrow> ?thesis" by (auto simp: readStoredSession_def split: option.splits if_splits)
qed

lemma mount_ok: "page_ok (mountWallet stored)"
proof (cases "readStoredSession stored")
  case (Pair ses stored')
  have "fst (readStoredSession stored') = ses" using read_twice [of stored] by (simp add: Pair)
  moreover have "ses = Some s \<Longrightarrow> walletOf (ws_walletId s) \<noteq> None \<and> \<not> ws_mocked s" for s
    using stored_is_session [of stored s] by (simp add: Pair)
  ultimately show ?thesis by (cases ses) (simp_all add: page_ok_def mountWallet_def Pair INITIAL_STATE_def)
qed

lemma nothing_stored: "fst (readStoredSession None) = None"
  by (simp add: readStoredSession_def)

lemma run_ok: "wallet_run env stored p \<Longrightarrow> page_ok p"
proof (induction rule: wallet_run.induct)
  case mount
  show ?case by (rule mount_ok)
next
  case (begin_connect p walletId)
  then show ?case by (simp add: page_ok_def beginConnect_def Let_def)
next
  case (end_connect p walletId X bridgeOf now full)
  show ?case
  proof (cases "connectWallet env X bridgeOf now walletId")
    case (Inl e)
    then show ?thesis by (simp add: page_ok_def endConnect_def nothing_stored)
  next
    case (Inr s)
    from connected_session [OF Inr] have "walletOf (ws_walletId s) \<noteq> None" "\<not> ws_mocked s" by auto
    then show ?thesis
      using stored_session_read [of s] by (cases full) (auto simp: Inr page_ok_def endConnect_def nothing_stored)
  qed
next
  case (disconnects p)
  show ?case by (simp add: page_ok_def disconnect_def nothing_stored)
next
  case (clears p)
  then show ?case by (auto simp: page_ok_def clearError_def Let_def)
qed

text \<open>C40. The page and the storage agree in every run: opening the page anew at any moment restores exactly
  the session the page shows, or none when it shows none. A page that says it is connected has a
  session, of a supported wallet, and one that is idle or shows an error has none.
\<close>
theorem stored_session_agrees:
  assumes "wallet_run env stored p"
  shows "st_session (wp_state (mountWallet (wp_stored p))) = st_session (wp_state p) \<and>
    (st_status (wp_state p) = Connected \<longrightarrow> st_session (wp_state p) \<noteq> None) \<and>
    (st_status (wp_state p) \<in> {Idle, ErrorStatus} \<longrightarrow> st_session (wp_state p) = None) \<and>
    (case st_session (wp_state p) of None \<Rightarrow> True | Some s \<Rightarrow> walletOf (ws_walletId s) \<noteq> None \<and> \<not> ws_mocked s)"
  using run_ok [OF assms] unfolding mount_session by (simp add: page_ok_def Let_def)

definition exampleExt :: freighter_ext where
  "exampleExt = \<lparr>fx_isConnected = Inr True, fx_setAllowed = None, fx_getAddress = Inr (''GA'', []),
     fx_passphrase = Some ''Test SDF Future Network ; October 2022''\<rparr>"

lemma example_connect:
  "connectWallet None exampleExt b ''2026'' ''freighter'' = Inr \<lparr>ws_walletId = ''freighter'', ws_walletName = ''Freighter'', ws_publicKey = ''GA'',
     ws_connectedAt = ''2026'', ws_network = ''Testnet'', ws_mocked = False\<rparr>"
proof -
  have "networkLabel ''Test SDF Future Network ; October 2022'' = ''Testnet''" by code_simp
  then show ?thesis
    by (simp add: connectWallet_def connectFreighter_def exampleExt_def buildSession_def walletOf_def SUPPORTED_WALLETS_def)
qed

theorem stored_session_agrees_witness:
  "\<exists>p s. wallet_run None None p \<and> st_session (wp_state (mountWallet (wp_stored p))) = Some s \<and> ws_publicKey s = ''GA''"
proof -
  let ?p = "endConnect ''freighter'' (connectWallet None exampleExt (\<lambda>_. NoBridge) ''2026'' ''freighter'') None (beginConnect ''freighter'' (mountWallet None))"
  have "wallet_run None None ?p"
    by (intro wallet_run.end_connect wallet_run.begin_connect wallet_run.mount) (simp add: beginConnect_def)
  moreover from stored_session_agrees [OF this]
  have "st_session (wp_state (mountWallet (wp_stored ?p))) = st_session (wp_state ?p)" by blast
  moreover obtain s where "st_session (wp_state ?p) = Some s" "ws_publicKey s = ''GA''"
    by (simp add: endConnect_def example_connect)
  ultimately have "wallet_run None None ?p \<and> st_session (wp_state (mountWallet (wp_stored ?p))) = Some s \<and> ws_publicKey s = ''GA''" by (simp only:)
  then show ?thesis by blast
qed

text \<open>A connection that completes after the user has disconnected connects the page again.\<close>

lemma disconnect_undone:
  "connectWallet env X b now i = Inr s \<Longrightarrow>
     st_status (wp_state (endConnect i (connectWallet env X b now i) None (disconnect (beginConnect i p)))) = Connected"
  by (simp add: endConnect_def)

text \<open>A wallet on the future network passes for one on the test network.\<close>

lemma futurenet_expected: "isExpectedNetwork None (networkLabel ''Test SDF Future Network ; October 2022'')"
  by code_simp

end
