(* ===== verification/Stream_Feed.thy ===== *)
theory Stream_Feed
  imports Live_Amounts Wallet_Session
begin

text \<open>
  How the web client reads streams and withdraws from them: the endpoints it tries
  (\<open>frontend/src/lib/api/_shared.ts\<close>), the incoming streams (\<open>lib/api/streams.ts\<close>), the dashboard
  (\<open>lib/dashboard.ts\<close>), and the withdrawal with its optimistic update and its polling
  (\<open>hooks/useIncomingStreams.ts\<close>). The network is a function from endpoints to answers; the times
  of the backend are milliseconds already parsed.
\<close>

section \<open>Endpoints\<close>

definition endsWith :: "string \<Rightarrow> string \<Rightarrow> bool" where
  "endsWith s t = (length t \<le> length s \<and> drop (length s - length t) s = t)"

definition dropEnd :: "string \<Rightarrow> string \<Rightarrow> string" where
  "dropEnd s t = (if endsWith s t then take (length s - length t) s else s)"

definition getApiBaseUrl :: "string option \<Rightarrow> string" where
  "getApiBaseUrl env =
     rev (dropWhile (\<lambda>c. c = CHR ''/'') (rev (case env of None \<Rightarrow> ''http://localhost:3001'' | Some u \<Rightarrow> u)))"

definition getStreamsEndpointCandidates :: "string option \<Rightarrow> string list" where
  "getStreamsEndpointCandidates env =
     (let baseUrl = getApiBaseUrl env in
      remdups
        (if endsWith baseUrl ''/api/v1'' \<or> endsWith baseUrl ''/v1'' then [baseUrl @ ''/streams'']
         else if endsWith baseUrl ''/api'' then [baseUrl @ ''/v1/streams'', dropEnd baseUrl ''/api'' @ ''/v1/streams'']
         else [baseUrl @ ''/api/v1/streams'', baseUrl @ ''/v1/streams'']))"

definition toTokenAmount :: "string \<Rightarrow> jsnum" where
  "toTokenAmount raw = numDiv (parseFloat raw) (Fin 10000000)"

text \<open>\<open>FetchAborted\<close> is an \<open>AbortError\<close>; the body of an answer is its array, or the array under \<open>data\<close>.\<close>

record BackendStream =
  bs_id :: string
  bs_streamId :: int
  bs_sender :: string
  bs_recipient :: string
  bs_tokenAddress :: string
  bs_ratePerSecond :: string
  bs_depositedAmount :: string
  bs_withdrawnAmount :: string
  bs_startTime :: int
  bs_lastUpdateTime :: int
  bs_isActive :: bool
  bs_isPaused :: "bool option"
  bs_pausedAt :: "int option"
  bs_totalPausedDuration :: "int option"
  bs_createdAt :: int
  bs_events :: "string list option"

datatype fetch_answer = FetchAborted | FetchThrows string | Answer int "BackendStream list"

datatype feed_error = AbortError | FetchTimeoutError int | FeedError string

definition DEFAULT_FETCH_TIMEOUT_MS :: int where
  "DEFAULT_FETCH_TIMEOUT_MS = 10000"

definition fetchWithTimeout :: "int \<Rightarrow> fetch_answer \<Rightarrow> feed_error + (int \<times> BackendStream list)" where
  "fetchWithTimeout limitMs a =
     (case a of FetchAborted \<Rightarrow> Inl (FetchTimeoutError limitMs) | FetchThrows m \<Rightarrow> Inl (FeedError m) | Answer st body \<Rightarrow> Inr (st, body))"

definition okStatus :: "int \<Rightarrow> bool" where
  "okStatus st = (200 \<le> st \<and> st \<le> 299)"

definition statusError :: "string \<Rightarrow> int \<Rightarrow> string \<Rightarrow> string" where
  "statusError what st endpoint =
     (if st = 404 then ''Endpoint not found: '' @ endpoint else ''Failed to fetch '' @ what @ '' ('' @ toString st @ '') from '' @ endpoint)"

section \<open>Incoming streams\<close>

datatype IncomingStreamStatus = ActiveIncoming | PausedIncoming | CompletedIncoming

record IncomingStreamRecord =
  in_id :: string
  in_streamId :: int
  in_sender :: string
  in_senderDisplay :: string
  in_token :: string
  in_tokenAddress :: string
  in_ratePerSecond :: jsnum
  in_deposited :: jsnum
  in_withdrawn :: jsnum
  in_startTime :: jsnum
  in_lastUpdateTime :: jsnum
  in_isActive :: bool
  in_isPaused :: bool
  in_pausedAt :: "jsnum option"
  in_totalPausedDuration :: jsnum
  in_status :: IncomingStreamStatus

definition tokenAddresses :: "(string \<rightharpoonup> string) \<Rightarrow> (string \<times> string) list" where
  "tokenAddresses configured =
     [(''USDC'', case configured ''USDC'' of Some a \<Rightarrow> a | None \<Rightarrow> ''CBIELTK6YBZJU5UP2WWQEUCYKLPU6AUNZ2BQ4WWFEIE3USCIHMXQDAMA''),
      (''XLM'', case configured ''XLM'' of Some a \<Rightarrow> a | None \<Rightarrow> ''CDLZFC3SYJYDZT7K67VZ75HPJVIEUVNIXF47ZG2FB2RMQQVU2HHGCN''),
      (''EURC'', case configured ''EURC'' of Some a \<Rightarrow> a | None \<Rightarrow> ''CCWAMYJME4YOIUNAKVYEBYOG5I65QMKEX2NMN4OJAPXRPIF24ONPSHY'')]"

definition tokenLabelOr :: "(string \<Rightarrow> string) \<Rightarrow> (string \<rightharpoonup> string) \<Rightarrow> string \<Rightarrow> string" where
  "tokenLabelOr short configured tokenAddr =
     (case find (\<lambda>(s, a). a = tokenAddr) (tokenAddresses configured) of Some (s, a) \<Rightarrow> s | None \<Rightarrow> short tokenAddr)"

definition lastFour :: "string \<Rightarrow> string" where
  "lastFour s = drop (length s - 4) s"

definition resolveTokenLabel :: "(string \<rightharpoonup> string) \<Rightarrow> string \<Rightarrow> string" where
  "resolveTokenLabel = tokenLabelOr (\<lambda>a. take 6 a @ ''...'' @ lastFour a)"

definition toIncomingStreamStatus :: "BackendStream \<Rightarrow> IncomingStreamStatus" where
  "toIncomingStreamStatus s =
     (if bs_isPaused s = Some True then PausedIncoming else if bs_isActive s then ActiveIncoming else CompletedIncoming)"

definition intNumber :: "int \<Rightarrow> jsnum" where
  "intNumber i = fl (of_int i)"

definition mapBackendStream :: "(string \<rightharpoonup> string) \<Rightarrow> BackendStream \<Rightarrow> IncomingStreamRecord" where
  "mapBackendStream configured s =
     \<lparr>in_id = bs_id s, in_streamId = bs_streamId s, in_sender = bs_sender s, in_senderDisplay = shortenPublicKey (bs_sender s),
      in_token = resolveTokenLabel configured (bs_tokenAddress s), in_tokenAddress = bs_tokenAddress s,
      in_ratePerSecond = toTokenAmount (bs_ratePerSecond s), in_deposited = toTokenAmount (bs_depositedAmount s),
      in_withdrawn = toTokenAmount (bs_withdrawnAmount s), in_startTime = intNumber (bs_startTime s),
      in_lastUpdateTime = intNumber (bs_lastUpdateTime s), in_isActive = bs_isActive s,
      in_isPaused = (case bs_isPaused s of None \<Rightarrow> False | Some b \<Rightarrow> b), in_pausedAt = map_option intNumber (bs_pausedAt s),
      in_totalPausedDuration = (case bs_totalPausedDuration s of None \<Rightarrow> Fin 0 | Some d \<Rightarrow> intNumber d),
      in_status = toIncomingStreamStatus s\<rparr>"

text \<open>Each endpoint in turn; an exception ends the search, another status than 2xx goes on to the next.\<close>

fun incomingFrom :: "(string \<Rightarrow> fetch_answer) \<Rightarrow> int \<Rightarrow> string list \<Rightarrow> string option \<Rightarrow> feed_error + BackendStream list" where
  "incomingFrom fetch limitMs [] lastError =
     Inl (FeedError (case lastError of Some e \<Rightarrow> e | None \<Rightarrow> ''Failed to fetch incoming streams from backend.''))"
| "incomingFrom fetch limitMs (endpoint # rest) lastError =
     (case fetchWithTimeout limitMs (fetch endpoint) of
        Inl e \<Rightarrow> Inl e
      | Inr (st, body) \<Rightarrow>
          if okStatus st then Inr body
          else incomingFrom fetch limitMs rest (Some (statusError ''incoming streams'' st endpoint)))"

definition fetchIncomingStreams :: "(string \<rightharpoonup> string) \<Rightarrow> string option \<Rightarrow> (string \<Rightarrow> fetch_answer) \<Rightarrow> feed_error + IncomingStreamRecord list" where
  "fetchIncomingStreams configured env fetch =
     map_sum id (map (mapBackendStream configured)) (incomingFrom fetch DEFAULT_FETCH_TIMEOUT_MS (getStreamsEndpointCandidates env) None)"

section \<open>The dashboard\<close>

datatype StreamStatus = ActiveStream | CompletedStream | PausedStream | CancelledStream

record DashboardStream =
  ds_id :: string
  ds_recipient :: string
  ds_amount :: jsnum
  ds_token :: string
  ds_status :: StreamStatus
  ds_deposited :: jsnum
  ds_withdrawn :: jsnum
  ds_ratePerSecond :: jsnum
  ds_lastUpdateTime :: int
  ds_isActive :: bool

record ActivityItem =
  ai_id :: string
  ai_title :: string
  ai_description :: string
  ai_amount :: jsnum
  ai_sent :: bool
  ai_timestamp :: int

record DashboardSnapshot =
  sn_totalSent :: jsnum
  sn_totalReceived :: jsnum
  sn_totalValueLocked :: jsnum
  sn_activeStreamsCount :: nat
  sn_recentActivity :: "ActivityItem list"
  sn_outgoingStreams :: "DashboardStream list"
  sn_incomingStreams :: "DashboardStream list"

definition shortenAddress :: "string \<Rightarrow> string" where
  "shortenAddress a = (if a = [] \<or> length a < 10 then a else take 6 a @ ''...'' @ lastFour a)"

definition dashboardTokenLabel :: "(string \<rightharpoonup> string) \<Rightarrow> string \<Rightarrow> string" where
  "dashboardTokenLabel = tokenLabelOr shortenAddress"

definition mapStreamStatus :: "BackendStream \<Rightarrow> StreamStatus" where
  "mapStreamStatus s =
     (if bs_isPaused s = Some True then PausedStream
      else if bs_isActive s then ActiveStream
      else if (case bs_events s of None \<Rightarrow> False | Some es \<Rightarrow> ''CANCELLED'' \<in> set es) then CancelledStream
      else CompletedStream)"

definition mapBackendStreamToFrontend :: "(string \<rightharpoonup> string) \<Rightarrow> BackendStream \<Rightarrow> string \<Rightarrow> DashboardStream" where
  "mapBackendStreamToFrontend configured s counterparty =
     \<lparr>ds_id = toString (bs_streamId s), ds_recipient = shortenAddress counterparty, ds_amount = toTokenAmount (bs_depositedAmount s),
      ds_token = dashboardTokenLabel configured (bs_tokenAddress s), ds_status = mapStreamStatus s,
      ds_deposited = toTokenAmount (bs_depositedAmount s), ds_withdrawn = toTokenAmount (bs_withdrawnAmount s),
      ds_ratePerSecond = toTokenAmount (bs_ratePerSecond s), ds_lastUpdateTime = bs_lastUpdateTime s, ds_isActive = bs_isActive s\<rparr>"

fun streamsFrom :: "(string \<Rightarrow> fetch_answer) \<Rightarrow> string list \<Rightarrow> string option \<Rightarrow> feed_error + BackendStream list" where
  "streamsFrom fetch [] lastError =
     Inl (FeedError (case lastError of Some e \<Rightarrow> e | None \<Rightarrow> ''Failed to fetch streams from backend.''))"
| "streamsFrom fetch (endpoint # rest) lastError =
     (case fetch endpoint of
        FetchAborted \<Rightarrow> Inl AbortError
      | FetchThrows m \<Rightarrow> streamsFrom fetch rest (Some m)
      | Answer st body \<Rightarrow> if okStatus st then Inr body else streamsFrom fetch rest (Some (statusError ''streams'' st endpoint)))"

definition activityOf :: "bool \<Rightarrow> BackendStream \<Rightarrow> ActivityItem" where
  "activityOf outgoing s =
     \<lparr>ai_id = (if outgoing then ''act-out-'' else ''act-in-'') @ bs_id s,
      ai_title = (if outgoing then ''Outgoing Stream'' else ''Incoming Stream''),
      ai_description = (if outgoing then ''Stream to '' @ shortenAddress (bs_recipient s) else ''Stream from '' @ shortenAddress (bs_sender s)),
      ai_amount = toTokenAmount (bs_depositedAmount s), ai_sent = outgoing, ai_timestamp = bs_createdAt s\<rparr>"

definition snapshotOf :: "(string \<rightharpoonup> string) \<Rightarrow> BackendStream list \<Rightarrow> BackendStream list \<Rightarrow> DashboardSnapshot" where
  "snapshotOf configured outgoing incoming =
     (let withdr = (\<lambda>s. toTokenAmount (bs_withdrawnAmount s)); activeOut = filter bs_isActive outgoing in
      \<lparr>sn_totalSent = foldl (\<lambda>t s. numAdd t (withdr s)) (Fin 0) outgoing,
       sn_totalReceived = foldl (\<lambda>t s. numAdd t (withdr s)) (Fin 0) incoming,
       sn_totalValueLocked = foldl (\<lambda>t s. numAdd t (numSub (toTokenAmount (bs_depositedAmount s)) (withdr s))) (Fin 0) activeOut,
       sn_activeStreamsCount = length activeOut,
       sn_recentActivity = take 10 (sort_key (\<lambda>a. - ai_timestamp a) (map (activityOf True) outgoing @ map (activityOf False) incoming)),
       sn_outgoingStreams = map (\<lambda>s. mapBackendStreamToFrontend configured s (bs_recipient s)) outgoing,
       sn_incomingStreams = map (\<lambda>s. mapBackendStreamToFrontend configured s (bs_sender s)) incoming\<rparr>)"

text \<open>The two requests run side by side; \<open>outFirst\<close> says which of two failures comes first.\<close>

definition fetchDashboardData ::
  "(string \<rightharpoonup> string) \<Rightarrow> string option \<Rightarrow> (string \<Rightarrow> fetch_answer) \<Rightarrow> (string \<Rightarrow> fetch_answer) \<Rightarrow> bool \<Rightarrow> feed_error + DashboardSnapshot" where
  "fetchDashboardData configured env fetchOut fetchIn outFirst =
     (let eps = getStreamsEndpointCandidates env in
      case (streamsFrom fetchOut eps None, streamsFrom fetchIn eps None) of
        (Inr outgoing, Inr incoming) \<Rightarrow> Inr (snapshotOf configured outgoing incoming)
      | (Inl e, Inl e') \<Rightarrow> Inl (if outFirst then e else e')
      | (Inl e, _) \<Rightarrow> Inl e
      | (_, Inl e) \<Rightarrow> Inl e)"

definition THIRTY_DAYS_MS :: int where
  "THIRTY_DAYS_MS = 30 * 24 * 60 * 60 * 1000"

text \<open>The four values: volume, net flow, value per stream and utilization.\<close>

definition getDashboardAnalytics :: "int \<Rightarrow> DashboardSnapshot option \<Rightarrow> (string \<times> jsnum option) list" where
  "getDashboardAnalytics now snapshot =
     (case snapshot of
        None \<Rightarrow> [(''total-volume-30d'', None), (''net-flow-30d'', None), (''avg-value-per-stream'', None), (''stream-utilization'', None)]
      | Some sn \<Rightarrow>
          (let recent = filter (\<lambda>a. now - THIRTY_DAYS_MS \<le> ai_timestamp a) (sn_recentActivity sn);
               total = (\<lambda>items. foldl (\<lambda>t a. numAdd t (ai_amount a)) (Fin 0) items);
               incoming30d = total (filter (\<lambda>a. \<not> ai_sent a) recent);
               outgoing30d = total (filter ai_sent recent);
               ss = sn_outgoingStreams sn @ sn_incomingStreams sn;
               totalDeposited = foldl (\<lambda>t s. numAdd t (ds_deposited s)) (Fin 0) ss;
               totalWithdrawn = foldl (\<lambda>t s. numAdd t (ds_withdrawn s)) (Fin 0) ss
           in [(''total-volume-30d'', Some (numAdd incoming30d outgoing30d)), (''net-flow-30d'', Some (numSub incoming30d outgoing30d)),
               (''avg-value-per-stream'',
                 if 0 < sn_activeStreamsCount sn then Some (numDiv (sn_totalValueLocked sn) (Fin (of_nat (sn_activeStreamsCount sn)))) else None),
               (''stream-utilization'', if numLess (Fin 0) totalDeposited then Some (numDiv totalWithdrawn totalDeposited) else None)]))"

section \<open>Withdrawing\<close>

text \<open>
  \<open>useWithdrawIncomingStream\<close>: the cache of the wallet's incoming streams, \<open>None\<close> when nothing has been
  loaded. The optimistic update returns the snapshot and the total expected afterwards.
\<close>

definition claimableNow :: "jsnum \<Rightarrow> IncomingStreamRecord \<Rightarrow> jsnum" where
  "claimableNow nowSeconds s =
     (let elapsed = Math_max (Fin 0) (numSub nowSeconds (in_lastUpdateTime s));
          currentPauseDuration =
            (if in_isPaused s \<and> truthyNum (in_pausedAt s) then Math_max (Fin 0) (numSub nowSeconds (the (in_pausedAt s))) else Fin 0);
          effective = Math_max (Fin 0) (numSub elapsed currentPauseDuration);
          accrued = numMult effective (in_ratePerSecond s)
      in Math_min (Math_max (Fin 0) (numSub (in_deposited s) (in_withdrawn s))) accrued)"

definition optimistic :: "jsnum \<Rightarrow> IncomingStreamRecord \<Rightarrow> IncomingStreamRecord" where
  "optimistic nowSeconds s =
     s\<lparr>in_withdrawn := numAdd (in_withdrawn s) (claimableNow nowSeconds s), in_lastUpdateTime := nowSeconds\<rparr>"

type_synonym feed_cache = "IncomingStreamRecord list option"

definition onMutate ::
  "string option \<Rightarrow> int \<Rightarrow> IncomingStreamRecord \<Rightarrow> feed_cache \<Rightarrow> (feed_cache \<times> jsnum) \<times> feed_cache" where
  "onMutate publicKey nowMs stream cache =
     (if publicKey = None \<or> publicKey = Some [] then ((None, in_withdrawn stream), cache)
      else case cache of
        None \<Rightarrow> ((None, in_withdrawn stream), None)
      | Some previous \<Rightarrow>
          (let nowSeconds = nowSecondsOf nowMs; hit = (\<lambda>s. in_id s = in_id stream);
               expected = (case filter hit previous of [] \<Rightarrow> in_withdrawn stream | xs \<Rightarrow> in_withdrawn (optimistic nowSeconds (last xs)))
           in ((Some previous, expected), Some (map (\<lambda>s. if hit s then optimistic nowSeconds s else s) previous))))"

definition onError_restore :: "string option \<Rightarrow> feed_cache \<Rightarrow> feed_cache \<Rightarrow> feed_cache" where
  "onError_restore publicKey previous cache =
     (if publicKey \<noteq> None \<and> publicKey \<noteq> Some [] \<and> previous \<noteq> None then previous else cache)"

text \<open>
  The polling: when the signal is aborted before an attempt, after its delay or after its answer, and
  the answer of each attempt, \<open>None\<close> when it throws.
\<close>

record poll_env =
  pe_abortedBefore :: "nat \<Rightarrow> bool"
  pe_abortedAfterDelay :: "nat \<Rightarrow> bool"
  pe_abortedAfterFetch :: "nat \<Rightarrow> bool"
  pe_answer :: "nat \<Rightarrow> IncomingStreamRecord list option"
  pe_abortedAtEnd :: bool

datatype poll_result = PollStopped | PollSet "IncomingStreamRecord list" | PollInvalidate

definition showsWithdrawal :: "int \<Rightarrow> jsnum \<Rightarrow> jsnum \<Rightarrow> IncomingStreamRecord list \<Rightarrow> bool" where
  "showsWithdrawal sid oldWithdrawn expectedWithdrawn ss =
     (case find (\<lambda>s. in_streamId s = sid) ss of
        None \<Rightarrow> False
      | Some u \<Rightarrow> numLess oldWithdrawn (in_withdrawn u) \<or> numLe (numSub expectedWithdrawn (fl (1 / 1000000))) (in_withdrawn u))"

text \<open>\<open>k\<close> attempts are left, \<open>n\<close> have been made; the answer lists the delays that were waited.\<close>

fun pollAttempts :: "poll_env \<Rightarrow> (IncomingStreamRecord list \<Rightarrow> bool) \<Rightarrow> nat \<Rightarrow> nat \<Rightarrow> int \<Rightarrow> poll_result \<times> int list" where
  "pollAttempts E seen 0 n delay = (if pe_abortedAtEnd E then PollStopped else PollInvalidate, [])"
| "pollAttempts E seen (Suc k) n delay =
     (if pe_abortedBefore E n then (PollStopped, [])
      else if pe_abortedAfterDelay E n then (PollStopped, [delay])
      else let (r, ds) = pollAttempts E seen k (Suc n) (delay * 2) in
        case pe_answer E n of
          None \<Rightarrow> if pe_abortedAfterFetch E n then (PollStopped, [delay]) else (r, delay # ds)
        | Some ss \<Rightarrow>
            if pe_abortedAfterFetch E n then (PollStopped, [delay])
            else if seen ss then (PollSet ss, [delay])
            else (r, delay # ds))"

definition pollIndexerForWithdraw :: "poll_env \<Rightarrow> int \<Rightarrow> jsnum \<Rightarrow> jsnum \<Rightarrow> poll_result \<times> int list" where
  "pollIndexerForWithdraw E sid oldWithdrawn expectedWithdrawn =
     pollAttempts E (showsWithdrawal sid oldWithdrawn expectedWithdrawn) 6 0 1000"

definition writeBack :: "poll_result \<Rightarrow> feed_cache \<Rightarrow> feed_cache" where
  "writeBack r cache = (case r of PollSet ss \<Rightarrow> Some ss | _ \<Rightarrow> cache)"

section \<open>Finding an endpoint\<close>

lemma candidates_nonempty: "getStreamsEndpointCandidates env \<noteq> []"
  by (simp add: getStreamsEndpointCandidates_def Let_def)

text \<open>The dashboard gets the first good answer: endpoints that fail before it do not matter.\<close>

lemma streams_first_good:
  "\<forall>e\<in>set es. fetch e \<noteq> FetchAborted \<and> (\<forall>st body. fetch e = Answer st body \<longrightarrow> \<not> okStatus st) \<Longrightarrow> fetch g = Answer st body \<Longrightarrow> okStatus st \<Longrightarrow>
     streamsFrom fetch (es @ g # rest) le = Inr body"
  by (induction es arbitrary: le) (auto split: fetch_answer.split)

lemma streams_only_good:
  "streamsFrom fetch es le = Inr body \<Longrightarrow> \<exists>e\<in>set es. \<exists>st. fetch e = Answer st body \<and> okStatus st"
  by (induction es arbitrary: le) (auto split: fetch_answer.splits if_splits)

text \<open>The incoming streams give up at the first endpoint that throws, the dashboard does not.\<close>

lemma incoming_no_failover:
  assumes "fetch e1 = FetchThrows m" "fetch e2 = Answer 200 body"
  shows "streamsFrom fetch [e1, e2] None = Inr body \<and> incomingFrom fetch ms [e1, e2] None = Inl (FeedError m)"
  using assms by (simp add: okStatus_def fetchWithTimeout_def)

section \<open>The polling ends\<close>

lemma poll_delays: "length (snd (pollAttempts E seen k n d)) \<le> k \<and> (0 \<le> d \<longrightarrow> sum_list (snd (pollAttempts E seen k n d)) \<le> d * (2 ^ k - 1))"
proof (induction k arbitrary: n d)
  case (Suc k)
  obtain r ds where r: "pollAttempts E seen k (Suc n) (d * 2) = (r, ds)" by (metis surj_pair)
  with Suc.IH [of "Suc n" "d * 2"] have ih: "length ds \<le> k" "0 \<le> d \<Longrightarrow> sum_list ds \<le> d * 2 * (2 ^ k - 1)" by simp_all
  have "d \<le> d * (2 ^ Suc k - 1)" if "0 \<le> d"
  proof -
    have "(1 :: int) \<le> 2 ^ k" by simp
    then have "(1 :: int) \<le> 2 ^ Suc k - 1" unfolding power_Suc by linarith
    from mult_left_mono [OF this that] show ?thesis by simp
  qed
  moreover have "0 \<le> d * (2 ^ Suc k - 1)" if "0 \<le> d" using that by simp
  moreover have "d + sum_list ds \<le> d * (2 ^ Suc k - 1)" if "0 \<le> d" using ih(2) [OF that] by (simp add: algebra_simps)
  ultimately show ?case using ih(1) by (auto simp: r split: option.split)
qed simp

lemma poll_sets: "fst (pollAttempts E seen k n d) = PollSet ss \<Longrightarrow>
  seen ss \<and> (\<exists>i. n \<le> i \<and> i < n + k \<and> pe_answer E i = Some ss \<and> \<not> pe_abortedAfterFetch E i)"
proof (induction k arbitrary: n d)
  case (Suc k)
  obtain r ds where r: "pollAttempts E seen k (Suc n) (d * 2) = (r, ds)" by (metis surj_pair)
  show ?case
  proof (cases "r = PollSet ss")
    case True
    with Suc.IH [of "Suc n" "d * 2"] r obtain i where "seen ss" "Suc n \<le> i" "i < Suc n + k" "pe_answer E i = Some ss" "\<not> pe_abortedAfterFetch E i"
      by auto
    then show ?thesis by (intro conjI exI [of _ i]) auto
  next
    case False
    with Suc.prems r show ?thesis by (auto split: option.splits if_splits intro: exI [of _ n])
  qed
qed (simp split: if_splits)

lemma poll_invalidates: "fst (pollAttempts E seen k n d) = PollInvalidate \<Longrightarrow>
  (\<forall>i. n \<le> i \<and> i < n + k \<longrightarrow> \<not> pe_abortedBefore E i \<and> \<not> pe_abortedAfterFetch E i \<and> (\<forall>ss. pe_answer E i = Some ss \<longrightarrow> \<not> seen ss))"
proof (induction k arbitrary: n d)
  case (Suc k)
  obtain r ds where r: "pollAttempts E seen k (Suc n) (d * 2) = (r, ds)" by (metis surj_pair)
  have now: "r = PollInvalidate \<and> \<not> pe_abortedBefore E n \<and> \<not> pe_abortedAfterFetch E n \<and> (\<forall>ss. pe_answer E n = Some ss \<longrightarrow> \<not> seen ss)"
    using Suc.prems r by (auto split: option.splits if_splits)
  with Suc.IH [of "Suc n" "d * 2"] r show ?case by (metis add_Suc_shift fst_conv le_antisym not_less_eq_eq)
qed auto

text \<open>The polling after a withdrawal ends: it waits at most six times and 63 seconds in all. It writes only
  a list the backend returned that shows the withdrawal, and nothing once it has been aborted; it
  asks for a reload only when none of six answers showed it.
\<close>
theorem polling_ends:
  "let (r, waited) = pollIndexerForWithdraw E sid old expected in
     length waited \<le> 6 \<and> sum_list waited \<le> 63000 \<and>
     (\<forall>ss. r = PollSet ss \<longrightarrow> showsWithdrawal sid old expected ss \<and> (\<exists>i < 6. pe_answer E i = Some ss \<and> \<not> pe_abortedAfterFetch E i)) \<and>
     (r = PollInvalidate \<longrightarrow> (\<forall>i < 6. \<forall>ss. pe_answer E i = Some ss \<longrightarrow> \<not> showsWithdrawal sid old expected ss)) \<and>
     (pe_abortedBefore E 0 \<longrightarrow> r = PollStopped)"
proof -
  obtain r waited where r: "pollAttempts E (showsWithdrawal sid old expected) 6 0 1000 = (r, waited)" by (metis surj_pair)
  have "length waited \<le> 6" "sum_list waited \<le> 63000"
    using poll_delays [where E = E and seen = "showsWithdrawal sid old expected" and k = 6 and n = 0 and d = 1000] by (simp_all add: r)
  moreover have "showsWithdrawal sid old expected ss \<and> (\<exists>i < 6. pe_answer E i = Some ss \<and> \<not> pe_abortedAfterFetch E i)" if "r = PollSet ss" for ss
    using poll_sets [where E = E and seen = "showsWithdrawal sid old expected" and k = 6 and n = 0 and d = 1000 and ss = ss] that by (auto simp: r)
  moreover have "\<forall>i < 6. \<forall>ss. pe_answer E i = Some ss \<longrightarrow> \<not> showsWithdrawal sid old expected ss" if "r = PollInvalidate"
    using poll_invalidates [where E = E and seen = "showsWithdrawal sid old expected" and k = 6 and n = 0 and d = 1000] that by (simp add: r)
  moreover have "r = PollStopped" if "pe_abortedBefore E 0"
    using r that by (simp add: eval_nat_numeral)
  ultimately show ?thesis by (simp add: pollIndexerForWithdraw_def r)
qed

definition silentPoll :: "IncomingStreamRecord list \<Rightarrow> poll_env" where
  "silentPoll ss = \<lparr>pe_abortedBefore = (\<lambda>_. False), pe_abortedAfterDelay = (\<lambda>_. False), pe_abortedAfterFetch = (\<lambda>_. False),
     pe_answer = (\<lambda>n. if n = 2 then Some ss else None), pe_abortedAtEnd = False\<rparr>"

theorem polling_ends_witness:
  "pollIndexerForWithdraw (silentPoll []) 7 (Fin 0) (Fin 1) = (PollInvalidate, [1000, 2000, 4000, 8000, 16000, 32000]) \<and>
   pe_answer (silentPoll []) 2 = Some [] \<and> \<not> showsWithdrawal 7 (Fin 0) (Fin 1) []"
proof -
  have "pollIndexerForWithdraw (silentPoll []) 7 (Fin 0) (Fin 1) = (PollInvalidate, [1000, 2000, 4000, 8000, 16000, 32000])"
    by (simp add: pollIndexerForWithdraw_def eval_nat_numeral silentPoll_def showsWithdrawal_def)
  moreover have "pe_answer (silentPoll []) 2 = Some []" by (simp add: silentPoll_def)
  moreover have "\<not> showsWithdrawal 7 (Fin 0) (Fin 1) []"
    using polling_ends [of "silentPoll []" 7 "Fin 0" "Fin 1"] calculation by (auto dest: spec [of _ 2])
  ultimately show ?thesis by simp
qed

section \<open>The optimistic update\<close>

text \<open>The parameters the incoming streams' card passes to the live amount.\<close>

definition cardParams :: "IncomingStreamRecord \<Rightarrow> UseStreamingAmountParams" where
  "cardParams s =
     \<lparr>lp_deposited = in_deposited s, lp_withdrawn = in_withdrawn s, lp_ratePerSecond = in_ratePerSecond s, lp_startTime = None,
      lp_lastUpdateTime = Some (in_lastUpdateTime s), lp_isActive = in_isActive s, lp_isPaused = in_isPaused s,
      lp_pausedAt = in_pausedAt s, lp_totalPausedDuration = in_totalPausedDuration s\<rparr>"

lemma sub_self: "bounded k x \<Longrightarrow> numSub x x = Fin 0"
  by (auto simp: bounded_def numSub_def)

lemma updated_elapsed:
  assumes "realParams (cardParams s)" "\<bar>nowMs\<bar> \<le> 2 ^ 60"
  shows "effectiveElapsed (cardParams (optimistic (nowSecondsOf nowMs) s)) nowMs = Fin 0"
proof -
  have e: "numSub (nowSecondsOf nowMs) (nowSecondsOf nowMs) = Fin 0" using now_bounded [OF assms(2)] by (rule sub_self)
  have z: "Math_max (Fin 0) (Fin 0) = Fin 0" "numSub (Fin 0) (Fin 0) = Fin 0" by (simp_all add: Math_max_def numSub_def)
  have neg: "Math_max (Fin 0) (numSub (Fin 0) (Math_max (Fin 0) (numSub (nowSecondsOf nowMs) x))) = Fin 0" if x: "bounded 60 x" for x
  proof -
    have "bounded 65 (Math_max (Fin 0) (numSub (nowSecondsOf nowMs) x))"
      using bounded_max [OF bounded_sub [OF now_bounded [OF assms(2)] bounded_mono [OF x]]] by simp
    moreover have "numLe (Fin 0) (Math_max (Fin 0) (numSub (nowSecondsOf nowMs) x))"
      using max_nonneg [OF bounded_sub [OF now_bounded [OF assms(2)] bounded_mono [OF x]]] by simp
    ultimately obtain q where q: "Math_max (Fin 0) (numSub (nowSecondsOf nowMs) x) = Fin q" "0 \<le> q" by (auto simp: bounded_def)
    have "numSub (Fin 0) (Fin q) = numNeg (fl q)" using fl_minus [of q] by (simp add: numSub_def)
    with fl_sign [OF q(2)] show ?thesis unfolding q(1) by (auto simp: Math_max_def)
  qed
  show ?thesis
    using assms(1) neg
    by (auto simp: effectiveElapsed_def cardParams_def optimistic_def e z truthyNum_def realParams_def Let_def split: option.split)
qed

lemma zero_between: "numLe (Fin 0) x \<Longrightarrow> numLe x (Fin 0) \<Longrightarrow> x = Fin 0"
  by (cases x) auto

lemma bounded_min: "bounded k a \<Longrightarrow> bounded k b \<Longrightarrow> bounded k (Math_min a b)"
  by (auto simp: Math_min_def bounded_def)

lemma bounded_add: "bounded k a \<Longrightarrow> bounded k b \<Longrightarrow> k \<le> 900 \<Longrightarrow> bounded (k + 3) (numAdd a b)"
  using bounded_sub [of k a "numNeg b"] by (auto simp: numSub_def bounded_def)

lemma claimable_bounded:
  assumes "realParams (cardParams s)" "\<bar>nowMs\<bar> \<le> 2 ^ 60"
  shows "bounded 140 (claimableNow (nowSecondsOf nowMs) s)"
proof -
  have now: "bounded 62 (nowSecondsOf nowMs)" by (rule now_bounded) (rule assms(2))
  have f: "bounded 62 (in_lastUpdateTime s)" "bounded 60 (in_ratePerSecond s)" "bounded 60 (in_deposited s)" "bounded 60 (in_withdrawn s)"
    "truthyNum (in_pausedAt s) \<Longrightarrow> bounded 62 (the (in_pausedAt s))"
    using assms(1) by (auto simp: realParams_def cardParams_def truthyNum_def split: option.splits intro: bounded_mono)
  have e: "bounded 65 (Math_max (Fin 0) (numSub (nowSecondsOf nowMs) (in_lastUpdateTime s)))"
    using bounded_max [OF bounded_sub [OF now f(1)]] by simp
  have c: "bounded 65 (if in_isPaused s \<and> truthyNum (in_pausedAt s) then Math_max (Fin 0) (numSub (nowSecondsOf nowMs) (the (in_pausedAt s))) else Fin 0)"
    using bounded_max [OF bounded_sub [OF now f(5)]] by simp
  have m: "bounded 140 (Math_max (Fin 0) (numSub (in_deposited s) (in_withdrawn s)))"
    using bounded_mono [OF bounded_max [OF bounded_sub [OF f(3,4)]], of 140] by simp
  have a: "bounded 130 (numMult (Math_max (Fin 0) (numSub (Math_max (Fin 0) (numSub (nowSecondsOf nowMs) (in_lastUpdateTime s)))
      (if in_isPaused s \<and> truthyNum (in_pausedAt s) then Math_max (Fin 0) (numSub (nowSecondsOf nowMs) (the (in_pausedAt s))) else Fin 0))) (in_ratePerSecond s))"
    using bounded_mult [OF bounded_max [OF bounded_sub [OF e c]] f(2)] by simp
  show ?thesis unfolding claimableNow_def Let_def by (rule bounded_min [OF m bounded_mono [OF a]]) simp
qed

lemma max_card: "maxClaimable (cardParams s) = Math_max (numSub (in_deposited s) (in_withdrawn s)) (Fin 0)"
  by (simp add: maxClaimable_def cardParams_def)

lemma max_zero_nonneg: "bounded k a \<Longrightarrow> numLe (Fin 0) (Math_max a (Fin 0)) \<and> Math_max a (Fin 0) \<noteq> NaN"
  by (auto simp: bounded_def Math_max_def)

lemma optimistic_hides:
  assumes "realParams (cardParams s)" "\<bar>nowMs\<bar> \<le> 2 ^ 60"
  shows "computeLive (cardParams (optimistic (nowSecondsOf nowMs) s)) nowMs = Fin 0"
proof -
  let ?u = "optimistic (nowSecondsOf nowMs) s"
  obtain r where r: "in_ratePerSecond s = Fin r" using assms(1) by (auto simp: realParams_def cardParams_def bounded_def)
  have w: "bounded 140 (in_withdrawn s)" "bounded 143 (in_deposited s)" using assms(1) by (auto simp: realParams_def cardParams_def intro: bounded_mono)
  have "bounded 143 (in_withdrawn ?u)"
    using bounded_add [OF w(1) claimable_bounded [OF assms]] by (simp add: optimistic_def)
  with w(2) have "bounded 146 (numSub (in_deposited ?u) (in_withdrawn ?u))" using bounded_sub [of 143] by (simp add: optimistic_def)
  from max_zero_nonneg [OF this] have m: "numLe (Fin 0) (maxClaimable (cardParams ?u))" "maxClaimable (cardParams ?u) \<noteq> NaN"
    by (simp_all add: max_card)
  have "numMult (Fin 0) (lp_ratePerSecond (cardParams ?u)) = Fin 0" by (simp add: cardParams_def optimistic_def r)
  with m zero_between [OF m(1)] show ?thesis
    unfolding computeLive_def updated_elapsed [OF assms] by (auto simp: clampNum_def Math_max_def Math_min_def)
qed

text \<open>Starting a withdrawal marks what can be claimed as withdrawn: the card of the stream counts from 0
  again at that moment, every other stream is as it was, and when the withdrawal fails the list from
  before comes back.
\<close>
theorem optimistic_withdrawal:
  assumes "publicKey = Some (c # cs)" "\<bar>nowMs\<bar> \<le> 2 ^ 60" "\<forall>s\<in>set previous. realParams (cardParams s)"
    and m: "onMutate publicKey nowMs stream (Some previous) = ((snapshot, expected), cache)"
  shows "\<exists>after. cache = Some after \<and> length after = length previous \<and>
    (\<forall>i < length previous. in_id (after ! i) = in_id (previous ! i) \<and>
       (if in_id (previous ! i) = in_id stream then computeLive (cardParams (after ! i)) nowMs = Fin 0 else after ! i = previous ! i)) \<and>
    onError_restore publicKey snapshot cache = Some previous"
proof -
  let ?f = "\<lambda>s. if in_id s = in_id stream then optimistic (nowSecondsOf nowMs) s else s"
  have c: "cache = Some (map ?f previous)" "snapshot = Some previous"
    using m assms(1) by (auto simp: onMutate_def Let_def)
  have "computeLive (cardParams (optimistic (nowSecondsOf nowMs) (previous ! i))) nowMs = Fin 0" if "i < length previous" for i
    using optimistic_hides [OF _ assms(2)] assms(3) that by simp
  then show ?thesis using assms(1) unfolding c
    by (intro exI [of _ "map ?f previous"]) (auto simp: onError_restore_def optimistic_def)
qed

definition exampleIncoming :: IncomingStreamRecord where
  "exampleIncoming = \<lparr>in_id = ''a'', in_streamId = 7, in_sender = ''GA'', in_senderDisplay = ''GA'', in_token = ''USDC'', in_tokenAddress = ''C'',
     in_ratePerSecond = Fin 1, in_deposited = Fin 10, in_withdrawn = Fin 2, in_startTime = Fin 0, in_lastUpdateTime = Fin 5, in_isActive = True,
     in_isPaused = False, in_pausedAt = None, in_totalPausedDuration = Fin 0, in_status = ActiveIncoming\<rparr>"

theorem optimistic_withdrawal_witness:
  "\<exists>after. snd (onMutate (Some ''GA'') 9000 exampleIncoming (Some [exampleIncoming])) = Some after \<and>
     computeLive (cardParams (after ! 0)) 9000 = Fin 0 \<and>
     onError_restore (Some ''GA'') (fst (fst (onMutate (Some ''GA'') 9000 exampleIncoming (Some [exampleIncoming])))) (Some after) = Some [exampleIncoming]"
proof -
  have r: "\<forall>s\<in>set [exampleIncoming]. realParams (cardParams s)"
    by (simp add: realParams_def cardParams_def exampleIncoming_def bounded_def)
  obtain snap ex cache where o: "onMutate (Some ''GA'') 9000 exampleIncoming (Some [exampleIncoming]) = ((snap, ex), cache)"
    by (metis surj_pair)
  show ?thesis using optimistic_withdrawal [OF refl _ r o] by (auto simp: o)
qed

text \<open>Two withdrawals at once: the first one's failure takes back the second one's update as well.\<close>

lemma rollback_loses_other:
  assumes "onMutate (Some (c # cs)) t1 s1 (Some previous) = ((snap1, e1), c1)" "onMutate (Some (c # cs)) t2 s2 c1 = ((snap2, e2), c2)"
  shows "onError_restore (Some (c # cs)) snap1 c2 = Some previous"
  using assms by (auto simp: onMutate_def onError_restore_def Let_def)

text \<open>The volume of the last 30 days is summed over the ten newest streams only.\<close>

lemma volume_of_ten: "length (sn_recentActivity (snapshotOf configured outgoing incoming)) \<le> 10"
  by (simp add: snapshotOf_def Let_def)

end
