(* ===== verification/App_Pipeline.thy ===== *)
theory App_Pipeline
  imports User_Api Sse_Subscribe Stream_Feed
begin

text \<open>
  The path of a request through the application (\<open>backend/src/app.ts\<close>): request identifiers, CORS,
  sandbox mode, the version prefix, the mounted routers, the labels of the metrics, and the health and
  metrics endpoints. The counting of \<open>express-rate-limit\<close>, the body parser and the documentation pages
  are left out; \<open>limited\<close> says whether the global limiter refuses. A header or query parameter is a
  \<open>query_value\<close>; header names are in lower case.
\<close>

section \<open>Configuration\<close>

record app_env =
  av_sandboxEnabled :: "string option"
  av_allowHeader :: "string option"
  av_allowQueryParam :: "string option"
  av_headerName :: "string option"
  av_queryParamName :: "string option"
  av_databaseUrl :: "string option"
  av_cors :: "string option"
  av_production :: bool
  av_metricsCidrs :: "string option"
  av_metricsToken :: "string option"
  av_createLimit :: "string option"

record SandboxConfig =
  sb_enabled :: bool
  sb_databaseUrl :: "string option"
  sb_allowHeader :: bool
  sb_allowQueryParam :: bool
  sb_headerName :: string
  sb_queryParamName :: string

definition parseBooleanEnv :: "string \<Rightarrow> string option \<Rightarrow> bool \<Rightarrow> thrown_value + bool" where
  "parseBooleanEnv varName v defaultValue =
     (case v of
        None \<Rightarrow> Inr defaultValue
      | Some s \<Rightarrow>
          if s = ''true'' then Inr True
          else if s = ''false'' then Inr False
          else Inl (PlainError 0 (varName @ '' has invalid value '' @ [CHR 0x27] @ s @ [CHR 0x27] @ ''. Expected one of: 'true', 'false'.'')))"

definition getSandboxConfig :: "app_env \<Rightarrow> thrown_value + SandboxConfig" where
  "getSandboxConfig E =
     bindE (parseBooleanEnv ''SANDBOX_MODE_ENABLED'' (av_sandboxEnabled E) False) (\<lambda>enabled.
     bindE (parseBooleanEnv ''SANDBOX_ALLOW_HEADER'' (av_allowHeader E) True) (\<lambda>allowHeader.
     bindE (parseBooleanEnv ''SANDBOX_ALLOW_QUERY_PARAM'' (av_allowQueryParam E) True) (\<lambda>allowQuery.
     Inr \<lparr>sb_enabled = enabled, sb_databaseUrl = (if av_databaseUrl E = Some [] then None else av_databaseUrl E),
          sb_allowHeader = allowHeader, sb_allowQueryParam = allowQuery,
          sb_headerName = orElse (av_headerName E) ''X-Sandbox-Mode'', sb_queryParamName = orElse (av_queryParamName E) ''sandbox''\<rparr>)))"

definition isSandboxModeEnabled :: "app_env \<Rightarrow> thrown_value + bool" where
  "isSandboxModeEnabled E = bindE (getSandboxConfig E) (\<lambda>c. Inr (sb_enabled c))"

section \<open>Middleware\<close>

record http_request =
  hq_path :: string
  hq_url :: string
  hq_origin :: "string option"
  hq_header :: "string \<Rightarrow> query_value"
  hq_query :: "string \<Rightarrow> query_value"

definition yes :: "query_value \<Rightarrow> bool" where
  "yes v = (v = QText ''true'' \<or> v = QText ''1'')"

text \<open>Whether the request runs in the sandbox, and the headers added to its answer.\<close>

definition sandboxMiddleware :: "app_env \<Rightarrow> http_request \<Rightarrow> thrown_value + (bool \<times> (string \<times> string) list)" where
  "sandboxMiddleware E req =
     bindE (getSandboxConfig E) (\<lambda>config.
       if \<not> sb_enabled config then Inr (False, [])
       else let byHeader = (sb_allowHeader config \<and> yes (hq_header req (lower (sb_headerName config))));
                isSandbox = (byHeader \<or> (sb_allowQueryParam config \<and> yes (hq_query req (sb_queryParamName config))))
            in Inr (isSandbox, if isSandbox then [(''X-Sandbox-Mode'', ''true''), (''X-Environment'', ''sandbox'')]
                               else [(''X-Environment'', ''production'')]))"

text \<open>The status it answers, or \<open>None\<close> when the request goes on.\<close>

definition requireSandbox :: "app_env \<Rightarrow> bool \<Rightarrow> thrown_value + int option" where
  "requireSandbox E isSandbox =
     bindE (isSandboxModeEnabled E) (\<lambda>on. Inr (if \<not> on then Some 503 else if \<not> isSandbox then Some 400 else None))"

definition MAX_REQUEST_ID_LENGTH :: nat where
  "MAX_REQUEST_ID_LENGTH = 128"

definition is_letter :: "char \<Rightarrow> bool" where
  "is_letter c = (65 \<le> code c \<and> code c \<le> 90 \<or> 97 \<le> code c \<and> code c \<le> 122)"

definition isValidRequestId :: "string \<Rightarrow> bool" where
  "isValidRequestId v =
     (0 < length v \<and> length v \<le> MAX_REQUEST_ID_LENGTH \<and> list_all (\<lambda>c. is_letter c \<or> is_digit c \<or> c = CHR ''-'') v)"

text \<open>\<open>fresh\<close> is the value of \<open>randomUUID\<close>.\<close>

definition requestIdMiddleware :: "string \<Rightarrow> http_request \<Rightarrow> string" where
  "requestIdMiddleware fresh req =
     (case hq_header req ''x-request-id'' of QText h \<Rightarrow> if isValidRequestId h then h else fresh | _ \<Rightarrow> fresh)"

definition allowedOrigins :: "app_env \<Rightarrow> string list" where
  "allowedOrigins E =
     filter (\<lambda>w. w \<noteq> []) (map trim (js_split CHR '','' (case av_cors E of None \<Rightarrow> [] | Some raw \<Rightarrow> raw)))
     @ (if (av_cors E = None \<or> av_cors E = Some []) \<and> \<not> av_production E then [''http://localhost:3000''] else [])"

definition corsAllows :: "app_env \<Rightarrow> http_request \<Rightarrow> bool" where
  "corsAllows E req = (case hq_origin req of None \<Rightarrow> True | Some orig \<Rightarrow> orig = [] \<or> orig \<in> set (allowedOrigins E))"

section \<open>Versions and routers\<close>

definition SUPPORTED_VERSIONS :: "string list" where
  "SUPPORTED_VERSIONS = [''v1'']"

definition pathParts :: "string \<Rightarrow> string list" where
  "pathParts path = filter (\<lambda>w. w \<noteq> []) (js_split CHR ''/'' path)"

definition versionSegment :: "string \<Rightarrow> bool" where
  "versionSegment w = (case w of [] \<Rightarrow> False | c # ds \<Rightarrow> c = CHR ''v'' \<and> ds \<noteq> [] \<and> list_all is_digit ds)"

text \<open>The text between the first and the second question mark.\<close>

definition searchText :: "string \<Rightarrow> string" where
  "searchText target = (case js_split CHR ''?'' target of _ # q # _ \<Rightarrow> q | _ \<Rightarrow> [])"

datatype versioned = Unversioned | Versioned string string | UnsupportedVersion string

definition apiVersionMiddleware :: "http_request \<Rightarrow> versioned" where
  "apiVersionMiddleware req =
     (case pathParts (hq_path req) of
        [] \<Rightarrow> Unversioned
      | first # rest \<Rightarrow>
          if \<not> versionSegment first then Unversioned
          else if first \<in> set SUPPORTED_VERSIONS
          then (let q = searchText (hq_url req)
                in Versioned first (''/'' @ join ''/'' rest @ (if q = [] then [] else ''?'' @ q)))
          else UnsupportedVersion first)"

definition getApiVersion :: "string option \<Rightarrow> string" where
  "getApiVersion v = orElse v ''v1''"

definition mountedAt :: "string \<Rightarrow> string \<Rightarrow> bool" where
  "mountedAt base path = (lower path = base \<or> startsWith (lower path) (base @ ''/''))"

definition V1_ROUTERS :: "string list" where
  "V1_ROUTERS = [''/streams'', ''/events'', ''/users'', ''/auth'', ''/webhooks'', ''/admin'']"

datatype app_answer = AnswerStatus int | ToRouter string string | ToHealth | ToMetrics | ToDocs | ToRoot | NotRouted

definition pathOf :: "string \<Rightarrow> string" where
  "pathOf target = takeWhile (\<lambda>c. c \<noteq> CHR ''?'') target"

definition unversionedRoutes :: "string \<Rightarrow> app_answer" where
  "unversionedRoutes path =
     (if mountedAt ''/health'' path then ToHealth else if mountedAt ''/metrics'' path then ToMetrics
      else if path = ''/'' then ToRoot else NotRouted)"

text \<open>The application up to the router that takes the request; what a router does not match is not routed on here.\<close>

definition dispatch :: "app_env \<Rightarrow> bool \<Rightarrow> http_request \<Rightarrow> app_answer" where
  "dispatch E limited req =
     (if limited \<and> \<not> (hq_path req = ''/metrics'' \<or> startsWith (hq_path req) ''/metrics/'') then AnswerStatus 429
      else if \<not> corsAllows E req then AnswerStatus 403
      else case sandboxMiddleware E req of
        Inl e \<Rightarrow> (case errorHandler False e of Some a \<Rightarrow> AnswerStatus (ae_status a) | None \<Rightarrow> NotRouted)
      | Inr _ \<Rightarrow>
          if mountedAt ''/api-docs'' (hq_path req) \<or> lower (hq_path req) = ''/api-docs.json'' then ToDocs
          else case apiVersionMiddleware req of
            UnsupportedVersion v \<Rightarrow> AnswerStatus 400
          | Unversioned \<Rightarrow> unversionedRoutes (hq_path req)
          | Versioned v target \<Rightarrow>
              (case find (\<lambda>m. mountedAt m (pathOf target)) V1_ROUTERS of
                 Some m \<Rightarrow> ToRouter m target
               | None \<Rightarrow> unversionedRoutes (pathOf target)))"

section \<open>Limits per wallet and labels of metrics\<close>

text \<open>The limiter of stream creation: its limit (\<open>None\<close>: not a number), its key, and whom it skips.\<close>

definition streamCreateMax :: "app_env \<Rightarrow> int option" where
  "streamCreateMax E = (case av_createLimit E of None \<Rightarrow> Some 10 | Some s \<Rightarrow> if s = [] then Some 10 else parseInt10 s)"

definition streamRateKey :: "string option \<Rightarrow> string" where
  "streamRateKey publicKey = (case publicKey of None \<Rightarrow> ''unauthenticated'' | Some k \<Rightarrow> k)"

definition streamRateSkip :: "string option \<Rightarrow> bool" where
  "streamRateSkip publicKey = (publicKey = None \<or> publicKey = Some [])"

definition is_hex :: "char \<Rightarrow> bool" where
  "is_hex c = (radix_val 16 c \<noteq> None)"

definition uuidAt :: "string \<Rightarrow> bool" where
  "uuidAt s =
     (36 \<le> length s \<and>
      list_all (\<lambda>(i, c). if i \<in> {8, 13, 18, 23} then c = CHR ''-'' else is_hex c) (zip [0..<36] (take 36 s)))"

fun containsUuid :: "string \<Rightarrow> bool" where
  "containsUuid [] = False"
| "containsUuid (c # cs) = (uuidAt (c # cs) \<or> containsUuid cs)"

definition idChar :: "char \<Rightarrow> bool" where
  "idChar c = (is_letter c \<or> is_digit c \<or> c = CHR ''_'')"

text \<open>A run of at least 56 hexadecimal digits between word boundaries is a whole word.\<close>

definition containsLongHex :: "string \<Rightarrow> bool" where
  "containsLongHex s =
     list_ex (\<lambda>w. 56 \<le> length w \<and> list_all is_hex w) (js_split CHR '' '' (map (\<lambda>c. if idChar c then c else CHR '' '') s))"

definition routeSegment :: "string \<Rightarrow> string" where
  "routeSegment w =
     (if w \<noteq> [] \<and> list_all is_digit w then '':id'' else if containsUuid w then '':uuid'' else if containsLongHex w then '':hash'' else w)"

datatype route_path = NoRoute | OnePath string | ManyPaths "string list"

definition dropSlashes :: "string \<Rightarrow> string" where
  "dropSlashes w = dropWhile (\<lambda>c. c = CHR ''/'') w"

definition normalizeRoute :: "route_path \<Rightarrow> string \<Rightarrow> string \<Rightarrow> string" where
  "normalizeRoute route baseUrl path =
     (let base = dropSlashes baseUrl;
          joined = (\<lambda>ws. ''/'' @ join ''/'' (filter (\<lambda>w. w \<noteq> []) ws));
          byPath = ''/'' @ join ''/'' (map routeSegment (pathParts path))
      in case route of
           OnePath r \<Rightarrow> if r \<noteq> ''/'' then joined [base, dropSlashes r] else byPath
         | ManyPaths (r # rs) \<Rightarrow> joined (base # filter (\<lambda>w. w \<noteq> []) (map dropSlashes (r # rs)))
         | _ \<Rightarrow> byPath)"

section \<open>Health\<close>

text \<open>
  The handler of \<open>/health\<close>. What the database and the chain answer is given: whether the database is
  reachable, the state row (\<open>None\<close> when reading it throws) and the latest ledger (\<open>None\<close> when it
  throws). \<open>healthScope\<close> holds the variables the function declares when it builds its answer; a
  name that is neither declared there nor imported throws a \<open>ReferenceError\<close>.
\<close>

record health_env =
  he_dbConnected :: bool
  he_indexerEnabled :: bool
  he_state :: "indexer_row option option"
  he_latestLedger :: "int option"
  he_now :: int
  he_uptime :: int

definition healthLag :: "health_env \<Rightarrow> int" where
  "healthLag H = (case he_state H of Some (Some row) \<Rightarrow> max 0 (he_now H - ix_updatedAt row) | _ \<Rightarrow> - 1)"

definition networkLedgerOf :: "health_env \<Rightarrow> int" where
  "networkLedgerOf H = (if he_indexerEnabled H then (case he_latestLedger H of None \<Rightarrow> 0 | Some l \<Rightarrow> l) else 0)"

definition lastLedgerOf :: "health_env \<Rightarrow> int" where
  "lastLedgerOf H = (case he_state H of Some (Some row) \<Rightarrow> lastLedger row | _ \<Rightarrow> 0)"

definition isHealthy :: "health_env \<Rightarrow> bool" where
  "isHealthy H = (he_dbConnected H \<and> \<not> (he_indexerEnabled H \<and> 60 < healthLag H))"

definition healthScope :: "health_env \<Rightarrow> (string \<times> json) list" where
  "healthScope H =
     [(''dbStatus'', JStr (if he_dbConnected H then ''connected'' else ''disconnected'')),
      (''indexerEnabled'', JBool (he_indexerEnabled H)), (''indexerLag'', JNum (healthLag H)),
      (''networkLedger'', JNum (networkLedgerOf H)), (''indexerDegraded'', JBool (he_indexerEnabled H \<and> 60 < healthLag H)),
      (''isHealthy'', JBool (isHealthy H)), (''status'', JStr (if isHealthy H then ''ok'' else ''degraded''))]"

definition resolve :: "health_env \<Rightarrow> string \<Rightarrow> thrown_value + json" where
  "resolve H ident = (case map_of (healthScope H) ident of Some v \<Rightarrow> Inr v | None \<Rightarrow> Inl (PlainError 0 (ident @ '' is not defined'')))"

definition truthyJson :: "json \<Rightarrow> bool" where
  "truthyJson v = (v \<noteq> JNull \<and> v \<noteq> JBool False \<and> v \<noteq> JNum 0 \<and> v \<noteq> JStr [])"

text \<open>The body, evaluated from left to right.\<close>

definition healthBody :: "health_env \<Rightarrow> thrown_value + json" where
  "healthBody H =
     bindE (resolve H ''status'') (\<lambda>status.
     bindE (resolve H ''dbStatus'') (\<lambda>dbs.
     let lag = (if healthLag H = - 1 then JNull else JNum (healthLag H));
         ledgerLag = (if 0 < networkLedgerOf H then JNum (max 0 (networkLedgerOf H - lastLedgerOf H)) else JNull) in
     bindE (if \<not> he_indexerEnabled H then Inr (JStr ''disabled'')
            else bindE (resolve H ''indexerFailureDegraded'') (\<lambda>a.
                 bindE (if truthyJson a then Inr a else resolve H ''indexerLagDegraded'') (\<lambda>b.
                   Inr (JStr (if truthyJson b then ''degraded'' else ''ok''))))) (\<lambda>indexerStatus.
     bindE (resolve H ''redisStatus'') (\<lambda>redisStatus.
     bindE (resolve H ''sorobanRpcOk'') (\<lambda>rpcOk.
       Inr (JObj [(''status'', status), (''db'', dbs), (''indexerEnabled'', JBool (he_indexerEnabled H)), (''indexerLag'', lag),
             (''indexerLedgerLag'', ledgerLag), (''uptime'', JNum (he_uptime H)),
             (''checks'', JObj [(''database'', JObj [(''status'', JStr (if he_dbConnected H then ''ok'' else ''down''))]),
               (''indexer'', JObj [(''status'', indexerStatus), (''enabled'', JBool (he_indexerEnabled H)), (''lagSeconds'', lag)]),
               (''redis'', JObj [(''status'', redisStatus)]),
               (''sorobanRpc'', JObj [(''status'', JStr (if truthyJson rpcOk then ''ok'' else ''down''))])])]))))))"

definition healthHandler :: "health_env \<Rightarrow> metrics \<Rightarrow> (thrown_value + (int \<times> json)) \<times> metrics" where
  "healthHandler H m =
     (map_sum id (\<lambda>body. (if isHealthy H then 200 else 503, body)) (healthBody H), setIndexerLedgers (lastLedgerOf H) (networkLedgerOf H) m)"

text \<open>What the client receives: the handler's rejection goes to the error handler.\<close>

definition healthAnswer :: "health_env \<Rightarrow> metrics \<Rightarrow> int option" where
  "healthAnswer H m =
     (case fst (healthHandler H m) of Inr (st, body) \<Rightarrow> Some st | Inl e \<Rightarrow> map_option ae_status (errorHandler False e))"

section \<open>The metrics endpoint\<close>

definition parseCidrs :: "string option \<Rightarrow> string list" where
  "parseCidrs raw = filter (\<lambda>w. w \<noteq> []) (map trim (js_split CHR '','' (case raw of None \<Rightarrow> [] | Some s \<Rightarrow> s)))"

definition metricsEnabled :: "app_env \<Rightarrow> bool" where
  "metricsEnabled E =
     (parseCidrs (av_metricsCidrs E) \<noteq> [] \<or> (av_metricsToken E \<noteq> None \<and> av_metricsToken E \<noteq> Some []) \<or> \<not> av_production E)"

definition metricsClientIp :: "string option \<Rightarrow> string" where
  "metricsClientIp remoteAddress =
     (let ip = (case remoteAddress of None \<Rightarrow> [] | Some a \<Rightarrow> a) in if startsWith ip ''::ffff:'' then drop 7 ip else ip)"

text \<open>\<open>inBlock\<close> is \<open>BlockList\<close>: whether an address lies in one of the entries.\<close>

definition isAllowedIp :: "(string list \<Rightarrow> string \<Rightarrow> bool) \<Rightarrow> app_env \<Rightarrow> string \<Rightarrow> bool" where
  "isAllowedIp inBlock E ip =
     (let allowedCidrs = parseCidrs (av_metricsCidrs E) in allowedCidrs = [] \<or> (ip \<noteq> [] \<and> inBlock allowedCidrs ip))"

definition hasValidToken :: "app_env \<Rightarrow> string option \<Rightarrow> bool" where
  "hasValidToken E authorization =
     (case av_metricsToken E of
        None \<Rightarrow> True
      | Some token \<Rightarrow>
          token = [] \<or>
          (case authorization of None \<Rightarrow> False | Some h \<Rightarrow> startsWith h ''Bearer '' \<and> trim (drop 7 h) = token))"

definition metricsStatus :: "(string list \<Rightarrow> string \<Rightarrow> bool) \<Rightarrow> app_env \<Rightarrow> string option \<Rightarrow> string option \<Rightarrow> int" where
  "metricsStatus inBlock E remoteAddress authorization =
     (if \<not> metricsEnabled E then 404
      else if \<not> isAllowedIp inBlock E (metricsClientIp remoteAddress) \<or> \<not> hasValidToken E authorization then 403
      else 200)"

section \<open>What a request can reach\<close>

lemma joined_no_mark: "CHR ''?'' \<notin> set sep \<Longrightarrow> \<forall>w\<in>set ws. CHR ''?'' \<notin> set w \<Longrightarrow> CHR ''?'' \<notin> set (join sep ws)"
  by (induction sep ws rule: join.induct) auto

lemma parts_chars: "w \<in> set (pathParts path) \<Longrightarrow> set w \<subseteq> set path"
proof -
  have "\<forall>w \<in> set (js_split c s). set w \<subseteq> set s" for c :: char and s
    by (induction s) (auto split: list.splits)
  then show "w \<in> set (pathParts path) \<Longrightarrow> set w \<subseteq> set path" by (auto simp: pathParts_def)
qed

lemma pathOf_target: "CHR ''?'' \<notin> set p \<Longrightarrow> pathOf (p @ (if q = [] then [] else ''?'' @ q)) = p"
  by (simp add: pathOf_def takeWhile_append)

text \<open>Only a request whose first path segment is \<open>v1\<close>, whose origin is allowed, and which the limiter lets
  through reaches a router of the interface; the router sees the rest of the path. A segment of
  another version is answered 400, and a path without a version reaches none of them.
\<close>
theorem versioned_requests_only:
  assumes "CHR ''?'' \<notin> set (hq_path req)" "dispatch E limited req = ToRouter m target"
  shows "\<exists>rest. pathParts (hq_path req) = ''v1'' # rest \<and> pathOf target = ''/'' @ join ''/'' rest \<and> mountedAt m (pathOf target) \<and>
    m \<in> set V1_ROUTERS \<and> corsAllows E req \<and> (limited \<longrightarrow> hq_path req = ''/metrics'' \<or> startsWith (hq_path req) ''/metrics/'')"
proof -
  obtain v where v: "apiVersionMiddleware req = Versioned v target" "find (\<lambda>m. mountedAt m (pathOf target)) V1_ROUTERS = Some m"
    "corsAllows E req" "limited \<longrightarrow> hq_path req = ''/metrics'' \<or> startsWith (hq_path req) ''/metrics/''"
    using assms(2) by (auto simp: dispatch_def unversionedRoutes_def split: if_splits sum.splits versioned.splits option.splits)
  then obtain rest where r: "pathParts (hq_path req) = ''v1'' # rest"
      "target = (''/'' @ join ''/'' rest) @ (if searchText (hq_url req) = [] then [] else ''?'' @ searchText (hq_url req))"
    by (auto simp: apiVersionMiddleware_def SUPPORTED_VERSIONS_def Let_def split: list.splits if_splits)
  have "CHR ''?'' \<notin> set w" if "w \<in> set rest" for w using parts_chars [of w "hq_path req"] that assms(1) r(1) by auto
  then have "pathOf target = ''/'' @ join ''/'' rest" unfolding r(2) by (intro pathOf_target) (simp add: joined_no_mark)
  with v r(1) show ?thesis by (auto simp: find_Some_iff)
qed

definition plainGet :: "string \<Rightarrow> http_request" where
  "plainGet path = \<lparr>hq_path = path, hq_url = path, hq_origin = None, hq_header = (\<lambda>_. QAbsent), hq_query = (\<lambda>_. QAbsent)\<rparr>"

definition plainEnv :: app_env where
  "plainEnv = \<lparr>av_sandboxEnabled = None, av_allowHeader = None, av_allowQueryParam = None, av_headerName = None, av_queryParamName = None,
     av_databaseUrl = None, av_cors = None, av_production = False, av_metricsCidrs = None, av_metricsToken = None, av_createLimit = None\<rparr>"

lemmas pipeline_eval = dispatch_def corsAllows_def plainGet_def plainEnv_def sandboxMiddleware_def getSandboxConfig_def parseBooleanEnv_def
  mountedAt_def apiVersionMiddleware_def pathParts_def versionSegment_def SUPPORTED_VERSIONS_def unversionedRoutes_def
  V1_ROUTERS_def pathOf_def searchText_def startsWith_def lower_def lower_char_def

lemma v1_streams: "dispatch plainEnv False (plainGet ''/v1/streams'') = ToRouter ''/streams'' ''/streams''"
  by (simp add: pipeline_eval code_def is_digit_def)

theorem versioned_requests_only_witness:
  "\<exists>rest. pathParts ''/v1/streams'' = ''v1'' # rest \<and> pathOf ''/streams'' = ''/'' @ join ''/'' rest"
  using versioned_requests_only [OF _ v1_streams] by (auto simp: plainGet_def)

text \<open>
  The web client without a configured base address: its first endpoint is not routed, its second one is.
\<close>

lemma first_endpoint_unrouted:
  "map (drop (length ''http://localhost:3001'')) (getStreamsEndpointCandidates None) = [''/api/v1/streams'', ''/v1/streams''] \<and>
   dispatch plainEnv False (plainGet ''/api/v1/streams'') = NotRouted \<and>
   dispatch plainEnv False (plainGet ''/v1/streams'') = ToRouter ''/streams'' ''/streams''"
proof -
  have "map (drop (length ''http://localhost:3001'')) (getStreamsEndpointCandidates None) = [''/api/v1/streams'', ''/v1/streams'']"
    by (simp add: getStreamsEndpointCandidates_def getApiBaseUrl_def endsWith_def Let_def)
  moreover have "dispatch plainEnv False (plainGet ''/api/v1/streams'') = NotRouted"
    by (simp add: pipeline_eval code_def is_digit_def)
  ultimately show ?thesis using v1_streams by simp
qed

text \<open>A raw second question mark ends the query after the version is taken off.\<close>

lemma second_question_mark_lost: "CHR ''?'' \<notin> set p \<Longrightarrow> CHR ''?'' \<notin> set a \<Longrightarrow> searchText (p @ CHR ''?'' # a @ CHR ''?'' # b) = a"
  by (cases "js_split CHR ''?'' b") (simp_all add: searchText_def js_split_append)

text \<open>What is logged and sent back as the identifier of a request has no line break, if the generated ones have none.\<close>

lemma request_id_safe: "isValidRequestId fresh \<Longrightarrow> isValidRequestId (requestIdMiddleware fresh req)"
  by (simp add: requestIdMiddleware_def split: query_value.split)

text \<open>Sandbox mode cannot be requested unless it is enabled, and a misspelt setting fails every request.\<close>

lemma sandbox_needs_setting: "sandboxMiddleware E req = Inr (True, hs) \<Longrightarrow> av_sandboxEnabled E = Some ''true''"
  by (auto simp: sandboxMiddleware_def getSandboxConfig_def parseBooleanEnv_def bindE_def Let_def split: option.splits if_splits sum.splits)

section \<open>Health and metrics\<close>

text \<open>The health endpoint answers 500 whatever the state of the service: building its answer reads variables
  that are declared nowhere. The gauges of the indexer are set all the same.
\<close>
theorem health_never_answers:
  "healthAnswer H m = Some 500 \<and> snd (healthHandler H m) = setIndexerLedgers (lastLedgerOf H) (networkLedgerOf H) m \<and>
   fst (healthHandler H m) = Inl (PlainError 0 (if he_indexerEnabled H then ''indexerFailureDegraded is not defined'' else ''redisStatus is not defined''))"
proof -
  have "healthBody H = Inl (PlainError 0 (if he_indexerEnabled H then ''indexerFailureDegraded is not defined'' else ''redisStatus is not defined''))"
    by (simp add: healthBody_def resolve_def healthScope_def Let_def)
  then show ?thesis by (simp add: healthHandler_def healthAnswer_def plainAnswer_def)
qed

text \<open>The metrics are served only past every configured guard, and in production only when there is one.\<close>

lemma metrics_guarded:
  "metricsStatus inBlock E ra auth = 200 \<Longrightarrow>
     (av_production E \<longrightarrow> parseCidrs (av_metricsCidrs E) \<noteq> [] \<or> (\<exists>c cs. av_metricsToken E = Some (c # cs))) \<and>
     (parseCidrs (av_metricsCidrs E) \<noteq> [] \<longrightarrow> inBlock (parseCidrs (av_metricsCidrs E)) (metricsClientIp ra)) \<and>
     (\<forall>c cs. av_metricsToken E = Some (c # cs) \<longrightarrow> (\<exists>h. auth = Some h \<and> trim (drop 7 h) = c # cs))"
  by (auto simp: metricsStatus_def metricsEnabled_def isAllowedIp_def hasValidToken_def Let_def neq_Nil_conv split: if_splits option.splits)

end
