(* ===== verification/Client_Utils.thy ===== *)
theory Client_Utils
  imports Wallet_Client "HOL-Library.Product_Lexorder" "HOL-Library.Multiset"
begin

text \<open>
  The helpers of the web client that compute without a page: the filters and the order of the activity table
  (\<open>frontend/src/utils/activityFilters.ts\<close>), the analytics of subscriptions (\<open>utils/subscriptions.ts\<close>), and
  the preferences with their formatting (\<open>hooks/useSettings.ts\<close>). The collation of \<open>localeCompare\<close> is the
  parameter \<open>rank\<close>.
\<close>

section \<open>The activity table\<close>

record BackendStreamEvent =
  be_id :: string
  be_streamId :: int
  be_eventType :: string
  be_amount :: "string option"
  be_transactionHash :: string
  be_timestamp :: int

record ActivityFilters =
  af_types :: "string list option"
  af_search :: "string option"
  af_fromTimestamp :: "int option"
  af_toTimestamp :: "int option"

definition matchesSearch :: "BackendStreamEvent \<Rightarrow> string \<Rightarrow> bool" where
  "matchesSearch event needle =
     (let q = lower (trim needle)
      in q = [] \<or> contains q (lower (be_transactionHash event)) \<or> contains q (toString (be_streamId event)))"

definition keepsEvent :: "ActivityFilters \<Rightarrow> BackendStreamEvent \<Rightarrow> bool" where
  "keepsEvent filters event =
     (let typeSet = (case af_types filters of Some (t # ts) \<Rightarrow> Some (t # ts) | _ \<Rightarrow> None) in
      if (case typeSet of None \<Rightarrow> False | Some ts \<Rightarrow> be_eventType event \<notin> set ts) then False
      else if (case af_fromTimestamp filters of None \<Rightarrow> False | Some a \<Rightarrow> be_timestamp event < a) then False
      else if (case af_toTimestamp filters of None \<Rightarrow> False | Some b \<Rightarrow> b < be_timestamp event) then False
      else if (case af_search filters of None \<Rightarrow> False | Some needle \<Rightarrow> \<not> matchesSearch event needle) then False
      else True)"

definition filterActivityEvents :: "BackendStreamEvent list \<Rightarrow> ActivityFilters \<Rightarrow> BackendStreamEvent list" where
  "filterActivityEvents es filters = filter (keepsEvent filters) es"

datatype ActivitySortKey = ByTimestamp | ByAmount | ByStreamId

datatype SortDirection = Ascending | Descending

text \<open>\<open>None\<close>: \<open>BigInt\<close> rejects the amount.\<close>

fun sortValue :: "BackendStreamEvent \<Rightarrow> ActivitySortKey \<Rightarrow> int option" where
  "sortValue event ByAmount = (case be_amount event of None \<Rightarrow> Some 0 | Some a \<Rightarrow> if a = [] then Some 0 else BigInt a)"
| "sortValue event ByStreamId = Some (be_streamId event)"
| "sortValue event ByTimestamp = Some (be_timestamp event)"

definition orderValue :: "ActivitySortKey \<Rightarrow> SortDirection \<Rightarrow> BackendStreamEvent \<Rightarrow> int" where
  "orderValue key direction event =
     (let v = (case sortValue event key of None \<Rightarrow> 0 | Some v \<Rightarrow> v) in if direction = Ascending then v else - v)"

text \<open>
  The comparison of two events subtracts their values and falls back to their positions; sorting two
  events or more compares every one of them, so one value that cannot be read throws.
\<close>

definition sortActivityEvents :: "BackendStreamEvent list \<Rightarrow> ActivitySortKey \<Rightarrow> SortDirection \<Rightarrow> BackendStreamEvent list option" where
  "sortActivityEvents es key direction =
     (if 2 \<le> length es \<and> list_ex (\<lambda>e. sortValue e key = None) es then None
      else Some (map fst (sort_key (\<lambda>(e, i). (orderValue key direction e, i)) (zip es [0..<length es]))))"

section \<open>Subscriptions\<close>

record Subscription =
  sp_id :: string
  sp_merchant :: string
  sp_monthlyAmount :: int
  sp_tokenSymbol :: string
  sp_allowanceRemaining :: int
  sp_allowanceTotal :: int
  sp_active :: bool

definition totalMonthlyBurn :: "Subscription list \<Rightarrow> int" where
  "totalMonthlyBurn subs = foldl (\<lambda>sum sub. if sp_active sub then sum + sp_monthlyAmount sub else sum) 0 subs"

text \<open>In hundredths of a percent; the quotient by 100 is the number the code returns.\<close>

definition allowanceRemainingPercent :: "Subscription \<Rightarrow> jsnum" where
  "allowanceRemainingPercent sub =
     (if sp_allowanceTotal sub \<le> 0 then Fin 0
      else let raw = fl (of_int (toNumber ((sp_allowanceRemaining sub * 10000) sdiv sp_allowanceTotal sub)) / 100)
           in if numLe (Fin 100) raw then Fin 100 else if numLe raw (Fin 0) then Fin 0 else raw)"

definition monthsOfRunway :: "Subscription \<Rightarrow> jsnum" where
  "monthsOfRunway sub =
     (if sp_monthlyAmount sub \<le> 0 then Infinity False else Fin (of_int (toNumber (sp_allowanceRemaining sub sdiv sp_monthlyAmount sub))))"

definition isRunningLow :: "Subscription \<Rightarrow> bool" where
  "isRunningLow sub = (sp_active sub \<and> sp_allowanceRemaining sub < sp_monthlyAmount sub)"

record MerchantMrr =
  mm_merchant :: string
  mm_activeSubscribers :: int
  mm_mrr :: int

text \<open>The entries of the map in the order of their insertion.\<close>

fun addToMerchant :: "Subscription \<Rightarrow> MerchantMrr list \<Rightarrow> MerchantMrr list" where
  "addToMerchant sub [] = [\<lparr>mm_merchant = sp_merchant sub, mm_activeSubscribers = 1, mm_mrr = sp_monthlyAmount sub\<rparr>]"
| "addToMerchant sub (m # ms) =
     (if mm_merchant m = sp_merchant sub
      then m\<lparr>mm_activeSubscribers := mm_activeSubscribers m + 1, mm_mrr := mm_mrr m + sp_monthlyAmount sub\<rparr> # ms
      else m # addToMerchant sub ms)"

definition merchantMrrBreakdown :: "(string \<Rightarrow> int) \<Rightarrow> Subscription list \<Rightarrow> MerchantMrr list" where
  "merchantMrrBreakdown rank subs =
     sort_key (\<lambda>m. rank (mm_merchant m)) (foldl (\<lambda>ms sub. if sp_active sub then addToMerchant sub ms else ms) [] subs)"

section \<open>Preferences\<close>

record Settings =
  se_displayCurrency :: string
  se_amountFormat :: string
  se_decimalPlaces :: "int option"

definition DEFAULT_SETTINGS :: Settings where
  "DEFAULT_SETTINGS = \<lparr>se_displayCurrency = ''USD'', se_amountFormat = ''full'', se_decimalPlaces = Some 7\<rparr>"

text \<open>The storage as a map; decimal places that are no number are \<open>None\<close>.\<close>

type_synonym storage = "string \<rightharpoonup> string"

definition storedText :: "string option \<Rightarrow> string \<Rightarrow> string" where
  "storedText v d = (case v of None \<Rightarrow> d | Some s \<Rightarrow> if s = [] then d else s)"

definition getDecimalPlaces :: "storage \<Rightarrow> int option" where
  "getDecimalPlaces st =
     (case st ''flowfi-decimal-places'' of None \<Rightarrow> Some 7 | Some s \<Rightarrow> if s = [] then Some 7 else parseInt10 s)"

definition loadSettingsFromStorage :: "storage \<Rightarrow> Settings" where
  "loadSettingsFromStorage st =
     \<lparr>se_displayCurrency = storedText (st ''flowfi-currency'') ''USD'', se_amountFormat = storedText (st ''flowfi-amount-format'') ''full'',
      se_decimalPlaces = getDecimalPlaces st\<rparr>"

definition setDisplayCurrency :: "string \<Rightarrow> Settings \<times> storage \<Rightarrow> Settings \<times> storage" where
  "setDisplayCurrency currency s = ((fst s)\<lparr>se_displayCurrency := currency\<rparr>, (snd s)(''flowfi-currency'' \<mapsto> currency))"

definition setAmountFormat :: "string \<Rightarrow> Settings \<times> storage \<Rightarrow> Settings \<times> storage" where
  "setAmountFormat fmt s = ((fst s)\<lparr>se_amountFormat := fmt\<rparr>, (snd s)(''flowfi-amount-format'' \<mapsto> fmt))"

definition setDecimalPlaces :: "int \<Rightarrow> Settings \<times> storage \<Rightarrow> Settings \<times> storage" where
  "setDecimalPlaces places s = ((fst s)\<lparr>se_decimalPlaces := Some places\<rparr>, (snd s)(''flowfi-decimal-places'' \<mapsto> toString places))"

text \<open>Amounts as \<open>bigint\<close>; decimal places that are no number cut the fraction off.\<close>

definition formatAmountWithPreference :: "storage \<Rightarrow> int \<Rightarrow> nat \<Rightarrow> string" where
  "formatAmountWithPreference st raw tokenDecimals =
     (let divisor = 10 ^ tokenDecimals;
          integerPart = raw sdiv divisor;
          fractionalPart = raw smod divisor;
          padded = padStart (toString fractionalPart) tokenDecimals CHR ''0'';
          cut = (case getDecimalPlaces st of
                   None \<Rightarrow> []
                 | Some k \<Rightarrow> if 0 \<le> k then take (nat k) padded else take (length padded - nat (- k)) padded);
          trimmedFractional = stripZeros cut
      in if fractionalPart = 0 then toString integerPart
         else if trimmedFractional = [] then toString integerPart
         else toString integerPart @ ''.'' @ trimmedFractional)"

section \<open>Order and totals\<close>

lemma zip_sorted: "sorted (map snd (filter P (zip es [n..<n + length es])))"
proof -
  have "sorted (map snd (zip es [n..<n + length es]))" by simp
  then show ?thesis by (rule sorted_filter)
qed

lemma filter_zip_fst: "map fst (filter (\<lambda>p. P (fst p)) (zip es [n..<n + length es])) = filter P es"
proof (induction es arbitrary: n)
  case (Cons e es)
  have "[n..<n + length (e # es)] = n # [Suc n..<n + length (e # es)]" by (rule upt_conv_Cons) simp
  then have "[n..<n + length (e # es)] = n # [Suc n..<Suc n + length es]" by simp
  with Cons [of "Suc n"] show ?case by simp
qed simp

lemma sort_pairs_stable:
  fixes v :: "'a \<Rightarrow> int"
  shows "map fst (sort_key (\<lambda>(e, i). (v e, i)) (zip es [0..<length es])) = sort_key v es"
proof (rule properties_for_sort_key [symmetric])
  let ?f = "\<lambda>(e, i). (v e, i :: nat)" and ?z = "zip es [0..<length es]"
  have "mset (map fst (sort_key ?f ?z)) = mset (map fst ?z)" by (simp only: mset_map mset_sort)
  then show "mset (map fst (sort_key ?f ?z)) = mset es" by simp
  have le: "fst a \<le> fst b" if "a \<le> b" for a b :: "int \<times> nat" using that by (auto simp: less_eq_prod_def)
  have "sorted (map fst (map ?f (sort_key ?f ?z)))"
    by (rule sorted_map_mono [OF sorted_sort_key]) (auto simp: mono_on_def dest: le)
  then show "sorted (map v (map fst (sort_key ?f ?z)))" by (simp add: comp_def case_prod_beta)
  fix k
  have "filter (\<lambda>p. v k = v (fst p)) (sort_key ?f ?z) = sort_key ?f (filter (\<lambda>p. v k = v (fst p)) ?z)" by (rule filter_sort)
  also have "\<dots> = filter (\<lambda>p. v k = v (fst p)) ?z"
  proof (rule sort_key_id_if_sorted)
    have "map ?f (filter (\<lambda>p. v k = v (fst p)) ?z) = map (Pair (v k)) (map snd (filter (\<lambda>p. v k = v (fst p)) ?z))"
      by (auto simp: case_prod_beta)
    moreover have "sorted (map (Pair (v k)) (map snd (filter (\<lambda>p. v k = v (fst p)) ?z)))"
      by (rule sorted_map_mono) (use zip_sorted [where n = 0] in \<open>auto simp: mono_on_def\<close>)
    ultimately show "sorted (map ?f (filter (\<lambda>p. v k = v (fst p)) ?z))" by (simp only:)
  qed
  finally show "filter (\<lambda>x. v k = v x) (map fst (sort_key ?f ?z)) = filter (\<lambda>x. v k = v x) es"
    using filter_zip_fst [of "\<lambda>x. v k = v x" es 0] by (simp add: filter_map comp_def)
qed

lemma equal_sorted: "sorted (map v (filter (\<lambda>e. v e = x) es))"
  by (induction es) auto

lemma sorted_events:
  "\<forall>e\<in>set es. sortValue e key \<noteq> None \<Longrightarrow> sortActivityEvents es key direction = Some (sort_key (orderValue key direction) es)"
  using sort_pairs_stable [of "orderValue key direction" es] by (auto simp: sortActivityEvents_def list_ex_iff)

text \<open>
  The activity table is sorted: when every value can be read, the result has the same events in the
  order of the column, those of equal value keep the order in which they came, and filtering and
  sorting can be done in either order. The newest first is the mirror of the oldest first.
\<close>
theorem activity_table_sorted:
  assumes "\<forall>e\<in>set es. sortValue e key \<noteq> None"
  shows "\<exists>out. sortActivityEvents es key direction = Some out \<and> mset out = mset es \<and> sorted (map (orderValue key direction) out) \<and>
    (\<forall>x. filter (\<lambda>e. orderValue key direction e = x) out = filter (\<lambda>e. orderValue key direction e = x) es) \<and>
    sortActivityEvents (filterActivityEvents es filters) key direction = Some (filterActivityEvents out filters)"
proof -
  let ?v = "orderValue key direction"
  have "filter (\<lambda>e. ?v e = x) (sort_key ?v es) = filter (\<lambda>e. ?v e = x) es" for x
    using sort_key_id_if_sorted [OF equal_sorted] by (simp add: filter_sort)
  moreover have "\<forall>e\<in>set (filterActivityEvents es filters). sortValue e key \<noteq> None"
    using assms by (simp add: filterActivityEvents_def)
  ultimately show ?thesis
    using sorted_events [OF assms] sorted_events [of "filterActivityEvents es filters" key direction]
    by (simp add: filterActivityEvents_def filter_sort)
qed

definition sampleEvent :: "int \<Rightarrow> string option \<Rightarrow> BackendStreamEvent" where
  "sampleEvent t amt = \<lparr>be_id = [], be_streamId = 7, be_eventType = ''WITHDRAWN'', be_amount = amt, be_transactionHash = ''ab'', be_timestamp = t\<rparr>"

theorem activity_table_sorted_witness:
  "\<exists>out. sortActivityEvents [sampleEvent 3 None, sampleEvent 1 None, sampleEvent 2 None] ByTimestamp Ascending = Some out \<and>
     map be_timestamp out = [1, 2, 3]"
proof -
  have v: "\<forall>e\<in>set [sampleEvent 3 None, sampleEvent 1 None, sampleEvent 2 None]. sortValue e ByTimestamp \<noteq> None" by simp
  from activity_table_sorted [OF v, of Ascending] obtain out where
    "sortActivityEvents [sampleEvent 3 None, sampleEvent 1 None, sampleEvent 2 None] ByTimestamp Ascending = Some out" by blast
  then have "out = sort_key (orderValue ByTimestamp Ascending) [sampleEvent 3 None, sampleEvent 1 None, sampleEvent 2 None]" "sortActivityEvents
      [sampleEvent 3 None, sampleEvent 1 None, sampleEvent 2 None] ByTimestamp Ascending = Some out"
    by (simp_all only: sorted_events [OF v] option.inject)
  then show ?thesis by (intro exI [of _ out] conjI) (simp_all add: orderValue_def sampleEvent_def)
qed

text \<open>One amount that is no integer breaks the sorting of the whole table.\<close>

lemma fractional_amount_throws:
  "e \<in> set es \<Longrightarrow> 2 \<le> length es \<Longrightarrow> be_amount e = Some (c # cs) \<Longrightarrow> BigInt (c # cs) = None \<Longrightarrow> sortActivityEvents es ByAmount direction = None"
  by (force simp: sortActivityEvents_def list_ex_iff)

lemma add_mrr: "sum_list (map mm_mrr (addToMerchant sub ms)) = sum_list (map mm_mrr ms) + sp_monthlyAmount sub"
  by (induction ms) simp_all

lemma add_subscribers: "sum_list (map mm_activeSubscribers (addToMerchant sub ms)) = sum_list (map mm_activeSubscribers ms) + 1"
  by (induction ms) simp_all

lemma add_merchants: "set (map mm_merchant (addToMerchant sub ms)) = insert (sp_merchant sub) (set (map mm_merchant ms))"
  by (induction ms) auto

lemma add_distinct: "distinct (map mm_merchant ms) \<Longrightarrow> distinct (map mm_merchant (addToMerchant sub ms))"
proof (induction ms)
  case (Cons m ms)
  then show ?case using add_merchants [of sub ms] by auto
qed simp

lemma breakdown_fold:
  "let ms' = foldl (\<lambda>ms sub. if sp_active sub then addToMerchant sub ms else ms) ms subs in
     sum_list (map mm_mrr ms') = foldl (\<lambda>sum sub. if sp_active sub then sum + sp_monthlyAmount sub else sum) (sum_list (map mm_mrr ms)) subs \<and>
     sum_list (map mm_activeSubscribers ms') = sum_list (map mm_activeSubscribers ms) + int (length (filter sp_active subs)) \<and>
     (distinct (map mm_merchant ms) \<longrightarrow> distinct (map mm_merchant ms')) \<and>
     set (map mm_merchant ms') = set (map mm_merchant ms) \<union> sp_merchant ` set (filter sp_active subs)"
proof (induction subs arbitrary: ms)
  case (Cons sub subs)
  show ?case
  proof (cases "sp_active sub")
    case True
    then show ?thesis
      using Cons.IH [of "addToMerchant sub ms"] add_distinct [of ms sub] add_merchants [of sub ms] by (simp add: add_mrr add_subscribers Let_def)
  qed (use Cons.IH [of ms] in simp)
qed (simp add: Let_def)

text \<open>
  The merchants' view and the subscribers' view agree: the revenues of the breakdown add up to the total
  monthly burn and its subscribers to the active subscriptions, and every merchant with an active
  subscription has exactly one line, in the order of the collation.
\<close>
theorem mrr_adds_up:
  "sum_list (map mm_mrr (merchantMrrBreakdown rank subs)) = totalMonthlyBurn subs \<and>
   sum_list (map mm_activeSubscribers (merchantMrrBreakdown rank subs)) = int (length (filter sp_active subs)) \<and>
   distinct (map mm_merchant (merchantMrrBreakdown rank subs)) \<and>
   set (map mm_merchant (merchantMrrBreakdown rank subs)) = sp_merchant ` set (filter sp_active subs) \<and>
   sorted (map (\<lambda>m. rank (mm_merchant m)) (merchantMrrBreakdown rank subs))"
proof -
  let ?ms = "foldl (\<lambda>ms sub. if sp_active sub then addToMerchant sub ms else ms) [] subs"
  have same: "mset (merchantMrrBreakdown rank subs) = mset ?ms" by (simp add: merchantMrrBreakdown_def)
  have s: "sum_list (map f (merchantMrrBreakdown rank subs)) = sum_list (map f ?ms)" for f :: "MerchantMrr \<Rightarrow> int"
  proof -
    have "sum_mset (mset (map f (merchantMrrBreakdown rank subs))) = sum_mset (mset (map f ?ms))" by (simp only: mset_map same)
    then show ?thesis by (simp only: sum_mset_sum_list)
  qed
  have d: "distinct (map mm_merchant (merchantMrrBreakdown rank subs)) = distinct (map mm_merchant ?ms)"
    by (rule mset_eq_imp_distinct_iff) (simp only: mset_map same)
  have t: "set (map mm_merchant (merchantMrrBreakdown rank subs)) = set (map mm_merchant ?ms)"
    by (rule mset_eq_setD) (simp only: mset_map same)
  show ?thesis
    using breakdown_fold [of "[]" subs] unfolding s d t
    by (simp add: totalMonthlyBurn_def Let_def merchantMrrBreakdown_def)
qed

text \<open>The two formatters of amounts agree: the preference is a truncation to its decimal places.\<close>

lemma preference_truncates:
  assumes "getDecimalPlaces st = Some (int k)" "raw \<noteq> 0"
  shows "formatAmountWithPreference st raw decimals = truncateAmount raw decimals k"
  using assms by (simp add: formatAmountWithPreference_def truncateAmount_def Let_def)

lemma places_kept: "places \<in> {2, 4, 7} \<Longrightarrow> getDecimalPlaces (snd (setDecimalPlaces places s)) = Some places"
  by (auto simp: getDecimalPlaces_def setDecimalPlaces_def parseInt10_def parse_radix_def radix_val_def is_digit_def is_ws_def code_def)

end
