(* ===== verification/Tx_Tracker.thy ===== *)
theory Tx_Tracker
  imports Stream_Feed
begin

text \<open>
  The lifecycle of a transaction in the web client (\<open>frontend/src/components/TransactionTracker.tsx\<close>):
  the hook with its states, the check whether the indexer shows the expected change, the summary of
  changes, and the polling of the component, whose answers and cancellations are parameters.
\<close>

section \<open>The hook\<close>

datatype TransactionStatus = IdleTx | Signing | Submitted | Confirming | ConfirmedTx | FailedTx | CancelledTx

datatype TransactionAction = CreateTx | WithdrawTx | TopupTx | CancelTx | PauseTx | ResumeTx

record ExpectedChanges =
  ec_depositedAmount :: "string option"
  ec_withdrawnAmount :: "string option"
  ec_isActive :: "bool option"
  ec_isPaused :: "bool option"

definition POLL_INTERVAL :: int where
  "POLL_INTERVAL = 3000"

definition MAX_POLL_ATTEMPTS :: nat where
  "MAX_POLL_ATTEMPTS = 20"

fun ACTION_LABELS :: "TransactionAction \<Rightarrow> string \<times> string" where
  "ACTION_LABELS CreateTx = (''Creating stream'', ''Stream created'')"
| "ACTION_LABELS WithdrawTx = (''Withdrawing'', ''Withdrawn'')"
| "ACTION_LABELS TopupTx = (''Topping up'', ''Topped up'')"
| "ACTION_LABELS CancelTx = (''Cancelling stream'', ''Stream cancelled'')"
| "ACTION_LABELS PauseTx = (''Pausing stream'', ''Stream paused'')"
| "ACTION_LABELS ResumeTx = (''Resuming stream'', ''Stream resumed'')"

record tracker =
  tr_status :: TransactionStatus
  tr_txHash :: "string option"
  tr_error :: "string option"
  tr_errorCode :: "string option"

definition newTracker :: tracker where
  "newTracker = \<lparr>tr_status = IdleTx, tr_txHash = None, tr_error = None, tr_errorCode = None\<rparr>"

definition resetTx :: "tracker \<Rightarrow> tracker" where
  "resetTx t = t\<lparr>tr_status := IdleTx, tr_txHash := None, tr_error := None, tr_errorCode := None\<rparr>"

definition startTx :: "tracker \<Rightarrow> tracker" where
  "startTx t = t\<lparr>tr_status := Signing, tr_error := None, tr_errorCode := None\<rparr>"

definition submitTx :: "string \<Rightarrow> tracker \<Rightarrow> tracker" where
  "submitTx hash t = t\<lparr>tr_txHash := Some hash, tr_status := Submitted\<rparr>"

definition confirmTx :: "tracker \<Rightarrow> tracker" where
  "confirmTx t = t\<lparr>tr_status := Confirming\<rparr>"

definition succeedTx :: "tracker \<Rightarrow> tracker" where
  "succeedTx t = t\<lparr>tr_status := ConfirmedTx\<rparr>"

definition failTx :: "string \<Rightarrow> string option \<Rightarrow> tracker \<Rightarrow> tracker" where
  "failTx e ecode t = t\<lparr>tr_status := FailedTx, tr_error := Some e, tr_errorCode := ecode\<rparr>"

definition cancelTx :: "tracker \<Rightarrow> tracker" where
  "cancelTx t = t\<lparr>tr_status := CancelledTx\<rparr>"

lemmas tracker_defs = resetTx_def startTx_def submitTx_def confirmTx_def succeedTx_def failTx_def cancelTx_def newTracker_def

section \<open>Confirmation by the indexer\<close>

definition checkConfirmation :: "BackendStream \<Rightarrow> ExpectedChanges option \<Rightarrow> bool" where
  "checkConfirmation current expected =
     (case expected of
        None \<Rightarrow> True
      | Some e \<Rightarrow>
          if (case ec_depositedAmount e of None \<Rightarrow> False | Some a \<Rightarrow> bs_depositedAmount current \<noteq> a) then False
          else if (case ec_withdrawnAmount e of None \<Rightarrow> False | Some a \<Rightarrow> bs_withdrawnAmount current \<noteq> a) then False
          else if (case ec_isActive e of None \<Rightarrow> False | Some b \<Rightarrow> bs_isActive current \<noteq> b) then False
          else True)"

datatype change_line = DepositedLine string | WithdrawnLine string | StatusLine bool

text \<open>The lines of the summary; an amount that is no integer throws. An empty list is shown as no change.\<close>

definition amountChange :: "string \<Rightarrow> string \<Rightarrow> (string \<Rightarrow> change_line) \<Rightarrow> change_line list result" where
  "amountChange old new line =
     (if old = new then Inr []
      else bindE (of_opt SyntaxError (BigInt new)) (\<lambda>n. bindE (of_opt SyntaxError (BigInt old)) (\<lambda>m. Inr [line (formatAmount (n - m) 7)])))"

definition renderChanges :: "BackendStream \<Rightarrow> BackendStream \<Rightarrow> change_line list result" where
  "renderChanges prev current =
     bindE (amountChange (bs_depositedAmount prev) (bs_depositedAmount current) DepositedLine) (\<lambda>dep.
     bindE (amountChange (bs_withdrawnAmount prev) (bs_withdrawnAmount current) WithdrawnLine) (\<lambda>wd.
     Inr (dep @ wd @ (if bs_isActive prev = bs_isActive current then [] else [StatusLine (bs_isActive current)]))))"

text \<open>
  The polling effect. \<open>te_stoppedBefore n\<close> and \<open>te_stoppedAfter n\<close> say whether the effect has been
  cleaned up when attempt \<open>n\<close> begins and when its answer is in; \<open>te_answer n\<close> is the stream, or \<open>None\<close> when
  the request fails. The answer has the outcome, the number of requests and the stream seen last.
\<close>

record track_env =
  te_stoppedBefore :: "nat \<Rightarrow> bool"
  te_stoppedAfter :: "nat \<Rightarrow> bool"
  te_answer :: "nat \<Rightarrow> BackendStream option"

datatype track_result = TrackStopped | TrackTimeout | TrackConfirmed string

fun trackerPoll ::
  "track_env \<Rightarrow> TransactionAction \<Rightarrow> ExpectedChanges option \<Rightarrow> nat \<Rightarrow> nat \<Rightarrow> BackendStream option \<Rightarrow> track_result \<times> nat \<times> BackendStream option" where
  "trackerPoll E action expected 0 n seen = (if te_stoppedBefore E n then TrackStopped else TrackTimeout, n, seen)"
| "trackerPoll E action expected (Suc k) n seen =
     (if te_stoppedBefore E n then (TrackStopped, n, seen)
      else let seen' = (case te_answer E n of None \<Rightarrow> seen | Some d \<Rightarrow> Some d) in
        if te_stoppedAfter E n then (TrackStopped, Suc n, seen')
        else if (case te_answer E n of None \<Rightarrow> False | Some d \<Rightarrow> checkConfirmation d expected)
        then (TrackConfirmed (snd (ACTION_LABELS action) @ '' successfully!''), Suc n, seen')
        else trackerPoll E action expected k (Suc n) seen')"

definition trackConfirmation :: "track_env \<Rightarrow> TransactionAction \<Rightarrow> ExpectedChanges option \<Rightarrow> track_result \<times> nat \<times> BackendStream option" where
  "trackConfirmation E action expected = trackerPoll E action expected MAX_POLL_ATTEMPTS 0 None"

section \<open>The polling ends and is right\<close>

lemma poll_requests: "fst (snd (trackerPoll E a ex k n seen)) \<le> n + k"
proof (induction k arbitrary: n seen)
  case (Suc k)
  show ?case using Suc [of "Suc n"] by (auto simp: Let_def simp del: trackerPoll.simps(1) intro: le_trans)
qed simp

lemma poll_confirms:
  "trackerPoll E a ex k n seen = (TrackConfirmed m, c, lst) \<Longrightarrow>
     \<exists>i d. n \<le> i \<and> c = Suc i \<and> i < n + k \<and> te_answer E i = Some d \<and> lst = Some d \<and> checkConfirmation d ex \<and>
       (\<forall>j. n \<le> j \<and> j < i \<longrightarrow> (case te_answer E j of None \<Rightarrow> True | Some d' \<Rightarrow> \<not> checkConfirmation d' ex))"
proof (induction k arbitrary: n seen)
  case (Suc k)
  show ?case
  proof (cases "case te_answer E n of None \<Rightarrow> False | Some d \<Rightarrow> checkConfirmation d ex")
    case True
    then show ?thesis using Suc.prems by (auto simp: Let_def split: if_splits option.splits)
  next
    case False
    then have "\<exists>s. trackerPoll E a ex k (Suc n) s = (TrackConfirmed m, c, lst)"
      using Suc.prems by (auto simp: Let_def split: if_splits)
    then obtain i d where i: "Suc n \<le> i" "c = Suc i" "i < Suc n + k" "te_answer E i = Some d" "lst = Some d" "checkConfirmation d ex"
        "\<forall>j. Suc n \<le> j \<and> j < i \<longrightarrow> (case te_answer E j of None \<Rightarrow> True | Some d' \<Rightarrow> \<not> checkConfirmation d' ex)"
      using Suc.IH by blast
    have "case te_answer E j of None \<Rightarrow> True | Some d' \<Rightarrow> \<not> checkConfirmation d' ex" if "n \<le> j" "j < i" for j
      using False i(7) that by (cases "j = n") (auto split: option.splits)
    with i show ?thesis by (intro exI [of _ i] exI [of _ d]) auto
  qed
qed (simp split: if_splits)

lemma poll_timeout:
  "fst (trackerPoll E a ex k n seen) = TrackTimeout \<Longrightarrow> n \<le> j \<Longrightarrow> j < n + k \<Longrightarrow> te_answer E j = Some d \<Longrightarrow> \<not> checkConfirmation d ex"
proof (induction k arbitrary: n seen)
  case (Suc k)
  from Suc.prems(1) have r: "\<exists>s. fst (trackerPoll E a ex k (Suc n) s) = TrackTimeout"
    and no: "\<not> (case te_answer E n of None \<Rightarrow> False | Some d \<Rightarrow> checkConfirmation d ex)"
    by (auto simp: Let_def split: if_splits)
  show ?case
  proof (cases "j = n")
    case True then show ?thesis using no Suc.prems(4) by simp
  next
    case False then show ?thesis using Suc.IH r Suc.prems(2-4) by (metis Suc_leI add_Suc_shift le_neq_implies_less)
  qed
qed simp

text \<open>C35. The polling makes at most twenty requests. It reports success exactly for the first answer that shows
  the expected change, which is then the stream on display, and a time-out only when none of
  twenty answers showed it.
\<close>
theorem tracking_ends:
  "case trackConfirmation E action expected of (r, requests, seen) \<Rightarrow>
     requests \<le> 20 \<and>
     (\<forall>m. r = TrackConfirmed m \<longrightarrow> (\<exists>d. seen = Some d \<and> te_answer E (requests - 1) = Some d \<and> checkConfirmation d expected \<and>
        (\<forall>j < requests - 1. \<forall>d'. te_answer E j = Some d' \<longrightarrow> \<not> checkConfirmation d' expected))) \<and>
     (r = TrackTimeout \<longrightarrow> (\<forall>j < 20. \<forall>d. te_answer E j = Some d \<longrightarrow> \<not> checkConfirmation d expected))"
proof -
  obtain r c s where p: "trackerPoll E action expected 20 0 None = (r, c, s)" by (metis surj_pair)
  have "c \<le> 20" using poll_requests [where E = E and a = action and ex = expected and k = 20 and n = 0 and seen = None] p by simp
  moreover have "\<exists>d. s = Some d \<and> te_answer E (c - 1) = Some d \<and> checkConfirmation d expected \<and>
      (\<forall>j < c - 1. \<forall>d'. te_answer E j = Some d' \<longrightarrow> \<not> checkConfirmation d' expected)" if "r = TrackConfirmed m" for m
    using poll_confirms [OF p [unfolded that]] by (auto split: option.splits)
  moreover have "\<not> checkConfirmation d expected" if "r = TrackTimeout" "j < 20" "te_answer E j = Some d" for j d
    using poll_timeout [where E = E and a = action and ex = expected and k = 20 and n = 0 and seen = None and j = j and d = d] p that by simp
  ultimately show ?thesis unfolding trackConfirmation_def MAX_POLL_ATTEMPTS_def p by auto
qed

definition exampleStreamAnswer :: "string \<Rightarrow> BackendStream" where
  "exampleStreamAnswer dep =
     \<lparr>bs_id = [], bs_streamId = 7, bs_sender = ''GA'', bs_recipient = ''GB'', bs_tokenAddress = ''C'', bs_ratePerSecond = ''1'',
      bs_depositedAmount = dep, bs_withdrawnAmount = ''0'', bs_startTime = 0, bs_lastUpdateTime = 0, bs_isActive = True,
      bs_isPaused = None, bs_pausedAt = None, bs_totalPausedDuration = None, bs_createdAt = 0, bs_events = None\<rparr>"

definition secondAnswer :: track_env where
  "secondAnswer = \<lparr>te_stoppedBefore = (\<lambda>_. False), te_stoppedAfter = (\<lambda>_. False),
     te_answer = (\<lambda>n. Some (exampleStreamAnswer (if n = 0 then ''10'' else ''30'')))\<rparr>"

definition topUpExpected :: ExpectedChanges where
  "topUpExpected = \<lparr>ec_depositedAmount = Some ''30'', ec_withdrawnAmount = None, ec_isActive = None, ec_isPaused = None\<rparr>"

theorem tracking_ends_witness:
  "trackConfirmation secondAnswer TopupTx (Some topUpExpected) = (TrackConfirmed ''Topped up successfully!'', 2, Some (exampleStreamAnswer ''30'')) \<and>
   checkConfirmation (exampleStreamAnswer ''30'') (Some topUpExpected) \<and> \<not> checkConfirmation (exampleStreamAnswer ''10'') (Some topUpExpected)"
proof -
  have r: "trackConfirmation secondAnswer TopupTx (Some topUpExpected) = (TrackConfirmed ''Topped up successfully!'', 2, Some (exampleStreamAnswer ''30''))"
    by (simp add: trackConfirmation_def MAX_POLL_ATTEMPTS_def eval_nat_numeral secondAnswer_def checkConfirmation_def topUpExpected_def exampleStreamAnswer_def)
  have "te_answer secondAnswer 0 = Some (exampleStreamAnswer ''10'')" by (simp add: secondAnswer_def)
  with r show ?thesis using tracking_ends [where E = secondAnswer and action = TopupTx and expected = "Some topUpExpected"] by auto
qed

text \<open>Without expected changes the first answer counts as a confirmation, and a pause is never looked at.\<close>

lemma nothing_expected: "checkConfirmation s None" "checkConfirmation s (Some e) = checkConfirmation s (Some (e\<lparr>ec_isPaused := b\<rparr>))"
  by (simp_all add: checkConfirmation_def)

text \<open>The summary of a top-up says what was added.\<close>

lemma summary_of_topup:
  assumes "bs_depositedAmount old = toString m" "bs_depositedAmount new = toString n" "m \<noteq> n"
    "bs_withdrawnAmount old = bs_withdrawnAmount new" "bs_isActive old = bs_isActive new"
  shows "renderChanges old new = Inr [DepositedLine (formatAmount (n - m) 7)]"
proof -
  have "toString m \<noteq> toString n" using assms(3) BigInt_toString [of m] BigInt_toString [of n] by (metis option.inject)
  then show ?thesis using assms by (simp add: renderChanges_def amountChange_def)
qed

end
