(* ===== verification/Details_Page.thy ===== *)
theory Details_Page
  imports Tx_Tracker Stream_Form Stream_Queries
begin

text \<open>
  The page of one stream (\<open>frontend/src/app/streams/[id]/stream-details-content.tsx\<close> with
  \<open>CancelConfirmModal.tsx\<close>), as a step function over clicks, answers of the wallet and answers of the
  backend in any order. Requests are numbered as the page numbers them; an answer carries the number
  of its request. The page stays on one stream, whose identifier in the address is not empty.
\<close>

section \<open>What the backend sends\<close>

text \<open>
  The columns of a row and the fields of a chain record, as \<open>res.json\<close> writes them. The users and
  events included with a row and its time stamps are left out; the page does not read them.
\<close>

definition rowFields :: "stream_row \<Rightarrow> (string \<times> json) list" where
  "rowFields r =
     [(''streamId'', streamIdToJson (streamId r)), (''sender'', JStr (sender r)), (''recipient'', JStr (recipient r)),
      (''tokenAddress'', JStr (tokenAddress r)), (''ratePerSecond'', JStr (ratePerSecond r)),
      (''depositedAmount'', JStr (depositedAmount r)), (''withdrawnAmount'', JStr (withdrawnAmount r)),
      (''startTime'', streamIdToJson (startTime r)), (''lastUpdateTime'', streamIdToJson (lastUpdateTime r)),
      (''endTime'', case endTime r of None \<Rightarrow> JNull | Some t \<Rightarrow> streamIdToJson t), (''isActive'', JBool (isActive r)),
      (''isPaused'', JBool (isPaused r)), (''pausedAt'', case pausedAt r of None \<Rightarrow> JNull | Some t \<Rightarrow> streamIdToJson t),
      (''totalPausedDuration'', JNum (totalPausedDuration r))]"

definition chainFields :: "ChainStream \<Rightarrow> (string \<times> json) list" where
  "chainFields c =
     [(''streamId'', streamIdToJson (ch_streamId c)), (''sender'', JStr (ch_sender c)), (''recipient'', JStr (ch_recipient c)),
      (''tokenAddress'', JStr (ch_tokenAddress c)), (''ratePerSecond'', JStr (ch_ratePerSecond c)),
      (''depositedAmount'', JStr (ch_depositedAmount c)), (''withdrawnAmount'', JStr (ch_withdrawnAmount c)),
      (''startTime'', JNum (ch_startTime c)), (''isActive'', JBool (ch_isActive c)), (''source'', JStr ''chain'')]"

definition viewJson :: "stream_view \<Rightarrow> json" where
  "viewJson v = JObj (case v of DbStream r \<Rightarrow> rowFields r | ChainOnly c \<Rightarrow> chainFields c | Merged r c \<Rightarrow> rowFields r @ chainFields c)"

definition eventJson :: "listed_event \<Rightarrow> json" where
  "eventJson e =
     JObj [(''id'', JStr (fst e)), (''streamId'', streamIdToJson (ev_streamId (snd e))), (''eventType'', JStr (ev_eventType (snd e))),
           (''amount'', case ev_amount (snd e) of None \<Rightarrow> JNull | Some a \<Rightarrow> JStr a), (''transactionHash'', JStr (ev_transactionHash (snd e))),
           (''ledgerSequence'', JNum (ev_ledgerSequence (snd e))), (''timestamp'', JNum (ev_timestamp (snd e)))]"

definition eventsJson :: "listed_event list \<times> int \<times> bool \<Rightarrow> json" where
  "eventsJson r =
     (case r of (evs, cnt, hasMore) \<Rightarrow> JObj [(''data'', JArr (map eventJson evs)), (''total'', JNum cnt), (''hasMore'', JBool hasMore)])"

section \<open>What the page reads\<close>

definition truthyField :: "jvalue \<Rightarrow> string \<Rightarrow> bool" where
  "truthyField v k = (\<not> falsy (getProperty v k))"

definition textField :: "jvalue \<Rightarrow> string \<Rightarrow> string result" where
  "textField v k = (case getProperty v k of Some (VStr s) \<Rightarrow> Inr s | _ \<Rightarrow> Inl TypeError)"

definition bigField :: "jvalue \<Rightarrow> string \<Rightarrow> int result" where
  "bigField v k = bindE (textField v k) (\<lambda>s. of_opt SyntaxError (BigInt s))"

text \<open>The badge: the label, after \<open>status.toLowerCase()\<close> has been called for a stream that is not paused.\<close>

definition statusBadge :: "jvalue \<Rightarrow> string result" where
  "statusBadge v = (if truthyField v ''isPaused'' then Inr ''Paused'' else textField v ''status'')"

definition renderDetails :: "jvalue \<Rightarrow> string result" where
  "renderDetails v =
     bindE (bigField v ''depositedAmount'') (\<lambda>deposited. bindE (bigField v ''withdrawnAmount'') (\<lambda>withdrawn.
     bindE (bigField v ''ratePerSecond'') (\<lambda>rate. bindE (textField v ''sender'') (\<lambda>s. bindE (textField v ''recipient'') (\<lambda>r.
     bindE (textField v ''tokenAddress'') (\<lambda>t. statusBadge v))))))"

text \<open>\<open>data.events || []\<close>; what is not a list there is not followed.\<close>

definition pageEvents :: "jvalue \<Rightarrow> jvalue list" where
  "pageEvents v = (case getProperty v ''events'' of Some (VArr xs) \<Rightarrow> xs | _ \<Rightarrow> [])"

definition pageTotal :: "jvalue \<Rightarrow> jsnum" where
  "pageTotal v = (case getProperty v ''total'' of Some (VNum n) \<Rightarrow> if n = NaN then Fin 0 else n | _ \<Rightarrow> Fin 0)"

definition EVENTS_PER_PAGE :: jsnum where
  "EVENTS_PER_PAGE = Fin 10"

section \<open>The page\<close>

datatype fetch_for = ForLoad | ForRefresh | ForPage | ForAction nat

datatype page_action = PWithdraw | PTopUp | PPause | PResume | PCancel

text \<open>
  \<open>dt_calls\<close> are the calls the wallet has been asked for, with the click each is due to, and
  \<open>dt_running\<close> the positions of those not answered. \<open>dt_streamOf\<close> is the number of the request whose
  answer is on display; it and the calls are not in the code.
\<close>

record details_page =
  dt_session :: "string option"
  dt_hydrated :: bool
  dt_stream :: "jvalue option"
  dt_events :: "jvalue list"
  dt_eventsPage :: int
  dt_eventsTotal :: jsnum
  dt_loading :: bool
  dt_error :: "string option"
  dt_topUpAmount :: string
  dt_showTopUp :: bool
  dt_showCancelModal :: bool
  dt_modalBusy :: bool
  dt_tracker :: tracker
  dt_streamReq :: nat
  dt_eventsReq :: nat
  dt_streamWaits :: "(nat \<times> fetch_for) list"
  dt_eventsWaits :: "(nat \<times> fetch_for) list"
  dt_sseSeen :: bool
  dt_running :: "(nat \<times> page_action) list"
  dt_calls :: "(page_action \<times> wallet_call) list"
  dt_streamOf :: nat

definition openDetails :: "string option \<Rightarrow> details_page" where
  "openDetails session =
     \<lparr>dt_session = session, dt_hydrated = False, dt_stream = None, dt_events = [], dt_eventsPage = 1, dt_eventsTotal = Fin 0,
      dt_loading = True, dt_error = None, dt_topUpAmount = [], dt_showTopUp = False, dt_showCancelModal = False, dt_modalBusy = False,
      dt_tracker = newTracker, dt_streamReq = 0, dt_eventsReq = 0, dt_streamWaits = [], dt_eventsWaits = [], dt_sseSeen = False,
      dt_running = [], dt_calls = [], dt_streamOf = 0\<rparr>"

datatype details_view = Skeleton | ErrorView string | Crashed | Ready jvalue

definition detailsView :: "details_page \<Rightarrow> details_view" where
  "detailsView p =
     (if dt_loading p then Skeleton
      else case dt_error p of
        Some e \<Rightarrow> ErrorView (if e = [] then ''Stream not found'' else e)
      | None \<Rightarrow>
          (case dt_stream p of
             None \<Rightarrow> ErrorView ''Stream not found''
           | Some v \<Rightarrow>
               if falsy (Some v) then ErrorView ''Stream not found''
               else (case renderDetails v of Inl _ \<Rightarrow> Crashed | Inr _ \<Rightarrow> Ready v)))"

subsection \<open>Requests\<close>

definition fetchStream :: "fetch_for \<Rightarrow> details_page \<Rightarrow> details_page" where
  "fetchStream why p =
     p\<lparr>dt_streamReq := Suc (dt_streamReq p), dt_streamWaits := dt_streamWaits p @ [(Suc (dt_streamReq p), why)]\<rparr>"

definition fetchEvents :: "fetch_for \<Rightarrow> details_page \<Rightarrow> details_page" where
  "fetchEvents why p =
     p\<lparr>dt_eventsReq := Suc (dt_eventsReq p), dt_eventsWaits := dt_eventsWaits p @ [(Suc (dt_eventsReq p), why)]\<rparr>"

definition hydrateDetails :: "details_page \<Rightarrow> details_page" where
  "hydrateDetails p =
     (if dt_hydrated p then p else fetchEvents ForLoad (fetchStream ForLoad (p\<lparr>dt_hydrated := True, dt_loading := True\<rparr>)))"

text \<open>The effect of new events and of a new page: its previous requests are aborted and end without a trace.\<close>

definition refreshEffect :: "details_page \<Rightarrow> details_page" where
  "refreshEffect p =
     (let p1 = p\<lparr>dt_streamWaits := filter (\<lambda>w. snd w \<noteq> ForRefresh) (dt_streamWaits p),
                 dt_eventsWaits := filter (\<lambda>w. snd w \<noteq> ForRefresh) (dt_eventsWaits p)\<rparr>
      in if dt_sseSeen p then fetchEvents ForRefresh (fetchStream ForRefresh p1) else p1)"

definition streamEventArrives :: "details_page \<Rightarrow> details_page" where
  "streamEventArrives p = refreshEffect (p\<lparr>dt_sseSeen := True\<rparr>)"

text \<open>What continues when a request is settled: the end of loading, or the end of an action.\<close>

definition settle :: "fetch_for \<Rightarrow> details_page \<Rightarrow> details_page" where
  "settle why p =
     (case why of
        ForLoad \<Rightarrow> if list_ex (\<lambda>w. snd w = ForLoad) (dt_streamWaits p @ dt_eventsWaits p) then p else p\<lparr>dt_loading := False\<rparr>
      | ForAction k \<Rightarrow> p\<lparr>dt_tracker := succeedTx (dt_tracker p)\<rparr>
      | _ \<Rightarrow> p)"

definition streamAnswer :: "nat \<Rightarrow> string + jvalue \<Rightarrow> details_page \<Rightarrow> details_page" where
  "streamAnswer i reply p =
     (case map_of (dt_streamWaits p) i of
        None \<Rightarrow> p
      | Some why \<Rightarrow>
          (let p1 = p\<lparr>dt_streamWaits := filter (\<lambda>w. fst w \<noteq> i) (dt_streamWaits p)\<rparr>;
               p2 = (if i \<noteq> dt_streamReq p then p1
                     else case reply of Inl message \<Rightarrow> p1\<lparr>dt_error := Some message\<rparr> | Inr v \<Rightarrow> p1\<lparr>dt_stream := Some v, dt_streamOf := i\<rparr>)
           in settle why p2))"

definition eventsAnswer :: "nat \<Rightarrow> jvalue option \<Rightarrow> details_page \<Rightarrow> details_page" where
  "eventsAnswer i reply p =
     (case map_of (dt_eventsWaits p) i of
        None \<Rightarrow> p
      | Some why \<Rightarrow>
          (let p1 = p\<lparr>dt_eventsWaits := filter (\<lambda>w. fst w \<noteq> i) (dt_eventsWaits p)\<rparr>;
               p2 = (case reply of
                       Some v \<Rightarrow> if i = dt_eventsReq p then p1\<lparr>dt_events := pageEvents v, dt_eventsTotal := pageTotal v\<rparr> else p1
                     | None \<Rightarrow> p1)
           in settle why p2))"

subsection \<open>Actions\<close>

definition isSender :: "details_page \<Rightarrow> bool" where
  "isSender p = (case (dt_session p, dt_stream p) of (Some pk, Some v) \<Rightarrow> getProperty v ''sender'' = Some (VStr pk) | _ \<Rightarrow> False)"

definition isRecipient :: "details_page \<Rightarrow> bool" where
  "isRecipient p = (case (dt_session p, dt_stream p) of (Some pk, Some v) \<Rightarrow> getProperty v ''recipient'' = Some (VStr pk) | _ \<Rightarrow> False)"

text \<open>The panel of actions is only shown for an active stream.\<close>

definition actionsShown :: "details_page \<Rightarrow> bool" where
  "actionsShown p = (case detailsView p of Ready v \<Rightarrow> (isSender p \<or> isRecipient p) \<and> truthyField v ''isActive'' | _ \<Rightarrow> False)"

definition isPausedStream :: "details_page \<Rightarrow> bool" where
  "isPausedStream p = (case dt_stream p of Some v \<Rightarrow> truthyField v ''isPaused'' | None \<Rightarrow> False)"

text \<open>From \<open>tracker.start()\<close> to the moment the wallet is asked; \<open>mk\<close> computes the call.\<close>

definition beginAction ::
  "(err \<Rightarrow> string) \<Rightarrow> page_action \<Rightarrow> (string \<Rightarrow> wallet_call call_result) \<Rightarrow> details_page \<Rightarrow> details_page" where
  "beginAction textOf a mk p =
     (case dt_session p of
        None \<Rightarrow> p
      | Some pk \<Rightarrow>
          (let p1 = p\<lparr>dt_tracker := startTx (dt_tracker p)\<rparr> in
           case mk pk of
             Inl e \<Rightarrow> p1\<lparr>dt_tracker := failTx (toSorobanErrorMessage textOf e) None (dt_tracker p1)\<rparr>
           | Inr call \<Rightarrow> p1\<lparr>dt_running := (length (dt_calls p), a) # dt_running p, dt_calls := dt_calls p @ [(a, call)]\<rparr>))"

definition streamNumber :: "string \<Rightarrow> int call_result" where
  "streamNumber sid = nativeCall (of_opt SyntaxError (BigInt sid))"

definition handleWithdraw :: "(err \<Rightarrow> string) \<Rightarrow> string \<Rightarrow> details_page \<Rightarrow> details_page" where
  "handleWithdraw textOf sid = beginAction textOf PWithdraw (\<lambda>pk. bindE (streamNumber sid) (\<lambda>n. Inr (withdrawCall pk n)))"

definition handleTopUp :: "(err \<Rightarrow> string) \<Rightarrow> string \<Rightarrow> details_page \<Rightarrow> details_page" where
  "handleTopUp textOf sid p =
     (if dt_session p = None then p
      else if dt_topUpAmount p = [] \<or> numLe (parseFloat (dt_topUpAmount p)) (Fin 0) then p
      else beginAction textOf PTopUp
             (\<lambda>pk. bindE (toBaseUnits (dt_topUpAmount p) 7) (\<lambda>amt. bindE (streamNumber sid) (\<lambda>n. Inr (topUpStreamCall pk n amt)))) p)"

definition handlePause :: "(err \<Rightarrow> string) \<Rightarrow> string \<Rightarrow> details_page \<Rightarrow> details_page" where
  "handlePause textOf sid = beginAction textOf PPause (\<lambda>pk. bindE (streamNumber sid) (\<lambda>n. Inr (pauseStreamCall pk n)))"

definition handleResume :: "(err \<Rightarrow> string) \<Rightarrow> string \<Rightarrow> details_page \<Rightarrow> details_page" where
  "handleResume textOf sid = beginAction textOf PResume (\<lambda>pk. bindE (streamNumber sid) (\<lambda>n. Inr (resumeStreamCall pk n)))"

definition handleCancel :: "(err \<Rightarrow> string) \<Rightarrow> string \<Rightarrow> details_page \<Rightarrow> details_page" where
  "handleCancel textOf sid = beginAction textOf PCancel (\<lambda>pk. bindE (streamNumber sid) (\<lambda>n. Inr (cancelStreamCall pk n)))"

text \<open>
  The wallet answers call \<open>k\<close>: the handlers catch every error, so the dialog of a cancellation is told
  that all went well and stays busy; after a success the stream is fetched again.
\<close>

definition walletAnswer :: "(err \<Rightarrow> string) \<Rightarrow> nat \<Rightarrow> call_error + string \<Rightarrow> details_page \<Rightarrow> details_page" where
  "walletAnswer textOf k reply p =
     (case map_of (dt_running p) k of
        None \<Rightarrow> p
      | Some a \<Rightarrow>
          (let p1 = p\<lparr>dt_running := filter (\<lambda>r. fst r \<noteq> k) (dt_running p)\<rparr> in
           case reply of
             Inl e \<Rightarrow> p1\<lparr>dt_tracker := failTx (toSorobanErrorMessage textOf e) None (dt_tracker p)\<rparr>
           | Inr txHash \<Rightarrow>
               (let p2 = p1\<lparr>dt_tracker := confirmTx (submitTx txHash (dt_tracker p))\<rparr>;
                    p3 = (if a = PTopUp then p2\<lparr>dt_showTopUp := False, dt_topUpAmount := []\<rparr>
                          else if a = PCancel then p2\<lparr>dt_showCancelModal := False\<rparr> else p2)
                in fetchStream (ForAction k) p3)))"

definition openCancelModal :: "details_page \<Rightarrow> details_page" where
  "openCancelModal p = (if dt_showCancelModal p then p else p\<lparr>dt_showCancelModal := True, dt_modalBusy := False\<rparr>)"

section \<open>Events\<close>

datatype details_event =
    Hydrated
  | SessionChanges "string option"
  | StreamEventArrives
  | StreamAnswer nat "string + jvalue"
  | EventsAnswer nat "jvalue option"
  | WalletAnswer nat "call_error + string"
  | ClickWithdraw int
  | ToggleTopUp
  | TypeTopUp string
  | ClickAddFunds
  | ClickPause
  | ClickResume
  | ClickCancel
  | ConfirmCancel
  | CloseModal
  | PreviousPage
  | NextPage

definition totalPages :: "details_page \<Rightarrow> jsnum" where
  "totalPages p = Math_ceil (numDiv (dt_eventsTotal p) EVENTS_PER_PAGE)"

definition pagerShown :: "details_page \<Rightarrow> bool" where
  "pagerShown p = ((case detailsView p of Ready v \<Rightarrow> True | _ \<Rightarrow> False) \<and> dt_events p \<noteq> [] \<and> numLess (Fin 1) (totalPages p))"

definition turnPage :: "int \<Rightarrow> details_page \<Rightarrow> details_page" where
  "turnPage newPage p = refreshEffect (fetchEvents ForPage (p\<lparr>dt_eventsPage := newPage\<rparr>))"

abbreviation idle :: "details_page \<Rightarrow> bool" where
  "idle p \<equiv> tr_status (dt_tracker p) = IdleTx"

text \<open>A button does something only where it is shown and enabled; \<open>ClickWithdraw\<close> carries the live claimable amount.\<close>

fun detailsStep :: "(err \<Rightarrow> string) \<Rightarrow> string \<Rightarrow> details_event \<Rightarrow> details_page \<Rightarrow> details_page" where
  "detailsStep textOf sid Hydrated p = hydrateDetails p"
| "detailsStep textOf sid (SessionChanges s) p = p\<lparr>dt_session := s\<rparr>"
| "detailsStep textOf sid StreamEventArrives p = streamEventArrives p"
| "detailsStep textOf sid (StreamAnswer i reply) p = streamAnswer i reply p"
| "detailsStep textOf sid (EventsAnswer i reply) p = eventsAnswer i reply p"
| "detailsStep textOf sid (WalletAnswer k reply) p = walletAnswer textOf k reply p"
| "detailsStep textOf sid (ClickWithdraw claimable) p =
     (if actionsShown p \<and> isRecipient p \<and> idle p \<and> 0 < claimable then handleWithdraw textOf sid p else p)"
| "detailsStep textOf sid ToggleTopUp p = (if actionsShown p \<and> isSender p then p\<lparr>dt_showTopUp := \<not> dt_showTopUp p\<rparr> else p)"
| "detailsStep textOf sid (TypeTopUp s) p = (if actionsShown p \<and> dt_showTopUp p then p\<lparr>dt_topUpAmount := s\<rparr> else p)"
| "detailsStep textOf sid ClickAddFunds p = (if actionsShown p \<and> dt_showTopUp p then handleTopUp textOf sid p else p)"
| "detailsStep textOf sid ClickPause p =
     (if actionsShown p \<and> isSender p \<and> \<not> isPausedStream p \<and> idle p then handlePause textOf sid p else p)"
| "detailsStep textOf sid ClickResume p =
     (if actionsShown p \<and> isSender p \<and> isPausedStream p \<and> idle p then handleResume textOf sid p else p)"
| "detailsStep textOf sid ClickCancel p = (if actionsShown p \<and> isSender p \<and> idle p then openCancelModal p else p)"
| "detailsStep textOf sid ConfirmCancel p =
     (if (case detailsView p of Ready v \<Rightarrow> True | _ \<Rightarrow> False) \<and> dt_showCancelModal p \<and> \<not> dt_modalBusy p
      then handleCancel textOf sid (p\<lparr>dt_modalBusy := True\<rparr>) else p)"
| "detailsStep textOf sid CloseModal p = (if dt_modalBusy p then p else p\<lparr>dt_showCancelModal := False\<rparr>)"
| "detailsStep textOf sid PreviousPage p =
     (if pagerShown p \<and> dt_eventsPage p \<noteq> 1 then turnPage (dt_eventsPage p - 1) p else p)"
| "detailsStep textOf sid NextPage p =
     (if pagerShown p \<and> Fin (of_int (dt_eventsPage p)) \<noteq> totalPages p then turnPage (dt_eventsPage p + 1) p else p)"

section \<open>Runs\<close>

lemmas request_defs = fetchStream_def fetchEvents_def refreshEffect_def streamEventArrives_def turnPage_def hydrateDetails_def Let_def

lemmas handler_defs = handleWithdraw_def handlePause_def handleResume_def handleCancel_def handleTopUp_def

text \<open>Requests and turning pages touch neither the tracker nor the calls nor the dialog.\<close>

definition actionPart :: "details_page \<Rightarrow> TransactionStatus \<times> (page_action \<times> wallet_call) list \<times> bool \<times> bool" where
  "actionPart p = (tr_status (dt_tracker p), dt_calls p, dt_showCancelModal p, dt_modalBusy p)"

lemma request_actions [simp]:
  "actionPart (hydrateDetails p) = actionPart p" "actionPart (streamEventArrives p) = actionPart p"
  "actionPart (turnPage n p) = actionPart p" "actionPart (eventsAnswer i r p) = (if \<exists>k. map_of (dt_eventsWaits p) i = Some (ForAction k)
     then (ConfirmedTx, snd (actionPart p)) else actionPart p)"
  by (simp_all add: actionPart_def request_defs eventsAnswer_def settle_def succeedTx_def split: option.split fetch_for.split)

definition oneOff :: "page_action \<Rightarrow> bool" where
  "oneOff a = (a \<in> {PWithdraw, PPause, PResume})"

fun actionsOk :: "TransactionStatus \<times> (page_action \<times> wallet_call) list \<times> bool \<times> bool \<Rightarrow> bool" where
  "actionsOk (st, calls, shown, busy) =
     ((st = IdleTx \<longrightarrow> calls = []) \<and> length (filter (\<lambda>c. oneOff (fst c)) calls) \<le> 1 \<and> length (filter (\<lambda>c. fst c = PCancel) calls) \<le> 1 \<and>
      ((\<exists>c\<in>set calls. fst c = PCancel) \<longrightarrow> shown \<longrightarrow> busy))"

lemma begin_actions:
  "actionPart (beginAction textOf a mk p) = actionPart p \<or>
   (\<exists>st call. st \<noteq> IdleTx \<and> (actionPart (beginAction textOf a mk p) = (st, snd (actionPart p)) \<or>
      actionPart (beginAction textOf a mk p) = (st, dt_calls p @ [(a, call)], dt_showCancelModal p, dt_modalBusy p)))"
  by (auto simp: beginAction_def actionPart_def tracker_defs Let_def split: option.split sum.split)

lemma wallet_actions:
  "actionPart (walletAnswer textOf k r p) = actionPart p \<or>
   (\<exists>st shown. st \<noteq> IdleTx \<and> (shown \<longrightarrow> dt_showCancelModal p) \<and> actionPart (walletAnswer textOf k r p) = (st, dt_calls p, shown, dt_modalBusy p))"
  by (auto simp: walletAnswer_def actionPart_def tracker_defs fetchStream_def Let_def split: option.split sum.split)

lemma answer_actions:
  "actionPart (streamAnswer i r p) = actionPart p \<or> actionPart (streamAnswer i r p) = (ConfirmedTx, snd (actionPart p))"
  by (auto simp: streamAnswer_def settle_def actionPart_def tracker_defs Let_def split: option.split sum.split fetch_for.split)

lemma actions_begin_idle:
  assumes "actionsOk (actionPart p)" "idle p" "oneOff a"
  shows "actionsOk (actionPart (beginAction textOf a mk p))"
  using begin_actions [of textOf a mk p] assms by (auto simp: actionPart_def oneOff_def)

lemma actions_begin_topup:
  "actionsOk (actionPart p) \<Longrightarrow> actionsOk (actionPart (beginAction textOf PTopUp mk p))"
  using begin_actions [of textOf PTopUp mk p] by (auto simp: actionPart_def oneOff_def)

lemma actions_begin_cancel:
  assumes "actionsOk (actionPart p)" "dt_showCancelModal p" "\<not> dt_modalBusy p"
  shows "actionsOk (actionPart (beginAction textOf PCancel mk (p\<lparr>dt_modalBusy := True\<rparr>)))"
proof -
  have "filter (\<lambda>c. fst c = PCancel) (dt_calls p) = []" using assms by (auto simp: actionPart_def filter_empty_conv)
  then show ?thesis
    using begin_actions [of textOf PCancel mk "p\<lparr>dt_modalBusy := True\<rparr>"] assms by (auto simp: actionPart_def oneOff_def)
qed

lemma step_actions: "actionsOk (actionPart p) \<Longrightarrow> actionsOk (actionPart (detailsStep textOf sid e p))"
proof (cases e)
  case (WalletAnswer k r)
  assume "actionsOk (actionPart p)"
  with wallet_actions [of textOf k r p] show ?thesis by (auto simp: WalletAnswer actionPart_def)
next
  case (StreamAnswer i r)
  assume "actionsOk (actionPart p)"
  with answer_actions [of i r p] show ?thesis by (auto simp: StreamAnswer actionPart_def)
next
  case ClickCancel
  assume "actionsOk (actionPart p)"
  then show ?thesis by (auto simp: ClickCancel openCancelModal_def actionPart_def)
next
  case CloseModal
  assume "actionsOk (actionPart p)"
  then show ?thesis by (auto simp: CloseModal actionPart_def)
next
  case ConfirmCancel
  assume "actionsOk (actionPart p)"
  then show ?thesis by (simp add: ConfirmCancel handleCancel_def actions_begin_cancel)
qed (auto simp: handler_defs oneOff_def intro: actions_begin_idle actions_begin_topup, auto simp: actionPart_def)

interpretation details_actions: event_machine "detailsStep textOf sid" "\<lambda>p. actionsOk (actionPart p)" "\<lambda>_. True"
  by unfold_locales (rule step_actions)

text \<open>C31. The page is good for one transaction: nothing ever puts its tracker back to idle, so in every run the
  wallet is asked at most once to withdraw, pause or resume, and at most once to cancel, whether the
  first attempt succeeds or fails.
\<close>
theorem one_transaction_per_visit:
  "let p = fold (detailsStep textOf sid) es (openDetails session) in
     length (filter (\<lambda>c. fst c \<in> {PWithdraw, PPause, PResume}) (dt_calls p)) \<le> 1 \<and>
     length (filter (\<lambda>c. fst c = PCancel) (dt_calls p)) \<le> 1 \<and> (idle p \<longrightarrow> dt_calls p = [])"
proof -
  have "actionsOk (actionPart (openDetails session))" by (simp add: actionPart_def openDetails_def)
  from details_actions.run_keeps [OF this, of es textOf sid] show ?thesis
    by (simp add: actionPart_def Let_def oneOff_def list_all_iff)
qed

definition withdrawable :: jvalue where
  "withdrawable = ofJson (JObj [(''recipient'', JStr ''GB''), (''sender'', JStr ''GA''), (''tokenAddress'', JStr ''C''), (''depositedAmount'', JStr ''100''),
     (''withdrawnAmount'', JStr ''0''), (''ratePerSecond'', JStr ''1''), (''isActive'', JBool True), (''isPaused'', JBool True)])"

section \<open>Which answer is shown\<close>

text \<open>The part of the page the answers to stream requests act on.\<close>

definition requestsOk :: "details_page \<Rightarrow> bool" where
  "requestsOk p =
     (dt_streamOf p \<le> dt_streamReq p \<and> (\<forall>w\<in>set (dt_streamWaits p). fst w \<le> dt_streamReq p \<and> fst w \<noteq> dt_streamOf p))"

definition shownKept :: "details_page \<Rightarrow> details_page \<Rightarrow> bool" where
  "shownKept p q = (dt_streamOf p \<le> dt_streamOf q \<and> (dt_streamOf q = dt_streamOf p \<longrightarrow> dt_stream q = dt_stream p))"

lemma fetch_requests: "requestsOk p \<Longrightarrow> requestsOk (fetchStream why p)"
  by (auto simp: requestsOk_def fetchStream_def)

lemma frame_requests:
  "requestsOk p \<Longrightarrow> dt_streamOf q = dt_streamOf p \<Longrightarrow> dt_streamReq q = dt_streamReq p \<Longrightarrow> set (dt_streamWaits q) \<subseteq> set (dt_streamWaits p) \<Longrightarrow> requestsOk q"
  by (auto simp: requestsOk_def)

lemma events_frame:
  "dt_stream (fetchEvents why p) = dt_stream p" "dt_streamOf (fetchEvents why p) = dt_streamOf p"
  "dt_streamReq (fetchEvents why p) = dt_streamReq p" "dt_streamWaits (fetchEvents why p) = dt_streamWaits p"
  "dt_stream (fetchStream why p) = dt_stream p" "dt_streamOf (fetchStream why p) = dt_streamOf p"
  by (simp_all add: fetchEvents_def fetchStream_def)

lemma refresh_requests: "requestsOk p \<Longrightarrow> requestsOk (refreshEffect p) \<and> shownKept p (refreshEffect p)"
proof -
  let ?q = "p\<lparr>dt_streamWaits := filter (\<lambda>w. snd w \<noteq> ForRefresh) (dt_streamWaits p),
              dt_eventsWaits := filter (\<lambda>w. snd w \<noteq> ForRefresh) (dt_eventsWaits p)\<rparr>"
  assume "requestsOk p"
  then have "requestsOk ?q" by (rule frame_requests) auto
  then show ?thesis
    by (auto simp: refreshEffect_def Let_def shownKept_def events_frame intro: frame_requests [OF fetch_requests])
qed

lemma begin_frame:
  "dt_stream (beginAction textOf a mk p) = dt_stream p" "dt_streamOf (beginAction textOf a mk p) = dt_streamOf p"
  "dt_streamReq (beginAction textOf a mk p) = dt_streamReq p" "dt_streamWaits (beginAction textOf a mk p) = dt_streamWaits p"
  "dt_error (beginAction textOf a mk p) = dt_error p" "dt_loading (beginAction textOf a mk p) = dt_loading p"
  "dt_events (beginAction textOf a mk p) = dt_events p"
  by (simp_all add: beginAction_def Let_def split: option.split sum.split)

lemma settle_frame [simp]:
  "dt_stream (settle w p) = dt_stream p" "dt_streamOf (settle w p) = dt_streamOf p" "dt_streamReq (settle w p) = dt_streamReq p"
  "dt_streamWaits (settle w p) = dt_streamWaits p" "dt_error (settle w p) = dt_error p" "dt_calls (settle w p) = dt_calls p"
  "dt_events (settle w p) = dt_events p"
  by (simp_all add: settle_def split: fetch_for.split)

lemma answer_requests: "requestsOk p \<Longrightarrow> requestsOk (streamAnswer i r p) \<and> shownKept p (streamAnswer i r p)"
  by (auto simp: streamAnswer_def requestsOk_def shownKept_def Let_def dest!: map_of_SomeD split: option.split sum.split)

lemma wallet_requests: "requestsOk p \<Longrightarrow> requestsOk (walletAnswer textOf k r p) \<and> shownKept p (walletAnswer textOf k r p)"
  by (auto simp: walletAnswer_def requestsOk_def shownKept_def fetchStream_def Let_def split: option.split sum.split)

lemma other_requests:
  assumes "requestsOk p" "dt_stream q = dt_stream p" "dt_streamOf q = dt_streamOf p" "dt_streamReq q = dt_streamReq p"
    "dt_streamWaits q = dt_streamWaits p"
  shows "requestsOk q \<and> shownKept p q"
  using assms by (auto simp: requestsOk_def shownKept_def)

lemma hydrate_requests: "requestsOk p \<Longrightarrow> requestsOk (hydrateDetails p) \<and> shownKept p (hydrateDetails p)"
  by (auto simp: requestsOk_def shownKept_def hydrateDetails_def fetchStream_def fetchEvents_def)

lemma refresh_after:
  assumes "requestsOk p" "dt_stream q = dt_stream p" "dt_streamOf q = dt_streamOf p" "dt_streamReq q = dt_streamReq p"
    "dt_streamWaits q = dt_streamWaits p"
  shows "requestsOk (refreshEffect q) \<and> shownKept p (refreshEffect q)"
proof -
  have "requestsOk q" "shownKept p q" using other_requests [OF assms] by simp_all
  then show ?thesis using refresh_requests [of q] by (auto simp: shownKept_def)
qed

lemma step_requests: "requestsOk p \<Longrightarrow> requestsOk (detailsStep textOf sid e p) \<and> shownKept p (detailsStep textOf sid e p)"
  by (cases e)
    (simp_all add: hydrate_requests answer_requests wallet_requests streamEventArrives_def turnPage_def refresh_after events_frame
      handler_defs begin_frame other_requests eventsAnswer_def openCancelModal_def Let_def split: option.split)

lemma shown_trans: "shownKept p q \<Longrightarrow> shownKept q r \<Longrightarrow> shownKept p r"
  by (auto simp: shownKept_def)

interpretation shown_stream: event_machine "detailsStep textOf sid" "\<lambda>q. requestsOk q \<and> shownKept p q" "\<lambda>_. True"
  by unfold_locales (metis step_requests shown_trans)

text \<open>C30. Answers may come in any order, but the page never goes back: along every run the stream on display
  comes from requests of growing number, and while the number stays the stream stays as it is.
\<close>
theorem shown_stream_never_older:
  "let p = fold (detailsStep textOf sid) es (openDetails session); q = fold (detailsStep textOf sid) fs p in
     dt_streamOf p \<le> dt_streamOf q \<and> (dt_streamOf q = dt_streamOf p \<longrightarrow> dt_stream q = dt_stream p) \<and> dt_streamOf q \<le> dt_streamReq q"
proof -
  define p q where "p = fold (detailsStep textOf sid) es (openDetails session)" and "q = fold (detailsStep textOf sid) fs p"
  have "requestsOk (openDetails session)" "shownKept (openDetails session) (openDetails session)"
    by (simp_all add: requestsOk_def openDetails_def shownKept_def)
  then have "requestsOk p"
    using shown_stream.run_keeps [of "openDetails session" "openDetails session" es textOf sid] by (simp add: p_def list_all_iff)
  then have "requestsOk q \<and> shownKept p q"
    using shown_stream.run_keeps [of p p fs textOf sid] by (simp add: q_def list_all_iff shownKept_def)
  then show ?thesis by (simp add: p_def [symmetric] q_def [symmetric] Let_def requestsOk_def shownKept_def)
qed

section \<open>An error stays\<close>

definition failedWith :: "(page_action \<times> wallet_call) list \<Rightarrow> details_page \<Rightarrow> bool" where
  "failedWith calls p = (dt_error p \<noteq> None \<and> dt_calls p = calls)"

lemma failed_view:
  "dt_error p \<noteq> None \<Longrightarrow> \<not> actionsShown p \<and> (case detailsView p of Ready v \<Rightarrow> True | _ \<Rightarrow> False) = False"
  by (auto simp: actionsShown_def detailsView_def)

lemma failed_requests:
  "dt_error (fetchStream why p) = dt_error p" "dt_error (fetchEvents why p) = dt_error p" "dt_error (refreshEffect p) = dt_error p"
  "dt_calls (fetchStream why p) = dt_calls p" "dt_calls (fetchEvents why p) = dt_calls p" "dt_calls (refreshEffect p) = dt_calls p"
  by (simp_all add: request_defs)

lemma step_failed: "failedWith calls p \<Longrightarrow> failedWith calls (detailsStep textOf sid e p)"
  by (cases e)
    (auto simp: failedWith_def failed_view failed_requests hydrateDetails_def streamEventArrives_def turnPage_def streamAnswer_def
      eventsAnswer_def walletAnswer_def pagerShown_def Let_def dest: failed_view split: option.split sum.split)

interpretation failed_details: event_machine "detailsStep textOf sid" "failedWith calls" "\<lambda>_. True"
  by unfold_locales (rule step_failed)

text \<open>
  One failed request ends the page: nothing clears the error, so however many later answers arrive, no
  stream is shown any more and the wallet is asked for nothing more, until the page is opened anew.
\<close>
theorem error_is_final:
  assumes "dt_error p = Some message"
  shows "let q = fold (detailsStep textOf sid) es p in
    (case detailsView q of Ready v \<Rightarrow> False | Crashed \<Rightarrow> False | _ \<Rightarrow> True) \<and> \<not> actionsShown q \<and> dt_calls q = dt_calls p"
proof -
  have "failedWith (dt_calls p) (fold (detailsStep textOf sid) es p)"
    using failed_details.run_keeps [of "dt_calls p" p es textOf sid] assms by (simp add: failedWith_def list_all_iff)
  then have "dt_error (fold (detailsStep textOf sid) es p) \<noteq> None" "dt_calls (fold (detailsStep textOf sid) es p) = dt_calls p"
    by (simp_all add: failedWith_def)
  with failed_view [OF this(1)] show ?thesis by (auto simp: Let_def detailsView_def)
qed

section \<open>Against the backend\<close>

definition fromBackend :: "details_event \<Rightarrow> bool" where
  "fromBackend e =
     (case e of
        StreamAnswer i (Inr v) \<Rightarrow> \<exists>view. v = ofJson (viewJson view)
      | EventsAnswer i (Some v) \<Rightarrow> \<exists>r. v = ofJson (eventsJson r)
      | _ \<Rightarrow> True)"

lemma no_events_field: "pageEvents (ofJson (eventsJson r)) = []"
  by (cases r) (simp add: eventsJson_def pageEvents_def)

lemma no_status_field: "getProperty (ofJson (viewJson view)) ''status'' = None"
  by (cases view) (simp_all add: viewJson_def rowFields_def chainFields_def)

lemma view_not_falsy: "v = ofJson (viewJson view) \<Longrightarrow> \<not> falsy (Some v)"
  by (cases view) (simp_all add: viewJson_def Let_def)

lemma unpaused_crashes: "v = ofJson (viewJson view) \<Longrightarrow> \<not> truthyField v ''isPaused'' \<Longrightarrow> \<exists>e. renderDetails v = Inl e"
  by (auto simp: renderDetails_def statusBadge_def textField_def no_status_field bindE_def split: sum.split)

definition backendPage :: "details_page \<Rightarrow> bool" where
  "backendPage p =
     (dt_events p = [] \<and> (\<forall>v. dt_stream p = Some v \<longrightarrow> (\<exists>view. v = ofJson (viewJson view))) \<and> (\<forall>c\<in>set (dt_calls p). fst c \<noteq> PPause))"

lemma backend_view: "backendPage p \<Longrightarrow> detailsView p = Ready v \<Longrightarrow> truthyField v ''isPaused'' \<and> isPausedStream p"
  using unpaused_crashes by (fastforce simp: backendPage_def detailsView_def isPausedStream_def split: if_splits option.splits sum.splits)

lemma begin_backend: "backendPage p \<Longrightarrow> a \<noteq> PPause \<Longrightarrow> backendPage (beginAction textOf a mk p)"
  by (auto simp: backendPage_def beginAction_def Let_def split: option.split sum.split)

lemma frame_backend:
  "backendPage p \<Longrightarrow> dt_events q = dt_events p \<Longrightarrow> dt_stream q = dt_stream p \<Longrightarrow> dt_calls q = dt_calls p \<Longrightarrow> backendPage q"
  by (simp add: backendPage_def)

lemma pause_backend: "backendPage p \<Longrightarrow> \<not> (actionsShown p \<and> isSender p \<and> \<not> isPausedStream p \<and> idle p)"
  using backend_view by (auto simp: actionsShown_def split: details_view.splits)

lemma request_frames:
  "dt_events (fetchStream why p) = dt_events p" "dt_events (fetchEvents why p) = dt_events p" "dt_events (refreshEffect p) = dt_events p"
  "dt_stream (refreshEffect p) = dt_stream p"
  by (simp_all add: request_defs)

lemma step_backend:
  assumes "backendPage p" "fromBackend e"
  shows "backendPage (detailsStep textOf sid e p)"
proof (cases e)
  case (StreamAnswer i r)
  then show ?thesis using assms
    by (auto simp: streamAnswer_def backendPage_def fromBackend_def Let_def split: option.split sum.split)
next
  case (EventsAnswer i r)
  then show ?thesis using assms
    by (auto simp: eventsAnswer_def backendPage_def fromBackend_def no_events_field Let_def split: option.split)
next
  case ClickPause
  then show ?thesis using assms pause_backend [OF assms(1)] by auto
next
  case (WalletAnswer k r)
  then show ?thesis using assms(1)
    by (auto simp: walletAnswer_def Let_def request_frames events_frame failed_requests split: option.split sum.split intro!: frame_backend [OF assms(1)])
qed (use assms(1) in \<open>auto simp: handler_defs hydrateDetails_def streamEventArrives_def turnPage_def openCancelModal_def request_frames events_frame
       failed_requests intro!: begin_backend frame_backend [OF assms(1)]\<close>)

interpretation backend_details: event_machine "detailsStep textOf sid" backendPage fromBackend
  by unfold_locales (rule step_backend)

text \<open>C32. With the answers the backend gives, the page works for paused streams only. The row has no column
  \<open>status\<close>, which the badge reads for a stream that is not paused, so such a stream crashes the page as
  soon as it is shown; the events are sent under \<open>data\<close> and read under \<open>events\<close>, so the history is
  always empty; and no stream can ever be paused from the page.
\<close>
theorem backend_pages_crash:
  assumes "list_all fromBackend es"
  shows "let p = fold (detailsStep textOf sid) es (openDetails session) in
    dt_events p = [] \<and> (\<forall>v. detailsView p = Ready v \<longrightarrow> truthyField v ''isPaused'') \<and>
    (\<forall>v. dt_stream p = Some v \<and> \<not> dt_loading p \<and> dt_error p = None \<and> \<not> truthyField v ''isPaused'' \<longrightarrow> detailsView p = Crashed) \<and>
    PPause \<notin> fst ` set (dt_calls p)"
proof -
  define p where "p = fold (detailsStep textOf sid) es (openDetails session)"
  have "backendPage (openDetails session)" by (simp add: backendPage_def openDetails_def)
  then have b: "backendPage p" unfolding p_def by (rule backend_details.run_keeps [OF _ assms])
  have "detailsView p = Crashed" if "dt_stream p = Some v" "\<not> dt_loading p" "dt_error p = None" "\<not> truthyField v ''isPaused''" for v
    using b that unpaused_crashes view_not_falsy by (fastforce simp: backendPage_def detailsView_def split: sum.split)
  with b backend_view [OF b] show ?thesis by (auto simp: p_def [symmetric] Let_def backendPage_def)
qed

section \<open>A failed cancellation\<close>

definition lockedDialog :: "details_page \<Rightarrow> bool" where
  "lockedDialog p =
     (dt_showCancelModal p \<and> dt_modalBusy p \<and> \<not> idle p \<and> (\<forall>r\<in>set (dt_running p). snd r \<noteq> PCancel))"

lemma begin_locked: "lockedDialog p \<Longrightarrow> a \<noteq> PCancel \<Longrightarrow> lockedDialog (beginAction textOf a mk p)"
  by (auto simp: lockedDialog_def beginAction_def tracker_defs Let_def split: option.split sum.split)

lemma frame_locked:
  "lockedDialog p \<Longrightarrow> dt_showCancelModal q = dt_showCancelModal p \<Longrightarrow> dt_modalBusy q = dt_modalBusy p \<Longrightarrow> dt_tracker q = dt_tracker p \<Longrightarrow>
     dt_running q = dt_running p \<Longrightarrow> lockedDialog q"
  by (simp add: lockedDialog_def)

lemma settle_locked: "lockedDialog p \<Longrightarrow> lockedDialog (settle why p)"
  by (auto simp: lockedDialog_def settle_def succeedTx_def split: fetch_for.split)

lemma wallet_locked: "lockedDialog p \<Longrightarrow> lockedDialog (walletAnswer textOf k r p)"
  by (auto simp: lockedDialog_def walletAnswer_def fetchStream_def tracker_defs Let_def dest!: map_of_SomeD split: option.split sum.split)

lemma request_locked:
  "dt_showCancelModal (fetchStream w p) = dt_showCancelModal p" "dt_modalBusy (fetchStream w p) = dt_modalBusy p"
  "dt_tracker (fetchStream w p) = dt_tracker p" "dt_running (fetchStream w p) = dt_running p"
  "dt_showCancelModal (fetchEvents w p) = dt_showCancelModal p" "dt_modalBusy (fetchEvents w p) = dt_modalBusy p"
  "dt_tracker (fetchEvents w p) = dt_tracker p" "dt_running (fetchEvents w p) = dt_running p"
  "dt_showCancelModal (refreshEffect p) = dt_showCancelModal p" "dt_modalBusy (refreshEffect p) = dt_modalBusy p"
  "dt_tracker (refreshEffect p) = dt_tracker p" "dt_running (refreshEffect p) = dt_running p"
  by (simp_all add: request_defs)

lemma step_locked:
  assumes "lockedDialog p"
  shows "lockedDialog (detailsStep textOf sid e p)"
proof (cases e)
  case (WalletAnswer k r) then show ?thesis using wallet_locked [OF assms] by simp
next
  case ClickCancel then show ?thesis using assms by (simp add: lockedDialog_def)
next
  case ConfirmCancel then show ?thesis using assms by (simp add: lockedDialog_def)
next
  case CloseModal then show ?thesis using assms by (simp add: lockedDialog_def)
qed (use assms in \<open>auto simp: handler_defs hydrateDetails_def streamEventArrives_def turnPage_def streamAnswer_def eventsAnswer_def request_locked Let_def
       split: option.split sum.split intro!: begin_locked settle_locked frame_locked [OF assms]\<close>)

interpretation locked_details: event_machine "detailsStep textOf sid" lockedDialog "\<lambda>_. True"
  by unfold_locales (rule step_locked)

text \<open>
  When a cancellation fails, the dialog that asked for it stays: the handler swallows the error, so the
  dialog reports a success and keeps its buttons disabled, and no later event closes it.
\<close>
theorem failed_cancel_locks_dialog:
  assumes "dt_running p = [(k, PCancel)]" "dt_showCancelModal p" "dt_modalBusy p"
  shows "let q = fold (detailsStep textOf sid) es (walletAnswer textOf k (Inl e) p) in
    dt_showCancelModal q \<and> dt_modalBusy q \<and> detailsStep textOf sid CloseModal q = q"
proof -
  have "lockedDialog (walletAnswer textOf k (Inl e) p)"
    using assms by (simp add: walletAnswer_def lockedDialog_def tracker_defs Let_def)
  then have "lockedDialog (fold (detailsStep textOf sid) es (walletAnswer textOf k (Inl e) p))"
    by (rule locked_details.run_keeps) (simp add: list_all_iff)
  then show ?thesis by (simp add: lockedDialog_def Let_def)
qed

section \<open>Concrete runs\<close>

text \<open>The answer of the wallet alone decides what the tracker shows: the indexer is not waited for.\<close>

lemma confirmed_whatever_is_fetched:
  assumes "map_of (dt_running p) k = Some a" "\<forall>w\<in>set (dt_streamWaits p). fst w \<le> dt_streamReq p"
  shows "tr_status (dt_tracker (streamAnswer (Suc (dt_streamReq p)) reply (walletAnswer textOf k (Inr h) p))) = ConfirmedTx"
proof -
  have "map_of (dt_streamWaits p) (Suc (dt_streamReq p)) = None" using assms(2) by (auto simp: map_of_eq_None_iff)
  with assms(1) show ?thesis
    by (auto simp: walletAnswer_def fetchStream_def streamAnswer_def settle_def succeedTx_def map_add_def Let_def split: sum.split)
qed

theorem one_transaction_per_visit_witness:
  "let p = fold (detailsStep (\<lambda>_. []) ''7'')
       [Hydrated, StreamAnswer 1 (Inr withdrawable), EventsAnswer 1 None, ClickWithdraw 5, WalletAnswer 0 (Inl NotAnError), ClickWithdraw 5]
       (openDetails (Some ''GB'')) in
     dt_calls p = [(PWithdraw, withdrawCall ''GB'' 7)] \<and> \<not> idle p \<and> length (filter (\<lambda>c. fst c \<in> {PWithdraw, PPause, PResume}) (dt_calls p)) \<le> 1"
proof -
  let ?es = "[Hydrated, StreamAnswer 1 (Inr withdrawable), EventsAnswer 1 None, ClickWithdraw 5, WalletAnswer 0 (Inl NotAnError), ClickWithdraw 5]"
  have "dt_calls (fold (detailsStep (\<lambda>_. []) ''7'') ?es (openDetails (Some ''GB''))) = [(PWithdraw, withdrawCall ''GB'' 7)]" by code_simp
  then show ?thesis
    using one_transaction_per_visit [where textOf = "\<lambda>_. []" and sid = "''7''" and es = ?es and session = "Some ''GB''"] by (auto simp: Let_def)
qed

theorem shown_stream_never_older_witness:
  "let p = fold (detailsStep (\<lambda>_. []) ''7'') [Hydrated, StreamEventArrives, StreamAnswer 2 (Inr VNull)] (openDetails None);
       q = fold (detailsStep (\<lambda>_. []) ''7'') [StreamAnswer 1 (Inr (VBool True))] p in
     dt_streamOf p = 2 \<and> dt_streamOf q = 2 \<and> dt_stream q = Some VNull"
proof -
  let ?p = "fold (detailsStep (\<lambda>_. []) ''7'') [Hydrated, StreamEventArrives, StreamAnswer 2 (Inr VNull)] (openDetails None)"
  have "dt_streamOf ?p = 2" "dt_stream ?p = Some VNull" "dt_streamOf (fold (detailsStep (\<lambda>_. []) ''7'') [StreamAnswer 1 (Inr (VBool True))] ?p) = 2"
    by code_simp+
  then show ?thesis
    using shown_stream_never_older [where textOf = "\<lambda>_. []" and sid = "''7''" and session = None and
        es = "[Hydrated, StreamEventArrives, StreamAnswer 2 (Inr VNull)]" and fs = "[StreamAnswer 1 (Inr (VBool True))]"]
    by (simp only: Let_def)
qed

theorem error_is_final_witness:
  "let p = fold (detailsStep (\<lambda>_. []) ''7'') [Hydrated, StreamAnswer 1 (Inl ''Stream not found''), EventsAnswer 1 None] (openDetails None);
       q = fold (detailsStep (\<lambda>_. []) ''7'') [StreamEventArrives, StreamAnswer 2 (Inr withdrawable)] p in
     dt_error p = Some ''Stream not found'' \<and> dt_stream q = Some withdrawable \<and> \<not> actionsShown q"
proof -
  let ?p = "fold (detailsStep (\<lambda>_. []) ''7'') [Hydrated, StreamAnswer 1 (Inl ''Stream not found''), EventsAnswer 1 None] (openDetails None)"
  have e: "dt_error ?p = Some ''Stream not found''"
    and s: "dt_stream (fold (detailsStep (\<lambda>_. []) ''7'') [StreamEventArrives, StreamAnswer 2 (Inr withdrawable)] ?p) = Some withdrawable" by code_simp+
  then show ?thesis
    using error_is_final [OF e, where es = "[StreamEventArrives, StreamAnswer 2 (Inr withdrawable)]" and textOf = "\<lambda>_. []" and sid = "''7''"]
    unfolding Let_def by blast
qed

definition exampleView :: stream_view where
  "exampleView = ChainOnly \<lparr>ch_streamId = 7, ch_sender = ''GA'', ch_recipient = ''GB'', ch_tokenAddress = ''C'', ch_ratePerSecond = ''1'',
     ch_depositedAmount = ''100'', ch_withdrawnAmount = ''0'', ch_startTime = 5, ch_isActive = True\<rparr>"

theorem backend_pages_crash_witness:
  "let es = [Hydrated, StreamAnswer 1 (Inr (ofJson (viewJson exampleView))), EventsAnswer 1 (Some (ofJson (eventsJson ([], 0, False))))];
       p = fold (detailsStep (\<lambda>_. []) ''7'') es (openDetails None) in
     list_all fromBackend es \<and> dt_stream p = Some (ofJson (viewJson exampleView)) \<and> detailsView p = Crashed"
proof -
  let ?es = "[Hydrated, StreamAnswer 1 (Inr (ofJson (viewJson exampleView))), EventsAnswer 1 (Some (ofJson (eventsJson ([], 0, False))))]"
  let ?p = "fold (detailsStep (\<lambda>_. []) ''7'') ?es (openDetails None)"
  have b: "list_all fromBackend ?es" by (auto simp: fromBackend_def)
  have "dt_stream ?p = Some (ofJson (viewJson exampleView))" "\<not> dt_loading ?p" "dt_error ?p = None"
    "\<not> truthyField (ofJson (viewJson exampleView)) ''isPaused''" by code_simp+
  with backend_pages_crash [OF b, of "\<lambda>_. []" "''7''" None] b show ?thesis by (simp only: Let_def) blast
qed

theorem failed_cancel_locks_dialog_witness:
  "let p = (openDetails (Some ''GA''))\<lparr>dt_running := [(0, PCancel)], dt_showCancelModal := True, dt_modalBusy := True\<rparr>;
       q = fold (detailsStep (\<lambda>_. []) ''7'') [CloseModal, ClickCancel] (walletAnswer (\<lambda>_. []) 0 (Inl NotAnError) p) in
     dt_running p = [(0, PCancel)] \<and> dt_showCancelModal q \<and> dt_modalBusy q"
proof -
  let ?p = "(openDetails (Some ''GA''))\<lparr>dt_running := [(0, PCancel)], dt_showCancelModal := True, dt_modalBusy := True\<rparr>"
  have r: "dt_running ?p = [(0, PCancel)]" "dt_showCancelModal ?p" "dt_modalBusy ?p" by simp_all
  show ?thesis
    using failed_cancel_locks_dialog [OF r, where e = NotAnError and textOf = "\<lambda>_. []" and sid = "''7''" and es = "[CloseModal, ClickCancel]"] r(1)
    unfolding Let_def by blast
qed

end
