(* ===== verification/Creation_Flow.thy ===== *)
theory Creation_Flow
  imports Stream_Form Stream_Feed
begin

text \<open>
  Creating and managing streams from the dashboard: the wizard
  (\<open>frontend/src/components/stream-creation/StreamCreationWizard.tsx\<close>) as a step function around the form
  of \<open>Stream_Form\<close>, its polling for the new stream, the flat form of
  \<open>app/streams/create/create-stream-content.tsx\<close>, and the handlers and cache updates of
  \<open>components/dashboard/dashboard-view.tsx\<close>.
\<close>

section \<open>The wizard\<close>

definition STEPS :: "string list" where
  "STEPS = [''Template'', ''Recipient'', ''Token'', ''Amount'', ''Schedule'']"

definition wizardOptions :: form_options where
  "wizardOptions =
     \<lparr>op_initialData = Some (noValues\<lparr>fv_token := Some ''USDC'', fv_amount := Some ''5000'', fv_duration := Some ''1'',
        fv_durationUnit := Some Months, fv_descriptionTag := Some ''salary''\<rparr>),
      op_enableDraftPersistence = False\<rparr>"

text \<open>\<open>wz_sent\<close> are the forms given to \<open>onSubmit\<close> and \<open>wz_hashes\<close> the hashes it returned; they are not in the code.\<close>

record wizard =
  wz_page :: form_page
  wz_step :: nat
  wz_submitting :: bool
  wz_templateName :: string
  wz_message :: "string option"
  wz_txHash :: "string option"
  wz_polling :: bool
  wz_timeout :: bool
  wz_redirect :: "string option"
  wz_waiting :: bool
  wz_sent :: "stream_form list"
  wz_hashes :: "string list"

definition openWizard :: "form_page \<Rightarrow> wizard" where
  "openWizard page =
     \<lparr>wz_page = page, wz_step = 1, wz_submitting = False, wz_templateName = [], wz_message = None, wz_txHash = None, wz_polling = False,
      wz_timeout = False, wz_redirect = None, wz_waiting = False, wz_sent = [], wz_hashes = []\<rparr>"

definition handleApplyTemplate :: "string \<Rightarrow> wizard \<Rightarrow> wizard" where
  "handleApplyTemplate templateId w =
     (let (msg, page) = applyTemplate wizardOptions templateId (wz_page w)
      in w\<lparr>wz_page := page, wz_message := (case msg of None \<Rightarrow> wz_message w | Some m \<Rightarrow> Some m)\<rparr>)"

definition handleSaveCustomTemplate :: "int \<Rightarrow> wizard \<Rightarrow> wizard" where
  "handleSaveCustomTemplate now w =
     (let (errorMsg, page) = saveCustomTemplate (wz_templateName w) now (wz_page w) in
      case errorMsg of
        Some m \<Rightarrow> w\<lparr>wz_page := page, wz_message := Some m\<rparr>
      | None \<Rightarrow> w\<lparr>wz_page := page, wz_templateName := [],
                 wz_message := Some (''Saved custom template '' @ [CHR 0x22] @ trim (wz_templateName w) @ [CHR 0x22] @ ''.'')\<rparr>)"

definition handleNext :: "wizard \<Rightarrow> wizard" where
  "handleNext w =
     (let (ok, page) = validateStep (wz_step w) (wz_page w)
      in w\<lparr>wz_page := page, wz_step := (if ok \<and> wz_step w < length STEPS then wz_step w + 1 else wz_step w)\<rparr>)"

definition handleBack :: "wizard \<Rightarrow> wizard" where
  "handleBack w = (if 1 < wz_step w then w\<lparr>wz_step := wz_step w - 1\<rparr> else w)"

definition handleSubmit :: "wizard \<Rightarrow> wizard" where
  "handleSubmit w =
     (let (ok, page) = validateStep (wz_step w) (wz_page w)
      in if ok then w\<lparr>wz_page := page, wz_submitting := True, wz_waiting := True, wz_sent := wz_sent w @ [fp_form page]\<rparr>
         else w\<lparr>wz_page := page\<rparr>)"

text \<open>\<open>onSubmit\<close> rejects or returns the hash.\<close>

definition submitAnswer :: "string option \<Rightarrow> wizard \<Rightarrow> wizard" where
  "submitAnswer reply w =
     (if \<not> wz_waiting w then w
      else case reply of
        None \<Rightarrow> w\<lparr>wz_waiting := False, wz_submitting := False\<rparr>
      | Some h \<Rightarrow> w\<lparr>wz_waiting := False, wz_txHash := Some h, wz_polling := True, wz_hashes := wz_hashes w @ [h]\<rparr>)"

text \<open>
  The polling loop: \<open>E n\<close> is the time attempt \<open>n\<close> takes in milliseconds and the identifiers of the streams
  in its answer (\<open>None\<close> when it throws); \<open>elapsed\<close> is the time since the start.
\<close>

function startPolling :: "(nat \<Rightarrow> nat \<times> string list option) \<Rightarrow> nat \<Rightarrow> nat \<Rightarrow> string option \<times> nat" where
  "startPolling E elapsed n =
     (if elapsed < 30000
      then case snd (E n) of
             Some (s # ss) \<Rightarrow> (Some s, Suc n)
           | _ \<Rightarrow> startPolling E (elapsed + fst (E n) + 2000) (Suc n)
      else (None, n))"
  by pat_completeness auto
termination by (relation "measure (\<lambda>(E, elapsed, n). 30000 - elapsed)") auto

declare startPolling.simps [simp del]

definition pollingEnds :: "string option \<Rightarrow> wizard \<Rightarrow> wizard" where
  "pollingEnds found w =
     (if \<not> wz_polling w then w
      else case found of None \<Rightarrow> w\<lparr>wz_timeout := True\<rparr> | Some sid \<Rightarrow> w\<lparr>wz_redirect := Some (''/streams/'' @ sid)\<rparr>)"

text \<open>What can happen: timers and answers of the form, the controls of the step on display, and the buttons.\<close>

datatype wizard_event =
    Background form_event
  | ChooseTemplate string
  | TypeTemplateName string
  | ClickSaveTemplate int
  | TypeRecipient string
  | ChooseToken string
  | TypeAmount string
  | ClickMax
  | TypeDuration string
  | ChooseUnit DurationUnit
  | ClickNext
  | ClickBack
  | ClickSubmit
  | SubmitAnswer "string option"
  | PollingEnds "string option"

definition background :: "form_event \<Rightarrow> bool" where
  "background e = (case e of HydrateTimer \<Rightarrow> True | DraftTimer t \<Rightarrow> True | BalanceAnswer a \<Rightarrow> True | WalletChanges a \<Rightarrow> True | _ \<Rightarrow> False)"

definition typeInto :: "form_values \<Rightarrow> wizard \<Rightarrow> wizard" where
  "typeInto v w = w\<lparr>wz_page := updateFormData wizardOptions v (wz_page w)\<rparr>"

definition onStep :: "nat \<Rightarrow> (wizard \<Rightarrow> wizard) \<Rightarrow> wizard \<Rightarrow> wizard" where
  "onStep n f w = (if wz_step w = n \<and> \<not> wz_polling w then f w else w)"

fun wizardStep :: "wizard_event \<Rightarrow> wizard \<Rightarrow> wizard" where
  "wizardStep (Background e) w = (if background e then w\<lparr>wz_page := formStep wizardOptions e (wz_page w)\<rparr> else w)"
| "wizardStep (ChooseTemplate i) w = onStep 1 (handleApplyTemplate i) w"
| "wizardStep (TypeTemplateName s) w = onStep 1 (\<lambda>w. w\<lparr>wz_templateName := s\<rparr>) w"
| "wizardStep (ClickSaveTemplate now) w = onStep 1 (\<lambda>w. if wz_submitting w then w else handleSaveCustomTemplate now w) w"
| "wizardStep (TypeRecipient s) w = onStep 2 (typeInto (noValues\<lparr>fv_recipient := Some s\<rparr>)) w"
| "wizardStep (ChooseToken s) w = onStep 3 (typeInto (noValues\<lparr>fv_token := Some s\<rparr>)) w"
| "wizardStep (TypeAmount s) w = onStep 4 (typeInto (noValues\<lparr>fv_amount := Some s\<rparr>)) w"
| "wizardStep ClickMax w = onStep 4 (\<lambda>w. w\<lparr>wz_page := setMaxAmount wizardOptions (wz_page w)\<rparr>) w"
| "wizardStep (TypeDuration s) w = onStep 5 (typeInto (noValues\<lparr>fv_duration := Some s\<rparr>)) w"
| "wizardStep (ChooseUnit u) w = onStep 5 (typeInto (noValues\<lparr>fv_durationUnit := Some u\<rparr>)) w"
| "wizardStep ClickNext w = (if \<not> wz_polling w \<and> wz_step w < length STEPS then handleNext w else w)"
| "wizardStep ClickBack w = (if wz_polling w then w else handleBack w)"
| "wizardStep ClickSubmit w = (if \<not> wz_polling w \<and> \<not> wz_submitting w \<and> \<not> wz_step w < length STEPS then handleSubmit w else w)"
| "wizardStep (SubmitAnswer r) w = submitAnswer r w"
| "wizardStep (PollingEnds r) w = pollingEnds r w"

section \<open>What the wizard submits\<close>

text \<open>The fields that the steps before \<open>n\<close> have checked; the balance is the one of that moment.\<close>

definition checkedBefore :: "nat \<Rightarrow> stream_form \<Rightarrow> bool" where
  "checkedBefore n d =
     ((3 \<le> n \<longrightarrow> validateRecipient (sf_recipient d) = None) \<and> (4 \<le> n \<longrightarrow> validateToken (sf_token d) = None) \<and>
      (5 \<le> n \<longrightarrow> validateAmount (sf_amount d) None = None))"

definition wizardOk :: "wizard \<Rightarrow> bool" where
  "wizardOk w =
     (1 \<le> wz_step w \<and> wz_step w \<le> 5 \<and> checkedBefore (wz_step w) (fp_form (wz_page w)) \<and>
      (\<forall>d\<in>set (wz_sent w). validateStreamForm (StreamFormData.truncate d) None None = []) \<and>
      (wz_waiting w \<longrightarrow> wz_submitting w \<and> \<not> wz_polling w) \<and> (wz_polling w \<longrightarrow> wz_submitting w) \<and>
      wz_hashes w = (case wz_txHash w of None \<Rightarrow> [] | Some h \<Rightarrow> [h]) \<and> (wz_polling w \<longleftrightarrow> wz_txHash w \<noteq> None))"

lemma amount_without_balance: "validateAmount a b = None \<Longrightarrow> validateAmount a None = None"
  by (simp add: validateAmount_def Let_def split: if_splits option.splits)

lemma step_valid: "fst (validateStep n p) \<longleftrightarrow> validateStreamForm (StreamFormData.truncate (fp_form p)) (Some n) (fp_balance p) = []"
  by (simp add: validateStep_def validateForm_def Let_def)

lemma validate_page [simp]: "fp_form (snd (validateStep n p)) = fp_form p"
  by (simp add: validateStep_def validateForm_def Let_def)

lemma checked_next:
  assumes "fst (validateStep n p)" "checkedBefore n (fp_form p)"
  shows "checkedBefore (n + 1) (fp_form p)"
  using assms amount_without_balance
  by (cases "n = 2"; cases "n = 3"; cases "n = 4")
    (auto simp: step_valid validateStreamForm_def checkedBefore_def StreamFormData.defs Let_def split: option.splits if_splits)

lemma checked_all:
  assumes "fst (validateStep 5 p)" "checkedBefore 5 (fp_form p)"
  shows "validateStreamForm (StreamFormData.truncate (fp_form p)) None None = []"
  using assms by (auto simp: step_valid validateStreamForm_def checkedBefore_def StreamFormData.defs Let_def split: option.splits if_splits)

lemma checked_back: "checkedBefore n d \<Longrightarrow> m \<le> n \<Longrightarrow> checkedBefore m d"
  by (auto simp: checkedBefore_def)

lemma update_form [simp]: "fp_form (updateFormData opts v p) = setValues v (fp_form p)"
  by (simp add: updateFormData_def set_frame)

lemma background_form: "background e \<Longrightarrow> fp_form (formStep wizardOptions e p) = fp_form p"
  by (cases e)
    (auto simp: background_def hydrateTemplates_def setCustomTemplates_def draftTimer_def balanceAnswer_def walletChanges_def effect_frame Let_def
      split: stored.split option.split)

lemma apply_template_form: "sf_recipient (fp_form (snd (applyTemplate opts i p))) = sf_recipient (fp_form p)"
  by (simp add: applyTemplate_def Let_def setValues_def split: option.split)

lemma save_template_form: "fp_form (snd (saveCustomTemplate n now p)) = fp_form p"
  by (simp add: saveCustomTemplate_def setCustomTemplates_def Let_def)

lemma checked_update:
  assumes "checkedBefore n d" "\<And>k. fv_recipient v \<noteq> None \<Longrightarrow> n \<le> 2" "fv_token v \<noteq> None \<Longrightarrow> n \<le> 3" "fv_amount v \<noteq> None \<Longrightarrow> n \<le> 4"
  shows "checkedBefore n (setValues v d)"
  using assms by (auto simp: checkedBefore_def setValues_def Let_def split: option.split)

lemma checked_early [simp]: "checkedBefore (Suc 0) d" "checkedBefore 1 d" "checkedBefore 2 d"
  by (simp_all add: checkedBefore_def)

lemma page_ok: "wizardOk w \<Longrightarrow> checkedBefore (wz_step w) (fp_form p) \<Longrightarrow> wizardOk (w\<lparr>wz_page := p\<rparr>)"
  by (auto simp: wizardOk_def)

lemma typing_ok:
  assumes "wizardOk w" "fv_recipient v \<noteq> None \<Longrightarrow> n \<le> 2" "fv_token v \<noteq> None \<Longrightarrow> n \<le> 3" "fv_amount v \<noteq> None \<Longrightarrow> n \<le> 4"
  shows "wizardOk (onStep n (typeInto v) w)"
  using assms by (auto simp: onStep_def typeInto_def intro!: page_ok checked_update) (simp add: wizardOk_def)

lemma step_ok_wizard:
  assumes "wizardOk w"
  shows "wizardOk (wizardStep e w)"
proof (cases e)
  case (Background f)
  then show ?thesis using assms by (auto simp: background_form wizardOk_def)
next
  case (ChooseTemplate i)
  then show ?thesis using assms by (auto simp: onStep_def handleApplyTemplate_def wizardOk_def Let_def split: prod.split)
next
  case (ClickSaveTemplate now)
  then show ?thesis using assms by (auto simp: onStep_def handleSaveCustomTemplate_def wizardOk_def Let_def split: prod.split option.split)
next
  case ClickMax
  then show ?thesis using assms
    by (auto simp: onStep_def setMaxAmount_def intro!: page_ok checked_update split: option.split) (auto simp: wizardOk_def noValues_def)
next
  case ClickNext
  then show ?thesis using assms checked_next [of "wz_step w" "wz_page w"]
    by (auto simp: handleNext_def wizardOk_def STEPS_def Let_def case_prod_beta)
next
  case ClickBack
  then show ?thesis using assms by (auto simp: handleBack_def wizardOk_def intro: checked_back)
next
  case ClickSubmit
  then show ?thesis using assms checked_all [of "wz_page w"]
    by (cases "wz_step w = 5") (auto simp: handleSubmit_def wizardOk_def STEPS_def Let_def case_prod_beta)
next
  case (SubmitAnswer r)
  then show ?thesis using assms by (auto simp: submitAnswer_def wizardOk_def split: option.split)
next
  case (PollingEnds r)
  then show ?thesis using assms by (auto simp: pollingEnds_def wizardOk_def split: option.split)
next
  case (TypeTemplateName s)
  then show ?thesis using assms by (auto simp: onStep_def wizardOk_def)
qed (use assms in \<open>auto intro!: typing_ok simp: noValues_def\<close>)

interpretation wizard_run: event_machine wizardStep wizardOk "\<lambda>_. True"
  by unfold_locales (rule step_ok_wizard)

text \<open>C33. However the user moves through the wizard, changing fields, going back, or receiving balances late,
  everything it submits passes the check of the whole form, the balance apart, although a click
  checks a single step; and at most one submission succeeds.
\<close>
theorem wizard_submits_valid_forms:
  "let w = fold wizardStep es (openWizard p) in
     (\<forall>d\<in>set (wz_sent w). validateStreamForm (StreamFormData.truncate d) None None = []) \<and> length (wz_hashes w) \<le> 1 \<and>
     (wz_hashes w \<noteq> [] \<longrightarrow> wz_sent (fold wizardStep fs w) = wz_sent w)"
proof -
  have ok: "wizardOk (fold wizardStep es (openWizard p))"
    by (rule wizard_run.run_keeps) (simp_all add: wizardOk_def openWizard_def checkedBefore_def list_all_iff)
  have "wizardOk w \<Longrightarrow> wz_polling w \<Longrightarrow> wz_sent (fold wizardStep fs w) = wz_sent w" for w
  proof (induction fs arbitrary: w)
    case (Cons f fs)
    have "wz_polling (wizardStep f w) \<and> wz_sent (wizardStep f w) = wz_sent w"
      using Cons.prems by (cases f) (auto simp: onStep_def submitAnswer_def pollingEnds_def wizardOk_def split: option.split)
    then show ?case using Cons step_ok_wizard by simp
  qed simp
  with ok show ?thesis by (auto simp: wizardOk_def Let_def split: option.splits)
qed

section \<open>Polling for the new stream\<close>

lemma polling_facts:
  "startPolling E elapsed n = (r, k) \<Longrightarrow>
     n \<le> k \<and> k \<le> n + (31999 - elapsed) div 2000 \<and>
     (case r of None \<Rightarrow> \<forall>j. n \<le> j \<and> j < k \<longrightarrow> snd (E j) \<in> {None, Some []}
      | Some s \<Rightarrow> n < k \<and> (\<exists>ss. snd (E (k - 1)) = Some (s # ss)) \<and> (\<forall>j. n \<le> j \<and> j < k - 1 \<longrightarrow> snd (E j) \<in> {None, Some []}))"
proof (induction E elapsed n arbitrary: r k rule: startPolling.induct)
  case (1 E elapsed n)
  show ?case
  proof (cases "elapsed < 30000 \<and> snd (E n) \<in> {None, Some []}")
    case True
    then have rec: "startPolling E (elapsed + fst (E n) + 2000) (Suc n) = (r, k)"
      using "1.prems" by (subst (asm) startPolling.simps) auto
    have later: "Suc n \<le> k \<and> k \<le> Suc n + (31999 - (elapsed + fst (E n) + 2000)) div 2000 \<and>
        (case r of None \<Rightarrow> \<forall>j. Suc n \<le> j \<and> j < k \<longrightarrow> snd (E j) \<in> {None, Some []}
         | Some s \<Rightarrow> Suc n < k \<and> (\<exists>ss. snd (E (k - 1)) = Some (s # ss)) \<and> (\<forall>j. Suc n \<le> j \<and> j < k - 1 \<longrightarrow> snd (E j) \<in> {None, Some []}))"
    proof (cases "snd (E n)")
      case None
      with True rec show ?thesis by (intro "1.IH"(1)) auto
    next
      case (Some xs)
      with True have "xs = []" by simp
      with Some True rec show ?thesis by (intro "1.IH"(2)) auto
    qed
    have "Suc n + (31999 - (elapsed + fst (E n) + 2000)) div 2000 \<le> n + (31999 - elapsed) div 2000" using True by arith
    moreover have "snd (E j) \<in> {None, Some []}" if "n \<le> j" "\<not> Suc n \<le> j" for j using True that by (simp add: not_less_eq_eq le_antisym)
    ultimately show ?thesis using later by (fastforce split: option.splits)
  next
    case False
    then show ?thesis using "1.prems" by (subst (asm) startPolling.simps) (auto split: option.splits list.splits if_splits)
  qed
qed

text \<open>
  The loop ends after at most fifteen requests. It reports the first stream of the first answer that has
  any, and times out only when no answer had one. It cannot tell an old stream from the new one: a
  sender who already has a stream is sent to that one by the first answer.
\<close>
theorem wizard_polling_ends:
  "case startPolling E 0 0 of (found, requests) \<Rightarrow>
     requests \<le> 15 \<and>
     (found = None \<longrightarrow> (\<forall>j < requests. snd (E j) \<in> {None, Some []})) \<and>
     (\<forall>s. found = Some s \<longrightarrow> (\<exists>ss. snd (E (requests - 1)) = Some (s # ss)) \<and> (\<forall>j < requests - 1. snd (E j) \<in> {None, Some []}))"
proof -
  obtain r k where r: "startPolling E 0 0 = (r, k)" by (metis surj_pair)
  from polling_facts [OF r] show ?thesis unfolding r by (auto split: option.splits)
qed

lemma old_stream_reported: "snd (E 0) = Some (old # ss) \<Longrightarrow> startPolling E 0 0 = (Some old, 1)"
  by (simp add: startPolling.simps)

theorem wizard_polling_ends_witness:
  "startPolling (\<lambda>n. (500, if n < 2 then None else Some [''42''])) 0 0 = (Some ''42'', 3) \<and> (3::nat) \<le> 15"
proof -
  have r: "startPolling (\<lambda>n. (500, if n < 2 then None else Some [''42''])) 0 0 = (Some ''42'', 3)" by (simp add: startPolling.simps)
  show ?thesis using wizard_polling_ends [of "\<lambda>n. (500, if n < 2 then None else Some [''42''])"] r by simp
qed

section \<open>The flat form\<close>

text \<open>
  The page \<open>/streams/create\<close>: the outcome of a submission. The first error shown is the one stored
  before this validation; the duration is read in days whatever the unit of the form says.
\<close>

definition createOptions :: form_options where
  "createOptions =
     \<lparr>op_initialData = Some (noValues\<lparr>fv_token := Some ''XLM'', fv_duration := Some ''30''\<rparr>), op_enableDraftPersistence = True\<rparr>"

datatype create_outcome = NotConnected | InvalidForm "string option" | CreateFails call_error | Created string

definition submitFlat ::
  "(string \<rightharpoonup> string) \<Rightarrow> wallet_net \<Rightarrow> string option \<Rightarrow> form_page \<Rightarrow> create_outcome \<times> form_page \<times> wallet_call list" where
  "submitFlat configured N session p =
     (case session of
        None \<Rightarrow> (NotConnected, p, [])
      | Some pk \<Rightarrow>
          (let (ok, p1) = validateAll p in
           if \<not> ok then (InvalidForm (case fp_errors p of [] \<Rightarrow> None | e # es \<Rightarrow> Some (snd e)), p1, [])
           else
             (case bindE (toBaseUnits (sf_amount (fp_form p)) 7) (\<lambda>amt. bindE (toDurationSeconds (sf_duration (fp_form p)) Days) (\<lambda>dur.
                     bindE (getTokenAddress configured (sf_token (fp_form p))) (\<lambda>token. Inr (amt, dur, token)))) of
                Inl e \<Rightarrow> (CreateFails e, p1, [])
              | Inr (amt, dur, token) \<Rightarrow>
                  (case walletInvoke N pk (createStreamCall pk
                          \<lparr>wc_recipient = sf_recipient (fp_form p), wc_tokenAddress = token, wc_amount = amt, wc_durationSeconds = dur\<rparr>) of
                     (Inl e, sent) \<Rightarrow> (CreateFails e, p1, sent)
                   | (Inr h, sent) \<Rightarrow> (Created h, discardDraft createOptions p1, sent)))))"

text \<open>The first rejected submission of a page tells the user nothing.\<close>

lemma first_error_silent:
  "fp_errors p = [] \<Longrightarrow> \<not> fst (validateAll p) \<Longrightarrow> fst (submitFlat configured N (Some pk) p) = InvalidForm None"
  by (simp add: submitFlat_def Let_def case_prod_beta)

text \<open>The address is checked without the spaces around it and sent with them.\<close>

lemma padded_recipient_sent:
  "validateRecipient s = validateRecipient (trim s)"
  "snd (createStreamCall pk \<lparr>wc_recipient = s, wc_tokenAddress = t, wc_amount = a, wc_durationSeconds = d\<rparr>) ! 1 = Plain (AddrArg s)"
  by (simp_all add: validateRecipient_def trim_trim createStreamCall_def)

section \<open>The dashboard\<close>

type_synonym dashboard_cache = "DashboardSnapshot option"

definition removeStreamLocally :: "string \<Rightarrow> dashboard_cache \<Rightarrow> dashboard_cache" where
  "removeStreamLocally sid = map_option (\<lambda>sn. sn
     \<lparr>sn_outgoingStreams := map (\<lambda>s. if ds_id s = sid then s\<lparr>ds_status := CancelledStream, ds_isActive := False\<rparr> else s) (sn_outgoingStreams sn),
      sn_activeStreamsCount := sn_activeStreamsCount sn - 1\<rparr>)"

definition topUpStreamLocally :: "string \<Rightarrow> jsnum \<Rightarrow> dashboard_cache \<Rightarrow> dashboard_cache" where
  "topUpStreamLocally sid amt = map_option (\<lambda>sn. sn
     \<lparr>sn_outgoingStreams := map (\<lambda>s. if ds_id s = sid then s\<lparr>ds_deposited := numAdd (ds_deposited s) amt\<rparr> else s) (sn_outgoingStreams sn)\<rparr>)"

definition localStream :: "int \<Rightarrow> stream_form \<Rightarrow> DashboardStream" where
  "localStream nowMs data =
     \<lparr>ds_id = ''stream-'' @ toString nowMs, ds_recipient = shortenPublicKey (sf_recipient data), ds_amount = parseFloat (sf_amount data),
      ds_token = sf_token data, ds_status = ActiveStream, ds_deposited = parseFloat (sf_amount data), ds_withdrawn = Fin 0,
      ds_ratePerSecond = Fin 0, ds_lastUpdateTime = nowMs div 1000, ds_isActive = True\<rparr>"

definition addStreamLocally :: "int \<Rightarrow> stream_form \<Rightarrow> dashboard_cache \<Rightarrow> dashboard_cache" where
  "addStreamLocally nowMs data = map_option (\<lambda>sn. sn
     \<lparr>sn_outgoingStreams := localStream nowMs data # sn_outgoingStreams sn, sn_activeStreamsCount := sn_activeStreamsCount sn + 1\<rparr>)"

text \<open>A handler returns the error it throws again or its result, the calls handed to the network, and the cache.\<close>

definition handleCreateStream ::
  "(string \<rightharpoonup> string) \<Rightarrow> wallet_net \<Rightarrow> string \<Rightarrow> int \<Rightarrow> stream_form \<Rightarrow> dashboard_cache \<Rightarrow> string call_result \<times> wallet_call list \<times> dashboard_cache" where
  "handleCreateStream configured N pk nowMs data c =
     (case bindE (getTokenAddress configured (sf_token data)) (\<lambda>token. bindE (toBaseUnits (sf_amount data) 7) (\<lambda>amt.
             bindE (toDurationSeconds (sf_duration data) (sf_durationUnit data)) (\<lambda>dur. Inr (token, amt, dur)))) of
        Inl e \<Rightarrow> (Inl e, [], c)
      | Inr (token, amt, dur) \<Rightarrow>
          (case walletInvoke N pk (createStreamCall pk
                  \<lparr>wc_recipient = sf_recipient data, wc_tokenAddress = token, wc_amount = amt, wc_durationSeconds = dur\<rparr>) of
             (Inl e, sent) \<Rightarrow> (Inl e, sent, c)
           | (Inr h, sent) \<Rightarrow> (Inr h, sent, addStreamLocally nowMs data c)))"





definition SIDEBAR_ITEMS :: "(string \<times> string) list" where
  "SIDEBAR_ITEMS = [(''overview'', ''Overview''), (''incoming'', ''Incoming''), (''outgoing'', ''Outgoing''), (''paused'', ''Paused''),
     (''activity'', ''Activity''), (''settings'', ''Settings'')]"

definition activeTab :: "string option \<Rightarrow> string" where
  "activeTab tabParam = (case tabParam of Some t \<Rightarrow> if t \<in> set (map fst SIDEBAR_ITEMS) then t else ''overview'' | None \<Rightarrow> ''overview'')"

datatype dashboard_view = DashboardSkeleton | DashboardError string | FirstStream | DashboardTab string

definition renderContent :: "bool \<Rightarrow> string option \<Rightarrow> dashboard_cache \<Rightarrow> string option \<Rightarrow> dashboard_view" where
  "renderContent isSnapshotLoading snapshotError snapshot tabParam =
     (if isSnapshotLoading then DashboardSkeleton
      else case snapshotError of
        Some (c # cs) \<Rightarrow> DashboardError (c # cs)
      | _ \<Rightarrow>
          (case snapshot of
             None \<Rightarrow> FirstStream
           | Some sn \<Rightarrow> if sn_outgoingStreams sn = [] \<and> sn_incomingStreams sn = [] then FirstStream else DashboardTab (activeTab tabParam)))"

text \<open>Only the newest event is looked at, and only these types fetch the snapshot again.\<close>

definition refetchesOn :: "string list \<Rightarrow> bool" where
  "refetchesOn eventTypes =
     (case eventTypes of [] \<Rightarrow> False
      | t # ts \<Rightarrow> t \<in> {''created'', ''topped_up'', ''withdrawn'', ''cancelled'', ''completed'', ''paused'', ''resumed''})"

section \<open>The number behind a row\<close>











section \<open>Counting active streams\<close>

definition activeRows :: "DashboardStream list \<Rightarrow> nat" where
  "activeRows ss = length (filter ds_isActive ss)"

definition activeCount :: "dashboard_cache \<Rightarrow> bool" where
  "activeCount c =
     (case c of None \<Rightarrow> True
      | Some sn \<Rightarrow> distinct (map ds_id (sn_outgoingStreams sn)) \<and>
          sn_activeStreamsCount sn = activeRows (sn_outgoingStreams sn))"

lemma filter_update_absent: "sid \<notin> ds_id ` set ss \<Longrightarrow> map (\<lambda>s. if ds_id s = sid then f s else s) ss = ss"
  by (induction ss) auto

lemma cancelled_count:
  "distinct (map ds_id ss) \<Longrightarrow> s \<in> set ss \<Longrightarrow> ds_isActive s \<Longrightarrow>
     activeRows (map (\<lambda>x. if ds_id x = ds_id s then x\<lparr>ds_status := CancelledStream, ds_isActive := False\<rparr> else x) ss) = activeRows ss - 1"
  unfolding activeRows_def
proof (induction ss)
  case (Cons x ss)
  show ?case
  proof (cases "x = s")
    case True
    then show ?thesis using Cons.prems filter_update_absent [of "ds_id s" ss "\<lambda>x. x\<lparr>ds_status := CancelledStream, ds_isActive := False\<rparr>"]
      by auto
  next
    case False
    then have s: "s \<in> set ss" using Cons.prems by simp
    then have "ds_id x \<noteq> ds_id s" using Cons.prems by auto
    moreover have "0 < length (filter ds_isActive ss)" using s Cons.prems(3) by (auto simp: filter_empty_conv)
    ultimately show ?thesis using Cons s by (cases "ds_isActive x") auto
  qed
qed simp

text \<open>
  The count of active streams on the dashboard stays the number of its active rows through the local
  updates: adding a stream of a new identifier, adding funds, and cancelling an active row.
\<close>
theorem active_count_kept:
  assumes "activeCount (Some sn)"
  shows "activeCount (topUpStreamLocally sid amt (Some sn)) \<and>
    (''stream-'' @ toString nowMs \<notin> ds_id ` set (sn_outgoingStreams sn) \<longrightarrow> activeCount (addStreamLocally nowMs data (Some sn))) \<and>
    (\<forall>s\<in>set (sn_outgoingStreams sn). ds_isActive s \<longrightarrow> activeCount (removeStreamLocally (ds_id s) (Some sn)))"
proof -
  have ids: "map ds_id (map (\<lambda>s. if ds_id s = i then f s else s) ss) = map ds_id ss" if "\<And>s. ds_id (f s) = ds_id s" for i f ss
    using that by (induction ss) simp_all
  have act: "activeRows (map (\<lambda>s. if ds_id s = i then s\<lparr>ds_deposited := g s\<rparr> else s) ss) = activeRows ss" for i g ss
    by (induction ss) (simp_all add: activeRows_def)
  have one: "activeRows (s # ss) = activeRows ss + (if ds_isActive s then 1 else 0)" for s ss by (simp add: activeRows_def)
  show ?thesis
    using assms cancelled_count
    by (auto simp: activeCount_def topUpStreamLocally_def addStreamLocally_def removeStreamLocally_def localStream_def ids act one simp del: map_map)
qed

section \<open>Concrete runs\<close>

definition exampleKey :: string where
  "exampleKey = CHR ''G'' # replicate 55 CHR ''A''"

definition exampleSteps :: "wizard_event list" where
  "exampleSteps = [ClickNext, TypeRecipient exampleKey, ClickNext, ClickNext, ClickNext, ClickSubmit, SubmitAnswer (Some ''ab'')]"

definition examplePage :: form_page where
  "examplePage = the (openForm wizardOptions None None None)"

lemma example_fields: "validateAmount ''5000'' None = None" "validateRecipient exampleKey = None" "validateDuration ''1'' = None" "validateToken ''USDC'' = None"
proof -
  have t: "trim ''5000'' = ''5000''" "trim ''1'' = ''1''" by code_simp+
  have f: "parseFloat ''5000'' = Fin 5000" "parseFloat ''1'' = Fin 1"
    using parseFloat_whole [of "''5000''"] parseFloat_whole [of "''1''"] by (simp_all add: is_digit_def code_def digitsVal_def)
  have a: "hasValidPrecision ''5000'' 7" "validateAmountInput ''5000'' 7 = None" by code_simp+
  show "validateAmount ''5000'' None = None" by (simp add: validateAmount_def t f a)
  show "validateDuration ''1'' = None" by (simp add: validateDuration_def t f)
  show "validateRecipient exampleKey = None" by code_simp
  show "validateToken ''USDC'' = None" by code_simp
qed

lemma next_run:
  "wz_step w < 5 \<Longrightarrow> \<not> wz_polling w \<Longrightarrow> validateStreamForm (StreamFormData.truncate (fp_form (wz_page w))) (Some (wz_step w)) (fp_balance (wz_page w)) = [] \<Longrightarrow>
     wizardStep ClickNext w = w\<lparr>wz_page := (wz_page w)\<lparr>fp_errors := []\<rparr>, wz_step := Suc (wz_step w)\<rparr>"
  by (simp add: handleNext_def validateStep_def validateForm_def STEPS_def)

lemma submit_run:
  "wz_step w = 5 \<Longrightarrow> \<not> wz_polling w \<Longrightarrow> \<not> wz_submitting w \<Longrightarrow> validateStreamForm (StreamFormData.truncate (fp_form (wz_page w))) (Some 5) (fp_balance (wz_page w)) = [] \<Longrightarrow>
     wizardStep ClickSubmit w = w\<lparr>wz_page := (wz_page w)\<lparr>fp_errors := []\<rparr>, wz_submitting := True, wz_waiting := True, wz_sent := wz_sent w @ [fp_form (wz_page w)]\<rparr>"
  by (simp add: handleSubmit_def validateStep_def validateForm_def STEPS_def)

lemma recipient_run:
  "wz_step w = 2 \<Longrightarrow> \<not> wz_polling w \<Longrightarrow>
     wizardStep (TypeRecipient r) w = w\<lparr>wz_page := (wz_page w)\<lparr>fp_form := (fp_form (wz_page w))\<lparr>sf_recipient := r\<rparr>, fp_draftTimer := False,
       fp_errors := filter (\<lambda>(k, e). k \<noteq> ''recipient'') (fp_errors (wz_page w))\<rparr>\<rparr>"
  by (simp add: onStep_def typeInto_def updateFormData_def setFormData_def setValues_def noValues_def wizardOptions_def updatedKeys_def Let_def)

lemma examplePage_form:
  "fp_balance examplePage = None" "sf_token (fp_form examplePage) = ''USDC''" "sf_amount (fp_form examplePage) = ''5000''"
  "sf_duration (fp_form examplePage) = ''1''"
  by (simp_all add: examplePage_def openForm_def wizardOptions_def DEFAULT_FORM_DATA_def noValues_def setValues_def balanceEffect_def Let_def)

lemma exampleSteps_run:
  "map sf_recipient (wz_sent (fold wizardStep exampleSteps (openWizard examplePage))) = [exampleKey]"
  "wz_hashes (fold wizardStep exampleSteps (openWizard examplePage)) = [''ab'']"
  by (simp_all add: exampleSteps_def openWizard_def next_run submit_run recipient_run submitAnswer_def validateStreamForm_def StreamFormData.defs
      example_fields examplePage_form Let_def del: wizardStep.simps(5,11,13))

theorem wizard_submits_valid_forms_witness:
  "let w = fold wizardStep exampleSteps (openWizard examplePage) in
     wz_hashes w = [''ab''] \<and> map sf_recipient (wz_sent (fold wizardStep [ClickBack, ClickSubmit] w)) = [exampleKey]"
proof -
  have "wz_sent (fold wizardStep [ClickBack, ClickSubmit] (fold wizardStep exampleSteps (openWizard examplePage))) =
      wz_sent (fold wizardStep exampleSteps (openWizard examplePage))"
    using wizard_submits_valid_forms [of exampleSteps examplePage "[ClickBack, ClickSubmit]"] exampleSteps_run(2)
    unfolding Let_def by (metis list.distinct(1))
  then show ?thesis using exampleSteps_run unfolding Let_def by presburger
qed

definition exampleBackend :: BackendStream where
  "exampleBackend =
     \<lparr>bs_id = ''u'', bs_streamId = 42, bs_sender = ''GA'', bs_recipient = ''GB'', bs_tokenAddress = ''C'', bs_ratePerSecond = ''1'',
      bs_depositedAmount = ''10'', bs_withdrawnAmount = ''0'', bs_startTime = 0, bs_lastUpdateTime = 0, bs_isActive = True,
      bs_isPaused = None, bs_pausedAt = None, bs_totalPausedDuration = None, bs_createdAt = 0, bs_events = None\<rparr>"



definition exampleSnapshot :: DashboardSnapshot where
  "exampleSnapshot = snapshotOf Map.empty [exampleBackend] []"

theorem active_count_kept_witness:
  "activeCount (Some exampleSnapshot) \<and> activeCount (removeStreamLocally ''42'' (Some exampleSnapshot))"
proof -
  have a: "activeCount (Some exampleSnapshot)"
    by (simp add: activeCount_def activeRows_def exampleSnapshot_def snapshotOf_def mapBackendStreamToFrontend_def exampleBackend_def Let_def)
  have "\<exists>s\<in>set (sn_outgoingStreams exampleSnapshot). ds_id s = ''42'' \<and> ds_isActive s"
    by (simp add: exampleSnapshot_def snapshotOf_def mapBackendStreamToFrontend_def exampleBackend_def Let_def)
  with active_count_kept [OF a, of "[]" NaN 0 DEFAULT_FORM_DATA] a show ?thesis by metis
qed

end
