(* ===== verification/Notifications.thy ===== *)
theory Notifications
  imports Sse_Client Stream_Form Action_Simulation
begin

text \<open>
  The bell of the navigation bar (\<open>frontend/src/components/NotificationDropdown.tsx\<close>): the notifications
  made from the events of the hook, the count of unread ones, and the list that opens and closes.
  A message is a list of texts and of the values put between them. An error thrown by the effect takes
  the component down. An amount that is an array is taken for unreadable. Focus and markup are left out.
\<close>

section \<open>Messages\<close>

datatype msg_part = Txt string | Hole jvalue

definition fieldOrElse :: "jvalue \<Rightarrow> string \<Rightarrow> jvalue \<Rightarrow> jvalue" where
  "fieldOrElse v k d = (case getProperty v k of None \<Rightarrow> d | Some x \<Rightarrow> if falsy (Some x) then d else x)"

text \<open>\<open>BigInt\<close> of a value.\<close>

fun bigOf :: "jvalue \<Rightarrow> int result" where
  "bigOf (VStr s) = of_opt SyntaxError (BigInt s)"
| "bigOf (VBool b) = Inr (if b then 1 else 0)"
| "bigOf (VNum (Fin r)) = (if of_int \<lfloor>r\<rfloor> = r then Inr \<lfloor>r\<rfloor> else Inl RangeError)"
| "bigOf (VNum x) = Inl RangeError"
| "bigOf VNull = Inl TypeError"
| "bigOf v = Inl SyntaxError"

definition formatEventMessage :: "string \<Rightarrow> jvalue \<Rightarrow> msg_part list result" where
  "formatEventMessage ty eventData =
     (let v = (if falsy (Some eventData) then VObj [] else eventData);
          streamId = Hole (fieldOrElse v ''streamId'' (VNum (Fin 0)));
          tokenSymbol = Hole (fieldOrElse v ''tokenSymbol'' (VStr ''USDC''));
          eventType = lower ty;
          is = (\<lambda>k. eventType = k \<or> eventType = ''stream.'' @ k)
      in bindE (bigOf (fieldOrElse v ''amount'' (VStr ''0''))) (\<lambda>raw.
         let amount = Txt (formatAmount raw 7) in
         Inr (if is ''created'' then [Txt ''New stream #'', streamId, Txt '' created'']
              else if is ''topped_up'' then [Txt ''Stream #'', streamId, Txt '' was topped up by '', amount, Txt '' '', tokenSymbol]
              else if is ''withdrawn'' then [Txt ''You received '', amount, Txt '' '', tokenSymbol, Txt '' from stream #'', streamId]
              else if is ''cancelled'' then [Txt ''Stream #'', streamId, Txt '' was cancelled - refund incoming'']
              else if is ''completed'' then [Txt ''Stream #'', streamId, Txt '' completed'']
              else if is ''paused'' then [Txt ''Stream #'', streamId, Txt '' was paused'']
              else if is ''resumed'' then [Txt ''Stream #'', streamId, Txt '' was resumed'']
              else if is ''fee_collected'' then [Txt ''Fee collected from stream #'', streamId]
              else if is ''fee_config_updated'' then [Txt ''Stream fee configuration was updated'']
              else if is ''admin_transferred'' then [Txt ''Stream admin role was transferred'']
              else [Txt ''Activity on stream #'', streamId])))"

section \<open>The bell\<close>

record NotificationItem =
  ni_id :: string
  ni_streamId :: jvalue
  ni_type :: string
  ni_message :: "msg_part list"
  ni_timestamp :: int
  ni_read :: bool

record bell =
  be_hook :: sse_hook
  be_isOpen :: bool
  be_notifications :: "NotificationItem list"
  be_unreadCount :: nat
  be_crashed :: bool

definition bellOptions :: "string \<Rightarrow> sse_options" where
  "bellOptions publicKey =
     \<lparr>so_streamIds = [], so_userPublicKeys = [publicKey], so_subscribeToAll = False, so_autoReconnect = True,
      so_maxRetryDelay = 30000, so_jwtToken = None\<rparr>"

definition mountBell :: "string \<Rightarrow> bell" where
  "mountBell publicKey =
     \<lparr>be_hook = mountHook (bellOptions publicKey), be_isOpen = False, be_notifications = [], be_unreadCount = 0, be_crashed = False\<rparr>"

definition notificationOf :: "bool \<Rightarrow> StreamEvent \<Rightarrow> NotificationItem result" where
  "notificationOf isOpen e =
     bindE (formatEventMessage (se_type e) (se_data e)) (\<lambda>message.
     Inr \<lparr>ni_id = ''sse-'' @ se_type e @ ''-'' @ toString (se_timestamp e), ni_streamId = fieldOrElse (se_data e) ''streamId'' (VNum (Fin 0)),
          ni_type = se_type e, ni_message = message, ni_timestamp = se_timestamp e, ni_read = isOpen\<rparr>)"

text \<open>An item stays where it is the first one with its identifier.\<close>

fun firstOfEach :: "NotificationItem list \<Rightarrow> NotificationItem list" where
  "firstOfEach [] = []"
| "firstOfEach (n # ns) = n # filter (\<lambda>m. ni_id m \<noteq> ni_id n) (firstOfEach ns)"

text \<open>The effect on the events and on \<open>isOpen\<close>, with its microtask.\<close>

definition notifyEffect :: "bell \<Rightarrow> bell" where
  "notifyEffect b =
     (if hk_events (be_hook b) = [] then b
      else case mapE (notificationOf (be_isOpen b)) (hk_events (be_hook b)) of
             Inl e \<Rightarrow> b\<lparr>be_crashed := True\<rparr>
           | Inr newNotifications \<Rightarrow>
               b\<lparr>be_notifications := take 20 (firstOfEach (newNotifications @ be_notifications b)),
                 be_unreadCount := (if be_isOpen b then be_unreadCount b else be_unreadCount b + length newNotifications)\<rparr>)"

definition handleDropdownOpen :: "bell \<Rightarrow> bell" where
  "handleDropdownOpen b =
     (let b1 = (if be_isOpen b then b
                else b\<lparr>be_unreadCount := 0, be_notifications := map (\<lambda>n. n\<lparr>ni_read := True\<rparr>) (be_notifications b)\<rparr>)
      in notifyEffect (b1\<lparr>be_isOpen := \<not> be_isOpen b\<rparr>))"

definition closeDropdown :: "bell \<Rightarrow> bell" where
  "closeDropdown b = (if be_isOpen b then notifyEffect (b\<lparr>be_isOpen := False\<rparr>) else b)"

text \<open>The hook has a new array of events.\<close>

fun newEvents :: "hook_event \<Rightarrow> sse_hook \<Rightarrow> bool" where
  "newEvents (Message event body now) h = (hk_source h = SourceOpen \<and> map_of LISTENERS event \<noteq> None \<and> JSON_parse body \<noteq> None)"
| "newEvents ClearEvents h = True"
| "newEvents e h = False"

datatype bell_event = HookEvent hook_event | ClickBell | ClickOutside | PressEscape | ClickClose | ClickViewAll

fun liveBell :: "bell_event \<Rightarrow> bell \<Rightarrow> bell" where
  "liveBell (HookEvent e) b =
     (let b1 = b\<lparr>be_hook := hookStep e (be_hook b)\<rparr> in if newEvents e (be_hook b) then notifyEffect b1 else b1)"
| "liveBell ClickBell b = (if hk_connected (be_hook b) then handleDropdownOpen b else b)"
| "liveBell ClickOutside b = closeDropdown b"
| "liveBell PressEscape b = closeDropdown b"
| "liveBell ClickClose b = closeDropdown b"
| "liveBell ClickViewAll b = closeDropdown b"

definition bellStep :: "bell_event \<Rightarrow> bell \<Rightarrow> bell" where
  "bellStep e b = (if be_crashed b then b else liveBell e b)"

text \<open>The number on the bell.\<close>

definition unreadBadge :: "bell \<Rightarrow> string option" where
  "unreadBadge b =
     (if be_unreadCount b = 0 then None else Some (if 9 < be_unreadCount b then ''9+'' else toString (int (be_unreadCount b))))"

section \<open>What every run keeps\<close>

lemma firstOfEach_sub: "set (firstOfEach ns) \<subseteq> set ns"
  by (induction ns) auto

lemma firstOfEach_distinct: "distinct (map ni_id (firstOfEach ns))"
proof (induction ns)
  case (Cons n ns)
  then show ?case by (auto simp: distinct_map_filter)
qed simp

definition allRead :: "bell \<Rightarrow> bool" where
  "allRead b = (be_unreadCount b = 0 \<and> list_all ni_read (be_notifications b))"

definition bellOk :: "bell \<Rightarrow> bool" where
  "bellOk b =
     (length (be_notifications b) \<le> 20 \<and> distinct (map ni_id (be_notifications b)) \<and> (be_isOpen b \<longrightarrow> allRead b) \<and> hookOk (be_hook b))"

lemma notified_read: "mapE (notificationOf isOpen) es = Inr ns \<Longrightarrow> length ns = length es \<and> (\<forall>n\<in>set ns. ni_read n = isOpen)"
  by (induction es arbitrary: ns) (auto simp: notificationOf_def bindE_def split: sum.splits)

lemma effect_ok:
  assumes "bellOk b"
  shows "bellOk (notifyEffect b)"
proof (cases "mapE (notificationOf (be_isOpen b)) (hk_events (be_hook b))")
  case (Inl e)
  then show ?thesis using assms by (cases "be_isOpen b") (auto simp: notifyEffect_def bellOk_def allRead_def)
next
  case (Inr ns)
  have "list_all ni_read (take 20 (firstOfEach (ns @ be_notifications b)))" if "be_isOpen b"
    using notified_read [OF Inr] firstOfEach_sub [of "ns @ be_notifications b"] assms that
    by (fastforce simp: bellOk_def allRead_def list_all_iff dest: in_set_takeD)
  moreover have "distinct (map ni_id (take 20 (firstOfEach (ns @ be_notifications b))))"
    using firstOfEach_distinct by (simp add: take_map [symmetric])
  ultimately show ?thesis using assms Inr by (auto simp: notifyEffect_def bellOk_def allRead_def)
qed

lemma open_ok: "bellOk b \<Longrightarrow> bellOk (handleDropdownOpen b)"
  unfolding handleDropdownOpen_def Let_def
  by (rule effect_ok) (auto simp: bellOk_def allRead_def list_all_iff comp_def)

lemma close_ok: "bellOk b \<Longrightarrow> bellOk (closeDropdown b)"
  by (auto simp: closeDropdown_def bellOk_def intro!: effect_ok [unfolded bellOk_def])

lemma bell_step_ok: "bellOk b \<Longrightarrow> bellOk (bellStep e b)"
proof (cases e)
  case (HookEvent he)
  assume b: "bellOk b"
  then have "bellOk (b\<lparr>be_hook := hookStep he (be_hook b)\<rparr>)" using step_ok by (simp add: bellOk_def allRead_def)
  then show ?thesis using b HookEvent by (simp add: bellStep_def Let_def effect_ok)
qed (simp_all add: bellStep_def open_ok close_ok)

interpretation bells: event_machine bellStep bellOk "\<lambda>_. True"
  by unfold_locales (rule bell_step_ok)

text \<open>
  In every run the list has at most twenty notifications, no two with the same identifier, and while it
  is open nothing is unread.
\<close>
theorem notifications_bounded:
  "let b = fold bellStep es (mountBell pk) in
     length (be_notifications b) \<le> 20 \<and> distinct (map ni_id (be_notifications b)) \<and>
     (be_isOpen b \<longrightarrow> be_unreadCount b = 0 \<and> (\<forall>n\<in>set (be_notifications b). ni_read n))"
proof -
  have "bellOk (mountBell pk)" by (simp add: bellOk_def mountBell_def mount_facts(1))
  from bells.run_keeps [OF this, of es] show ?thesis by (simp add: bellOk_def allRead_def Let_def list_all_iff)
qed

section \<open>Counting\<close>

text \<open>A message of the stream that the hook takes and that can be shown.\<close>

fun shownArrival :: "string \<times> string \<times> int \<Rightarrow> bool" where
  "shownArrival (event, body, now) =
     (case (map_of LISTENERS event, JSON_parse body) of
        (Some ty, Some d) \<Rightarrow> (case formatEventMessage ty d of Inl e \<Rightarrow> False | Inr m \<Rightarrow> True)
      | _ \<Rightarrow> False)"

fun arrive :: "string \<times> string \<times> int \<Rightarrow> bell_event" where
  "arrive (event, body, now) = HookEvent (Message event body now)"

definition showable :: "StreamEvent \<Rightarrow> bool" where
  "showable e = (case formatEventMessage (se_type e) (se_data e) of Inl _ \<Rightarrow> False | Inr _ \<Rightarrow> True)"

definition listening :: "bell \<Rightarrow> bool" where
  "listening b = (\<not> be_crashed b \<and> hk_source (be_hook b) = SourceOpen \<and> hk_connected (be_hook b) \<and> list_all showable (hk_events (be_hook b)))"

lemma showable_items: "list_all showable es \<Longrightarrow> \<exists>ns. mapE (notificationOf isOpen) es = Inr ns"
  by (induction es) (auto simp: showable_def notificationOf_def bindE_def split: sum.splits)

text \<open>The effect counts every event the hook holds, not the new one.\<close>

lemma effect_counts:
  assumes "listening b"
  shows "listening (notifyEffect b) \<and> be_hook (notifyEffect b) = be_hook b \<and> be_isOpen (notifyEffect b) = be_isOpen b \<and>
    be_unreadCount (notifyEffect b) = (if be_isOpen b then be_unreadCount b else be_unreadCount b + length (hk_events (be_hook b))) \<and>
    (hk_events (be_hook b) \<noteq> [] \<longrightarrow> be_notifications (notifyEffect b) \<noteq> [] \<and> ni_read (hd (be_notifications (notifyEffect b))) = be_isOpen b)"
proof -
  obtain ns where ns: "mapE (notificationOf (be_isOpen b)) (hk_events (be_hook b)) = Inr ns"
    using showable_items [of "hk_events (be_hook b)"] assms by (auto simp: listening_def)
  from notified_read [OF ns] show ?thesis using assms ns
    by (cases ns) (auto simp: notifyEffect_def listening_def)
qed

lemma arrival_counts:
  assumes "listening b" "\<not> be_isOpen b" "shownArrival a"
  shows "let b' = bellStep (arrive a) b in
    listening b' \<and> \<not> be_isOpen b' \<and> length (hk_events (be_hook b')) = Suc (min 99 (length (hk_events (be_hook b)))) \<and>
    be_unreadCount b' = be_unreadCount b + length (hk_events (be_hook b'))"
proof -
  obtain event body now where a: "a = (event, body, now)" using prod_cases3 by blast
  with assms obtain ty d m where d: "map_of LISTENERS event = Some ty" "JSON_parse body = Some d" "formatEventMessage ty d = Inr m"
    by (auto split: option.splits sum.splits)
  define c where "c = b\<lparr>be_hook := hookStep (Message event body now) (be_hook b)\<rparr>"
  have c: "be_isOpen c = False" "be_unreadCount c = be_unreadCount b" "length (hk_events (be_hook c)) = Suc (min 99 (length (hk_events (be_hook b))))"
    using assms d by (simp_all add: c_def listening_def onMessage_def handleEvent_def)
  have "listening c" using assms(1) d
    by (auto simp: c_def listening_def onMessage_def handleEvent_def showable_def list_all_iff dest: in_set_takeD)
  moreover have "bellStep (arrive a) b = notifyEffect c" using assms d by (simp add: a c_def bellStep_def listening_def Let_def)
  ultimately show ?thesis using effect_counts [of c] c by (simp add: Let_def)
qed

lemma arrivals_count:
  assumes "listening b" "\<not> be_isOpen b" "list_all shownArrival as" "length (hk_events (be_hook b)) + length as \<le> 100"
  shows "let b' = fold bellStep (map arrive as) b; k = length (hk_events (be_hook b)); n = length as in
    listening b' \<and> \<not> be_isOpen b' \<and> length (hk_events (be_hook b')) = k + n \<and>
    2 * be_unreadCount b' = 2 * be_unreadCount b + 2 * k * n + n * (n + 1)"
  using assms
proof (induction as arbitrary: b)
  case (Cons a as)
  let ?b = "bellStep (arrive a) b"
  have one: "listening ?b" "\<not> be_isOpen ?b" "length (hk_events (be_hook ?b)) = Suc (length (hk_events (be_hook b)))"
    "be_unreadCount ?b = be_unreadCount b + Suc (length (hk_events (be_hook b)))"
    using arrival_counts [of b a] Cons.prems by (auto simp: Let_def)
  from Cons.IH [OF one(1,2)] Cons.prems one(3,4) show ?case by (simp add: Let_def algebra_simps)
qed simp

lemma opened_bell: "listening (bellStep (HookEvent Opened) (mountBell pk)) \<and> \<not> be_isOpen (bellStep (HookEvent Opened) (mountBell pk)) \<and>
  hk_events (be_hook (bellStep (HookEvent Opened) (mountBell pk))) = [] \<and> be_unreadCount (bellStep (HookEvent Opened) (mountBell pk)) = 0"
  by (simp add: listening_def bellStep_def mountBell_def mountHook_def connectHook_def onOpen_def)

text \<open>
  The count on the bell is not the number of events that came in: every event is counted again with each
  later one, so \<open>n\<close> events that come in while the list is closed are announced as \<open>n * (n + 1) / 2\<close>. Opening
  the list sets the count to 0, and closing it announces the same \<open>n\<close> events once more as unread.
\<close>
theorem unread_overcounts:
  assumes "list_all shownArrival as" "length as \<le> 100"
  shows "let b = fold bellStep (map arrive as) (bellStep (HookEvent Opened) (mountBell pk));
      opened = bellStep ClickBell b; closed = bellStep ClickClose opened; n = length as in
    be_unreadCount b = n * (n + 1) div 2 \<and> be_isOpen opened \<and> be_unreadCount opened = 0 \<and>
    \<not> be_isOpen closed \<and> be_unreadCount closed = n \<and> (as \<noteq> [] \<longrightarrow> \<not> ni_read (hd (be_notifications closed)))"
proof -
  define b where "b = fold bellStep (map arrive as) (bellStep (HookEvent Opened) (mountBell pk))"
  have b: "listening b" "\<not> be_isOpen b" "length (hk_events (be_hook b)) = length as" "2 * be_unreadCount b = length as * (length as + 1)"
    using arrivals_count [of "bellStep (HookEvent Opened) (mountBell pk)" as] opened_bell [of pk] assms by (simp_all add: b_def Let_def)
  define c where "c = b\<lparr>be_unreadCount := 0, be_notifications := map (\<lambda>n. n\<lparr>ni_read := True\<rparr>) (be_notifications b), be_isOpen := True\<rparr>"
  have opened: "bellStep ClickBell b = notifyEffect c" using b(1,2) by (simp add: bellStep_def handleDropdownOpen_def listening_def c_def)
  have "listening c" using b(1) by (simp add: listening_def c_def)
  from effect_counts [OF this] b(3) have o: "listening (notifyEffect c)" "be_isOpen (notifyEffect c)" "be_unreadCount (notifyEffect c) = 0"
    "length (hk_events (be_hook (notifyEffect c))) = length as" by (simp_all add: c_def)
  define d where "d = (notifyEffect c)\<lparr>be_isOpen := False\<rparr>"
  have closed: "bellStep ClickClose (notifyEffect c) = notifyEffect d" using o by (simp add: bellStep_def closeDropdown_def listening_def d_def)
  have "listening d" using o(1) by (simp add: listening_def d_def)
  from effect_counts [OF this] o have f: "\<not> be_isOpen (notifyEffect d)" "be_unreadCount (notifyEffect d) = length as"
    "as \<noteq> [] \<longrightarrow> \<not> ni_read (hd (be_notifications (notifyEffect d)))" by (auto simp: d_def)
  from b(4) have "be_unreadCount b = length as * (length as + 1) div 2" by simp
  with o f show ?thesis unfolding b_def [symmetric] Let_def opened closed by blast
qed

section \<open>Against the backend\<close>

inductive bell_run :: "auth_params \<Rightarrow> string \<Rightarrow> bell \<Rightarrow> bool" for P pk where
  mounted_bell: "bell_run P pk (mountBell pk)"
| bell_lets_through: "bell_run P pk b \<Longrightarrow> subscribeRoute P nowMs None ip (hk_options (be_hook b)) s = None \<Longrightarrow>
    bell_run P pk (bellStep (HookEvent Opened) b)"
| other_event: "bell_run P pk b \<Longrightarrow> e \<noteq> HookEvent Opened \<Longrightarrow> bell_run P pk (bellStep e b)"

definition silentBell :: "bell \<Rightarrow> bool" where
  "silentBell b =
     (hk_source (be_hook b) \<noteq> SourceOpen \<and> \<not> hk_connected (be_hook b) \<and> hk_events (be_hook b) = [] \<and>
      \<not> be_isOpen b \<and> be_notifications b = [] \<and> be_unreadCount b = 0)"

lemma silent_step: "silentBell b \<Longrightarrow> e \<noteq> HookEvent Opened \<Longrightarrow> silentBell (bellStep e b)"
proof (cases e)
  case (HookEvent he)
  assume "silentBell b" "e \<noteq> HookEvent Opened"
  then show ?thesis using HookEvent
    by (cases he) (auto simp: bellStep_def silentBell_def hook_defs notifyEffect_def split: option.splits)
qed (simp_all add: silentBell_def bellStep_def closeDropdown_def)

text \<open>
  Against the backend the bell never rings: its subscription is refused, so it is never connected, the
  button stays disabled, and there is nothing in the list whatever happens to the streams.
\<close>
theorem bell_never_rings:
  assumes "bell_run P pk b"
  shows "\<not> hk_connected (be_hook b) \<and> \<not> be_isOpen b \<and> be_notifications b = [] \<and> unreadBadge b = None"
proof -
  from assms have "silentBell b"
  proof (induction rule: bell_run.induct)
    case mounted_bell
    show ?case by (simp add: silentBell_def mountBell_def mountHook_def connectHook_def)
  next
    case (bell_lets_through b nowMs ip s)
    then show ?case by (simp add: no_header_refused)
  qed (rule silent_step)
  then show ?thesis by (simp add: silentBell_def unreadBadge_def)
qed

text \<open>The unit of an amount: the backend sends no \<open>tokenSymbol\<close>, so every token is called USDC.\<close>

lemma token_always_usdc:
  assumes "getProperty d ''tokenSymbol'' = None" "getProperty d ''amount'' = Some (VStr s)" "BigInt s = Some n" "s \<noteq> []" "d = VObj fs"
  shows "formatEventMessage ''topped_up'' d =
    Inr [Txt ''Stream #'', Hole (fieldOrElse d ''streamId'' (VNum (Fin 0))), Txt '' was topped up by '', Txt (formatAmount n 7), Txt '' '', Hole (VStr ''USDC'')]"
  using assms by (cases s) (simp_all add: formatEventMessage_def fieldOrElse_def bindE_def lower_def lower_char_def code_def)

section \<open>Examples\<close>

definition threeArrivals :: "(string \<times> string \<times> int) list" where
  "threeArrivals =
     [(''stream.created'', JSON_stringify (JObj [(''streamId'', JNum 7)]), 1000), (''stream.paused'', JSON_stringify (JObj [(''streamId'', JNum 7)]), 2000),
      (''stream.topped_up'', JSON_stringify (JObj [(''streamId'', JNum 7), (''amount'', JStr ''5000000'')]), 3000)]"

lemma three_parsed:
  "JSON_parse (JSON_stringify (JObj [(''streamId'', JNum 7)])) = Some (VObj [(''streamId'', VNum (Fin 7))])"
  "JSON_parse (JSON_stringify (JObj [(''streamId'', JNum 7), (''amount'', JStr ''5000000'')])) =
     Some (VObj [(''streamId'', VNum (Fin 7)), (''amount'', VStr ''5000000'')])"
  by (subst parse_stringify, simp, simp)+

lemma five_million: "BigInt ''5000000'' = Some 5000000" "BigInt ''0'' = Some 0"
  using BigInt_toString [of 5000000] BigInt_toString [of 0] by simp_all

lemma three_messages:
  "formatEventMessage ''created'' (VObj [(''streamId'', VNum (Fin 7))]) = Inr [Txt ''New stream #'', Hole (VNum (Fin 7)), Txt '' created'']"
  "formatEventMessage ''paused'' (VObj [(''streamId'', VNum (Fin 7))]) = Inr [Txt ''Stream #'', Hole (VNum (Fin 7)), Txt '' was paused'']"
  "formatEventMessage ''topped_up'' (VObj [(''streamId'', VNum (Fin 7)), (''amount'', VStr ''5000000'')]) =
     Inr [Txt ''Stream #'', Hole (VNum (Fin 7)), Txt '' was topped up by '', Txt (formatAmount 5000000 7), Txt '' '', Hole (VStr ''USDC'')]"
  by (simp_all add: formatEventMessage_def fieldOrElse_def bindE_def lower_def lower_char_def code_def five_million Let_def)

lemma three_shown: "list_all shownArrival threeArrivals" "length threeArrivals = 3"
  by (simp_all add: threeArrivals_def three_parsed three_messages LISTENERS_def del: JSON_stringify.simps)

theorem unread_overcounts_witness:
  "be_unreadCount (fold bellStep (map arrive threeArrivals) (bellStep (HookEvent Opened) (mountBell ''G''))) = 6 \<and>
   unreadBadge (bellStep ClickClose (bellStep ClickBell (fold bellStep (map arrive threeArrivals) (bellStep (HookEvent Opened) (mountBell ''G''))))) = Some ''3''"
proof -
  have "toString 3 = ''3''" by code_simp
  with unread_overcounts [OF three_shown(1), of "''G''"] show ?thesis by (simp add: Let_def unreadBadge_def three_shown(2))
qed

theorem bell_never_rings_witness:
  "\<forall>P. bell_run P ''G'' (bellStep ClickBell (bellStep (HookEvent Failed) (mountBell ''G''))) \<and>
     unreadBadge (bellStep ClickBell (bellStep (HookEvent Failed) (mountBell ''G''))) = None"
proof -
  have r: "bell_run P ''G'' (bellStep ClickBell (bellStep (HookEvent Failed) (mountBell ''G'')))" for P
    by (intro bell_run.other_event bell_run.mounted_bell) simp_all
  show ?thesis using bell_never_rings [OF r] r by simp
qed

end
