(* ===== verification/Js_Dates.thy ===== *)
theory Js_Dates
  imports Main
begin

text \<open>
  The calendar of JavaScript dates: days since 1 January 1970 from and to a year, a month from 0 to 11
  and a day of the month, as the language defines \<open>MakeDay\<close>, \<open>YearFromTime\<close>, \<open>MonthFromTime\<close>,
  \<open>DateFromTime\<close> and \<open>WeekDay\<close>, and the days of local times in a zone with a fixed offset. The limit of
  8.64e15 milliseconds is left to the callers.
\<close>

section \<open>Years and months\<close>

definition leapYear :: "int \<Rightarrow> bool" where
  "leapYear y = (y mod 4 = 0 \<and> (y mod 100 \<noteq> 0 \<or> y mod 400 = 0))"

definition dayFromYear :: "int \<Rightarrow> int" where
  "dayFromYear y = 365 * (y - 1970) + (y - 1969) div 4 - (y - 1901) div 100 + (y - 1601) div 400"

definition monthStart :: "bool \<Rightarrow> nat \<Rightarrow> int" where
  "monthStart leap m = [0, 31, 59, 90, 120, 151, 181, 212, 243, 273, 304, 334, 365] ! m + (if leap \<and> 2 \<le> m then 1 else 0)"

definition makeDay :: "int \<Rightarrow> int \<Rightarrow> int \<Rightarrow> int" where
  "makeDay year month date =
     (let ym = year + month div 12; mn = month mod 12
      in dayFromYear ym + monthStart (leapYear ym) (nat mn) + date - 1)"

definition yearOfDay :: "int \<Rightarrow> int" where
  "yearOfDay z =
     (let e = 1970 + (400 * z) div 146097
      in if dayFromYear (e + 1) \<le> z then e + 1 else if z < dayFromYear e then e - 1 else e)"

definition dayInYear :: "int \<Rightarrow> int" where
  "dayInYear z = z - dayFromYear (yearOfDay z)"

definition monthOfDay :: "int \<Rightarrow> int" where
  "monthOfDay z = int (length (takeWhile (\<lambda>m. monthStart (leapYear (yearOfDay z)) m \<le> dayInYear z) [1..<12]))"

definition dateOfDay :: "int \<Rightarrow> int" where
  "dateOfDay z = dayInYear z - monthStart (leapYear (yearOfDay z)) (nat (monthOfDay z)) + 1"

definition weekDay :: "int \<Rightarrow> int" where
  "weekDay z = (z + 4) mod 7"

definition daysInMonth :: "int \<Rightarrow> int \<Rightarrow> int" where
  "daysInMonth year month =
     (let leap = leapYear (year + month div 12); mn = nat (month mod 12) in monthStart leap (Suc mn) - monthStart leap mn)"

text \<open>The day of a time in milliseconds, \<open>tz\<close> milliseconds ahead of universal time.\<close>

definition localDay :: "int \<Rightarrow> int \<Rightarrow> int" where
  "localDay tz ms = (ms + tz) div 86400000"

definition localMidnight :: "int \<Rightarrow> int \<Rightarrow> int" where
  "localMidnight tz z = 86400000 * z - tz"

section \<open>Every day has one date\<close>

lemma div_next:
  assumes "0 < n"
  shows "(x + 1) div n = x div n + (if (x + 1) mod n = 0 then 1 else 0 :: int)"
proof -
  have r: "0 \<le> x mod n" "x mod n < n" using assms by simp_all
  have "x + 1 = n * (x div n) + (x mod n + 1)" by simp
  then have d: "(x + 1) div n = x div n + (x mod n + 1) div n" "(x + 1) mod n = (x mod n + 1) mod n"
    using assms by (metis div_mult_self4 less_irrefl, metis mod_mult_self4)
  show ?thesis
  proof (cases "x mod n + 1 = n")
    case True
    then show ?thesis using assms d by simp
  next
    case False
    then show ?thesis using r d by (simp add: div_pos_pos_trivial)
  qed
qed

lemma floor_bounds: "0 < n \<Longrightarrow> n * (x div n) \<le> x \<and> x < n * (x div n) + (n :: int)"
  using pos_mod_bound [of n x] pos_mod_sign [of n x] mult_div_mod_eq [of n x] by linarith

lemma dayFromYear_Suc: "dayFromYear (y + 1) = dayFromYear y + (if leapYear y then 366 else 365)"
proof -
  have "(y - 1968) mod 4 = y mod 4" "(y - 1900) mod 100 = y mod 100" "(y - 1600) mod 400 = y mod 400"
    using mod_mult_self1 [of y "-492" 4] mod_mult_self1 [of y "-19" 100] mod_mult_self1 [of y "-4" 400] by simp_all
  moreover have "y + 1 - 1969 = y - 1968" "y + 1 - 1901 = y - 1900" "y + 1 - 1601 = y - 1600" "y - 1969 + 1 = y - 1968"
    "y - 1901 + 1 = y - 1900" "y - 1601 + 1 = y - 1600" by simp_all
  ultimately have later: "(y + 1 - 1969) div 4 = (y - 1969) div 4 + (if y mod 4 = 0 then 1 else 0)"
    "(y + 1 - 1901) div 100 = (y - 1901) div 100 + (if y mod 100 = 0 then 1 else 0)"
    "(y + 1 - 1601) div 400 = (y - 1601) div 400 + (if y mod 400 = 0 then 1 else 0)"
    using div_next [of 4 "y - 1969"] div_next [of 100 "y - 1901"] div_next [of 400 "y - 1601"] by (simp_all only: zero_less_numeral simp_thms)
  have "y mod 400 = 0 \<Longrightarrow> y mod 100 = 0" "y mod 100 = 0 \<Longrightarrow> y mod 4 = 0"
    by (simp_all only: mod_eq_0_iff_dvd) (rule dvd_trans [rotated], assumption, simp)+
  then show ?thesis unfolding dayFromYear_def later leapYear_def
    by (cases "y mod 4 = 0"; cases "y mod 100 = 0"; cases "y mod 400 = 0") (simp_all only: if_True if_False simp_thms, simp_all)
qed

lemma dayFromYear_less: "y < z \<Longrightarrow> dayFromYear y < dayFromYear z"
proof (induction "nat (z - y)" arbitrary: z)
  case (Suc n)
  then have "dayFromYear y \<le> dayFromYear (z - 1)" by (cases "y = z - 1") (auto simp: less_imp_le)
  with dayFromYear_Suc [of "z - 1"] show ?case by (auto split: if_splits)
qed simp

lemma dayFromYear_le: "y \<le> z \<Longrightarrow> dayFromYear y \<le> dayFromYear z"
  using dayFromYear_less [of y z] by (cases "y = z") auto

lemma dayFromYear_bounds: "146097 * (y - 1970) - 700 \<le> 400 * dayFromYear y \<and> 400 * dayFromYear y \<le> 146097 * (y - 1970) + 700"
proof -
  define a b c where "a = (y - 1969) div 4" and "b = (y - 1901) div 100" and "c = (y - 1601) div 400"
  have "4 * a \<le> y - 1969 \<and> y - 1969 < 4 * a + 4" "100 * b \<le> y - 1901 \<and> y - 1901 < 100 * b + 100"
    "400 * c \<le> y - 1601 \<and> y - 1601 < 400 * c + 400"
    unfolding a_def b_def c_def by (rule floor_bounds, simp)+
  moreover have "dayFromYear y = 365 * (y - 1970) + a - b + c" by (simp add: dayFromYear_def a_def b_def c_def)
  ultimately show ?thesis by (simp add: algebra_simps)
qed

lemma year_bounds: "dayFromYear (yearOfDay z) \<le> z \<and> z < dayFromYear (yearOfDay z + 1)"
proof -
  define e where "e = 1970 + (400 * z) div 146097"
  have e: "146097 * (e - 1970) \<le> 400 * z \<and> 400 * z < 146097 * (e - 1970) + 146097"
    unfolding e_def using floor_bounds [of 146097 "400 * z"] by simp
  have "dayFromYear (e - 1) \<le> z" using dayFromYear_bounds [of "e - 1"] e by simp
  moreover have "z < dayFromYear (e + 2)" using dayFromYear_bounds [of "e + 2"] e by simp
  ultimately show ?thesis unfolding yearOfDay_def Let_def e_def [symmetric] by (auto simp: add.assoc)
qed

lemma year_unique: "dayFromYear y \<le> z \<Longrightarrow> z < dayFromYear (y + 1) \<Longrightarrow> yearOfDay z = y"
  using year_bounds [of z] dayFromYear_le [of "y + 1" "yearOfDay z"] dayFromYear_le [of "yearOfDay z + 1" y]
  by (cases "yearOfDay z" y rule: linorder_cases) auto

lemma month_cases: "(m :: nat) < 12 \<longleftrightarrow> m \<in> {0, 1, 2, 3, 4, 5, 6, 7, 8, 9, 10, 11}"
  by (auto simp: numeral_eq_Suc less_Suc_eq)

lemma monthStart_eval [simp]:
  "monthStart l 0 = 0" "monthStart l (Suc 0) = 31" "monthStart l 2 = (if l then 60 else 59)" "monthStart l 3 = (if l then 91 else 90)"
  "monthStart l 4 = (if l then 121 else 120)" "monthStart l 5 = (if l then 152 else 151)" "monthStart l 6 = (if l then 182 else 181)"
  "monthStart l 7 = (if l then 213 else 212)" "monthStart l 8 = (if l then 244 else 243)" "monthStart l 9 = (if l then 274 else 273)"
  "monthStart l 10 = (if l then 305 else 304)" "monthStart l 11 = (if l then 335 else 334)" "monthStart l 12 = (if l then 366 else 365)"
  by (simp_all add: monthStart_def numeral_eq_Suc)

lemma month_count:
  assumes "0 \<le> x" "x < monthStart l 12"
  shows "let m = length (takeWhile (\<lambda>m. monthStart l m \<le> x) [1, 2, 3, 4, 5, 6, 7, 8, 9, 10, 11]) in m < 12 \<and> monthStart l m \<le> x \<and> x < monthStart l (Suc m)"
  using assms by (cases l) (auto simp: Let_def monthStart_def)

lemma monthStart_less: "m < 12 \<Longrightarrow> monthStart l m < monthStart l (Suc m)"
  by (cases l) (auto simp: month_cases monthStart_def)

lemma monthStart_mono: "m \<le> n \<Longrightarrow> n \<le> 12 \<Longrightarrow> monthStart l m \<le> monthStart l n"
proof (induction n)
  case (Suc n)
  then show ?case using monthStart_less [of n l] by (cases "m = Suc n") auto
qed simp

lemma month_unique:
  assumes "m < 12" "monthStart l m \<le> x" "x < monthStart l (Suc m)" "m' < 12" "monthStart l m' \<le> x" "x < monthStart l (Suc m')"
  shows "m = m'"
  using monthStart_mono [of "Suc m" m' l] monthStart_mono [of "Suc m'" m l] assms by (cases m m' rule: linorder_cases) auto

lemma day_in_year: "0 \<le> dayInYear z \<and> dayInYear z < monthStart (leapYear (yearOfDay z)) 12"
  using year_bounds [of z] dayFromYear_Suc [of "yearOfDay z"] by (simp add: dayInYear_def)

lemma month_bounds:
  "nat (monthOfDay z) < 12 \<and> 0 \<le> monthOfDay z \<and> monthStart (leapYear (yearOfDay z)) (nat (monthOfDay z)) \<le> dayInYear z \<and>
   dayInYear z < monthStart (leapYear (yearOfDay z)) (Suc (nat (monthOfDay z)))"
proof -
  have "[1..<12] = [1, 2, 3, 4, 5, 6, 7, 8, 9, 10, 11 :: nat]" by code_simp
  then show ?thesis using month_count [of "dayInYear z" "leapYear (yearOfDay z)"] day_in_year [of z]
    unfolding monthOfDay_def Let_def by simp
qed

text \<open>
  The parts of a day are those of a date of the calendar, and the date is that day; the parts of a date
  of the calendar are the date.
\<close>

lemma date_parts:
  "0 \<le> monthOfDay z \<and> monthOfDay z < 12 \<and> 1 \<le> dateOfDay z \<and> dateOfDay z \<le> daysInMonth (yearOfDay z) (monthOfDay z) \<and>
   makeDay (yearOfDay z) (monthOfDay z) (dateOfDay z) = z"
proof -
  have "0 \<le> monthOfDay z" "monthOfDay z < 12" using month_bounds [of z] by auto
  then have m: "monthOfDay z div 12 = 0" "monthOfDay z mod 12 = monthOfDay z" by simp_all
  show ?thesis using month_bounds [of z] \<open>monthOfDay z < 12\<close> by (simp add: dateOfDay_def daysInMonth_def makeDay_def m dayInYear_def Let_def)
qed

lemma makeDay_parts:
  assumes "0 \<le> m" "m < 12" "1 \<le> d" "d \<le> daysInMonth y m"
  shows "yearOfDay (makeDay y m d) = y \<and> monthOfDay (makeDay y m d) = m \<and> dateOfDay (makeDay y m d) = d"
proof -
  have m: "m div 12 = 0" "m mod 12 = m" "nat m < 12" using assms by simp_all
  define l where "l = leapYear y"
  have z: "makeDay y m d = dayFromYear y + monthStart l (nat m) + d - 1" by (simp add: makeDay_def m l_def)
  have d: "monthStart l (nat m) + d \<le> monthStart l (Suc (nat m))" using assms(4) by (simp add: daysInMonth_def m l_def Let_def)
  have "0 \<le> monthStart l (nat m)" "monthStart l (Suc (nat m)) \<le> monthStart l 12"
    using monthStart_mono [of 0 "nat m" l] monthStart_mono [of "Suc (nat m)" 12 l] m(3) by simp_all
  then have y: "yearOfDay (makeDay y m d) = y"
    using d assms(3) dayFromYear_Suc [of y] by (intro year_unique) (auto simp: z l_def split: if_splits)
  have x: "dayInYear (makeDay y m d) = monthStart l (nat m) + d - 1" by (simp only: dayInYear_def y) (simp add: z)
  have "nat (monthOfDay (makeDay y m d)) = nat m"
    using month_bounds [of "makeDay y m d"] d assms(3) m(3) by (intro month_unique [of _ l "monthStart l (nat m) + d - 1"]) (simp_all add: y x l_def)
  then have n: "monthOfDay (makeDay y m d) = m" using month_bounds [of "makeDay y m d"] assms(1) by (metis nat_eq_iff2 int_nat_eq)
  show ?thesis using y n x by (simp add: dateOfDay_def l_def)
qed

lemma makeDay_normal: "makeDay y m d = makeDay (y + m div 12) (m mod 12) d"
  by (simp add: makeDay_def)

lemma makeDay_add: "makeDay y m d = makeDay y m 1 + d - 1"
  by (simp add: makeDay_def Let_def)

lemma mod_next: "(m + 1) mod 12 = (if m mod 12 = 11 then 0 else m mod 12 + 1 :: int)" "(m + 1) div 12 = m div 12 + (if m mod 12 = 11 then 1 else 0)"
proof -
  have m: "(m + 1) mod 12 = (m mod 12 + 1) mod 12" by (simp add: mod_add_left_eq)
  have r: "0 \<le> m mod 12" "m mod 12 < 12" by simp_all
  show n: "(m + 1) mod 12 = (if m mod 12 = 11 then 0 else m mod 12 + 1)"
  proof (cases "m mod 12 = 11")
    case True
    then show ?thesis unfolding m by simp
  next
    case False
    then show ?thesis unfolding m using r by simp
  qed
  have "(m + 1) mod 12 = 0 \<longleftrightarrow> m mod 12 = 11" unfolding n using add_nonneg_pos [OF r(1), of 1] by auto
  then show "(m + 1) div 12 = m div 12 + (if m mod 12 = 11 then 1 else 0)" using div_next [of 12 m] by simp
qed

lemma next_month: "makeDay y (m + 1) 1 = makeDay y m 1 + daysInMonth y m"
proof (cases "m mod 12 = 11")
  case True
  then show ?thesis using dayFromYear_Suc [of "y + m div 12"]
    by (simp add: makeDay_def daysInMonth_def Let_def mod_next monthStart_def add.assoc)
next
  case False
  then have "nat (m mod 12 + 1) = Suc (nat (m mod 12))" by (simp add: nat_add_distrib)
  with False show ?thesis by (simp add: makeDay_def daysInMonth_def Let_def mod_next)
qed

lemma daysInMonth_bounds: "28 \<le> daysInMonth y m \<and> daysInMonth y m \<le> 31"
proof -
  have "nat (m mod 12) < 12" by simp
  then show ?thesis unfolding daysInMonth_def Let_def by (cases "leapYear (y + m div 12)") (auto simp: month_cases monthStart_def)
qed

text \<open>The last day of the month before.\<close>

lemma day_zero: "dateOfDay (makeDay y m 0) = daysInMonth y (m - 1)"
proof -
  let ?y = "y + (m - 1) div 12" and ?m = "(m - 1) mod 12"
  have n: "daysInMonth ?y ?m = daysInMonth y (m - 1)" by (simp add: daysInMonth_def)
  have "makeDay y m 0 = makeDay y (m - 1) (daysInMonth y (m - 1))"
    using next_month [of y "m - 1"] makeDay_add [of y m 0] makeDay_add [of y "m - 1" "daysInMonth y (m - 1)"] by simp
  also have "\<dots> = makeDay ?y ?m (daysInMonth ?y ?m)" by (simp add: makeDay_normal [of y "m - 1"] n)
  finally show ?thesis using makeDay_parts [of ?m "daysInMonth ?y ?m" ?y] daysInMonth_bounds [of ?y ?m] n by simp
qed

lemma same_day_iff:
  "yearOfDay a = yearOfDay b \<and> monthOfDay a = monthOfDay b \<and> dateOfDay a = dateOfDay b \<longleftrightarrow> a = b"
  using date_parts [of a] date_parts [of b] by metis

lemma weekDay_range: "0 \<le> weekDay z \<and> weekDay z < 7"
  by (simp add: weekDay_def)

text \<open>A local time lies on the day that its midnight and the last millisecond before the next one bound.\<close>

lemma localDay_iff: "localDay tz ms = z \<longleftrightarrow> localMidnight tz z \<le> ms \<and> ms < localMidnight tz z + 86400000"
proof -
  have "86400000 * localDay tz ms \<le> ms + tz \<and> ms + tz < 86400000 * localDay tz ms + 86400000"
    unfolding localDay_def by (rule floor_bounds) simp
  then show ?thesis unfolding localMidnight_def by auto
qed

lemma localDay_le: "localMidnight tz z \<le> ms \<longleftrightarrow> z \<le> localDay tz ms"
  using localDay_iff [of tz ms "localDay tz ms"] unfolding localMidnight_def by auto

lemma localDay_midnight [simp]: "localDay tz (localMidnight tz z) = z"
  by (simp add: localDay_iff)

lemma leap_day: "makeDay 2024 1 29 = 19782 \<and> weekDay 19782 = 4 \<and> yearOfDay 19782 = 2024 \<and> monthOfDay 19782 = 1 \<and> dateOfDay 19782 = 29"
  using makeDay_parts [of 1 29 2024] by (simp add: makeDay_def dayFromYear_def leapYear_def weekDay_def daysInMonth_def monthStart_def)

end
