(* ===== verification/Cashflow_Calendar.thy ===== *)
theory Cashflow_Calendar
  imports Js_Dates Details_Page Admin_Api Live_Amounts
begin

text \<open>
  The cash-flow calendar: the page (\<open>frontend/src/app/dashboard/calendar/page.tsx\<close>), the month
  (\<open>components/dashboard/CalendarView.tsx\<close>) and the projection (\<open>CashflowChart.tsx\<close>), on the list of
  streams the backend answers with. The local time zone is a fixed offset \<open>tz\<close> in milliseconds; a day is its
  number since 1970, and the clock gives the day that is today. Years before 100 are not reached.
  The markup and the formatting of numbers are left out.
\<close>

section \<open>Streams\<close>

record CalStream =
  cal_id :: "jvalue option"
  cal_streamId :: "jvalue option"
  cal_sender :: "jvalue option"
  cal_recipient :: "jvalue option"
  cal_tokenSymbol :: jvalue
  cal_ratePerSecond :: jsnum
  cal_depositedAmount :: jvalue
  cal_withdrawnAmount :: jvalue
  cal_startTime :: "jvalue option"
  cal_endTime :: "jvalue option"
  cal_isActive :: "jvalue option"
  cal_isPaused :: "jvalue option"
  cal_status :: jvalue

text \<open>\<open>Number\<close> of a value; an array is taken for no number.\<close>

fun numberOf :: "jvalue option \<Rightarrow> jsnum" where
  "numberOf (Some VNull) = Fin 0"
| "numberOf (Some (VBool b)) = Fin (if b then 1 else 0)"
| "numberOf (Some (VNum n)) = n"
| "numberOf (Some (VStr s)) = numberOfText s"
| "numberOf _ = NaN"

definition fieldOr :: "jvalue \<Rightarrow> string \<Rightarrow> string \<Rightarrow> jvalue" where
  "fieldOr v k d = (if truthyField v k then the (getProperty v k) else VStr d)"

definition mapCalendarStream :: "jvalue \<Rightarrow> CalStream result" where
  "mapCalendarStream s =
     (if s = VNull then Inl TypeError
      else Inr \<lparr>cal_id = getProperty s ''id'', cal_streamId = getProperty s ''streamId'', cal_sender = getProperty s ''sender'',
        cal_recipient = getProperty s ''recipient'', cal_tokenSymbol = fieldOr s ''tokenSymbol'' ''USDC'',
        cal_ratePerSecond = (let n = numberOf (getProperty s ''ratePerSecond'') in if n = NaN then Fin 0 else n),
        cal_depositedAmount = fieldOr s ''depositedAmount'' ''0'', cal_withdrawnAmount = fieldOr s ''withdrawnAmount'' ''0'',
        cal_startTime = getProperty s ''startTime'', cal_endTime = getProperty s ''endTime'', cal_isActive = getProperty s ''isActive'',
        cal_isPaused = getProperty s ''isPaused'', cal_status = fieldOr s ''status'' ''unknown''\<rparr>)"

definition streamListOf :: "jvalue \<Rightarrow> jvalue list result" where
  "streamListOf body =
     (case body of
        VArr xs \<Rightarrow> Inr xs
      | VNull \<Rightarrow> Inl TypeError
      | v \<Rightarrow> (case getProperty v ''data'' of None \<Rightarrow> Inr [] | Some VNull \<Rightarrow> Inr [] | Some (VArr xs) \<Rightarrow> Inr xs | _ \<Rightarrow> Inl TypeError))"

definition calendarStreams :: "jvalue \<Rightarrow> CalStream list result" where
  "calendarStreams body = bindE (streamListOf body) (mapE mapCalendarStream)"

text \<open>\<open>new Date(n)\<close> as milliseconds, \<open>None\<close> for an invalid date, which compares as false with every other.\<close>

fun newDate :: "jsnum \<Rightarrow> int option" where
  "newDate (Fin r) = (let t = (if 0 \<le> r then \<lfloor>r\<rfloor> else \<lceil>r\<rceil>) in if \<bar>t\<bar> \<le> 8640000000000000 then Some t else None)"
| "newDate _ = None"

definition streamStart :: "CalStream \<Rightarrow> int option" where
  "streamStart s = newDate (numMult (numberOf (cal_startTime s)) (Fin 1000))"

definition streamEnd :: "CalStream \<Rightarrow> int option option" where
  "streamEnd s = (if falsy (cal_endTime s) then None else Some (newDate (numMult (numberOf (cal_endTime s)) (Fin 1000))))"

definition dateLe :: "int option \<Rightarrow> int option \<Rightarrow> bool" where
  "dateLe a b = (case (a, b) of (Some x, Some y) \<Rightarrow> x \<le> y | _ \<Rightarrow> False)"

definition runsBetween :: "int \<Rightarrow> int \<Rightarrow> CalStream \<Rightarrow> bool" where
  "runsBetween lo hi s =
     (dateLe (streamStart s) (Some hi) \<and> (case streamEnd s of None \<Rightarrow> True | Some e \<Rightarrow> dateLe (Some lo) e))"

section \<open>The month\<close>

datatype marker = StartMark | EndMark | ActiveMark | CliffMark

definition onDate :: "int \<Rightarrow> int \<Rightarrow> int option \<Rightarrow> bool" where
  "onDate tz date t =
     (case t of
        None \<Rightarrow> False
      | Some ms \<Rightarrow> yearOfDay (localDay tz ms) = yearOfDay date \<and> monthOfDay (localDay tz ms) = monthOfDay date \<and>
          dateOfDay (localDay tz ms) = dateOfDay date)"

definition getStreamsForDate :: "int \<Rightarrow> int \<Rightarrow> CalStream list \<Rightarrow> (CalStream \<times> marker \<times> int option) list" where
  "getStreamsForDate tz date ss =
     (let dayStart = localMidnight tz date; dayEnd = localMidnight tz date + 86399999 in
      concat (map (\<lambda>s.
          (if runsBetween dayStart dayEnd s then [(s, ActiveMark, streamStart s)] else [])
        @ (if onDate tz date (streamStart s) then [(s, StartMark, streamStart s)] else [])
        @ (case streamEnd s of None \<Rightarrow> [] | Some e \<Rightarrow> if onDate tz date e then [(s, EndMark, e)] else [])) ss))"

definition filteredStreams :: "string \<Rightarrow> string \<Rightarrow> string option \<Rightarrow> CalStream list \<Rightarrow> CalStream list" where
  "filteredStreams selectedToken direction userPublicKey ss =
     filter (\<lambda>s.
       if selectedToken \<noteq> ''all'' \<and> cal_tokenSymbol s \<noteq> VStr selectedToken then False
       else if direction = ''incoming'' \<and> cal_sender s = map_option VStr userPublicKey then False
       else if direction = ''outgoing'' \<and> cal_recipient s = map_option VStr userPublicKey then False
       else True) ss"

record CalendarDay =
  cd_date :: int
  cd_isCurrentMonth :: bool
  cd_isToday :: bool
  cd_streams :: "(CalStream \<times> marker \<times> int option) list"

definition calendarCell :: "int \<Rightarrow> int \<Rightarrow> CalStream list \<Rightarrow> bool \<Rightarrow> int \<Rightarrow> CalendarDay" where
  "calendarCell tz today ss current date =
     \<lparr>cd_date = date, cd_isCurrentMonth = current, cd_isToday = (date = today), cd_streams = getStreamsForDate tz date ss\<rparr>"

definition calendarDays :: "int \<Rightarrow> int \<Rightarrow> CalStream list \<Rightarrow> int \<Rightarrow> CalendarDay list" where
  "calendarDays tz today ss currentDate =
     (let year = yearOfDay currentDate; month = monthOfDay currentDate;
          startOffset = weekDay (makeDay year month 1);
          totalDays = dateOfDay (makeDay year (month + 1) 0);
          prevMonthLastDay = dateOfDay (makeDay year month 0);
          before = map (\<lambda>i. calendarCell tz today ss False (makeDay year (month - 1) (prevMonthLastDay - int i))) (rev [0..<nat startOffset]);
          thisMonth = map (\<lambda>day. calendarCell tz today ss True (makeDay year month day)) [1..totalDays];
          remaining = 42 - int (length (before @ thisMonth));
          after = map (\<lambda>day. calendarCell tz today ss False (makeDay year (month + 1) day)) [1..remaining]
      in before @ thisMonth @ after)"

definition goToPrevMonth :: "int \<Rightarrow> int" where
  "goToPrevMonth currentDate = makeDay (yearOfDay currentDate) (monthOfDay currentDate - 1) 1"

definition goToNextMonth :: "int \<Rightarrow> int" where
  "goToNextMonth currentDate = makeDay (yearOfDay currentDate) (monthOfDay currentDate + 1) 1"

section \<open>The projection\<close>

record DailyFlow =
  df_date :: int
  df_incoming :: jsnum
  df_outgoing :: jsnum
  df_net :: jsnum
  df_cumulativeNet :: jsnum

definition countedOn :: "int \<Rightarrow> string \<Rightarrow> int \<Rightarrow> CalStream \<Rightarrow> bool" where
  "countedOn tz tokenFilter date s =
     (\<not> (tokenFilter \<noteq> ''all'' \<and> cal_tokenSymbol s \<noteq> VStr tokenFilter) \<and> runsBetween (localMidnight tz date) (localMidnight tz date) s)"

definition addFlow :: "int \<Rightarrow> string option \<Rightarrow> string \<Rightarrow> int \<Rightarrow> CalStream \<Rightarrow> jsnum \<times> jsnum \<Rightarrow> jsnum \<times> jsnum" where
  "addFlow tz userPublicKey tokenFilter date s flow =
     (let dailyAmount = numMult (cal_ratePerSecond s) (Fin 86400) in
      if \<not> countedOn tz tokenFilter date s then flow
      else if cal_sender s = map_option VStr userPublicKey then (fst flow, numAdd (snd flow) dailyAmount)
      else (numAdd (fst flow) dailyAmount, snd flow))"

definition dayFlow :: "int \<Rightarrow> string option \<Rightarrow> string \<Rightarrow> CalStream list \<Rightarrow> int \<Rightarrow> jsnum \<times> jsnum" where
  "dayFlow tz userPublicKey tokenFilter ss date = fold (addFlow tz userPublicKey tokenFilter date) ss (Fin 0, Fin 0)"

fun accumulate :: "jsnum \<Rightarrow> DailyFlow list \<Rightarrow> DailyFlow list" where
  "accumulate cumulative [] = []"
| "accumulate cumulative (f # fs) =
     (let c = numAdd cumulative (df_net f) in f\<lparr>df_cumulativeNet := c\<rparr> # accumulate c fs)"

definition dailyFlows :: "int \<Rightarrow> string option \<Rightarrow> string \<Rightarrow> nat \<Rightarrow> CalStream list \<Rightarrow> int \<Rightarrow> DailyFlow list" where
  "dailyFlows tz userPublicKey tokenFilter days ss today =
     accumulate (Fin 0) (map (\<lambda>i.
       let (incoming, outgoing) = dayFlow tz userPublicKey tokenFilter ss (today + int i)
       in \<lparr>df_date = today + int i, df_incoming = incoming, df_outgoing = outgoing, df_net = numSub incoming outgoing,
           df_cumulativeNet = Fin 0\<rparr>) [0..<days])"

record flow_summary =
  fs_totalIncoming :: jsnum
  fs_totalOutgoing :: jsnum
  fs_totalNet :: jsnum
  fs_netFlowPerDay :: jsnum
  fs_isPositive :: bool

definition flowSummary :: "nat \<Rightarrow> DailyFlow list \<Rightarrow> flow_summary" where
  "flowSummary days flows =
     (let totalIncoming = foldl (\<lambda>sum f. numAdd sum (df_incoming f)) (Fin 0) flows;
          totalOutgoing = foldl (\<lambda>sum f. numAdd sum (df_outgoing f)) (Fin 0) flows;
          totalNet = numSub totalIncoming totalOutgoing
      in \<lparr>fs_totalIncoming = totalIncoming, fs_totalOutgoing = totalOutgoing, fs_totalNet = totalNet,
          fs_netFlowPerDay = numDiv totalNet (Fin (of_nat days)), fs_isPositive = numLe (Fin 0) totalNet\<rparr>)"

definition chartRange :: "DailyFlow list \<Rightarrow> jsnum \<times> jsnum" where
  "chartRange flows =
     (fold (\<lambda>f. Math_min (df_cumulativeNet f)) flows (Fin 0), fold (\<lambda>f. Math_max (df_cumulativeNet f)) flows (Fin 0))"

definition normalize :: "jsnum \<Rightarrow> jsnum \<Rightarrow> jsnum \<Rightarrow> jsnum" where
  "normalize v lo hi =
     (let d = numSub hi lo; range = (if d = Fin 0 \<or> d = NaN then Fin 1 else d)
      in numMult (numDiv (numSub v lo) range) (Fin 100))"

text \<open>The points of the line; the texts of the coordinates are left out.\<close>

definition chartPoints :: "DailyFlow list \<Rightarrow> (jsnum \<times> jsnum) list" where
  "chartPoints flows =
     (let (lo, hi) = chartRange flows in
      map (\<lambda>(i, f). (numMult (numDiv (Fin (of_nat i)) (Fin (of_nat (length flows - 1)))) (Fin 100),
                     numSub (Fin 100) (normalize (df_cumulativeNet f) lo hi))) (enumerate 0 flows))"

section \<open>The page\<close>

definition calendarRequest :: "string \<Rightarrow> (string \<times> string) list" where
  "calendarRequest publicKey = [(''user'', publicKey)]"

text \<open>The parameters of the list of streams that the backend takes from a query.\<close>

definition listQueryOf :: "(string \<times> string) list \<Rightarrow> list_query" where
  "listQueryOf params =
     \<lparr>q_sender = map_of params ''sender'', q_recipient = map_of params ''recipient'', q_status = map_of params ''status'',
      q_token = map_of params ''token'', q_sort = map_of params ''sort'', q_order = map_of params ''order'',
      q_limit = map_of params ''limit'', q_offset = map_of params ''offset''\<rparr>"

text \<open>The body of the answer; the pages read its \<open>data\<close> alone.\<close>

definition listJson :: "stream_row list \<times> int \<times> bool \<times> int \<times> int \<Rightarrow> json" where
  "listJson r =
     (case r of (rows, cnt, hasMore, pageSize, off) \<Rightarrow>
        JObj [(''data'', JArr (map (\<lambda>r. JObj (rowFields r)) rows)), (''total'', JNum cnt), (''hasMore'', JBool hasMore),
              (''limit'', JNum pageSize), (''offset'', JNum off)])"

datatype calendar_reply = FetchFails string | NotOk | Aborted | Body "jvalue result"

record calendar_page =
  cp_ready :: bool
  cp_session :: "string option"
  cp_waiting :: bool
  cp_streams :: "CalStream list"
  cp_loading :: bool
  cp_error :: "string option"
  cp_selectedToken :: string
  cp_direction :: string
  cp_projectionDays :: nat

definition openCalendar :: calendar_page where
  "openCalendar =
     \<lparr>cp_ready = False, cp_session = None, cp_waiting = False, cp_streams = [], cp_loading = True, cp_error = None,
      cp_selectedToken = ''all'', cp_direction = ''all'', cp_projectionDays = 30\<rparr>"

text \<open>The answer of the running request; \<open>textOf\<close> is the message of a thrown error.\<close>

definition calendarAnswer :: "(err \<Rightarrow> string) \<Rightarrow> calendar_reply \<Rightarrow> calendar_page \<Rightarrow> calendar_page" where
  "calendarAnswer textOf reply p =
     (let p1 = (case reply of
                  FetchFails m \<Rightarrow> p\<lparr>cp_error := Some m\<rparr>
                | NotOk \<Rightarrow> p\<lparr>cp_error := Some ''Failed to fetch streams''\<rparr>
                | Aborted \<Rightarrow> p
                | Body b \<Rightarrow> (case bindE b calendarStreams of
                     Inl e \<Rightarrow> p\<lparr>cp_error := Some (textOf e)\<rparr>
                   | Inr ss \<Rightarrow> p\<lparr>cp_streams := ss, cp_error := None\<rparr>))
      in p1\<lparr>cp_loading := False\<rparr>)"

text \<open>The effect on the session: the request before is aborted, and a new one starts when there is a wallet.\<close>

definition sessionEffect :: "(err \<Rightarrow> string) \<Rightarrow> bool \<Rightarrow> string option \<Rightarrow> calendar_page \<Rightarrow> calendar_page" where
  "sessionEffect textOf ready session p =
     (if ready = cp_ready p \<and> session = cp_session p then p
      else let p1 = (if cp_waiting p then calendarAnswer textOf Aborted p else p)
           in p1\<lparr>cp_ready := ready, cp_session := session, cp_waiting := (ready \<and> session \<noteq> None)\<rparr>)"

datatype calendar_event =
    WalletIs bool "string option"
  | StreamsAnswer calendar_reply
  | SelectToken string
  | SelectDirection string
  | SelectDays nat

fun calendarStep :: "(err \<Rightarrow> string) \<Rightarrow> calendar_event \<Rightarrow> calendar_page \<Rightarrow> calendar_page" where
  "calendarStep textOf (WalletIs ready session) p = sessionEffect textOf ready session p"
| "calendarStep textOf (StreamsAnswer reply) p =
     (if cp_waiting p \<and> reply \<noteq> Aborted then calendarAnswer textOf reply (p\<lparr>cp_waiting := False\<rparr>) else p)"
| "calendarStep textOf (SelectToken t) p = p\<lparr>cp_selectedToken := t\<rparr>"
| "calendarStep textOf (SelectDirection d) p = p\<lparr>cp_direction := d\<rparr>"
| "calendarStep textOf (SelectDays n) p = p\<lparr>cp_projectionDays := n\<rparr>"

datatype calendar_view = CalendarSkeleton | CalendarError string | CalendarShown "CalStream list" "CalStream list"

text \<open>What the month and the projection are given.\<close>

definition calendarView :: "calendar_page \<Rightarrow> calendar_view" where
  "calendarView p =
     (if \<not> cp_ready p \<or> cp_loading p then CalendarSkeleton
      else case cp_error p of
             Some m \<Rightarrow> CalendarError m
           | None \<Rightarrow> CalendarShown (filteredStreams (cp_selectedToken p) (cp_direction p) (cp_session p) (cp_streams p)) (cp_streams p))"

definition uniqueTokens :: "CalStream list \<Rightarrow> jvalue list" where
  "uniqueTokens ss = VStr ''all'' # rev (remdups (rev (map cal_tokenSymbol ss)))"

section \<open>The month is complete\<close>

lemma in_month_iff:
  assumes "0 \<le> m" "m < 12"
  shows "yearOfDay z = y \<and> monthOfDay z = m \<longleftrightarrow> makeDay y m 1 \<le> z \<and> z < makeDay y m 1 + daysInMonth y m"
proof
  assume z: "yearOfDay z = y \<and> monthOfDay z = m"
  then have "z = makeDay y m (dateOfDay z)" "1 \<le> dateOfDay z" "dateOfDay z \<le> daysInMonth y m" using date_parts [of z] by auto
  then show "makeDay y m 1 \<le> z \<and> z < makeDay y m 1 + daysInMonth y m" using makeDay_add [of y m "dateOfDay z"] by simp
next
  assume "makeDay y m 1 \<le> z \<and> z < makeDay y m 1 + daysInMonth y m"
  then have "1 \<le> z - makeDay y m 1 + 1" "z - makeDay y m 1 + 1 \<le> daysInMonth y m" by auto
  from makeDay_parts [OF assms this] makeDay_add [of y m "z - makeDay y m 1 + 1"] show "yearOfDay z = y \<and> monthOfDay z = m" by simp
qed

lemma map_upto: "map (\<lambda>d. c + d) [a..b] = [c + a..c + (b :: int)]"
proof (induction "nat (b + 1 - a)" arbitrary: a)
  case 0
  then show ?case by simp
next
  case (Suc n)
  then have "map (\<lambda>d. c + d) [a + 1..b] = [c + (a + 1)..c + b]" by simp
  with Suc.hyps(2) show ?case using upto_rec1 [of a b] upto_rec1 [of "c + a" "c + b"] by (simp add: add.assoc)
qed

lemma map_down: "map (\<lambda>i. c - 1 - int i) (rev [0..<n]) = [c - int n..c - 1]"
proof (induction n)
  case (Suc n)
  then show ?case using upto_rec1 [of "c - int (Suc n)" "c - 1"] by (simp add: algebra_simps)
qed simp

lemma upto_two: "a \<le> b \<Longrightarrow> b \<le> d + 1 \<Longrightarrow> [a..b - 1] @ [b..d] = [a..(d :: int)]"
  using upto_split1 [of a b d] by (cases "b = d + 1") simp_all

lemma cell_fields [simp]:
  "cd_date (calendarCell tz today ss b z) = z" "cd_isCurrentMonth (calendarCell tz today ss b z) = b"
  "cd_isToday (calendarCell tz today ss b z) = (z = today)" "cd_streams (calendarCell tz today ss b z) = getStreamsForDate tz z ss"
  by (simp_all add: calendarCell_def)

text \<open>C38. The cells of a month are 42 consecutive days, beginning with a Sunday; they contain every day of
  the month, and a cell is marked as of the current month or as today exactly when it is.
\<close>
theorem calendar_covers_month:
  "let cells = calendarDays tz today ss cur; start = makeDay (yearOfDay cur) (monthOfDay cur) 1; sunday = start - weekDay start in
     map cd_date cells = [sunday..sunday + 41] \<and> weekDay sunday = 0 \<and>
     (\<forall>z. yearOfDay z = yearOfDay cur \<and> monthOfDay z = monthOfDay cur \<longrightarrow> z \<in> cd_date ` set cells) \<and>
     (\<forall>c\<in>set cells. (cd_isCurrentMonth c \<longleftrightarrow> yearOfDay (cd_date c) = yearOfDay cur \<and> monthOfDay (cd_date c) = monthOfDay cur) \<and>
        (cd_isToday c \<longleftrightarrow> cd_date c = today) \<and> cd_streams c = getStreamsForDate tz (cd_date c) ss)"
proof -
  define y m f w T P where "y = yearOfDay cur" and "m = monthOfDay cur" and "f = makeDay y m 1" and "w = weekDay f"
    and "T = daysInMonth y m" and "P = daysInMonth y (m - 1)"
  define before now after where "before = map (\<lambda>i. calendarCell tz today ss False (f - 1 - int i)) (rev [0..<nat w])"
    and "now = map (\<lambda>d. calendarCell tz today ss True (f - 1 + d)) [1..T]"
    and "after = map (\<lambda>d. calendarCell tz today ss False (f + T - 1 + d)) [1..42 - (w + T)]"
  have m: "0 \<le> m" "m < 12" using date_parts [of cur] by (simp_all add: m_def)
  have w: "0 \<le> w" "w < 7" and T: "28 \<le> T" "T \<le> 31"
    using weekDay_range daysInMonth_bounds [of y m] by (simp_all add: w_def T_def)
  have days: "makeDay y (m - 1) (P - i) = f - 1 - i" "makeDay y m d = f - 1 + d" "makeDay y (m + 1) d = f + T - 1 + d" for i d
    using next_month [of y "m - 1"] next_month [of y m] makeDay_add [of y "m - 1" "P - i"] makeDay_add [of y m d] makeDay_add [of y "m + 1" d]
    by (simp_all add: f_def T_def P_def)
  have "dateOfDay (makeDay y (m + 1) 0) = T" "dateOfDay (makeDay y m 0) = P" using day_zero [of y "m + 1"] day_zero [of y m] by (simp_all add: T_def P_def)
  moreover have "weekDay f = w" by (simp add: w_def)
  ultimately have cells: "calendarDays tz today ss cur = before @ now @ after"
    using w T unfolding calendarDays_def y_def [symmetric] m_def [symmetric] f_def [symmetric]
    by (simp add: Let_def days before_def now_def after_def)
  have "map cd_date before = [f - w..f - 1]" using map_down [of f "nat w"] w by (simp add: before_def comp_def)
  moreover have "map cd_date now = [f..f + T - 1]" using map_upto [of "f - 1" 1 T] by (simp add: now_def comp_def algebra_simps)
  moreover have "map cd_date after = [f + T..f - w + 41]"
    using map_upto [of "f + T - 1" 1 "42 - (w + T)"] by (simp add: after_def comp_def algebra_simps)
  ultimately have dates: "map cd_date (before @ now @ after) = [f - w..f - w + 41]"
    using upto_two [of f "f + T" "f - w + 41"] upto_two [of "f - w" f "f - w + 41"] w T by simp
  have "f - w + 4 = 7 * ((f + 4) div 7)" unfolding w_def weekDay_def using mult_div_mod_eq [of 7 "f + 4"] by linarith
  then have sunday: "weekDay (f - w) = 0" by (simp add: weekDay_def [of "f - w"])
  have "z \<in> cd_date ` set (before @ now @ after)" if "yearOfDay z = y \<and> monthOfDay z = m" for z
  proof -
    have "z \<in> set [f - w..f - w + 41]" using in_month_iff [OF m, of z y] that w T by (auto simp: f_def T_def)
    then show ?thesis unfolding dates [symmetric] by (simp add: image_Un)
  qed
  moreover have "(cd_isCurrentMonth c \<longleftrightarrow> yearOfDay (cd_date c) = y \<and> monthOfDay (cd_date c) = m) \<and>
      (cd_isToday c \<longleftrightarrow> cd_date c = today) \<and> cd_streams c = getStreamsForDate tz (cd_date c) ss" if "c \<in> set (before @ now @ after)" for c
    using that w unfolding in_month_iff [OF m] f_def [symmetric] T_def [symmetric] by (auto simp: before_def now_def after_def)
  ultimately show ?thesis
    unfolding Let_def cells y_def [symmetric] m_def [symmetric] f_def [symmetric] w_def [symmetric] using dates sunday by blast
qed

section \<open>What a day shows\<close>

lemma onDate_iff: "onDate tz z t \<longleftrightarrow> (\<exists>ms. t = Some ms \<and> localDay tz ms = z)"
  using same_day_iff by (auto simp: onDate_def split: option.splits)

text \<open>
  A day lists a stream as running exactly from the local day it starts to the local day it ends, as
  starting on the one and as ending on the other.
\<close>
theorem calendar_marks:
  assumes "streamStart s = Some t" "streamEnd s \<noteq> Some None"
  shows "let marks = {k. \<exists>d. (s, k, d) \<in> set (getStreamsForDate tz z ss)} in
    (ActiveMark \<in> marks \<longleftrightarrow> s \<in> set ss \<and> localDay tz t \<le> z \<and> (\<forall>e. streamEnd s = Some (Some e) \<longrightarrow> z \<le> localDay tz e)) \<and>
    (StartMark \<in> marks \<longleftrightarrow> s \<in> set ss \<and> z = localDay tz t) \<and>
    (EndMark \<in> marks \<longleftrightarrow> s \<in> set ss \<and> (\<exists>e. streamEnd s = Some (Some e) \<and> z = localDay tz e)) \<and> CliffMark \<notin> marks"
proof -
  have le: "t \<le> localMidnight tz z + 86399999 \<longleftrightarrow> localDay tz t \<le> z"
    using localDay_le [of tz "z + 1" t] by (auto simp: localMidnight_def)
  have runs: "runsBetween (localMidnight tz z) (localMidnight tz z + 86399999) s \<longleftrightarrow>
      localDay tz t \<le> z \<and> (\<forall>e. streamEnd s = Some (Some e) \<longrightarrow> z \<le> localDay tz e)"
    using assms by (auto simp: runsBetween_def dateLe_def le localDay_le split: option.splits)
  have "{k. \<exists>d. (s, k, d) \<in> set (getStreamsForDate tz z ss)} =
      (if s \<in> set ss then (if runsBetween (localMidnight tz z) (localMidnight tz z + 86399999) s then {ActiveMark} else {}) \<union>
         (if localDay tz t = z then {StartMark} else {}) \<union> (if \<exists>e. streamEnd s = Some (Some e) \<and> localDay tz e = z then {EndMark} else {}) else {})"
  proof (cases "streamEnd s")
    case None
    then show ?thesis using assms by (auto simp: getStreamsForDate_def onDate_iff Let_def split: option.splits if_splits)
  next
    case (Some e')
    with assms obtain e where "streamEnd s = Some (Some e)" by auto
    then show ?thesis using assms by (auto simp: getStreamsForDate_def onDate_iff Let_def split: option.splits if_splits)
  qed
  then show ?thesis unfolding Let_def using runs by auto
qed

lemma makeDay_years: "makeDay (y + k) m d = makeDay y (m + 12 * k) d"
  by (simp add: makeDay_def algebra_simps)

lemma month_parts: "yearOfDay (makeDay y m 1) = y + m div 12 \<and> monthOfDay (makeDay y m 1) = m mod 12"
  using makeDay_parts [of "m mod 12" 1 "y + m div 12"] daysInMonth_bounds [of "y + m div 12" "m mod 12"] makeDay_normal [of y m 1] by simp

text \<open>Going a month back and forth leads to the first of the month.\<close>

lemma month_navigation:
  "goToPrevMonth (goToNextMonth cur) = makeDay (yearOfDay cur) (monthOfDay cur) 1"
  "goToNextMonth (goToPrevMonth cur) = makeDay (yearOfDay cur) (monthOfDay cur) 1"
proof -
  have "(m + 1) mod 12 - 1 + 12 * ((m + 1) div 12) = m" "(m - 1) mod 12 + 1 + 12 * ((m - 1) div 12) = m" for m :: int
    using mult_div_mod_eq [of 12 "m + 1"] mult_div_mod_eq [of 12 "m - 1"] by linarith+
  then show "goToPrevMonth (goToNextMonth cur) = makeDay (yearOfDay cur) (monthOfDay cur) 1"
    "goToNextMonth (goToPrevMonth cur) = makeDay (yearOfDay cur) (monthOfDay cur) 1"
    by (simp_all only: goToPrevMonth_def goToNextMonth_def month_parts makeDay_years)
qed

section \<open>The projection is exact for small amounts\<close>

text \<open>\<open>rate\<close> gives the rates; the exact flow of a day, in units of the rates.\<close>

definition exactFlow :: "(CalStream \<Rightarrow> int) \<Rightarrow> (CalStream \<Rightarrow> bool) \<Rightarrow> CalStream list \<Rightarrow> int" where
  "exactFlow rate counted ss = 86400 * (\<Sum>s\<leftarrow>filter counted ss. rate s)"

definition sentBy :: "string option \<Rightarrow> CalStream \<Rightarrow> bool" where
  "sentBy userPublicKey s = (cal_sender s = map_option VStr userPublicKey)"

definition incomingOn :: "int \<Rightarrow> string option \<Rightarrow> string \<Rightarrow> (CalStream \<Rightarrow> int) \<Rightarrow> CalStream list \<Rightarrow> int \<Rightarrow> int" where
  "incomingOn tz pk tok rate ss date = exactFlow rate (\<lambda>s. countedOn tz tok date s \<and> \<not> sentBy pk s) ss"

definition outgoingOn :: "int \<Rightarrow> string option \<Rightarrow> string \<Rightarrow> (CalStream \<Rightarrow> int) \<Rightarrow> CalStream list \<Rightarrow> int \<Rightarrow> int" where
  "outgoingOn tz pk tok rate ss date = exactFlow rate (\<lambda>s. countedOn tz tok date s \<and> sentBy pk s) ss"

definition rated :: "(CalStream \<Rightarrow> int) \<Rightarrow> CalStream list \<Rightarrow> bool" where
  "rated rate ss = list_all (\<lambda>s. 0 \<le> rate s \<and> cal_ratePerSecond s = Fin (of_int (rate s))) ss"

lemma flow_bounds: "rated rate ss \<Longrightarrow> 0 \<le> exactFlow rate c ss \<and> exactFlow rate c ss \<le> 86400 * (\<Sum>s\<leftarrow>ss. rate s)"
  by (induction ss) (auto simp: rated_def exactFlow_def)

lemma add_ints: "\<bar>a + b\<bar> \<le> 2 ^ 53 \<Longrightarrow> numAdd (Fin (of_int a)) (Fin (of_int b)) = Fin (of_int (a + b))"
  using fl_whole [of "a + b"] by simp

lemma sub_ints: "\<bar>a - b\<bar> \<le> 2 ^ 53 \<Longrightarrow> numSub (Fin (of_int a)) (Fin (of_int b)) = Fin (of_int (a - b))"
  using add_ints [of a "- b"] by (simp add: numSub_def)

lemma day_exact:
  assumes "rated rate ss" "0 \<le> a" "0 \<le> b" "a + b + 86400 * (\<Sum>s\<leftarrow>ss. rate s) \<le> 2 ^ 53"
  shows "fold (addFlow tz pk tok date) ss (Fin (of_int a), Fin (of_int b)) =
    (Fin (of_int (a + incomingOn tz pk tok rate ss date)), Fin (of_int (b + outgoingOn tz pk tok rate ss date)))"
  using assms
proof (induction ss arbitrary: a b)
  case Nil
  then show ?case by (simp add: incomingOn_def outgoingOn_def exactFlow_def)
next
  case (Cons s ss)
  let ?r = "86400 * rate s"
  have r: "0 \<le> rate s" "cal_ratePerSecond s = Fin (of_int (rate s))" "rated rate ss" using Cons.prems(1) by (simp_all add: rated_def)
  have sum: "0 \<le> (\<Sum>s\<leftarrow>ss. rate s)" using flow_bounds [OF r(3), of "\<lambda>_. False"] by (simp add: exactFlow_def)
  have "\<bar>?r\<bar> \<le> 2 ^ 53" using Cons.prems r(1) sum by simp
  from fl_whole [OF this] have daily: "numMult (cal_ratePerSecond s) (Fin 86400) = Fin (of_int ?r)" by (simp add: r(2) mult.commute)
  have step: "addFlow tz pk tok date s (Fin (of_int a), Fin (of_int b)) =
      (Fin (of_int (if countedOn tz tok date s \<and> \<not> sentBy pk s then a + ?r else a)),
       Fin (of_int (if countedOn tz tok date s \<and> sentBy pk s then b + ?r else b)))"
    using add_ints [of a ?r] add_ints [of b ?r] Cons.prems r(1) sum unfolding addFlow_def Let_def daily by (simp add: sentBy_def)
  have "fold (addFlow tz pk tok date) ss (addFlow tz pk tok date s (Fin (of_int a), Fin (of_int b))) =
      (Fin (of_int ((if countedOn tz tok date s \<and> \<not> sentBy pk s then a + ?r else a) + incomingOn tz pk tok rate ss date)),
       Fin (of_int ((if countedOn tz tok date s \<and> sentBy pk s then b + ?r else b) + outgoingOn tz pk tok rate ss date)))"
    unfolding step by (rule Cons.IH) (use Cons.prems r sum in auto)
  then show ?case by (simp add: incomingOn_def outgoingOn_def exactFlow_def algebra_simps)
qed

lemma accumulate_length [simp]: "length (accumulate c fs) = length fs"
  by (induction fs arbitrary: c) (simp_all add: Let_def)

lemma accumulate_kept:
  "i < length fs \<Longrightarrow> df_incoming (accumulate c fs ! i) = df_incoming (fs ! i) \<and> df_outgoing (accumulate c fs ! i) = df_outgoing (fs ! i)"
  by (induction fs arbitrary: c i) (auto simp: Let_def nth_Cons split: nat.split)

lemma sum_shift: "(\<Sum>j\<leftarrow>[0..<Suc k]. f j) = f 0 + (\<Sum>j\<leftarrow>[0..<k]. f (Suc j) :: int)"
  by (induction k) simp_all

lemma accumulate_exact:
  assumes "\<forall>i<length fs. df_net (fs ! i) = Fin (of_int (net i)) \<and> \<bar>net i\<bar> \<le> B" "\<bar>c\<bar> + int (length fs) * B \<le> 2 ^ 53" "i < length fs"
  shows "df_cumulativeNet (accumulate (Fin (of_int c)) fs ! i) = Fin (of_int (c + (\<Sum>j\<leftarrow>[0..<Suc i]. net j)))"
  using assms
proof (induction fs arbitrary: c net i)
  case (Cons f fs)
  have f: "df_net f = Fin (of_int (net 0))" "\<bar>net 0\<bar> \<le> B" using Cons.prems(1) by auto
  then have "0 \<le> int (length fs) * B" by simp
  then have c: "\<bar>c + net 0\<bar> + int (length fs) * B \<le> 2 ^ 53" using Cons.prems(2) f(2) by (simp add: algebra_simps)
  then have now: "numAdd (Fin (of_int c)) (df_net f) = Fin (of_int (c + net 0))"
    using add_ints [of c "net 0"] \<open>0 \<le> int (length fs) * B\<close> f(1) by simp
  show ?case
  proof (cases i)
    case 0
    then show ?thesis by (simp add: Let_def now)
  next
    case (Suc k)
    have "\<forall>i<length fs. df_net (fs ! i) = Fin (of_int (net (Suc i))) \<and> \<bar>net (Suc i)\<bar> \<le> B" using Cons.prems(1) by auto
    from Cons.IH [OF this c] Suc Cons.prems(3)
    have "df_cumulativeNet (accumulate (Fin (of_int (c + net 0))) fs ! k) = Fin (of_int (c + net 0 + (\<Sum>j\<leftarrow>[0..<Suc k]. net (Suc j))))" by simp
    moreover have "(\<Sum>j\<leftarrow>[0..<Suc i]. net j) = net 0 + (\<Sum>j\<leftarrow>[0..<Suc k]. net (Suc j))"
      unfolding Suc by (rule sum_shift)
    ultimately show ?thesis using Suc by (simp add: Let_def now)
  qed
qed simp

lemma total_exact:
  assumes "\<forall>x\<in>set xs. 0 \<le> val x \<and> val x \<le> B" "0 \<le> c" "c + int (length xs) * B \<le> 2 ^ 53"
  shows "foldl (\<lambda>sum x. numAdd sum (Fin (of_int (val x)))) (Fin (of_int c)) xs = Fin (of_int (c + (\<Sum>x\<leftarrow>xs. val x)))"
  using assms
proof (induction xs arbitrary: c)
  case (Cons x xs)
  have x: "0 \<le> val x" "val x \<le> B" using Cons.prems(1) by auto
  then have p: "0 \<le> int (length xs) * B" by simp
  with x Cons.prems(2,3) have b: "c + val x + int (length xs) * B \<le> 2 ^ 53" by (simp add: algebra_simps)
  then have "numAdd (Fin (of_int c)) (Fin (of_int (val x))) = Fin (of_int (c + val x))" using add_ints [of c "val x"] x p Cons.prems(2) by simp
  then show ?case using Cons.IH [of "c + val x"] Cons.prems x b by (simp add: add.assoc)
qed simp

lemma foldl_nth: "map sel fs = map g [0..<n] \<Longrightarrow> foldl (\<lambda>sum f. numAdd sum (sel f)) z fs = foldl (\<lambda>sum i. numAdd sum (g i)) z [0..<n]"
  using foldl_map [of numAdd z sel fs] foldl_map [of numAdd z g "[0..<n]"] by simp

text \<open>C37. As long as the rates are whole and the sum of the whole projection stays below 2^53, the doubles of
  the chart are exact: a day's incoming flow is a day's worth of every listed stream the wallet does not
  send, whoever receives it, the cumulative line is the running sum of the net flows, and its last
  point is the total of the summary.
\<close>
theorem projection_exact:
  assumes "rated rate ss" "86400 * (\<Sum>s\<leftarrow>ss. rate s) * int days \<le> 2 ^ 53"
  shows "let flows = dailyFlows tz pk tok days ss today; inc = (\<lambda>i. incomingOn tz pk tok rate ss (today + int i));
      out = (\<lambda>i. outgoingOn tz pk tok rate ss (today + int i)) in
    length flows = days \<and>
    (\<forall>i<days. df_incoming (flows ! i) = Fin (of_int (inc i)) \<and> df_outgoing (flows ! i) = Fin (of_int (out i)) \<and>
       df_cumulativeNet (flows ! i) = Fin (of_int (\<Sum>j\<leftarrow>[0..<Suc i]. inc j - out j))) \<and>
    fs_totalNet (flowSummary days flows) = Fin (of_int (\<Sum>j\<leftarrow>[0..<days]. inc j - out j))"
proof -
  define inc out B where "inc = (\<lambda>i. incomingOn tz pk tok rate ss (today + int i))" and
    "out = (\<lambda>i. outgoingOn tz pk tok rate ss (today + int i))" and "B = 86400 * (\<Sum>s\<leftarrow>ss. rate s)"
  have b: "0 \<le> inc i" "inc i \<le> B" "0 \<le> out i" "out i \<le> B" for i
    using flow_bounds [OF assms(1)] by (simp_all add: inc_def out_def incomingOn_def outgoingOn_def B_def)
  define day where "day = (\<lambda>i. let (incoming, outgoing) = dayFlow tz pk tok ss (today + int i)
      in \<lparr>df_date = today + int i, df_incoming = incoming, df_outgoing = outgoing, df_net = numSub incoming outgoing, df_cumulativeNet = Fin 0\<rparr>)"
  have flows: "dailyFlows tz pk tok days ss today = accumulate (Fin 0) (map day [0..<days])" unfolding dailyFlows_def day_def by (rule refl)
  have total: "int days * B \<le> 2 ^ 53" using assms(2) by (simp add: B_def mult.commute)
  have B: "B \<le> 2 ^ 53" if "i < days" for i
  proof -
    have "1 * B \<le> int days * B" using that b(1,2) [of 0] by (intro mult_right_mono) auto
    with total show ?thesis by simp
  qed
  have net: "\<bar>inc i - out i\<bar> \<le> B" for i using b [of i] by auto
  have day: "df_incoming (day i) = Fin (of_int (inc i)) \<and> df_outgoing (day i) = Fin (of_int (out i)) \<and> df_net (day i) = Fin (of_int (inc i - out i))"
    if "i < days" for i
  proof -
    have "dayFlow tz pk tok ss (today + int i) = (Fin (of_int (inc i)), Fin (of_int (out i)))"
      using day_exact [OF assms(1), of 0 0 tz pk tok "today + int i"] B [OF that] by (simp add: dayFlow_def inc_def out_def B_def)
    then show ?thesis using sub_ints [of "inc i" "out i"] net [of i] B [OF that] by (simp add: day_def)
  qed
  have sums: "df_cumulativeNet (accumulate (Fin 0) (map day [0..<days]) ! i) = Fin (of_int (\<Sum>j\<leftarrow>[0..<Suc i]. inc j - out j))" if "i < days" for i
    using accumulate_exact [of "map day [0..<days]" "\<lambda>j. inc j - out j" B 0 i] that day net total by simp
  have kept: "map df_incoming (accumulate (Fin 0) (map day [0..<days])) = map (\<lambda>i. Fin (of_int (inc i))) [0..<days]"
    "map df_outgoing (accumulate (Fin 0) (map day [0..<days])) = map (\<lambda>i. Fin (of_int (out i))) [0..<days]"
    using day by (auto intro!: nth_equalityI simp: accumulate_kept)
  have totals: "foldl (\<lambda>sum f. numAdd sum (df_incoming f)) (Fin 0) (accumulate (Fin 0) (map day [0..<days])) = Fin (of_int (\<Sum>j\<leftarrow>[0..<days]. inc j))"
    "foldl (\<lambda>sum f. numAdd sum (df_outgoing f)) (Fin 0) (accumulate (Fin 0) (map day [0..<days])) = Fin (of_int (\<Sum>j\<leftarrow>[0..<days]. out j))"
    unfolding foldl_nth [OF kept(1)] foldl_nth [OF kept(2)]
    using total_exact [of "[0..<days]" inc B 0] total_exact [of "[0..<days]" out B 0] b total by simp_all
  have "0 \<le> (\<Sum>j\<leftarrow>[0..<days]. f j) \<and> (\<Sum>j\<leftarrow>[0..<days]. f j) \<le> int days * B" if "\<And>i. 0 \<le> f i \<and> f i \<le> B" for f :: "nat \<Rightarrow> int"
    using that by (induction days) (auto simp: algebra_simps intro: add_mono)
  from this [of inc] this [of out] b total have "\<bar>(\<Sum>j\<leftarrow>[0..<days]. inc j) - (\<Sum>j\<leftarrow>[0..<days]. out j)\<bar> \<le> 2 ^ 53" by auto
  from sub_ints [OF this] have "fs_totalNet (flowSummary days (accumulate (Fin 0) (map day [0..<days]))) = Fin (of_int (\<Sum>j\<leftarrow>[0..<days]. inc j - out j))"
    by (simp add: flowSummary_def totals Let_def sum_list_subtractf)
  then show ?thesis unfolding Let_def flows inc_def [symmetric] out_def [symmetric] using sums day accumulate_kept [of _ "map day [0..<days]"] by simp
qed

text \<open>Whether a stream is paused or has ended before its time makes no difference to the projection.\<close>

lemma inactive_counted:
  "dayFlow tz pk tok (map (\<lambda>s. s\<lparr>cal_isActive := a, cal_isPaused := b, cal_status := c\<rparr>) ss) date = dayFlow tz pk tok ss date"
proof -
  have "addFlow tz pk tok date (s\<lparr>cal_isActive := a, cal_isPaused := b, cal_status := c\<rparr>) = addFlow tz pk tok date s" for s
    by (rule ext) (auto simp: addFlow_def countedOn_def runsBetween_def streamStart_def streamEnd_def Let_def)
  then show ?thesis by (simp add: dayFlow_def fold_map comp_def)
qed

section \<open>Whose streams are shown\<close>

lemma numberOfText_whole: "0 \<le> n \<Longrightarrow> n \<le> 2 ^ 53 \<Longrightarrow> numberOfText (toString n) = Fin (of_int n)"
proof -
  assume n: "0 \<le> n" "n \<le> 2 ^ 53"
  have d: "list_all is_digit (toString n)" using toString_digits [OF n(1)] .
  have t: "trim (toString n) = toString n" "toString n \<noteq> []" using trim_digits [OF d] by simp_all
  have v: "int (digitsVal (toString n)) = n" using digitsVal_toString [OF n(1)] .
  have p: "parseFloat (toString n) = Fin (of_int n)"
    using parseFloat_whole [OF d t(2)] v n(2) by (metis of_int_of_nat_eq of_nat_le_iff of_nat_numeral of_nat_power)
  have r: "radix_prefix (toString n) = None"
    using radix_prefix_digits [OF d] .
  have h: "hd (toString n) \<noteq> CHR ''-''" "hd (toString n) \<noteq> CHR ''+''"
    using d t(2) digit_not_sign [of "hd (toString n)"] by (cases "toString n"; simp)+
  have c: "decimalComplete (toString n)" using d by (simp add: decimalComplete_def exponentComplete_def list_all_iff dropWhile_eq_Nil_conv [THEN iffD2])
  show ?thesis using t r h c p by (simp add: numberOfText_def)
qed

lemma row_stream:
  "\<exists>s. mapCalendarStream (ofJson (JObj (rowFields r))) = Inr s \<and> cal_sender s = Some (VStr (sender r)) \<and>
     cal_recipient s = Some (VStr (recipient r)) \<and> cal_tokenSymbol s = VStr ''USDC'' \<and>
     cal_ratePerSecond s = (let n = numberOfText (ratePerSecond r) in if n = NaN then Fin 0 else n) \<and>
     cal_startTime s = Some (ofJson (streamIdToJson (startTime r)))"
  by (simp add: mapCalendarStream_def rowFields_def fieldOr_def truthyField_def Let_def)

text \<open>C36. The page asks for the streams of a \<open>user\<close>, a parameter the backend does not read: the answer is the same
  for every wallet and holds the newest streams of everyone. Each of them that the wallet does not
  send is listed and counted as incoming, although others receive it; the amounts are base units, and
  every token is called USDC.
\<close>
theorem calendar_shows_strangers:
  "\<exists>resp. (\<forall>pk. listStreams logged rows (listQueryOf (calendarRequest pk)) = Success 200 resp) \<and>
    (\<exists>ss. calendarStreams (ofJson (listJson resp)) = Inr ss \<and> list_all2 (\<lambda>r s.
        cal_sender s = Some (VStr (sender r)) \<and> cal_recipient s = Some (VStr (recipient r)) \<and> cal_tokenSymbol s = VStr ''USDC'' \<and>
        (\<forall>pk. sender r \<noteq> pk \<longrightarrow> s \<in> set (filteredStreams ''all'' ''incoming'' (Some pk) ss)) \<and>
        (\<forall>pk n. sender r \<noteq> pk \<and> ratePerSecond r = toString n \<and> 0 \<le> n \<and> 86400 * n \<le> 2 ^ 53 \<and>
           runsBetween (localMidnight tz date) (localMidnight tz date) s \<longrightarrow>
           dayFlow tz (Some pk) ''all'' [s] date = (Fin (of_int (86400 * n)), Fin 0))) (fst resp) ss)"
proof -
  let ?q = "\<lambda>pk. listStreams logged rows (listQueryOf (calendarRequest pk))"
  have same: "?q pk = ?q []" for pk by (simp add: listStreams_def listQueryOf_def calendarRequest_def)
  have "\<exists>resp. ?q [] = Success 200 resp"
    by (simp add: listStreams_def listQueryOf_def calendarRequest_def Let_def split: prod.split)
  then obtain resp where resp: "?q pk = Success 200 resp" for pk using same by metis
  define read where "read r s \<longleftrightarrow> mapCalendarStream (ofJson (JObj (rowFields r))) = Inr s" for r s
  have "\<forall>r. \<exists>s. read r s" using row_stream unfolding read_def by blast
  then obtain f where f: "read r (f r)" for r by metis
  define ss where "ss = map f (fst resp)"
  have "list_all2 read (fst resp) ss" using f by (simp add: ss_def list_all2_conv_all_nth)
  then have "mapE mapCalendarStream (map (\<lambda>r. ofJson (JObj (rowFields r))) (fst resp)) = Inr ss"
    by (simp add: mapE_Inr read_def list_all2_conv_all_nth)
  moreover have "streamListOf (ofJson (listJson resp)) = Inr (map (\<lambda>r. ofJson (JObj (rowFields r))) (fst resp))"
    by (simp add: streamListOf_def listJson_def comp_def split: prod.split)
  ultimately have "calendarStreams (ofJson (listJson resp)) = Inr ss" by (simp add: calendarStreams_def bindE_def)
  moreover have "list_all2 (\<lambda>r s.
        cal_sender s = Some (VStr (sender r)) \<and> cal_recipient s = Some (VStr (recipient r)) \<and> cal_tokenSymbol s = VStr ''USDC'' \<and>
        (\<forall>pk. sender r \<noteq> pk \<longrightarrow> s \<in> set (filteredStreams ''all'' ''incoming'' (Some pk) ss)) \<and>
        (\<forall>pk n. sender r \<noteq> pk \<and> ratePerSecond r = toString n \<and> 0 \<le> n \<and> 86400 * n \<le> 2 ^ 53 \<and>
           runsBetween (localMidnight tz date) (localMidnight tz date) s \<longrightarrow>
           dayFlow tz (Some pk) ''all'' [s] date = (Fin (of_int (86400 * n)), Fin 0))) (fst resp) ss"
  proof (unfold list_all2_conv_all_nth, intro conjI allI impI)
    show "length (fst resp) = length ss" by (simp add: ss_def)
  next
    fix i assume i: "i < length (fst resp)"
    let ?r = "fst resp ! i" and ?s = "ss ! i"
    have "read ?r ?s" using f i by (simp add: ss_def)
    with row_stream [of ?r] have s: "cal_sender ?s = Some (VStr (sender ?r))" "cal_recipient ?s = Some (VStr (recipient ?r))"
      "cal_tokenSymbol ?s = VStr ''USDC''" "cal_ratePerSecond ?s = (let n = numberOfText (ratePerSecond ?r) in if n = NaN then Fin 0 else n)"
      by (auto simp: read_def)
    show "cal_sender ?s = Some (VStr (sender ?r))" "cal_recipient ?s = Some (VStr (recipient ?r))" "cal_tokenSymbol ?s = VStr ''USDC''" by (fact s)+
    fix pk
    show "?s \<in> set (filteredStreams ''all'' ''incoming'' (Some pk) ss)" if "sender ?r \<noteq> pk"
      using that i s by (simp add: filteredStreams_def ss_def)
    fix n
    assume a: "sender ?r \<noteq> pk \<and> ratePerSecond ?r = toString n \<and> 0 \<le> n \<and> 86400 * n \<le> 2 ^ 53 \<and>
      runsBetween (localMidnight tz date) (localMidnight tz date) ?s"
    then have "rated (\<lambda>_. n) [?s]" using numberOfText_whole [of n] s(4) by (simp add: rated_def)
    from day_exact [OF this, of 0 0 tz "Some pk" "''all''" date] a s(1)
    show "dayFlow tz (Some pk) ''all'' [?s] date = (Fin (of_int (86400 * n)), Fin 0)"
      by (simp add: dayFlow_def incomingOn_def outgoingOn_def exactFlow_def sentBy_def countedOn_def)
  qed
  ultimately show ?thesis using resp by blast
qed

section \<open>The states of the page\<close>

definition noWallet :: "calendar_event \<Rightarrow> bool" where
  "noWallet e = (case e of WalletIs ready (Some pk) \<Rightarrow> False | _ \<Rightarrow> True)"

interpretation unconnected: event_machine "calendarStep textOf" "\<lambda>p. cp_loading p \<and> \<not> cp_waiting p \<and> cp_session p = None" noWallet for textOf
proof
  show "cp_loading (calendarStep textOf e p) \<and> \<not> cp_waiting (calendarStep textOf e p) \<and> cp_session (calendarStep textOf e p) = None"
    if "cp_loading p \<and> \<not> cp_waiting p \<and> cp_session p = None" "noWallet e" for e p
    using that by (cases e) (auto simp: sessionEffect_def noWallet_def split: option.splits)
qed

text \<open>
  Without a wallet the page is loading for ever. And when the wallet changes while a request is on its
  way, the aborted one takes the skeleton away: the calendar is shown empty until the next answer.
\<close>
lemma calendar_loading:
  "list_all noWallet es \<Longrightarrow> calendarView (fold (calendarStep textOf) es openCalendar) = CalendarSkeleton"
  "calendarView (fold (calendarStep textOf) [WalletIs True (Some a), WalletIs True (Some b)] openCalendar) =
     (if a = b then CalendarSkeleton else CalendarShown [] [])"
  using unconnected.run_keeps [of openCalendar es textOf]
  by (simp_all add: calendarView_def openCalendar_def sessionEffect_def calendarAnswer_def filteredStreams_def)

section \<open>Examples\<close>

definition exampleRow :: stream_row where
  "exampleRow =
     \<lparr>streamId = 7, sender = ''GA'', recipient = ''GB'', tokenAddress = ''CT'', ratePerSecond = toString 100, depositedAmount = ''1000'',
      withdrawnAmount = ''0'', startTime = 0, lastUpdateTime = 0, endTime = None, isActive = True, isPaused = False, pausedAt = None,
      totalPausedDuration = 0, updatedAt = 0\<rparr>"

definition exampleCalStream :: CalStream where
  "exampleCalStream =
     \<lparr>cal_id = None, cal_streamId = Some (VNum (Fin 7)), cal_sender = Some (VStr ''GA''), cal_recipient = Some (VStr ''GB''),
      cal_tokenSymbol = VStr ''USDC'', cal_ratePerSecond = Fin (of_int 100), cal_depositedAmount = VStr ''1000'', cal_withdrawnAmount = VStr ''0'',
      cal_startTime = Some (VNum (Fin 86400)), cal_endTime = Some (VNum (Fin 259200)), cal_isActive = Some (VBool True),
      cal_isPaused = Some (VBool False), cal_status = VStr ''unknown''\<rparr>"

lemma example_times: "streamStart exampleCalStream = Some 86400000" "streamEnd exampleCalStream = Some (Some 259200000)"
  using fl_int [of 86400000] fl_int [of 259200000] by (simp_all add: streamStart_def streamEnd_def exampleCalStream_def)

theorem calendar_marks_witness:
  "let marks = (\<lambda>z. {k. \<exists>d. (exampleCalStream, k, d) \<in> set (getStreamsForDate 0 z [exampleCalStream])}) in
     StartMark \<in> marks 1 \<and> ActiveMark \<in> marks 2 \<and> EndMark \<in> marks 3 \<and> ActiveMark \<notin> marks 4"
  using calendar_marks [OF example_times(1), of 0 1 "[exampleCalStream]"] calendar_marks [OF example_times(1), of 0 2 "[exampleCalStream]"]
    calendar_marks [OF example_times(1), of 0 3 "[exampleCalStream]"] calendar_marks [OF example_times(1), of 0 4 "[exampleCalStream]"]
  by (simp add: example_times localDay_def Let_def)

theorem projection_exact_witness:
  "let flows = dailyFlows 0 (Some ''GC'') ''all'' 7 [exampleCalStream] 0 in
     df_incoming (flows ! 0) = Fin 0 \<and> df_incoming (flows ! 2) = Fin 8640000 \<and> df_cumulativeNet (flows ! 6) = Fin 25920000"
proof -
  have r: "rated (\<lambda>_. 100) [exampleCalStream]" by (simp add: rated_def exampleCalStream_def)
  have b: "86400 * (\<Sum>s\<leftarrow>[exampleCalStream]. 100) * int 7 \<le> 2 ^ 53" by simp
  have on: "incomingOn 0 (Some ''GC'') ''all'' (\<lambda>_. 100) [exampleCalStream] z = (if 1 \<le> z \<and> z \<le> 3 then 8640000 else 0)"
    "outgoingOn 0 (Some ''GC'') ''all'' (\<lambda>_. 100) [exampleCalStream] z = 0" for z
    by (auto simp: incomingOn_def outgoingOn_def exactFlow_def countedOn_def sentBy_def runsBetween_def dateLe_def example_times localMidnight_def)
      (simp_all add: exampleCalStream_def)
  have u: "[0..<Suc 6] = [0, 1, 2, 3, 4, 5, 6]" by code_simp
  note all = projection_exact [OF r b, of 0 "Some ''GC''" "''all''" 0, unfolded Let_def on, THEN conjunct2, THEN conjunct1, rule_format]
  show ?thesis using all [of 0] all [of 2] all [of 6] unfolding Let_def u by simp
qed

theorem calendar_shows_strangers_witness:
  "\<exists>resp ss. listStreams (\<lambda>_ _. False) (\<lambda>_ _. [exampleRow]) (listQueryOf (calendarRequest ''GC'')) = Success 200 resp \<and>
     calendarStreams (ofJson (listJson resp)) = Inr ss \<and> length ss = length (fst resp)"
  using calendar_shows_strangers [of "\<lambda>_ _. False" "\<lambda>_ _. [exampleRow]" 0 0]
  apply (elim exE conjE)
  apply (intro exI conjI)
    apply (erule spec)
   apply assumption
  apply (drule list_all2_lengthD)
  apply simp
  done

lemma hd_upto: "map f xs = [a..b] \<Longrightarrow> a \<le> b \<Longrightarrow> f (hd xs) = (a :: int)"
  by (cases xs) (auto simp: upto_rec1)

theorem calendar_covers_month_witness:
  "let cells = calendarDays 0 19782 [] 19782 in
     cd_date (hd cells) = 19750 \<and> length cells = 42 \<and> 19782 \<in> cd_date ` set cells"
proof -
  have c: "yearOfDay 19782 = 2024" "monthOfDay 19782 = 1" using leap_day by simp_all
  have f: "makeDay 2024 1 1 = 19754" "weekDay 19754 = 4"
    by (simp_all add: makeDay_def dayFromYear_def leapYear_def monthStart_def weekDay_def)
  note all = calendar_covers_month [where tz = 0 and today = 19782 and ss = "[]" and cur = 19782, unfolded Let_def c f]
  have d: "map cd_date (calendarDays 0 19782 [] 19782) = [19754 - 4..19754 - 4 + 41]" by (rule all [THEN conjunct1])
  have n: "length (calendarDays 0 19782 [] 19782) = 42" using arg_cong [OF d, of length] by (simp only: length_map length_upto)
  have "cd_date (hd (calendarDays 0 19782 [] 19782)) = 19754 - 4" by (rule hd_upto [OF d]) simp
  then have "cd_date (hd (calendarDays 0 19782 [] 19782)) = 19750" by simp
  moreover have "19782 \<in> cd_date ` set (calendarDays 0 19782 [] 19782)"
    using all [THEN conjunct2, THEN conjunct2, THEN conjunct1, rule_format, of 19782] c by blast
  ultimately show ?thesis unfolding Let_def using n by blast
qed

end
