(* ===== verification/Spec2Isabelle.thy ===== *)
theory Spec2Isabelle
  imports Poll_Position Batch_Mutex Auth Runway Csv_Export Batch_Upload Sdk_Client Admin_Api User_Api
    Payment_Links Stream_Form Sse_Client App_Pipeline Client_Utils
    Details_Page Creation_Flow Notifications Cashflow_Calendar
begin

text \<open>
  A model of the FlowFi backend (\<open>src/backend/src\<close>), the service beside the payment-stream contract,
  which indexes the contract's events into a database, serves streams and claimable amounts over
  HTTP and forwards actions to the chain, and of the parts of the web client (\<open>src/frontend/src\<close>) and
  of the client package (\<open>src/packages/flowfi-sdk/src\<close>) that compute amounts and build contract calls.

  \<^bold>\<open>The parts and how they interact.\<close> The event worker polls a Soroban RPC node for contract
  events, sends each to a handler that updates the tables in one transaction and broadcasts the
  change, keeps the position of the last success, and puts an event whose handler threw into a
  dead-letter table. The HTTP handlers read the same tables, fall back to the chain when a row is
  stale, compute claimable amounts through a bounded cache, and call the chain access layer for
  withdrawals, pauses, cancellations and transaction simulation. The chain access layer bounds and
  retries every call; the RPC pool chooses the endpoint. Administrators reset, replay and inspect the
  indexer through their own handlers. The web client and the client package do not need the backend
  to act: they check what was typed, turn it into base units and let a wallet sign the contract call.
  Beside that the hooks of the web client keep a wallet session and drafts in the storage of the
  browser, fetch the backend's streams, subscribe to its events, animate claimable amounts and show
  a withdrawal before the indexer has seen it; the request pipeline stands between them and the
  handlers.

  \<^bold>\<open>Theories.\<close>
  \<^item> \<open>Prelude\<close>, \<open>Js_Values\<close>: results, errors, and the JavaScript values the sources compute with
    (BigInt and Number conversions, strings, JSON).
  \<^item> \<open>Prisma_Store\<close>: the tables of \<open>prisma/schema.prisma\<close> as maps keyed by their unique columns, the
    Prisma calls on them, and the invariant \<open>wf_db\<close>.
  \<^item> \<open>Xdr_Decode\<close>, \<open>Event_Handlers\<close>: the decoders and the ten event handlers of
    \<open>workers/soroban-event-worker.ts\<close>; \<open>Handler_Contract\<close> states what every handler keeps as the locale
    \<open>event_handler\<close>, interpreted for each of them; \<open>Handler_Effects\<close> and \<open>Withdrawal_Ledger\<close> have
    what each handler does: redelivery at a later time, isolation of streams, the withdrawn total against the log.
  \<^item> \<open>Dead_Letter\<close> (\<open>services/indexerService.ts\<close>), \<open>Metrics\<close> (\<open>lib/metrics.ts\<close>), \<open>Event_Worker\<close>, \<open>Poll_Cycle\<close>,
    \<open>Poll_Position\<close>: quarantine and replay, counters, the poll loop as steps of a reachable-world
    relation, its invariants through the locale \<open>cycle_invariant\<close>, and the position it stores.
    \<open>Batch_Mutex\<close>: the promise chain of \<open>runExclusive\<close> as a step relation.
  \<^item> \<open>Memory_Cache\<close> (\<open>lib/redis.ts\<close>): the LRU cache with expiry, with the locale \<open>ttl_cache\<close>;
    \<open>Claimable\<close> (\<open>services/claimable.service.ts\<close>): the i128 computation, equal to an unbounded
    reference, and the cached service as a client of that locale.
  \<^item> \<open>Rpc_Pool\<close> (\<open>lib/rpc-pool.ts\<close>): failover and circuit breakers, with the locale \<open>circuit_breaker\<close>.
  \<^item> \<open>Soroban_Service\<close>, \<open>Action_Simulation\<close> (\<open>services/sorobanService.ts\<close>, \<open>controllers/stream/simulate.ts\<close>):
    deadlines, retries, chain reads, submissions, and the preparation of transactions for wallets.
  \<^item> \<open>Stream_Api\<close> (\<open>routes/v1/streams/withdraw.ts\<close>, \<open>controllers/stream/cancel.ts\<close>,
    \<open>controllers/stream.controller.ts\<close>, \<open>validators/stream.validator.ts\<close>) and \<open>Stream_Queries\<close> (the read
    endpoints and the repositories): every handler with its checks in the order of the code.
  \<^item> \<open>Sse_Service\<close>, \<open>Sse_Subscribe\<close> (\<open>services/sse.service.ts\<close>, \<open>controllers/sse.controller.ts\<close>): the registry of
    event-stream connections with its limits, counters, back-pressure and broadcasts, and the
    subscription endpoint, split at its database query and interleaved with everything else.
  \<^item> \<open>Webhooks\<close> (\<open>services/webhook.service.ts\<close>, \<open>controllers/webhook.controller.ts\<close>): subscriptions,
    signatures, deliveries with their retries, and who may change what.
  \<^item> \<open>Auth\<close> (\<open>middleware/auth.ts\<close>): challenges, tokens and the two checks, as a step relation over
    wallet and clock events.
  \<^item> \<open>Runway\<close> (\<open>workers/stream-runway-worker.ts\<close>): the remaining time of a stream, the alerts and their
    spacing, and who receives them.
  \<^item> \<open>Amounts\<close> (\<open>frontend/src/utils/amount.ts\<close>) and \<open>Csv_Export\<close> (\<open>services/export.service.ts\<close>, the reader of
    \<open>frontend/src/lib/csv-parser.ts\<close>): formatting and parsing of amounts, and the statement export.
  \<^item> \<open>Js_Float\<close>: doubles as rationals with correct rounding, \<open>parseFloat\<close>, \<open>Math.round\<close> and \<open>BigInt\<close> of a
    number, with error bounds; \<open>Wallet_Client\<close> (\<open>frontend/src/lib/soroban.ts\<close>, \<open>stream-validation.ts\<close>):
    the creation form and the calls a wallet signs; \<open>Batch_Upload\<close> (\<open>lib/csv-parser.ts\<close>,
    \<open>BatchStreamWizard.tsx\<close>): payroll files, their totals and their execution; \<open>Sdk_Client\<close>
    (\<open>packages/flowfi-sdk/src\<close>): the client package with its signers.
  \<^item> \<open>Admin_Api\<close> (\<open>controllers/admin.controller.ts\<close>, \<open>routes/v1/admin.routes.ts\<close>, \<open>services/indexer.service.ts\<close>):
    the dead-letter endpoints, reset and replay with their previews; \<open>User_Api\<close>
    (\<open>controllers/user.controller.ts\<close>, \<open>routes/v1/events.routes.ts\<close>, \<open>middleware/error.middleware.ts\<close>):
    registration, the history of a wallet and the answers to errors.
  \<^item> \<open>Json_Text\<close>: \<open>JSON.parse\<close> and its round trip with the printer of \<open>Js_Values\<close>; \<open>Payment_Links\<close>
    (\<open>frontend/src/utils/paymentRequest.ts\<close>): links through JSON, UTF-8, base64 and the query string.
  \<^item> \<open>Event_Run\<close>: the locales \<open>event_machine\<close> (an invariant of a step function over events) and
    \<open>event_counter\<close> (a potential that bounds a count), interpreted by the hooks below.
  \<^item> \<open>Wallet_Session\<close> (\<open>lib/wallet.ts\<close>, \<open>context/wallet-context.tsx\<close>): connecting, the reducer and the
    stored session; \<open>Stream_Form\<close> (\<open>hooks/useStreamForm.ts\<close>): the creation form with drafts, templates and
    balances; \<open>Sse_Client\<close> (\<open>hooks/useStreamEvents.ts\<close>): the event source with its back-off, against the
    subscription route of the backend.
  \<^item> \<open>Live_Amounts\<close> (\<open>hooks/useStreamingAmount.ts\<close>): the animated amount in doubles, its range and its
    agreement with \<open>Claimable\<close>; \<open>Stream_Feed\<close> (\<open>lib/api\<close>, \<open>lib/dashboard.ts\<close>, \<open>hooks/useIncomingStreams.ts\<close>):
    fetching with failover, the dashboard's figures, optimistic withdrawals and the polling after them.
  \<^item> \<open>App_Pipeline\<close> (\<open>app.ts\<close>, \<open>config/sandbox.ts\<close>, \<open>middleware\<close>, \<open>routes/health.routes.ts\<close>,
    \<open>routes/metrics.routes.ts\<close>): what happens to a request before a router has it.
  \<^item> \<open>Client_Utils\<close> (\<open>utils/activityFilters.ts\<close>, \<open>utils/subscriptions.ts\<close>, \<open>hooks/useSettings.ts\<close>).
  \<^item> \<open>Tx_Tracker\<close> (\<open>components/TransactionTracker.tsx\<close>): the tracker hook and its polling; \<open>Details_Page\<close>
    (\<open>app/streams/[id]/stream-details-content.tsx\<close>): the page of one stream on the JSON of the backend;
    \<open>Creation_Flow\<close> (\<open>StreamCreationWizard.tsx\<close>, \<open>create-stream-content.tsx\<close>, \<open>dashboard-view.tsx\<close>): the steps
    of the wizard, the one-page form and the handlers of the dashboard.
  \<^item> \<open>Notifications\<close> (\<open>components/NotificationDropdown.tsx\<close>): the bell on the events of the hook; \<open>Js_Dates\<close>:
    the calendar arithmetic of JavaScript dates; \<open>Cashflow_Calendar\<close> (\<open>app/dashboard/calendar/page.tsx\<close>,
    \<open>CalendarView.tsx\<close>, \<open>CashflowChart.tsx\<close>): the month, its marks and the projection, on the list of the backend.
  \<^item> \<open>Examples\<close>: concrete events and databases used by the witnesses.

  \<^bold>\<open>Parameters.\<close> The database order of rows, the clocks, the RPC node, the Stellar SDK's encoders and
  the changes other requests make between two database calls of a handler are arguments, and so are
  the sockets of connections, HMAC, the token encoder, the reading of dates, the answers of fetches, the wallet extension and the way Prisma reads a request
  body. A retry
  loop may not end, so \<open>withRpcRetry\<close> is a partial function into \<open>option\<close>; with a finite retry limit
  it is shown to return; so is the loop of the export, for distinct identifiers. All other loops are
  structural recursions. The only bound chosen here
  is the number of pages of \<open>walkEvents\<close> and \<open>walkDeadLetters\<close>, at least the number of rows.

  \<^bold>\<open>Idealisations.\<close> Strings hold code units below 256, a code point above is read as a question mark;
  only the token encoding of payment links is modelled on all of Unicode, as lists of code points;
  a long dash in a message is a hyphen. Payment links carry whole durations. Local times
  have a fixed offset. Storage that holds a
  value of another type than the code wrote is told apart and not followed further, and no other
  tab writes to it. Doubles do
  not tell a negative zero from zero. Time spent inside synchronous code is 0. The
  sources read XDR values both as properties (\<open>val.sym\<close>) and as methods (\<open>val.u64()\<close>), which no one
  version of the SDK offers; both are modelled as reading the value. Log output, tracing spans and
  histograms are left out.

  \<^bold>\<open>Not modelled.\<close> The rendering of the pages of the frontend, the Rust contract (of
  which only the signatures of the entry points are used), the counting of the rate-limit package,
  security headers, the statistics of the admin routes, the API description and Prisma's generated
  client. The private method \<open>deadLetterEvent\<close> of the
  worker is never called.
\<close>

end
